(* ===== verification/Napi_Prelude.thy ===== *)
theory Napi_Prelude
  imports Main "HOL-Library.Word"
begin

text \<open>
  Shared vocabulary of the development: the status codes the native API returns, addresses and
  null pointers, fixed-width counters, a checked heap access, and the generic list and map lemmas
  the component theories use.

  A pointer is an \<open>addr\<close>; a pointer field that may be null is an \<open>addr option\<close>.  A memory access
  goes through \<open>upd_at\<close>, which is \<open>None\<close> when the address is not allocated, so that an
  access to freed memory is a visible outcome of the model and never a default value.
\<close>

named_theorems inv_intros \<open>an operation keeps an invariant\<close>
named_theorems op_defs \<open>definitions of the modelled operations\<close>

type_synonym addr = nat
type_synonym u8 = "8 word"
type_synonym u16 = "16 word"
type_synonym u32 = "32 word"
type_synonym u64 = "64 word"

text \<open>The statuses that the modelled functions return, by the names the sources use.\<close>

datatype napi_status =
    napi_ok
  | napi_invalid_arg
  | napi_object_expected
  | napi_string_expected
  | napi_name_expected
  | napi_function_expected
  | napi_number_expected
  | napi_boolean_expected
  | napi_array_expected
  | napi_generic_failure
  | napi_pending_exception
  | napi_cancelled
  | napi_escape_called_twice
  | napi_handle_scope_mismatch
  | napi_callback_scope_mismatch
  | napi_queue_full
  | napi_closing
  | napi_bigint_expected
  | napi_date_expected
  | napi_arraybuffer_expected
  | napi_detachable_arraybuffer_expected
  | napi_create_ark_runtime_too_many_envs

section \<open>Checked heap access\<close>

definition upd_at :: "('a \<rightharpoonup> 'b) \<Rightarrow> 'a \<Rightarrow> ('b \<Rightarrow> 'b) \<Rightarrow> ('a \<rightharpoonup> 'b) option" where
  "upd_at h p f = (case h p of None \<Rightarrow> None | Some v \<Rightarrow> Some (h(p \<mapsto> f v)))"

lemma upd_at_Some [simp]: "h p = Some v \<Longrightarrow> upd_at h p f = Some (h(p \<mapsto> f v))"
  by (simp add: upd_at_def)

lemma upd_at_None [simp]: "h p = None \<Longrightarrow> upd_at h p f = None"
  by (simp add: upd_at_def)

lemma upd_at_dom: "upd_at h p f = Some h' \<Longrightarrow> dom h' = dom h"
  by (auto simp: upd_at_def split: option.splits if_splits)

section \<open>Lists\<close>

definition hd_opt :: "'a list \<Rightarrow> 'a option" where
  "hd_opt xs = (case xs of [] \<Rightarrow> None | x # _ \<Rightarrow> Some x)"

lemma hd_opt_simps [simp]: "hd_opt [] = None" "hd_opt (x # xs) = Some x"
  by (simp_all add: hd_opt_def)

lemma hd_opt_None_iff [simp]: "hd_opt xs = None \<longleftrightarrow> xs = []"
  by (cases xs) auto

lemma hd_opt_Some_iff: "hd_opt xs = Some x \<longleftrightarrow> (\<exists>ys. xs = x # ys)"
  by (cases xs) auto

lemma hd_opt_append: "hd_opt (xs @ ys) = (if xs = [] then hd_opt ys else hd_opt xs)"
  by (cases xs) auto

definition last_opt :: "'a list \<Rightarrow> 'a option" where
  "last_opt xs = (if xs = [] then None else Some (last xs))"

lemma last_opt_simps [simp]: "last_opt [] = None" "last_opt (xs @ [x]) = Some x"
  by (simp_all add: last_opt_def)

lemma last_opt_Cons: "last_opt (x # xs) = (if xs = [] then Some x else last_opt xs)"
  by (simp add: last_opt_def)

lemma remove1_append_notin: "x \<notin> set xs \<Longrightarrow> remove1 x (xs @ ys) = xs @ remove1 x ys"
  by (induction xs) auto

lemma remove1_split: "x \<notin> set xs \<Longrightarrow> remove1 x (xs @ x # ys) = xs @ ys"
  by (simp add: remove1_append_notin)

end
