(* ===== verification/Reference_Manager.thy ===== *)
theory Reference_Manager
  imports Napi_Prelude
begin

text \<open>
  The reference manager (reference\_manager/native\_reference\_manager.cpp): the intrusive doubly
  linked list that holds every reference owned by the runtime.  The link fields \<open>prev_link\<close> and
  \<open>next_link\<close> live in the reference objects, so the state is a heap of link nodes and the head
  pointer \<open>references\<close>.  The abstract view is the list of addresses from the head.
\<close>

section \<open>State and operations\<close>

record ref_node =
  prev_link :: "addr option"
  next_link :: "addr option"

record ref_mgr =
  references :: "addr option"
  nodes :: "addr \<rightharpoonup> ref_node"

definition new_node :: ref_node where
  "new_node = \<lparr>prev_link = None, next_link = None\<rparr>"

text \<open>
  \<open>if (p) p->next_ = v\<close> and \<open>if (q) q->prev_ = v\<close>: a write through a pointer that may be null.
  \<open>None\<close> is a write to a freed object.
\<close>

definition set_next :: "(addr \<rightharpoonup> ref_node) \<Rightarrow> addr option \<Rightarrow> addr option \<Rightarrow> (addr \<rightharpoonup> ref_node) option" where
  "set_next m p v = (case p of None \<Rightarrow> Some m | Some a \<Rightarrow> upd_at m a (\<lambda>n. n\<lparr>next_link := v\<rparr>))"

definition set_prev :: "(addr \<rightharpoonup> ref_node) \<Rightarrow> addr option \<Rightarrow> addr option \<Rightarrow> (addr \<rightharpoonup> ref_node) option" where
  "set_prev m q v = (case q of None \<Rightarrow> Some m | Some a \<Rightarrow> upd_at m a (\<lambda>n. n\<lparr>prev_link := v\<rparr>))"

text \<open>\<open>CreateHandler\<close>: push at the head.\<close>

definition CreateHandler :: "ref_mgr \<Rightarrow> addr \<Rightarrow> ref_mgr option" where
  "CreateHandler s r =
     (if references s \<noteq> None
      then Option.bind (set_prev (nodes s) (references s) (Some r)) (\<lambda>m1.
           Option.bind (set_next m1 (Some r) (references s)) (\<lambda>m2.
             Some (s\<lparr>nodes := m2, references := Some r\<rparr>)))
      else Some (s\<lparr>references := Some r\<rparr>))"

text \<open>\<open>ReleaseHandler\<close>: unlink, moving the head when the released object is the head.\<close>

definition ReleaseHandler :: "ref_mgr \<Rightarrow> addr \<Rightarrow> ref_mgr option" where
  "ReleaseHandler s r =
     Option.bind (nodes s r) (\<lambda>n.
     Option.bind (set_next (nodes s) (prev_link n) (next_link n)) (\<lambda>m1.
     let head = (if references s = Some r then next_link n else references s) in
     Option.bind (set_prev m1 (next_link n) (prev_link n)) (\<lambda>m2.
       Some (s\<lparr>nodes := m2, references := head\<rparr>))))"

text \<open>
  \<open>delete handler\<close> as far as the list is concerned: the destructor of a runtime-owned reference
  calls \<open>ReleaseHandler\<close> on itself and the object is gone.
\<close>

definition delete_handler :: "ref_mgr \<Rightarrow> addr \<Rightarrow> ref_mgr option" where
  "delete_handler s r =
     map_option (\<lambda>t. t\<lparr>nodes := (nodes t)(r := None)\<rparr>) (ReleaseHandler s r)"

text \<open>
  The destructor's loop: take the head, advance \<open>references\<close> to the head's successor, delete
  the old head.  \<open>None\<close> is a loop that does not end or that reads a freed object; the result
  holds the deleted addresses in order.
\<close>

partial_function (option) destroy_manager :: "ref_mgr \<Rightarrow> addr list \<Rightarrow> (addr list \<times> ref_mgr) option" where
  "destroy_manager s done =
     (case references s of
        None \<Rightarrow> Some (done, s)
      | Some h \<Rightarrow>
          Option.bind (nodes s h) (\<lambda>n.
          Option.bind (delete_handler (s\<lparr>references := next_link n\<rparr>) h) (\<lambda>t.
            destroy_manager t (done @ [h]))))"

section \<open>The list invariant\<close>

text \<open>
  \<open>lseg m p xs e\<close>: the nodes \<open>xs\<close> are linked in order, the first one's predecessor is \<open>p\<close> and
  the last one's successor is \<open>e\<close>.
\<close>

primrec lseg :: "(addr \<rightharpoonup> ref_node) \<Rightarrow> addr option \<Rightarrow> addr list \<Rightarrow> addr option \<Rightarrow> bool" where
  "lseg m p [] e \<longleftrightarrow> True"
| "lseg m p (x # xs) e \<longleftrightarrow>
     m x = Some \<lparr>prev_link = p, next_link = (if xs = [] then e else hd_opt xs)\<rparr> \<and>
     lseg m (Some x) xs e"

definition dll :: "ref_mgr \<Rightarrow> addr list \<Rightarrow> bool" where
  "dll s xs \<longleftrightarrow> references s = hd_opt xs \<and> distinct xs \<and> lseg (nodes s) None xs None"

lemma lseg_frame [simp]: "x \<notin> set xs \<Longrightarrow> lseg (m(x := v)) p xs e = lseg m p xs e"
  by (induction xs arbitrary: p) auto

lemma lseg_append:
  "lseg m p (xs @ ys) e \<longleftrightarrow>
     lseg m p xs (if ys = [] then e else hd_opt ys) \<and>
     lseg m (if xs = [] then p else last_opt xs) ys e"
  by (induction xs arbitrary: p) (auto simp: last_opt_Cons hd_opt_append)

lemma lseg_set_next:
  assumes "lseg m p (xs @ [a]) e" and "distinct (xs @ [a])" and "m a = Some k"
  shows "lseg (m(a \<mapsto> k\<lparr>next_link := e'\<rparr>)) p (xs @ [a]) e'"
  using assms by (auto simp: lseg_append)

lemma lseg_set_prev:
  assumes "lseg m p (b # ys) e" and "distinct (b # ys)" and "m b = Some k"
  shows "lseg (m(b \<mapsto> k\<lparr>prev_link := p'\<rparr>)) p' (b # ys) e"
  using assms by auto

lemma lseg_alloc: "lseg m p xs e \<Longrightarrow> x \<in> set xs \<Longrightarrow> \<exists>k. m x = Some k"
  by (induction xs arbitrary: p) auto

lemma lseg_unique:
  "lseg m p xs None \<Longrightarrow> lseg m p' ys None \<Longrightarrow> hd_opt xs = hd_opt ys \<Longrightarrow> xs = ys"
proof (induction xs arbitrary: p p' ys)
  case Nil
  then show ?case by (simp add: eq_commute [of None])
next
  case (Cons x xs)
  then obtain zs where ys: "ys = x # zs" by (auto simp: hd_opt_Some_iff eq_commute [of "Some x"])
  have "hd_opt xs = hd_opt zs"
    using Cons.prems(1,2) by (auto simp: ys split: if_splits)
  with Cons.prems have "xs = zs"
    by (intro Cons.IH [of "Some x" "Some x"]) (auto simp: ys)
  then show ?case by (simp add: ys)
qed

lemma dll_unique: "dll s xs \<Longrightarrow> dll s ys \<Longrightarrow> xs = ys"
  by (auto simp: dll_def intro: lseg_unique)

lemma dll_empty: "dll \<lparr>references = None, nodes = m\<rparr> []"
  by (simp add: dll_def)

section \<open>The operations keep the list\<close>

lemma CreateHandler_dll:
  assumes "dll s xs" and "r \<notin> set xs" and "nodes s r = Some new_node"
  shows "\<exists>t. CreateHandler s r = Some t \<and> dll t (r # xs) \<and>
    dom (nodes t) = dom (nodes s) \<and> (\<forall>a. a \<notin> insert r (set xs) \<longrightarrow> nodes t a = nodes s a)"
proof (cases xs)
  case Nil
  with assms show ?thesis by (simp add: CreateHandler_def dll_def new_node_def)
next
  case (Cons h ys)
  with assms(1) have "references s = Some h"
    "nodes s h = Some \<lparr>prev_link = None, next_link = hd_opt ys\<rparr>"
    by (auto simp: dll_def)
  with assms Cons show ?thesis
    by (auto simp: CreateHandler_def dll_def new_node_def set_next_def set_prev_def)
qed

lemma ReleaseHandler_dll:
  assumes "dll s (xs @ r # ys)"
  shows "\<exists>t. ReleaseHandler s r = Some t \<and> dll t (xs @ ys) \<and> nodes t r = nodes s r \<and>
    dom (nodes t) = dom (nodes s) \<and> (\<forall>a. a \<notin> set (xs @ ys) \<longrightarrow> nodes t a = nodes s a)"
proof -
  define e where "e = hd_opt ys"
  define p where "p = last_opt xs"
  have d: "distinct (xs @ r # ys)" and hd: "references s = hd_opt (xs @ [r])"
    and l1: "lseg (nodes s) None xs (Some r)" and l2: "lseg (nodes s) (Some r) ys None"
    and r: "nodes s r = Some \<lparr>prev_link = p, next_link = e\<rparr>"
    using assms by (auto simp: dll_def lseg_append hd_opt_append e_def p_def last_opt_def split: if_splits)
  obtain m1 where m1: "set_next (nodes s) p e = Some m1"
    and m1x: "lseg m1 None xs e" and m1y: "lseg m1 (Some r) ys None"
    and dom1: "dom m1 = dom (nodes s)" and fr1: "\<And>a. a \<notin> set xs \<Longrightarrow> m1 a = nodes s a"
  proof (cases xs rule: rev_cases)
    case Nil
    with l2 that show ?thesis by (auto simp: p_def set_next_def)
  next
    case (snoc zs a)
    obtain k where k: "nodes s a = Some k" using l1 lseg_alloc [of "nodes s" None xs] snoc by auto
    show ?thesis
    proof (rule that)
      show "set_next (nodes s) p e = Some ((nodes s)(a \<mapsto> k\<lparr>next_link := e\<rparr>))"
        using k snoc by (simp add: p_def set_next_def)
      show "lseg ((nodes s)(a \<mapsto> k\<lparr>next_link := e\<rparr>)) None xs e"
        unfolding snoc using l1 d k snoc by (intro lseg_set_next) auto
    qed (use l2 d k snoc in \<open>auto\<close>)
  qed
  have m2: "\<exists>m2. set_prev m1 e p = Some m2 \<and>
      lseg m2 None xs e \<and> lseg m2 p ys None \<and> dom m2 = dom m1 \<and>
      (\<forall>a. a \<notin> set ys \<longrightarrow> m2 a = m1 a)"
  proof (cases ys)
    case Nil
    with m1x show ?thesis by (simp add: e_def set_prev_def)
  next
    case (Cons b zs)
    obtain k where k: "m1 b = Some k" using m1y Cons by auto
    have "lseg (m1(b \<mapsto> k\<lparr>prev_link := p\<rparr>)) p ys None"
      unfolding Cons using m1y d k Cons by (intro lseg_set_prev) auto
    with m1x d k Cons show ?thesis by (auto simp: e_def set_prev_def)
  qed
  then obtain m2 where m2: "set_prev m1 e p = Some m2"
    and m2x: "lseg m2 None xs e" and m2y: "lseg m2 p ys None"
    and dom2: "dom m2 = dom m1" and fr2: "\<And>a. a \<notin> set ys \<Longrightarrow> m2 a = m1 a"
    by blast
  let ?t = "s\<lparr>nodes := m2, references := (if references s = Some r then e else references s)\<rparr>"
  have "ReleaseHandler s r = Some ?t"
    by (simp add: ReleaseHandler_def r m1 m2 Let_def)
  moreover have "dll ?t (xs @ ys)"
    using d hd m2x m2y
    by (cases xs) (auto simp: dll_def lseg_append e_def p_def hd_opt_append last_opt_def)
  moreover have "nodes ?t r = nodes s r" "\<forall>a. a \<notin> set (xs @ ys) \<longrightarrow> nodes ?t a = nodes s a"
    using d fr1 fr2 by auto
  moreover have "dom (nodes ?t) = dom (nodes s)" using dom1 dom2 by simp
  ultimately show ?thesis by blast
qed

lemma delete_head_dll:
  assumes "dll s (h # ys)"
  shows "\<exists>t. delete_handler (s\<lparr>references := hd_opt ys\<rparr>) h = Some t \<and> dll t ys \<and>
    dom (nodes t) = dom (nodes s) - {h}"
proof -
  have h: "nodes s h = Some \<lparr>prev_link = None, next_link = hd_opt ys\<rparr>"
    and d: "distinct (h # ys)" and l: "lseg (nodes s) (Some h) ys None"
    using assms by (auto simp: dll_def split: if_splits)
  show ?thesis
  proof (cases ys)
    case Nil
    with h show ?thesis
      by (auto simp: delete_handler_def ReleaseHandler_def set_next_def set_prev_def dll_def)
  next
    case (Cons b zs)
    with l obtain k where k: "nodes s b = Some k" and l': "lseg (nodes s) (Some b) zs None"
      and kn: "next_link k = hd_opt zs"
      by (auto split: if_splits)
    have "lseg ((nodes s)(b \<mapsto> k\<lparr>prev_link := None\<rparr>)) None (b # zs) None"
      using l d k Cons by (intro lseg_set_prev) auto
    with h d k Cons show ?thesis
      by (auto simp: delete_handler_def ReleaseHandler_def set_next_def set_prev_def dll_def
          split: if_splits)
  qed
qed

lemma delete_handler_dll:
  assumes "dll s (xs @ r # ys)"
  shows "\<exists>t. delete_handler s r = Some t \<and> dll t (xs @ ys) \<and> nodes t r = None"
proof -
  obtain t where t: "ReleaseHandler s r = Some t" "dll t (xs @ ys)"
    using ReleaseHandler_dll [OF assms] by blast
  have "r \<notin> set (xs @ ys)" using assms by (auto simp: dll_def)
  with t have "dll (t\<lparr>nodes := (nodes t)(r := None)\<rparr>) (xs @ ys)" by (simp add: dll_def)
  with t show ?thesis by (simp add: delete_handler_def)
qed

lemma destroy_manager_run:
  "dll s xs \<Longrightarrow>
   \<exists>t. destroy_manager s done = Some (done @ xs, t) \<and> dll t [] \<and>
     dom (nodes t) = dom (nodes s) - set xs"
proof (induction xs arbitrary: s "done")
  case Nil
  then show ?case by (subst destroy_manager.simps) (auto simp: dll_def)
next
  case (Cons h ys)
  obtain t where t: "delete_handler (s\<lparr>references := hd_opt ys\<rparr>) h = Some t" "dll t ys"
    "dom (nodes t) = dom (nodes s) - {h}"
    using delete_head_dll [OF Cons.prems] by blast
  have h: "references s = Some h" "nodes s h = Some \<lparr>prev_link = None, next_link = hd_opt ys\<rparr>"
    using Cons.prems by (auto simp: dll_def split: if_splits)
  obtain u where u: "destroy_manager t (done @ [h]) = Some ((done @ [h]) @ ys, u)" "dll u []"
    "dom (nodes u) = dom (nodes t) - set ys"
    using Cons.IH [OF t(2), of "done @ [h]"] by blast
  have "destroy_manager s done = Some (done @ h # ys, u)"
    using u(1) by (subst destroy_manager.simps) (simp add: h t(1))
  with u t(3) show ?case by auto
qed

section \<open>The registry contract\<close>

text \<open>
  What a client of the manager relies on: references come and go through two operations, the
  registered ones are known in the order newest first, and a release of a registered reference
  never fails.  \<open>fresh s r\<close> is the state of a newly constructed reference object.
\<close>

locale handle_registry =
  fixes create :: "'s \<Rightarrow> 'r \<Rightarrow> 's option"
    and release :: "'s \<Rightarrow> 'r \<Rightarrow> 's option"
    and holds :: "'s \<Rightarrow> 'r list \<Rightarrow> bool"
    and fresh :: "'s \<Rightarrow> 'r \<Rightarrow> bool"
  assumes holds_distinct: "holds s xs \<Longrightarrow> distinct xs"
    and holds_create: "holds s xs \<Longrightarrow> r \<notin> set xs \<Longrightarrow> fresh s r \<Longrightarrow>
      \<exists>t. create s r = Some t \<and> holds t (r # xs) \<and>
        (\<forall>q. q \<notin> insert r (set xs) \<longrightarrow> fresh s q \<longrightarrow> fresh t q)"
    and holds_release: "holds s (xs @ r # ys) \<Longrightarrow>
      \<exists>t. release s r = Some t \<and> holds t (xs @ ys)"
begin

lemma release_remove1:
  assumes "holds s xs" and "r \<in> set xs"
  shows "\<exists>t. release s r = Some t \<and> holds t (remove1 r xs)"
proof -
  obtain as bs where "xs = as @ r # bs" "r \<notin> set as"
    using assms(2) split_list_first by metis
  with assms(1) holds_release [of s as r bs] show ?thesis by (simp add: remove1_split)
qed

text \<open>Registering fresh references one after the other.\<close>

lemma create_all:
  assumes "holds s xs" and "distinct rs" and "set rs \<inter> set xs = {}" and "\<forall>r\<in>set rs. fresh s r"
  shows "\<exists>t. fold (\<lambda>r st. Option.bind st (\<lambda>u. create u r)) rs (Some s) = Some t \<and>
    holds t (rev rs @ xs)"
  using assms
proof (induction rs arbitrary: s xs)
  case Nil
  then show ?case by simp
next
  case (Cons r rs)
  obtain t where t: "create s r = Some t" "holds t (r # xs)"
    and fr: "\<forall>q. q \<notin> insert r (set xs) \<longrightarrow> fresh s q \<longrightarrow> fresh t q"
    using holds_create [OF Cons.prems(1), of r] Cons.prems by auto
  have "\<forall>q\<in>set rs. fresh t q" using fr Cons.prems by auto
  with Cons.IH [OF t(2)] Cons.prems t(1) show ?case by auto
qed

lemma release_all:
  assumes "holds s xs" and "distinct rs" and "set rs \<subseteq> set xs"
  shows "\<exists>t. fold (\<lambda>r st. Option.bind st (\<lambda>u. release u r)) rs (Some s) = Some t \<and>
    holds t (filter (\<lambda>x. x \<notin> set rs) xs)"
  using assms
proof (induction rs arbitrary: s xs)
  case Nil
  then show ?case by simp
next
  case (Cons r rs)
  obtain t where t: "release s r = Some t" "holds t (remove1 r xs)"
    using release_remove1 [OF Cons.prems(1), of r] Cons.prems(3) by auto
  have d: "distinct xs" using holds_distinct Cons.prems(1) by blast
  have eq: "filter (\<lambda>x. x \<notin> set rs) (remove1 r xs) = filter (\<lambda>x. x \<notin> set (r # rs)) xs"
    using d by (auto simp: distinct_remove1_removeAll removeAll_filter_not_eq intro: filter_cong)
  have "set rs \<subseteq> set (remove1 r xs)" using Cons.prems d by (auto simp: set_remove1_eq)
  with Cons.IH [OF t(2)] Cons.prems(2) t(1) eq show ?case by auto
qed

end

definition fresh_node :: "ref_mgr \<Rightarrow> addr \<Rightarrow> bool" where
  "fresh_node s r \<longleftrightarrow> nodes s r = Some new_node"

interpretation refs: handle_registry CreateHandler delete_handler dll fresh_node
proof unfold_locales
  fix s xs r
  show "dll s xs \<Longrightarrow> distinct xs" by (simp add: dll_def)
  show "\<exists>t. CreateHandler s r = Some t \<and> dll t (r # xs) \<and>
      (\<forall>q. q \<notin> insert r (set xs) \<longrightarrow> fresh_node s q \<longrightarrow> fresh_node t q)"
    if "dll s xs" "r \<notin> set xs" "fresh_node s r"
    using CreateHandler_dll [of s xs r] that by (auto simp: fresh_node_def)
next
  fix s xs r ys
  show "\<exists>t. delete_handler s r = Some t \<and> dll t (xs @ ys)" if "dll s (xs @ r # ys)"
    using delete_handler_dll [OF that] by blast
qed

section \<open>Properties\<close>

text \<open>
  Registering distinct, newly constructed references in an empty manager and then deleting any
  of them, in any order, never touches a freed object, and leaves in the list exactly the
  references that were not deleted, newest first.
\<close>

theorem registry_lifecycle:
  assumes "references s = None" and "distinct rs" and "\<forall>r\<in>set rs. nodes s r = Some new_node"
    and "distinct qs" and "set qs \<subseteq> set rs"
  shows "\<exists>t u. fold (\<lambda>r st. Option.bind st (\<lambda>v. CreateHandler v r)) rs (Some s) = Some t \<and>
    fold (\<lambda>r st. Option.bind st (\<lambda>v. delete_handler v r)) qs (Some t) = Some u \<and>
    dll u (filter (\<lambda>x. x \<notin> set qs) (rev rs))"
proof -
  have "dll s []" using assms(1) by (simp add: dll_def)
  then obtain t where t: "fold (\<lambda>r st. Option.bind st (\<lambda>v. CreateHandler v r)) rs (Some s) = Some t"
    "dll t (rev rs)"
    using refs.create_all [of s "[]" rs] assms(2,3) by (auto simp: fresh_node_def)
  with refs.release_all [OF t(2) assms(4)] assms(5) show ?thesis by auto
qed

definition demo_mgr :: ref_mgr where
  "demo_mgr = \<lparr>references = None, nodes = [1 \<mapsto> new_node, 2 \<mapsto> new_node, 3 \<mapsto> new_node]\<rparr>"

theorem registry_lifecycle_witness:
  "\<exists>t u. fold (\<lambda>r st. Option.bind st (\<lambda>v. CreateHandler v r)) [1, 2, 3] (Some demo_mgr) = Some t \<and>
    fold (\<lambda>r st. Option.bind st (\<lambda>v. delete_handler v r)) [2] (Some t) = Some u \<and>
    dll u [3, 1]"
  using registry_lifecycle [of demo_mgr "[1, 2, 3]" "[2]"]
  by (simp add: demo_mgr_def)

text \<open>
  The manager's destructor ends, deletes every registered reference exactly once, in list
  order (newest first), never touches a freed object, and leaves an empty list; the objects it
  freed are exactly the registered ones.
\<close>

theorem destructor_deletes_all:
  assumes "dll s xs"
  shows "\<exists>t. destroy_manager s [] = Some (xs, t) \<and> references t = None \<and>
    dom (nodes t) = dom (nodes s) - set xs"
  using destroy_manager_run [OF assms, of "[]"] by (auto simp: dll_def)

theorem destructor_deletes_all_witness:
  "\<exists>t. destroy_manager \<lparr>references = Some 2, nodes =
       [1 \<mapsto> \<lparr>prev_link = Some 2, next_link = None\<rparr>, 2 \<mapsto> \<lparr>prev_link = None, next_link = Some 1\<rparr>]\<rparr> []
     = Some ([2, 1], t) \<and> references t = None \<and> dom (nodes t) = {}"
  using destructor_deletes_all [of "\<lparr>references = Some 2, nodes =
       [1 \<mapsto> \<lparr>prev_link = Some 2, next_link = None\<rparr>, 2 \<mapsto> \<lparr>prev_link = None, next_link = Some 1\<rparr>]\<rparr>" "[2, 1]"]
  by (auto simp: dll_def)

end
