(* ===== verification/Finalizers_Pack.thy ===== *)
theory Finalizers_Pack
  imports Napi_Prelude "HOL-Library.Multiset"
begin

text \<open>
  Batches of finalizers (native\_engine/impl/ark/ark\_finalizers\_pack.h) and the posting of a
  batch to the event loop (\<open>ArkNativeEngine::PostFinalizeTasks\<close> and the \<open>RunCallbacks\<close> it uses,
  native\_engine/impl/ark/ark\_native\_engine.cpp).

  A finalizer call is a value of the parameter type \<open>'f\<close>; running one appends it to the log
  \<open>ran\<close>.  libuv is outside the repository: whether \<open>uv_queue_work_with_qos\<close> accepts the work is
  an argument (\<open>uv_ok\<close>), and the accepted works wait in \<open>posted\<close> and \<open>postedAsync\<close> until the
  loop runs them.
\<close>

section \<open>The pack\<close>

text \<open>\<open>notify_\<close> is either empty or the one closure the engine registers.\<close>

record 'f fin_pack =
  finalizers :: "'f list"
  totalNativeBindingSize :: u64
  hasNotify :: bool

definition empty_pack :: "'f fin_pack" where
  "empty_pack = \<lparr>finalizers = [], totalNativeBindingSize = 0, hasNotify = False\<rparr>"

definition pack_Clear :: "'f fin_pack \<Rightarrow> 'f fin_pack" where
  "pack_Clear p = p\<lparr>finalizers := [], totalNativeBindingSize := 0, hasNotify := False\<rparr>"

definition pack_Empty :: "'f fin_pack \<Rightarrow> bool" where
  "pack_Empty p \<longleftrightarrow> finalizers p = []"

definition RegisterFinishNotify :: "'f fin_pack \<Rightarrow> 'f fin_pack" where
  "RegisterFinishNotify p = p\<lparr>hasNotify := True\<rparr>"

definition GetNumFinalizers :: "'f fin_pack \<Rightarrow> nat" where
  "GetNumFinalizers p = length (finalizers p)"

definition AddFinalizer :: "'f fin_pack \<Rightarrow> 'f \<Rightarrow> u64 \<Rightarrow> 'f fin_pack" where
  "AddFinalizer p f n =
     p\<lparr>finalizers := finalizers p @ [f],
       totalNativeBindingSize := totalNativeBindingSize p + n\<rparr>"

section \<open>The engine's finalizer state\<close>

record 'f fin_state =
  arkFinalizersPack :: "'f fin_pack"
  pendingAsyncFinalizers :: "'f list"
  pendingBindingSize :: u64
  posted :: "'f fin_pack list"
  postedAsync :: "'f list list"
  ran :: "'f list"

definition init_fin :: "'f fin_state" where
  "init_fin = \<lparr>arkFinalizersPack = empty_pack, pendingAsyncFinalizers = [],
     pendingBindingSize = 0, posted = [], postedAsync = [], ran = []\<rparr>"

text \<open>500 MB.\<close>

definition PENDING_SIZE_THRESHOLD :: u64 where
  "PENDING_SIZE_THRESHOLD = 500 * 1024 * 1024"

text \<open>
  \<open>ProcessAll\<close>: run every callback in order, then notify.  The registered closure takes the
  pack's total size off the pending size.
\<close>

definition ProcessAll :: "'f fin_pack \<Rightarrow> 'f fin_state \<Rightarrow> 'f fin_state" where
  "ProcessAll p s =
     (let s1 = fold (\<lambda>f t. t\<lparr>ran := ran t @ [f]\<rparr>) (finalizers p) s
      in if hasNotify p
         then s1\<lparr>pendingBindingSize := pendingBindingSize s1 - totalNativeBindingSize p\<rparr>
         else s1)"

definition RunAsyncCallbacks :: "'f list \<Rightarrow> 'f fin_state \<Rightarrow> 'f fin_state" where
  "RunAsyncCallbacks fs s = fold (\<lambda>f t. t\<lparr>ran := ran t @ [f]\<rparr>) fs s"

text \<open>The first half of \<open>PostFinalizeTasks\<close>: the finalizers that may run on a worker thread.\<close>

definition post_async :: "bool \<Rightarrow> 'f fin_state \<Rightarrow> 'f fin_state" where
  "post_async uv_ok s =
     (if pendingAsyncFinalizers s \<noteq> []
      then let fs = pendingAsyncFinalizers s; s1 = s\<lparr>pendingAsyncFinalizers := []\<rparr>
           in if uv_ok then s1\<lparr>postedAsync := postedAsync s1 @ [fs]\<rparr> else RunAsyncCallbacks fs s1
      else s)"

text \<open>
  The second half: the pack is taken over by a new one; outside the main thread, or when too many
  bytes are already waiting, it runs at once; otherwise it is posted with a notification, and
  runs at once when the loop refuses it.
\<close>

definition post_pack :: "bool \<Rightarrow> bool \<Rightarrow> 'f fin_state \<Rightarrow> 'f fin_state" where
  "post_pack mainThread uv_ok s =
     (if pack_Empty (arkFinalizersPack s) then s
      else let p = arkFinalizersPack s; s1 = s\<lparr>arkFinalizersPack := empty_pack\<rparr>
      in if \<not> mainThread then ProcessAll p s1
      else let bindingSize = totalNativeBindingSize p
      in if pendingBindingSize s1 > PENDING_SIZE_THRESHOLD \<and> bindingSize > 0 then ProcessAll p s1
      else let p1 = RegisterFinishNotify p;
               s2 = s1\<lparr>pendingBindingSize := pendingBindingSize s1 + bindingSize\<rparr>
      in if uv_ok then s2\<lparr>posted := posted s2 @ [p1]\<rparr> else ProcessAll p1 s2)"

definition PostFinalizeTasks :: "bool \<Rightarrow> bool \<Rightarrow> bool \<Rightarrow> bool \<Rightarrow> 'f fin_state \<Rightarrow> 'f fin_state" where
  "PostFinalizeTasks inDestructor mainThread uv_ok1 uv_ok2 s =
     (if inDestructor then s else post_pack mainThread uv_ok2 (post_async uv_ok1 s))"

text \<open>The loop runs the oldest posted work: the after-work callback of a pack, or an async batch.\<close>

definition run_posted :: "'f fin_state \<Rightarrow> 'f fin_state" where
  "run_posted s = (case posted s of [] \<Rightarrow> s | p # ps \<Rightarrow> ProcessAll p (s\<lparr>posted := ps\<rparr>))"

definition run_posted_async :: "'f fin_state \<Rightarrow> 'f fin_state" where
  "run_posted_async s =
     (case postedAsync s of [] \<Rightarrow> s | fs # r \<Rightarrow> RunAsyncCallbacks fs (s\<lparr>postedAsync := r\<rparr>))"

section \<open>Steps\<close>

datatype 'f fin_event =
    Add 'f u64
  | AddAsync 'f
  | Post bool bool bool bool
  | RunPosted
  | RunPostedAsync

fun fin_step :: "'f fin_state \<Rightarrow> 'f fin_event \<Rightarrow> 'f fin_state" where
  "fin_step s (Add f n) = s\<lparr>arkFinalizersPack := AddFinalizer (arkFinalizersPack s) f n\<rparr>"
| "fin_step s (AddAsync f) = s\<lparr>pendingAsyncFinalizers := pendingAsyncFinalizers s @ [f]\<rparr>"
| "fin_step s (Post d m a b) = PostFinalizeTasks d m a b s"
| "fin_step s RunPosted = run_posted s"
| "fin_step s RunPostedAsync = run_posted_async s"

definition fin_run :: "'f fin_state \<Rightarrow> 'f fin_event list \<Rightarrow> 'f fin_state" where
  "fin_run s es = foldl fin_step s es"

fun added :: "'f fin_event \<Rightarrow> 'f list" where
  "added (Add f n) = [f]"
| "added (AddAsync f) = [f]"
| "added _ = []"

section \<open>Lemmas\<close>

lemma fold_ran [simp]: "fold (\<lambda>f t. t\<lparr>ran := ran t @ [f]\<rparr>) fs s = s\<lparr>ran := ran s @ fs\<rparr>"
  by (induction fs arbitrary: s) auto

lemma ProcessAll_eq:
  "ProcessAll p s = s\<lparr>ran := ran s @ finalizers p,
     pendingBindingSize :=
       (if hasNotify p then pendingBindingSize s - totalNativeBindingSize p
        else pendingBindingSize s)\<rparr>"
  by (simp add: ProcessAll_def Let_def)

lemma RunAsyncCallbacks_eq: "RunAsyncCallbacks fs s = s\<lparr>ran := ran s @ fs\<rparr>"
  by (simp add: RunAsyncCallbacks_def)

lemmas fin_defs = PostFinalizeTasks_def post_pack_def post_async_def run_posted_def
  run_posted_async_def ProcessAll_eq RunAsyncCallbacks_eq Let_def pack_Empty_def
  RegisterFinishNotify_def AddFinalizer_def empty_pack_def

text \<open>Every finalizer that was handed over and where it is: waiting, posted or run.\<close>

definition everywhere :: "'f fin_state \<Rightarrow> 'f list" where
  "everywhere s = ran s @ concat (map finalizers (posted s)) @ concat (postedAsync s) @
     pendingAsyncFinalizers s @ finalizers (arkFinalizersPack s)"

definition fin_inv :: "'f fin_state \<Rightarrow> bool" where
  "fin_inv s \<longleftrightarrow> (\<forall>p\<in>set (posted s). hasNotify p) \<and> \<not> hasNotify (arkFinalizersPack s) \<and>
     pendingBindingSize s = sum_list (map totalNativeBindingSize (posted s))"

lemma fin_inv_init [inv_intros]: "fin_inv init_fin"
  by (simp add: fin_inv_def init_fin_def empty_pack_def)

lemma fin_step_inv [inv_intros]: "fin_inv s \<Longrightarrow> fin_inv (fin_step s e)"
  by (cases e) (auto simp: fin_inv_def fin_defs split: list.splits)

lemma fin_run_inv [inv_intros]: "fin_inv s \<Longrightarrow> fin_inv (fin_run s es)"
  unfolding fin_run_def by (induction es arbitrary: s) (auto intro: fin_step_inv)

lemma fin_step_everywhere:
  "mset (everywhere (fin_step s e)) = mset (everywhere s) + mset (added e)"
  by (cases e) (auto simp: everywhere_def fin_defs split: list.splits)

lemma fin_run_everywhere:
  "mset (everywhere (fin_run s es)) = mset (everywhere s) + mset (concat (map added es))"
  unfolding fin_run_def by (induction es arbitrary: s) (auto simp: fin_step_everywhere)

text \<open>What runs outside a work item runs in the order it was added: the log only grows.\<close>

lemma fin_step_ran_grows: "\<exists>fs. ran (fin_step s e) = ran s @ fs"
  by (cases e) (auto simp: fin_defs split: list.splits)

text \<open>Running every posted work empties both queues.\<close>

lemma run_posted_all:
  "fin_run s (replicate (length (posted s)) RunPosted) =
     s\<lparr>posted := [], ran := ran s @ concat (map finalizers (posted s)),
       pendingBindingSize := pendingBindingSize s -
         sum_list (map (\<lambda>p. if hasNotify p then totalNativeBindingSize p else 0) (posted s))\<rparr>"
proof (induction "posted s" arbitrary: s)
  case Nil
  then show ?case by (simp add: fin_run_def)
next
  case (Cons p ps)
  let ?t = "run_posted s"
  have t: "?t = s\<lparr>posted := ps, ran := ran s @ finalizers p,
      pendingBindingSize := (if hasNotify p then pendingBindingSize s - totalNativeBindingSize p
        else pendingBindingSize s)\<rparr>"
    by (simp add: fin_defs flip: Cons.hyps(2))
  have pt: "posted (run_posted s) = ps" by (simp add: fin_defs flip: Cons.hyps(2))
  have "fin_run s (replicate (length (posted s)) RunPosted) =
    fin_run ?t (replicate (length (posted ?t)) RunPosted)"
    by (simp add: fin_run_def pt flip: Cons.hyps(2))
  also have "\<dots> = ?t\<lparr>posted := [], ran := ran ?t @ concat (map finalizers (posted ?t)),
       pendingBindingSize := pendingBindingSize ?t -
         sum_list (map (\<lambda>p. if hasNotify p then totalNativeBindingSize p else 0) (posted ?t))\<rparr>"
    by (rule Cons.hyps(1)) (simp add: pt)
  also have "\<dots> = s\<lparr>posted := [], ran := ran s @ concat (map finalizers (posted s)),
       pendingBindingSize := pendingBindingSize s -
         sum_list (map (\<lambda>p. if hasNotify p then totalNativeBindingSize p else 0) (posted s))\<rparr>"
    by (simp add: t flip: Cons.hyps(2))
  finally show ?case .
qed

section \<open>Properties\<close>

text \<open>
  Whatever the sequence of additions, postings (on either thread, accepted by the loop or
  refused) and loop turns, no finalizer is lost and none is run twice: the finalizers that have
  run, those posted and those still pending are together exactly the finalizers added.
\<close>

theorem finalizers_conserved:
  "mset (ran (fin_run init_fin es)) +
     mset (concat (map finalizers (posted (fin_run init_fin es))) @
       concat (postedAsync (fin_run init_fin es)) @
       pendingAsyncFinalizers (fin_run init_fin es) @
       finalizers (arkFinalizersPack (fin_run init_fin es))) = mset (concat (map added es))"
  using fin_run_everywhere [of init_fin es]
  by (simp add: everywhere_def init_fin_def empty_pack_def)

text \<open>
  the count of bytes waiting in posted packs, a 64-bit counter that wraps, is always the sum
  of the sizes of the packs that are posted and have not run; it is back to zero whenever the
  loop has run every posted pack, so the threshold that makes finalizers run synchronously never
  sticks.
\<close>

theorem pending_bytes_balance:
  "pendingBindingSize (fin_run init_fin es) =
     sum_list (map totalNativeBindingSize (posted (fin_run init_fin es))) \<and>
   pendingBindingSize (fin_run (fin_run init_fin es)
     (replicate (length (posted (fin_run init_fin es))) RunPosted)) = 0"
proof -
  let ?s = "fin_run init_fin es"
  have inv: "fin_inv ?s" by (intro inv_intros)
  then have eq: "(\<Sum>p\<leftarrow>posted ?s. if hasNotify p then totalNativeBindingSize p else 0) =
      sum_list (map totalNativeBindingSize (posted ?s))"
    by (intro arg_cong [where f = sum_list] map_cong) (auto simp: fin_inv_def)
  from inv have "pendingBindingSize ?s = sum_list (map totalNativeBindingSize (posted ?s))"
    by (simp add: fin_inv_def)
  with eq show ?thesis by (simp add: run_posted_all)
qed

end
