(* ===== verification/Native_Reference.thy ===== *)
theory Native_Reference
  imports Reference_Manager Finalizers_Pack
begin

text \<open>
  References (native\_engine/impl/ark/ark\_native\_reference.h and .cpp): the object behind a
  \<open>napi_ref\<close> and behind every wrapped native object.  It holds a JS value strongly while its count
  is positive and weakly otherwise, runs a finalizer when it is destroyed or its value collected,
  is linked into the reference manager when the runtime owns it, and moves the engine's reference
  counters.

  The virtual machine is outside the repository.  A handle \<open>value_\<close> is a value identity or empty,
  with a flag for the weak callback; a collection of a weak value calls the two callbacks that
  were registered with it, one after the other, which is \<open>collect\<close> below.  A call of a user's
  finalizer is an entry of the log \<open>invoked\<close>.
\<close>

unbundle bit_operations_syntax

section \<open>State\<close>

type_synonym callback = nat

datatype ReferenceOwnerShip = RUNTIME | USER

datatype FinalizerState = DESTRUCTION | COLLECTION

datatype ArkNativeEngineState = RUNNING | STOPPED | RELEASING

definition DELETE_SELF_MASK :: u8 where "DELETE_SELF_MASK = 1"
definition IS_ASYNC_CALL_MASK :: u8 where "IS_ASYNC_CALL_MASK = push_bit 1 DELETE_SELF_MASK"
definition HAS_DELETE_MASK :: u8 where "HAS_DELETE_MASK = push_bit 1 IS_ASYNC_CALL_MASK"
definition FINAL_RAN_MASK :: u8 where "FINAL_RAN_MASK = push_bit 1 HAS_DELETE_MASK"

lemmas mask_defs = DELETE_SELF_MASK_def IS_ASYNC_CALL_MASK_def HAS_DELETE_MASK_def FINAL_RAN_MASK_def

record ark_ref =
  r_engineId :: u64
  r_value :: "nat option"
  r_weak :: bool
  r_refCount :: u32
  r_ownership :: ReferenceOwnerShip
  r_properties :: u8
  r_callback :: "callback option"
  r_data :: "addr option"
  r_hint :: "addr option"
  r_bindingSize :: u64

text \<open>
  A queued finalizer: the user's callback itself on the main context, the proxy
  \<open>NapiSecondCallback\<close> on another context, or an asynchronous one (called without an engine).
\<close>

datatype finalizer =
    DirectFinalizer callback "addr option" "addr option"
  | SecondFinalizer callback "addr option" ReferenceOwnerShip "addr option"
  | AsyncFinalizer callback "addr option" "addr option"

text \<open>
  The engine as far as references see it.  \<open>root\<close> is the finalizer state of the root engine (its
  own on the main context, the parent's otherwise).  \<open>finalized\<close> is a ghost log of the references
  whose finalizer was called or queued, and \<open>born\<close> of all that were ever created.
\<close>

record ark_engine =
  engine_id :: u64
  isMainEnvContext :: bool
  isInDestructor :: bool
  engineState :: ArkNativeEngineState
  callbackbleRefCounter :: int
  nonCallbackRefCounter :: int
  runtimeOwnedRefCounter :: int
  referenceManager :: "ref_mgr option"
  heap :: "addr \<rightharpoonup> ark_ref"
  root :: "finalizer fin_state"
  invoked :: "(callback \<times> addr option \<times> addr option) list"
  deleted :: bool
  finalized :: "(addr \<times> callback \<times> addr option \<times> addr option) list"
  born :: "addr list"

section \<open>Properties and counters\<close>

definition GetDeleteSelf :: "ark_ref \<Rightarrow> bool" where
  "GetDeleteSelf k \<longleftrightarrow> r_properties k AND DELETE_SELF_MASK \<noteq> 0"

definition GetFinalRun :: "ark_ref \<Rightarrow> bool" where
  "GetFinalRun k \<longleftrightarrow> r_properties k AND FINAL_RAN_MASK \<noteq> 0"

definition IsAsyncCall :: "ark_ref \<Rightarrow> bool" where
  "IsAsyncCall k \<longleftrightarrow> r_properties k AND IS_ASYNC_CALL_MASK \<noteq> 0"

definition HasDelete :: "ark_ref \<Rightarrow> bool" where
  "HasDelete k \<longleftrightarrow> r_properties k AND HAS_DELETE_MASK \<noteq> 0"

definition SetDeleteSelf :: "ark_ref \<Rightarrow> ark_ref" where
  "SetDeleteSelf k = k\<lparr>r_properties := r_properties k OR DELETE_SELF_MASK\<rparr>"

definition SetHasDelete :: "ark_ref \<Rightarrow> ark_ref" where
  "SetHasDelete k = k\<lparr>r_properties := r_properties k OR HAS_DELETE_MASK\<rparr>"

definition SetFinalRan :: "ark_ref \<Rightarrow> ark_ref" where
  "SetFinalRan k = k\<lparr>r_properties := r_properties k OR FINAL_RAN_MASK\<rparr>"

definition InitProperties :: "bool \<Rightarrow> bool \<Rightarrow> ark_ref \<Rightarrow> ark_ref" where
  "InitProperties deleteSelf isAsyncCall k =
     (let k1 = (if deleteSelf then SetDeleteSelf k else k)
      in if isAsyncCall then k1\<lparr>r_properties := r_properties k1 OR IS_ASYNC_CALL_MASK\<rparr> else k1)"

definition ResetFinalizer :: "ark_ref \<Rightarrow> ark_ref" where
  "ResetFinalizer k = k\<lparr>r_callback := None, r_data := None, r_hint := None\<rparr>"

definition HasRuntimeOwnedRef :: "ark_engine \<Rightarrow> bool" where
  "HasRuntimeOwnedRef e \<longleftrightarrow> runtimeOwnedRefCounter e \<noteq> 0"

definition IsReadyToDelete :: "ark_engine \<Rightarrow> bool" where
  "IsReadyToDelete e \<longleftrightarrow> \<not> isMainEnvContext e \<and> engineState e = STOPPED \<and> \<not> HasRuntimeOwnedRef e"

definition set_ref :: "ark_engine \<Rightarrow> addr \<Rightarrow> ark_ref \<Rightarrow> ark_engine" where
  "set_ref e r k = e\<lparr>heap := (heap e)(r \<mapsto> k)\<rparr>"

section \<open>Construction\<close>

text \<open>The counters a new reference moves: with a synchronous finalizer, with an asynchronous one, with none.\<close>

definition count_created :: "ark_engine \<Rightarrow> ark_ref \<Rightarrow> ark_engine" where
  "count_created e k =
     (if r_callback k \<noteq> None
      then (if \<not> IsAsyncCall k
            then let e' = e\<lparr>callbackbleRefCounter := callbackbleRefCounter e + 1\<rparr>
                 in if r_ownership k = RUNTIME \<and> \<not> isMainEnvContext e'
                    then e'\<lparr>runtimeOwnedRefCounter := runtimeOwnedRefCounter e' + 1\<rparr>
                    else e'
            else e)
      else e\<lparr>nonCallbackRefCounter := nonCallbackRefCounter e + 1\<rparr>)"

definition ArkNativeReferenceConstructor :: "ark_engine \<Rightarrow> addr \<Rightarrow> ark_engine option" where
  "ArkNativeReferenceConstructor e r = Option.bind (heap e r) (\<lambda>k.
     let e1 = count_created e k;
         k1 = (if r_refCount k = 0 then k\<lparr>r_weak := True\<rparr> else k);
         k2 = k1\<lparr>r_engineId := engine_id e\<rparr>
     in if r_ownership k = RUNTIME
        then (case referenceManager e1 of
                None \<Rightarrow> Some (set_ref e1 r k2)
              | Some m \<Rightarrow> map_option (\<lambda>m'. set_ref (e1\<lparr>referenceManager := Some m'\<rparr>) r k2)
                            (CreateHandler m r))
        else Some (set_ref e1 r k2))"

text \<open>The public constructor, for an object allocated at the fresh address \<open>r\<close>.\<close>

definition new_ArkNativeReference ::
    "ark_engine \<Rightarrow> addr \<Rightarrow> nat \<Rightarrow> u32 \<Rightarrow> bool \<Rightarrow> callback option \<Rightarrow> addr option \<Rightarrow> addr option \<Rightarrow>
     bool \<Rightarrow> u64 \<Rightarrow> ark_engine option" where
  "new_ArkNativeReference e r value initialRefcount deleteSelf napiCallback data hint isAsyncCall
       nativeBindingSize =
     (let k = \<lparr>r_engineId = 0, r_value = Some value, r_weak = False, r_refCount = initialRefcount,
               r_ownership = (if deleteSelf then RUNTIME else USER), r_properties = 0,
               r_callback = napiCallback, r_data = data, r_hint = hint,
               r_bindingSize = nativeBindingSize\<rparr>;
          e1 = e\<lparr>referenceManager :=
                   map_option (\<lambda>m. m\<lparr>nodes := (nodes m)(r \<mapsto> new_node)\<rparr>) (referenceManager e),
                 born := r # born e\<rparr>
      in ArkNativeReferenceConstructor (set_ref e1 r (InitProperties deleteSelf isAsyncCall k)) r)"

section \<open>Counting\<close>

definition Ref :: "ark_engine \<Rightarrow> addr \<Rightarrow> (ark_engine \<times> u32) option" where
  "Ref e r = Option.bind (heap e r) (\<lambda>k.
     let k1 = k\<lparr>r_refCount := r_refCount k + 1\<rparr>;
         k2 = (if r_refCount k1 = 1 then k1\<lparr>r_weak := False\<rparr> else k1)
     in Some (set_ref e r k2, r_refCount k2))"

definition Unref :: "ark_engine \<Rightarrow> addr \<Rightarrow> (ark_engine \<times> u32) option" where
  "Unref e r = Option.bind (heap e r) (\<lambda>k.
     if r_refCount k = 0 then Some (e, r_refCount k)
     else let k1 = k\<lparr>r_refCount := r_refCount k - 1\<rparr>
          in if r_value k1 = None then Some (set_ref e r k1, r_refCount k1)
             else let k2 = (if r_refCount k1 = 0 then k1\<lparr>r_weak := True\<rparr> else k1)
                  in Some (set_ref e r k2, r_refCount k2))"

definition Get :: "ark_engine \<Rightarrow> addr \<Rightarrow> nat option option" where
  "Get e r = map_option r_value (heap e r)"

definition GetData :: "ark_engine \<Rightarrow> addr \<Rightarrow> addr option option" where
  "GetData e r = map_option r_data (heap e r)"

section \<open>Finalization and destruction\<close>

definition EnqueueAsyncTask :: "ark_engine \<Rightarrow> ark_ref \<Rightarrow> ark_engine" where
  "EnqueueAsyncTask e k = (case r_callback k of None \<Rightarrow> e
     | Some cb \<Rightarrow> e\<lparr>root := fin_step (root e) (AddAsync (AsyncFinalizer cb (r_data k) (r_hint k)))\<rparr>)"

definition EnqueueDeferredTask :: "ark_engine \<Rightarrow> ark_ref \<Rightarrow> ark_engine" where
  "EnqueueDeferredTask e k = (case r_callback k of None \<Rightarrow> e
     | Some cb \<Rightarrow>
         e\<lparr>root := fin_step (root e)
            (Add (if isMainEnvContext e then DirectFinalizer cb (r_data k) (r_hint k)
                  else SecondFinalizer cb (r_data k) (r_ownership k) (r_hint k)) (r_bindingSize k))\<rparr>)"

definition DispatchFinalizeCallback :: "ark_engine \<Rightarrow> ark_ref \<Rightarrow> ark_engine" where
  "DispatchFinalizeCallback e k =
     (if IsAsyncCall k then EnqueueAsyncTask e k else EnqueueDeferredTask e k)"

text \<open>The call of the user's callback on the destruction path, with its two counters.\<close>

definition call_now :: "ark_engine \<Rightarrow> ark_ref \<Rightarrow> ark_engine" where
  "call_now e k =
     (let e1 = (if \<not> IsAsyncCall k
                then e\<lparr>callbackbleRefCounter := callbackbleRefCounter e - 1\<rparr> else e);
          e2 = (if r_ownership k = RUNTIME
                then e1\<lparr>runtimeOwnedRefCounter := runtimeOwnedRefCounter e1 - 1\<rparr> else e1)
      in (case r_callback k of None \<Rightarrow> e2
          | Some cb \<Rightarrow> e2\<lparr>invoked := invoked e2 @ [(cb, r_data k, r_hint k)]\<rparr>))"

text \<open>The ghost log's entry: the reference, and the call it owes.\<close>

definition fin_entry :: "addr \<Rightarrow> ark_ref \<Rightarrow> addr \<times> callback \<times> addr option \<times> addr option" where
  "fin_entry r k = (r, the (r_callback k), r_data k, r_hint k)"

text \<open>\<open>FinalizeCallback\<close> up to its last statement (\<open>delete this\<close>).\<close>

definition finalize_body ::
    "ark_engine \<Rightarrow> addr \<Rightarrow> ark_ref \<Rightarrow> FinalizerState \<Rightarrow> ark_engine \<times> ark_ref" where
  "finalize_body e r k state =
     (let e1 = (if \<not> GetFinalRun k \<and> r_callback k \<noteq> None \<and> \<not> isInDestructor e
                then let e' = e\<lparr>finalized := fin_entry r k # finalized e\<rparr>
                     in (case state of COLLECTION \<Rightarrow> DispatchFinalizeCallback e' k
                                     | DESTRUCTION \<Rightarrow> call_now e' k)
                else e)
      in (e1, SetFinalRan (k\<lparr>r_data := None, r_hint := None\<rparr>)))"

text \<open>The object's memory is gone, its link fields with it.\<close>

definition free_ref :: "ark_engine \<Rightarrow> addr \<Rightarrow> ark_engine" where
  "free_ref e r = e\<lparr>heap := (heap e)(r := None),
     referenceManager := map_option (\<lambda>m. m\<lparr>nodes := (nodes m)(r := None)\<rparr>) (referenceManager e)\<rparr>"

text \<open>The two things the destructor does first: the counter of references without a finalizer, and the list.\<close>

definition count_destroyed :: "ark_engine \<Rightarrow> ark_ref \<Rightarrow> ark_engine" where
  "count_destroyed e k = (if r_callback k = None
     then e\<lparr>nonCallbackRefCounter := nonCallbackRefCounter e - 1\<rparr> else e)"

definition unlink_ref :: "ark_engine \<Rightarrow> addr \<Rightarrow> ark_ref \<Rightarrow> ark_engine option" where
  "unlink_ref e r k =
     (if r_ownership k = RUNTIME
      then (case referenceManager e of
              None \<Rightarrow> Some e
            | Some m \<Rightarrow> map_option (\<lambda>m'. e\<lparr>referenceManager := Some m'\<rparr>) (ReleaseHandler m r))
      else Some e)"

text \<open>
  The destructor.  It sets \<open>HAS_DELETE\<close> before it calls \<open>FinalizeCallback\<close>, so the \<open>delete this\<close>
  at the end of that function is not reached from here.
\<close>

definition destroy_ref :: "ark_engine \<Rightarrow> addr \<Rightarrow> ark_engine option" where
  "destroy_ref e r = Option.bind (heap e r) (\<lambda>k.
     Option.bind (unlink_ref (count_destroyed e k) r k) (\<lambda>e2.
       Some (if r_value k = None then free_ref e2 r
             else free_ref (fst (finalize_body e2 r
                    ((SetHasDelete k)\<lparr>r_value := None, r_weak := False\<rparr>) DESTRUCTION)) r)))"

definition FinalizeCallback :: "ark_engine \<Rightarrow> addr \<Rightarrow> FinalizerState \<Rightarrow> ark_engine option" where
  "FinalizeCallback e r state = Option.bind (heap e r) (\<lambda>k.
     let k1 = snd (finalize_body e r k state); e2 = set_ref (fst (finalize_body e r k state)) r k1
     in if GetDeleteSelf k1 \<and> \<not> HasDelete k1 then destroy_ref e2 r else Some e2)"

definition FreeGlobalCallBack :: "ark_engine \<Rightarrow> addr \<Rightarrow> ark_engine option" where
  "FreeGlobalCallBack e r =
     map_option (\<lambda>k. set_ref e r (k\<lparr>r_value := None, r_weak := False\<rparr>)) (heap e r)"

definition NativeFinalizeCallBack :: "ark_engine \<Rightarrow> addr \<Rightarrow> ark_engine option" where
  "NativeFinalizeCallBack e r = FinalizeCallback e r COLLECTION"

text \<open>The collector finds the value of a weak reference dead (a reference not weak is not affected).\<close>

definition collect :: "ark_engine \<Rightarrow> addr \<Rightarrow> ark_engine option" where
  "collect e r = Option.bind (heap e r) (\<lambda>k.
     if r_weak k \<and> r_value k \<noteq> None
     then Option.bind (FreeGlobalCallBack e r) (\<lambda>e1. NativeFinalizeCallBack e1 r)
     else Some e)"

section \<open>Deferred finalizers\<close>

definition engine_Delete :: "ark_engine \<Rightarrow> ark_engine" where
  "engine_Delete e = e\<lparr>deleted := True, engineState := RELEASING\<rparr>"

definition SecondFinalizeCallback ::
    "ark_engine \<Rightarrow> callback \<Rightarrow> addr option \<Rightarrow> ReferenceOwnerShip \<Rightarrow> addr option \<Rightarrow> ark_engine" where
  "SecondFinalizeCallback e cb data ownership hint =
     (let e1 = e\<lparr>invoked := invoked e @ [(cb, data, hint)],
                 callbackbleRefCounter := callbackbleRefCounter e - 1\<rparr>;
          e2 = (if ownership = RUNTIME
                then e1\<lparr>runtimeOwnedRefCounter := runtimeOwnedRefCounter e1 - 1\<rparr> else e1)
      in if IsReadyToDelete e2 then engine_Delete e2 else e2)"

fun run_finalizer :: "ark_engine \<Rightarrow> finalizer \<Rightarrow> ark_engine" where
  "run_finalizer e (DirectFinalizer cb d h) = e\<lparr>invoked := invoked e @ [(cb, d, h)]\<rparr>"
| "run_finalizer e (SecondFinalizer cb d ow h) = SecondFinalizeCallback e cb d ow h"
| "run_finalizer e (AsyncFinalizer cb d h) = e\<lparr>invoked := invoked e @ [(cb, d, h)]\<rparr>"

text \<open>
  A pending pack is processed without the loop (\<open>PostFinalizeTasks\<close> outside the main thread).
\<close>

definition flush_pack :: "ark_engine \<Rightarrow> ark_engine" where
  "flush_pack e =
     (let fs = finalizers (arkFinalizersPack (root e))
      in foldl run_finalizer (e\<lparr>root := PostFinalizeTasks False False True True (root e)\<rparr>) fs)"

definition DestroyContext :: "ark_engine \<Rightarrow> bool \<Rightarrow> ark_engine \<times> napi_status" where
  "DestroyContext e isCurrentContext =
     (if engineState e \<noteq> RUNNING then (e, napi_invalid_arg)
      else if isMainEnvContext e then (e, napi_invalid_arg)
      else if isCurrentContext then (e, napi_invalid_arg)
      else let e1 = e\<lparr>engineState := STOPPED\<rparr>
           in (if \<not> HasRuntimeOwnedRef e1 then engine_Delete e1 else e1, napi_ok))"

section \<open>The packed flags\<close>

lemma flag_or_and: "((p :: u8) OR m) AND m' = 0 \<longleftrightarrow> p AND m' = 0 \<and> m AND m' = 0"
  by (simp add: bit.conj_disj_distrib2 or_eq_0_iff)

lemma flags_set [simp]:
  "GetDeleteSelf (SetDeleteSelf k)" "HasDelete (SetHasDelete k)" "GetFinalRun (SetFinalRan k)"
  by (simp_all add: GetDeleteSelf_def HasDelete_def GetFinalRun_def SetDeleteSelf_def
      SetHasDelete_def SetFinalRan_def flag_or_and mask_defs)

lemma flags_other [simp]:
  "GetFinalRun (SetDeleteSelf k) = GetFinalRun k" "GetFinalRun (SetHasDelete k) = GetFinalRun k"
  "GetDeleteSelf (SetFinalRan k) = GetDeleteSelf k" "GetDeleteSelf (SetHasDelete k) = GetDeleteSelf k"
  "HasDelete (SetFinalRan k) = HasDelete k" "HasDelete (SetDeleteSelf k) = HasDelete k"
  "IsAsyncCall (SetFinalRan k) = IsAsyncCall k" "IsAsyncCall (SetDeleteSelf k) = IsAsyncCall k"
  "IsAsyncCall (SetHasDelete k) = IsAsyncCall k"
  by (simp_all add: GetDeleteSelf_def HasDelete_def GetFinalRun_def IsAsyncCall_def
      SetDeleteSelf_def SetHasDelete_def SetFinalRan_def flag_or_and mask_defs)

lemma InitProperties_flags [simp]:
  assumes "r_properties k = 0"
  shows "GetDeleteSelf (InitProperties d a k) = d" "IsAsyncCall (InitProperties d a k) = a"
    "GetFinalRun (InitProperties d a k) = False" "HasDelete (InitProperties d a k) = False"
  using assms
  by (auto simp: InitProperties_def GetDeleteSelf_def IsAsyncCall_def GetFinalRun_def HasDelete_def
      SetDeleteSelf_def flag_or_and mask_defs Let_def)

lemma flags_upd [simp]:
  "GetDeleteSelf (k\<lparr>r_value := v\<rparr>) = GetDeleteSelf k" "GetDeleteSelf (k\<lparr>r_weak := w\<rparr>) = GetDeleteSelf k"
  "GetDeleteSelf (k\<lparr>r_data := d\<rparr>) = GetDeleteSelf k" "GetDeleteSelf (k\<lparr>r_hint := d\<rparr>) = GetDeleteSelf k"
  "GetDeleteSelf (k\<lparr>r_refCount := c\<rparr>) = GetDeleteSelf k" "GetDeleteSelf (k\<lparr>r_engineId := i\<rparr>) = GetDeleteSelf k"
  "GetFinalRun (k\<lparr>r_value := v\<rparr>) = GetFinalRun k" "GetFinalRun (k\<lparr>r_weak := w\<rparr>) = GetFinalRun k"
  "GetFinalRun (k\<lparr>r_data := d\<rparr>) = GetFinalRun k" "GetFinalRun (k\<lparr>r_hint := d\<rparr>) = GetFinalRun k"
  "GetFinalRun (k\<lparr>r_refCount := c\<rparr>) = GetFinalRun k" "GetFinalRun (k\<lparr>r_engineId := i\<rparr>) = GetFinalRun k"
  "HasDelete (k\<lparr>r_value := v\<rparr>) = HasDelete k" "HasDelete (k\<lparr>r_weak := w\<rparr>) = HasDelete k"
  "HasDelete (k\<lparr>r_data := d\<rparr>) = HasDelete k" "HasDelete (k\<lparr>r_hint := d\<rparr>) = HasDelete k"
  "HasDelete (k\<lparr>r_refCount := c\<rparr>) = HasDelete k" "HasDelete (k\<lparr>r_engineId := i\<rparr>) = HasDelete k"
  "IsAsyncCall (k\<lparr>r_value := v\<rparr>) = IsAsyncCall k" "IsAsyncCall (k\<lparr>r_weak := w\<rparr>) = IsAsyncCall k"
  "IsAsyncCall (k\<lparr>r_data := d\<rparr>) = IsAsyncCall k" "IsAsyncCall (k\<lparr>r_hint := d\<rparr>) = IsAsyncCall k"
  "IsAsyncCall (k\<lparr>r_refCount := c\<rparr>) = IsAsyncCall k" "IsAsyncCall (k\<lparr>r_engineId := i\<rparr>) = IsAsyncCall k"
  by (simp_all add: GetDeleteSelf_def GetFinalRun_def HasDelete_def IsAsyncCall_def)

lemma flag_setters_fields [simp]:
  "r_value (SetDeleteSelf k) = r_value k" "r_value (SetHasDelete k) = r_value k" "r_value (SetFinalRan k) = r_value k"
  "r_weak (SetDeleteSelf k) = r_weak k" "r_weak (SetHasDelete k) = r_weak k" "r_weak (SetFinalRan k) = r_weak k"
  "r_refCount (SetDeleteSelf k) = r_refCount k" "r_refCount (SetHasDelete k) = r_refCount k"
  "r_refCount (SetFinalRan k) = r_refCount k"
  "r_ownership (SetDeleteSelf k) = r_ownership k" "r_ownership (SetHasDelete k) = r_ownership k"
  "r_ownership (SetFinalRan k) = r_ownership k"
  "r_callback (SetDeleteSelf k) = r_callback k" "r_callback (SetHasDelete k) = r_callback k"
  "r_callback (SetFinalRan k) = r_callback k"
  "r_data (SetHasDelete k) = r_data k" "r_hint (SetHasDelete k) = r_hint k"
  "r_data (SetDeleteSelf k) = r_data k" "r_hint (SetDeleteSelf k) = r_hint k"
  "r_bindingSize (SetHasDelete k) = r_bindingSize k"
  by (simp_all add: SetDeleteSelf_def SetHasDelete_def SetFinalRan_def)

lemma fin_entry_upd [simp]:
  "fst (fin_entry r k) = r" "fin_entry r (SetHasDelete k) = fin_entry r k"
  "fin_entry r (k\<lparr>r_value := v\<rparr>) = fin_entry r k" "fin_entry r (k\<lparr>r_weak := w\<rparr>) = fin_entry r k"
  by (simp_all add: fin_entry_def)

lemma InitProperties_fields [simp]:
  "r_value (InitProperties d a k) = r_value k" "r_weak (InitProperties d a k) = r_weak k"
  "r_refCount (InitProperties d a k) = r_refCount k"
  "r_ownership (InitProperties d a k) = r_ownership k"
  "r_callback (InitProperties d a k) = r_callback k"
  "r_data (InitProperties d a k) = r_data k" "r_hint (InitProperties d a k) = r_hint k"
  by (simp_all add: InitProperties_def Let_def)

end
