(* ===== verification/Reference_Lifecycle.thy ===== *)
theory Reference_Lifecycle
  imports Native_Reference
begin

text \<open>
  The life of references as sequences of operations: what each operation of \<open>Native_Reference\<close>
  does to the heap, the manager's list and the finalizer log, the invariants every operation
  keeps, and the properties that follow for every run.
\<close>

section \<open>Operations as steps\<close>

text \<open>\<open>napi_delete_reference\<close> after its checks: delete at once or leave it to the collector.\<close>

definition delete_reference_core :: "ark_engine \<Rightarrow> addr \<Rightarrow> ark_engine option" where
  "delete_reference_core e r = Option.bind (heap e r) (\<lambda>k.
     if r_refCount k > 0 \<or> GetFinalRun k then destroy_ref e r
     else Some (set_ref e r (SetDeleteSelf k)))"

datatype ref_op =
    New addr nat u32 bool "callback option" "addr option" "addr option" bool u64
  | IncRef addr
  | DecRef addr
  | Collect addr
  | DeleteApi addr
  | DeleteNow addr
  | Flush

fun ref_step :: "ark_engine \<Rightarrow> ref_op \<Rightarrow> ark_engine option" where
  "ref_step e (New r v c ds cb d h a n) = new_ArkNativeReference e r v c ds cb d h a n"
| "ref_step e (IncRef r) = map_option fst (Ref e r)"
| "ref_step e (DecRef r) = map_option fst (Unref e r)"
| "ref_step e (Collect r) = collect e r"
| "ref_step e (DeleteApi r) = delete_reference_core e r"
| "ref_step e (DeleteNow r) = destroy_ref e r"
| "ref_step e Flush = Some (flush_pack e)"

text \<open>
  What a caller owes: a new object has a fresh address, every other operation is on a live
  reference.
\<close>

fun op_ok :: "ark_engine \<Rightarrow> ref_op \<Rightarrow> bool" where
  "op_ok e (New r v c ds cb d h a n) \<longleftrightarrow> r \<notin> set (born e)"
| "op_ok e (IncRef r) \<longleftrightarrow> heap e r \<noteq> None"
| "op_ok e (DecRef r) \<longleftrightarrow> heap e r \<noteq> None"
| "op_ok e (Collect r) \<longleftrightarrow> heap e r \<noteq> None"
| "op_ok e (DeleteApi r) \<longleftrightarrow> heap e r \<noteq> None"
| "op_ok e (DeleteNow r) \<longleftrightarrow> heap e r \<noteq> None"
| "op_ok e Flush \<longleftrightarrow> True"

inductive ref_steps :: "ark_engine \<Rightarrow> ref_op list \<Rightarrow> ark_engine \<Rightarrow> bool" where
  steps_nil: "ref_steps e [] e"
| steps_cons: "op_ok e op \<Longrightarrow> ref_step e op = Some e' \<Longrightarrow> ref_steps e' ops e'' \<Longrightarrow>
     ref_steps e (op # ops) e''"

inductive_cases steps_consE: "ref_steps e (op # ops) e''"
inductive_simps ref_steps_Nil [simp]: "ref_steps e [] e'"

section \<open>Effects\<close>

lemma root_calls [simp]:
  "heap (DispatchFinalizeCallback e k) = heap e" "heap (call_now e k) = heap e"
  "born (DispatchFinalizeCallback e k) = born e" "born (call_now e k) = born e"
  "finalized (DispatchFinalizeCallback e k) = finalized e" "finalized (call_now e k) = finalized e"
  "referenceManager (DispatchFinalizeCallback e k) = referenceManager e"
  "referenceManager (call_now e k) = referenceManager e"
  "isInDestructor (DispatchFinalizeCallback e k) = isInDestructor e"
  "isInDestructor (call_now e k) = isInDestructor e"
  by (simp_all add: DispatchFinalizeCallback_def EnqueueAsyncTask_def EnqueueDeferredTask_def
      call_now_def Let_def split: option.splits)

text \<open>Whether finalizing \<open>k\<close> calls or queues its finalizer.\<close>

definition will_finalize :: "ark_engine \<Rightarrow> ark_ref \<Rightarrow> bool" where
  "will_finalize e k \<longleftrightarrow> \<not> GetFinalRun k \<and> r_callback k \<noteq> None \<and> \<not> isInDestructor e"

lemma finalize_body_effect [simp]:
  "heap (fst (finalize_body e r k st)) = heap e" "born (fst (finalize_body e r k st)) = born e"
  "referenceManager (fst (finalize_body e r k st)) = referenceManager e"
  "isInDestructor (fst (finalize_body e r k st)) = isInDestructor e"
  "finalized (fst (finalize_body e r k st)) =
     (if will_finalize e k then fin_entry r k # finalized e else finalized e)"
  "snd (finalize_body e r k st) = SetFinalRan (k\<lparr>r_data := None, r_hint := None\<rparr>)"
  by (simp_all add: finalize_body_def will_finalize_def Let_def split: FinalizerState.splits)

lemma will_finalize_upd [simp]:
  "will_finalize (e\<lparr>nonCallbackRefCounter := c\<rparr>) k = will_finalize e k"
  "will_finalize (e\<lparr>referenceManager := m\<rparr>) k = will_finalize e k"
  "will_finalize (set_ref e r k') k = will_finalize e k"
  "will_finalize e (k\<lparr>r_value := v\<rparr>) = will_finalize e k"
  "will_finalize e (k\<lparr>r_weak := w\<rparr>) = will_finalize e k"
  "will_finalize e (SetHasDelete k) = will_finalize e k"
  by (simp_all add: will_finalize_def set_ref_def)

lemma count_destroyed_effect [simp]:
  "heap (count_destroyed e k) = heap e" "born (count_destroyed e k) = born e"
  "isInDestructor (count_destroyed e k) = isInDestructor e"
  "finalized (count_destroyed e k) = finalized e"
  "referenceManager (count_destroyed e k) = referenceManager e"
  by (simp_all add: count_destroyed_def)

lemma count_created_effect [simp]:
  "heap (count_created e k) = heap e" "born (count_created e k) = born e"
  "isInDestructor (count_created e k) = isInDestructor e"
  "finalized (count_created e k) = finalized e"
  "referenceManager (count_created e k) = referenceManager e"
  by (simp_all add: count_created_def Let_def)

lemma unlink_ref_effect:
  "unlink_ref e r k = Some e' \<Longrightarrow> heap e' = heap e \<and> born e' = born e \<and>
     isInDestructor e' = isInDestructor e \<and> finalized e' = finalized e"
  by (auto simp: unlink_ref_def split: if_splits option.splits)

lemma destroy_ref_effect:
  assumes "destroy_ref e r = Some e'"
  shows "\<exists>k. heap e r = Some k \<and> heap e' = (heap e)(r := None) \<and> born e' = born e \<and>
    isInDestructor e' = isInDestructor e \<and>
    finalized e' = (if r_value k \<noteq> None \<and> will_finalize e k then fin_entry r k # finalized e else finalized e)"
proof -
  from assms obtain k e2 where k: "heap e r = Some k"
    and e2: "unlink_ref (count_destroyed e k) r k = Some e2"
    and e': "e' = (if r_value k = None then free_ref e2 r
      else free_ref (fst (finalize_body e2 r ((SetHasDelete k)\<lparr>r_value := None, r_weak := False\<rparr>)
        DESTRUCTION)) r)"
    by (auto simp: destroy_ref_def Let_def bind_eq_Some_conv)
  from unlink_ref_effect [OF e2] have "will_finalize e2 k = will_finalize e k"
    by (simp add: will_finalize_def)
  with k unlink_ref_effect [OF e2] e' show ?thesis by (auto simp: free_ref_def)
qed

lemma FinalizeCallback_effect:
  assumes "FinalizeCallback e r st = Some e'" and "heap e r = Some k"
  shows "\<exists>k'. (heap e' = (heap e)(r := None) \<or>
        heap e' = (heap e)(r \<mapsto> k') \<and> GetFinalRun k' \<and> r_weak k' = r_weak k \<and>
          r_refCount k' = r_refCount k \<and> r_ownership k' = r_ownership k) \<and>
    born e' = born e \<and> isInDestructor e' = isInDestructor e \<and>
    finalized e' = (if will_finalize e k then fin_entry r k # finalized e else finalized e)"
proof -
  let ?e1 = "fst (finalize_body e r k st)"
  let ?k1 = "SetFinalRan (k\<lparr>r_data := None, r_hint := None\<rparr>)"
  let ?e2 = "set_ref ?e1 r ?k1"
  show ?thesis
  proof (cases "GetDeleteSelf ?k1 \<and> \<not> HasDelete ?k1")
    case True
    with assms have "destroy_ref ?e2 r = Some e'" by (simp add: FinalizeCallback_def Let_def)
    from destroy_ref_effect [OF this] have
      "heap e' = (heap e)(r := None) \<and> born e' = born e \<and> isInDestructor e' = isInDestructor e \<and>
       finalized e' = (if will_finalize e k then fin_entry r k # finalized e else finalized e)"
      by (auto simp: set_ref_def will_finalize_def)
    then show ?thesis by blast
  next
    case False
    with assms have "e' = ?e2" by (auto simp: FinalizeCallback_def Let_def split: if_splits)
    then show ?thesis by (auto simp: set_ref_def intro!: exI [of _ ?k1])
  qed
qed

lemma collect_effect:
  assumes "collect e r = Some e'" and "heap e r = Some k"
  shows "e' = e \<and> \<not> (r_weak k \<and> r_value k \<noteq> None) \<or>
    r_weak k \<and> r_value k \<noteq> None \<and> born e' = born e \<and> isInDestructor e' = isInDestructor e \<and>
    finalized e' = (if will_finalize e k then fin_entry r k # finalized e else finalized e) \<and>
    (heap e' = (heap e)(r := None) \<or>
     (\<exists>k'. heap e' = (heap e)(r \<mapsto> k') \<and> GetFinalRun k' \<and> \<not> r_weak k' \<and>
        r_ownership k' = r_ownership k))"
proof (cases "r_weak k \<and> r_value k \<noteq> None")
  case True
  let ?k = "k\<lparr>r_value := None, r_weak := False\<rparr>"
  from True assms have "FinalizeCallback (set_ref e r ?k) r COLLECTION = Some e'"
    by (simp add: collect_def FreeGlobalCallBack_def NativeFinalizeCallBack_def)
  from FinalizeCallback_effect [OF this, of ?k] True show ?thesis
    by (auto simp: set_ref_def will_finalize_def)
next
  case False
  with assms show ?thesis by (auto simp: collect_def)
qed

lemma Ref_Some:
  "heap e r = Some k \<Longrightarrow> Ref e r = Some
     (set_ref e r (if r_refCount k + 1 = 1 then k\<lparr>r_refCount := r_refCount k + 1, r_weak := False\<rparr>
                   else k\<lparr>r_refCount := r_refCount k + 1\<rparr>), r_refCount k + 1)"
  by (simp add: Ref_def Let_def)

lemma Unref_Some:
  "heap e r = Some k \<Longrightarrow> Unref e r = Some
     (if r_refCount k = 0 then (e, 0)
      else (set_ref e r (if r_value k \<noteq> None \<and> r_refCount k - 1 = 0
                         then k\<lparr>r_refCount := r_refCount k - 1, r_weak := True\<rparr>
                         else k\<lparr>r_refCount := r_refCount k - 1\<rparr>), r_refCount k - 1))"
  by (simp add: Unref_def Let_def)

lemma Ref_effect:
  "Ref e r = Some (e', n) \<Longrightarrow> \<exists>k k'. heap e r = Some k \<and> e' = set_ref e r k' \<and>
     r_refCount k' = r_refCount k + 1 \<and> (r_weak k' \<longrightarrow> r_weak k \<and> r_refCount k \<noteq> 0) \<and>
     GetFinalRun k' = GetFinalRun k \<and> r_ownership k' = r_ownership k \<and> r_value k' = r_value k"
  by (cases "heap e r") (auto simp: Ref_Some, auto simp: Ref_def)

lemma Unref_effect:
  "Unref e r = Some (e', n) \<Longrightarrow> e' = e \<or> (\<exists>k k'. heap e r = Some k \<and> e' = set_ref e r k' \<and>
     r_refCount k \<noteq> 0 \<and> (r_weak k' \<longrightarrow> r_weak k \<or> r_refCount k' = 0) \<and>
     GetFinalRun k' = GetFinalRun k \<and> r_ownership k' = r_ownership k \<and> r_value k' = r_value k)"
proof (cases "heap e r")
  case None
  then show "Unref e r = Some (e', n) \<Longrightarrow> ?thesis" by (simp add: Unref_def)
next
  case (Some k)
  assume a: "Unref e r = Some (e', n)"
  show ?thesis
  proof (cases "r_refCount k = 0")
    case True
    with a Some show ?thesis by (simp add: Unref_Some)
  next
    case False
    have "e' = fst (the (Unref e r))" by (simp add: a)
    also have "\<dots> = set_ref e r (if r_value k \<noteq> None \<and> r_refCount k - 1 = 0
        then k\<lparr>r_refCount := r_refCount k - 1, r_weak := True\<rparr>
        else k\<lparr>r_refCount := r_refCount k - 1\<rparr>)"
      using False by (simp only: Unref_Some [OF Some] option.sel if_False fst_conv)
    finally have e': "e' = set_ref e r (if r_value k \<noteq> None \<and> r_refCount k - 1 = 0
        then k\<lparr>r_refCount := r_refCount k - 1, r_weak := True\<rparr>
        else k\<lparr>r_refCount := r_refCount k - 1\<rparr>)" .
    show ?thesis
    proof (cases "r_value k \<noteq> None \<and> r_refCount k - 1 = 0")
      case True
      with e' False Some show ?thesis
        by (intro disjI2 exI [of _ k] exI [of _ "k\<lparr>r_refCount := r_refCount k - 1, r_weak := True\<rparr>"])
          (simp add: GetFinalRun_def)
    next
      case nz: False
      with e' False Some show ?thesis
        by (intro disjI2 exI [of _ k] exI [of _ "k\<lparr>r_refCount := r_refCount k - 1\<rparr>"]) auto
    qed
  qed
qed

lemma new_effect:
  assumes "new_ArkNativeReference e r v c ds cb d h a n = Some e'"
  shows "\<exists>k. heap e' = (heap e)(r \<mapsto> k) \<and> r_refCount k = c \<and> r_weak k = (c = 0) \<and>
      r_value k = Some v \<and> r_ownership k = (if ds then RUNTIME else USER) \<and>
      \<not> GetFinalRun k \<and> GetDeleteSelf k = ds \<and> IsAsyncCall k = a \<and> r_callback k = cb \<and>
      r_data k = d \<and> r_hint k = h \<and>
    born e' = r # born e \<and> finalized e' = finalized e \<and> isInDestructor e' = isInDestructor e"
proof -
  define k0 where "k0 = InitProperties ds a
    \<lparr>r_engineId = 0, r_value = Some v, r_weak = False, r_refCount = c,
     r_ownership = (if ds then RUNTIME else USER), r_properties = 0,
     r_callback = cb, r_data = d, r_hint = h, r_bindingSize = n\<rparr>"
  define k1 where "k1 = (if c = 0 then k0\<lparr>r_weak := True\<rparr> else k0)\<lparr>r_engineId := engine_id e\<rparr>"
  have k0: "r_refCount k0 = c" "r_value k0 = Some v" "r_ownership k0 = (if ds then RUNTIME else USER)"
    "\<not> GetFinalRun k0" "GetDeleteSelf k0 = ds" "IsAsyncCall k0 = a" "r_callback k0 = cb"
    "r_data k0 = d" "r_hint k0 = h" "\<not> r_weak k0"
    by (simp_all add: k0_def)
  have "heap e' = (heap e)(r \<mapsto> k1) \<and> born e' = r # born e \<and> finalized e' = finalized e \<and>
      isInDestructor e' = isInDestructor e"
    using assms unfolding new_ArkNativeReference_def Let_def k0_def [symmetric]
    by (auto simp: ArkNativeReferenceConstructor_def set_ref_def k0 k1_def Let_def
        split: if_splits option.splits)
  then show ?thesis using k0 by (intro exI [of _ k1]) (auto simp: k1_def)
qed

lemma run_finalizer_frame [simp]:
  "heap (run_finalizer e f) = heap e" "born (run_finalizer e f) = born e"
  "finalized (run_finalizer e f) = finalized e" "isInDestructor (run_finalizer e f) = isInDestructor e"
  "referenceManager (run_finalizer e f) = referenceManager e"
  by (cases f; simp add: SecondFinalizeCallback_def engine_Delete_def Let_def)+

lemma foldl_run_frame [simp]:
  "heap (foldl run_finalizer e fs) = heap e" "born (foldl run_finalizer e fs) = born e"
  "finalized (foldl run_finalizer e fs) = finalized e"
  "isInDestructor (foldl run_finalizer e fs) = isInDestructor e"
  "referenceManager (foldl run_finalizer e fs) = referenceManager e"
  by (induction fs arbitrary: e) simp_all

lemma flush_pack_frame [simp]:
  "heap (flush_pack e) = heap e" "born (flush_pack e) = born e"
  "finalized (flush_pack e) = finalized e" "isInDestructor (flush_pack e) = isInDestructor e"
  "referenceManager (flush_pack e) = referenceManager e"
  by (simp_all add: flush_pack_def Let_def)

section \<open>Invariants\<close>

text \<open>A reference that the collector may clear has the count zero.\<close>

definition weak_inv :: "ark_engine \<Rightarrow> bool" where
  "weak_inv e \<longleftrightarrow> (\<forall>r k. heap e r = Some k \<and> r_weak k \<longrightarrow> r_refCount k = 0)"

text \<open>
  A finalizer is called or queued at most once per reference: over the references already
  finalized, the references ever created, and the heap.
\<close>

definition once :: "addr list \<Rightarrow> addr set \<Rightarrow> (addr \<rightharpoonup> ark_ref) \<Rightarrow> bool" where
  "once fin B h \<longleftrightarrow> distinct fin \<and> set fin \<subseteq> B \<and> dom h \<subseteq> B \<and>
     (\<forall>r k. h r = Some k \<and> \<not> GetFinalRun k \<longrightarrow> r \<notin> set fin)"

definition once_inv :: "ark_engine \<Rightarrow> bool" where
  "once_inv e \<longleftrightarrow> once (map fst (finalized e)) (set (born e)) (heap e)"

lemma once_free: "once F B h \<Longrightarrow> once F B (h(r := None))"
  by (auto simp: once_def)

lemma once_log_free: "once F B h \<Longrightarrow> h r = Some k \<Longrightarrow> \<not> GetFinalRun k \<Longrightarrow> once (r # F) B (h(r := None))"
  by (auto simp: once_def)

lemma once_upd:
  "once F B h \<Longrightarrow> h r = Some k \<Longrightarrow> (GetFinalRun k \<Longrightarrow> GetFinalRun k') \<Longrightarrow> once F B (h(r \<mapsto> k'))"
  by (fastforce simp: once_def)

lemma once_log_upd:
  "once F B h \<Longrightarrow> h r = Some k \<Longrightarrow> \<not> GetFinalRun k \<Longrightarrow> GetFinalRun k' \<Longrightarrow> once (r # F) B (h(r \<mapsto> k'))"
  by (auto simp: once_def)

lemma once_new: "once F B h \<Longrightarrow> r \<notin> B \<Longrightarrow> once F (insert r B) (h(r \<mapsto> k))"
  by (auto simp: once_def)

lemma collect_weak:
  assumes "collect e r = Some e'" and "weak_inv e"
  shows "weak_inv e'"
proof -
  from assms(1) obtain k where k: "heap e r = Some k"
    by (auto simp: collect_def bind_eq_Some_conv)
  from collect_effect [OF assms(1) k] assms(2) k show ?thesis
    by (auto simp: weak_inv_def split: if_splits)
qed

lemma destroy_weak: "destroy_ref e r = Some e' \<Longrightarrow> weak_inv e \<Longrightarrow> weak_inv e'"
  by (auto simp: weak_inv_def dest!: destroy_ref_effect split: if_splits)

lemma delete_core_cases:
  assumes "delete_reference_core e r = Some e'"
  obtains k where "heap e r = Some k" and "destroy_ref e r = Some e'"
  | k where "heap e r = Some k" and "r_refCount k = 0" and "\<not> GetFinalRun k"
      and "e' = set_ref e r (SetDeleteSelf k)"
  using assms by (auto simp: delete_reference_core_def bind_eq_Some_conv word_gt_0 split: if_splits)

lemma step_weak: "ref_step e op = Some e' \<Longrightarrow> weak_inv e \<Longrightarrow> weak_inv e'"
proof (cases op)
  case (New r v c ds cb d h a n)
  assume "ref_step e op = Some e'" "weak_inv e"
  with New show ?thesis by (auto simp: weak_inv_def dest!: new_effect split: if_splits)
next
  case (IncRef r)
  assume "ref_step e op = Some e'" "weak_inv e"
  with IncRef show ?thesis
    by (auto simp: weak_inv_def set_ref_def dest!: Ref_effect split: if_splits)
next
  case (DecRef r)
  assume "ref_step e op = Some e'" "weak_inv e"
  with DecRef show ?thesis
    by (auto simp: weak_inv_def set_ref_def dest!: Unref_effect split: if_splits)
next
  case (Collect r)
  assume "ref_step e op = Some e'" "weak_inv e"
  with Collect show ?thesis by (auto intro: collect_weak)
next
  case (DeleteApi r)
  assume "ref_step e op = Some e'" "weak_inv e"
  with DeleteApi show ?thesis
    by (auto elim!: delete_core_cases dest: destroy_weak)
       (auto simp: weak_inv_def set_ref_def)
next
  case (DeleteNow r)
  assume "ref_step e op = Some e'" "weak_inv e"
  with DeleteNow show ?thesis by (auto intro: destroy_weak)
next
  case Flush
  assume "ref_step e op = Some e'" "weak_inv e"
  with Flush show ?thesis by (auto simp: weak_inv_def)
qed

lemma once_result:
  assumes "once_inv e" and "heap e r = Some k" and "born e' = born e"
    and "finalized e' = (if b \<and> will_finalize e k then fin_entry r k # finalized e else finalized e)"
    and "heap e' = (heap e)(r := None) \<or> (\<exists>k'. heap e' = (heap e)(r \<mapsto> k') \<and> GetFinalRun k')"
  shows "once_inv e'"
proof -
  have f: "\<not> GetFinalRun k" if "will_finalize e k" using that by (simp add: will_finalize_def)
  from assms(5) show ?thesis
  proof
    assume "heap e' = (heap e)(r := None)"
    with assms(1-4) f show ?thesis by (auto simp: once_inv_def intro: once_free once_log_free)
  next
    assume "\<exists>k'. heap e' = (heap e)(r \<mapsto> k') \<and> GetFinalRun k'"
    with assms(1-4) f show ?thesis by (auto simp: once_inv_def intro: once_upd once_log_upd)
  qed
qed

lemma destroy_once:
  assumes "destroy_ref e r = Some e'" and "once_inv e"
  shows "once_inv e'"
proof -
  from destroy_ref_effect [OF assms(1)] obtain k where k: "heap e r = Some k"
    "heap e' = (heap e)(r := None)" "born e' = born e"
    "finalized e' = (if r_value k \<noteq> None \<and> will_finalize e k then fin_entry r k # finalized e
       else finalized e)" by blast
  show ?thesis by (rule once_result [OF assms(2) k(1) k(3) k(4)]) (simp add: k(2))
qed

lemma collect_once:
  assumes "collect e r = Some e'" and "once_inv e"
  shows "once_inv e'"
proof -
  from assms(1) obtain k where k: "heap e r = Some k"
    by (auto simp: collect_def bind_eq_Some_conv)
  show ?thesis
  proof (cases "r_weak k \<and> r_value k \<noteq> None")
    case False
    with collect_effect [OF assms(1) k] assms(2) show ?thesis by blast
  next
    case True
    with collect_effect [OF assms(1) k] have c: "born e' = born e"
      "finalized e' = (if True \<and> will_finalize e k then fin_entry r k # finalized e else finalized e)"
      "heap e' = (heap e)(r := None) \<or> (\<exists>k'. heap e' = (heap e)(r \<mapsto> k') \<and> GetFinalRun k')"
      by auto
    show ?thesis by (rule once_result [OF assms(2) k c])
  qed
qed

lemma set_ref_once:
  "once_inv e \<Longrightarrow> heap e r = Some k \<Longrightarrow> GetFinalRun k' = GetFinalRun k \<Longrightarrow> once_inv (set_ref e r k')"
  by (auto simp: once_inv_def set_ref_def intro: once_upd)

lemma step_once: "op_ok e op \<Longrightarrow> ref_step e op = Some e' \<Longrightarrow> once_inv e \<Longrightarrow> once_inv e'"
proof (cases op)
  case (New r v c ds cb d h a n)
  assume "op_ok e op" "ref_step e op = Some e'" "once_inv e"
  with New new_effect [of e r v c ds cb d h a n e'] show ?thesis
    by (auto simp: once_inv_def intro: once_new)
next
  case (IncRef r)
  assume "ref_step e op = Some e'" "once_inv e"
  with IncRef show ?thesis by (auto dest!: Ref_effect intro: set_ref_once)
next
  case (DecRef r)
  assume "ref_step e op = Some e'" "once_inv e"
  with DecRef show ?thesis by (auto dest!: Unref_effect intro: set_ref_once)
next
  case (Collect r)
  assume "ref_step e op = Some e'" "once_inv e"
  with Collect show ?thesis by (auto intro: collect_once)
next
  case (DeleteApi r)
  assume "ref_step e op = Some e'" "once_inv e"
  with DeleteApi show ?thesis
    by (auto elim!: delete_core_cases intro: destroy_once set_ref_once)
next
  case (DeleteNow r)
  assume "ref_step e op = Some e'" "once_inv e"
  with DeleteNow show ?thesis by (auto intro: destroy_once)
next
  case Flush
  assume "ref_step e op = Some e'" "once_inv e"
  with Flush show ?thesis by (auto simp: once_inv_def)
qed

section \<open>The manager's list and the heap\<close>

text \<open>The runtime-owned references that are alive; the manager's list holds exactly these.\<close>

definition owned :: "ark_engine \<Rightarrow> addr set" where
  "owned e = {r. \<exists>k. heap e r = Some k \<and> r_ownership k = RUNTIME}"

definition mgr_inv :: "ark_engine \<Rightarrow> bool" where
  "mgr_inv e \<longleftrightarrow> (\<forall>m. referenceManager e = Some m \<longrightarrow> (\<exists>xs. dll m xs \<and> set xs = owned e))"

lemma owned_set_ref:
  "heap e r = Some k \<Longrightarrow> r_ownership k' = r_ownership k \<Longrightarrow> owned (set_ref e r k') = owned e"
  by (auto simp: owned_def set_ref_def)

lemma mgr_inv_set_ref:
  "heap e r = Some k \<Longrightarrow> r_ownership k' = r_ownership k \<Longrightarrow> mgr_inv (set_ref e r k') = mgr_inv e"
  by (simp add: mgr_inv_def owned_set_ref) (simp add: set_ref_def)

lemma unlink_ok:
  assumes "mgr_inv e" and "heap e r = Some k"
  shows "\<exists>e'. unlink_ref e r k = Some e' \<and>
    (\<forall>m. referenceManager e' = Some m \<longrightarrow> (\<exists>xs. dll m xs \<and> set xs = owned e - {r}))"
proof (cases "r_ownership k = RUNTIME \<and> referenceManager e \<noteq> None")
  case True
  then obtain m where m: "referenceManager e = Some m" by auto
  with assms(1) obtain xs where xs: "dll m xs" "set xs = owned e" by (auto simp: mgr_inv_def)
  have "r \<in> set xs" using True assms(2) xs by (simp add: owned_def)
  then obtain as bs where ab: "xs = as @ r # bs" by (auto dest: split_list)
  obtain t where t: "ReleaseHandler m r = Some t" "dll t (as @ bs)"
    using ReleaseHandler_dll [of m as r bs] xs(1) ab by blast
  have "set (as @ bs) = owned e - {r}" using xs ab by (auto simp: dll_def)
  with t True m show ?thesis by (auto simp: unlink_ref_def)
next
  case False
  then have u: "unlink_ref e r k = Some e" by (auto simp: unlink_ref_def)
  have "owned e - {r} = owned e" if "referenceManager e \<noteq> None"
    using False that assms(2) by (auto simp: owned_def)
  with u assms(1) show ?thesis by (auto simp: mgr_inv_def)
qed

lemma destroy_ok:
  assumes "mgr_inv e" and "heap e r = Some k"
  shows "\<exists>e'. destroy_ref e r = Some e' \<and> mgr_inv e'"
proof -
  let ?e1 = "count_destroyed e k"
  have "mgr_inv ?e1" "heap ?e1 r = Some k" "owned ?e1 = owned e"
    using assms by (simp_all add: mgr_inv_def owned_def)
  with unlink_ok obtain e2 where e2: "unlink_ref ?e1 r k = Some e2"
    and l: "\<forall>m. referenceManager e2 = Some m \<longrightarrow> (\<exists>xs. dll m xs \<and> set xs = owned e - {r})"
    by metis
  have fr: "mgr_inv (free_ref x r)"
    if "heap x = heap e2" "referenceManager x = referenceManager e2" for x
  proof -
    have "owned (free_ref x r) = owned e - {r}"
      using that unlink_ref_effect [OF e2] by (auto simp: owned_def free_ref_def)
    moreover have "dll (m\<lparr>nodes := (nodes m)(r := None)\<rparr>) xs" if "dll m xs" "r \<notin> set xs" for m xs
      using that by (simp add: dll_def)
    ultimately show ?thesis using l that by (fastforce simp: mgr_inv_def free_ref_def)
  qed
  show ?thesis using assms(2) e2 by (auto simp: destroy_ref_def intro!: fr)
qed

lemma FinalizeCallback_ok:
  assumes "mgr_inv e" and "heap e r = Some k"
  shows "\<exists>e'. FinalizeCallback e r st = Some e' \<and> mgr_inv e'"
proof -
  let ?e1 = "fst (finalize_body e r k st)"
  let ?k1 = "SetFinalRan (k\<lparr>r_data := None, r_hint := None\<rparr>)"
  have "mgr_inv ?e1" using assms(1) by (simp add: mgr_inv_def owned_def)
  then have "mgr_inv (set_ref ?e1 r ?k1)" using assms(2) by (simp add: mgr_inv_set_ref [of _ _ k])
  moreover have "heap (set_ref ?e1 r ?k1) r = Some ?k1" by (simp add: set_ref_def)
  ultimately obtain e' where "destroy_ref (set_ref ?e1 r ?k1) r = Some e'" "mgr_inv e'"
    using destroy_ok by blast
  with assms \<open>mgr_inv (set_ref ?e1 r ?k1)\<close> show ?thesis by (simp add: FinalizeCallback_def Let_def)
qed

lemma collect_ok:
  assumes "mgr_inv e" and "heap e r = Some k"
  shows "\<exists>e'. collect e r = Some e' \<and> mgr_inv e'"
proof (cases "r_weak k \<and> r_value k \<noteq> None")
  case True
  let ?k = "k\<lparr>r_value := None, r_weak := False\<rparr>"
  have "mgr_inv (set_ref e r ?k)" "heap (set_ref e r ?k) r = Some ?k"
    using assms by (simp_all add: mgr_inv_set_ref [of _ _ k]) (simp add: set_ref_def)
  from FinalizeCallback_ok [OF this, of COLLECTION] assms(2) True show ?thesis
    by (simp add: collect_def FreeGlobalCallBack_def NativeFinalizeCallBack_def)
next
  case False
  with assms show ?thesis by (auto simp: collect_def)
qed

lemma new_mgr:
  assumes "new_ArkNativeReference e r v c ds cb d h a n = Some e'"
  shows "referenceManager e' = (case referenceManager e of None \<Rightarrow> None
    | Some m \<Rightarrow> if ds then CreateHandler (m\<lparr>nodes := (nodes m)(r \<mapsto> new_node)\<rparr>) r
              else Some (m\<lparr>nodes := (nodes m)(r \<mapsto> new_node)\<rparr>))"
  using assms unfolding new_ArkNativeReference_def ArkNativeReferenceConstructor_def Let_def
  by (cases "referenceManager e"; cases ds) (auto simp: set_ref_def)

lemma new_total:
  assumes "\<forall>m. referenceManager e = Some m \<longrightarrow>
      CreateHandler (m\<lparr>nodes := (nodes m)(r \<mapsto> new_node)\<rparr>) r \<noteq> None"
  shows "new_ArkNativeReference e r v c ds cb d h a n \<noteq> None"
  using assms unfolding new_ArkNativeReference_def ArkNativeReferenceConstructor_def Let_def
  by (cases "referenceManager e"; cases ds) (auto simp: set_ref_def)

lemma new_ok:
  assumes "mgr_inv e" and "heap e r = None"
  shows "\<exists>e'. new_ArkNativeReference e r v c ds cb d h a n = Some e' \<and> mgr_inv e'"
proof -
  have cr: "\<exists>xs t. CreateHandler (m\<lparr>nodes := (nodes m)(r \<mapsto> new_node)\<rparr>) r = Some t \<and>
      dll t (r # xs) \<and> dll (m\<lparr>nodes := (nodes m)(r \<mapsto> new_node)\<rparr>) xs \<and> set xs = owned e"
    if m: "referenceManager e = Some m" for m
  proof -
    from m assms(1) obtain xs where xs: "dll m xs" "set xs = owned e" by (auto simp: mgr_inv_def)
    have r: "r \<notin> set xs" using xs assms(2) by (simp add: owned_def)
    define m1 where "m1 = m\<lparr>nodes := (nodes m)(r \<mapsto> new_node)\<rparr>"
    have m1: "dll m1 xs" "nodes m1 r = Some new_node" using xs r by (simp_all add: m1_def dll_def)
    from CreateHandler_dll [OF m1(1) r m1(2)] m1 xs show ?thesis unfolding m1_def by blast
  qed
  then have "new_ArkNativeReference e r v c ds cb d h a n \<noteq> None" by (intro new_total) auto
  then obtain e' where e': "new_ArkNativeReference e r v c ds cb d h a n = Some e'" by auto
  from new_effect [OF e'] obtain k where "heap e' = (heap e)(r \<mapsto> k)"
    "r_ownership k = (if ds then RUNTIME else USER)" by blast
  then have ow: "owned e' = (if ds then insert r (owned e) else owned e)"
    using assms(2) by (auto simp: owned_def)
  have "mgr_inv e'"
  proof (cases "referenceManager e")
    case None
    with new_mgr [OF e'] show ?thesis by (simp add: mgr_inv_def)
  next
    case (Some m)
    from cr [OF Some] obtain xs t where
      t: "CreateHandler (m\<lparr>nodes := (nodes m)(r \<mapsto> new_node)\<rparr>) r = Some t" "dll t (r # xs)"
        "dll (m\<lparr>nodes := (nodes m)(r \<mapsto> new_node)\<rparr>) xs" "set xs = owned e" by blast
    show ?thesis
    proof (cases ds)
      case True
      with new_mgr [OF e'] Some t(1) have "referenceManager e' = Some t" by simp
      moreover have "set (r # xs) = owned e'" using ow True t(4) by simp
      ultimately show ?thesis using t(2) by (auto simp: mgr_inv_def)
    next
      case False
      with new_mgr [OF e'] Some have
        "referenceManager e' = Some (m\<lparr>nodes := (nodes m)(r \<mapsto> new_node)\<rparr>)" by simp
      moreover have "set xs = owned e'" using ow False t(4) by simp
      ultimately show ?thesis using t(3) by (auto simp: mgr_inv_def)
    qed
  qed
  with e' show ?thesis by blast
qed

section \<open>Every run\<close>

text \<open>The three invariants together, and that a step on live references neither fails nor breaks them.\<close>

definition life_inv :: "ark_engine \<Rightarrow> bool" where
  "life_inv e \<longleftrightarrow> weak_inv e \<and> once_inv e \<and> mgr_inv e"

lemma Ref_ok: "mgr_inv e \<Longrightarrow> heap e r = Some k \<Longrightarrow> \<exists>e' n. Ref e r = Some (e', n) \<and> mgr_inv e'"
  by (simp add: Ref_Some mgr_inv_set_ref)

lemma Unref_ok:
  assumes "mgr_inv e" and "heap e r = Some k"
  shows "\<exists>e' n. Unref e r = Some (e', n) \<and> mgr_inv e'"
proof -
  have "Unref e r \<noteq> None" using assms(2) by (simp add: Unref_Some)
  then obtain e' n where u: "Unref e r = Some (e', n)" by auto
  from Unref_effect [OF u] assms have "mgr_inv e'" by (auto simp: mgr_inv_set_ref)
  with u show ?thesis by blast
qed

lemma delete_core_ok:
  assumes "mgr_inv e" and "heap e r = Some k"
  shows "\<exists>e'. delete_reference_core e r = Some e' \<and> mgr_inv e'"
  using assms destroy_ok [OF assms] by (auto simp: delete_reference_core_def mgr_inv_set_ref)

lemma step_mgr:
  assumes "op_ok e op" and "once_inv e" and "mgr_inv e"
  shows "\<exists>e'. ref_step e op = Some e' \<and> mgr_inv e'"
proof (cases op)
  case (New r v c ds cb d h a n)
  with assms(1,2) have "heap e r = None" by (auto simp: once_inv_def once_def)
  from new_ok [OF assms(3) this] New show ?thesis by simp
next
  case (IncRef r)
  with assms(1) obtain k where "heap e r = Some k" by auto
  from Ref_ok [OF assms(3) this] IncRef show ?thesis by auto
next
  case (DecRef r)
  with assms(1) obtain k where "heap e r = Some k" by auto
  from Unref_ok [OF assms(3) this] DecRef show ?thesis by auto
next
  case (Collect r)
  with assms(1) obtain k where "heap e r = Some k" by auto
  from collect_ok [OF assms(3) this] Collect show ?thesis by auto
next
  case (DeleteApi r)
  with assms(1) obtain k where "heap e r = Some k" by auto
  from delete_core_ok [OF assms(3) this] DeleteApi show ?thesis by auto
next
  case (DeleteNow r)
  with assms(1) obtain k where "heap e r = Some k" by auto
  from destroy_ok [OF assms(3) this] DeleteNow show ?thesis by auto
next
  case Flush
  with assms(3) show ?thesis by (simp add: mgr_inv_def owned_def)
qed

lemma step_life:
  assumes "op_ok e op" and "life_inv e"
  shows "\<exists>e'. ref_step e op = Some e' \<and> life_inv e'"
  using assms step_mgr [of e op] step_weak step_once unfolding life_inv_def by metis

lemma steps_life [inv_intros]: "ref_steps e ops e' \<Longrightarrow> life_inv e \<Longrightarrow> life_inv e'"
proof (induction rule: ref_steps.induct)
  case (steps_nil e)
  then show ?case .
next
  case (steps_cons e op e' ops e'')
  then show ?case using step_life [of e op] by auto
qed

definition init_engine :: "bool \<Rightarrow> ark_engine" where
  "init_engine main = \<lparr>engine_id = 1, isMainEnvContext = main, isInDestructor = False,
     engineState = RUNNING, callbackbleRefCounter = 0, nonCallbackRefCounter = 0,
     runtimeOwnedRefCounter = 0,
     referenceManager = Some \<lparr>references = None, nodes = Map.empty\<rparr>, heap = Map.empty,
     root = init_fin, invoked = [], deleted = False, finalized = [], born = []\<rparr>"

lemma init_life [inv_intros]: "life_inv (init_engine main)"
  by (simp add: init_engine_def life_inv_def weak_inv_def once_inv_def once_def mgr_inv_def owned_def dll_empty)

section \<open>Calls made and calls owed\<close>

fun payload :: "finalizer \<Rightarrow> callback \<times> addr option \<times> addr option" where
  "payload (DirectFinalizer cb d h) = (cb, d, h)"
| "payload (SecondFinalizer cb d ow h) = (cb, d, h)"
| "payload (AsyncFinalizer cb d h) = (cb, d, h)"

text \<open>The finalizers that are queued or posted and have not run.\<close>

definition waiting :: "'f fin_state \<Rightarrow> 'f list" where
  "waiting s = concat (map finalizers (posted s)) @ concat (postedAsync s) @
     pendingAsyncFinalizers s @ finalizers (arkFinalizersPack s)"

definition calls_inv :: "ark_engine \<Rightarrow> bool" where
  "calls_inv e \<longleftrightarrow>
     mset (invoked e) + mset (map payload (waiting (root e))) = mset (map snd (finalized e))"

lemma calls_inv_frame:
  "invoked e' = invoked e \<Longrightarrow> root e' = root e \<Longrightarrow> finalized e' = finalized e \<Longrightarrow>
   calls_inv e' = calls_inv e"
  by (simp add: calls_inv_def)

lemma Dispatch_root:
  "invoked (DispatchFinalizeCallback e k) = invoked e"
  "r_callback k = Some cb \<Longrightarrow> image_mset payload (mset (waiting (root (DispatchFinalizeCallback e k)))) =
     add_mset (cb, r_data k, r_hint k) (image_mset payload (mset (waiting (root e))))"
  by (simp_all add: DispatchFinalizeCallback_def EnqueueAsyncTask_def EnqueueDeferredTask_def
      waiting_def AddFinalizer_def split: option.splits)

lemma call_now_invoked:
  "root (call_now e k) = root e"
  "r_callback k = Some cb \<Longrightarrow> invoked (call_now e k) = invoked e @ [(cb, r_data k, r_hint k)]"
  by (simp_all add: call_now_def Let_def split: option.splits)

lemma finalize_body_calls [simp]: "calls_inv (fst (finalize_body e r k st)) = calls_inv e"
proof (cases "\<not> GetFinalRun k \<and> \<not> isInDestructor e \<and> r_callback k \<noteq> None")
  case True
  then obtain cb where cb: "r_callback k = Some cb" by auto
  with True show ?thesis
    by (cases st) (simp_all add: finalize_body_def calls_inv_def fin_entry_def Let_def Dispatch_root
        call_now_invoked)
next
  case False
  then show ?thesis by (auto simp: finalize_body_def)
qed

lemma counters_calls [simp]:
  "calls_inv (count_destroyed e k) = calls_inv e" "calls_inv (count_created e k) = calls_inv e"
  "calls_inv (set_ref e r k) = calls_inv e" "calls_inv (free_ref e r) = calls_inv e"
  "calls_inv (e\<lparr>referenceManager := m\<rparr>) = calls_inv e"
  "calls_inv (e\<lparr>referenceManager := m, born := b\<rparr>) = calls_inv e"
  by (rule calls_inv_frame; simp add: count_destroyed_def count_created_def set_ref_def free_ref_def
      Let_def)+

lemma unlink_calls: "unlink_ref e r k = Some e' \<Longrightarrow> calls_inv e' = calls_inv e"
  by (auto simp: unlink_ref_def split: if_splits option.splits)

lemma destroy_calls: "destroy_ref e r = Some e' \<Longrightarrow> calls_inv e' = calls_inv e"
  by (auto simp: destroy_ref_def bind_eq_Some_conv dest!: unlink_calls split: if_splits)

lemma FinalizeCallback_calls: "FinalizeCallback e r st = Some e' \<Longrightarrow> calls_inv e' = calls_inv e"
  by (auto simp: FinalizeCallback_def bind_eq_Some_conv Let_def dest: destroy_calls split: if_splits)

lemma collect_calls: "collect e r = Some e' \<Longrightarrow> calls_inv e' = calls_inv e"
  by (auto simp: collect_def FreeGlobalCallBack_def NativeFinalizeCallBack_def
      bind_eq_Some_conv dest: FinalizeCallback_calls split: if_splits)

lemma new_calls:
  "new_ArkNativeReference e r v c ds cb d h a n = Some e' \<Longrightarrow> calls_inv e' = calls_inv e"
  unfolding new_ArkNativeReference_def ArkNativeReferenceConstructor_def Let_def
  by (auto simp: bind_eq_Some_conv split: if_splits option.splits)

lemma run_finalizer_calls [simp]:
  "invoked (run_finalizer e f) = invoked e @ [payload f]" "root (run_finalizer e f) = root e"
  by (cases f; simp add: SecondFinalizeCallback_def engine_Delete_def Let_def)+

lemma foldl_run_root [simp]: "root (foldl run_finalizer e fs) = root e"
  by (induction fs arbitrary: e) simp_all

lemma foldl_run_invoked [simp]:
  "invoked (foldl run_finalizer e fs) = invoked e @ map payload fs"
  by (induction fs arbitrary: e) simp_all

lemma flush_calls: "calls_inv e \<Longrightarrow> calls_inv (flush_pack e)"
  by (auto simp: flush_pack_def calls_inv_def Let_def waiting_def fin_defs ac_simps)

lemma step_calls:
  assumes "ref_step e op = Some e'" and "calls_inv e"
  shows "calls_inv e'"
proof (cases op)
  case (New r v c ds cb d h a n)
  with assms show ?thesis by (simp add: new_calls)
next
  case (IncRef r)
  with assms show ?thesis by (auto dest!: Ref_effect)
next
  case (DecRef r)
  with assms show ?thesis by (auto dest!: Unref_effect)
next
  case (Collect r)
  with assms show ?thesis by (auto dest: collect_calls)
next
  case (DeleteApi r)
  with assms show ?thesis by (auto elim!: delete_core_cases dest: destroy_calls)
next
  case (DeleteNow r)
  with assms show ?thesis by (auto dest: destroy_calls)
next
  case Flush
  with assms show ?thesis by (auto intro: flush_calls)
qed

lemma steps_calls: "ref_steps e ops e' \<Longrightarrow> calls_inv e \<Longrightarrow> calls_inv e'"
  by (induction rule: ref_steps.induct) (auto intro: step_calls)

lemma init_calls [inv_intros]: "calls_inv (init_engine main)"
  by (simp add: init_engine_def calls_inv_def waiting_def init_fin_def empty_pack_def)

section \<open>Properties\<close>

text \<open>The same runs as a function, to evaluate concrete ones.\<close>

fun run_ops :: "ark_engine \<Rightarrow> ref_op list \<Rightarrow> ark_engine option" where
  "run_ops e [] = Some e"
| "run_ops e (op # ops) =
     (if op_ok e op then Option.bind (ref_step e op) (\<lambda>e'. run_ops e' ops) else None)"

lemma run_ops_steps: "run_ops e ops = Some e' \<Longrightarrow> ref_steps e ops e'"
  by (induction e ops rule: run_ops.induct)
     (auto simp: bind_eq_Some_conv split: if_splits intro: steps_cons)

definition demo_ops :: "ref_op list" where
  "demo_ops = [New 10 1 1 False (Some 7) (Some 70) None False 8,
     New 11 2 0 True (Some 8) (Some 80) (Some 81) False 16, Collect 11,
     New 12 3 0 True None None None False 0, IncRef 12]"

definition demo_engine :: ark_engine where
  "demo_engine = the (run_ops (init_engine True) demo_ops)"

lemma demo_run: "ref_steps (init_engine True) demo_ops demo_engine"
proof (rule run_ops_steps)
  have "run_ops (init_engine True) demo_ops \<noteq> None" by code_simp
  then show "run_ops (init_engine True) demo_ops = Some demo_engine" by (auto simp: demo_engine_def)
qed

section \<open>Properties\<close>

text \<open>
  C2: memory safety.  After any run of reference operations on live references, every further
  operation on a live reference (and the creation of one at a fresh address) completes without
  touching a freed object, and the manager's list then holds exactly the live runtime-owned
  references.
\<close>

theorem reference_memory_safety:
  assumes "ref_steps (init_engine main) ops e" and "op_ok e op"
  shows "\<exists>e'. ref_step e op = Some e' \<and> (\<forall>m. referenceManager e' = Some m \<longrightarrow>
    (\<exists>xs. dll m xs \<and> set xs = {r. \<exists>k. heap e' r = Some k \<and> r_ownership k = RUNTIME}))"
proof -
  have "life_inv e" using steps_life [OF assms(1)] init_life by blast
  with step_life [OF assms(2)] obtain e' where "ref_step e op = Some e'" "mgr_inv e'"
    by (auto simp: life_inv_def)
  then show ?thesis by (auto simp: mgr_inv_def owned_def)
qed

theorem reference_memory_safety_witness:
  "\<exists>e'. ref_step demo_engine (DeleteNow 12) = Some e' \<and> (\<forall>m. referenceManager e' = Some m \<longrightarrow>
    (\<exists>xs. dll m xs \<and> set xs = {r. \<exists>k. heap e' r = Some k \<and> r_ownership k = RUNTIME}))"
proof (rule reference_memory_safety [OF demo_run])
  show "op_ok demo_engine (DeleteNow 12)" by code_simp
qed

text \<open>
  C22: a finalizer runs at most once.  Over any run of operations no reference is finalized twice,
  and the calls made so far together with the calls still queued are exactly one call, with the
  data and hint the reference had, for every finalized reference: none is lost and none repeated.
\<close>

theorem finalizer_at_most_once:
  assumes "ref_steps (init_engine main) ops e"
  shows "distinct (map fst (finalized e)) \<and>
    mset (invoked e) + mset (map payload (concat (map finalizers (posted (root e))) @
      concat (postedAsync (root e)) @ pendingAsyncFinalizers (root e) @
      finalizers (arkFinalizersPack (root e)))) = mset (map snd (finalized e))"
  using steps_life [OF assms init_life] steps_calls [OF assms init_calls]
  by (simp add: life_inv_def once_inv_def once_def calls_inv_def waiting_def)

theorem finalizer_at_most_once_witness:
  "map fst (finalized demo_engine) = [11] \<and>
   mset (invoked demo_engine) + mset (map payload (concat (map finalizers (posted (root demo_engine))) @
      concat (postedAsync (root demo_engine)) @ pendingAsyncFinalizers (root demo_engine) @
      finalizers (arkFinalizersPack (root demo_engine)))) = mset (map snd (finalized demo_engine))"
proof
  show "map fst (finalized demo_engine) = [11]" by code_simp
qed (use finalizer_at_most_once [OF demo_run] in blast)

text \<open>
  A reference with a positive count pins its value.  After any run, the collector leaves such a
  reference as it is: the collection step changes nothing, and \<open>Get\<close> still returns the same value.
\<close>

theorem counted_reference_pinned:
  assumes "ref_steps (init_engine main) ops e" and "heap e r = Some k" and "r_refCount k > 0"
  shows "collect e r = Some e \<and> Get e r = Some (r_value k)"
proof -
  have "weak_inv e" using steps_life [OF assms(1)] init_life by (auto simp: life_inv_def)
  with assms(2,3) have "\<not> r_weak k" by (auto simp: weak_inv_def)
  with assms(2) show ?thesis by (simp add: collect_def Get_def)
qed

theorem counted_reference_pinned_witness:
  "collect demo_engine 12 = Some demo_engine \<and> Get demo_engine 12 = Some (Some 3)"
proof -
  have "map_option (\<lambda>k. (0 < r_refCount k, r_value k)) (heap demo_engine 12) = Some (True, Some 3)"
    by code_simp
  then obtain k where "heap demo_engine 12 = Some k" "0 < r_refCount k" "r_value k = Some 3"
    by (auto simp: map_option_case split: option.splits)
  with counted_reference_pinned [OF demo_run] show ?thesis by fastforce
qed

text \<open>
  The destructor of a live, not yet finalized reference that still holds its value calls the
  finalizer, when there is one and the engine is not itself being destroyed, with the reference's data and hint.
\<close>

lemma destroy_invokes:
  assumes "heap e r = Some k" and "r_value k \<noteq> None" and "\<not> GetFinalRun k"
    and "\<not> isInDestructor e" and "destroy_ref e r = Some e'"
  shows "invoked e' = invoked e @ (case r_callback k of None \<Rightarrow> [] | Some cb \<Rightarrow> [(cb, r_data k, r_hint k)])"
proof -
  obtain e2 where e2: "unlink_ref (count_destroyed e k) r k = Some e2"
    and e': "e' = free_ref (fst (finalize_body e2 r
      ((SetHasDelete k)\<lparr>r_value := None, r_weak := False\<rparr>) DESTRUCTION)) r"
    using assms(1,2,5) by (auto simp: destroy_ref_def bind_eq_Some_conv)
  have "isInDestructor e2 = isInDestructor e" "invoked e2 = invoked e"
    using e2 by (auto simp: unlink_ref_def count_destroyed_def split: if_splits option.splits)
  with e' assms show ?thesis
    by (auto simp: free_ref_def finalize_body_def call_now_invoked Let_def split: option.split)
qed

text \<open>
  destroying a reference.  When the destructor of a live, not yet finalized reference that
  still holds its value and has a finalizer runs, and the engine is not itself being destroyed,
  the finalizer is called at that point with the reference's data and hint, exactly once, and the
  object is gone.
\<close>

theorem destroy_runs_finalizer:
  assumes "heap e r = Some k" and "r_value k \<noteq> None" and "\<not> GetFinalRun k"
    and "r_callback k = Some cb" and "\<not> isInDestructor e" and "destroy_ref e r = Some e'"
  shows "invoked e' = invoked e @ [(cb, r_data k, r_hint k)] \<and> heap e' r = None"
  using destroy_invokes [OF assms(1-3,5,6)] destroy_ref_effect [OF assms(6)] assms(4) by auto

theorem destroy_runs_finalizer_witness:
  "invoked (the (destroy_ref demo_engine 10)) = [(7, Some 70, None)] \<and>
   heap (the (destroy_ref demo_engine 10)) 10 = None"
proof -
  have f: "map_option (\<lambda>k. (r_value k \<noteq> None, GetFinalRun k, r_callback k, r_data k, r_hint k))
      (heap demo_engine 10) = Some (True, False, Some 7, Some 70, None)"
    "destroy_ref demo_engine 10 \<noteq> None" "\<not> isInDestructor demo_engine" "invoked demo_engine = []"
    by code_simp+
  then obtain k e' where k: "heap demo_engine 10 = Some k" "r_value k \<noteq> None" "\<not> GetFinalRun k"
    "r_callback k = Some 7" "r_data k = Some 70" "r_hint k = None"
    and e': "destroy_ref demo_engine 10 = Some e'"
    by (auto simp: map_option_case split: option.splits)
  show ?thesis
    using destroy_runs_finalizer [OF k(1-4) f(3) e'] f(4) k e' by simp
qed

text \<open>
  an asynchronous finalizer unbalances the counter that keeps a context alive.  On a context
  that is not the main one, a runtime-owned reference with an asynchronous finalizer that is
  destroyed explicitly leaves \<open>runtimeOwnedRefCounter\<close> at minus one, although no reference is left;
  a later \<open>DestroyContext\<close> then stops the engine without ever deleting it.
\<close>

theorem async_finalizer_counter_underflow:
  "map_option (\<lambda>e. (runtimeOwnedRefCounter e, heap e 5, deleted (fst (DestroyContext e False)),
       snd (DestroyContext e False)))
     (run_ops (init_engine False) [New 5 1 0 True (Some 9) None None True 0, DeleteNow 5])
   = Some (- 1, None, False, napi_ok) \<and>
   map_option (\<lambda>e. (runtimeOwnedRefCounter e, heap e 5, deleted (fst (DestroyContext e False)),
       snd (DestroyContext e False)))
     (run_ops (init_engine False) [New 5 1 0 True (Some 9) None None False 0, DeleteNow 5])
   = Some (0, None, True, napi_ok)"
  by code_simp

end
