(* ===== verification/Safe_Async_Work.thy ===== *)
theory Safe_Async_Work
  imports Napi_Prelude
begin

text \<open>
  Thread-safe functions (native\_engine/native\_safe\_async\_work.cpp and .h, with the entry points of
  native\_engine/native\_node\_api.cpp): a bounded queue between any number of sender threads and the
  engine's event loop, with blocking sends, a count of the threads that use it, and a shutdown
  that starts when the last thread releases it or one aborts it.

  The code is cut into the sections the mutex makes atomic: a section starts where the lock is
  taken (or taken again by \<open>condition_.wait\<close> or by \<open>lock.lock()\<close> after the user's callback) and
  ends where it is given up.  Threads interleave in any order between the sections.  The event
  loop (libuv) is outside the repository: \<open>async_pending\<close> is its flag that a wake-up was sent,
  \<open>closing_handle\<close> that \<open>uv_close\<close> was called and its callback is still due.  The answers of libuv
  and which waiting thread \<open>notify_one\<close> wakes are arguments.

  A turn of the loop is not nested in another one (a user callback that runs the event loop
  itself is not modelled), tracing is left out, and so is what a pending JS exception does.
\<close>

section \<open>State\<close>

datatype SafeAsyncCode =
    SAFE_ASYNC_UNKNOWN
  | SAFE_ASYNC_QUEUE_FULL
  | SAFE_ASYNC_INVALID_ARGS
  | SAFE_ASYNC_CLOSED
  | SAFE_ASYNC_FAILED
  | SAFE_ASYNC_OK

datatype SafeAsyncStatus =
    UNKNOW
  | SAFE_ASYNC_STATUS_INTE
  | SAFE_ASYNC_STATUS_CLOSING
  | SAFE_ASYNC_STATUS_CLOSED

text \<open>
  What happened to a datum: the user's callback was called with it (with the engine, or with a
  null engine when the queue is drained), the JS function was called, or nothing was called.
\<close>

datatype 'd delivery = UserCall 'd bool | JsCall 'd | Dropped 'd

text \<open>
  \<open>in_round\<close> is the local \<open>size\<close> of \<open>ProcessAsyncHandle\<close> while it is inside the user's callback.
  \<open>waiters\<close> are the blocked senders with their data, \<open>woken\<close> those that were notified and wait
  for the mutex.  \<open>accepted\<close>, \<open>delivered\<close> and \<open>aborted\<close> are ghosts: the data ever queued, what
  was done with them, and whether anyone released with abort.
\<close>

record 'd tsfn =
  engineId :: u64
  hasFunc :: bool
  callJsCallback :: bool
  finalizeCallback :: bool
  maxQueueSize :: nat
  threadCount :: nat
  queue :: "'d list"
  status :: SafeAsyncStatus
  async_pending :: bool
  closing_handle :: bool
  freed :: bool
  finalizeCalls :: nat
  activeTsfn :: int
  in_round :: "nat option"
  waiters :: "(nat \<times> 'd) list"
  woken :: "(nat \<times> 'd) list"
  accepted :: "'d list"
  delivered :: "'d delivery list"
  aborted :: bool

definition new_NativeSafeAsyncWork ::
    "u64 \<Rightarrow> bool \<Rightarrow> nat \<Rightarrow> nat \<Rightarrow> bool \<Rightarrow> bool \<Rightarrow> int \<Rightarrow> 'd tsfn" where
  "new_NativeSafeAsyncWork eid func maxSize threads fin callJs counter =
     \<lparr>engineId = eid, hasFunc = func, callJsCallback = callJs, finalizeCallback = fin,
      maxQueueSize = maxSize, threadCount = threads, queue = [], status = UNKNOW,
      async_pending = False, closing_handle = False, freed = False, finalizeCalls = 0,
      activeTsfn = counter, in_round = None, waiters = [], woken = [],
      accepted = [], delivered = [], aborted = False\<rparr>"

definition tsfn_Init :: "bool \<Rightarrow> bool \<Rightarrow> 'd tsfn \<Rightarrow> 'd tsfn \<times> bool" where
  "tsfn_Init has_loop uv_ok s =
     (if \<not> has_loop then (s, False)
      else if \<not> uv_ok then (s, False)
      else (s\<lparr>activeTsfn := activeTsfn s + 1, status := SAFE_ASYNC_STATUS_INTE\<rparr>, True))"

section \<open>Operations\<close>

definition closed_or_closing :: "'d tsfn \<Rightarrow> bool" where
  "closed_or_closing s \<longleftrightarrow>
     status s = SAFE_ASYNC_STATUS_CLOSED \<or> status s = SAFE_ASYNC_STATUS_CLOSING"

definition IsMaxQueueSize :: "'d tsfn \<Rightarrow> bool" where
  "IsMaxQueueSize s \<longleftrightarrow> length (queue s) > maxQueueSize s \<and> maxQueueSize s > 0 \<and>
     status s \<noteq> SAFE_ASYNC_STATUS_CLOSING \<and> status s \<noteq> SAFE_ASYNC_STATUS_CLOSED"

text \<open>The engine as a call finds it: alive, and its current identifier.\<close>

type_synonym engine_view = "bool \<times> u64"

definition ValidEngineCheck :: "engine_view \<Rightarrow> 'd tsfn \<Rightarrow> SafeAsyncCode" where
  "ValidEngineCheck v s =
     (if \<not> fst v then SAFE_ASYNC_FAILED
      else if engineId s \<noteq> snd v then SAFE_ASYNC_CLOSED
      else SAFE_ASYNC_OK)"

text \<open>\<open>Send\<close> after the wait: what it does once the queue has room.\<close>

definition Send_tail ::
    "'d \<Rightarrow> engine_view \<Rightarrow> bool \<Rightarrow> 'd tsfn \<Rightarrow> 'd tsfn \<times> SafeAsyncCode option" where
  "Send_tail d v uv_ok s =
     (if closed_or_closing s
      then if threadCount s = 0 then (s, Some SAFE_ASYNC_INVALID_ARGS)
           else (s\<lparr>threadCount := threadCount s - 1\<rparr>, Some SAFE_ASYNC_CLOSED)
      else if ValidEngineCheck v s \<noteq> SAFE_ASYNC_OK then (s, Some (ValidEngineCheck v s))
      else if uv_ok
      then (s\<lparr>queue := queue s @ [d], accepted := accepted s @ [d], async_pending := True\<rparr>,
            Some SAFE_ASYNC_OK)
      else (s\<lparr>queue := queue s @ [d], accepted := accepted s @ [d]\<rparr>, Some SAFE_ASYNC_FAILED))"

text \<open>The result is \<open>None\<close> while the sender is blocked.\<close>

definition Send ::
    "nat \<Rightarrow> 'd \<Rightarrow> bool \<Rightarrow> engine_view \<Rightarrow> bool \<Rightarrow> 'd tsfn \<Rightarrow> 'd tsfn \<times> SafeAsyncCode option" where
  "Send t d blocking v uv_ok s =
     (if IsMaxQueueSize s
      then if blocking then (s\<lparr>waiters := waiters s @ [(t, d)]\<rparr>, None)
           else (s, Some SAFE_ASYNC_QUEUE_FULL)
      else Send_tail d v uv_ok s)"

text \<open>A notified sender takes the mutex again and tests the loop condition.\<close>

definition Send_resume ::
    "nat \<times> 'd \<Rightarrow> engine_view \<Rightarrow> bool \<Rightarrow> 'd tsfn \<Rightarrow> 'd tsfn \<times> SafeAsyncCode option" where
  "Send_resume w v uv_ok s =
     (if IsMaxQueueSize s
      then (s\<lparr>woken := remove1 w (woken s), waiters := waiters s @ [w]\<rparr>, None)
      else Send_tail (snd w) v uv_ok (s\<lparr>woken := remove1 w (woken s)\<rparr>))"

text \<open>\<open>condition_.notify_one()\<close>: some waiting thread is woken, if there is one.\<close>

definition notify_one :: "nat \<Rightarrow> 'd tsfn \<Rightarrow> 'd tsfn" where
  "notify_one i s =
     (if waiters s = [] then s
      else let w = waiters s ! (i mod length (waiters s))
           in s\<lparr>waiters := remove1 w (waiters s), woken := woken s @ [w]\<rparr>)"

definition Acquire :: "'d tsfn \<Rightarrow> 'd tsfn \<times> SafeAsyncCode" where
  "Acquire s = (if closed_or_closing s then (s, SAFE_ASYNC_CLOSED)
     else (s\<lparr>threadCount := threadCount s + 1\<rparr>, SAFE_ASYNC_OK))"

text \<open>The last part of \<open>Release\<close>: wake the loop when the function is to be closed.\<close>

definition Release_wake :: "engine_view \<Rightarrow> bool \<Rightarrow> 'd tsfn \<Rightarrow> 'd tsfn \<times> SafeAsyncCode" where
  "Release_wake v uv_ok s =
     (if ValidEngineCheck v s \<noteq> SAFE_ASYNC_OK then (s, ValidEngineCheck v s)
      else if uv_ok then (s\<lparr>async_pending := True\<rparr>, SAFE_ASYNC_OK)
      else (s, SAFE_ASYNC_FAILED))"

definition Release ::
    "bool \<Rightarrow> engine_view \<Rightarrow> bool \<Rightarrow> nat \<Rightarrow> 'd tsfn \<Rightarrow> 'd tsfn \<times> SafeAsyncCode" where
  "Release abort v uv_ok i s =
     (if closed_or_closing s then (s, SAFE_ASYNC_CLOSED)
      else if threadCount s = 0 then (s, SAFE_ASYNC_INVALID_ARGS)
      else let s1 = s\<lparr>threadCount := threadCount s - 1\<rparr>;
               s2 = (if abort
                     then let s' = s1\<lparr>status := SAFE_ASYNC_STATUS_CLOSING, aborted := True\<rparr>
                          in if maxQueueSize s' > 0 then notify_one i s' else s'
                     else s1)
           in if threadCount s2 = 0 \<or> abort then Release_wake v uv_ok s2 else (s2, SAFE_ASYNC_OK))"

text \<open>\<open>uv_ref\<close> and \<open>uv_unref\<close> are libuv's; both functions answer whether the caller's thread is the engine's.\<close>

definition IsSameTid :: "nat \<Rightarrow> nat \<Rightarrow> bool" where
  "IsSameTid self engineTid \<longleftrightarrow> self = engineTid"

definition tsfn_Ref :: "nat \<Rightarrow> nat \<Rightarrow> bool \<Rightarrow> bool \<times> bool" where
  "tsfn_Ref self engineTid referenced =
     (if \<not> IsSameTid self engineTid then (referenced, False) else (True, True))"

definition tsfn_Unref :: "nat \<Rightarrow> nat \<Rightarrow> bool \<Rightarrow> bool \<times> bool" where
  "tsfn_Unref self engineTid referenced =
     (if \<not> IsSameTid self engineTid then (referenced, False) else (False, True))"

definition CloseHandles :: "'d tsfn \<Rightarrow> 'd tsfn \<times> SafeAsyncCode" where
  "CloseHandles s =
     (if status s = SAFE_ASYNC_STATUS_CLOSED then (s, SAFE_ASYNC_CLOSED)
      else (s\<lparr>status := SAFE_ASYNC_STATUS_CLOSED, closing_handle := True\<rparr>, SAFE_ASYNC_OK))"

section \<open>The loop's side\<close>

text \<open>
  \<open>CallJs\<close>, the default callback, calls the function when there is an engine and a function;
  the creation of the value \<open>undefined\<close> does not fail.
\<close>

definition CallJs :: "bool \<Rightarrow> bool \<Rightarrow> 'd \<Rightarrow> 'd delivery" where
  "CallJs engine func d = (if \<not> engine \<or> \<not> func then Dropped d else JsCall d)"

definition deliver :: "bool \<Rightarrow> 'd \<Rightarrow> 'd tsfn \<Rightarrow> 'd tsfn" where
  "deliver engine d s = s\<lparr>delivered := delivered s @
     [if callJsCallback s then UserCall d engine else CallJs engine (engine \<and> hasFunc s) d]\<rparr>"

text \<open>
  The head of the loop of \<open>ProcessAsyncHandle\<close>, up to the callback: the front datum is read, one
  sender notified when the local size equals the bound, and the mutex given up.  \<open>None\<close> is
  \<open>front()\<close> of an empty queue.
\<close>

definition round_head :: "nat \<Rightarrow> nat \<Rightarrow> 'd tsfn \<Rightarrow> 'd tsfn option" where
  "round_head sz i s =
     (case queue s of
        [] \<Rightarrow> None
      | d # _ \<Rightarrow>
          let s1 = (if sz = maxQueueSize s \<and> maxQueueSize s > 0 then notify_one i s else s)
          in Some (deliver True d (s1\<lparr>in_round := Some sz\<rparr>)))"

text \<open>After the loop: another wake-up when data came in, or the shutdown.\<close>

definition round_tail :: "bool \<Rightarrow> 'd tsfn \<Rightarrow> 'd tsfn" where
  "round_tail uv_ok s =
     (let s1 = s\<lparr>in_round := None\<rparr>;
          s2 = (if queue s1 \<noteq> [] \<and> uv_ok then s1\<lparr>async_pending := True\<rparr> else s1)
      in if queue s2 = [] \<and> threadCount s2 = 0 then fst (CloseHandles s2) else s2)"

definition ProcessAsyncHandle :: "bool \<Rightarrow> nat \<Rightarrow> 'd tsfn \<Rightarrow> 'd tsfn option" where
  "ProcessAsyncHandle uv_ok i s =
     (if status s = SAFE_ASYNC_STATUS_CLOSED then Some s
      else if status s = SAFE_ASYNC_STATUS_CLOSING then Some (fst (CloseHandles s))
      else let sz = length (queue s)
           in if sz > 0 then round_head sz i s else Some (round_tail uv_ok s))"

text \<open>The callback returned: the mutex is taken again, the front popped, the next iteration begun.\<close>

definition callback_returned :: "bool \<Rightarrow> nat \<Rightarrow> 'd tsfn \<Rightarrow> 'd tsfn option" where
  "callback_returned uv_ok i s =
     (case in_round s of
        None \<Rightarrow> None
      | Some sz \<Rightarrow>
          if queue s = [] then None
          else let s1 = s\<lparr>queue := tl (queue s)\<rparr>; sz1 = sz - 1
               in if sz1 > 0 then round_head sz1 i s1 else Some (round_tail uv_ok s1))"

text \<open>The callback of \<open>uv_close\<close>: the finalizer, the queue drained to a null engine, the object freed.\<close>

definition CleanUp :: "'d tsfn \<Rightarrow> 'd tsfn" where
  "CleanUp s =
     (let s1 = (if finalizeCallback s then s\<lparr>finalizeCalls := finalizeCalls s + 1\<rparr> else s);
          s2 = fold (\<lambda>d t. (deliver False d t)\<lparr>queue := tl (queue t)\<rparr>) (queue s1) s1
      in s2\<lparr>freed := True, closing_handle := False, activeTsfn := activeTsfn s2 - 1\<rparr>)"

section \<open>Runs\<close>

datatype 'd tsfn_event =
    EvSend nat 'd bool engine_view bool
  | EvResume "nat \<times> 'd" engine_view bool
  | EvSpurious "nat \<times> 'd"
  | EvAcquire
  | EvRelease bool engine_view bool nat
  | EvAsync bool nat
  | EvReturn bool nat
  | EvClose

text \<open>
  Which events can happen: threads call and resume while the object exists; the loop runs the
  wake-up or the close callback when it is due and no callback is running.
\<close>

fun tsfn_enabled :: "'d tsfn \<Rightarrow> 'd tsfn_event \<Rightarrow> bool" where
  "tsfn_enabled s (EvResume w v ok) \<longleftrightarrow> \<not> freed s \<and> w \<in> set (woken s)"
| "tsfn_enabled s (EvSpurious w) \<longleftrightarrow> \<not> freed s \<and> w \<in> set (waiters s)"
| "tsfn_enabled s (EvAsync ok i) \<longleftrightarrow>
     \<not> freed s \<and> async_pending s \<and> \<not> closing_handle s \<and> in_round s = None"
| "tsfn_enabled s (EvReturn ok i) \<longleftrightarrow> \<not> freed s \<and> in_round s \<noteq> None"
| "tsfn_enabled s EvClose \<longleftrightarrow> \<not> freed s \<and> closing_handle s \<and> in_round s = None"
| "tsfn_enabled s _ \<longleftrightarrow> \<not> freed s"

text \<open>\<open>None\<close> is undefined behaviour: a read or a pop of an empty queue.\<close>

fun tsfn_exec :: "'d tsfn \<Rightarrow> 'd tsfn_event \<Rightarrow> 'd tsfn option" where
  "tsfn_exec s (EvSend t d b v ok) = Some (fst (Send t d b v ok s))"
| "tsfn_exec s (EvResume w v ok) = Some (fst (Send_resume w v ok s))"
| "tsfn_exec s (EvSpurious w) =
     Some (s\<lparr>waiters := remove1 w (waiters s), woken := woken s @ [w]\<rparr>)"
| "tsfn_exec s EvAcquire = Some (fst (Acquire s))"
| "tsfn_exec s (EvRelease a v ok i) = Some (fst (Release a v ok i s))"
| "tsfn_exec s (EvAsync ok i) = ProcessAsyncHandle ok i (s\<lparr>async_pending := False\<rparr>)"
| "tsfn_exec s (EvReturn ok i) = callback_returned ok i s"
| "tsfn_exec s EvClose = Some (CleanUp s)"

inductive tsfn_reach :: "'d tsfn \<Rightarrow> 'd tsfn \<Rightarrow> bool" for s0 where
  reach_init: "tsfn_reach s0 s0"
| reach_step: "tsfn_reach s0 s \<Longrightarrow> tsfn_enabled s ev \<Longrightarrow> tsfn_exec s ev = Some s' \<Longrightarrow>
     tsfn_reach s0 s'"

text \<open>A thread-safe function that was created with the engine's identifier and initialised.\<close>

definition tsfn_created :: "'d tsfn \<Rightarrow> bool" where
  "tsfn_created s \<longleftrightarrow> threadCount s > 0 \<and> (hasFunc s \<or> callJsCallback s) \<and>
     s = fst (tsfn_Init True True (new_NativeSafeAsyncWork (engineId s) (hasFunc s) (maxQueueSize s)
       (threadCount s) (finalizeCallback s) (callJsCallback s) (activeTsfn s - 1)))"

fun tsfn_run :: "'d tsfn \<Rightarrow> 'd tsfn_event list \<Rightarrow> 'd tsfn option" where
  "tsfn_run s [] = Some s"
| "tsfn_run s (ev # evs) =
     (if tsfn_enabled s ev then Option.bind (tsfn_exec s ev) (\<lambda>s'. tsfn_run s' evs) else None)"

lemma tsfn_run_reach: "tsfn_reach s0 s \<Longrightarrow> tsfn_run s evs = Some s' \<Longrightarrow> tsfn_reach s0 s'"
  by (induction s evs rule: tsfn_run.induct)
     (auto simp: bind_eq_Some_conv split: if_splits intro: reach_step)

section \<open>What the operations leave alone\<close>

lemma notify_one_frame [simp]:
  "queue (notify_one i s) = queue s" "status (notify_one i s) = status s"
  "threadCount (notify_one i s) = threadCount s" "maxQueueSize (notify_one i s) = maxQueueSize s"
  "in_round (notify_one i s) = in_round s" "freed (notify_one i s) = freed s"
  "closing_handle (notify_one i s) = closing_handle s" "accepted (notify_one i s) = accepted s"
  "delivered (notify_one i s) = delivered s" "aborted (notify_one i s) = aborted s"
  "finalizeCalls (notify_one i s) = finalizeCalls s" "hasFunc (notify_one i s) = hasFunc s"
  "finalizeCallback (notify_one i s) = finalizeCallback s" "engineId (notify_one i s) = engineId s"
  "callJsCallback (notify_one i s) = callJsCallback s" "async_pending (notify_one i s) = async_pending s"
  "activeTsfn (notify_one i s) = activeTsfn s"
  by (simp_all add: notify_one_def Let_def)

fun datum :: "'d delivery \<Rightarrow> 'd" where
  "datum (UserCall d b) = d"
| "datum (JsCall d) = d"
| "datum (Dropped d) = d"

text \<open>A datum whose call had no engine, or no call.\<close>

fun lost :: "'d delivery \<Rightarrow> bool" where
  "lost (UserCall d b) \<longleftrightarrow> \<not> b"
| "lost (JsCall d) \<longleftrightarrow> False"
| "lost (Dropped d) \<longleftrightarrow> True"

lemma deliver_frame [simp]:
  "queue (deliver b d s) = queue s" "status (deliver b d s) = status s"
  "threadCount (deliver b d s) = threadCount s" "maxQueueSize (deliver b d s) = maxQueueSize s"
  "in_round (deliver b d s) = in_round s" "freed (deliver b d s) = freed s"
  "closing_handle (deliver b d s) = closing_handle s" "accepted (deliver b d s) = accepted s"
  "aborted (deliver b d s) = aborted s" "finalizeCalls (deliver b d s) = finalizeCalls s"
  "finalizeCallback (deliver b d s) = finalizeCallback s" "hasFunc (deliver b d s) = hasFunc s"
  "callJsCallback (deliver b d s) = callJsCallback s" "engineId (deliver b d s) = engineId s"
  "async_pending (deliver b d s) = async_pending s" "activeTsfn (deliver b d s) = activeTsfn s"
  "waiters (deliver b d s) = waiters s" "woken (deliver b d s) = woken s"
  "map datum (delivered (deliver b d s)) = map datum (delivered s) @ [d]"
  by (simp_all add: deliver_def CallJs_def)

lemma deliver_not_lost:
  "hasFunc s \<or> callJsCallback s \<Longrightarrow>
   (\<forall>x\<in>set (delivered (deliver True d s)). \<not> lost x) \<longleftrightarrow> (\<forall>x\<in>set (delivered s). \<not> lost x)"
  by (auto simp: deliver_def CallJs_def)

section \<open>Invariant\<close>

definition tsfn_inv :: "'d tsfn \<Rightarrow> bool" where
  "tsfn_inv s \<longleftrightarrow>
     status s \<noteq> UNKNOW \<and> (hasFunc s \<or> callJsCallback s) \<and>
     (maxQueueSize s > 0 \<longrightarrow> length (queue s) \<le> maxQueueSize s + 1) \<and>
     (\<forall>n. in_round s = Some n \<longrightarrow> 0 < n \<and> n \<le> length (queue s)) \<and>
     accepted s = map datum (delivered s) @ (if in_round s = None then queue s else tl (queue s)) \<and>
     (closing_handle s \<longleftrightarrow> status s = SAFE_ASYNC_STATUS_CLOSED \<and> \<not> freed s) \<and>
     (status s = SAFE_ASYNC_STATUS_CLOSED \<longrightarrow> in_round s = None) \<and>
     (freed s \<longrightarrow> status s = SAFE_ASYNC_STATUS_CLOSED \<and> queue s = []) \<and>
     (status s = SAFE_ASYNC_STATUS_CLOSED \<and> \<not> aborted s \<longrightarrow> threadCount s = 0 \<and> queue s = []) \<and>
     (status s = SAFE_ASYNC_STATUS_CLOSING \<longrightarrow> aborted s) \<and>
     finalizeCalls s = (if freed s \<and> finalizeCallback s then 1 else 0) \<and>
     (\<not> aborted s \<longrightarrow> (\<forall>x\<in>set (delivered s). \<not> lost x))"

lemma created_inv: "tsfn_created s \<Longrightarrow> tsfn_inv s"
  unfolding tsfn_created_def
  by (elim conjE, erule ssubst [of s]) (simp add: tsfn_inv_def tsfn_Init_def new_NativeSafeAsyncWork_def)

lemma waiters_inv [simp]:
  "tsfn_inv (s\<lparr>waiters := ws\<rparr>) = tsfn_inv s" "tsfn_inv (s\<lparr>woken := ws\<rparr>) = tsfn_inv s"
  "tsfn_inv (s\<lparr>async_pending := b\<rparr>) = tsfn_inv s"
  "tsfn_inv (s\<lparr>waiters := ws, woken := vs\<rparr>) = tsfn_inv s"
  "tsfn_inv (s\<lparr>woken := vs, waiters := ws\<rparr>) = tsfn_inv s"
  by (simp_all add: tsfn_inv_def)

lemma push_inv:
  assumes "tsfn_inv s" and "\<not> freed s" and "status s \<noteq> SAFE_ASYNC_STATUS_CLOSED"
    and "maxQueueSize s > 0 \<Longrightarrow> length (queue s) \<le> maxQueueSize s"
  shows "tsfn_inv (s\<lparr>queue := queue s @ [d], accepted := accepted s @ [d]\<rparr>)"
proof (cases "in_round s")
  case None
  with assms show ?thesis by (simp add: tsfn_inv_def)
next
  case (Some n)
  with assms(1) have "queue s \<noteq> []" by (auto simp: tsfn_inv_def)
  with assms Some show ?thesis by (simp add: tsfn_inv_def)
qed

lemma threadCount_inv:
  "tsfn_inv s \<Longrightarrow> status s = SAFE_ASYNC_STATUS_CLOSED \<Longrightarrow> n \<le> threadCount s \<Longrightarrow>
   tsfn_inv (s\<lparr>threadCount := n\<rparr>)"
  "tsfn_inv s \<Longrightarrow> status s \<noteq> SAFE_ASYNC_STATUS_CLOSED \<Longrightarrow> tsfn_inv (s\<lparr>threadCount := n\<rparr>)"
  by (auto simp: tsfn_inv_def)

lemma Send_tail_inv:
  assumes "tsfn_inv s" and "\<not> freed s" and "\<not> IsMaxQueueSize s"
  shows "tsfn_inv (fst (Send_tail d v ok s))"
proof (cases "closed_or_closing s")
  case True
  have "tsfn_inv (s\<lparr>threadCount := threadCount s - 1\<rparr>)"
    using assms(1) by (cases "status s = SAFE_ASYNC_STATUS_CLOSED") (simp_all add: threadCount_inv)
  with True assms(1) show ?thesis by (simp add: Send_tail_def)
next
  case False
  with assms(3) have l: "status s \<noteq> SAFE_ASYNC_STATUS_CLOSED"
    "maxQueueSize s > 0 \<Longrightarrow> length (queue s) \<le> maxQueueSize s"
    by (auto simp: closed_or_closing_def IsMaxQueueSize_def)
  have p: "tsfn_inv (s\<lparr>queue := queue s @ [d], accepted := accepted s @ [d]\<rparr>)"
    by (rule push_inv [OF assms(1,2) l(1) l(2)])
  then have "tsfn_inv (s\<lparr>queue := queue s @ [d], accepted := accepted s @ [d], async_pending := True\<rparr>)"
    using waiters_inv(3) [where s = "s\<lparr>queue := queue s @ [d], accepted := accepted s @ [d]\<rparr>" and b = True] by simp
  with p False assms(1) show ?thesis by (simp add: Send_tail_def)
qed

lemma Send_inv: "tsfn_inv s \<Longrightarrow> \<not> freed s \<Longrightarrow> tsfn_inv (fst (Send t d b v ok s))"
  by (simp add: Send_def Send_tail_inv)

lemma Send_resume_inv: "tsfn_inv s \<Longrightarrow> \<not> freed s \<Longrightarrow> tsfn_inv (fst (Send_resume w v ok s))"
  by (simp add: Send_resume_def Send_tail_inv IsMaxQueueSize_def)

lemma Acquire_inv: "tsfn_inv s \<Longrightarrow> tsfn_inv (fst (Acquire s))"
  by (auto simp: tsfn_inv_def Acquire_def closed_or_closing_def)

lemma Release_wake_inv: "tsfn_inv (fst (Release_wake v ok s)) = tsfn_inv s"
  by (simp add: Release_wake_def)

lemma notify_one_inv [simp]: "tsfn_inv (notify_one i s) = tsfn_inv s"
  by (simp add: tsfn_inv_def)

lemma abort_inv:
  "tsfn_inv s \<Longrightarrow> status s \<noteq> SAFE_ASYNC_STATUS_CLOSED \<Longrightarrow>
   tsfn_inv (s\<lparr>threadCount := n, status := SAFE_ASYNC_STATUS_CLOSING, aborted := True\<rparr>)"
  by (simp add: tsfn_inv_def)

lemma Release_inv:
  assumes "tsfn_inv s"
  shows "tsfn_inv (fst (Release a v ok i s))"
proof (cases "closed_or_closing s \<or> threadCount s = 0")
  case True
  with assms show ?thesis by (auto simp: Release_def)
next
  case False
  then have "status s \<noteq> SAFE_ASYNC_STATUS_CLOSED" by (simp add: closed_or_closing_def)
  with assms False show ?thesis
    by (simp add: Release_def Let_def Release_wake_inv threadCount_inv abort_inv)
qed

lemma CloseHandles_inv:
  "tsfn_inv s \<Longrightarrow> \<not> freed s \<Longrightarrow> in_round s = None \<Longrightarrow>
   status s = SAFE_ASYNC_STATUS_CLOSING \<or> threadCount s = 0 \<and> queue s = [] \<Longrightarrow>
   tsfn_inv (fst (CloseHandles s))"
  by (auto simp: CloseHandles_def tsfn_inv_def)

lemma round_tail_inv:
  "tsfn_inv (s\<lparr>in_round := None\<rparr>) \<Longrightarrow> \<not> freed s \<Longrightarrow> tsfn_inv (round_tail ok s)"
  by (auto simp: round_tail_def Let_def intro: CloseHandles_inv)

text \<open>The loop head needs the invariant with the front not yet counted as delivered.\<close>

lemma round_head_inv:
  assumes "tsfn_inv (s\<lparr>in_round := None\<rparr>)" and "0 < n" and "n \<le> length (queue s)"
    and "\<not> freed s" and "status s \<noteq> SAFE_ASYNC_STATUS_CLOSED"
  shows "\<exists>s'. round_head n i s = Some s' \<and> tsfn_inv s'"
proof -
  obtain d q where q: "queue s = d # q" using assms(2,3) by (cases "queue s") auto
  let ?s1 = "if n = maxQueueSize s \<and> maxQueueSize s > 0 then notify_one i s else s"
  let ?s2 = "deliver True d (?s1\<lparr>in_round := Some n\<rparr>)"
  have "round_head n i s = Some ?s2" by (simp add: round_head_def q Let_def)
  moreover have "tsfn_inv ?s2"
    using assms q deliver_not_lost [of "?s1\<lparr>in_round := Some n\<rparr>" d] by (auto simp: tsfn_inv_def)
  ultimately show ?thesis by blast
qed

lemma process_inv:
  assumes "tsfn_inv s" and "\<not> freed s" and "in_round s = None"
  shows "\<exists>s'. ProcessAsyncHandle ok i s = Some s' \<and> tsfn_inv s'"
proof -
  have r: "s\<lparr>in_round := None\<rparr> = s" using assms(3) by simp
  consider "status s = SAFE_ASYNC_STATUS_CLOSED" | "status s = SAFE_ASYNC_STATUS_CLOSING"
    | "status s \<noteq> SAFE_ASYNC_STATUS_CLOSED" "status s \<noteq> SAFE_ASYNC_STATUS_CLOSING" by blast
  then show ?thesis
  proof cases
    case 1
    with assms show ?thesis by (simp add: ProcessAsyncHandle_def)
  next
    case 2
    with assms show ?thesis by (simp add: ProcessAsyncHandle_def CloseHandles_inv)
  next
    case 3
    with assms round_head_inv [of s "length (queue s)" i] round_tail_inv [of s ok] r show ?thesis
      by (simp add: ProcessAsyncHandle_def Let_def)
  qed
qed

lemma return_inv:
  assumes "tsfn_inv s" and "\<not> freed s" and "in_round s \<noteq> None"
  shows "\<exists>s'. callback_returned ok i s = Some s' \<and> tsfn_inv s'"
proof -
  obtain n where n: "in_round s = Some n" using assms(3) by auto
  with assms(1) have n2: "0 < n" "n \<le> length (queue s)" and st: "status s \<noteq> SAFE_ASYNC_STATUS_CLOSED"
    by (auto simp: tsfn_inv_def)
  let ?s1 = "s\<lparr>queue := tl (queue s)\<rparr>"
  have inv1: "tsfn_inv (?s1\<lparr>in_round := None\<rparr>)" using assms(1,2) n st by (auto simp: tsfn_inv_def)
  have q: "queue s \<noteq> []" using n2 by auto
  show ?thesis
  proof (cases "n - 1 > 0")
    case True
    have "n - 1 \<le> length (queue ?s1)" using n2 by simp
    with True round_head_inv [OF inv1 True] assms(2) st n q show ?thesis
      by (simp add: callback_returned_def Let_def)
  next
    case False
    with round_tail_inv [OF inv1] assms(2) n q show ?thesis by (simp add: callback_returned_def)
  qed
qed

lemma drain_eq:
  "fold (\<lambda>d t. (deliver False d t)\<lparr>queue := tl (queue t)\<rparr>) ds s =
   s\<lparr>queue := drop (length ds) (queue s), delivered := delivered s @
     map (\<lambda>d. if callJsCallback s then UserCall d False else Dropped d) ds\<rparr>"
  by (induction ds arbitrary: s) (auto simp: deliver_def CallJs_def drop_Suc)

lemma CleanUp_eq:
  "CleanUp s = s\<lparr>finalizeCalls := (if finalizeCallback s then finalizeCalls s + 1 else finalizeCalls s),
     queue := [], delivered := delivered s @
       map (\<lambda>d. if callJsCallback s then UserCall d False else Dropped d) (queue s),
     freed := True, closing_handle := False, activeTsfn := activeTsfn s - 1\<rparr>"
  by (simp add: CleanUp_def drain_eq Let_def)

lemma datum_drain:
  "map (datum \<circ> (\<lambda>d. if c then UserCall d False else Dropped d)) q = q"
  by (induction q) auto

lemma CleanUp_inv:
  "tsfn_inv s \<Longrightarrow> \<not> freed s \<Longrightarrow> closing_handle s \<Longrightarrow> tsfn_inv (CleanUp s)"
  by (auto simp: tsfn_inv_def CleanUp_eq datum_drain)

lemma exec_inv:
  assumes "tsfn_inv s" and "tsfn_enabled s ev"
  shows "\<exists>s'. tsfn_exec s ev = Some s' \<and> tsfn_inv s'"
  using assms
  by (cases ev) (auto simp: Send_inv Send_resume_inv Acquire_inv Release_inv CleanUp_inv
      process_inv return_inv)

lemma reach_inv [inv_intros]: "tsfn_reach s0 s \<Longrightarrow> tsfn_inv s0 \<Longrightarrow> tsfn_inv s"
proof (induction rule: tsfn_reach.induct)
  case reach_init
  then show ?case .
next
  case (reach_step s ev s')
  then show ?case using exec_inv [of s ev] by auto
qed

section \<open>A turn of the loop without interference\<close>

definition made_call :: "'d tsfn \<Rightarrow> 'd \<Rightarrow> 'd delivery" where
  "made_call s d = (if callJsCallback s then UserCall d True else CallJs True (hasFunc s) d)"

lemma deliver_delivered: "delivered (deliver True d s) = delivered s @ [made_call s d]"
  by (simp add: deliver_def made_call_def)

lemma made_call_cong [simp]:
  "made_call (deliver b d s) = made_call s" "made_call (notify_one i s) = made_call s"
  "made_call (s\<lparr>queue := q\<rparr>) = made_call s" "made_call (s\<lparr>in_round := r\<rparr>) = made_call s"
  "made_call (s\<lparr>async_pending := b\<rparr>) = made_call s"
  by (rule ext, simp add: made_call_def)+

text \<open>What is left of a turn when the callback of \<open>hd (queue s)\<close> is running.\<close>

definition turn_done :: "'d tsfn \<Rightarrow> 'd list \<Rightarrow> 'd tsfn \<Rightarrow> bool" where
  "turn_done s ds s' \<longleftrightarrow> queue s' = [] \<and> in_round s' = None \<and> \<not> freed s' \<and>
     delivered s' = delivered s @ map (made_call s) ds \<and>
     threadCount s' = threadCount s \<and> accepted s' = accepted s \<and>
     status s' = (if threadCount s = 0 then SAFE_ASYNC_STATUS_CLOSED else status s) \<and>
     closing_handle s' = (threadCount s = 0 \<or> closing_handle s)"

lemma round_tail_done:
  "queue s = [] \<Longrightarrow> \<not> freed s \<Longrightarrow> status s \<noteq> SAFE_ASYNC_STATUS_CLOSED \<Longrightarrow>
   turn_done s [] (round_tail ok s)"
  by (simp add: turn_done_def round_tail_def CloseHandles_def)

lemma round_head_step:
  assumes "queue s = d # q"
  shows "\<exists>s1. round_head n i s = Some s1 \<and> queue s1 = d # q \<and> in_round s1 = Some n \<and>
    delivered s1 = delivered s @ [made_call s d] \<and> freed s1 = freed s \<and> status s1 = status s \<and>
    threadCount s1 = threadCount s \<and> accepted s1 = accepted s \<and>
    closing_handle s1 = closing_handle s \<and> made_call s1 = made_call s"
  using assms by (simp add: round_head_def Let_def deliver_delivered)

lemma returns_done:
  assumes "in_round s = Some (length (queue s))" and "queue s \<noteq> []" and "\<not> freed s"
    and "status s = SAFE_ASYNC_STATUS_INTE"
  shows "\<exists>s'. tsfn_run s (replicate (length (queue s)) (EvReturn ok i)) = Some s' \<and>
    turn_done s (tl (queue s)) s'"
  using assms
proof (induction "queue s" arbitrary: s)
  case Nil
  then show ?case by simp
next
  case (Cons d q)
  have q: "queue s = d # q" using Cons.hyps(2) by simp
  let ?s1 = "s\<lparr>queue := q\<rparr>"
  show ?case
  proof (cases q)
    case Nil
    have "callback_returned ok i s = Some (round_tail ok ?s1)"
      using Cons.prems q Nil by (simp add: callback_returned_def)
    moreover have "turn_done ?s1 [] (round_tail ok ?s1)"
      by (rule round_tail_done) (use Cons.prems Nil in simp_all)
    ultimately show ?thesis using Cons.prems q Nil by (simp add: turn_done_def)
  next
    case (Cons d2 q2)
    then have q1: "queue ?s1 = d2 # q2" by simp
    obtain t where t: "round_head (length q) i ?s1 = Some t" and tq: "queue t = q"
      and td: "delivered t = delivered s @ [made_call s d2]"
      and tf: "in_round t = Some (length q)" "\<not> freed t" "status t = SAFE_ASYNC_STATUS_INTE"
        "threadCount t = threadCount s" "accepted t = accepted s"
        "closing_handle t = closing_handle s" "made_call t = made_call s"
      using round_head_step [OF q1, of "length q" i] Cons.prems Cons by auto
    have "callback_returned ok i s = Some t"
      using Cons.prems q t Cons by (simp add: callback_returned_def Let_def)
    moreover obtain s' where "tsfn_run t (replicate (length q) (EvReturn ok i)) = Some s'"
      "turn_done t (tl q) s'"
      using Cons.hyps(1) [of t] tq tf Cons by auto
    ultimately have "tsfn_run s (replicate (length (queue s)) (EvReturn ok i)) = Some s'"
      "turn_done s (tl (queue s)) s'"
      using Cons.prems q td tf Cons by (simp_all add: turn_done_def)
    then show ?thesis by blast
  qed
qed

lemma turn_alone:
  assumes "in_round s = None" and "\<not> freed s" and "async_pending s" and "\<not> closing_handle s"
    and "status s = SAFE_ASYNC_STATUS_INTE"
  shows "\<exists>s'. tsfn_run s (EvAsync ok i # replicate (length (queue s)) (EvReturn ok i)) = Some s' \<and>
    turn_done s (queue s) s'"
proof -
  let ?s = "s\<lparr>async_pending := False\<rparr>"
  show ?thesis
  proof (cases "queue s")
    case Nil
    have "ProcessAsyncHandle ok i ?s = Some (round_tail ok ?s)"
      using assms Nil by (simp add: ProcessAsyncHandle_def)
    moreover have "turn_done ?s [] (round_tail ok ?s)"
      by (rule round_tail_done) (use assms Nil in simp_all)
    ultimately show ?thesis using assms Nil by (simp add: turn_done_def)
  next
    case (Cons d q)
    then have q1: "queue ?s = d # q" by simp
    obtain t where t: "round_head (length (queue s)) i ?s = Some t" "queue t = queue s"
      "delivered t = delivered s @ [made_call s d]"
      "in_round t = Some (length (queue s))" "\<not> freed t" "status t = SAFE_ASYNC_STATUS_INTE"
      "threadCount t = threadCount s" "accepted t = accepted s" "closing_handle t = closing_handle s"
      "made_call t = made_call s"
      using round_head_step [OF q1, of "length (queue s)" i] assms Cons by auto
    have "ProcessAsyncHandle ok i ?s = Some t"
      using assms t Cons by (simp add: ProcessAsyncHandle_def)
    moreover obtain s' where "tsfn_run t (replicate (length (queue t)) (EvReturn ok i)) = Some s'"
      "turn_done t (tl (queue t)) s'"
      using returns_done [of t ok i] t Cons by auto
    ultimately show ?thesis using assms t Cons by (simp add: turn_done_def)
  qed
qed

section \<open>Entry points\<close>

text \<open>
  A null function pointer is \<open>None\<close>.  A blocked call has no status yet; the code \<open>UNKNOWN\<close> keeps
  the status \<open>napi_ok\<close> the variable was initialised with.
\<close>

fun call_status :: "SafeAsyncCode \<Rightarrow> napi_status" where
  "call_status SAFE_ASYNC_OK = napi_ok"
| "call_status SAFE_ASYNC_QUEUE_FULL = napi_queue_full"
| "call_status SAFE_ASYNC_INVALID_ARGS = napi_invalid_arg"
| "call_status SAFE_ASYNC_CLOSED = napi_closing"
| "call_status SAFE_ASYNC_FAILED = napi_generic_failure"
| "call_status SAFE_ASYNC_UNKNOWN = napi_ok"

definition napi_call_threadsafe_function ::
    "'d tsfn option \<Rightarrow> nat \<Rightarrow> 'd \<Rightarrow> bool \<Rightarrow> engine_view \<Rightarrow> bool \<Rightarrow>
     'd tsfn option \<times> napi_status option" where
  "napi_call_threadsafe_function func t d blocking v uv_ok =
     (case func of
        None \<Rightarrow> (None, Some napi_invalid_arg)
      | Some s \<Rightarrow> (Some (fst (Send t d blocking v uv_ok s)),
                  map_option call_status (snd (Send t d blocking v uv_ok s))))"

definition napi_acquire_threadsafe_function :: "'d tsfn option \<Rightarrow> 'd tsfn option \<times> napi_status" where
  "napi_acquire_threadsafe_function func =
     (case func of
        None \<Rightarrow> (None, napi_invalid_arg)
      | Some s \<Rightarrow> (Some (fst (Acquire s)),
                  if snd (Acquire s) \<noteq> SAFE_ASYNC_OK then napi_generic_failure else napi_ok))"

definition napi_release_threadsafe_function ::
    "'d tsfn option \<Rightarrow> bool \<Rightarrow> engine_view \<Rightarrow> bool \<Rightarrow> nat \<Rightarrow> 'd tsfn option \<times> napi_status" where
  "napi_release_threadsafe_function func abort v uv_ok i =
     (case func of
        None \<Rightarrow> (None, napi_invalid_arg)
      | Some s \<Rightarrow> (Some (fst (Release abort v uv_ok i s)),
                  if snd (Release abort v uv_ok i s) \<noteq> SAFE_ASYNC_OK then napi_generic_failure
                  else napi_ok))"

definition MAX_THREAD_SAFE_COUNT :: nat where
  "MAX_THREAD_SAFE_COUNT = 128"

text \<open>
  Creation: the arguments are checked in the code's order; \<open>switch\<close> is the answer of switching to
  the environment's context, which may refuse.
\<close>

definition napi_create_threadsafe_function ::
    "bool \<Rightarrow> bool \<Rightarrow> nat \<Rightarrow> bool \<Rightarrow> bool \<Rightarrow> bool \<Rightarrow> napi_status \<Rightarrow> u64 \<Rightarrow> nat \<Rightarrow> bool \<Rightarrow> int \<Rightarrow> bool \<Rightarrow> bool \<Rightarrow>
     'd tsfn option \<times> napi_status" where
  "napi_create_threadsafe_function env name threads result func callJs switch eid maxSize fin counter
      has_loop uv_ok =
     (if \<not> env then (None, napi_invalid_arg)
      else if \<not> name then (None, napi_invalid_arg)
      else if \<not> (threads > 0 \<and> threads \<le> MAX_THREAD_SAFE_COUNT) then (None, napi_invalid_arg)
      else if \<not> result then (None, napi_invalid_arg)
      else if \<not> func \<and> \<not> callJs then (None, napi_invalid_arg)
      else if switch = napi_generic_failure then (None, switch)
      else if snd (tsfn_Init has_loop uv_ok
                (new_NativeSafeAsyncWork eid func maxSize threads fin callJs counter :: 'd tsfn))
      then (Some (fst (tsfn_Init has_loop uv_ok
                (new_NativeSafeAsyncWork eid func maxSize threads fin callJs counter))), napi_ok)
      else (None, napi_generic_failure))"

lemma create_created:
  "napi_create_threadsafe_function env name threads result func callJs switch eid maxSize fin counter
      has_loop uv_ok = (Some s, st) \<Longrightarrow> tsfn_created s"
  by (auto simp: napi_create_threadsafe_function_def tsfn_created_def tsfn_Init_def
      new_NativeSafeAsyncWork_def split: if_splits)

section \<open>Properties\<close>

definition demo_tsfn :: "nat \<Rightarrow> nat tsfn" where
  "demo_tsfn threads = fst (tsfn_Init True True
     (new_NativeSafeAsyncWork 1 True 2 threads True True 0))"

lemma demo_created: "tsfn_created (demo_tsfn 1)"
  by (simp add: tsfn_created_def demo_tsfn_def tsfn_Init_def new_NativeSafeAsyncWork_def)

text \<open>Three sends fill the queue; the loop delivers two; the last thread releases.\<close>

definition demo_events :: "nat tsfn_event list" where
  "demo_events = [EvSend 1 10 False (True, 1) True, EvSend 1 11 False (True, 1) True,
     EvSend 1 12 False (True, 1) True, EvAsync True 0, EvReturn True 0, EvReturn True 0]"

definition demo_state :: "nat tsfn" where
  "demo_state = the (tsfn_run (demo_tsfn 1) demo_events)"

lemma demo_reach: "tsfn_reach (demo_tsfn 1) demo_state"
proof (rule tsfn_run_reach [OF reach_init])
  have "tsfn_run (demo_tsfn 1) demo_events \<noteq> None" by code_simp
  then show "tsfn_run (demo_tsfn 1) demo_events = Some demo_state" by (auto simp: demo_state_def)
qed

text \<open>
  C23: exactly once, in order.  In every interleaving of senders, releasers and the loop, the data
  the function accepted are, in the order of acceptance, those delivered so far followed by those
  in the queue (without the front while its callback is running): nothing is lost, repeated or
  reordered, not even by an abort, whose drain hands the rest to the callback.
\<close>

theorem tsfn_fifo_exactly_once:
  assumes "tsfn_created s0" and "tsfn_reach s0 s"
  shows "accepted s = map datum (delivered s) @
    (if in_round s = None then queue s else tl (queue s))"
  using reach_inv [OF assms(2) created_inv [OF assms(1)]] by (simp add: tsfn_inv_def)

theorem tsfn_fifo_exactly_once_witness:
  "accepted demo_state = map datum (delivered demo_state) @ tl (queue demo_state) \<and>
   map datum (delivered demo_state) = [10, 11, 12] \<and> queue demo_state = [12]"
proof (intro conjI)
  have r: "in_round demo_state = Some 1" by code_simp
  show "accepted demo_state = map datum (delivered demo_state) @ tl (queue demo_state)"
    using tsfn_fifo_exactly_once [OF demo_created demo_reach] r by simp
qed code_simp+

text \<open>
  The queue is bounded, by one more than \<open>max_queue_size\<close> (the fullness test is strict), and
  the loop never reads or pops an empty queue: every event that can happen has a defined outcome.
\<close>

theorem tsfn_queue_bounded:
  assumes "tsfn_created s0" and "tsfn_reach s0 s"
  shows "(maxQueueSize s > 0 \<longrightarrow> length (queue s) \<le> maxQueueSize s + 1) \<and>
    (\<forall>ev. tsfn_enabled s ev \<longrightarrow> tsfn_exec s ev \<noteq> None)"
proof -
  have inv: "tsfn_inv s" using reach_inv [OF assms(2) created_inv [OF assms(1)]] .
  then have "maxQueueSize s > 0 \<longrightarrow> length (queue s) \<le> maxQueueSize s + 1"
    unfolding tsfn_inv_def by blast
  moreover have "\<forall>ev. tsfn_enabled s ev \<longrightarrow> tsfn_exec s ev \<noteq> None"
    using exec_inv [OF inv] by (metis option.distinct(1))
  ultimately show ?thesis by blast
qed

theorem tsfn_queue_bounded_witness:
  "length (queue demo_state) \<le> 3 \<and> tsfn_exec demo_state (EvReturn True 0) \<noteq> None"
proof -
  have m: "maxQueueSize demo_state = 2" and e: "tsfn_enabled demo_state (EvReturn True 0)"
    by code_simp+
  note b = tsfn_queue_bounded [OF demo_created demo_reach]
  have "length (queue demo_state) \<le> 3" using b m by simp
  moreover have "tsfn_exec demo_state (EvReturn True 0) \<noteq> None" using b e by blast
  ultimately show ?thesis by blast
qed

text \<open>
  C30: a function that was never aborted closes only after every thread released it, with an empty
  queue, and then everything it ever accepted has been delivered, in order, with a live engine;
  the finalizer runs exactly once, when the object is freed.
\<close>

theorem tsfn_graceful_close:
  assumes "tsfn_created s0" and "tsfn_reach s0 s"
    and "status s = SAFE_ASYNC_STATUS_CLOSED" and "\<not> aborted s"
  shows "threadCount s = 0 \<and> queue s = [] \<and> map datum (delivered s) = accepted s \<and>
    (\<forall>x\<in>set (delivered s). \<not> lost x) \<and>
    finalizeCalls s = (if freed s \<and> finalizeCallback s then 1 else 0)"
  using reach_inv [OF assms(2) created_inv [OF assms(1)]] assms(3,4) by (simp add: tsfn_inv_def)

definition demo_closed :: "nat tsfn" where
  "demo_closed = the (tsfn_run demo_state
     [EvRelease False (True, 1) True 0, EvReturn True 0, EvClose])"

theorem tsfn_graceful_close_witness:
  "threadCount demo_closed = 0 \<and> map datum (delivered demo_closed) = [10, 11, 12] \<and>
   finalizeCalls demo_closed = 1"
proof -
  have "tsfn_run demo_state [EvRelease False (True, 1) True 0, EvReturn True 0, EvClose] \<noteq> None"
    by code_simp
  then have "tsfn_run demo_state [EvRelease False (True, 1) True 0, EvReturn True 0, EvClose] =
      Some demo_closed" by (auto simp: demo_closed_def)
  from tsfn_run_reach [OF demo_reach this] have r: "tsfn_reach (demo_tsfn 1) demo_closed" .
  have f: "status demo_closed = SAFE_ASYNC_STATUS_CLOSED" "\<not> aborted demo_closed"
    "freed demo_closed" "finalizeCallback demo_closed" "accepted demo_closed = [10, 11, 12]"
    by code_simp+
  show ?thesis using tsfn_graceful_close [OF demo_created r f(1,2)] f(3-5) by simp
qed

text \<open>
  A loop turn that no other thread interferes with ends, calls back once for each queued
  datum in order, empties the queue and, when every thread has released the function, starts the
  close.
\<close>

theorem tsfn_turn_drains:
  assumes "in_round s = None" and "\<not> freed s" and "async_pending s" and "\<not> closing_handle s"
    and "status s = SAFE_ASYNC_STATUS_INTE"
  shows "\<exists>s'. tsfn_run s (EvAsync ok i # replicate (length (queue s)) (EvReturn ok i)) = Some s' \<and>
    queue s' = [] \<and> delivered s' = delivered s @ map (\<lambda>d. if callJsCallback s then UserCall d True
      else CallJs True (hasFunc s) d) (queue s) \<and>
    (threadCount s = 0 \<longrightarrow> status s' = SAFE_ASYNC_STATUS_CLOSED \<and> tsfn_enabled s' EvClose \<and>
      (\<exists>s''. tsfn_exec s' EvClose = Some s'' \<and> freed s''))"
proof -
  obtain s' where s': "tsfn_run s (EvAsync ok i # replicate (length (queue s)) (EvReturn ok i)) = Some s'"
    "turn_done s (queue s) s'"
    using turn_alone [OF assms] by blast
  moreover have "made_call s = (\<lambda>d. if callJsCallback s then UserCall d True
      else CallJs True (hasFunc s) d)"
    by (simp add: made_call_def fun_eq_iff)
  ultimately show ?thesis by (auto simp: turn_done_def CleanUp_eq)
qed

definition demo_full :: "nat tsfn" where
  "demo_full = the (tsfn_run (demo_tsfn 1) [EvSend 1 10 False (True, 1) True,
     EvSend 1 11 False (True, 1) True, EvRelease False (True, 1) True 0])"

theorem tsfn_turn_drains_witness:
  "\<exists>s'. tsfn_run demo_full (EvAsync True 0 # replicate 2 (EvReturn True 0)) = Some s' \<and>
    delivered s' = [UserCall 10 True, UserCall 11 True] \<and> status s' = SAFE_ASYNC_STATUS_CLOSED"
proof -
  have f: "in_round demo_full = None" "\<not> freed demo_full" "async_pending demo_full"
    "\<not> closing_handle demo_full" "status demo_full = SAFE_ASYNC_STATUS_INTE"
    "queue demo_full = [10, 11]" "delivered demo_full = []" "callJsCallback demo_full"
    "threadCount demo_full = 0"
    by code_simp+
  have l: "length (queue demo_full) = 2" using f(6) by simp
  from tsfn_turn_drains [OF f(1-5), of True 0, unfolded l] obtain s' where
    run: "tsfn_run demo_full (EvAsync True 0 # replicate 2 (EvReturn True 0)) = Some s'"
    and del: "delivered s' = delivered demo_full @ map (\<lambda>d. if callJsCallback demo_full then UserCall d True
      else CallJs True (hasFunc demo_full) d) (queue demo_full)"
    and st: "threadCount demo_full = 0 \<longrightarrow> status s' = SAFE_ASYNC_STATUS_CLOSED \<and>
      tsfn_enabled s' EvClose \<and> (\<exists>s''. tsfn_exec s' EvClose = Some s'' \<and> freed s'')"
    by (elim exE conjE) (rule that; assumption)
  have "delivered s' = [UserCall 10 True, UserCall 11 True]" unfolding del f(6,7) using f(8) by simp
  moreover have "status s' = SAFE_ASYNC_STATUS_CLOSED" using st f(9) by simp
  ultimately show ?thesis using run by - (rule exI, intro conjI; assumption)
qed

text \<open>
  a lost wake-up.  With a bound of two, three data queued and two senders blocked, the loop
  notifies one sender only (the local size passes through the bound once); that sender's datum is
  delivered in the next turn, whose size never equals the bound.  The other sender then stays
  blocked although the queue is empty, no wake-up is pending and the function is open.
\<close>

theorem tsfn_blocked_sender_lost_wakeup:
  "map_option (\<lambda>s. (queue s, waiters s, woken s, async_pending s, in_round s, status s,
       map datum (delivered s)))
     (tsfn_run (demo_tsfn 2)
       [EvSend 1 10 True (True, 1) True, EvSend 1 11 True (True, 1) True,
        EvSend 1 12 True (True, 1) True, EvSend 1 13 True (True, 1) True,
        EvSend 2 20 True (True, 1) True,
        EvAsync True 0, EvReturn True 0, EvResume (1, 13) (True, 1) True,
        EvReturn True 0, EvReturn True 0, EvAsync True 0, EvReturn True 0]) =
   Some ([], [(2, 20)], [], False, None, SAFE_ASYNC_STATUS_INTE, [10, 11, 12, 13])"
  by code_simp

text \<open>
  an abort frees the object under its users.  Two senders are blocked when a third thread
  aborts: one is notified, the loop closes and frees the function, and at that point the other
  sender still waits on the freed object's condition variable and the thread count is not zero.
\<close>

theorem tsfn_abort_frees_under_waiter:
  "map_option (\<lambda>s. (freed s, waiters s, woken s, threadCount s, map datum (delivered s)))
     (tsfn_run (demo_tsfn 3)
       [EvSend 1 10 True (True, 1) True, EvSend 1 11 True (True, 1) True,
        EvSend 1 12 True (True, 1) True, EvSend 1 13 True (True, 1) True,
        EvSend 2 20 True (True, 1) True, EvRelease True (True, 1) True 0,
        EvAsync True 0, EvClose]) =
   Some (True, [(2, 20)], [(1, 13)], 2, [10, 11, 12])"
  by code_simp

text \<open>
  What callers are told once the function closes.  Each further call takes one thread off the
  count and is answered \<open>napi_closing\<close>; once the count is zero the answer is \<open>napi_invalid_arg\<close>;
  nothing is queued, and neither an acquire nor a release succeeds any more.
\<close>

theorem tsfn_calls_after_close:
  assumes "status s = SAFE_ASYNC_STATUS_CLOSING \<or> status s = SAFE_ASYNC_STATUS_CLOSED"
  shows "napi_call_threadsafe_function (Some s) t d b v ok =
      (Some (s\<lparr>threadCount := threadCount s - 1\<rparr>),
       Some (if threadCount s = 0 then napi_invalid_arg else napi_closing)) \<and>
    napi_acquire_threadsafe_function (Some s) = (Some s, napi_generic_failure) \<and>
    napi_release_threadsafe_function (Some s) a v ok i = (Some s, napi_generic_failure)"
  using assms
  by (auto simp: napi_call_threadsafe_function_def napi_acquire_threadsafe_function_def
      napi_release_threadsafe_function_def Send_def Send_tail_def IsMaxQueueSize_def
      closed_or_closing_def Acquire_def Release_def)

theorem tsfn_calls_after_close_witness:
  "napi_call_threadsafe_function (Some ((demo_tsfn 1)\<lparr>status := SAFE_ASYNC_STATUS_CLOSING\<rparr>))
      1 5 True (True, 1) True =
    (Some ((demo_tsfn 1)\<lparr>status := SAFE_ASYNC_STATUS_CLOSING, threadCount := 0\<rparr>), Some napi_closing)"
  using tsfn_calls_after_close [of "(demo_tsfn 1)\<lparr>status := SAFE_ASYNC_STATUS_CLOSING\<rparr>" 1 5 True "(True, 1)" True]
  by (simp add: demo_tsfn_def tsfn_Init_def new_NativeSafeAsyncWork_def)

end
