(* ===== verification/Native_Event.thy ===== *)
theory Native_Event
  imports Safe_Async_Work "HOL-Library.Multiset"
begin

text \<open>
  Events sent to an engine's thread (native\_engine/native\_event.cpp and .h): a cancelable event is
  a task with an identifier, posted to the event handler when the thread has one and queued on
  the engine's default thread-safe function otherwise.  On the queue path the datum is a heap
  allocated \<open>CallbackWrapper\<close>; a cancellation overwrites its identifier, and the callback runs the
  task only when it wins the compare-and-exchange on that identifier.

  The event handler is outside the repository: \<open>handler_tasks\<close> holds the tasks posted to it by
  name, its answer to a post is an argument, and \<open>RemoveTask\<close> removes the tasks with that name.
  The load and the compare-and-exchange of \<open>UvCancelEvent\<close> are one step: a callback that comes in
  between makes the exchange fail, which has the same result as the callback coming first.
  \<open>executed\<close>, \<open>cancelled\<close> and \<open>sent\<close> are ghost logs of identifiers on the queue path.
\<close>

section \<open>State\<close>

definition INVALID_EVENT_ID :: u64 where
  "INVALID_EVENT_ID = - 1"

definition DEFAULT_NAME :: string where
  "DEFAULT_NAME = ''defaultName''"

text \<open>\<open>w_id\<close> is the identifier the task captured, \<open>w_handleId\<close> the atomic that a cancel overwrites.\<close>

record callback_wrapper =
  w_handleId :: u64
  w_id :: u64
  w_task :: nat

record native_event =
  base :: "addr tsfn"
  called :: bool
  sequence :: u64
  callback_wrappers :: "addr \<rightharpoonup> callback_wrapper"
  eventHandler :: bool
  handler_tasks :: "(string \<times> u64 \<times> nat) list"
  requestWaiting :: int
  executed :: "(u64 \<times> nat) list"
  cancelled :: "u64 list"
  sent :: "u64 list"

definition new_NativeEvent :: "u64 \<Rightarrow> bool \<Rightarrow> native_event" where
  "new_NativeEvent eid handler =
     \<lparr>base = new_NativeSafeAsyncWork eid False 0 1 False True 0, called = False, sequence = 0,
      callback_wrappers = Map.empty, eventHandler = handler, handler_tasks = [],
      requestWaiting = 0, executed = [], cancelled = [], sent = []\<rparr>"

definition event_Init :: "bool \<Rightarrow> bool \<Rightarrow> native_event \<Rightarrow> native_event \<times> bool" where
  "event_Init has_loop uv_ok s =
     (s\<lparr>sequence := 1, base := fst (tsfn_Init has_loop uv_ok (base s))\<rparr>,
      snd (tsfn_Init has_loop uv_ok (base s)))"

text \<open>The default function of an engine: created once, and deleted when its initialisation fails.\<close>

definition CreateDefaultFunction ::
    "native_event option \<Rightarrow> u64 \<Rightarrow> bool \<Rightarrow> bool \<Rightarrow> bool \<Rightarrow> native_event option" where
  "CreateDefaultFunction defaultFunc eid handler has_loop uv_ok =
     (case defaultFunc of
        Some f \<Rightarrow> Some f
      | None \<Rightarrow>
          if snd (event_Init has_loop uv_ok (new_NativeEvent eid handler))
          then Some (fst (event_Init has_loop uv_ok (new_NativeEvent eid handler))) else None)"

section \<open>Sending\<close>

text \<open>\<open>fetch_add\<close> wraps; the identifier below the invalid one makes the sequence start again at 1.\<close>

definition GenerateUniqueID :: "native_event \<Rightarrow> native_event \<times> u64" where
  "GenerateUniqueID s =
     (let currentSequence = sequence s; s1 = s\<lparr>sequence := sequence s + 1\<rparr>
      in if currentSequence = INVALID_EVENT_ID - 1 then (s1\<lparr>sequence := 1\<rparr>, 1)
         else (s1, currentSequence))"

text \<open>\<open>std::to_string\<close>.\<close>

fun decimal :: "nat \<Rightarrow> string" where
  "decimal n = (if n < 10 then [char_of (48 + n)] else decimal (n div 10) @ [char_of (48 + n mod 10)])"

declare decimal.simps [simp del]

definition task_name :: "string \<Rightarrow> u64 \<Rightarrow> string" where
  "task_name name eventId = name @ decimal (unat eventId)"

text \<open>The status, and the value written through \<open>handleId\<close> when there is one.\<close>

definition SendEventByEventHandler ::
    "nat \<Rightarrow> u64 \<Rightarrow> string \<Rightarrow> bool \<Rightarrow> native_event \<Rightarrow> native_event \<times> napi_status \<times> u64 option" where
  "SendEventByEventHandler task eventId name postRes s =
     (if \<not> eventHandler s then (s, napi_invalid_arg, None)
      else if postRes
      then (s\<lparr>handler_tasks := handler_tasks s @ [(task_name name eventId, eventId, task)]\<rparr>,
            napi_ok, Some eventId)
      else (s, napi_generic_failure, Some 0))"

fun convert_status :: "SafeAsyncCode \<Rightarrow> napi_status" where
  "convert_status SAFE_ASYNC_OK = napi_ok"
| "convert_status SAFE_ASYNC_QUEUE_FULL = napi_queue_full"
| "convert_status SAFE_ASYNC_INVALID_ARGS = napi_invalid_arg"
| "convert_status SAFE_ASYNC_CLOSED = napi_closing"
| "convert_status SAFE_ASYNC_FAILED = napi_generic_failure"
| "convert_status SAFE_ASYNC_UNKNOWN = napi_generic_failure"

text \<open>A non-blocking send always has a code.\<close>

definition SendConvertStatus2NapiStatus ::
    "addr \<Rightarrow> engine_view \<Rightarrow> bool \<Rightarrow> addr tsfn \<Rightarrow> addr tsfn \<times> napi_status" where
  "SendConvertStatus2NapiStatus p v uv_ok b =
     (fst (Send 0 p False v uv_ok b),
      case snd (Send 0 p False v uv_ok b) of None \<Rightarrow> napi_generic_failure | Some c \<Rightarrow> convert_status c)"

definition SendEventByUv ::
    "nat \<Rightarrow> u64 \<Rightarrow> addr option \<Rightarrow> engine_view \<Rightarrow> bool \<Rightarrow> native_event \<Rightarrow>
     native_event \<times> napi_status \<times> u64 option" where
  "SendEventByUv task eventId alloc v uv_ok s =
     (case alloc of
        None \<Rightarrow> (s, napi_generic_failure, None)
      | Some p \<Rightarrow>
          let cbw = \<lparr>w_handleId = eventId, w_id = eventId, w_task = task\<rparr>;
              st = snd (SendConvertStatus2NapiStatus p v uv_ok (base s));
              s1 = s\<lparr>base := fst (SendConvertStatus2NapiStatus p v uv_ok (base s))\<rparr>
          in if st = napi_ok
             then (s1\<lparr>callback_wrappers := (callback_wrappers s)(p \<mapsto> cbw),
                      requestWaiting := requestWaiting s + 1, sent := sent s @ [eventId]\<rparr>,
                   st, Some eventId)
             else (s1\<lparr>callback_wrappers := (callback_wrappers s)(p := None),
                      requestWaiting := requestWaiting s + 1 - 1\<rparr>, st, Some 0))"

definition SendCancelableEvent ::
    "nat \<Rightarrow> string \<Rightarrow> bool \<Rightarrow> addr option \<Rightarrow> engine_view \<Rightarrow> bool \<Rightarrow> native_event \<Rightarrow>
     native_event \<times> napi_status \<times> u64 option" where
  "SendCancelableEvent task name postRes alloc v uv_ok s =
     (let s1 = fst (GenerateUniqueID s); eventId = snd (GenerateUniqueID s);
          r = SendEventByEventHandler task eventId name postRes s1
      in if fst (snd r) \<noteq> napi_invalid_arg then r
         else SendEventByUv task eventId alloc v uv_ok (fst r))"

section \<open>Cancelling\<close>

text \<open>
  The scan of the queue for an identifier.  \<open>None\<close> is a read of a wrapper that was freed;
  \<open>Some None\<close> that no element matches.
\<close>

fun cancel_scan :: "(addr \<rightharpoonup> callback_wrapper) \<Rightarrow> u64 \<Rightarrow> addr list \<Rightarrow> addr option option" where
  "cancel_scan W h [] = Some None"
| "cancel_scan W h (p # q) = (case W p of
      None \<Rightarrow> None
    | Some w \<Rightarrow> if w_handleId w \<noteq> h then cancel_scan W h q else Some (Some p))"

definition UvCancelEvent :: "u64 \<Rightarrow> native_event \<Rightarrow> (native_event \<times> SafeAsyncCode) option" where
  "UvCancelEvent handleId s =
     (if closed_or_closing (base s) then Some (s, SAFE_ASYNC_CLOSED)
      else if \<not> callJsCallback (base s) then Some (s, SAFE_ASYNC_FAILED)
      else (case cancel_scan (callback_wrappers s) handleId (queue (base s)) of
              None \<Rightarrow> None
            | Some None \<Rightarrow> Some (s, SAFE_ASYNC_FAILED)
            | Some (Some p) \<Rightarrow>
                Some (s\<lparr>callback_wrappers := (callback_wrappers s)(p := map_option
                          (\<lambda>w. w\<lparr>w_handleId := INVALID_EVENT_ID\<rparr>) (callback_wrappers s p)),
                        requestWaiting := requestWaiting s - 1,
                        cancelled := cancelled s @ [handleId]\<rparr>, SAFE_ASYNC_OK)))"

definition CancelEvent :: "string \<Rightarrow> u64 \<Rightarrow> native_event \<Rightarrow> (native_event \<times> napi_status) option" where
  "CancelEvent name handleId s =
     (if handleId = 0 then Some (s, napi_invalid_arg)
      else if eventHandler s
      then Some (s\<lparr>handler_tasks := filter (\<lambda>t. fst t \<noteq> task_name name handleId) (handler_tasks s)\<rparr>,
                 napi_ok)
      else map_option (\<lambda>r. (fst r, if snd r = SAFE_ASYNC_FAILED \<or> snd r = SAFE_ASYNC_CLOSED
                                    then napi_generic_failure else napi_ok)) (UvCancelEvent handleId s))"

section \<open>The callback and the shutdown\<close>

text \<open>
  \<open>ThreadSafeCallback\<close> runs the task when the wrapper was not cancelled and frees the wrapper.
  The task first takes itself off the waiting counter.
\<close>

definition ThreadSafeCallback :: "addr \<Rightarrow> native_event \<Rightarrow> native_event option" where
  "ThreadSafeCallback p s = Option.bind (callback_wrappers s p) (\<lambda>cbw.
     Some ((if w_handleId cbw \<noteq> INVALID_EVENT_ID
            then s\<lparr>requestWaiting := requestWaiting s - 1,
                   executed := executed s @ [(w_id cbw, w_task cbw)]\<rparr>
            else s)
           \<lparr>callback_wrappers := (callback_wrappers s)(p := None)\<rparr>))"

text \<open>The drain of the queue in \<open>CleanUp\<close> calls the callback for what is left.\<close>

fun drain_callbacks :: "addr list \<Rightarrow> native_event \<Rightarrow> native_event option" where
  "drain_callbacks [] s = Some s"
| "drain_callbacks (p # q) s = Option.bind (ThreadSafeCallback p s) (drain_callbacks q)"

text \<open>
  \<open>DestoryDefaultFunction\<close>: the slot is emptied; the function is then aborted, or only its memory
  is freed.  The results are the new slot and the function as it lives on in the loop.
\<close>

definition DestoryDefaultFunction ::
    "bool \<Rightarrow> engine_view \<Rightarrow> bool \<Rightarrow> native_event option \<Rightarrow> native_event option \<times> native_event option" where
  "DestoryDefaultFunction release v uv_ok defaultFunc =
     (case defaultFunc of
        None \<Rightarrow> (None, None)
      | Some f \<Rightarrow>
          if release then (None, Some (f\<lparr>base := fst (Release True v uv_ok 0 (base f))\<rparr>))
          else (None, Some (f\<lparr>base := (base f)\<lparr>freed := True, activeTsfn := activeTsfn (base f) - 1\<rparr>\<rparr>)))"

section \<open>Entry points\<close>

definition napi_eprio_vip :: int where "napi_eprio_vip = 0"
definition napi_eprio_idle :: int where "napi_eprio_idle = 4"
definition napi_barrier_none :: int where "napi_barrier_none = 0"
definition napi_barrier_force :: int where "napi_barrier_force = 2"

text \<open>The engine as an event call sees it: whether it is alive, and its default function.\<close>

record event_env =
  alive :: bool
  defaultFunc :: "native_event option"

definition event_args_ok :: "int \<Rightarrow> int \<Rightarrow> bool" where
  "event_args_ok priority barrier \<longleftrightarrow>
     \<not> (priority < napi_eprio_vip \<or> priority > napi_eprio_idle) \<and>
     \<not> (barrier < napi_barrier_none \<or> barrier > napi_barrier_force)"

definition napi_send_cancelable_event ::
    "event_env option \<Rightarrow> nat option \<Rightarrow> int \<Rightarrow> bool \<Rightarrow> string option \<Rightarrow> int \<Rightarrow> bool \<Rightarrow> addr option \<Rightarrow>
     engine_view \<Rightarrow> bool \<Rightarrow> event_env option \<times> napi_status \<times> u64 option" where
  "napi_send_cancelable_event env cb priority hasHandleId name barrier postRes alloc v uv_ok =
     (case env of
        None \<Rightarrow> (None, napi_invalid_arg, None)
      | Some e \<Rightarrow>
          (case cb of
             None \<Rightarrow> (env, napi_invalid_arg, None)
           | Some task \<Rightarrow>
               if \<not> event_args_ok priority barrier then (env, napi_invalid_arg, None)
               else if \<not> hasHandleId then (env, napi_invalid_arg, None)
               else if \<not> alive e then (env, napi_closing, None)
               else (case defaultFunc e of
                       None \<Rightarrow> (env, napi_generic_failure, None)
                     | Some f \<Rightarrow>
                         let r = SendCancelableEvent task (case name of None \<Rightarrow> DEFAULT_NAME | Some n \<Rightarrow> n)
                                   postRes alloc v uv_ok f
                         in (Some (e\<lparr>defaultFunc := Some (fst r)\<rparr>), snd r))))"

text \<open>\<open>napi_send_event\<close> passes a local for the handle, whose value the caller never sees.\<close>

definition napi_send_event ::
    "event_env option \<Rightarrow> nat option \<Rightarrow> int \<Rightarrow> string option \<Rightarrow> int \<Rightarrow> bool \<Rightarrow> addr option \<Rightarrow>
     engine_view \<Rightarrow> bool \<Rightarrow> event_env option \<times> napi_status" where
  "napi_send_event env cb priority name barrier postRes alloc v uv_ok =
     (case env of
        None \<Rightarrow> (None, napi_invalid_arg)
      | Some e \<Rightarrow>
          (case cb of
             None \<Rightarrow> (env, napi_invalid_arg)
           | Some task \<Rightarrow>
               if \<not> event_args_ok priority barrier then (env, napi_invalid_arg)
               else if \<not> alive e then (env, napi_closing)
               else (case defaultFunc e of
                       None \<Rightarrow> (env, napi_generic_failure)
                     | Some f \<Rightarrow>
                         let r = SendCancelableEvent task (case name of None \<Rightarrow> DEFAULT_NAME | Some n \<Rightarrow> n)
                                   postRes alloc v uv_ok f
                         in (Some (e\<lparr>defaultFunc := Some (fst r)\<rparr>), fst (snd r)))))"

definition napi_cancel_event ::
    "event_env option \<Rightarrow> u64 \<Rightarrow> string option \<Rightarrow> (event_env option \<times> napi_status) option" where
  "napi_cancel_event env handleId name =
     (case env of
        None \<Rightarrow> Some (None, napi_invalid_arg)
      | Some e \<Rightarrow>
          if handleId = 0 then Some (env, napi_invalid_arg)
          else if \<not> alive e then Some (env, napi_closing)
          else (case defaultFunc e of
                  None \<Rightarrow> Some (env, napi_generic_failure)
                | Some f \<Rightarrow>
                    map_option (\<lambda>r. (Some (e\<lparr>defaultFunc := Some (fst r)\<rparr>), snd r))
                      (CancelEvent (case name of None \<Rightarrow> DEFAULT_NAME | Some n \<Rightarrow> n) handleId f)))"

section \<open>Runs\<close>

datatype ne_event =
    NeSend nat string bool "addr option" engine_view bool
  | NeCancel string u64
  | NeAsync bool
  | NeCall
  | NeReturn bool
  | NeRelease engine_view bool
  | NeClose

fun ne_enabled :: "native_event \<Rightarrow> ne_event \<Rightarrow> bool" where
  "ne_enabled s (NeSend task name postRes alloc v ok) \<longleftrightarrow> \<not> freed (base s) \<and>
     sequence s < INVALID_EVENT_ID - 1 \<and>
     (case alloc of None \<Rightarrow> True
      | Some p \<Rightarrow> callback_wrappers s p = None \<and> p \<notin> set (queue (base s)))"
| "ne_enabled s (NeCancel name h) \<longleftrightarrow> \<not> freed (base s)"
| "ne_enabled s (NeAsync ok) \<longleftrightarrow> tsfn_enabled (base s) (EvAsync ok 0)"
| "ne_enabled s NeCall \<longleftrightarrow> tsfn_enabled (base s) (EvReturn True 0) \<and> \<not> called s"
| "ne_enabled s (NeReturn ok) \<longleftrightarrow> tsfn_enabled (base s) (EvReturn ok 0) \<and> called s"
| "ne_enabled s (NeRelease v ok) \<longleftrightarrow> \<not> freed (base s)"
| "ne_enabled s NeClose \<longleftrightarrow> tsfn_enabled (base s) EvClose"

fun ne_exec :: "native_event \<Rightarrow> ne_event \<Rightarrow> native_event option" where
  "ne_exec s (NeSend task name postRes alloc v ok) =
     Some (fst (SendCancelableEvent task name postRes alloc v ok s))"
| "ne_exec s (NeCancel name h) = map_option fst (CancelEvent name h s)"
| "ne_exec s (NeAsync ok) =
     map_option (\<lambda>b. s\<lparr>base := b, called := False\<rparr>) (tsfn_exec (base s) (EvAsync ok 0))"
| "ne_exec s NeCall = Option.bind (hd_opt (queue (base s)))
     (\<lambda>p. map_option (\<lambda>t. t\<lparr>called := True\<rparr>) (ThreadSafeCallback p s))"
| "ne_exec s (NeReturn ok) =
     map_option (\<lambda>b. s\<lparr>base := b, called := False\<rparr>) (tsfn_exec (base s) (EvReturn ok 0))"
| "ne_exec s (NeRelease v ok) =
     Some (s\<lparr>base := fst (Release True v ok 0 (base s))\<rparr>)"
| "ne_exec s NeClose = map_option (\<lambda>t. t\<lparr>base := CleanUp (base t)\<rparr>)
     (drain_callbacks (queue (base s)) s)"

section \<open>Accounting\<close>

text \<open>
  \<open>ledger P W ex ca se wa sq\<close>: the wrappers \<open>P\<close> are allocated and nothing else is; every event
  sent was executed, cancelled, or is live in the queue, each identifier once; the waiting counter
  counts the live ones.
\<close>

definition live :: "(addr \<rightharpoonup> callback_wrapper) \<Rightarrow> addr list \<Rightarrow> addr list" where
  "live W P = filter (\<lambda>p. w_handleId (the (W p)) \<noteq> INVALID_EVENT_ID) P"

definition ident :: "(addr \<rightharpoonup> callback_wrapper) \<Rightarrow> addr \<Rightarrow> u64" where
  "ident W p = w_id (the (W p))"

definition ledger ::
    "addr list \<Rightarrow> (addr \<rightharpoonup> callback_wrapper) \<Rightarrow> (u64 \<times> nat) list \<Rightarrow> u64 list \<Rightarrow> u64 list \<Rightarrow>
     int \<Rightarrow> u64 \<Rightarrow> bool" where
  "ledger P W ex ca se wa sq \<longleftrightarrow>
     distinct P \<and> dom W = set P \<and> distinct se \<and> (\<forall>i\<in>set se. i < sq) \<and>
     (\<forall>p w. W p = Some w \<longrightarrow> w_id w \<noteq> INVALID_EVENT_ID \<and>
        (w_handleId w = w_id w \<or> w_handleId w = INVALID_EVENT_ID)) \<and>
     mset se = mset (map fst ex) + mset ca + mset (map (ident W) (live W P)) \<and>
     wa = int (length (live W P))"

lemma live_upd [simp]: "p \<notin> set P \<Longrightarrow> live (W(p := x)) P = live W P"
  by (auto simp: live_def intro!: filter_cong)

lemma ident_upd [simp]: "p \<notin> set P \<Longrightarrow> map (ident (W(p := x))) (live W P) = map (ident W) (live W P)"
  by (auto simp: live_def ident_def)

lemma live_simps: "live W [] = []"
  "live W (p # P) = (if w_handleId (the (W p)) \<noteq> INVALID_EVENT_ID then p # live W P else live W P)"
  "live W (P @ Q) = live W P @ live W Q"
  by (simp_all add: live_def)

lemma below_invalid:
  assumes "sq < INVALID_EVENT_ID - 1"
  shows "sq \<noteq> INVALID_EVENT_ID" and "sq < sq + 1"
proof -
  have "INVALID_EVENT_ID - 1 = 18446744073709551614" by code_simp
  with assms have l: "sq < 18446744073709551614" by simp
  from l have n: "unat sq < 18446744073709551614" by (simp add: word_less_nat_alt)
  have "\<not> INVALID_EVENT_ID < 18446744073709551614" by code_simp
  with l show "sq \<noteq> INVALID_EVENT_ID" by blast
  show "sq < sq + 1" using n by (simp add: word_less_nat_alt unat_word_ariths)
qed

lemma ledger_push:
  assumes "ledger P W ex ca se wa sq" and "W p = None" and "sq < INVALID_EVENT_ID - 1"
  shows "ledger (P @ [p]) (W(p \<mapsto> \<lparr>w_handleId = sq, w_id = sq, w_task = t\<rparr>)) ex ca (se @ [sq])
    (wa + 1) (sq + 1)"
proof -
  have p: "p \<notin> set P" using assms(1,2) by (auto simp: ledger_def)
  have sq: "sq \<noteq> INVALID_EVENT_ID" "sq < sq + 1"
    using below_invalid [OF assms(3)] by auto
  have i: "\<forall>i\<in>set se. i < sq + 1" "sq \<notin> set se"
    using assms(1) sq(2) by (fastforce simp: ledger_def)+
  show ?thesis using assms(1) p sq i
    by (auto simp: ledger_def live_simps) (simp add: ident_def)
qed

lemma ledger_next:
  assumes "ledger P W ex ca se wa sq" and "sq < INVALID_EVENT_ID - 1"
  shows "ledger P W ex ca se wa (sq + 1)"
proof -
  have "sq < sq + 1" using below_invalid [OF assms(2)] by auto
  then show ?thesis using assms(1) by (fastforce simp: ledger_def)
qed

lemma ledger_call:
  assumes "ledger (p # P) W ex ca se wa sq"
  shows "\<exists>w. W p = Some w \<and>
    (if w_handleId w \<noteq> INVALID_EVENT_ID
     then ledger P (W(p := None)) (ex @ [(w_id w, w_task w)]) ca se (wa - 1) sq
     else ledger P (W(p := None)) ex ca se wa sq)"
proof -
  have "p \<in> dom W" using assms unfolding ledger_def by simp
  then obtain w where w: "W p = Some w" by auto
  have p: "p \<notin> set P" using assms by (simp add: ledger_def)
  with assms w show ?thesis by (auto simp: ledger_def live_simps ident_def)
qed

lemma ledger_cancel:
  assumes "ledger P W ex ca se wa sq" and "p \<in> set P" and "W p = Some w" and "w_handleId w = h"
    and "h \<noteq> INVALID_EVENT_ID"
  shows "ledger P (W(p \<mapsto> w\<lparr>w_handleId := INVALID_EVENT_ID\<rparr>)) ex (ca @ [h]) se (wa - 1) sq"
proof -
  obtain A B where P: "P = A @ p # B" "p \<notin> set A" "p \<notin> set B"
    using assms(1,2) by (auto simp: ledger_def dest: split_list)
  let ?W = "W(p \<mapsto> w\<lparr>w_handleId := INVALID_EVENT_ID\<rparr>)"
  have "w_id w = h" using assms(1,3,4,5) unfolding ledger_def by metis
  then have l: "live W P = live W A @ p # live W B" "live ?W P = live W A @ live W B" "ident W p = h"
    using assms P by (simp_all add: live_simps ident_def)
  have "mset (map (ident ?W) (live W A @ live W B)) = mset (map (ident W) (live W A @ live W B))"
    using P by simp
  moreover have "dom ?W = dom W" using assms(3) by auto
  moreover have "\<forall>q x. ?W q = Some x \<longrightarrow> w_id x \<noteq> INVALID_EVENT_ID \<and>
      (w_handleId x = w_id x \<or> w_handleId x = INVALID_EVENT_ID)"
    using assms(1,3) by (auto simp: ledger_def)
  ultimately show ?thesis using assms(1) l by (simp add: ledger_def)
qed

lemma cancel_scan_found:
  "cancel_scan W h q = Some (Some p) \<Longrightarrow> p \<in> set q \<and> (\<exists>w. W p = Some w \<and> w_handleId w = h)"
  by (induction q) (auto split: option.splits if_splits)

lemma cancel_scan_total: "set q \<subseteq> dom W \<Longrightarrow> cancel_scan W h q \<noteq> None"
  by (induction q) (auto split: option.splits)

section \<open>Invariant of the queue path\<close>

definition pend :: "native_event \<Rightarrow> addr list" where
  "pend s = (if in_round (base s) \<noteq> None \<and> called s then tl (queue (base s)) else queue (base s))"

definition ne_inv :: "native_event \<Rightarrow> bool" where
  "ne_inv s \<longleftrightarrow> tsfn_inv (base s) \<and> maxQueueSize (base s) = 0 \<and> callJsCallback (base s) \<and>
     \<not> eventHandler s \<and> (called s \<longrightarrow> in_round (base s) \<noteq> None) \<and>
     ledger (pend s) (callback_wrappers s) (executed s) (cancelled s) (sent s) (requestWaiting s)
       (sequence s)"

text \<open>What the operations of the base class do to its queue.\<close>

lemma async_queue:
  assumes "ProcessAsyncHandle ok i b = Some b'"
  shows "queue b' = queue b \<and> maxQueueSize b' = maxQueueSize b \<and> callJsCallback b' = callJsCallback b"
  using assms
  by (auto simp: ProcessAsyncHandle_def CloseHandles_def round_head_def round_tail_def Let_def
      split: if_splits list.splits)

lemma return_queue:
  assumes "callback_returned ok i b = Some b'"
  shows "queue b' = tl (queue b) \<and> maxQueueSize b' = maxQueueSize b \<and>
    callJsCallback b' = callJsCallback b"
  using assms
  by (auto simp: callback_returned_def CloseHandles_def round_head_def round_tail_def Let_def
      split: if_splits list.splits option.splits)

lemma Release_queue:
  "queue (fst (Release a v ok i b)) = queue b" "in_round (fst (Release a v ok i b)) = in_round b"
  "maxQueueSize (fst (Release a v ok i b)) = maxQueueSize b"
  "callJsCallback (fst (Release a v ok i b)) = callJsCallback b"
  by (simp_all add: Release_def Release_wake_def Let_def)

lemma Send_queue:
  assumes "maxQueueSize b = 0" and "Send 0 p False v True b = (b', r)"
  shows "r \<noteq> None \<and> queue b' = (if r = Some SAFE_ASYNC_OK then queue b @ [p] else queue b) \<and>
    in_round b' = in_round b \<and> maxQueueSize b' = 0 \<and> callJsCallback b' = callJsCallback b"
  using assms by (auto simp: Send_def Send_tail_def IsMaxQueueSize_def ValidEngineCheck_def split: if_splits)


lemma convert_ok [simp]: "convert_status c = napi_ok \<longleftrightarrow> c = SAFE_ASYNC_OK"
  by (cases c) simp_all

lemma pend_push:
  assumes "tsfn_inv (base s)" and "queue b = queue (base s) @ [p]"
    and "in_round b = in_round (base s)" and "called s' = called s" and "base s' = b"
  shows "pend s' = pend s @ [p]"
proof -
  have "queue (base s) \<noteq> []" if "in_round (base s) \<noteq> None"
    using assms(1) that by (auto simp: tsfn_inv_def)
  then show ?thesis using assms by (auto simp: pend_def)
qed

lemma SendByUv_inv:
  assumes "ne_inv s" and "sequence s < INVALID_EVENT_ID - 1"
    and "\<forall>p. alloc = Some p \<longrightarrow> callback_wrappers s p = None \<and> p \<notin> set (queue (base s))"
    and "\<not> freed (base s)"
  shows "ne_inv (fst (SendEventByUv t (sequence s) alloc v True (s\<lparr>sequence := sequence s + 1\<rparr>)))"
proof (cases alloc)
  case None
  with assms(1,2) show ?thesis
    by (auto simp: SendEventByUv_def ne_inv_def pend_def intro: ledger_next)
next
  case (Some p)
  note L = assms(1) [unfolded ne_inv_def]
  obtain b r where S: "Send 0 p False v True (base s) = (b, r)" by fastforce
  have q: "r \<noteq> None" "queue b = (if r = Some SAFE_ASYNC_OK then queue (base s) @ [p] else queue (base s))"
    "in_round b = in_round (base s)" "maxQueueSize b = 0" "callJsCallback b = callJsCallback (base s)"
    using Send_queue [OF _ S] L by simp_all
  have bi: "tsfn_inv b" using Send_inv [of "base s" 0 p False v True] L assms(4) S by simp
  show ?thesis
  proof (cases "r = Some SAFE_ASYNC_OK")
    case True
    let ?s' = "s\<lparr>sequence := sequence s + 1, base := b, callback_wrappers := (callback_wrappers s)
        (p \<mapsto> \<lparr>w_handleId = sequence s, w_id = sequence s, w_task = t\<rparr>),
        requestWaiting := requestWaiting s + 1, sent := sent s @ [sequence s]\<rparr>"
    have "pend ?s' = pend s @ [p]"
      by (rule pend_push [of s b]) (use L q True in simp_all)
    moreover have "ledger (pend s @ [p]) (callback_wrappers ?s') (executed s) (cancelled s)
        (sent s @ [sequence s]) (requestWaiting s + 1) (sequence s + 1)"
      using ledger_push [of "pend s" "callback_wrappers s" _ _ _ _ "sequence s" p t] L assms(2,3) Some
      by simp
    ultimately have "ne_inv ?s'" using L q bi by (simp add: ne_inv_def)
    with S True Some show ?thesis
      by (simp add: SendEventByUv_def SendConvertStatus2NapiStatus_def Let_def)
  next
    case False
    let ?s' = "s\<lparr>sequence := sequence s + 1, base := b,
        callback_wrappers := (callback_wrappers s)(p := None)\<rparr>"
    have "(callback_wrappers s)(p := None) = callback_wrappers s" using assms(3) Some by auto
    moreover have "pend ?s' = pend s" using q False by (simp add: pend_def)
    ultimately have "ne_inv ?s'" using L q bi assms(2) by (auto simp: ne_inv_def intro: ledger_next)
    with S False Some q(1) show ?thesis
      by (auto simp: SendEventByUv_def SendConvertStatus2NapiStatus_def Let_def)
  qed
qed

lemma Send_ne_inv:
  assumes "ne_inv s" and "ne_enabled s (NeSend t name post alloc v True)"
  shows "ne_inv (fst (SendCancelableEvent t name post alloc v True s))"
proof -
  have g: "GenerateUniqueID s = (s\<lparr>sequence := sequence s + 1\<rparr>, sequence s)"
    using assms(2) by (auto simp: GenerateUniqueID_def Let_def)
  have e: "\<not> eventHandler s" using assms(1) by (simp add: ne_inv_def)
  have "SendCancelableEvent t name post alloc v True s =
      SendEventByUv t (sequence s) alloc v True (s\<lparr>sequence := sequence s + 1\<rparr>)"
    using e by (simp add: SendCancelableEvent_def g SendEventByEventHandler_def Let_def)
  moreover have "\<forall>p. alloc = Some p \<longrightarrow> callback_wrappers s p = None \<and> p \<notin> set (queue (base s))"
    using assms(2) by auto
  ultimately show ?thesis using SendByUv_inv [OF assms(1)] assms(2) by simp
qed

lemma Cancel_ne_inv:
  assumes "ne_inv s" and "h \<noteq> INVALID_EVENT_ID" and "CancelEvent name h s = Some (s', st)"
    and "\<not> called s"
  shows "ne_inv s'"
proof (cases "s' = s")
  case False
  have e: "\<not> eventHandler s" using assms(1) by (simp add: ne_inv_def)
  from assms(3) False e obtain p where sc: "cancel_scan (callback_wrappers s) h (queue (base s)) = Some (Some p)"
    and s': "s' = s\<lparr>callback_wrappers := (callback_wrappers s)(p := map_option
        (\<lambda>w. w\<lparr>w_handleId := INVALID_EVENT_ID\<rparr>) (callback_wrappers s p)),
        requestWaiting := requestWaiting s - 1, cancelled := cancelled s @ [h]\<rparr>"
    by (auto simp: CancelEvent_def UvCancelEvent_def split: if_splits option.splits)
  obtain w where w: "p \<in> set (queue (base s))" "callback_wrappers s p = Some w" "w_handleId w = h"
    using cancel_scan_found [OF sc] by blast
  have "p \<in> set (pend s)" using w(1) assms(4) by (simp add: pend_def)
  moreover have "pend s' = pend s" by (simp add: s' pend_def)
  ultimately show ?thesis
    using assms(1,2) w ledger_cancel [of "pend s" "callback_wrappers s" _ _ _ _ _ p w h]
    by (simp add: ne_inv_def s')
qed (use assms in simp)

lemma Call_ne_inv:
  assumes "ne_inv s" and "ne_enabled s NeCall"
  shows "\<exists>s'. ne_exec s NeCall = Some s' \<and> ne_inv s'"
proof -
  note L = assms(1) [unfolded ne_inv_def]
  have r: "in_round (base s) \<noteq> None" and c: "\<not> called s" using assms(2) by auto
  then obtain p q where q: "queue (base s) = p # q" using L by (cases "queue (base s)") (auto simp: tsfn_inv_def)
  have P: "pend s = p # q" using q c by (simp add: pend_def)
  then obtain w where w: "callback_wrappers s p = Some w"
    and l: "if w_handleId w \<noteq> INVALID_EVENT_ID
      then ledger q ((callback_wrappers s)(p := None)) (executed s @ [(w_id w, w_task w)]) (cancelled s)
        (sent s) (requestWaiting s - 1) (sequence s)
      else ledger q ((callback_wrappers s)(p := None)) (executed s) (cancelled s) (sent s)
        (requestWaiting s) (sequence s)"
    using ledger_call [of p q] L by metis
  then show ?thesis using L q r
    by (auto simp: ThreadSafeCallback_def ne_inv_def pend_def)
qed

lemma Return_ne_inv:
  assumes "ne_inv s" and "ne_enabled s (NeReturn ok)"
  shows "\<exists>s'. ne_exec s (NeReturn ok) = Some s' \<and> ne_inv s'"
proof -
  note L = assms(1) [unfolded ne_inv_def]
  have en: "tsfn_enabled (base s) (EvReturn ok 0)" and c: "called s" using assms(2) by simp_all
  from exec_inv [of "base s", OF _ en] L obtain b where b: "callback_returned ok 0 (base s) = Some b"
    "tsfn_inv b" by auto
  have "pend (s\<lparr>base := b, called := False\<rparr>) = pend s"
    using return_queue [OF b(1)] c L by (auto simp: pend_def)
  with b return_queue [OF b(1)] L show ?thesis by (simp add: ne_inv_def)
qed

lemma Async_ne_inv:
  assumes "ne_inv s" and "ne_enabled s (NeAsync ok)"
  shows "\<exists>s'. ne_exec s (NeAsync ok) = Some s' \<and> ne_inv s'"
proof -
  note L = assms(1) [unfolded ne_inv_def]
  have en: "tsfn_enabled (base s) (EvAsync ok 0)" using assms(2) by simp
  from exec_inv [of "base s", OF _ en] L obtain b
    where b: "ProcessAsyncHandle ok 0 ((base s)\<lparr>async_pending := False\<rparr>) = Some b" "tsfn_inv b" by auto
  have "in_round (base s) = None" "\<not> called s" using en L by auto
  then have "pend (s\<lparr>base := b, called := False\<rparr>) = pend s"
    using async_queue [OF b(1)] by (auto simp: pend_def)
  with b async_queue [OF b(1)] L show ?thesis by (simp add: ne_inv_def)
qed

lemma drain_ledger:
  assumes "ledger P (callback_wrappers s) (executed s) (cancelled s) (sent s) (requestWaiting s) (sequence s)"
  shows "\<exists>s'. drain_callbacks P s = Some s' \<and> base s' = base s \<and> called s' = called s \<and>
    eventHandler s' = eventHandler s \<and>
    ledger [] (callback_wrappers s') (executed s') (cancelled s') (sent s') (requestWaiting s') (sequence s')"
  using assms
proof (induction P arbitrary: s)
  case Nil
  then show ?case by simp
next
  case (Cons p P)
  obtain w where w: "callback_wrappers s p = Some w"
    and l: "if w_handleId w \<noteq> INVALID_EVENT_ID
      then ledger P ((callback_wrappers s)(p := None)) (executed s @ [(w_id w, w_task w)]) (cancelled s)
        (sent s) (requestWaiting s - 1) (sequence s)
      else ledger P ((callback_wrappers s)(p := None)) (executed s) (cancelled s) (sent s)
        (requestWaiting s) (sequence s)"
    using ledger_call [OF Cons.prems] by blast
  then obtain t where t: "ThreadSafeCallback p s = Some t" "base t = base s" "called t = called s"
    "eventHandler t = eventHandler s"
    "ledger P (callback_wrappers t) (executed t) (cancelled t) (sent t) (requestWaiting t) (sequence t)"
    by (auto simp: ThreadSafeCallback_def)
  from Cons.IH [OF t(5)] t(1-4) show ?case by auto
qed

lemma Close_ne_inv:
  assumes "ne_inv s" and "ne_enabled s NeClose"
  shows "\<exists>s'. ne_exec s NeClose = Some s' \<and> ne_inv s' \<and> pend s' = []"
proof -
  note L = assms(1) [unfolded ne_inv_def]
  have en: "\<not> freed (base s)" "closing_handle (base s)" "in_round (base s) = None" using assms(2) by auto
  then have "pend s = queue (base s)" "\<not> called s" using L by (auto simp: pend_def)
  with drain_ledger [of "queue (base s)" s] L obtain t where t: "drain_callbacks (queue (base s)) s = Some t"
    "base t = base s" "called t = called s" "eventHandler t = eventHandler s"
    "ledger [] (callback_wrappers t) (executed t) (cancelled t) (sent t) (requestWaiting t) (sequence t)"
    by auto
  have "tsfn_inv (CleanUp (base s))" using L en CleanUp_inv by blast
  moreover have "pend (t\<lparr>base := CleanUp (base t)\<rparr>) = []" by (simp add: pend_def CleanUp_eq)
  ultimately show ?thesis using t L \<open>\<not> called s\<close>
    by (simp add: ne_inv_def) (simp add: CleanUp_eq)
qed

text \<open>
  Runs on the queue path in which every \<open>uv_async_send\<close> is accepted, no invalid identifier is
  cancelled and no cancellation falls between a callback's end and the pop of its datum.
\<close>

fun regular :: "native_event \<Rightarrow> ne_event \<Rightarrow> bool" where
  "regular s (NeSend t name post alloc v ok) \<longleftrightarrow> ok"
| "regular s (NeCancel name h) \<longleftrightarrow> h \<noteq> INVALID_EVENT_ID \<and> \<not> called s"
| "regular s _ \<longleftrightarrow> True"

text \<open>Runs as a function; \<open>reg\<close> asks for regular steps only.\<close>

fun ne_run :: "bool \<Rightarrow> native_event \<Rightarrow> ne_event list \<Rightarrow> native_event option" where
  "ne_run reg s [] = Some s"
| "ne_run reg s (ev # evs) =
     (if ne_enabled s ev \<and> (reg \<longrightarrow> regular s ev)
      then Option.bind (ne_exec s ev) (\<lambda>s'. ne_run reg s' evs) else None)"

inductive ne_reach :: "native_event \<Rightarrow> native_event \<Rightarrow> bool" for s0 where
  ne_init: "ne_reach s0 s0"
| ne_step: "ne_reach s0 s \<Longrightarrow> ne_enabled s ev \<Longrightarrow> regular s ev \<Longrightarrow> ne_exec s ev = Some s' \<Longrightarrow>
     ne_reach s0 s'"

lemma Cancel_total:
  assumes "ne_inv s" and "\<not> called s"
  shows "CancelEvent name h s \<noteq> None"
proof -
  have "cancel_scan (callback_wrappers s) h (queue (base s)) \<noteq> None"
    using assms by (intro cancel_scan_total) (auto simp: ne_inv_def ledger_def pend_def)
  then show ?thesis by (auto simp: CancelEvent_def UvCancelEvent_def split: option.splits)
qed

lemma step_ne_inv:
  assumes "ne_inv s" and "ne_enabled s ev" and "regular s ev"
  shows "\<exists>s'. ne_exec s ev = Some s' \<and> ne_inv s'"
proof (cases ev)
  case (NeSend t name post alloc v ok)
  with assms Send_ne_inv [of s t name post alloc v] show ?thesis by simp
next
  case (NeCancel name h)
  with assms Cancel_total [of s name h] Cancel_ne_inv [of s h name] show ?thesis by fastforce
next
  case (NeRelease v ok)
  let ?s' = "s\<lparr>base := fst (Release True v ok 0 (base s))\<rparr>"
  have "pend ?s' = pend s" by (simp add: pend_def Release_queue)
  with NeRelease assms(1) show ?thesis by (simp add: ne_inv_def Release_inv Release_queue)
qed (use assms Call_ne_inv Return_ne_inv Async_ne_inv Close_ne_inv in blast)+

lemma ne_reach_inv [inv_intros]: "ne_reach s0 s \<Longrightarrow> ne_inv s0 \<Longrightarrow> ne_inv s"
proof (induction rule: ne_reach.induct)
  case ne_init
  then show ?case .
next
  case (ne_step s ev s')
  then show ?case using step_ne_inv [of s ev] by auto
qed

text \<open>The engine's default function on a thread without an event handler.\<close>

definition default_event :: "u64 \<Rightarrow> native_event" where
  "default_event eid = the (CreateDefaultFunction None eid False True True)"

lemma default_event_inv [inv_intros]: "ne_inv (default_event eid)"
proof -
  have e: "default_event eid = fst (event_Init True True (new_NativeEvent eid False))"
    by (simp add: default_event_def CreateDefaultFunction_def event_Init_def tsfn_Init_def)
  have "tsfn_created (base (default_event eid))"
    by (simp add: e event_Init_def new_NativeEvent_def tsfn_created_def tsfn_Init_def
        new_NativeSafeAsyncWork_def)
  then have "tsfn_inv (base (default_event eid))" by (rule created_inv)
  then show ?thesis
    by (simp add: ne_inv_def e event_Init_def new_NativeEvent_def tsfn_Init_def
        new_NativeSafeAsyncWork_def ledger_def pend_def live_def)
qed

lemma ne_run_reach:
  assumes "ne_reach s0 s" and "ne_run True s evs = Some s'"
  shows "ne_reach s0 s'"
  using assms
  by (induction True s evs rule: ne_run.induct)
     (auto simp: bind_eq_Some_conv split: if_splits intro: ne_step)

section \<open>Properties\<close>


definition demo_ne :: native_event where
  "demo_ne = the (ne_run True (default_event 5)
    [NeSend 70 ''a'' True (Some 1) (True, 5) True,
     NeSend 71 ''a'' True (Some 2) (True, 5) True, NeSend 72 ''a'' True (Some 3) (True, 5) True,
     NeAsync True, NeCall, NeReturn True, NeCancel ''a'' 3])"

lemma demo_ne_reach: "ne_reach (default_event 5) demo_ne"
proof (rule ne_run_reach [OF ne_init])
  let ?evs = "[NeSend 70 ''a'' True (Some 1) (True, 5) True,
     NeSend 71 ''a'' True (Some 2) (True, 5) True, NeSend 72 ''a'' True (Some 3) (True, 5) True,
     NeAsync True, NeCall, NeReturn True, NeCancel ''a'' 3]"
  have "ne_run True (default_event 5) ?evs \<noteq> None" by code_simp
  then show "ne_run True (default_event 5) ?evs = Some demo_ne" by (auto simp: demo_ne_def)
qed


text \<open>
  Shutdown.  In every regular run each event that can happen has a defined outcome (no freed
  wrapper is read), and when the loop closes the default function the drain runs every event that
  was not cancelled: nothing is left waiting and every event sent was executed or cancelled.
\<close>

theorem event_shutdown_runs_rest:
  assumes "ne_reach (default_event eid) s"
  shows "(\<forall>ev. ne_enabled s ev \<longrightarrow> regular s ev \<longrightarrow> ne_exec s ev \<noteq> None) \<and>
    (ne_enabled s NeClose \<longrightarrow> (\<exists>s'. ne_exec s NeClose = Some s' \<and> requestWaiting s' = 0 \<and>
      mset (sent s') = mset (map fst (executed s')) + mset (cancelled s')))"
proof (intro conjI allI impI)
  have inv: "ne_inv s" using ne_reach_inv [OF assms default_event_inv] .
  show "ne_exec s ev \<noteq> None" if "ne_enabled s ev" "regular s ev" for ev
    using step_ne_inv [OF inv that] by auto
  assume "ne_enabled s NeClose"
  from Close_ne_inv [OF inv this] show "\<exists>s'. ne_exec s NeClose = Some s' \<and> requestWaiting s' = 0 \<and>
      mset (sent s') = mset (map fst (executed s')) + mset (cancelled s')"
    by (auto simp: ne_inv_def ledger_def live_def)
qed

definition demo_stop :: native_event where
  "demo_stop = the (ne_run True (default_event 5)
    [NeSend 70 ''a'' True (Some 1) (True, 5) True,
     NeSend 71 ''a'' True (Some 2) (True, 5) True, NeCancel ''a'' 1,
     NeRelease (True, 5) True, NeAsync True])"

theorem event_shutdown_runs_rest_witness:
  "\<exists>s'. ne_exec demo_stop NeClose = Some s' \<and> requestWaiting s' = 0 \<and>
     mset (sent s') = mset (map fst (executed s')) + mset (cancelled s')"
proof -
  let ?evs = "[NeSend 70 ''a'' True (Some 1) (True, 5) True,
     NeSend 71 ''a'' True (Some 2) (True, 5) True, NeCancel ''a'' 1,
     NeRelease (True, 5) True, NeAsync True]"
  have "ne_run True (default_event 5) ?evs \<noteq> None" by code_simp
  then have "ne_run True (default_event 5) ?evs = Some demo_stop" by (auto simp: demo_stop_def)
  then have r: "ne_reach (default_event 5) demo_stop" by (rule ne_run_reach [OF ne_init])
  have "ne_enabled demo_stop NeClose" by code_simp
  with event_shutdown_runs_rest [OF r] show ?thesis by blast
qed

text \<open>
  when \<open>uv_async_send\<close> fails, the wrapper is freed although \<open>Send\<close> left it in the queue: the
  next turn of the loop (started by any later event) calls back with the freed pointer, which the
  model shows as an undefined step.  The same run with the send accepted is fine.
\<close>

theorem event_failed_send_dangles:
  "ne_run False (default_event 5)
     [NeSend 70 ''a'' True (Some 1) (True, 5) False, NeSend 71 ''a'' True (Some 2) (True, 5) True,
      NeAsync True] \<noteq> None \<and>
   ne_run False (default_event 5)
     [NeSend 70 ''a'' True (Some 1) (True, 5) False, NeSend 71 ''a'' True (Some 2) (True, 5) True,
      NeAsync True, NeCall] = None \<and>
   ne_enabled (the (ne_run False (default_event 5)
     [NeSend 70 ''a'' True (Some 1) (True, 5) False, NeSend 71 ''a'' True (Some 2) (True, 5) True,
      NeAsync True])) NeCall \<and>
   ne_run False (default_event 5)
     [NeSend 70 ''a'' True (Some 1) (True, 5) True, NeSend 71 ''a'' True (Some 2) (True, 5) True,
      NeAsync True, NeCall] \<noteq> None"
  by code_simp

text \<open>
  a cancellation that comes between the end of a callback and the pop of its datum reads the
  wrapper the callback freed; one that comes before the callback or after the pop does not.
\<close>

theorem event_cancel_reads_freed:
  "ne_run False (default_event 5)
     [NeSend 70 ''a'' True (Some 1) (True, 5) True, NeSend 71 ''a'' True (Some 2) (True, 5) True,
      NeAsync True, NeCall, NeCancel ''a'' 2] = None \<and>
   ne_enabled (the (ne_run False (default_event 5)
     [NeSend 70 ''a'' True (Some 1) (True, 5) True, NeSend 71 ''a'' True (Some 2) (True, 5) True,
      NeAsync True, NeCall])) (NeCancel ''a'' 2) \<and>
   ne_run False (default_event 5)
     [NeSend 70 ''a'' True (Some 1) (True, 5) True, NeSend 71 ''a'' True (Some 2) (True, 5) True,
      NeAsync True, NeCall, NeReturn True, NeCancel ''a'' 2] \<noteq> None"
  by code_simp

text \<open>
  cancelling the invalid identifier matches any event already cancelled, succeeds, and takes a
  second request off the waiting counter, which ends below zero.
\<close>

theorem event_cancel_invalid_id_underflow:
  "map_option (\<lambda>s. (requestWaiting s, length (queue (base s))))
     (ne_run False (default_event 5)
       [NeSend 70 ''a'' True (Some 1) (True, 5) True, NeCancel ''a'' 1,
        NeCancel ''a'' INVALID_EVENT_ID]) = Some (- 1, 1)"
  by code_simp

text \<open>
  Identifiers.  From a sequence in the valid range, an identifier is never zero or the invalid
  one, the sequence stays in the range, and it is the successor of the identifier unless it
  restarted; at the restart the identifier 1 is handed out twice in a row.
\<close>

theorem event_ids_valid:
  assumes "1 \<le> sequence s" and "sequence s < INVALID_EVENT_ID"
  shows "snd (GenerateUniqueID s) \<noteq> 0 \<and> snd (GenerateUniqueID s) \<noteq> INVALID_EVENT_ID \<and>
    1 \<le> sequence (fst (GenerateUniqueID s)) \<and> sequence (fst (GenerateUniqueID s)) < INVALID_EVENT_ID \<and>
    (sequence s \<noteq> INVALID_EVENT_ID - 1 \<longrightarrow> snd (GenerateUniqueID s) = sequence s \<and>
       sequence (fst (GenerateUniqueID s)) = sequence s + 1) \<and>
    (sequence s = INVALID_EVENT_ID - 1 \<longrightarrow>
       snd (GenerateUniqueID s) = 1 \<and> snd (GenerateUniqueID (fst (GenerateUniqueID s))) = 1)"
proof -
  have i: "INVALID_EVENT_ID - 1 = 18446744073709551614" "INVALID_EVENT_ID = 18446744073709551615"
    "(1::u64) < 18446744073709551615" "(1::u64) \<noteq> 18446744073709551615" "(1::u64) \<noteq> 18446744073709551614"
    by code_simp+
  show ?thesis
  proof (cases "sequence s = INVALID_EVENT_ID - 1")
    case True
    with i show ?thesis by (simp add: GenerateUniqueID_def Let_def)
  next
    case False
    have n: "unat (sequence s) < 18446744073709551615"
      using assms(2) unfolding i by (simp add: word_less_nat_alt)
    have "sequence s \<noteq> 18446744073709551614" using False by (simp only: i(1) not_False_eq_True)
    then have "unat (sequence s) \<noteq> unat (18446744073709551614 :: u64)"
      by (simp only: word_unat_eq_iff not_False_eq_True)
    then have n2: "unat (sequence s) \<noteq> 18446744073709551614" by simp
    have "sequence s + 1 < INVALID_EVENT_ID" "1 \<le> sequence s + 1"
      using n n2 unfolding i by (simp_all add: word_less_nat_alt word_le_nat_alt unat_word_ariths)
    moreover have "sequence s \<noteq> 0" using assms(1) by auto
    ultimately show ?thesis using assms False by (auto simp: GenerateUniqueID_def Let_def)
  qed
qed

theorem event_ids_valid_witness:
  "snd (GenerateUniqueID (default_event 5)) \<noteq> 0 \<and>
   1 \<le> sequence (fst (GenerateUniqueID (default_event 5)))"
proof -
  have "1 \<le> sequence (default_event 5)" "sequence (default_event 5) < INVALID_EVENT_ID" by code_simp+
  from event_ids_valid [OF this] show ?thesis by blast
qed

text \<open>
  task names on the event handler are not unique: the name is the caller's name followed by the
  decimal identifier, so cancelling event 12 of ''a'' removes event 2 of ''a1'' as well.
\<close>

theorem event_handler_name_collision:
  "task_name ''a1'' 2 = task_name ''a'' 12 \<and>
   map_option (\<lambda>r. (handler_tasks (fst r), snd r))
     (CancelEvent ''a'' 12 ((new_NativeEvent 5 True)\<lparr>handler_tasks := [(task_name ''a1'' 2, 2, 70)]\<rparr>))
   = Some ([], napi_ok)"
  by code_simp

end
