(* ===== verification/Engine_Hooks.thy ===== *)
theory Engine_Hooks
  imports Napi_Prelude "HOL-Library.AList" "HOL-Library.Sublist"
begin

text \<open>
  The two registries of clean-up functions an engine keeps (native\_engine/native\_engine.cpp): the
  clean-up hooks of \<open>napi_add_env_cleanup_hook\<close> and the instance finalizers, each an unordered map
  from the user's data pointer to a function and a counter; and the engine's instance data.

  A registry is an association list with distinct keys (the iteration order of the map is not
  relied on: every pass sorts by the counter).  A function runs as \<open>body fun arg\<close>, an arbitrary
  change of the engine that a parameter gives, since a hook may add and remove hooks.  A turn of
  the event loop (libuv) is the parameter \<open>uv_once\<close>.
\<close>

section \<open>State\<close>

type_synonym cb = nat
type_synonym hook_entry = "addr \<times> cb option \<times> u64"

text \<open>\<open>run_log\<close> is a ghost: the calls made, in order.\<close>

record instance_data =
  i_engine :: bool
  i_callback :: "cb option"
  i_nativeObject :: "addr option"
  i_hint :: "addr option"

record engine =
  cleanupHooks :: "hook_entry list"
  cleanupHookCounter :: u64
  instanceFinalizer :: "hook_entry list"
  instanceFinalizerCounter :: u64
  instanceDataInfo :: instance_data
  loop_present :: bool
  requestWaiting :: int
  inDestructor :: bool
  run_log :: "(cb \<times> addr) list"
  data_log :: "(cb \<times> addr option \<times> addr option) list"

definition no_data :: instance_data where
  "no_data = \<lparr>i_engine = False, i_callback = None, i_nativeObject = None, i_hint = None\<rparr>"

definition init_engine_core :: "bool \<Rightarrow> engine" where
  "init_engine_core loop = \<lparr>cleanupHooks = [], cleanupHookCounter = 0, instanceFinalizer = [],
     instanceFinalizerCounter = 0, instanceDataInfo = no_data, loop_present = loop,
     requestWaiting = 0, inDestructor = False, run_log = [], data_log = []\<rparr>"

section \<open>Registration\<close>

text \<open>The counter moves before the insertion is tried, so also when the key is taken.\<close>

definition AddCleanupHook :: "cb option \<Rightarrow> addr \<Rightarrow> engine \<Rightarrow> engine \<times> napi_status" where
  "AddCleanupHook f a e =
     (let n = cleanupHookCounter e; e1 = e\<lparr>cleanupHookCounter := n + 1\<rparr>
      in if map_of (cleanupHooks e1) a = None
         then (e1\<lparr>cleanupHooks := (a, f, n) # cleanupHooks e1\<rparr>, napi_ok)
         else (e1, napi_generic_failure))"

definition RemoveCleanupHook :: "cb option \<Rightarrow> addr \<Rightarrow> engine \<Rightarrow> engine \<times> napi_status" where
  "RemoveCleanupHook f a e =
     (case map_of (cleanupHooks e) a of
        None \<Rightarrow> (e, napi_generic_failure)
      | Some (g, n) \<Rightarrow> if g = f then (e\<lparr>cleanupHooks := AList.delete a (cleanupHooks e)\<rparr>, napi_ok)
                      else (e, napi_generic_failure))"

definition AddCleanupFinalizer :: "cb option \<Rightarrow> addr \<Rightarrow> engine \<Rightarrow> engine \<times> napi_status" where
  "AddCleanupFinalizer f a e =
     (let n = instanceFinalizerCounter e; e1 = e\<lparr>instanceFinalizerCounter := n + 1\<rparr>
      in if map_of (instanceFinalizer e1) a = None
         then (e1\<lparr>instanceFinalizer := (a, f, n) # instanceFinalizer e1\<rparr>, napi_ok)
         else (e1, napi_generic_failure))"

definition RemoveCleanupFinalizer :: "cb option \<Rightarrow> addr \<Rightarrow> engine \<Rightarrow> engine \<times> napi_status" where
  "RemoveCleanupFinalizer f a e =
     (case map_of (instanceFinalizer e) a of
        None \<Rightarrow> (e, napi_generic_failure)
      | Some (g, n) \<Rightarrow>
          if g = f then (e\<lparr>instanceFinalizer := AList.delete a (instanceFinalizer e)\<rparr>, napi_ok)
          else (e, napi_generic_failure))"

section \<open>Running\<close>

text \<open>The copy of the map, sorted so that the most recently inserted comes first.\<close>

definition snapshot :: "hook_entry list \<Rightarrow> hook_entry list" where
  "snapshot hs = rev (sort_key (\<lambda>h. snd (snd h)) hs)"

text \<open>The body of the loop over the copy, for the two registries.\<close>

definition run_hook :: "(cb \<Rightarrow> addr \<Rightarrow> engine \<Rightarrow> engine) \<Rightarrow> hook_entry \<Rightarrow> engine \<Rightarrow> engine" where
  "run_hook body h e =
     (let a = fst h
      in if map_of (cleanupHooks e) a = None then e
         else let e1 = (case fst (snd h) of
                          None \<Rightarrow> e
                        | Some f \<Rightarrow> body f a (e\<lparr>run_log := run_log e @ [(f, a)]\<rparr>))
              in e1\<lparr>cleanupHooks := AList.delete a (cleanupHooks e1)\<rparr>)"

definition run_finalizer_hook ::
    "(cb \<Rightarrow> addr \<Rightarrow> engine \<Rightarrow> engine) \<Rightarrow> hook_entry \<Rightarrow> engine \<Rightarrow> engine" where
  "run_finalizer_hook body h e =
     (let a = fst h
      in if map_of (instanceFinalizer e) a = None then e
         else let e1 = (case fst (snd h) of
                          None \<Rightarrow> e
                        | Some f \<Rightarrow> body f a (e\<lparr>run_log := run_log e @ [(f, a)]\<rparr>))
              in e1\<lparr>instanceFinalizer := AList.delete a (instanceFinalizer e1)\<rparr>)"

text \<open>Turns of the loop until no request is waiting; \<open>None\<close> is a wait that does not end.\<close>

partial_function (option) CleanupHandles :: "(engine \<Rightarrow> engine) \<Rightarrow> engine \<Rightarrow> engine option" where
  "CleanupHandles uv_once e =
     (if \<not> loop_present e then Some e
      else if requestWaiting e > 0 then CleanupHandles uv_once (uv_once e) else Some e)"

text \<open>Passes until the registry is empty; \<open>None\<close> when hooks keep registering hooks.\<close>

partial_function (option) RunCleanupHooks ::
    "(cb \<Rightarrow> addr \<Rightarrow> engine \<Rightarrow> engine) \<Rightarrow> (engine \<Rightarrow> engine) \<Rightarrow> bool \<Rightarrow> engine \<Rightarrow> engine option" where
  "RunCleanupHooks body uv_once waitTasks e =
     (if cleanupHooks e = [] then Some e
      else let e1 = fold (run_hook body) (snapshot (cleanupHooks e)) e
           in if waitTasks
              then Option.bind (CleanupHandles uv_once e1) (RunCleanupHooks body uv_once waitTasks)
              else RunCleanupHooks body uv_once waitTasks e1)"

partial_function (option) RunInstanceFinalizer ::
    "(cb \<Rightarrow> addr \<Rightarrow> engine \<Rightarrow> engine) \<Rightarrow> engine \<Rightarrow> engine option" where
  "RunInstanceFinalizer body e =
     (if instanceFinalizer e = [] then Some e
      else RunInstanceFinalizer body
             (fold (run_finalizer_hook body) (snapshot (instanceFinalizer e)) e))"

text \<open>
  \<open>RunCleanup\<close> up to the closing of the loop's handles, which is libuv's work: the parameter
  \<open>uv_close_all\<close> is what the last turns of the loop change.
\<close>

definition RunCleanup ::
    "(cb \<Rightarrow> addr \<Rightarrow> engine \<Rightarrow> engine) \<Rightarrow> (engine \<Rightarrow> engine) \<Rightarrow> (engine \<Rightarrow> engine) \<Rightarrow> engine \<Rightarrow>
     engine option" where
  "RunCleanup body uv_once uv_close_all e =
     Option.bind (CleanupHandles uv_once e) (\<lambda>e1.
     Option.bind (RunCleanupHooks body uv_once True e1) (\<lambda>e2.
       Some (if \<not> loop_present e2 then e2 else uv_close_all e2)))"

section \<open>Instance data\<close>

definition FinalizerInstanceData :: "engine \<Rightarrow> engine" where
  "FinalizerInstanceData e =
     (let i = instanceDataInfo e;
          e1 = (if i_engine i
                then (case i_callback i of
                        None \<Rightarrow> e
                      | Some f \<Rightarrow> e\<lparr>data_log := data_log e @ [(f, i_nativeObject i, i_hint i)]\<rparr>)
                else e)
      in e1\<lparr>instanceDataInfo := no_data\<rparr>)"

definition SetInstanceData :: "addr option \<Rightarrow> cb option \<Rightarrow> addr option \<Rightarrow> engine \<Rightarrow> engine" where
  "SetInstanceData data finalize_cb hint e =
     (FinalizerInstanceData e)\<lparr>instanceDataInfo :=
       \<lparr>i_engine = True, i_callback = finalize_cb, i_nativeObject = data, i_hint = hint\<rparr>\<rparr>"

definition GetInstanceData :: "engine \<Rightarrow> addr option" where
  "GetInstanceData e = i_nativeObject (instanceDataInfo e)"

text \<open>The destructor, after \<open>cleanEnv_\<close>: the instance data, then the instance finalizers.\<close>

definition destroy_NativeEngine ::
    "(cb \<Rightarrow> addr \<Rightarrow> engine \<Rightarrow> engine) \<Rightarrow> engine \<Rightarrow> engine option" where
  "destroy_NativeEngine body e =
     RunInstanceFinalizer body (FinalizerInstanceData (e\<lparr>inDestructor := True\<rparr>))"

section \<open>The contract of a registry\<close>

text \<open>
  Both registries keep one function per data pointer, accept it once, and give it back only to
  who names the same function.  \<open>entries\<close> is the registry, \<open>counter\<close> its next number.
\<close>

definition reg_ok :: "hook_entry list \<Rightarrow> nat \<Rightarrow> bool" where
  "reg_ok hs n \<longleftrightarrow> distinct (map fst hs) \<and> sorted_wrt (>) (map (\<lambda>h. unat (snd (snd h))) hs) \<and>
     (\<forall>h\<in>set hs. unat (snd (snd h)) < n)"

locale hook_registry =
  fixes entries :: "'s \<Rightarrow> hook_entry list"
    and counter :: "'s \<Rightarrow> u64"
    and add :: "cb option \<Rightarrow> addr \<Rightarrow> 's \<Rightarrow> 's \<times> napi_status"
    and remove :: "cb option \<Rightarrow> addr \<Rightarrow> 's \<Rightarrow> 's \<times> napi_status"
  assumes entries_add: "entries (fst (add f a s)) =
      (if map_of (entries s) a = None then (a, f, counter s) # entries s else entries s)"
    and status_add: "snd (add f a s) =
      (if map_of (entries s) a = None then napi_ok else napi_generic_failure)"
    and counter_add: "counter (fst (add f a s)) = counter s + 1"
    and entries_remove: "entries (fst (remove f a s)) =
      (if map_option fst (map_of (entries s) a) = Some f then AList.delete a (entries s) else entries s)"
    and status_remove: "snd (remove f a s) =
      (if map_option fst (map_of (entries s) a) = Some f then napi_ok else napi_generic_failure)"
    and counter_remove: "counter (fst (remove f a s)) = counter s"
begin

lemma add_remove:
  assumes "map_of (entries s) a = None"
  shows "snd (remove f a (fst (add f a s))) = napi_ok \<and>
    entries (fst (remove f a (fst (add f a s)))) = entries s"
proof -
  have "AList.delete a (entries s) = entries s"
    using assms by (intro delete_id) (auto simp: map_of_eq_None_iff)
  then show ?thesis using assms by (simp add: entries_remove status_remove entries_add)
qed

lemma add_twice: "snd (add g a (fst (add f a s))) = napi_generic_failure \<and>
    entries (fst (add g a (fst (add f a s)))) = entries (fst (add f a s))"
  by (auto simp: status_add entries_add)

lemma add_ok:
  assumes "reg_ok (entries s) (unat (counter s))" and "unat (counter s) + 1 < 2 ^ 64"
  shows "reg_ok (entries (fst (add f a s))) (unat (counter (fst (add f a s))))"
proof -
  have "unat (counter s + 1) = unat (counter s) + 1"
    using assms(2) by (simp add: unat_word_ariths)
  with assms(1) show ?thesis
    by (auto simp: reg_ok_def entries_add counter_add map_of_eq_None_iff)
qed

end

interpretation cleanup: hook_registry cleanupHooks cleanupHookCounter AddCleanupHook RemoveCleanupHook
  by unfold_locales
    (auto simp: AddCleanupHook_def RemoveCleanupHook_def Let_def split: option.splits prod.splits)

interpretation finalizers: hook_registry instanceFinalizer instanceFinalizerCounter
    AddCleanupFinalizer RemoveCleanupFinalizer
  by unfold_locales
    (auto simp: AddCleanupFinalizer_def RemoveCleanupFinalizer_def Let_def
      split: option.splits prod.splits)

section \<open>Order and number of calls\<close>

lemma insort_key_last:
  "\<forall>x\<in>set xs. f x < f a \<Longrightarrow> insort_key f a xs = xs @ [a]"
  by (induction xs) (auto simp: not_le dest: leD)

lemma keys_delete: "fst ` set (AList.delete a xs) = fst ` set xs - {a}"
  by (induction xs) auto

text \<open>New entries come first and counters grow, so a pass runs the registry front to back.\<close>

lemma snapshot_id:
  assumes "reg_ok hs n"
  shows "snapshot hs = hs"
proof -
  have "sorted_wrt (>) (map (\<lambda>h. unat (snd (snd h))) hs) \<Longrightarrow>
      sort_key (\<lambda>h. snd (snd h)) hs = rev hs" for hs :: "hook_entry list"
  proof (induction hs)
    case (Cons h hs)
    have "insort_key (\<lambda>h. snd (snd h)) h (rev hs) = rev hs @ [h]"
      by (rule insort_key_last) (use Cons.prems in \<open>auto simp: word_less_nat_alt\<close>)
    with Cons show ?case by simp
  qed simp
  with assms show ?thesis by (simp add: snapshot_def reg_ok_def)
qed

text \<open>The calls a registry stands for, newest first.\<close>

definition hook_calls :: "hook_entry list \<Rightarrow> (cb \<times> addr) list" where
  "hook_calls hs = concat (map (\<lambda>h. case fst (snd h) of None \<Rightarrow> [] | Some f \<Rightarrow> [(f, fst h)]) hs)"

lemma hook_calls_simps [simp]:
  "hook_calls [] = []"
  "hook_calls ((a, None, n) # hs) = hook_calls hs"
  "hook_calls ((a, Some f, n) # hs) = (f, a) # hook_calls hs"
  by (simp_all add: hook_calls_def)

text \<open>Hooks that leave the engine alone, and hooks that at most remove other hooks.\<close>

definition no_effect :: "(cb \<Rightarrow> addr \<Rightarrow> engine \<Rightarrow> engine) \<Rightarrow> bool" where
  "no_effect body \<longleftrightarrow> (\<forall>f a e. body f a e = e)"

definition removing :: "(cb \<Rightarrow> addr \<Rightarrow> engine \<Rightarrow> engine) \<Rightarrow> bool" where
  "removing body \<longleftrightarrow> (\<forall>f a e. fst ` set (cleanupHooks (body f a e)) \<subseteq> fst ` set (cleanupHooks e) \<and>
     run_log (body f a e) = run_log e \<and> requestWaiting (body f a e) = requestWaiting e \<and>
     loop_present (body f a e) = loop_present e)"

lemma fold_passive:
  assumes "no_effect body"
  shows "distinct (map fst (cleanupHooks e)) \<Longrightarrow>
    fold (run_hook body) (cleanupHooks e) e =
      e\<lparr>cleanupHooks := [], run_log := run_log e @ hook_calls (cleanupHooks e)\<rparr>"
proof (induction "cleanupHooks e" arbitrary: e)
  case Nil
  then show ?case by simp
next
  case (Cons h hs)
  obtain a f n where h: "h = (a, f, n)" by (cases h)
  have hs: "cleanupHooks e = (a, f, n) # hs" using Cons.hyps(2) h by simp
  let ?e1 = "e\<lparr>cleanupHooks := hs, run_log := run_log e @ hook_calls [h]\<rparr>"
  have "AList.delete a hs = hs"
    using Cons.prems hs by (intro delete_id) auto
  then have "run_hook body h e = ?e1"
    using assms hs h by (cases f) (simp_all add: run_hook_def no_effect_def)
  moreover have "fold (run_hook body) hs ?e1 =
      ?e1\<lparr>cleanupHooks := [], run_log := run_log ?e1 @ hook_calls hs\<rparr>"
    using Cons.hyps(1) [of ?e1] Cons.prems hs by simp
  ultimately show ?case using hs h by (cases f) simp_all
qed

lemma run_hook_removing:
  assumes "removing body"
  shows "fst ` set (cleanupHooks (run_hook body h e)) \<subseteq> fst ` set (cleanupHooks e) - {fst h} \<and>
    requestWaiting (run_hook body h e) = requestWaiting e \<and>
    loop_present (run_hook body h e) = loop_present e \<and>
    (run_log (run_hook body h e) = run_log e \<or> run_log (run_hook body h e) = run_log e @ hook_calls [h])"
proof (cases "map_of (cleanupHooks e) (fst h) = None")
  case True
  then have "fst h \<notin> fst ` set (cleanupHooks e)" by (simp add: map_of_eq_None_iff)
  with True show ?thesis by (auto simp: run_hook_def)
next
  case False
  show ?thesis
  proof (cases "fst (snd h)")
    case None
    with False show ?thesis by (auto simp: run_hook_def Let_def keys_delete)
  next
    case (Some f)
    let ?e1 = "body f (fst h) (e\<lparr>run_log := run_log e @ [(f, fst h)]\<rparr>)"
    have b: "fst ` set (cleanupHooks ?e1) \<subseteq> fst ` set (cleanupHooks e)"
      "run_log ?e1 = run_log e @ [(f, fst h)]" "requestWaiting ?e1 = requestWaiting e"
      "loop_present ?e1 = loop_present e"
      using assms [unfolded removing_def, rule_format, of f "fst h" "e\<lparr>run_log := run_log e @ [(f, fst h)]\<rparr>"]
      by simp_all
    have "run_hook body h e = ?e1\<lparr>cleanupHooks := AList.delete (fst h) (cleanupHooks ?e1)\<rparr>"
      using False Some by (auto simp: run_hook_def Let_def)
    moreover have "hook_calls [h] = [(f, fst h)]" using Some by (simp add: hook_calls_def)
    ultimately show ?thesis using b by (simp add: keys_delete) blast
  qed
qed

lemma fold_removing:
  assumes "removing body"
  shows "fst ` set (cleanupHooks e) \<subseteq> fst ` set hs \<Longrightarrow>
    cleanupHooks (fold (run_hook body) hs e) = [] \<and>
    requestWaiting (fold (run_hook body) hs e) = requestWaiting e \<and>
    loop_present (fold (run_hook body) hs e) = loop_present e \<and>
    (\<exists>l. run_log (fold (run_hook body) hs e) = run_log e @ l \<and> subseq l (hook_calls hs))"
proof (induction hs arbitrary: e)
  case Nil
  then show ?case by auto
next
  case (Cons h hs)
  note r = run_hook_removing [OF assms, of h e]
  let ?e1 = "run_hook body h e"
  have "fst ` set (cleanupHooks ?e1) \<subseteq> fst ` set (cleanupHooks e) - {fst h}" using r by blast
  also have "\<dots> \<subseteq> fst ` set hs" using Cons.prems by auto
  finally have "fst ` set (cleanupHooks ?e1) \<subseteq> fst ` set hs" .
  from Cons.IH [OF this] obtain l where f: "cleanupHooks (fold (run_hook body) hs ?e1) = []"
    "requestWaiting (fold (run_hook body) hs ?e1) = requestWaiting e"
    "loop_present (fold (run_hook body) hs ?e1) = loop_present e"
    "run_log (fold (run_hook body) hs ?e1) = run_log ?e1 @ l" "subseq l (hook_calls hs)"
    using r by auto
  have hc: "hook_calls (h # hs) = hook_calls [h] @ hook_calls hs" by (simp add: hook_calls_def)
  have "\<exists>l'. run_log ?e1 @ l = run_log e @ l' \<and> subseq l' (hook_calls (h # hs))"
  proof (cases "run_log ?e1 = run_log e")
    case True
    with f(5) show ?thesis by (auto simp: hc)
  next
    case False
    with r have "run_log ?e1 = run_log e @ hook_calls [h]" by blast
    with f(5) show ?thesis by (auto simp: hc intro!: exI [of _ "hook_calls [h] @ l"] list_emb_append_mono)
  qed
  with f show ?case by simp
qed

lemma handles_idle: "requestWaiting e \<le> 0 \<Longrightarrow> CleanupHandles uv e = Some e"
  by (subst CleanupHandles.simps) simp

lemma handles_end:
  assumes "\<And>e. loop_present e \<Longrightarrow> requestWaiting e > 0 \<Longrightarrow>
      requestWaiting (uv e) < requestWaiting e \<and> loop_present (uv e)"
  shows "loop_present e \<Longrightarrow> \<exists>e'. CleanupHandles uv e = Some e' \<and> requestWaiting e' \<le> 0"
proof (induction "nat (requestWaiting e)" arbitrary: e rule: less_induct)
  case less
  show ?case
  proof (cases "requestWaiting e > 0")
    case True
    from assms [OF less.prems True] less.hyps [of "uv e"] True
    obtain e' where "CleanupHandles uv (uv e) = Some e'" "requestWaiting e' \<le> 0" by auto
    with less.prems True show ?thesis by (subst CleanupHandles.simps) simp
  next
    case False
    with handles_idle [of e uv] show ?thesis by auto
  qed
qed

lemma run_one_pass:
  assumes "cleanupHooks e \<noteq> []"
    and "cleanupHooks (fold (run_hook body) (snapshot (cleanupHooks e)) e) = []"
    and "requestWaiting (fold (run_hook body) (snapshot (cleanupHooks e)) e) \<le> 0"
  shows "RunCleanupHooks body uv w e = Some (fold (run_hook body) (snapshot (cleanupHooks e)) e)"
proof -
  let ?F = "fold (run_hook body) (snapshot (cleanupHooks e)) e"
  have "RunCleanupHooks body uv w ?F = Some ?F"
    by (subst RunCleanupHooks.simps) (simp add: assms(2))
  with assms(1,3) show ?thesis
    by (cases w; subst RunCleanupHooks.simps) (simp_all add: handles_idle Let_def)
qed

lemma finalize_data:
  "data_log (FinalizerInstanceData e) = data_log e @
     (if i_engine (instanceDataInfo e)
      then (case i_callback (instanceDataInfo e) of None \<Rightarrow> []
            | Some f \<Rightarrow> [(f, i_nativeObject (instanceDataInfo e), i_hint (instanceDataInfo e))])
      else [])"
  by (simp add: FinalizerInstanceData_def Let_def split: option.splits)

section \<open>Properties\<close>

text \<open>A registry that some additions filled.\<close>

definition add_hooks :: "(cb option \<times> addr) list \<Rightarrow> engine \<Rightarrow> engine" where
  "add_hooks hs e = fold (\<lambda>h e. fst (AddCleanupHook (fst h) (snd h) e)) hs e"

lemma AddCleanupHook_frame [simp]:
  "run_log (fst (AddCleanupHook f a e)) = run_log e"
  "requestWaiting (fst (AddCleanupHook f a e)) = requestWaiting e"
  by (simp_all add: AddCleanupHook_def Let_def)

lemma add_hooks_reg:
  assumes "distinct (map snd hs)" and "length hs < 2 ^ 64"
  shows "reg_ok (cleanupHooks (add_hooks hs (init_engine_core b))) (unat (cleanupHookCounter (add_hooks hs (init_engine_core b)))) \<and>
    map (\<lambda>h. (fst (snd h), fst h)) (cleanupHooks (add_hooks hs (init_engine_core b))) = rev hs \<and>
    unat (cleanupHookCounter (add_hooks hs (init_engine_core b))) = length hs \<and>
    run_log (add_hooks hs (init_engine_core b)) = [] \<and>
    requestWaiting (add_hooks hs (init_engine_core b)) = 0"
  using assms
proof (induction hs rule: rev_induct)
  case Nil
  then show ?case by (simp add: add_hooks_def init_engine_core_def reg_ok_def)
next
  case (snoc h hs)
  let ?e = "add_hooks hs (init_engine_core b)"
  have IH: "reg_ok (cleanupHooks ?e) (unat (cleanupHookCounter ?e))"
    "map (\<lambda>h. (fst (snd h), fst h)) (cleanupHooks ?e) = rev hs"
    "unat (cleanupHookCounter ?e) = length hs" "run_log ?e = []" "requestWaiting ?e = 0"
    using snoc.IH snoc.prems by auto
  have "map fst (cleanupHooks ?e) = map snd (map (\<lambda>h. (fst (snd h), fst h)) (cleanupHooks ?e))"
    by simp
  also have "\<dots> = rev (map snd hs)" by (simp only: IH(2) rev_map)
  finally have keys: "map fst (cleanupHooks ?e) = rev (map snd hs)" .
  then have "set (map fst (cleanupHooks ?e)) = set (rev (map snd hs))" by (rule arg_cong)
  then have "snd h \<notin> fst ` set (cleanupHooks ?e)" using snoc.prems(1) by simp
  then have new: "map_of (cleanupHooks ?e) (snd h) = None" by (simp add: map_of_eq_None_iff)
  have e: "add_hooks (hs @ [h]) (init_engine_core b) = fst (AddCleanupHook (fst h) (snd h) ?e)"
    by (simp add: add_hooks_def)
  have c: "unat (cleanupHookCounter ?e + 1) = length hs + 1"
    using snoc.prems(2) IH(3) by (simp add: unat_word_ariths)
  have "reg_ok (cleanupHooks (fst (AddCleanupHook (fst h) (snd h) ?e)))
      (unat (cleanupHookCounter (fst (AddCleanupHook (fst h) (snd h) ?e))))"
    by (rule cleanup.add_ok [OF IH(1)]) (use IH(3) snoc.prems(2) in simp)
  with e new IH c show ?case
    by (cases h) (simp add: cleanup.entries_add cleanup.counter_add)
qed



text \<open>
  Hooks that remove other hooks.  When a running hook may remove hooks (but adds none), the run
  still ends after one pass with an empty registry, and the calls made are a part, in order, of
  the calls newest first: no hook is called twice, out of order, or after it was removed.
\<close>

theorem cleanup_hooks_removal:
  assumes "removing body" and "reg_ok (cleanupHooks e) n" and "requestWaiting e \<le> 0"
  shows "\<exists>e' l. RunCleanupHooks body uv w e = Some e' \<and> cleanupHooks e' = [] \<and>
    run_log e' = run_log e @ l \<and> subseq l (hook_calls (cleanupHooks e))"
proof (cases "cleanupHooks e = []")
  case True
  then show ?thesis by (subst RunCleanupHooks.simps) simp
next
  case False
  note f = fold_removing [OF assms(1), of e "cleanupHooks e"]
  have "RunCleanupHooks body uv w e = Some (fold (run_hook body) (snapshot (cleanupHooks e)) e)"
    by (rule run_one_pass) (use False f assms(3) snapshot_id [OF assms(2)] in simp_all)
  with f snapshot_id [OF assms(2)] show ?thesis by auto
qed

definition demo_hooks :: engine where
  "demo_hooks = add_hooks [(Some 1, 10), (Some 2, 20), (Some 3, 30)] (init_engine_core False)"

text \<open>The hook 3 removes the hook 2.\<close>

definition demo_body :: "cb \<Rightarrow> addr \<Rightarrow> engine \<Rightarrow> engine" where
  "demo_body f a e = (if f = 3 then fst (RemoveCleanupHook (Some 2) 20 e) else e)"

theorem cleanup_hooks_removal_witness:
  "\<exists>e' l. RunCleanupHooks demo_body id True demo_hooks = Some e' \<and> cleanupHooks e' = [] \<and>
    run_log e' = l \<and> subseq l [(3, 30), (2, 20), (1, 10)]"
proof -
  have r: "removing demo_body"
    by (auto simp: removing_def demo_body_def RemoveCleanupHook_def keys_delete
        split: option.splits prod.splits if_splits)
  have k: "reg_ok (cleanupHooks demo_hooks) 3" "requestWaiting demo_hooks \<le> 0" "run_log demo_hooks = []"
    "hook_calls (cleanupHooks demo_hooks) = [(3, 30), (2, 20), (1, 10)]"
    unfolding demo_hooks_def
    by (simp_all add: add_hooks_def AddCleanupHook_def init_engine_core_def reg_ok_def Let_def)
  show ?thesis using cleanup_hooks_removal [OF r k(1,2), of id True] k(3,4) by auto
qed

definition swap_body :: "cb \<Rightarrow> addr \<Rightarrow> engine \<Rightarrow> engine" where
  "swap_body f a e = (if f = 3
     then fst (AddCleanupHook (Some 9) 20 (fst (RemoveCleanupHook (Some 2) 20 e))) else e)"

text \<open>
  a hook registered again during the run.  The pass tests the data pointer only: when a hook
  removes another one and registers a new function for the same data, the pass calls the removed
  function, and then erases the new registration without ever calling it.
\<close>

theorem cleanup_hooks_stale_call:
  "run_log (fold (run_hook swap_body) (snapshot (cleanupHooks demo_hooks)) demo_hooks) =
     [(3, 30), (2, 20), (1, 10)] \<and>
   cleanupHooks (fold (run_hook swap_body) (snapshot (cleanupHooks demo_hooks)) demo_hooks) = [] \<and>
   snd (RemoveCleanupHook (Some 2) 20 demo_hooks) = napi_ok"
  by code_simp

text \<open>
  a clean-up hook and an instance finalizer are kept once per data pointer.  Adding a second
  function for the same data fails and changes nothing but the counter; removing what was just
  added restores the registry; the two registries have the same contract.
\<close>

theorem hook_added_once:
  "(map_of (cleanupHooks e) a = None \<longrightarrow>
      snd (AddCleanupHook f a e) = napi_ok \<and>
      snd (AddCleanupHook g a (fst (AddCleanupHook f a e))) = napi_generic_failure \<and>
      snd (RemoveCleanupHook f a (fst (AddCleanupHook f a e))) = napi_ok \<and>
      cleanupHooks (fst (RemoveCleanupHook f a (fst (AddCleanupHook f a e)))) = cleanupHooks e) \<and>
   (map_of (instanceFinalizer e) a = None \<longrightarrow>
      snd (AddCleanupFinalizer f a e) = napi_ok \<and>
      snd (AddCleanupFinalizer g a (fst (AddCleanupFinalizer f a e))) = napi_generic_failure \<and>
      snd (RemoveCleanupFinalizer f a (fst (AddCleanupFinalizer f a e))) = napi_ok \<and>
      instanceFinalizer (fst (RemoveCleanupFinalizer f a (fst (AddCleanupFinalizer f a e)))) =
        instanceFinalizer e)"
  using cleanup.add_remove [of e a f] cleanup.add_twice [of g a f e]
    finalizers.add_remove [of e a f] finalizers.add_twice [of g a f e]
  by (simp add: cleanup.status_add finalizers.status_add)

theorem hook_added_once_witness:
  "snd (AddCleanupHook (Some 4) 40 demo_hooks) = napi_ok \<and>
   cleanupHooks (fst (RemoveCleanupHook (Some 4) 40 (fst (AddCleanupHook (Some 4) 40 demo_hooks)))) =
     cleanupHooks demo_hooks"
proof -
  have "map_of (cleanupHooks demo_hooks) 40 = None" by code_simp
  with hook_added_once [of demo_hooks 40 "Some 4" None] show ?thesis by blast
qed

text \<open>
  waiting for requests.  When every turn of the loop completes at least one waiting request,
  \<open>CleanupHandles\<close> returns, and then none is waiting.
\<close>

theorem cleanup_handles_returns:
  assumes "\<And>e. loop_present e \<Longrightarrow> requestWaiting e > 0 \<Longrightarrow>
      requestWaiting (uv e) < requestWaiting e \<and> loop_present (uv e)"
    and "loop_present e"
  shows "\<exists>e'. CleanupHandles uv e = Some e' \<and> requestWaiting e' \<le> 0"
  using handles_end [OF assms(1) assms(2)] by blast

theorem cleanup_handles_returns_witness:
  "\<exists>e'. CleanupHandles (\<lambda>e. e\<lparr>requestWaiting := requestWaiting e - 1\<rparr>)
      ((init_engine_core True)\<lparr>requestWaiting := 3\<rparr>) = Some e' \<and> requestWaiting e' \<le> 0"
  by (rule cleanup_handles_returns) (simp_all add: init_engine_core_def)

text \<open>
  Instance data.  Over any sequence of \<open>SetInstanceData\<close> on a new engine, the data set last is the
  one returned, and when the engine is destroyed every data that was set with a finalizer has been
  finalized exactly once, in the order they were set.
\<close>

theorem instance_data_finalized_once:
  "(sets \<noteq> [] \<longrightarrow> GetInstanceData (fold (\<lambda>s. SetInstanceData (fst s) (fst (snd s)) (snd (snd s))) sets
      (init_engine_core b)) = fst (last sets)) \<and>
   data_log (FinalizerInstanceData (fold (\<lambda>s. SetInstanceData (fst s) (fst (snd s)) (snd (snd s))) sets
      (init_engine_core b))) =
     concat (map (\<lambda>s. case fst (snd s) of None \<Rightarrow> [] | Some f \<Rightarrow> [(f, fst s, snd (snd s))]) sets)"
proof (induction sets rule: rev_induct)
  case Nil
  then show ?case by (simp add: finalize_data) (simp add: init_engine_core_def no_data_def)
next
  case (snoc s sets)
  let ?e = "fold (\<lambda>s. SetInstanceData (fst s) (fst (snd s)) (snd (snd s))) sets (init_engine_core b)"
  have i: "instanceDataInfo (SetInstanceData d f h e) =
      \<lparr>i_engine = True, i_callback = f, i_nativeObject = d, i_hint = h\<rparr>"
    "data_log (SetInstanceData d f h e) = data_log (FinalizerInstanceData e)" for d f h e
    by (simp_all add: SetInstanceData_def)
  show ?case using snoc.IH
    by (simp add: finalize_data [of "SetInstanceData _ _ _ _"] i GetInstanceData_def split: option.splits)
qed

theorem instance_data_finalized_once_witness:
  "GetInstanceData (fold (\<lambda>s. SetInstanceData (fst s) (fst (snd s)) (snd (snd s)))
     [(Some 1, Some 7, None), (Some 2, None, None)] (init_engine_core True)) = Some 2"
  using instance_data_finalized_once [of "[(Some 1, Some 7, None), (Some 2, None, None)]" True] by simp

end
