(* ===== verification/Callback_Scope.thy ===== *)
theory Callback_Scope
  imports Napi_Prelude
begin

text \<open>
  Callback scopes (callback\_scope\_manager/native\_callback\_scope\_manager.cpp and .h), the async hook
  contexts that open them (native\_engine/native\_async\_hook\_context.h) and the entry points
  \<open>napi_open_callback_scope\<close>, \<open>napi_close_callback_scope\<close> and \<open>napi_make_callback\<close>
  (native\_engine/native\_node\_api.cpp).

  Scopes are heap objects; \<open>new (std::nothrow)\<close> returns an address that the parameter \<open>alloc\<close> gives,
  or null.  The counters are \<open>size_t\<close> and wrap.  A JS function that is called is a parameter that
  may change the whole state (it may open and close scopes itself); \<open>None\<close> is a result that is
  null.  The async hooks are empty functions in the header; \<open>hook_log\<close> records their calls.
\<close>

section \<open>Scopes and the manager\<close>

record cb_scope =
  closed :: bool
  failed :: bool
  asyncId :: nat
  skipHooks :: bool
  skipTaskQueues :: bool
  pushedIds :: bool

record scope_mgr =
  openCallbackScopes :: u64
  asyncCallbackScopeDepth :: u64

datatype hook_call = EmitBefore nat | EmitAfter nat | EmitDestroy nat

record make_call_env =
  callbackScopeManager :: "scope_mgr option"
  isStopping :: bool
  scopes :: "addr \<rightharpoonup> cb_scope"
  hook_log :: "hook_call list"

definition new_NativeCallbackScope :: "make_call_env \<Rightarrow> nat \<Rightarrow> bool \<Rightarrow> bool \<Rightarrow> make_call_env \<times> cb_scope" where
  "new_NativeCallbackScope e aid skip_hooks skip_queues =
     (if aid \<noteq> 0 \<and> \<not> skip_hooks then e\<lparr>hook_log := hook_log e @ [EmitBefore aid]\<rparr> else e,
      \<lparr>closed = False, failed = False, asyncId = aid, skipHooks = skip_hooks,
       skipTaskQueues = skip_queues, pushedIds = True\<rparr>)"

text \<open>\<open>NativeCallbackScope::Close\<close>; what follows its last test is not written yet in the source.\<close>

definition scope_Close :: "make_call_env \<Rightarrow> addr \<Rightarrow> make_call_env option" where
  "scope_Close e p = Option.bind (scopes e p) (\<lambda>s.
     if closed s then Some e
     else let s1 = s\<lparr>closed := True\<rparr>;
              s2 = (if isStopping e then s1\<lparr>failed := True\<rparr> else s1)
          in if isStopping e then Some (e\<lparr>scopes := (scopes e)(p \<mapsto> s2)\<rparr>)
             else let e1 = (if \<not> failed s2 \<and> asyncId s2 \<noteq> 0 \<and> \<not> skipHooks s2
                            then e\<lparr>hook_log := hook_log e @ [EmitAfter (asyncId s2)]\<rparr> else e)
                  in Some (e1\<lparr>scopes := (scopes e1)(p \<mapsto> s2\<lparr>pushedIds := False\<rparr>)\<rparr>))"

text \<open>\<open>delete scope\<close>: the destructor closes, then the memory is gone.\<close>

definition delete_scope :: "make_call_env \<Rightarrow> addr \<Rightarrow> make_call_env option" where
  "delete_scope e p = map_option (\<lambda>e1. e1\<lparr>scopes := (scopes e1)(p := None)\<rparr>) (scope_Close e p)"

definition mgr_Open ::
    "make_call_env \<Rightarrow> nat \<Rightarrow> addr option \<Rightarrow> make_call_env \<times> addr option" where
  "mgr_Open e aid alloc =
     (case alloc of
        None \<Rightarrow> (e, None)
      | Some p \<Rightarrow>
          let r = new_NativeCallbackScope e aid False False
          in ((fst r)\<lparr>scopes := (scopes (fst r))(p \<mapsto> snd r),
                callbackScopeManager := map_option (\<lambda>m. m\<lparr>asyncCallbackScopeDepth :=
                  asyncCallbackScopeDepth m + 1\<rparr>) (callbackScopeManager (fst r))\<rparr>, Some p))"

definition mgr_Close :: "make_call_env \<Rightarrow> addr option \<Rightarrow> make_call_env option" where
  "mgr_Close e scope =
     map_option (\<lambda>e1. e1\<lparr>callbackScopeManager := map_option (\<lambda>m. m\<lparr>asyncCallbackScopeDepth :=
         asyncCallbackScopeDepth m - 1\<rparr>) (callbackScopeManager e1)\<rparr>)
       (case scope of None \<Rightarrow> Some e | Some p \<Rightarrow> delete_scope e p)"

definition IncrementOpenCallbackScopes :: "make_call_env \<Rightarrow> make_call_env" where
  "IncrementOpenCallbackScopes e = e\<lparr>callbackScopeManager :=
     map_option (\<lambda>m. m\<lparr>openCallbackScopes := openCallbackScopes m + 1\<rparr>) (callbackScopeManager e)\<rparr>"

definition DecrementOpenCallbackScopes :: "make_call_env \<Rightarrow> make_call_env" where
  "DecrementOpenCallbackScopes e = e\<lparr>callbackScopeManager :=
     map_option (\<lambda>m. m\<lparr>openCallbackScopes := openCallbackScopes m - 1\<rparr>) (callbackScopeManager e)\<rparr>"

section \<open>Async hook contexts\<close>

datatype CallbackScopeCode = CALLBACK_SCOPE_OK | CALLBACK_SCOPE_INVALID_ARG | CALLBACK_SCOPE_MISMATCH

text \<open>
  A context has an identifier and a weak handle to its resource, which it creates anew when the
  collector has taken it (\<open>lostReference\<close>).
\<close>

record hook_context =
  c_asyncId :: nat
  lostReference :: bool

definition EnsureReference :: "hook_context \<Rightarrow> hook_context" where
  "EnsureReference c = (if lostReference c then c\<lparr>lostReference := False\<rparr> else c)"

definition OpenCallbackScope ::
    "make_call_env \<Rightarrow> hook_context \<Rightarrow> addr option \<Rightarrow> make_call_env \<times> hook_context \<times> addr option" where
  "OpenCallbackScope e c alloc =
     (let c1 = EnsureReference c
      in if callbackScopeManager e = None then (e, c1, None)
         else let r = mgr_Open e (c_asyncId c1) alloc
              in (IncrementOpenCallbackScopes (fst r), c1, snd r))"

definition CloseCallbackScope ::
    "make_call_env \<Rightarrow> addr option \<Rightarrow> (make_call_env \<times> CallbackScopeCode) option" where
  "CloseCallbackScope e scope =
     (case callbackScopeManager e of
        None \<Rightarrow> Some (e, CALLBACK_SCOPE_INVALID_ARG)
      | Some m \<Rightarrow>
          if openCallbackScopes m > 0
          then map_option (\<lambda>e1. (e1, CALLBACK_SCOPE_OK))
                 (mgr_Close (DecrementOpenCallbackScopes e) scope)
          else Some (e, CALLBACK_SCOPE_MISMATCH))"

section \<open>Calls\<close>

definition CloseScope :: "bool \<Rightarrow> make_call_env \<Rightarrow> addr option \<Rightarrow> make_call_env option" where
  "CloseScope has_context e scope =
     (if has_context then map_option fst (CloseCallbackScope e scope)
      else if callbackScopeManager e \<noteq> None then mgr_Close e scope else Some e)"

text \<open>
  \<open>InternalMakeCallback\<close> with a function to call: open a scope, call, mark the scope failed when
  the call failed, close it, and give it back.  \<open>None\<close> is a use of a scope that was freed, or of a
  null manager.
\<close>

definition mark_and_close :: "make_call_env \<Rightarrow> addr option \<Rightarrow> bool \<Rightarrow> make_call_env option" where
  "mark_and_close e scope is_null =
     (case scope of
        None \<Rightarrow> Some e
      | Some p \<Rightarrow> Option.bind (scopes e p) (\<lambda>s.
          scope_Close (if is_null then e\<lparr>scopes := (scopes e)(p \<mapsto> s\<lparr>failed := True\<rparr>)\<rparr> else e) p))"

definition open_for_call ::
    "make_call_env \<Rightarrow> hook_context option \<Rightarrow> addr option \<Rightarrow> (make_call_env \<times> addr option) option" where
  "open_for_call e ctx alloc =
     (case ctx of
        None \<Rightarrow> (if callbackScopeManager e = None then None else Some (mgr_Open e 0 alloc))
      | Some c \<Rightarrow> Some (fst (OpenCallbackScope e c alloc), snd (snd (OpenCallbackScope e c alloc))))"

definition InternalMakeCallback ::
    "(make_call_env \<Rightarrow> make_call_env \<times> nat option) \<Rightarrow> make_call_env \<Rightarrow> hook_context option \<Rightarrow> addr option \<Rightarrow>
     (make_call_env \<times> nat option) option" where
  "InternalMakeCallback call e ctx alloc =
     Option.bind (open_for_call e ctx alloc) (\<lambda>r.
       let c = call (fst r)
       in Option.bind (mark_and_close (fst c) (snd r) (snd c = None)) (\<lambda>e2.
            map_option (\<lambda>e3. (e3, snd c)) (CloseScope (ctx \<noteq> None) e2 (snd r))))"

text \<open>\<open>MakeCallback\<close> turns a null result into \<open>undefined\<close> (the value 0) outside every scope.\<close>

definition MakeCallback ::
    "(make_call_env \<Rightarrow> make_call_env \<times> nat option) \<Rightarrow> make_call_env \<Rightarrow> hook_context option \<Rightarrow> addr option \<Rightarrow>
     (make_call_env \<times> nat option) option" where
  "MakeCallback call e ctx alloc =
     Option.bind (InternalMakeCallback call e ctx alloc) (\<lambda>r.
       Option.bind (callbackScopeManager (fst r)) (\<lambda>m.
         Some (fst r, if snd r = None \<and> asyncCallbackScopeDepth m = 0 then Some 0 else snd r)))"

section \<open>Entry points\<close>

definition napi_open_callback_scope ::
    "make_call_env option \<Rightarrow> hook_context \<Rightarrow> bool \<Rightarrow> addr option \<Rightarrow>
     make_call_env option \<times> napi_status \<times> addr option" where
  "napi_open_callback_scope env ctx has_result alloc =
     (case env of
        None \<Rightarrow> (None, napi_invalid_arg, None)
      | Some e \<Rightarrow>
          if \<not> has_result then (Some e, napi_invalid_arg, None)
          else (Some (fst (OpenCallbackScope e ctx alloc)), napi_ok,
                snd (snd (OpenCallbackScope e ctx alloc))))"

definition napi_close_callback_scope ::
    "make_call_env option \<Rightarrow> addr option \<Rightarrow> (make_call_env option \<times> napi_status) option" where
  "napi_close_callback_scope env scope =
     (case env of
        None \<Rightarrow> Some (None, napi_invalid_arg)
      | Some e \<Rightarrow>
          if scope = None then Some (Some e, napi_invalid_arg)
          else map_option (\<lambda>r. (Some (fst r),
                 if snd r = CALLBACK_SCOPE_MISMATCH then napi_callback_scope_mismatch
                 else if snd r \<noteq> CALLBACK_SCOPE_OK then napi_invalid_arg else napi_ok))
               (CloseCallbackScope e scope))"

text \<open>
  \<open>napi_make_callback\<close>: the argument tests in order, the call, and the status; \<open>pending\<close> is whether
  the engine has an exception before the call, \<open>caught\<close> whether the call left one.
\<close>

definition napi_make_callback ::
    "(make_call_env \<Rightarrow> make_call_env \<times> nat option) \<Rightarrow> make_call_env option \<Rightarrow> bool \<Rightarrow> hook_context option \<Rightarrow> bool \<Rightarrow>
     bool \<Rightarrow> nat \<Rightarrow> bool \<Rightarrow> napi_status \<Rightarrow> bool \<Rightarrow> bool \<Rightarrow> bool \<Rightarrow> addr option \<Rightarrow>
     (make_call_env option \<times> napi_status \<times> nat option) option" where
  "napi_make_callback call env pending ctx func recv argc argv switch recv_object func_function
      caught alloc =
     (case env of
        None \<Rightarrow> Some (None, napi_invalid_arg, None)
      | Some e \<Rightarrow>
          if pending then Some (Some e, napi_pending_exception, None)
          else if \<not> func then Some (Some e, napi_invalid_arg, None)
          else if \<not> recv then Some (Some e, napi_invalid_arg, None)
          else if argc > 0 \<and> \<not> argv then Some (Some e, napi_invalid_arg, None)
          else if switch = napi_generic_failure then Some (Some e, switch, None)
          else if \<not> recv_object then Some (Some e, napi_object_expected, None)
          else if \<not> func_function then Some (Some e, napi_function_expected, None)
          else map_option (\<lambda>r. if caught then (Some (fst r), napi_pending_exception, None)
                               else (Some (fst r), napi_ok, snd r))
               (if ctx = None then MakeCallback call e None alloc
                else InternalMakeCallback call e (map_option EnsureReference ctx) alloc))"

section \<open>Lemmas\<close>

text \<open>The two counters, as a pair.\<close>

definition counts :: "make_call_env \<Rightarrow> (u64 \<times> u64) option" where
  "counts e = map_option (\<lambda>m. (openCallbackScopes m, asyncCallbackScopeDepth m)) (callbackScopeManager e)"

lemma scope_Close_counts: "scope_Close e p = Some e' \<Longrightarrow> callbackScopeManager e' = callbackScopeManager e"
  by (auto simp: scope_Close_def bind_eq_Some_conv Let_def split: if_splits)

lemma scope_Close_live:
  assumes "scopes e p = Some s"
  shows "\<exists>e'. scope_Close e p = Some e' \<and> (\<forall>q. q \<noteq> p \<longrightarrow> scopes e' q = scopes e q) \<and>
     (\<exists>s'. scopes e' p = Some s' \<and> closed s') \<and> isStopping e' = isStopping e \<and>
     callbackScopeManager e' = callbackScopeManager e \<and>
     hook_log e' = hook_log e @ (if \<not> closed s \<and> \<not> isStopping e \<and> \<not> failed s \<and> asyncId s \<noteq> 0 \<and> \<not> skipHooks s
       then [EmitAfter (asyncId s)] else [])"
proof (cases "closed s")
  case True
  with assms show ?thesis by (simp add: scope_Close_def)
next
  case False
  with assms show ?thesis by (cases "isStopping e") (simp_all add: scope_Close_def Let_def)
qed

lemma scope_Close_closed: "scopes e p = Some s \<Longrightarrow> closed s \<Longrightarrow> scope_Close e p = Some e"
  by (simp add: scope_Close_def)

text \<open>Giving back a scope that is closed already frees it and takes one off the depth.\<close>

lemma mgr_Close_closed:
  assumes "scopes e p = Some s" and "closed s"
  shows "\<exists>e'. mgr_Close e (Some p) = Some e' \<and> scopes e' = (scopes e)(p := None) \<and>
    isStopping e' = isStopping e \<and> hook_log e' = hook_log e \<and>
    counts e' = map_option (\<lambda>c. (fst c, snd c - 1)) (counts e)"
  using assms
  by (auto simp: mgr_Close_def delete_scope_def scope_Close_closed counts_def option.map_comp o_def)

lemma Decrement_counts [simp]:
  "counts (DecrementOpenCallbackScopes e) = map_option (\<lambda>c. (fst c - 1, snd c)) (counts e)"
  "scopes (DecrementOpenCallbackScopes e) = scopes e"
  "hook_log (DecrementOpenCallbackScopes e) = hook_log e"
  "isStopping (DecrementOpenCallbackScopes e) = isStopping e"
  by (simp_all add: DecrementOpenCallbackScopes_def counts_def option.map_comp o_def)

lemma CloseCallbackScope_closed:
  assumes "scopes e p = Some s" and "closed s" and "counts e = Some (n, d)" and "n > 0"
  shows "\<exists>e'. CloseCallbackScope e (Some p) = Some (e', CALLBACK_SCOPE_OK) \<and>
    scopes e' = (scopes e)(p := None) \<and> isStopping e' = isStopping e \<and>
    hook_log e' = hook_log e \<and> counts e' = Some (n - 1, d - 1)"
proof -
  from assms(3) obtain m where m: "callbackScopeManager e = Some m" "openCallbackScopes m = n"
    by (auto simp: counts_def)
  obtain e' where e': "mgr_Close (DecrementOpenCallbackScopes e) (Some p) = Some e'"
    "scopes e' = (scopes e)(p := None)" "isStopping e' = isStopping e" "hook_log e' = hook_log e"
    "counts e' = Some (n - 1, d - 1)"
    using mgr_Close_closed [of "DecrementOpenCallbackScopes e" p s] assms(1-3) by auto
  with m assms(4) show ?thesis by (simp add: CloseCallbackScope_def)
qed

lemma open_for_call_effect:
  assumes "counts e = Some (n, d)"
  shows "\<exists>e1. open_for_call e ctx (Some p) = Some (e1, Some p) \<and>
    counts e1 = Some (if ctx = None then n else n + 1, d + 1) \<and>
    scopes e1 = (scopes e)(p \<mapsto> \<lparr>closed = False, failed = False,
      asyncId = (case ctx of None \<Rightarrow> 0 | Some c \<Rightarrow> c_asyncId c), skipHooks = False,
      skipTaskQueues = False, pushedIds = True\<rparr>) \<and>
    isStopping e1 = isStopping e \<and>
    hook_log e1 = hook_log e @ (case ctx of None \<Rightarrow> [] | Some c \<Rightarrow>
      if c_asyncId c \<noteq> 0 then [EmitBefore (c_asyncId c)] else [])"
proof -
  obtain m where "callbackScopeManager e = Some m" using assms by (auto simp: counts_def)
  with assms show ?thesis
    by (cases ctx) (auto simp: open_for_call_def mgr_Open_def new_NativeCallbackScope_def
        OpenCallbackScope_def EnsureReference_def IncrementOpenCallbackScopes_def counts_def Let_def)
qed

lemma mark_and_close_effect:
  assumes "scopes e p = Some s" and "\<not> closed s" and "\<not> failed s" and "\<not> skipHooks s"
    and "\<not> isStopping e"
  shows "\<exists>e'. mark_and_close e (Some p) is_null = Some e' \<and>
    (\<forall>q. q \<noteq> p \<longrightarrow> scopes e' q = scopes e q) \<and> (\<exists>s'. scopes e' p = Some s' \<and> closed s') \<and>
    isStopping e' = isStopping e \<and> counts e' = counts e \<and>
    hook_log e' = hook_log e @ (if \<not> is_null \<and> asyncId s \<noteq> 0 then [EmitAfter (asyncId s)] else [])"
proof (cases is_null)
  case True
  let ?e = "e\<lparr>scopes := (scopes e)(p \<mapsto> s\<lparr>failed := True\<rparr>)\<rparr>"
  have "scopes ?e p = Some (s\<lparr>failed := True\<rparr>)" by simp
  from scope_Close_live [OF this] True assms show ?thesis
    by (auto simp: mark_and_close_def counts_def)
next
  case False
  from scope_Close_live [OF assms(1)] False assms show ?thesis
    by (auto simp: mark_and_close_def counts_def)
qed

section \<open>Properties\<close>

text \<open>
  A call through a callback scope is balanced.  When the scope object could be allocated, the
  engine is not stopping, and the called function leaves the counters and this scope as it found
  them (it may open and close scopes of its own), the call returns the function's result, the
  scope is freed, both counters are back to their values, and the async hooks were told of the
  beginning, and of the end unless the call failed.
\<close>

theorem make_callback_balanced:
  assumes "counts e = Some (n, d)" and "n + 1 \<noteq> 0" and "scopes e p = None" and "\<not> isStopping e"
    and "\<And>e1. counts e1 = Some (if ctx = None then n else n + 1, d + 1) \<Longrightarrow>
      counts (fst (call e1)) = counts e1 \<and> scopes (fst (call e1)) p = scopes e1 p \<and>
      isStopping (fst (call e1)) = isStopping e1 \<and> hook_log (fst (call e1)) = hook_log e1 \<and>
      snd (call e1) = res"
  shows "\<exists>e'. InternalMakeCallback call e ctx (Some p) = Some (e', res) \<and> counts e' = Some (n, d) \<and>
    scopes e' p = None \<and> hook_log e' = hook_log e @ (case ctx of None \<Rightarrow> [] | Some c \<Rightarrow>
      if c_asyncId c = 0 then []
      else if res = None then [EmitBefore (c_asyncId c)]
      else [EmitBefore (c_asyncId c), EmitAfter (c_asyncId c)])"
proof -
  define aid where "aid = (case ctx of None \<Rightarrow> 0 | Some c \<Rightarrow> c_asyncId c)"
  obtain e1 where o: "open_for_call e ctx (Some p) = Some (e1, Some p)"
    and c1: "counts e1 = Some (if ctx = None then n else n + 1, d + 1)"
    and s1: "scopes e1 p = Some \<lparr>closed = False, failed = False, asyncId = aid, skipHooks = False,
      skipTaskQueues = False, pushedIds = True\<rparr>" and st1: "\<not> isStopping e1"
    and l1: "hook_log e1 = hook_log e @ (case ctx of None \<Rightarrow> [] | Some c \<Rightarrow>
      if c_asyncId c \<noteq> 0 then [EmitBefore (c_asyncId c)] else [])"
    using open_for_call_effect [OF assms(1), of ctx p] assms(4) by (auto simp: aid_def)
  note c = assms(5) [OF c1]
  obtain e2 where m: "mark_and_close (fst (call e1)) (Some p) (res = None) = Some e2"
    and c2: "counts e2 = counts e1" and s2: "\<exists>s'. scopes e2 p = Some s' \<and> closed s'"
    and l2: "hook_log e2 = hook_log e1 @ (if res \<noteq> None \<and> aid \<noteq> 0 then [EmitAfter aid] else [])"
    using mark_and_close_effect [of "fst (call e1)" p _ "res = None"] c s1 st1 by auto
  obtain e3 where "CloseScope (ctx \<noteq> None) e2 (Some p) = Some e3" "counts e3 = Some (n, d)"
    "scopes e3 p = None" "hook_log e3 = hook_log e2"
  proof (cases ctx)
    case None
    then obtain m where "callbackScopeManager e2 = Some m" using c1 c2 by (auto simp: counts_def)
    with None c1 c2 s2 mgr_Close_closed [of e2 p] that show ?thesis by (auto simp: CloseScope_def)
  next
    case (Some x)
    have "n + 1 > 0" using assms(2) by (simp add: word_gt_0)
    with Some c1 c2 s2 CloseCallbackScope_closed [of e2 p _ "n + 1" "d + 1"] that show ?thesis
      by (auto simp: CloseScope_def)
  qed
  with o m c l1 l2 show ?thesis
    by (auto simp: InternalMakeCallback_def Let_def aid_def split: option.splits)
qed

definition demo_env :: make_call_env where
  "demo_env = \<lparr>callbackScopeManager = Some \<lparr>openCallbackScopes = 0, asyncCallbackScopeDepth = 0\<rparr>,
     isStopping = False, scopes = Map.empty, hook_log = []\<rparr>"

definition demo_ctx :: hook_context where
  "demo_ctx = \<lparr>c_asyncId = 4, lostReference = True\<rparr>"

theorem make_callback_balanced_witness:
  "\<exists>e'. InternalMakeCallback (\<lambda>e. (e, Some 9)) demo_env (Some demo_ctx) (Some 1) = Some (e', Some 9) \<and>
    counts e' = Some (0, 0) \<and> hook_log e' = [EmitBefore 4, EmitAfter 4]"
proof -
  have "counts demo_env = Some (0, 0)" "scopes demo_env 1 = None" "\<not> isStopping demo_env"
    by (simp_all add: demo_env_def counts_def)
  from make_callback_balanced [OF this(1) _ this(2,3), of "Some demo_ctx" "\<lambda>e. (e, Some 9)" "Some 9"]
  show ?thesis by (auto simp: demo_ctx_def) (simp add: demo_env_def)
qed

text \<open>
  opening and closing through the API.  A scope opened with room in the counter is closed with
  \<open>napi_ok\<close>, both counters are back, the memory is freed, and one more close with no scope open is
  answered \<open>napi_callback_scope_mismatch\<close> without touching memory.
\<close>

theorem open_close_callback_scope:
  assumes "counts e = Some (0, d)" and "scopes e p = None" and "\<not> isStopping e"
  shows "\<exists>e1 e2. napi_open_callback_scope (Some e) c True (Some p) = (Some e1, napi_ok, Some p) \<and>
    counts e1 = Some (1, d + 1) \<and>
    napi_close_callback_scope (Some e1) (Some p) = Some (Some e2, napi_ok) \<and>
    counts e2 = Some (0, d) \<and> scopes e2 = scopes e \<and>
    napi_close_callback_scope (Some e2) (Some p) = Some (Some e2, napi_callback_scope_mismatch)"
proof -
  obtain m where m: "callbackScopeManager e = Some m" "openCallbackScopes m = 0" "asyncCallbackScopeDepth m = d"
    using assms(1) by (auto simp: counts_def)
  have "(scopes e)(p := None) = scopes e" using assms(2) by auto
  with m assms(3) show ?thesis
    by (auto simp: napi_open_callback_scope_def napi_close_callback_scope_def OpenCallbackScope_def
        EnsureReference_def mgr_Open_def new_NativeCallbackScope_def IncrementOpenCallbackScopes_def
        CloseCallbackScope_def DecrementOpenCallbackScopes_def mgr_Close_def delete_scope_def
        scope_Close_def counts_def Let_def)
qed

theorem open_close_callback_scope_witness:
  "\<exists>e1 e2. napi_open_callback_scope (Some demo_env) demo_ctx True (Some 1) = (Some e1, napi_ok, Some 1) \<and>
    napi_close_callback_scope (Some e1) (Some 1) = Some (Some e2, napi_ok) \<and>
    napi_close_callback_scope (Some e2) (Some 1) = Some (Some e2, napi_callback_scope_mismatch)"
proof -
  have "counts demo_env = Some (0, 0)" "scopes demo_env 1 = None" "\<not> isStopping demo_env"
    by (simp_all add: demo_env_def counts_def)
  from open_close_callback_scope [OF this, of demo_ctx] show ?thesis by blast
qed

text \<open>
  out of memory.  When the scope object cannot be allocated, a call without a context takes one
  off the depth although none was added, and the unsigned depth wraps; an API open reports success
  with a null scope that cannot be closed, and the open count stays raised.
\<close>

theorem scope_alloc_failure_unbalanced:
  "map_option (\<lambda>r. counts (fst r)) (InternalMakeCallback (\<lambda>e. (e, Some 9)) demo_env None None) =
     Some (Some (0, - 1)) \<and>
   fst (snd (napi_open_callback_scope (Some demo_env) demo_ctx True None)) = napi_ok \<and>
   map_option counts (fst (napi_open_callback_scope (Some demo_env) demo_ctx True None)) =
     Some (Some (1, 0)) \<and>
   map_option snd (napi_close_callback_scope
     (fst (napi_open_callback_scope (Some demo_env) demo_ctx True None)) None) = Some napi_invalid_arg"
  by code_simp

end
