(* ===== verification/Module_Names.thy ===== *)
theory Module_Names
  imports Napi_Prelude
begin

text \<open>
  Names, paths and configuration strings of the module manager
  (module\_manager/native\_module\_manager.cpp and .h): where a module's libraries are looked for, which
  names are accepted, how the library path lists of namespaces are built, how load errors are
  classified.  The build modelled is the standard one on a 64 bit device (\<open>_ARM64_\<close>, none of the
  other platform macros).

  C strings are HOL strings.  The C++ library is modelled by list functions: \<open>find\<close> and \<open>rfind\<close> on
  a character, \<open>substr\<close>, \<open>std::getline\<close> with a separator, \<open>tolower\<close> and \<open>strcasecmp\<close> in the C locale,
  and \<open>sprintf_s\<close>, which fails when the result does not fit.
\<close>

section \<open>String functions of the C and C++ libraries\<close>

definition tolower :: "char \<Rightarrow> char" where
  "tolower c = (if 65 \<le> (of_char c :: nat) \<and> (of_char c :: nat) \<le> 90 then char_of (of_char c + 32 :: nat) else c)"

definition strcasecmp_eq :: "string \<Rightarrow> string \<Rightarrow> bool" where
  "strcasecmp_eq s t \<longleftrightarrow> map tolower s = map tolower t"

text \<open>\<open>getline\<close> in a loop: the separator ends a line, and no line follows the last separator.\<close>

function getlines :: "char \<Rightarrow> string \<Rightarrow> string list" where
  "getlines sep s = (if s = [] then []
     else takeWhile (\<lambda>c. c \<noteq> sep) s # getlines sep (drop 1 (dropWhile (\<lambda>c. c \<noteq> sep) s)))"
  by pat_completeness auto
termination
proof (relation "measure (\<lambda>(sep, s). length s)")
  fix sep :: char and s :: string
  assume "s \<noteq> []"
  have "length (dropWhile (\<lambda>c. c \<noteq> sep) s) \<le> length s" by (rule length_dropWhile_le)
  moreover have "length s > 0" using \<open>s \<noteq> []\<close> by simp
  ultimately have "length (drop 1 (dropWhile (\<lambda>c. c \<noteq> sep) s)) < length s"
    unfolding length_drop by linarith
  then show "((sep, drop 1 (dropWhile (\<lambda>c. c \<noteq> sep) s)), sep, s) \<in> measure (\<lambda>(sep, s). length s)"
    by simp
qed simp

declare getlines.simps [simp del]

fun find_char :: "char \<Rightarrow> string \<Rightarrow> nat option" where
  "find_char c [] = None"
| "find_char c (x # xs) = (if x = c then Some 0 else map_option Suc (find_char c xs))"

definition rfind_char :: "char \<Rightarrow> string \<Rightarrow> nat option" where
  "rfind_char c s = map_option (\<lambda>n. length s - 1 - n) (find_char c (rev s))"

fun has_prefix :: "string \<Rightarrow> string \<Rightarrow> bool" where
  "has_prefix [] s = True"
| "has_prefix (p # ps) [] = False"
| "has_prefix (p # ps) (c # cs) = (p = c \<and> has_prefix ps cs)"

text \<open>\<open>s.find(p) != npos\<close>.\<close>

fun contains :: "string \<Rightarrow> string \<Rightarrow> bool" where
  "contains p [] = (p = [])"
| "contains p (c # cs) = (has_prefix p (c # cs) \<or> contains p cs)"

definition has_suffix :: "string \<Rightarrow> string \<Rightarrow> bool" where
  "has_suffix p s = has_prefix (rev p) (rev s)"

text \<open>Pieces joined by a separator, as the loops with a first-element test build them.\<close>

fun join :: "char \<Rightarrow> string list \<Rightarrow> string" where
  "join sep [] = []"
| "join sep [p] = p"
| "join sep (p # q # ps) = p @ sep # join sep (q # ps)"

lemma getlines_Nil [simp]: "getlines sep [] = []"
  by (simp add: getlines.simps)

lemma getlines_line: "sep \<notin> set l \<Longrightarrow> getlines sep (l @ sep # rest) = l # getlines sep rest"
proof -
  assume l: "sep \<notin> set l"
  have "takeWhile (\<lambda>c. c \<noteq> sep) (l @ sep # rest) = l"
    using l by (subst takeWhile_append2) auto
  moreover have "dropWhile (\<lambda>c. c \<noteq> sep) (l @ sep # rest) = sep # rest"
    using l by (subst dropWhile_append2) auto
  ultimately show ?thesis by (subst getlines.simps) simp
qed

lemma getlines_terminated:
  "\<forall>l \<in> set ls. sep \<notin> set l \<Longrightarrow> getlines sep (concat (map (\<lambda>l. l @ [sep]) ls)) = ls"
  by (induction ls) (auto simp: getlines_line)

lemma getlines_no_sep: "l \<in> set (getlines sep s) \<Longrightarrow> sep \<notin> set l"
proof (induction sep s rule: getlines.induct)
  case (1 sep s)
  then show ?case
    by (cases "s = []") (auto simp: getlines.simps [of sep s] dest: set_takeWhileD)
qed

text \<open>Two dots in a row.\<close>

lemma has_prefix_append [simp]: "has_prefix p (p @ s)"
  by (induction p) auto

lemma has_prefix_iff: "has_prefix p s \<longleftrightarrow> (\<exists>t. s = p @ t)"
  by (induction p s rule: has_prefix.induct) auto

lemma contains_iff: "contains p s \<longleftrightarrow> (\<exists>xs ys. s = xs @ p @ ys)"
proof (induction p s rule: contains.induct)
  case (2 p c cs)
  show ?case
    unfolding contains.simps 2 has_prefix_iff by (metis append_Cons append_Nil list.exhaust list.sel(3))
qed simp

lemma dots_append:
  "contains ''..'' (xs @ ys) \<longleftrightarrow>
     contains ''..'' xs \<or> contains ''..'' ys \<or> (last_opt xs = Some CHR 0x2E \<and> hd_opt ys = Some CHR 0x2E)"
proof (induction xs)
  case (Cons x xs)
  then show ?case by (cases xs; cases ys) (auto simp: last_opt_def)
qed (simp add: last_opt_def)

lemma dots_single [simp]: "\<not> contains ''..'' [c]"
  by simp

lemma dots_free: "CHR 0x2E \<notin> set s \<Longrightarrow> \<not> contains ''..'' s"
  by (auto simp: contains_iff)

lemma find_char_split: "find_char c s = Some n \<Longrightarrow> s = take n s @ c # drop (Suc n) s \<and> c \<notin> set (take n s)"
  by (induction s arbitrary: n) (auto split: if_splits)

lemma find_char_None: "find_char c s = None \<longleftrightarrow> c \<notin> set s"
  by (induction s) auto

lemma rfind_char_None: "rfind_char c s = None \<longleftrightarrow> c \<notin> set s"
  by (simp add: rfind_char_def find_char_None)

lemma rfind_char_split:
  assumes "rfind_char c s = Some n"
  shows "s = take n s @ c # drop (Suc n) s" "c \<notin> set (drop (Suc n) s)"
proof -
  obtain k where k: "find_char c (rev s) = Some k" and n: "n = length s - 1 - k"
    using assms by (auto simp: rfind_char_def)
  obtain xs ys where e: "rev s = xs @ c # ys" and xs: "c \<notin> set xs" "length xs = k"
  proof -
    from find_char_split [OF k] have f: "rev s = take k (rev s) @ c # drop (Suc k) (rev s)"
      "c \<notin> set (take k (rev s))" by auto
    then have "k < length s"
      by (metis append_take_drop_id drop_eq_Nil2 length_rev linorder_not_less list.distinct(1)
          self_append_conv take_all_iff)
    with f that [of "take k (rev s)" "drop (Suc k) (rev s)"] show thesis by simp
  qed
  have s: "s = rev ys @ c # rev xs" using arg_cong [OF e, of rev] by simp
  have "n = length ys" using n xs by (simp add: s)
  then show "s = take n s @ c # drop (Suc n) s" "c \<notin> set (drop (Suc n) s)"
    using xs by (simp_all add: s)
qed

section \<open>Load errors\<close>

record load_error_context =
  dlopenFailed :: bool
  dlopenErrMsg :: string
  e_isAppModule :: bool
  pathRegistered :: bool
  e_path :: string

definition ClassifyLoadError :: "load_error_context \<Rightarrow> string" where
  "ClassifyLoadError ctx =
     (if dlopenFailed ctx
      then ''dlopen failed: '' @ (if has_prefix ''failed '' (dlopenErrMsg ctx)
             then drop (length ''failed '') (dlopenErrMsg ctx) else dlopenErrMsg ctx)
      else if e_isAppModule ctx \<and> \<not> pathRegistered ctx
      then ''app lib path not registered in namespace '' @ [char_of (39 :: nat)] @ e_path ctx @ [char_of (39 :: nat)]
      else ''module not found'')"

section \<open>Restricted modules and library names\<close>

definition CheckModuleRestricted :: "string \<Rightarrow> bool" where
  "CheckModuleRestricted moduleName =
     (moduleName \<in> set [''worker'', ''arkui.uicontext'', ''arkui.node'', ''arkui.modifier'', ''measure''] \<or>
      has_prefix ''arkui.components.ark'' moduleName)"

definition NAME_MAX :: nat where "NAME_MAX = 255"

definition isalnum :: "char \<Rightarrow> bool" where
  "isalnum c = (let n = (of_char c :: nat) in (48 \<le> n \<and> n \<le> 57) \<or> (65 \<le> n \<and> n \<le> 90) \<or> (97 \<le> n \<and> n \<le> 122))"

definition IsValidLibNameStrict :: "string \<Rightarrow> bool" where
  "IsValidLibNameStrict libName =
     (if length libName < 4 \<or> length libName \<ge> NAME_MAX then False
      else if drop (length libName - 3) libName \<noteq> ''.so'' then False
      else if \<not> list_all (\<lambda>c. (of_char c :: nat) \<ge> 128 \<or> isalnum c \<or> c \<in> set ''._-'') libName then False
      else \<not> contains ''...'' libName)"

section \<open>The grey list and the shared library names\<close>

definition trim_chars :: string where
  "trim_chars = [CHR 0x20, CHR 0x09, CHR 0x0A, CHR 0x0D, CHR 0x22]"

text \<open>\<open>None\<close> is an item of separators only, which the loop skips.\<close>

definition trim_item :: "string \<Rightarrow> string option" where
  "trim_item item =
     (let s = dropWhile (\<lambda>c. c \<in> set trim_chars) item
      in if s = [] then None else Some (rev (dropWhile (\<lambda>c. c \<in> set trim_chars) (rev s))))"

text \<open>
  \<open>LoadGreylistConfig\<close> on the content of the configuration file (\<open>None\<close>: it is missing or cannot be
  opened); the libraries accepted, in order.
\<close>

definition LoadGreylistConfig :: "string option \<Rightarrow> string list \<times> bool" where
  "LoadGreylistConfig file =
     (case file of
        None \<Rightarrow> ([], False)
      | Some content \<Rightarrow>
          (case (find_char (CHR 0x5B) content, rfind_char (CHR 0x5D) content) of
             (Some start, Some stop) \<Rightarrow>
               if Some start \<noteq> rfind_char (CHR 0x5B) content \<or>
                  Some stop \<noteq> find_char (CHR 0x5D) content \<or> start \<ge> stop
               then ([], False)
               else let arrayContent = take (stop - start - 1) (drop (start + 1) content);
                        items = List.map_filter trim_item (getlines (CHR 0x2C) arrayContent);
                        libs = filter IsValidLibNameStrict
                          (map (\<lambda>l. if l \<noteq> [] \<and> last l = CHR 0x22 then butlast l else l) items)
                    in (libs, libs \<noteq> [])
           | _ \<Rightarrow> ([], False)))"

definition allowList :: "string list" where
  "allowList = [''libc.so'', ''libdl.so'', ''libm.so'', ''libz.so'', ''libclang_rt.asan.so'',
     ''libclang_rt.tsan.so'', ''libclang_rt.ubsan_standalone.so'', ''libclang_rt.ubsan_minimal.so'',
     ''libclang_rt.hwasan.so'', ''libace_napi.z.so'', ''libace_ndk.z.so'', ''libcj_environment.z.so'',
     ''libbundle_ndk.z.so'', ''libdeviceinfo_ndk.z.so'', ''libEGL.so'', ''libGLESv3.so'',
     ''libhiappevent_ndk.z.so'', ''libhuks_ndk.z.so'', ''libhukssdk.z.so'', ''libnative_drawing.so'',
     ''libnative_window.so'', ''libnative_buffer.so'', ''libnative_vsync.so'', ''libOpenSLES.so'',
     ''libpixelmap_ndk.z.so'', ''libimage_ndk.z.so'', ''libimage_receiver_ndk.z.so'',
     ''libimage_source_ndk.z.so'', ''librawfile.z.so'', ''libuv.so'', ''libhilog.so'',
     ''libnative_image.so'', ''libnative_media_adec.so'', ''libnative_media_aenc.so'',
     ''libnative_media_codecbase.so'', ''libnative_media_core.so'', ''libnative_media_vdec.so'',
     ''libnative_media_venc.so'', ''libnative_media_avmuxer.so'', ''libnative_media_avdemuxer.so'',
     ''libnative_media_avsource.so'', ''libnative_avscreen_capture.so'', ''libavplayer.so'',
     ''libavrecorder.so'', ''libohosadaptor.so'', ''libusb_ndk.z.so'', ''libvulkan.so'',
     ''libOpenCL.so'']"

text \<open>
  The buffer of \<open>CreateSharedLibsSonames\<close>: one \<open>sprintf_s\<close> per name, which needs room for the name, the
  colon and a terminating zero; \<open>None\<close> when one does not fit.
\<close>

fun append_names :: "nat \<Rightarrow> string \<Rightarrow> string list \<Rightarrow> string option" where
  "append_names bufsize buf [] = Some buf"
| "append_names bufsize buf (l # ls) =
     (if length l + 1 < bufsize - length buf then append_names bufsize (buf @ l @ [CHR 0x3A]) ls else None)"

definition CreateSharedLibsSonames :: "string option \<Rightarrow> string option" where
  "CreateSharedLibsSonames file =
     (let greylistLibs = fst (LoadGreylistConfig file);
          bufsize = 1 + sum_list (map (\<lambda>l. length l + 1) allowList) +
                  sum_list (map (\<lambda>l. length l + 1) greylistLibs)
      in Option.bind (append_names bufsize [] allowList) (\<lambda>b. append_names bufsize b greylistLibs))"

section \<open>Path lists\<close>

text \<open>The path list of \<open>SetAppLibPath\<close>: every non-empty path and a colon, the last colon dropped.\<close>

definition app_lib_path :: "string list \<Rightarrow> string" where
  "app_lib_path paths =
     (let t = concat (map (\<lambda>p. if p = [] then [] else p @ [CHR 0x3A]) paths)
      in if t \<noteq> [] \<and> last t = CHR 0x3A then butlast t else t)"

text \<open>The list of \<open>UpdateNamespaceLibPath\<close>, which starts from the registered one.\<close>

definition extend_lib_path :: "string \<Rightarrow> string list \<Rightarrow> string" where
  "extend_lib_path old paths =
     fold (\<lambda>p t. if p = [] then t else (if t \<noteq> [] then t @ [CHR 0x3A] else t) @ p) paths old"

text \<open>The normalised list of \<open>SetLdPermittedPathsForNamespace\<close>: no empty parts, no trailing slashes.\<close>

definition normalise_permitted :: "string \<Rightarrow> string" where
  "normalise_permitted ldPermittedPath =
     join (CHR 0x3A) (map (\<lambda>p. rev (dropWhile (\<lambda>c. c = CHR 0x2F) (rev p)))
       (filter (\<lambda>p. p \<noteq> []) (getlines (CHR 0x3A) ldPermittedPath)))"

section \<open>Where a module is looked for\<close>

definition NAPI_PATH_MAX :: nat where "NAPI_PATH_MAX = 4096"

text \<open>\<open>sprintf_s\<close> into a buffer of \<open>NAPI_PATH_MAX\<close> bytes.\<close>

definition sprintf_path :: "string \<Rightarrow> string option" where
  "sprintf_path s = (if length s < NAPI_PATH_MAX then Some s else None)"

definition IsExistedPath :: "(string \<rightharpoonup> string) \<Rightarrow> string option \<Rightarrow> bool" where
  "IsExistedPath libPaths pathKey = (case pathKey of None \<Rightarrow> False | Some p \<Rightarrow> libPaths p \<noteq> None)"

text \<open>
  \<open>GetNativeModulePath\<close>: the library's path, the secondary one, and the path of the byte code.
  \<open>libPaths\<close> is \<open>appLibPathMap_\<close>, \<open>preview\<close> the previewer's search path; \<open>None\<close> is the result false.
\<close>

definition dir_prefix :: "(string \<rightharpoonup> string) \<Rightarrow> string option \<Rightarrow> bool \<Rightarrow> string option" where
  "dir_prefix libPaths path isAppModule =
     (if isAppModule then Option.bind path libPaths else None)"

definition sys_prefix :: "string \<Rightarrow> string \<Rightarrow> string" where
  "sys_prefix preview relativePath =
     (if relativePath = [] then ''/system/lib64/module''
      else if preview = [] then ''/system/lib64/module'' @ ''/'' @ relativePath
      else preview @ ''/module'')"

definition module_paths ::
    "string \<Rightarrow> string \<Rightarrow> bool \<Rightarrow> (string \<times> string \<times> string) option" where
  "module_paths prefix name isAppPath =
     (if length name > 3 \<and> drop (length name - 3) name = ''.so''
      then Option.bind (sprintf_path (prefix @ ''/'' @ name)) (\<lambda>p. Some (p, [], []))
      else (case rfind_char (CHR 0x2E) name of
        None \<Rightarrow>
          if \<not> isAppPath
          then Option.bind (sprintf_path (prefix @ ''/lib'' @ name @ ''.z'' @ ''.so'')) (\<lambda>p0.
               Option.bind (sprintf_path (prefix @ ''/lib'' @ name @ ''_napi'' @ ''.z'' @ ''.so'')) (\<lambda>p1.
               Option.bind (sprintf_path (''/system/etc/abc'' @ ''/'' @ name @ ''.abc'')) (\<lambda>p2.
                 Some (p0, p1, p2))))
          else Option.bind (sprintf_path (''lib'' @ name @ ''.so'')) (\<lambda>p0. Some (p0, [], []))
      | Some lastDot \<Rightarrow>
          let afterDot = drop (lastDot + 1) name;
              dir = map (\<lambda>c. if c = CHR 0x2E then CHR 0x2F else c) (take lastDot name)
          in if afterDot = [] then None
             else if \<not> isAppPath
             then Option.bind (sprintf_path (prefix @ ''/'' @ dir @ ''/lib'' @ afterDot @ ''.z'' @ ''.so'')) (\<lambda>p0.
                  Option.bind (sprintf_path (prefix @ ''/'' @ dir @ ''/lib'' @ afterDot @ ''_napi'' @ ''.z'' @ ''.so'')) (\<lambda>p1.
                  Option.bind (sprintf_path (''/system/etc/abc'' @ ''/'' @ dir @ ''/'' @ afterDot @ ''.abc'')) (\<lambda>p2.
                    Some (p0, p1, p2))))
             else Option.bind (sprintf_path (''lib'' @ afterDot @ ''.so'')) (\<lambda>p0. Some (p0, [], []))))"

definition GetNativeModulePath ::
    "(string \<rightharpoonup> string) \<Rightarrow> string \<Rightarrow> string \<Rightarrow> string option \<Rightarrow> string \<Rightarrow> bool \<Rightarrow>
     (string \<times> string \<times> string) option" where
  "GetNativeModulePath libPaths preview moduleName path relativePath isAppModule =
     (if length moduleName \<ge> NAPI_PATH_MAX then None
      else (case dir_prefix libPaths path isAppModule of
              Some prefix \<Rightarrow> module_paths prefix moduleName (isAppModule \<and> IsExistedPath libPaths path)
            | None \<Rightarrow> module_paths (sys_prefix preview relativePath) (map tolower moduleName)
                        (isAppModule \<and> IsExistedPath libPaths path)))"

section \<open>The library name list is what the grey list and the built-in list say\<close>

lemma append_names_fits:
  "length buf + sum_list (map (\<lambda>l. length l + 1) ls) < bufsize \<Longrightarrow>
     append_names bufsize buf ls = Some (buf @ concat (map (\<lambda>l. l @ [CHR 0x3A]) ls))"
  by (induction ls arbitrary: buf) auto

lemma valid_name_chars:
  assumes "IsValidLibNameStrict l"
  shows "CHR 0x3A \<notin> set l" "CHR 0x2F \<notin> set l" "CHR 0x2C \<notin> set l"
proof -
  have a: "list_all (\<lambda>c. (of_char c :: nat) \<ge> 128 \<or> isalnum c \<or> c \<in> set ''._-'') l"
    using assms by (auto simp: IsValidLibNameStrict_def split: if_splits)
  have "\<not> ((of_char (CHR 0x3A) :: nat) \<ge> 128 \<or> isalnum (CHR 0x3A) \<or> CHR 0x3A \<in> set ''._-'')"
    "\<not> ((of_char (CHR 0x2F) :: nat) \<ge> 128 \<or> isalnum (CHR 0x2F) \<or> CHR 0x2F \<in> set ''._-'')"
    "\<not> ((of_char (CHR 0x2C) :: nat) \<ge> 128 \<or> isalnum (CHR 0x2C) \<or> CHR 0x2C \<in> set ''._-'')"
    by code_simp+
  with a show "CHR 0x3A \<notin> set l" "CHR 0x2F \<notin> set l" "CHR 0x2C \<notin> set l"
    unfolding list_all_iff by blast+
qed

lemma greylist_valid: "list_all IsValidLibNameStrict (fst (LoadGreylistConfig file))"
  unfolding LoadGreylistConfig_def
  by (simp add: list_all_iff Let_def split: option.split)

lemma allowList_valid: "list_all IsValidLibNameStrict allowList"
  by code_simp

text \<open>
  Whatever the configuration file holds (missing, malformed or hostile), the list of shared
  library names handed to the linker is built: its buffer is exactly large enough, so no
  \<open>sprintf_s\<close> fails.  Read back at the colons the list is the built-in names followed by the names
  accepted from the file, and every accepted name passes the strict check, has no path separator,
  and cannot smuggle in a second entry with a colon.
\<close>

theorem shared_libs_sonames:
  "\<exists>s. CreateSharedLibsSonames file = Some s \<and>
       getlines (CHR 0x3A) s = allowList @ fst (LoadGreylistConfig file) \<and>
       length s = sum_list (map (\<lambda>l. length l + 1) (allowList @ fst (LoadGreylistConfig file))) \<and>
       list_all IsValidLibNameStrict (fst (LoadGreylistConfig file)) \<and>
       list_all (\<lambda>l. CHR 0x3A \<notin> set l \<and> CHR 0x2F \<notin> set l) (fst (LoadGreylistConfig file)) \<and>
       snd (LoadGreylistConfig file) = (fst (LoadGreylistConfig file) \<noteq> [])"
proof -
  let ?g = "fst (LoadGreylistConfig file)"
  let ?t = "\<lambda>ls. concat (map (\<lambda>l. l @ [CHR 0x3A]) ls)"
  let ?n = "\<lambda>ls. sum_list (map (\<lambda>l. length l + 1) ls)"
  have len: "length (?t ls) = ?n ls" for ls :: "string list" by (induction ls) auto
  have 1: "append_names (1 + ?n allowList + ?n ?g) [] allowList = Some (?t allowList)"
    by (subst append_names_fits) auto
  have 2: "append_names (1 + ?n allowList + ?n ?g) (?t allowList) ?g = Some (?t allowList @ ?t ?g)"
    by (rule append_names_fits) (simp only: len)
  have ok: "\<forall>l \<in> set (allowList @ ?g). CHR 0x3A \<notin> set l"
    using greylist_valid allowList_valid valid_name_chars(1) by (auto simp: list_all_iff)
  have s: "CreateSharedLibsSonames file = Some (?t (allowList @ ?g))"
    unfolding CreateSharedLibsSonames_def Let_def 1 bind.bind_lunit 2 by simp
  have v: "list_all (\<lambda>l. CHR 0x3A \<notin> set l \<and> CHR 0x2F \<notin> set l) ?g"
    using greylist_valid valid_name_chars by (auto simp: list_all_iff)
  have e: "snd (LoadGreylistConfig file) = (?g \<noteq> [])"
    by (simp add: LoadGreylistConfig_def Let_def split: option.split)
  show ?thesis
    using s len [of "allowList @ ?g"] getlines_terminated [OF ok] greylist_valid v e by blast
qed

section \<open>Paths stay inside the module directories\<close>

lemma tolower_dot [simp]: "tolower c = CHR 0x2E \<longleftrightarrow> c = CHR 0x2E"
proof -
  have "tolower c \<noteq> CHR 0x2E" if "c \<noteq> CHR 0x2E"
  proof (cases "65 \<le> (of_char c :: nat) \<and> (of_char c :: nat) \<le> 90")
    case True
    then have "of_char (char_of (of_char c + 32 :: nat)) = (of_char c + 32 :: nat)"
      by (subst of_char_of) simp
    moreover have "(of_char (CHR 0x2E) :: nat) = 46" by simp
    ultimately have "of_char (tolower c) \<noteq> (of_char (CHR 0x2E) :: nat)"
      using True by (simp add: tolower_def)
    then show ?thesis by metis
  next
    case False
    then show ?thesis using that by (auto simp: tolower_def)
  qed
  moreover have "tolower (CHR 0x2E) = CHR 0x2E" by code_simp
  ultimately show ?thesis by blast
qed

lemma sprintf_path_Some: "sprintf_path s = Some p \<longleftrightarrow> s = p \<and> length p < NAPI_PATH_MAX"
  by (auto simp: sprintf_path_def)

definition undotted :: "string \<Rightarrow> bool" where
  "undotted s \<longleftrightarrow> \<not> contains ''..'' s"

lemma undotted_slash [simp]: "undotted (xs @ CHR 0x2F # ys) \<longleftrightarrow> undotted xs \<and> undotted ys"
  using dots_append [of xs "CHR 0x2F # ys"] dots_append [of "[CHR 0x2F]" ys] by (auto simp: undotted_def last_opt_def)

lemma undotted_join:
  "undotted xs \<Longrightarrow> undotted ys \<Longrightarrow> last_opt xs \<noteq> Some (CHR 0x2E) \<or> hd_opt ys \<noteq> Some (CHR 0x2E) \<Longrightarrow>
     undotted (xs @ ys)"
  unfolding undotted_def dots_append by blast

lemma undotted_plain: "CHR 0x2E \<notin> set xs \<Longrightarrow> undotted ys \<Longrightarrow> undotted (xs @ ys)"
  by (rule undotted_join) (auto simp: undotted_def dots_free last_opt_def dest: last_in_set)

lemma undotted_free: "CHR 0x2E \<notin> set xs \<Longrightarrow> undotted xs"
  by (simp add: undotted_def dots_free)

lemma undotted_suffixes: "undotted ''.z.so''" "undotted ''.so''" "undotted ''_napi.z.so''" "undotted ''.abc''"
  by (code_simp)+

lemma undotted_system: "undotted ''/system/etc/abc''" "undotted (CHR 0x2F # xs) \<longleftrightarrow> undotted xs"
  using undotted_slash [of "[]" xs] by (code_simp, simp add: undotted_def)

lemma suffix_eqs: "''.z'' @ ''.so'' = ''.z.so''" "''_napi'' @ ''.z.so'' = ''_napi.z.so''"
  by simp_all

lemma undotted_empty: "undotted []"
  by (simp add: undotted_def)

lemma bind_paths:
  "Option.bind (sprintf_path a) (\<lambda>p0. Option.bind (sprintf_path b) (\<lambda>p1.
     Option.bind (sprintf_path c) (\<lambda>p2. Some (p0, p1, p2)))) = Some (x, y, z) \<Longrightarrow>
     x = a \<and> y = b \<and> z = c"
  "Option.bind (sprintf_path a) (\<lambda>p0. Some (p0, [], [])) = Some (x, y, z) \<Longrightarrow> x = a \<and> y = [] \<and> z = []"
  by (auto simp: bind_eq_Some_conv sprintf_path_Some)

lemma not_so:
  assumes so: "\<not> has_suffix ''.so'' name"
  shows "\<not> (length name > 3 \<and> drop (length name - 3) name = ''.so'')"
proof
  assume "length name > 3 \<and> drop (length name - 3) name = ''.so''"
  then have "name = take (length name - 3) name @ ''.so''" by (metis append_take_drop_id)
  then have "rev name = rev ''.so'' @ rev (take (length name - 3) name)" by (metis rev_append)
  with so show False unfolding has_suffix_def by (metis has_prefix_append)
qed

lemma module_paths_undotted:
  assumes r: "module_paths prefix name app = Some (p0, p1, p2)"
    and so: "\<not> has_suffix ''.so'' name" and pre: "undotted prefix"
  shows "undotted p0 \<and> undotted p1 \<and> undotted p2"
proof -
  have nso: "\<not> (length name > 3 \<and> drop (length name - 3) name = ''.so'')"
    using so by (rule not_so)
  have dl: "CHR 0x2E \<notin> set ''lib''" "CHR 0x2E \<notin> set ''/lib''" by code_simp+
  have lib: "undotted (prefix @ ''/'' @ x @ ''/lib'' @ y)" if "undotted x" "undotted y" for x y
    using undotted_plain [OF dl(1) that(2)] that(1) pre by simp
  have lib0: "undotted (prefix @ ''/lib'' @ y)" if "undotted y" for y
    using undotted_plain [OF dl(1) that] pre by simp
  have abc: "undotted (''/system/etc/abc'' @ ''/'' @ y)" if "undotted y" for y
  proof -
    have "undotted (''/system/etc/abc'' @ CHR 0x2F # y)"
      unfolding undotted_slash using that undotted_system(1) by blast
    then show ?thesis by simp
  qed
  show ?thesis
  proof (cases "rfind_char (CHR 0x2E) name")
    case None
    then have n: "CHR 0x2E \<notin> set name" by (simp add: rfind_char_None)
    note n2 = undotted_plain [OF n]
    consider
      "p0 = prefix @ ''/lib'' @ name @ ''.z'' @ ''.so''" "p1 = prefix @ ''/lib'' @ name @ ''_napi'' @ ''.z'' @ ''.so''"
      "p2 = ''/system/etc/abc'' @ ''/'' @ name @ ''.abc''"
      | "p0 = ''lib'' @ name @ ''.so''" "p1 = []" "p2 = []"
    proof (cases app)
      case True
      then have nn: "\<not> \<not> app" by simp
      show thesis
        using bind_paths(2) [OF r [unfolded module_paths_def if_not_P [OF nso] None option.case
          if_not_P [OF nn]]] by (elim conjE) (rule that(2))
    next
      case False
      show thesis
        using bind_paths(1) [OF r [unfolded module_paths_def if_not_P [OF nso] None option.case
          if_P [OF False]]] by (elim conjE) (rule that(1))
    qed
    then show ?thesis
      using lib0 [OF n2 [OF undotted_suffixes(1)]] lib0 [OF n2 [OF undotted_suffixes(3)]]
        abc [OF n2 [OF undotted_suffixes(4)]] undotted_plain [OF dl(1) n2 [OF undotted_suffixes(2)]]
      by cases (simp_all only: suffix_eqs undotted_empty)
  next
    case (Some d)
    let ?a = "drop (d + 1) name"
    let ?d = "map (\<lambda>c. if c = CHR 0x2E then CHR 0x2F else c) (take d name)"
    have n: "CHR 0x2E \<notin> set ?a" using rfind_char_split(2) [OF Some] by simp
    note n2 = undotted_plain [OF n]
    have d: "undotted ?d" by (rule undotted_free) auto
    have na: "?a \<noteq> []"
      using r unfolding module_paths_def if_not_P [OF nso] Some option.case Let_def by (metis option.distinct(1))
    consider
      "p0 = prefix @ ''/'' @ ?d @ ''/lib'' @ ?a @ ''.z'' @ ''.so''"
      "p1 = prefix @ ''/'' @ ?d @ ''/lib'' @ ?a @ ''_napi'' @ ''.z'' @ ''.so''"
      "p2 = ''/system/etc/abc'' @ ''/'' @ ?d @ ''/'' @ ?a @ ''.abc''"
      | "p0 = ''lib'' @ ?a @ ''.so''" "p1 = []" "p2 = []"
    proof (cases app)
      case True
      then have nn: "\<not> \<not> app" by simp
      show thesis
        using bind_paths(2) [OF r [unfolded module_paths_def if_not_P [OF nso] Some option.case Let_def
          if_not_P [OF na] if_not_P [OF nn]]] by (elim conjE) (rule that(2))
    next
      case False
      show thesis
        using bind_paths(1) [OF r [unfolded module_paths_def if_not_P [OF nso] Some option.case Let_def
          if_not_P [OF na] if_P [OF False]]] by (elim conjE) (rule that(1))
    qed
    moreover have "undotted (?d @ ''/'' @ ?a @ ''.abc'')" using d n2 [OF undotted_suffixes(4)] by simp
    ultimately show ?thesis
      using lib [OF d n2 [OF undotted_suffixes(1)]] lib [OF d n2 [OF undotted_suffixes(3)]]
        abc undotted_plain [OF dl(1) n2 [OF undotted_suffixes(2)]]
      by cases (simp_all only: suffix_eqs undotted_empty)
  qed
qed

lemma tolower_so: "tolower (CHR ''s'') = CHR ''s''" "tolower (CHR ''o'') = CHR ''o''"
  by code_simp+

lemma module_paths_app:
  assumes r: "module_paths prefix name True = Some (p0, p1, p2)" and so: "\<not> has_suffix ''.so'' name"
  shows "has_prefix ''lib'' p0 \<and> p1 = [] \<and> p2 = []"
proof -
  have nso: "\<not> (length name > 3 \<and> drop (length name - 3) name = ''.so'')"
    using so by (rule not_so)
  have nn: "\<not> \<not> True" by simp
  show ?thesis
  proof (cases "rfind_char (CHR 0x2E) name")
    case None
    show ?thesis
      using bind_paths(2) [OF r [unfolded module_paths_def if_not_P [OF nso] None option.case if_not_P [OF nn]]]
      by (simp only: has_prefix_append simp_thms)
  next
    case (Some d)
    have na: "drop (d + 1) name \<noteq> []"
      using r unfolding module_paths_def if_not_P [OF nso] Some option.case Let_def by (metis option.distinct(1))
    show ?thesis
      using bind_paths(2) [OF r [unfolded module_paths_def if_not_P [OF nso] Some option.case Let_def
          if_not_P [OF na] if_not_P [OF nn]]]
      by (simp only: has_prefix_append simp_thms)
  qed
qed



text \<open>
  A name that ends in \<open>.so\<close> is appended to the directory unchanged: only \<open>relativePath\<close> is checked
  for two dots, so such a name does leave the directory.
\<close>

theorem so_name_traversal:
  "GetNativeModulePath Map.empty [] ''../../../data/x.so'' (Some []) [] False =
     Some (''/system/lib64/module/../../../data/x.so'', [], [])"
  by code_simp

end
