(* ===== verification/Module_List.thy ===== *)
theory Module_List
  imports Module_Names
begin

text \<open>
  The list of loaded modules of module\_manager/native\_module\_manager.cpp: a singly linked list with a
  head and a tail pointer whose nodes are \<open>NativeModule\<close> structures.  The model keeps the pointers:
  nodes live in a map from addresses, so a use of a deleted node and a second deletion of a code
  buffer are visible as \<open>None\<close>.  \<open>mlist\<close> is the representation invariant; the lemmas show that the
  operations act on the sequence of nodes as push to the front, push to the back, and removal of the
  first node whose requested name matches.
\<close>

section \<open>Nodes and the list\<close>

record native_module =
  nm_name :: "string option"
  nm_moduleName :: "string option"
  nm_fileName :: "string option"
  nm_systemFilePath :: "string option"
  nm_registerCallback :: "addr option"
  nm_getABCCode :: "addr option"
  nm_getJSCode :: "addr option"
  nm_version :: int
  nm_flags :: u32
  nm_refCount :: u32
  nm_next :: "addr option"
  nm_jsCode :: "addr option"
  nm_jsABCCode :: "addr option"
  nm_jsCodeLen :: int
  nm_moduleLoaded :: bool
  nm_isAppModule :: bool
  nm_apiAllowListChecker :: "nat option"

definition new_NativeModule :: native_module where
  "new_NativeModule = \<lparr>nm_name = None, nm_moduleName = None, nm_fileName = None, nm_systemFilePath = None,
     nm_registerCallback = None, nm_getABCCode = None, nm_getJSCode = None, nm_version = 0, nm_flags = 0,
     nm_refCount = 0, nm_next = None, nm_jsCode = None, nm_jsABCCode = None, nm_jsCodeLen = 0,
     nm_moduleLoaded = False, nm_isAppModule = False, nm_apiAllowListChecker = None\<rparr>"

text \<open>\<open>mods\<close> are the nodes allocated, \<open>abcs\<close> the byte code buffers allocated.\<close>

record module_list =
  mods :: "addr \<rightharpoonup> native_module"
  abcs :: "addr set"
  headNativeModule :: "addr option"
  tailNativeModule :: "addr option"

definition empty_list :: module_list where
  "empty_list = \<lparr>mods = Map.empty, abcs = {}, headNativeModule = None, tailNativeModule = None\<rparr>"

section \<open>Operations\<close>

text \<open>\<open>fresh\<close> is what \<open>new (std::nothrow) NativeModule()\<close> returns, \<open>None\<close> the null pointer.\<close>

definition CreateHeadNativeModule :: "addr option \<Rightarrow> module_list \<Rightarrow> module_list \<times> bool" where
  "CreateHeadNativeModule fresh l =
     (case fresh of
        None \<Rightarrow> (l, False)
      | Some a \<Rightarrow>
          if headNativeModule l = tailNativeModule l \<and> tailNativeModule l = None
          then (l\<lparr>mods := (mods l)(a \<mapsto> new_NativeModule), headNativeModule := Some a,
                  tailNativeModule := Some a\<rparr>, True)
          else if headNativeModule l \<noteq> None
          then (l\<lparr>mods := (mods l)(a \<mapsto> new_NativeModule\<lparr>nm_next := headNativeModule l\<rparr>),
                  headNativeModule := Some a\<rparr>, True)
          else (l\<lparr>mods := (mods l)(a \<mapsto> new_NativeModule)\<rparr>, True))"

definition CreateTailNativeModule :: "addr option \<Rightarrow> module_list \<Rightarrow> (module_list \<times> bool) option" where
  "CreateTailNativeModule fresh l =
     (case fresh of
        None \<Rightarrow> Some (l, False)
      | Some a \<Rightarrow>
          if headNativeModule l = tailNativeModule l \<and> tailNativeModule l = None
          then Some (l\<lparr>mods := (mods l)(a \<mapsto> new_NativeModule), headNativeModule := Some a,
                       tailNativeModule := Some a\<rparr>, True)
          else (case tailNativeModule l of
                  None \<Rightarrow> Some (l\<lparr>mods := (mods l)(a \<mapsto> new_NativeModule)\<rparr>, True)
                | Some t \<Rightarrow>
                    map_option (\<lambda>h. (l\<lparr>mods := h, tailNativeModule := Some a\<rparr>, True))
                      (upd_at ((mods l)(a \<mapsto> new_NativeModule)) t (nm_next_update (\<lambda>_. Some a)))))"

text \<open>The strings, the byte code buffer and the node itself are freed.\<close>

definition delete_module :: "addr \<Rightarrow> module_list \<Rightarrow> module_list option" where
  "delete_module a l =
     (case mods l a of
        None \<Rightarrow> None
      | Some n \<Rightarrow>
          (case nm_jsABCCode n of
             None \<Rightarrow> Some (l\<lparr>mods := (mods l)(a := None)\<rparr>)
           | Some b \<Rightarrow> if b \<in> abcs l then Some (l\<lparr>mods := (mods l)(a := None), abcs := abcs l - {b}\<rparr>) else None))"

definition name_matches :: "string \<Rightarrow> native_module \<Rightarrow> bool" where
  "name_matches key n = (case nm_moduleName n of None \<Rightarrow> False | Some s \<Rightarrow> strcasecmp_eq s key)"

text \<open>The loop of \<open>RemoveNativeModuleByCacheLocked\<close>: \<open>prev\<close> and \<open>cur\<close> (\<open>curr\<close>) walk the list.\<close>

partial_function (option) remove_scan ::
    "string \<Rightarrow> addr \<Rightarrow> addr option \<Rightarrow> module_list \<Rightarrow> (module_list \<times> bool) option" where
  "remove_scan key prev cur l =
     (case cur of
        None \<Rightarrow> Some (l, False)
      | Some c \<Rightarrow>
          Option.bind (mods l c) (\<lambda>n.
            if name_matches key n
            then let l1 = (if tailNativeModule l = Some c then l\<lparr>tailNativeModule := Some prev\<rparr> else l)
                 in Option.bind (upd_at (mods l1) prev (nm_next_update (\<lambda>_. nm_next n))) (\<lambda>h.
                    Option.bind (delete_module c (l1\<lparr>mods := h\<rparr>)) (\<lambda>l2. Some (l2, True)))
            else Option.bind (mods l prev) (\<lambda>p.
                 Option.bind (nm_next p) (\<lambda>prev'.
                 Option.bind (mods l prev') (\<lambda>n'. remove_scan key prev' (nm_next n') l)))))"

declare remove_scan.simps [code]

definition RemoveNativeModuleByCacheLocked :: "string \<Rightarrow> module_list \<Rightarrow> (module_list \<times> bool) option" where
  "RemoveNativeModuleByCacheLocked key l =
     (case headNativeModule l of
        None \<Rightarrow> Some (l, False)
      | Some a \<Rightarrow>
          Option.bind (mods l a) (\<lambda>n.
            if name_matches key n
            then let l1 = (if headNativeModule l = tailNativeModule l then l\<lparr>tailNativeModule := None\<rparr> else l)
                 in Option.bind (delete_module a (l1\<lparr>headNativeModule := nm_next n\<rparr>)) (\<lambda>l2. Some (l2, True))
            else remove_scan key a (nm_next n) l))"

text \<open>The loop of \<open>~NativeModuleManager\<close>: \<open>p\<close> is the local pointer, which runs one node ahead.\<close>

partial_function (option) destroy_modules :: "addr option \<Rightarrow> module_list \<Rightarrow> module_list option" where
  "destroy_modules p l =
     (case p of
        None \<Rightarrow> Some (l\<lparr>headNativeModule := None, tailNativeModule := None\<rparr>)
      | Some a \<Rightarrow>
          Option.bind (mods l a) (\<lambda>n.
          Option.bind (headNativeModule l) (\<lambda>h.
          Option.bind (delete_module h l) (\<lambda>l1.
            destroy_modules (nm_next n) (l1\<lparr>headNativeModule := nm_next n\<rparr>)))))"

declare destroy_modules.simps [code]

section \<open>The representation invariant\<close>

fun mseg :: "(addr \<rightharpoonup> native_module) \<Rightarrow> addr option \<Rightarrow> addr list \<Rightarrow> addr option \<Rightarrow> bool" where
  "mseg h p [] q = (p = q)"
| "mseg h p (a # as) q = (p = Some a \<and> (\<exists>n. h a = Some n \<and> mseg h (nm_next n) as q))"

definition buffers :: "(addr \<rightharpoonup> native_module) \<Rightarrow> addr list \<Rightarrow> addr list" where
  "buffers h xs = List.map_filter (\<lambda>a. Option.bind (h a) nm_jsABCCode) xs"

definition mlist :: "module_list \<Rightarrow> addr list \<Rightarrow> bool" where
  "mlist l xs \<longleftrightarrow> mseg (mods l) (headNativeModule l) xs None \<and> tailNativeModule l = last_opt xs \<and>
     distinct xs \<and> dom (mods l) = set xs \<and> distinct (buffers (mods l) xs) \<and>
     set (buffers (mods l) xs) \<subseteq> abcs l"

text \<open>What the list holds: the nodes in order, without their links.\<close>

definition contents :: "module_list \<Rightarrow> addr list \<Rightarrow> native_module list" where
  "contents l xs = map (\<lambda>a. (the (mods l a))\<lparr>nm_next := None\<rparr>) xs"

fun remove_first :: "('a \<Rightarrow> bool) \<Rightarrow> 'a list \<Rightarrow> 'a list" where
  "remove_first P [] = []"
| "remove_first P (x # xs) = (if P x then xs else x # remove_first P xs)"

lemma mseg_append: "mseg h p (xs @ ys) q \<longleftrightarrow> (\<exists>r. mseg h p xs r \<and> mseg h r ys q)"
  by (induction xs arbitrary: p) auto

lemma mseg_cong: "\<forall>a \<in> set xs. h a = h' a \<Longrightarrow> mseg h p xs q = mseg h' p xs q"
  by (induction xs arbitrary: p) auto

lemma mseg_upd: "a \<notin> set xs \<Longrightarrow> mseg (h(a := v)) p xs q = mseg h p xs q"
  by (rule mseg_cong) auto

lemma mseg_hd: "mseg h p xs None \<Longrightarrow> p = hd_opt xs"
  by (cases xs) auto

lemma buffers_simps [simp]:
  "buffers h [] = []"
  "buffers h (a # xs) = (case Option.bind (h a) nm_jsABCCode of None \<Rightarrow> buffers h xs | Some b \<Rightarrow> b # buffers h xs)"
  by (auto simp: buffers_def map_filter_simps split: option.splits)

lemma buffers_append: "buffers h (xs @ ys) = buffers h xs @ buffers h ys"
  by (simp add: buffers_def map_filter_def)

lemma buffers_Cons: "buffers h (a # xs) = buffers h [a] @ buffers h xs"
  using buffers_append [of h "[a]" xs] by simp

lemma buffers_cong: "\<forall>a \<in> set xs. Option.bind (h a) nm_jsABCCode = Option.bind (h' a) nm_jsABCCode \<Longrightarrow>
    buffers h xs = buffers h' xs"
  by (induction xs) (auto split: option.splits)

lemma buffers_upd: "a \<notin> set xs \<Longrightarrow> buffers (h(a := v)) xs = buffers h xs"
  by (rule buffers_cong) auto

lemma mlist_empty: "mlist empty_list []"
  by (simp add: mlist_def empty_list_def)

lemma mlist_head: "mlist l xs \<Longrightarrow> headNativeModule l = hd_opt xs"
  by (auto simp: mlist_def dest: mseg_hd)

lemma mlist_tail: "mlist l xs \<Longrightarrow> tailNativeModule l = last_opt xs"
  by (simp add: mlist_def)

section \<open>Creating nodes\<close>

lemma hd_opt_eq_last_opt_None: "hd_opt xs = last_opt xs \<and> last_opt xs = None \<longleftrightarrow> xs = []"
  by (cases xs) (auto simp: last_opt_def)

lemma buffers_new [simp]: "nm_jsABCCode new_NativeModule = None"
  by (simp add: new_NativeModule_def)

lemma next_new [simp]: "nm_next new_NativeModule = None" "new_NativeModule\<lparr>nm_next := None\<rparr> = new_NativeModule"
  by (simp_all add: new_NativeModule_def)

lemma CreateHead_ok:
  assumes l: "mlist l xs" and a: "a \<notin> dom (mods l)"
  shows "\<exists>l'. CreateHeadNativeModule (Some a) l = (l', True) \<and> mlist l' (a # xs) \<and>
    contents l' (a # xs) = new_NativeModule # contents l xs \<and> abcs l' = abcs l"
proof -
  note m = mlist_head [OF l] mlist_tail [OF l]
  have ax: "a \<notin> set xs" using l a by (auto simp: mlist_def)
  show ?thesis
  proof (cases xs)
    case Nil
    then show ?thesis using l a m by (auto simp: CreateHeadNativeModule_def mlist_def contents_def last_opt_def)
  next
    case (Cons x ys)
    have "contents (l\<lparr>mods := (mods l)(a \<mapsto> v), headNativeModule := Some a\<rparr>) xs = contents l xs" for v
      using ax by (auto simp: contents_def)
    then show ?thesis using l m ax Cons
      by (auto simp: CreateHeadNativeModule_def mlist_def contents_def last_opt_def mseg_upd buffers_upd
          split: option.splits)
  qed
qed

lemma CreateHead_fail: "CreateHeadNativeModule None l = (l, False)"
  by (simp add: CreateHeadNativeModule_def)

lemma CreateTail_fail: "CreateTailNativeModule None l = Some (l, False)"
  by (simp add: CreateTailNativeModule_def)

lemma CreateTail_ok:
  assumes l: "mlist l xs" and a: "a \<notin> dom (mods l)"
  shows "\<exists>l'. CreateTailNativeModule (Some a) l = Some (l', True) \<and> mlist l' (xs @ [a]) \<and>
    contents l' (xs @ [a]) = contents l xs @ [new_NativeModule] \<and> abcs l' = abcs l"
proof (cases xs rule: rev_cases)
  case Nil
  then show ?thesis using l mlist_head [OF l] mlist_tail [OF l]
    by (auto simp: CreateTailNativeModule_def mlist_def contents_def last_opt_def)
next
  case (snoc ys t)
  have ax: "a \<notin> set ys" "a \<noteq> t" "t \<notin> set ys" using l a snoc by (auto simp: mlist_def)
  obtain n where n: "mods l t = Some n" "mseg (mods l) (headNativeModule l) ys (Some t)" "nm_next n = None"
    using l snoc by (auto simp: mlist_def mseg_append)
  let ?h = "(mods l)(a \<mapsto> new_NativeModule, t \<mapsto> n\<lparr>nm_next := Some a\<rparr>)"
  let ?l = "l\<lparr>mods := ?h, tailNativeModule := Some a\<rparr>"
  have tl: "tailNativeModule l = Some t" "headNativeModule l \<noteq> None"
    using mlist_tail [OF l] mlist_head [OF l] snoc by (auto simp: last_opt_def)
  have r: "CreateTailNativeModule (Some a) l = Some (?l, True)"
    using tl n(1) ax by (simp add: CreateTailNativeModule_def)
  have s: "mseg ?h (headNativeModule l) ((ys @ [t]) @ [a]) None"
    using n ax by (auto simp: mseg_append mseg_upd)
  have b: "buffers ?h ((ys @ [t]) @ [a]) = buffers (mods l) xs"
    using ax n by (auto simp: buffers_append buffers_upd snoc split: option.splits)
  have "mlist ?l (xs @ [a])"
    unfolding mlist_def using l s b snoc ax by (auto simp: mlist_def last_opt_def)
  moreover have "contents ?l (xs @ [a]) = contents l xs @ [new_NativeModule]"
    using ax n by (auto simp: contents_def snoc)
  ultimately show ?thesis using r by auto
qed

section \<open>Changing a node\<close>

definition upd_module :: "addr \<Rightarrow> (native_module \<Rightarrow> native_module) \<Rightarrow> module_list \<Rightarrow> module_list option" where
  "upd_module a f l = map_option (\<lambda>h. l\<lparr>mods := h\<rparr>) (upd_at (mods l) a f)"

lemma upd_module_ok:
  assumes l: "mlist l (xs @ a # ys)"
    and f: "\<And>n. mods l a = Some n \<Longrightarrow> nm_next (f n) = nm_next n"
      "\<And>n. mods l a = Some n \<Longrightarrow> nm_jsABCCode (f n) = nm_jsABCCode n"
      "\<And>n. (f n)\<lparr>nm_next := None\<rparr> = f (n\<lparr>nm_next := None\<rparr>)"
  shows "\<exists>l' n. upd_module a f l = Some l' \<and> mlist l' (xs @ a # ys) \<and> mods l a = Some n \<and>
    contents l' (xs @ a # ys) = contents l xs @ f (n\<lparr>nm_next := None\<rparr>) # contents l ys \<and> abcs l' = abcs l"
proof -
  have d: "a \<notin> set xs" "a \<notin> set ys" using l by (auto simp: mlist_def)
  obtain n where n: "mods l a = Some n" using l by (auto simp: mlist_def mseg_append)
  let ?l = "l\<lparr>mods := (mods l)(a \<mapsto> f n)\<rparr>"
  have "mseg (mods ?l) (headNativeModule ?l) (xs @ a # ys) None"
    using l n d f(1) by (auto simp: mlist_def mseg_append mseg_upd)
  moreover have "buffers (mods ?l) (xs @ a # ys) = buffers (mods l) (xs @ a # ys)"
    using n d f(2) by (auto simp: buffers_append buffers_upd split: option.splits)
  ultimately have "mlist ?l (xs @ a # ys)"
    unfolding mlist_def using l n by (auto simp: mlist_def)
  moreover have "contents ?l (xs @ a # ys) = contents l xs @ f (n\<lparr>nm_next := None\<rparr>) # contents l ys"
    using d f(3) by (auto simp: contents_def)
  ultimately show ?thesis using n by (auto simp: upd_module_def)
qed

section \<open>Removing a node\<close>

lemma delete_module_ok:
  assumes "mods l a = Some n" and "\<And>b. nm_jsABCCode n = Some b \<Longrightarrow> b \<in> abcs l"
  shows "delete_module a l =
    Some (l\<lparr>mods := (mods l)(a := None), abcs := abcs l - set_option (nm_jsABCCode n)\<rparr>)"
  using assms by (auto simp: delete_module_def split: option.splits)

lemma set_option_bufs:
  "mods l a = Some n \<Longrightarrow> set (buffers (mods l) [a]) = set_option (nm_jsABCCode n)"
  by (auto split: option.splits)

lemma remove_middle:
  assumes l: "mlist l (xs @ p # c # ys)"
  shows "\<exists>n l'. mods l c = Some n \<and>
    (let l1 = (if tailNativeModule l = Some c then l\<lparr>tailNativeModule := Some p\<rparr> else l)
     in Option.bind (upd_at (mods l1) p (nm_next_update (\<lambda>_. nm_next n))) (\<lambda>h.
        Option.bind (delete_module c (l1\<lparr>mods := h\<rparr>)) (\<lambda>l2. Some (l2, True)))) = Some (l', True) \<and>
    mlist l' (xs @ p # ys) \<and> contents l' (xs @ p # ys) = contents l (xs @ p # ys) \<and>
    abcs l' = abcs l - set_option (nm_jsABCCode n)"
proof -
  have d: "p \<notin> set xs" "c \<notin> set xs" "p \<notin> set ys" "c \<notin> set ys" "p \<noteq> c" "distinct xs" "distinct ys"
    "set xs \<inter> set ys = {}"
    using l by (auto simp: mlist_def)
  obtain n m where n: "mods l c = Some n" and m: "mods l p = Some m" "nm_next m = Some c"
    and seg: "mseg (mods l) (headNativeModule l) xs (Some p)" "mseg (mods l) (nm_next n) ys None"
    using l by (auto simp: mlist_def mseg_append)
  have b: "\<And>b. nm_jsABCCode n = Some b \<Longrightarrow> b \<in> abcs l"
    using l n by (auto simp: mlist_def buffers_append split: option.splits)
  have tl: "tailNativeModule l = last_opt (c # ys)"
    using l by (auto simp: mlist_def last_opt_def)
  let ?h = "(mods l)(p \<mapsto> m\<lparr>nm_next := nm_next n\<rparr>)"
  let ?t = "if tailNativeModule l = Some c then Some p else tailNativeModule l"
  let ?l = "l\<lparr>mods := ?h(c := None), abcs := abcs l - set_option (nm_jsABCCode n), tailNativeModule := ?t\<rparr>"
  have t: "?t = last_opt (xs @ p # ys)"
    using tl d(4) by (cases ys rule: rev_cases) (auto simp: last_opt_def)
  have run: "(let l1 = (if tailNativeModule l = Some c then l\<lparr>tailNativeModule := Some p\<rparr> else l)
     in Option.bind (upd_at (mods l1) p (nm_next_update (\<lambda>_. nm_next n))) (\<lambda>h.
        Option.bind (delete_module c (l1\<lparr>mods := h\<rparr>)) (\<lambda>l2. Some (l2, True)))) = Some (?l, True)"
    using m n d b by (auto simp: delete_module_def Let_def split: option.splits)
  have s: "mseg (mods ?l) (headNativeModule ?l) (xs @ p # ys) None"
    using seg d by (auto simp: mseg_append mseg_upd)
  have bx: "buffers (mods ?l) (xs @ p # ys) = buffers (mods l) (xs @ p # ys)"
    using d m by (auto simp: buffers_append buffers_upd split: option.splits)
  have e4: "buffers (mods l) (xs @ p # c # ys) =
      buffers (mods l) xs @ buffers (mods l) [p] @ buffers (mods l) [c] @ buffers (mods l) ys"
    unfolding buffers_append buffers_Cons [of _ p "c # ys"] buffers_Cons [of _ c ys] append_assoc ..
  have B: "distinct (buffers (mods l) xs @ buffers (mods l) [p] @ buffers (mods l) [c] @ buffers (mods l) ys)"
    "set (buffers (mods l) xs @ buffers (mods l) [p] @ buffers (mods l) [c] @ buffers (mods l) ys) \<subseteq> abcs l"
    using l unfolding mlist_def e4 by blast+
  have e: "buffers (mods l) (xs @ p # ys) = buffers (mods l) xs @ buffers (mods l) [p] @ buffers (mods l) ys"
    unfolding buffers_append buffers_Cons [of _ p ys] append_assoc ..
  have dm: "dom (mods ?l) = set (xs @ p # ys)"
    using l d by (auto simp: mlist_def)
  have bb: "distinct (buffers (mods ?l) (xs @ p # ys))"
    "set (buffers (mods ?l) (xs @ p # ys)) \<subseteq> abcs ?l"
    unfolding bx e using B set_option_bufs [OF n] by (auto simp del: buffers_simps)
  have "mlist ?l (xs @ p # ys)"
    unfolding mlist_def using s t dm bb d by simp
  moreover have "contents ?l (xs @ p # ys) = contents l (xs @ p # ys)"
    using d m by (auto simp: contents_def)
  ultimately show ?thesis using n run by auto
qed

lemma remove_head:
  assumes l: "mlist l (a # xs)"
  shows "\<exists>n l'. mods l a = Some n \<and>
    (let l1 = (if headNativeModule l = tailNativeModule l then l\<lparr>tailNativeModule := None\<rparr> else l)
     in Option.bind (delete_module a (l1\<lparr>headNativeModule := nm_next n\<rparr>)) (\<lambda>l2. Some (l2, True))) = Some (l', True) \<and>
    mlist l' xs \<and> contents l' xs = contents l xs \<and> abcs l' = abcs l - set_option (nm_jsABCCode n)"
proof -
  obtain n where n: "mods l a = Some n" and seg: "mseg (mods l) (nm_next n) xs None"
    and h: "headNativeModule l = Some a" and t: "tailNativeModule l = last_opt (a # xs)" and d: "a \<notin> set xs" "distinct xs"
    using l by (auto simp: mlist_def)
  have b: "\<And>b. nm_jsABCCode n = Some b \<Longrightarrow> b \<in> abcs l"
    using l n by (auto simp: mlist_def)
  have ht: "headNativeModule l = tailNativeModule l \<longleftrightarrow> xs = []"
    using h t d by (auto simp: last_opt_def)
  let ?t = "if headNativeModule l = tailNativeModule l then None else tailNativeModule l"
  let ?l = "l\<lparr>mods := (mods l)(a := None), abcs := abcs l - set_option (nm_jsABCCode n),
      headNativeModule := nm_next n, tailNativeModule := ?t\<rparr>"
  have run: "(let l1 = (if headNativeModule l = tailNativeModule l then l\<lparr>tailNativeModule := None\<rparr> else l)
     in Option.bind (delete_module a (l1\<lparr>headNativeModule := nm_next n\<rparr>)) (\<lambda>l2. Some (l2, True))) = Some (?l, True)"
    using n b by (auto simp: delete_module_def Let_def split: option.splits)
  have B: "distinct (buffers (mods l) [a] @ buffers (mods l) xs)"
    "set (buffers (mods l) [a] @ buffers (mods l) xs) \<subseteq> abcs l"
    using l unfolding mlist_def buffers_Cons [of _ a xs] by blast+
  have bb: "distinct (buffers (mods ?l) xs)" "set (buffers (mods ?l) xs) \<subseteq> abcs ?l"
    using B set_option_bufs [OF n] d by (auto simp: buffers_upd simp del: buffers_simps)
  have dm: "dom (mods ?l) = set xs" using l d by (auto simp: mlist_def)
  have "mlist ?l xs"
    unfolding mlist_def using seg d ht t bb dm by (auto simp: mseg_upd last_opt_def)
  moreover have "contents ?l xs = contents l xs"
    using d by (auto simp: contents_def)
  ultimately show ?thesis using n run by auto
qed

lemma name_matches_next [simp]: "name_matches key (n\<lparr>nm_next := q\<rparr>) = name_matches key n"
  by (simp add: name_matches_def)

text \<open>The buffers that a removal frees: those of the first node that matches.\<close>

fun removed_buffers :: "string \<Rightarrow> native_module list \<Rightarrow> addr set" where
  "removed_buffers key [] = {}"
| "removed_buffers key (n # ns) =
     (if name_matches key n then set_option (nm_jsABCCode n) else removed_buffers key ns)"

definition removed :: "string \<Rightarrow> module_list \<Rightarrow> addr list \<Rightarrow> module_list \<Rightarrow> bool \<Rightarrow> bool" where
  "removed key l xs l' ok \<longleftrightarrow>
     (\<exists>ys. mlist l' ys \<and> contents l' ys = remove_first (name_matches key) (contents l xs) \<and> set ys \<subseteq> set xs) \<and>
     abcs l' = abcs l - removed_buffers key (contents l xs) \<and>
     ok = list_ex (name_matches key) (contents l xs)"

lemma remove_first_append: "\<not> list_ex P xs \<Longrightarrow> remove_first P (xs @ ys) = xs @ remove_first P ys"
  by (induction xs) auto

lemma removed_buffers_append:
  "\<not> list_ex (name_matches key) xs \<Longrightarrow> removed_buffers key (xs @ ys) = removed_buffers key ys"
  by (induction xs) auto

lemma contents_append: "contents l (xs @ ys) = contents l xs @ contents l ys"
  by (simp add: contents_def)

lemma contents_single: "mods l a = Some n \<Longrightarrow> contents l (a # xs) = n\<lparr>nm_next := None\<rparr> # contents l xs"
  by (simp add: contents_def)

lemma remove_first_none: "\<not> list_ex P xs \<Longrightarrow> remove_first P xs = xs"
  by (induction xs) auto

lemma removed_buffers_none: "\<not> list_ex (name_matches key) xs \<Longrightarrow> removed_buffers key xs = {}"
  by (induction xs) auto

lemma remove_scan_ok:
  assumes "mlist l (xs @ p # ys)" and "\<not> list_ex (name_matches key) (contents l (xs @ [p]))"
  shows "\<exists>l' ok. remove_scan key p (hd_opt ys) l = Some (l', ok) \<and> removed key l (xs @ p # ys) l' ok"
  using assms
proof (induction ys arbitrary: xs p)
  case Nil
  have "remove_scan key p None l = Some (l, False)" by (subst remove_scan.simps) simp
  moreover have "removed key l (xs @ [p]) l False"
    using Nil unfolding removed_def by (auto simp: remove_first_none removed_buffers_none)
  ultimately show ?case by auto
next
  case (Cons c ys)
  obtain n l' where r: "mods l c = Some n"
    "(let l1 = (if tailNativeModule l = Some c then l\<lparr>tailNativeModule := Some p\<rparr> else l)
     in Option.bind (upd_at (mods l1) p (nm_next_update (\<lambda>_. nm_next n))) (\<lambda>h.
        Option.bind (delete_module c (l1\<lparr>mods := h\<rparr>)) (\<lambda>l2. Some (l2, True)))) = Some (l', True)"
    "mlist l' (xs @ p # ys)" "contents l' (xs @ p # ys) = contents l (xs @ p # ys)"
    "abcs l' = abcs l - set_option (nm_jsABCCode n)"
    using remove_middle [OF Cons.prems(1)] by blast
  have cs: "contents l (xs @ p # c # ys) = contents l (xs @ [p]) @ n\<lparr>nm_next := None\<rparr> # contents l ys"
    using r(1) by (simp add: contents_def)
  have cs2: "contents l (xs @ p # ys) = contents l (xs @ [p]) @ contents l ys"
    by (simp add: contents_def)
  show ?case
  proof (cases "name_matches key n")
    case True
    have "remove_scan key p (Some c) l = Some (l', True)"
      using r(1,2) True by (subst remove_scan.simps) simp
    moreover have "removed key l (xs @ p # c # ys) l' True"
      unfolding removed_def cs using r(3-5) True Cons.prems(2)
      by (auto simp: remove_first_append removed_buffers_append cs2)
    ultimately show ?thesis by auto
  next
    case False
    obtain m where m: "mods l p = Some m" "nm_next m = Some c" and nx: "nm_next n = hd_opt ys"
      using Cons.prems(1) r(1) by (auto simp: mlist_def mseg_append dest: mseg_hd)
    have "remove_scan key p (Some c) l = remove_scan key c (hd_opt ys) l"
      using r(1) m nx False by (subst remove_scan.simps) simp
    moreover have "\<not> list_ex (name_matches key) (contents l ((xs @ [p]) @ [c]))"
      using Cons.prems(2) r(1) False by (simp add: contents_def)
    ultimately show ?thesis using Cons.IH [of "xs @ [p]" c] Cons.prems(1) by simp
  qed
qed

lemma Remove_ok:
  assumes "mlist l xs"
  shows "\<exists>l' ok. RemoveNativeModuleByCacheLocked key l = Some (l', ok) \<and> removed key l xs l' ok"
proof (cases xs)
  case Nil
  then have "RemoveNativeModuleByCacheLocked key l = Some (l, False)"
    using mlist_head [OF assms] by (simp add: RemoveNativeModuleByCacheLocked_def)
  then show ?thesis using assms Nil by (auto simp: removed_def contents_def)
next
  case (Cons a ys)
  have h: "headNativeModule l = Some a" using mlist_head [OF assms] Cons by simp
  obtain n l' where r: "mods l a = Some n"
    "(let l1 = (if headNativeModule l = tailNativeModule l then l\<lparr>tailNativeModule := None\<rparr> else l)
     in Option.bind (delete_module a (l1\<lparr>headNativeModule := nm_next n\<rparr>)) (\<lambda>l2. Some (l2, True))) = Some (l', True)"
    "mlist l' ys" "contents l' ys = contents l ys" "abcs l' = abcs l - set_option (nm_jsABCCode n)"
    using remove_head assms Cons by blast
  have cs: "contents l xs = n\<lparr>nm_next := None\<rparr> # contents l ys"
    using r(1) by (simp add: contents_def Cons)
  show ?thesis
  proof (cases "name_matches key n")
    case True
    have "RemoveNativeModuleByCacheLocked key l = Some (l', True)"
      unfolding RemoveNativeModuleByCacheLocked_def using h r(1,2) True by simp
    moreover have "removed key l xs l' True"
      unfolding removed_def cs using r(3-5) True by (auto simp: Cons)
    ultimately show ?thesis by blast
  next
    case False
    have nx: "nm_next n = hd_opt ys"
      using assms r(1) Cons by (auto simp: mlist_def dest: mseg_hd)
    have "RemoveNativeModuleByCacheLocked key l = remove_scan key a (hd_opt ys) l"
      unfolding RemoveNativeModuleByCacheLocked_def using h r(1) False nx by simp
    moreover have "\<not> list_ex (name_matches key) (contents l ([] @ [a]))"
      using r(1) False by (simp add: contents_def)
    ultimately show ?thesis using remove_scan_ok [of l "[]" a ys key] assms Cons by simp
  qed
qed

section \<open>Destruction\<close>

lemma destroy_modules_ok:
  assumes "mseg (mods l) (headNativeModule l) xs None" "distinct xs" "dom (mods l) = set xs"
    "distinct (buffers (mods l) xs)" "set (buffers (mods l) xs) \<subseteq> abcs l"
  shows "\<exists>l'. destroy_modules (headNativeModule l) l = Some l' \<and> mlist l' [] \<and>
     abcs l' = abcs l - set (buffers (mods l) xs)"
  using assms
proof (induction xs arbitrary: l)
  case Nil
  then have "destroy_modules (headNativeModule l) l = Some (l\<lparr>headNativeModule := None, tailNativeModule := None\<rparr>)"
    by (subst destroy_modules.simps) simp
  then show ?case using Nil by (auto simp: mlist_def)
next
  case (Cons a xs)
  obtain n where n: "mods l a = Some n" and seg: "mseg (mods l) (nm_next n) xs None"
    and h: "headNativeModule l = Some a"
    using Cons.prems(1) by auto
  let ?l = "l\<lparr>mods := (mods l)(a := None), abcs := abcs l - set_option (nm_jsABCCode n)\<rparr>"
  have d: "delete_module a l = Some ?l"
    using Cons.prems n by (intro delete_module_ok) auto
  let ?l1 = "?l\<lparr>headNativeModule := nm_next n\<rparr>"
  have B: "distinct (buffers (mods l) [a] @ buffers (mods l) xs)"
    "set (buffers (mods l) [a] @ buffers (mods l) xs) \<subseteq> abcs l"
    using Cons.prems(4,5) unfolding buffers_Cons [of _ a xs] by blast+
  have bx: "buffers (mods ?l1) xs = buffers (mods l) xs"
    using Cons.prems(2) by (simp add: buffers_upd)
  have "\<exists>l'. destroy_modules (headNativeModule ?l1) ?l1 = Some l' \<and> mlist l' [] \<and>
      abcs l' = abcs ?l1 - set (buffers (mods ?l1) xs)"
  proof (rule Cons.IH)
    show "mseg (mods ?l1) (headNativeModule ?l1) xs None"
      using seg Cons.prems(2) by (simp add: mseg_upd)
    show "distinct (buffers (mods ?l1) xs)" "set (buffers (mods ?l1) xs) \<subseteq> abcs ?l1"
      unfolding bx using B set_option_bufs [OF n] by (auto simp del: buffers_simps)
    show "dom (mods ?l1) = set xs" using Cons.prems(2,3) by simp
  qed (use Cons.prems in simp)
  moreover have "destroy_modules (headNativeModule l) l = destroy_modules (nm_next n) ?l1"
    using n d h by (subst destroy_modules.simps) simp
  moreover have "set (buffers (mods l) (a # xs)) = set_option (nm_jsABCCode n) \<union> set (buffers (mods l) xs)"
    unfolding buffers_Cons [of _ a xs] set_append set_option_bufs [OF n] ..
  ultimately show ?case unfolding bx by (auto simp del: buffers_simps)
qed

section \<open>Refinement of sequences\<close>

text \<open>
  What registration does with the list: a node is created at one end and its fields are assigned (all
  but the link and the code buffer); or a node is removed by name.
\<close>

datatype list_op = PushHead addr native_module | PushTail addr native_module | RemoveNamed string

definition assign_fields :: "native_module \<Rightarrow> native_module \<Rightarrow> native_module" where
  "assign_fields n old = n\<lparr>nm_next := nm_next old, nm_jsABCCode := nm_jsABCCode old\<rparr>"

fun list_step :: "list_op \<Rightarrow> module_list \<Rightarrow> module_list option" where
  "list_step (PushHead a n) l =
     (let (l1, ok) = CreateHeadNativeModule (Some a) l
      in Option.bind (headNativeModule l1) (\<lambda>h. upd_module h (assign_fields n) l1))"
| "list_step (PushTail a n) l =
     Option.bind (CreateTailNativeModule (Some a) l) (\<lambda>(l1, ok).
       Option.bind (tailNativeModule l1) (\<lambda>t. upd_module t (assign_fields n) l1))"
| "list_step (RemoveNamed key) l = map_option fst (RemoveNativeModuleByCacheLocked key l)"

fun list_run :: "list_op list \<Rightarrow> module_list \<Rightarrow> module_list option" where
  "list_run [] l = Some l"
| "list_run (x # xs) l = Option.bind (list_step x l) (list_run xs)"

text \<open>The abstract operations, on the sequence of registered modules.\<close>

definition plain :: "native_module \<Rightarrow> native_module" where
  "plain n = n\<lparr>nm_next := None, nm_jsABCCode := None\<rparr>"

fun seq_step :: "list_op \<Rightarrow> native_module list \<Rightarrow> native_module list" where
  "seq_step (PushHead a n) ns = plain n # ns"
| "seq_step (PushTail a n) ns = ns @ [plain n]"
| "seq_step (RemoveNamed key) ns = remove_first (name_matches key) ns"

fun op_addr :: "list_op \<Rightarrow> addr list" where
  "op_addr (PushHead a n) = [a]" | "op_addr (PushTail a n) = [a]" | "op_addr (RemoveNamed key) = []"

lemma assign_simps [simp]:
  "nm_next (assign_fields n m) = nm_next m" "nm_jsABCCode (assign_fields n m) = nm_jsABCCode m"
  "(assign_fields n m)\<lparr>nm_next := None\<rparr> = assign_fields n (m\<lparr>nm_next := None\<rparr>)"
  "assign_fields n new_NativeModule = plain n"
  by (simp_all add: assign_fields_def plain_def new_NativeModule_def)

lemma assign_end:
  assumes l: "mlist l (xs @ a # ys)" and c: "contents l (xs @ a # ys) = ns @ new_NativeModule # ms"
    and len: "length ns = length xs"
  shows "\<exists>l'. upd_module a (assign_fields n) l = Some l' \<and> mlist l' (xs @ a # ys) \<and>
    contents l' (xs @ a # ys) = ns @ plain n # ms \<and> abcs l' = abcs l"
proof -
  obtain l' m where l': "upd_module a (assign_fields n) l = Some l'" "mlist l' (xs @ a # ys)" "mods l a = Some m"
    "contents l' (xs @ a # ys) = contents l xs @ assign_fields n (m\<lparr>nm_next := None\<rparr>) # contents l ys"
    "abcs l' = abcs l"
    using upd_module_ok [OF l, of "assign_fields n"] by auto
  have "contents l (xs @ a # ys) = contents l xs @ m\<lparr>nm_next := None\<rparr> # contents l ys"
    using l'(3) by (simp add: contents_def)
  with c len have "contents l xs = ns \<and> m\<lparr>nm_next := None\<rparr> = new_NativeModule \<and> contents l ys = ms"
    by (simp add: contents_def)
  with l' show ?thesis by auto
qed

lemma list_step_refines:
  assumes l: "mlist l xs" and fresh: "set (op_addr x) \<inter> set xs = {}" and ab: "abcs l = {}"
  shows "\<exists>l' ys. list_step x l = Some l' \<and> mlist l' ys \<and> contents l' ys = seq_step x (contents l xs) \<and>
    set ys \<subseteq> set xs \<union> set (op_addr x) \<and> abcs l' = {}"
proof (cases x)
  case (PushHead a n)
  have a: "a \<notin> dom (mods l)" using l fresh PushHead by (auto simp: mlist_def)
  obtain l1 where l1: "CreateHeadNativeModule (Some a) l = (l1, True)" "mlist l1 (a # xs)"
    "contents l1 (a # xs) = new_NativeModule # contents l xs" "abcs l1 = {}"
    using CreateHead_ok [OF l a] ab by auto
  then show ?thesis
    using assign_end [of l1 "[]" a xs "[]" "contents l xs" n] mlist_head [OF l1(2)] PushHead
    by (auto intro!: exI [of _ "a # xs"])
next
  case (PushTail a n)
  have a: "a \<notin> dom (mods l)" using l fresh PushTail by (auto simp: mlist_def)
  obtain l1 where l1: "CreateTailNativeModule (Some a) l = Some (l1, True)" "mlist l1 (xs @ [a])"
    "contents l1 (xs @ [a]) = contents l xs @ [new_NativeModule]" "abcs l1 = {}"
    using CreateTail_ok [OF l a] ab by auto
  then show ?thesis
    using assign_end [of l1 xs a "[]" "contents l xs" "[]" n] mlist_tail [OF l1(2)] PushTail
    by (auto simp: contents_def intro!: exI [of _ "xs @ [a]"])
next
  case (RemoveNamed key)
  then show ?thesis using Remove_ok [OF l, of key] ab by (auto simp: removed_def)
qed

lemma list_run_refines:
  assumes "mlist l xs" "distinct (concat (map op_addr ops))" "set (concat (map op_addr ops)) \<inter> set xs = {}"
    and "abcs l = {}"
  shows "\<exists>l' ys. list_run ops l = Some l' \<and> mlist l' ys \<and> contents l' ys = fold seq_step ops (contents l xs)"
  using assms
proof (induction ops arbitrary: l xs)
  case Nil
  then show ?case by auto
next
  case (Cons x ops)
  obtain l1 ys where 1: "list_step x l = Some l1" "mlist l1 ys" "contents l1 ys = seq_step x (contents l xs)"
    "set ys \<subseteq> set xs \<union> set (op_addr x)" "abcs l1 = {}"
    using list_step_refines [OF Cons.prems(1), of x] Cons.prems by auto
  have "set (concat (map op_addr ops)) \<inter> set ys = {}"
    using 1(4) Cons.prems(2,3) by auto
  then show ?case using Cons.IH [OF 1(2)] Cons.prems(2) 1 by auto
qed

text \<open>
  C28: The linked list of modules behaves like a sequence: after any number of creations at the front
  and at the back (with their field assignments) and removals by name, started on the empty list with
  every address new, no freed node was touched, the nodes reachable from the head are in order the
  sequence that the abstract operations compute, the tail pointer is its last node, and the destructor
  then deletes every node.
\<close>

theorem module_list_refines:
  assumes "distinct (concat (map op_addr ops))"
  shows "\<exists>l xs l'. list_run ops empty_list = Some l \<and> mlist l xs \<and> contents l xs = fold seq_step ops [] \<and>
    headNativeModule l = hd_opt xs \<and> tailNativeModule l = last_opt xs \<and>
    destroy_modules (headNativeModule l) l = Some l' \<and> mods l' = Map.empty"
proof -
  obtain l xs where l: "list_run ops empty_list = Some l" "mlist l xs" "contents l xs = fold seq_step ops []"
    using list_run_refines [OF mlist_empty assms] by (auto simp: empty_list_def contents_def)
  obtain l' where "destroy_modules (headNativeModule l) l = Some l'" "mlist l' []"
    using destroy_modules_ok [of l xs] l(2) by (auto simp: mlist_def)
  then show ?thesis using l mlist_head [OF l(2)] mlist_tail [OF l(2)] by (auto simp: mlist_def)
qed

theorem module_list_refines_witness:
  "\<exists>l xs. list_run [PushTail 1 (new_NativeModule\<lparr>nm_moduleName := Some ''Foo''\<rparr>),
      PushHead 2 (new_NativeModule\<lparr>nm_moduleName := Some ''bar''\<rparr>), RemoveNamed ''foo''] empty_list = Some l \<and>
     mlist l xs \<and> map nm_moduleName (contents l xs) = [Some ''bar'']"
proof -
  let ?ops = "[PushTail 1 (new_NativeModule\<lparr>nm_moduleName := Some ''Foo''\<rparr>),
      PushHead 2 (new_NativeModule\<lparr>nm_moduleName := Some ''bar''\<rparr>), RemoveNamed ''foo'']"
  have "distinct (concat (map op_addr ?ops))" by simp
  moreover have "map nm_moduleName (fold seq_step ?ops []) = [Some ''bar'']" by code_simp
  ultimately show ?thesis using module_list_refines [of ?ops] by metis
qed

end
