(* ===== verification/Module_Manager.thy ===== *)
theory Module_Manager
  imports Module_List "HOL-Library.Monad_Syntax"
begin

text \<open>
  The module manager (module\_manager/native\_module\_manager.cpp, module\_load\_checker.cpp): modules
  register themselves while the dynamic linker runs their constructors; a request for a module is
  answered from the list of loaded modules or by opening its library, or its byte code file, from
  disk; modules are unloaded by name.

  What lies outside the repository is the record \<open>system\<close>: the allocator, the dynamic linker (with
  the modules a library registers while it is opened), the file system, and the delegate that may
  forbid a module.  A result \<open>None\<close> of an operation is an access to freed or uninitialised memory or
  a second deletion.  Failures of \<open>strdup\<close> are not modelled; failures of \<open>new\<close> are.
\<close>

section \<open>State\<close>

record manager =
  mlst :: module_list
  loadingModuleKey :: string
  mm_prefix :: string
  mm_isAppModule :: bool
  loadingModuleName :: string
  g_isLoadingModule :: bool
  moduleLibMap :: "string \<rightharpoonup> addr"
  moduleBufMap :: "string \<rightharpoonup> addr"
  appLibPathMap :: "string \<rightharpoonup> string"
  nsMap :: "string set"
  previewSearchPath :: string
  dlclosed :: "addr list"

definition new_manager :: manager where
  "new_manager = \<lparr>mlst = empty_list, loadingModuleKey = [], mm_prefix = [], mm_isAppModule = False,
     loadingModuleName = [], g_isLoadingModule = False, moduleLibMap = Map.empty, moduleBufMap = Map.empty,
     appLibPathMap = Map.empty, nsMap = {}, previewSearchPath = [], dlclosed = []\<rparr>"

text \<open>
  \<open>sys_dlopen ns p\<close> is the handle of the library at \<open>p\<close> (\<open>None\<close>: it does not open) and the modules its
  constructors register; \<open>ns\<close> is the name space, \<open>None\<close> the default one.  \<open>sys_getJSCode lib sym\<close> is
  the code the function \<open>sym\<close> of the library returns, \<open>None\<close> when there is no such symbol;
  \<open>sys_file p\<close> is the size of the file and the number of bytes that can be read.
\<close>

record system =
  sys_new :: "module_list \<Rightarrow> addr option"
  sys_newbuf :: "module_list \<Rightarrow> addr"
  sys_dlopen :: "string option \<Rightarrow> string \<Rightarrow> addr option \<times> native_module list"
  sys_dlerror :: "string \<Rightarrow> string option"
  sys_access :: "string \<Rightarrow> bool"
  sys_onLoad :: "addr \<Rightarrow> native_module list"
  sys_getJSCode :: "addr \<Rightarrow> string \<Rightarrow> (addr option \<times> int) option"
  sys_file :: "string \<Rightarrow> (int \<times> int) option"
  sys_dlclose :: "addr \<Rightarrow> bool"
  sys_set_lib_path :: "string \<Rightarrow> string \<Rightarrow> int"
  sys_delegate :: "((string \<Rightarrow> bool \<Rightarrow> bool \<times> nat option) \<times> bool) option"

section \<open>The load checker\<close>

definition CheckModuleLoadable :: "system \<Rightarrow> string \<Rightarrow> bool \<Rightarrow> bool \<times> nat option" where
  "CheckModuleLoadable s moduleName isAppModule =
     (case sys_delegate s of None \<Rightarrow> (True, None) | Some (check, diskOnly) \<Rightarrow> check moduleName isAppModule)"

definition DiskCheckOnly :: "system \<Rightarrow> bool" where
  "DiskCheckOnly s = (case sys_delegate s of None \<Rightarrow> True | Some (check, diskOnly) \<Rightarrow> diskOnly)"

section \<open>Library handles and byte code buffers\<close>

definition EmplaceModuleLib :: "string \<Rightarrow> addr option \<Rightarrow> manager \<Rightarrow> manager \<times> addr option" where
  "EmplaceModuleLib moduleKey lib m =
     (case lib of
        None \<Rightarrow> (m, None)
      | Some h \<Rightarrow>
          (case moduleLibMap m moduleKey of
             Some old \<Rightarrow> (m, Some old)
           | None \<Rightarrow> (m\<lparr>moduleLibMap := (moduleLibMap m)(moduleKey \<mapsto> h)\<rparr>, Some h)))"

definition GetNativeModuleHandle :: "string \<Rightarrow> manager \<Rightarrow> addr option" where
  "GetNativeModuleHandle moduleKey m = moduleLibMap m moduleKey"

definition EmplaceModuleBuffer :: "string \<Rightarrow> addr option \<Rightarrow> manager \<Rightarrow> manager" where
  "EmplaceModuleBuffer moduleKey lib m =
     (case lib of
        None \<Rightarrow> m
      | Some b \<Rightarrow> if moduleBufMap m moduleKey = None then m\<lparr>moduleBufMap := (moduleBufMap m)(moduleKey \<mapsto> b)\<rparr> else m)"

definition RemoveModuleBuffer :: "string \<Rightarrow> manager \<Rightarrow> manager \<times> bool" where
  "RemoveModuleBuffer moduleKey m =
     (if moduleBufMap m moduleKey \<noteq> None
      then (m\<lparr>moduleBufMap := (moduleBufMap m)(moduleKey := None)\<rparr>, True) else (m, False))"

definition GetBufferHandle :: "string \<Rightarrow> manager \<Rightarrow> addr option" where
  "GetBufferHandle moduleKey m = moduleBufMap m moduleKey"

definition RemoveNativeModuleLocked :: "string \<Rightarrow> manager \<Rightarrow> (manager \<times> bool) option" where
  "RemoveNativeModuleLocked moduleKey m =
     (let m1 = fst (RemoveModuleBuffer moduleKey m)
      in do { (l, moduleRemoved) \<leftarrow> RemoveNativeModuleByCacheLocked moduleKey (mlst m1);
              Some (m1\<lparr>mlst := l\<rparr>, moduleRemoved) })"

definition UnloadModuleLibrary :: "system \<Rightarrow> addr option \<Rightarrow> manager \<Rightarrow> manager \<times> bool" where
  "UnloadModuleLibrary s handle m =
     (case handle of
        None \<Rightarrow> (m, False)
      | Some h \<Rightarrow> (m\<lparr>dlclosed := dlclosed m @ [h]\<rparr>, sys_dlclose s h))"

definition UnloadNativeModule :: "system \<Rightarrow> string \<Rightarrow> manager \<Rightarrow> (manager \<times> bool) option" where
  "UnloadNativeModule s moduleKey m =
     (case moduleLibMap m moduleKey of
        None \<Rightarrow> Some (m, False)
      | Some handle \<Rightarrow>
          do { (m2, removed) \<leftarrow> RemoveNativeModuleLocked moduleKey
                 (m\<lparr>moduleLibMap := (moduleLibMap m)(moduleKey := None)\<rparr>);
               Some (if \<not> removed then (m2, False) else UnloadModuleLibrary s (Some handle) m2) })"

section \<open>Registration\<close>

definition SetLoadingNativeModuleKey :: "string option \<Rightarrow> manager \<Rightarrow> manager" where
  "SetLoadingNativeModuleKey moduleName m =
     (case moduleName of None \<Rightarrow> m | Some n \<Rightarrow> m\<lparr>loadingModuleKey := n\<rparr>)"

definition IS_APP_MODULE_FLAGS :: u32 where "IS_APP_MODULE_FLAGS = 100"

definition registered_name :: "native_module \<Rightarrow> manager \<Rightarrow> string" where
  "registered_name nm m =
     (let nativeModuleName = (case nm_name nm of None \<Rightarrow> [] | Some n \<Rightarrow> n);
          tmpName = (if mm_isAppModule m then mm_prefix m @ ''/'' @ nativeModuleName else nativeModuleName)
      in if nm_flags nm = IS_APP_MODULE_FLAGS then ''default/'' @ nativeModuleName else tmpName)"

definition register_head_fields :: "native_module \<Rightarrow> bool \<Rightarrow> string \<Rightarrow> native_module \<Rightarrow> native_module" where
  "register_head_fields nm isApp name n =
     n\<lparr>nm_version := nm_version nm, nm_fileName := nm_fileName nm, nm_isAppModule := isApp,
       nm_name := Some name, nm_refCount := nm_refCount nm, nm_registerCallback := nm_registerCallback nm,
       nm_getJSCode := nm_getJSCode nm, nm_getABCCode := nm_getABCCode nm, nm_moduleLoaded := True,
       nm_systemFilePath := Some []\<rparr>"

definition register_tail_fields :: "native_module \<Rightarrow> bool \<Rightarrow> string \<Rightarrow> native_module \<Rightarrow> native_module" where
  "register_tail_fields nm isApp name n =
     (register_head_fields nm isApp name n)\<lparr>nm_moduleName := None, nm_next := None\<rparr>"

text \<open>An assignment through the tail pointer or the head pointer.\<close>

definition upd_tail :: "(native_module \<Rightarrow> native_module) \<Rightarrow> manager \<Rightarrow> manager option" where
  "upd_tail f m = do { t \<leftarrow> tailNativeModule (mlst m); l \<leftarrow> upd_module t f (mlst m); Some (m\<lparr>mlst := l\<rparr>) }"

definition upd_head :: "(native_module \<Rightarrow> native_module) \<Rightarrow> manager \<Rightarrow> manager option" where
  "upd_head f m = do { t \<leftarrow> headNativeModule (mlst m); l \<leftarrow> upd_module t f (mlst m); Some (m\<lparr>mlst := l\<rparr>) }"

definition Register :: "system \<Rightarrow> native_module option \<Rightarrow> manager \<Rightarrow> manager option" where
  "Register s nativeModule m =
     (case nativeModule of
        None \<Rightarrow> Some m
      | Some nm \<Rightarrow>
          let moduleName = registered_name nm m
          in if g_isLoadingModule m \<or> loadingModuleName m = moduleName
             then do { (l, ok) \<leftarrow> CreateTailNativeModule (sys_new s (mlst m)) (mlst m);
                       if \<not> ok then Some (m\<lparr>mlst := l\<rparr>)
                       else upd_tail (register_tail_fields nm (mm_isAppModule m) moduleName)
                              (SetLoadingNativeModuleKey (Some moduleName) (m\<lparr>mlst := l\<rparr>)) }
             else (let (l, ok) = CreateHeadNativeModule (sys_new s (mlst m)) (mlst m)
                   in if \<not> ok then Some (m\<lparr>mlst := l\<rparr>)
                      else upd_head (register_head_fields nm (mm_isAppModule m) moduleName) (m\<lparr>mlst := l\<rparr>)))"

text \<open>The constructors of a library register its modules one after the other.\<close>

fun register_all :: "system \<Rightarrow> native_module list \<Rightarrow> manager \<Rightarrow> manager option" where
  "register_all s [] m = Some m"
| "register_all s (nm # nms) m = do { m1 \<leftarrow> Register s (Some nm) m; register_all s nms m1 }"

definition RegisterByBuffer :: "system \<Rightarrow> string \<Rightarrow> addr option \<Rightarrow> int \<Rightarrow> manager \<Rightarrow> manager option" where
  "RegisterByBuffer s moduleKey abcBuffer len m =
     do { (l, ok) \<leftarrow> CreateTailNativeModule (sys_new s (mlst m)) (mlst m);
          if \<not> ok \<or> tailNativeModule l = None then Some (m\<lparr>mlst := l\<rparr>)
          else upd_tail (\<lambda>n. n\<lparr>nm_moduleName := Some moduleKey, nm_name := Some moduleKey,
                 nm_jsABCCode := abcBuffer, nm_jsCodeLen := len, nm_next := None\<rparr>) (m\<lparr>mlst := l\<rparr>) }"

section \<open>Looking a module up\<close>

record head_tail =
  ht_head :: "addr option"
  ht_tail :: "addr option"
  ht_match :: "addr option"

definition no_head_tail :: head_tail where
  "no_head_tail = \<lparr>ht_head = None, ht_tail = None, ht_match = None\<rparr>"

text \<open>
  A path buffer that was never written is \<open>None\<close>; comparing with it is \<open>None\<close>.  \<open>path_listed\<close> is the
  inner loop over the three paths.
\<close>

fun path_listed :: "string \<Rightarrow> string option list \<Rightarrow> bool option" where
  "path_listed p [] = Some False"
| "path_listed p (None # ps) = None"
| "path_listed p (Some q # ps) = (if p = q then Some True else path_listed p ps)"

definition node_named :: "string \<Rightarrow> native_module \<Rightarrow> bool" where
  "node_named moduleName n =
     (nm_moduleName n = Some moduleName \<or>
      (case nm_name n of None \<Rightarrow> False | Some s \<Rightarrow> strcasecmp_eq s moduleName))"

definition node_usable :: "string option list \<Rightarrow> native_module \<Rightarrow> bool option" where
  "node_usable paths n =
     (case nm_systemFilePath n of
        None \<Rightarrow> Some True
      | Some p \<Rightarrow> do { found \<leftarrow> path_listed p paths; Some (found \<or> p = []) })"

text \<open>The loop of \<open>FindNativeModuleByCache\<close>: the module found, and the last one with a conflicting path.\<close>

partial_function (option) find_scan ::
    "string \<Rightarrow> string option list \<Rightarrow> module_list \<Rightarrow> addr option \<Rightarrow> addr option \<Rightarrow> (addr option \<times> addr option) option" where
  "find_scan moduleName paths l temp cache =
     (case temp of
        None \<Rightarrow> Some (None, cache)
      | Some a \<Rightarrow>
          Option.bind (mods l a) (\<lambda>n.
            if node_named moduleName n
            then Option.bind (node_usable paths n) (\<lambda>ok.
                   if ok then Some (Some a, cache) else find_scan moduleName paths l (nm_next n) (Some a))
            else find_scan moduleName paths l (nm_next n) cache))"

declare find_scan.simps [code]

definition FindNativeModuleByCache ::
    "string \<Rightarrow> string option list \<Rightarrow> head_tail \<Rightarrow> bool \<Rightarrow> manager \<Rightarrow> (addr option \<times> addr option \<times> head_tail) option" where
  "FindNativeModuleByCache moduleName paths ht checkLoadingNativeModule m =
     (if \<not> checkLoadingNativeModule \<and> ht_match ht \<noteq> None
      then Some (ht_match ht, None, ht)
      else do { (found, cache) \<leftarrow> find_scan moduleName paths (mlst m) (headNativeModule (mlst m)) None;
                let loading = (found \<noteq> None \<and> checkLoadingNativeModule \<and>
                               strcasecmp_eq (loadingModuleKey m) moduleName);
                    ht1 = (if loading then ht\<lparr>ht_match := found\<rparr> else ht)
                in Some (if loading then None else found, cache,
                     ht1\<lparr>ht_head := headNativeModule (mlst m), ht_tail := tailNativeModule (mlst m)\<rparr>) })"

text \<open>The names at the cached head and tail are read; a null name is an error of \<open>strcmp\<close>.\<close>

definition name_at :: "module_list \<Rightarrow> addr \<Rightarrow> string option" where
  "name_at l a = do { n \<leftarrow> mods l a; nm_name n }"

definition CheckNativeListChanged :: "head_tail \<Rightarrow> manager \<Rightarrow> bool option" where
  "CheckNativeListChanged ht m =
     (case (ht_head ht, ht_tail ht, headNativeModule (mlst m), tailNativeModule (mlst m)) of
        (Some ch, Some ct, Some h, Some t) \<Rightarrow>
          if ht_match ht \<noteq> None then Some True
          else do { n1 \<leftarrow> name_at (mlst m) ch; n2 \<leftarrow> name_at (mlst m) h;
                    if n1 \<noteq> n2 then Some True
                    else do { n3 \<leftarrow> name_at (mlst m) ct; n4 \<leftarrow> name_at (mlst m) t; Some (n3 \<noteq> n4) } }
      | _ \<Rightarrow> Some True)"

section \<open>Opening libraries and byte code files\<close>

text \<open>The handle recorded for the module and the error text appended.\<close>

definition LoadModuleLibrary ::
    "system \<Rightarrow> string \<Rightarrow> string \<Rightarrow> string \<Rightarrow> bool \<Rightarrow> manager \<Rightarrow> (manager \<times> addr option \<times> string) option" where
  "LoadModuleLibrary s moduleKey path pathKey isAppModule m =
     (if path = [] then Some (m, None, ''load module '' @ moduleKey @ '' failed.'')
      else let inNs = (isAppModule \<and> IsExistedPath (appLibPathMap m) (Some pathKey));
               (lib, nms) = (if inNs then sys_dlopen s (Some pathKey) path
                             else if sys_access s path then sys_dlopen s None path else (None, []))
           in do { m1 \<leftarrow> register_all s nms m;
                   let err = (if lib = None
                              then ''failed '' @ (case sys_dlerror s path of Some e \<Rightarrow> e | None \<Rightarrow> path @ '' not exist'')
                              else []);
                       (m2, h) = EmplaceModuleLib moduleKey lib m1
                   in Some (m2, h, err) })"

definition maxAbcFileSize :: int where "maxAbcFileSize = 256 * 1024 * 1024"

definition GetFileBuffer :: "system \<Rightarrow> string \<Rightarrow> string \<Rightarrow> manager \<Rightarrow> manager \<times> addr option \<times> int" where
  "GetFileBuffer s filePath moduleKey m =
     (case sys_file s filePath of
        None \<Rightarrow> (m, None, 0)
      | Some (fileSize, readable) \<Rightarrow>
          if fileSize \<le> 0 \<or> fileSize > maxAbcFileSize then (m, None, 0)
          else (case GetBufferHandle moduleKey m of
                  Some cached \<Rightarrow> (m, Some cached, fileSize)
                | None \<Rightarrow>
                    if readable < fileSize then (m, None, 0)
                    else let b = sys_newbuf s (mlst m)
                         in (EmplaceModuleBuffer moduleKey (Some b)
                               (m\<lparr>mlst := (mlst m)\<lparr>abcs := insert b (abcs (mlst m))\<rparr>\<rparr>), Some b, fileSize)))"

definition MoveApiAllowListCheckerPtr :: "nat option \<Rightarrow> addr option \<Rightarrow> manager \<Rightarrow> manager option" where
  "MoveApiAllowListCheckerPtr chk nativeModule m =
     (case (chk, nativeModule) of
        (Some c, Some a) \<Rightarrow> do { l \<leftarrow> upd_module a (nm_apiAllowListChecker_update (\<lambda>_. Some c)) (mlst m); Some (m\<lparr>mlst := l\<rparr>) }
      | _ \<Rightarrow> Some m)"

text \<open>
  The library found for a module: the primary path, then the secondary one; with the error text of the
  two attempts and, where the linker was asked, its message.
\<close>

definition dlopen_tried :: "system \<Rightarrow> bool \<Rightarrow> string \<Rightarrow> string \<Rightarrow> manager \<Rightarrow> bool" where
  "dlopen_tried s isAppModule path p m =
     ((isAppModule \<and> IsExistedPath (appLibPathMap m) (Some path)) \<or> (\<not> isAppModule \<and> p \<noteq> [] \<and> sys_access s p))"

record lib_search =
  ls_lib :: "addr option"
  ls_loadPath :: string
  ls_errInfo :: string
  ls_dlopenErr :: "string option"

definition open_library ::
    "system \<Rightarrow> string \<Rightarrow> string \<Rightarrow> string \<times> string \<times> string \<Rightarrow> bool \<Rightarrow> string \<Rightarrow> manager \<Rightarrow> (manager \<times> lib_search) option" where
  "open_library s moduleKey path paths isAppModule errInfo m =
     (let (p0, p1, p2) = paths
      in do { (m1, lib0, firstErrInfo) \<leftarrow> LoadModuleLibrary s moduleKey p0 path isAppModule m;
              if lib0 \<noteq> None
              then Some (m1, \<lparr>ls_lib = lib0, ls_loadPath = p0, ls_errInfo = errInfo, ls_dlopenErr = None\<rparr>)
              else let first = (if dlopen_tried s isAppModule path p0 m1 then Some firstErrInfo else None)
                   in do { (m2, lib1, secondErrInfo) \<leftarrow> LoadModuleLibrary s moduleKey p1 path isAppModule m1;
                           if lib1 \<noteq> None
                           then Some (m2, \<lparr>ls_lib = lib1, ls_loadPath = p1, ls_errInfo = errInfo, ls_dlopenErr = first\<rparr>)
                           else Some (m2, \<lparr>ls_lib = None, ls_loadPath = p1,
                                  ls_errInfo = ''First: '' @ firstErrInfo @ ''.Second: '' @ secondErrInfo,
                                  ls_dlopenErr = (if dlopen_tried s isAppModule path p1 m2 then Some secondErrInfo else first)\<rparr>) } })"

text \<open>The symbol of the function that returns a module's code; \<open>None\<close> when it does not fit its buffer.\<close>

definition abc_symbol :: "string \<Rightarrow> string option" where
  "abc_symbol moduleKey =
     map_option (map (\<lambda>c. if c = CHR 0x2E \<or> c = CHR 0x2F then CHR 0x5F else c))
       (sprintf_path (''NAPI_'' @ moduleKey @ ''_GetABCCode''))"

text \<open>What a load returns: the module, the error text and the precise load error.\<close>

record load_result =
  lr_module :: "addr option"
  lr_errInfo :: string
  lr_loadErrInfo :: string

definition load_done :: "manager \<Rightarrow> addr option \<Rightarrow> string \<Rightarrow> string \<Rightarrow> (manager \<times> load_result) option" where
  "load_done m a errInfo loadErrInfo = Some (m, \<lparr>lr_module = a, lr_errInfo = errInfo, lr_loadErrInfo = loadErrInfo\<rparr>)"

text \<open>The end of \<open>FindNativeModuleByDisk\<close>: the key is reset and the tail module is returned.\<close>

definition finish_load :: "nat option \<Rightarrow> string \<Rightarrow> string \<Rightarrow> manager \<Rightarrow> (manager \<times> load_result) option" where
  "finish_load chk errInfo loadErrInfo m =
     (let m1 = SetLoadingNativeModuleKey (Some []) m
      in case tailNativeModule (mlst m1) of
           None \<Rightarrow> load_done m1 None errInfo ''internal error: module create failed''
         | Some t \<Rightarrow>
             do { m2 \<leftarrow> upd_tail (nm_moduleLoaded_update (\<lambda>_. True)) m1;
                  m3 \<leftarrow> MoveApiAllowListCheckerPtr chk (Some t) m2;
                  load_done m3 (Some t) errInfo loadErrInfo })"

text \<open>The part of \<open>FindNativeModuleByDisk\<close> after the library or the byte code was found.\<close>

definition bind_module ::
    "system \<Rightarrow> string \<Rightarrow> string \<Rightarrow> addr option \<Rightarrow> (addr \<times> int) option \<Rightarrow> bool \<Rightarrow> nat option \<Rightarrow> string \<Rightarrow> string \<Rightarrow>
     manager \<Rightarrow> (manager \<times> load_result) option" where
  "bind_module s moduleKey loadPath lib abc internal chk errInfo loadErrInfo m =
     do { m1 \<leftarrow> (case lib of None \<Rightarrow> Some m | Some h \<Rightarrow> register_all s (sys_onLoad s h) m);
          m2 \<leftarrow> (if tailNativeModule (mlst m1) \<noteq> None \<and> abc = None
                then upd_tail (\<lambda>n. n\<lparr>nm_moduleName := Some moduleKey, nm_systemFilePath := Some loadPath\<rparr>) m1
                else Some m1);
          if internal then finish_load chk errInfo loadErrInfo m2
          else (case abc_symbol moduleKey of
            None \<Rightarrow>
              let m3 = (case lib of None \<Rightarrow> m2 | Some h \<Rightarrow> m2\<lparr>dlclosed := dlclosed m2 @ [h]\<rparr>)
              in load_done (SetLoadingNativeModuleKey (Some []) m3) None
                   (''sprintf symbol NAPI_'' @ moduleKey @ ''_GetABCCode failed'') ''symbol format error''
          | Some symbol \<Rightarrow>
              (case lib of
                 Some h \<Rightarrow>
                   (case sys_getJSCode s h symbol of
                      None \<Rightarrow>
                        do { m3 \<leftarrow> MoveApiAllowListCheckerPtr chk (tailNativeModule (mlst m2)) m2;
                             load_done (SetLoadingNativeModuleKey (Some []) m3) (tailNativeModule (mlst m3))
                               errInfo loadErrInfo }
                    | Some (buf, bufLen) \<Rightarrow>
                        do { m3 \<leftarrow> (if tailNativeModule (mlst m2) \<noteq> None
                                   then upd_tail (\<lambda>n. n\<lparr>nm_jsCode := buf, nm_jsCodeLen := bufLen\<rparr>) m2 else Some m2);
                             finish_load chk errInfo loadErrInfo m3 })
               | None \<Rightarrow>
                   do { m3 \<leftarrow> RegisterByBuffer s moduleKey (map_option fst abc) (case abc of None \<Rightarrow> 0 | Some (b, len) \<Rightarrow> len) m2;
                        m4 \<leftarrow> (if tailNativeModule (mlst m3) \<noteq> None
                              then upd_tail (nm_systemFilePath_update (\<lambda>_. Some loadPath)) m3 else Some m3);
                        finish_load chk errInfo loadErrInfo m4 })) }"

definition blocked_load :: "string \<Rightarrow> manager \<Rightarrow> (manager \<times> load_result) option" where
  "blocked_load moduleName m =
     load_done m None (''module '' @ moduleName @ '' is in blocklist, loading prohibited'')
       (''module '' @ moduleName @ '' is in blocklist'')"

definition FindNativeModuleByDisk ::
    "system \<Rightarrow> string \<Rightarrow> string \<Rightarrow> bool \<Rightarrow> bool \<Rightarrow> string \<Rightarrow> string \<Rightarrow> string \<times> string \<times> string \<Rightarrow> addr option \<Rightarrow>
     manager \<Rightarrow> (manager \<times> load_result) option" where
  "FindNativeModuleByDisk s moduleName path internal isAppModule errInfo loadErrInfo paths cacheNativeModule m =
     (let (loadable, chk) = CheckModuleLoadable s moduleName isAppModule
      in if \<not> loadable then blocked_load moduleName m
         else let moduleKey = (if isAppModule then path @ ''/'' @ moduleName else moduleName)
              in do { (m1, r) \<leftarrow> open_library s moduleKey path paths isAppModule errInfo (m\<lparr>loadingModuleName := moduleKey\<rparr>);
                      if ls_lib r \<noteq> None
                      then bind_module s moduleKey (ls_loadPath r) (ls_lib r) None internal chk (ls_errInfo r) loadErrInfo m1
                      else if cacheNativeModule \<noteq> None
                      then load_done m1 cacheNativeModule (ls_errInfo r) loadErrInfo
                      else let (p0, p1, p2) = paths; (m2, abcBuffer, len) = GetFileBuffer s p2 moduleKey m1
                           in case abcBuffer of
                                Some b \<Rightarrow> bind_module s moduleKey p2 None (Some (b, len)) internal chk (ls_errInfo r) loadErrInfo m2
                              | None \<Rightarrow>
                                  load_done m2 None (ls_errInfo r @ ''.load '' @ p2 @ '' failed'')
                                    (ClassifyLoadError \<lparr>dlopenFailed = (ls_dlopenErr r \<noteq> None),
                                       dlopenErrMsg = (case ls_dlopenErr r of None \<Rightarrow> [] | Some e \<Rightarrow> e),
                                       e_isAppModule = isAppModule,
                                       pathRegistered = IsExistedPath (appLibPathMap m2) (Some path), e_path = path\<rparr>) })"

section \<open>Requests\<close>

text \<open>
  \<open>LoadNativeModuleWithErrorInfo\<close> in two parts: the checks and the first look at the list, and what
  happens once \<open>mutex_\<close> is held; other threads may run in between.
\<close>

record load_request =
  rq_moduleName :: string
  rq_prefix :: string
  rq_key :: string
  rq_isApp :: bool
  rq_internal :: bool
  rq_paths :: "string \<times> string \<times> string"
  rq_checker :: "nat option"
  rq_errInfo :: string
  rq_loadErrInfo :: string

definition path_list :: "string \<times> string \<times> string \<Rightarrow> string option list" where
  "path_list ps = (case ps of (p0, p1, p2) \<Rightarrow> [Some p0, Some p1, Some p2])"

text \<open>The checks: \<open>Inl\<close> is the early return.\<close>

definition load_checks ::
    "system \<Rightarrow> string option \<Rightarrow> string option \<Rightarrow> bool \<Rightarrow> string \<Rightarrow> bool \<Rightarrow> string option \<Rightarrow> string \<Rightarrow> manager \<Rightarrow>
     load_result + load_request" where
  "load_checks s moduleName path isAppModule errInfo internal relativePath loadErrInfo m =
     (case moduleName of
        None \<Rightarrow> Inl \<lparr>lr_module = None, lr_errInfo = ''nullptr'', lr_loadErrInfo = ''moduleName is nullptr''\<rparr>
      | Some name \<Rightarrow> (case relativePath of
        None \<Rightarrow> Inl \<lparr>lr_module = None, lr_errInfo = ''nullptr'', lr_loadErrInfo = ''relativePath is nullptr''\<rparr>
      | Some rel \<Rightarrow>
          if contains ''..'' rel
          then Inl \<lparr>lr_module = None, lr_errInfo = errInfo, lr_loadErrInfo = ''invalid relativePath''\<rparr>
          else let (loadable, chk) = (if DiskCheckOnly s then (True, None) else CheckModuleLoadable s name isAppModule)
               in if \<not> loadable
                  then Inl \<lparr>lr_module = None, lr_errInfo = ''module '' @ name @ '' is in blocklist, loading prohibited'',
                            lr_loadErrInfo = ''module '' @ name @ '' is in blocklist''\<rparr>
                  else let prefixTmp = (if \<not> isAppModule then []
                             else (case path of Some p \<Rightarrow> if IsExistedPath (appLibPathMap m) path then p else ''default''
                                              | None \<Rightarrow> ''default''));
                           key = (if isAppModule then prefixTmp @ ''/'' @ name else name)
                       in (case GetNativeModulePath (appLibPathMap m) (previewSearchPath m) name (Some prefixTmp) rel isAppModule of
                             None \<Rightarrow> Inl \<lparr>lr_module = None, lr_errInfo = ''failed '' @ name,
                                       lr_loadErrInfo = ''cannot construct module path''\<rparr>
                           | Some paths \<Rightarrow> Inr \<lparr>rq_moduleName = name, rq_prefix = prefixTmp, rq_key = key, rq_isApp = isAppModule,
                                rq_internal = internal, rq_paths = paths, rq_checker = chk, rq_errInfo = errInfo,
                                rq_loadErrInfo = loadErrInfo\<rparr>)))"

text \<open>Under \<open>mutex_\<close>: look again when the list changed, then go to disk.\<close>

definition load_locked ::
    "system \<Rightarrow> load_request \<Rightarrow> addr option \<Rightarrow> head_tail \<Rightarrow> manager \<Rightarrow> (manager \<times> load_result) option" where
  "load_locked s q cache ht m =
     do { changed \<leftarrow> CheckNativeListChanged ht m;
          (found, cache1) \<leftarrow> (if changed
             then do { (f, c, ht1) \<leftarrow> FindNativeModuleByCache (rq_key q) (path_list (rq_paths q)) ht False m; Some (f, c) }
             else Some (None, cache));
          if found \<noteq> None then load_done m found (rq_errInfo q) (rq_loadErrInfo q)
          else do { (m1, r) \<leftarrow> FindNativeModuleByDisk s (rq_moduleName q) (rq_prefix q) (rq_internal q) (rq_isApp q)
                      (rq_errInfo q) (rq_loadErrInfo q) (rq_paths q) cache1
                      (m\<lparr>mm_prefix := rq_prefix q, mm_isAppModule := rq_isApp q, g_isLoadingModule := True\<rparr>);
                    Some (m1\<lparr>g_isLoadingModule := False\<rparr>, r) } }"

text \<open>The checker of the request is handed to the module unless it has one already.\<close>

definition give_checker :: "nat option \<Rightarrow> manager \<times> load_result \<Rightarrow> (manager \<times> load_result) option" where
  "give_checker chk res =
     (case res of (m, r) \<Rightarrow>
       (case lr_module r of
          None \<Rightarrow> Some (m, r)
        | Some a \<Rightarrow>
            do { n \<leftarrow> mods (mlst m) a;
                 if nm_apiAllowListChecker n = None
                 then do { m1 \<leftarrow> MoveApiAllowListCheckerPtr chk (Some a) m; Some (m1, r) }
                 else Some (m, r) }))"

definition LoadNativeModuleWithErrorInfo ::
    "system \<Rightarrow> string option \<Rightarrow> string option \<Rightarrow> bool \<Rightarrow> string \<Rightarrow> bool \<Rightarrow> string option \<Rightarrow> string \<Rightarrow> manager \<Rightarrow>
     (manager \<times> load_result) option" where
  "LoadNativeModuleWithErrorInfo s moduleName path isAppModule errInfo internal relativePath loadErrInfo m =
     (case load_checks s moduleName path isAppModule errInfo internal relativePath loadErrInfo m of
        Inl r \<Rightarrow> Some (m, r)
      | Inr q \<Rightarrow>
          do { (found, cache, ht) \<leftarrow> FindNativeModuleByCache (rq_key q) (path_list (rq_paths q)) no_head_tail True m;
               res \<leftarrow> (if found \<noteq> None then load_done m found (rq_errInfo q) (rq_loadErrInfo q)
                      else load_locked s q cache ht m);
               give_checker (rq_checker q) res })"

definition LoadNativeModule ::
    "system \<Rightarrow> string option \<Rightarrow> string option \<Rightarrow> bool \<Rightarrow> string \<Rightarrow> bool \<Rightarrow> string option \<Rightarrow> manager \<Rightarrow>
     (manager \<times> addr option \<times> string) option" where
  "LoadNativeModule s moduleName path isAppModule errInfo internal relativePath m =
     map_option (\<lambda>(m1, r). (m1, lr_module r, lr_errInfo r))
       (LoadNativeModuleWithErrorInfo s moduleName path isAppModule errInfo internal relativePath [] m)"

text \<open>The buffers of \<open>GetModuleFileName\<close> are not initialised: a path not produced is \<open>None\<close>.\<close>

definition GetModuleFileName :: "string option \<Rightarrow> bool \<Rightarrow> manager \<Rightarrow> string option" where
  "GetModuleFileName moduleName isAppModule m =
     (case moduleName of
        None \<Rightarrow> Some []
      | Some mn \<Rightarrow>
          let name = (if isAppModule then mm_prefix m @ ''/'' @ mn else mn)
          in (case GetNativeModulePath (appLibPathMap m) (previewSearchPath m) mn (Some ''default'') [] isAppModule of
                None \<Rightarrow> Some []
              | Some (p0, p1, p2) \<Rightarrow>
                  do { (found, cache, ht) \<leftarrow> FindNativeModuleByCache name
                         (map (\<lambda>p. if p = [] then None else Some p) [p0, p1, p2]) no_head_tail False m;
                       Some (if found = None then []
                             else (case (if isAppModule then appLibPathMap m ''default'' else None) of
                                     Some v \<Rightarrow> v @ ''/'' @ p0
                                   | None \<Rightarrow> p0)) }))"

section \<open>Name spaces and library paths\<close>

definition GetLdNamespaceName :: "string \<Rightarrow> manager \<Rightarrow> string option" where
  "GetLdNamespaceName moduleName m = (if moduleName \<in> nsMap m then Some (''moduleNs_'' @ moduleName) else None)"

definition SetAppLibPath :: "string \<Rightarrow> string list \<Rightarrow> manager \<Rightarrow> manager" where
  "SetAppLibPath moduleName appLibPath m =
     m\<lparr>appLibPathMap := (appLibPathMap m)(moduleName \<mapsto> app_lib_path appLibPath), nsMap := insert moduleName (nsMap m)\<rparr>"

definition UpdateNamespaceLibPath :: "system \<Rightarrow> string \<Rightarrow> string list \<Rightarrow> manager \<Rightarrow> manager" where
  "UpdateNamespaceLibPath s moduleName appLibPath m =
     (case GetLdNamespaceName moduleName m of
        None \<Rightarrow> m
      | Some nsName \<Rightarrow>
          let tmpPath = extend_lib_path (case appLibPathMap m moduleName of None \<Rightarrow> [] | Some v \<Rightarrow> v) appLibPath
          in if sys_set_lib_path s nsName tmpPath \<noteq> 0 then m
             else m\<lparr>appLibPathMap := (appLibPathMap m)(moduleName \<mapsto> tmpPath)\<rparr>)"

definition SetPreviewSearchPath :: "string \<Rightarrow> manager \<Rightarrow> manager" where
  "SetPreviewSearchPath p m = m\<lparr>previewSearchPath := p\<rparr>"

definition destroy_NativeModuleManager :: "manager \<Rightarrow> manager option" where
  "destroy_NativeModuleManager m =
     do { l \<leftarrow> destroy_modules (headNativeModule (mlst m)) (mlst m); Some (m\<lparr>mlst := l, appLibPathMap := Map.empty\<rparr>) }"

end
