(* ===== verification/Module_Loading.thy ===== *)
theory Module_Loading
  imports Module_Manager
begin

text \<open>
  Properties of the module manager.  \<open>minv\<close> says that the list of modules is well formed and every
  module in it has a name; every operation keeps it for an allocator that never returns an address in
  use (\<open>system_ok\<close>).
\<close>

definition system_ok :: "system \<Rightarrow> bool" where
  "system_ok s \<longleftrightarrow> (\<forall>l a. sys_new s l = Some a \<longrightarrow> a \<notin> dom (mods l))"

text \<open>No byte code file can be opened: all modules come from native libraries.\<close>

definition native_only :: "system \<Rightarrow> bool" where
  "native_only s \<longleftrightarrow> (\<forall>p. sys_file s p = None)"

definition linv :: "module_list \<Rightarrow> addr list \<Rightarrow> bool" where
  "linv l xs \<longleftrightarrow> mlist l xs \<and> list_all (\<lambda>n. nm_name n \<noteq> None) (contents l xs)"

abbreviation minv :: "manager \<Rightarrow> addr list \<Rightarrow> bool" where
  "minv m xs \<equiv> linv (mlst m) xs"

text \<open>
  A load that touched no freed memory: the modules \<open>xs\<close> are still there and the module returned, if
  any, is one of the list.
\<close>

definition good_load :: "addr list \<Rightarrow> (manager \<times> load_result) option \<Rightarrow> bool" where
  "good_load xs res \<longleftrightarrow> (\<exists>m' r ys. res = Some (m', r) \<and> minv m' ys \<and> set xs \<subseteq> set ys \<and>
     (case lr_module r of None \<Rightarrow> True | Some a \<Rightarrow> a \<in> set ys))"

section \<open>Updates of single fields\<close>

lemma key_simps [simp]:
  "mlst (SetLoadingNativeModuleKey k m) = mlst m"
  "moduleLibMap (SetLoadingNativeModuleKey k m) = moduleLibMap m"
  "appLibPathMap (SetLoadingNativeModuleKey k m) = appLibPathMap m"
  "loadingModuleKey (SetLoadingNativeModuleKey (Some q) m) = q"
  by (simp_all add: SetLoadingNativeModuleKey_def split: option.split)

lemma minv_new: "minv new_manager []"
  by (simp add: linv_def new_manager_def mlist_empty contents_def)

lemma minv_mlist: "minv m xs \<Longrightarrow> mlist (mlst m) xs"
  by (simp add: linv_def)

lemma minv_tail: "minv m xs \<Longrightarrow> tailNativeModule (mlst m) = last_opt xs"
  by (auto simp: linv_def mlist_def)

lemma minv_head: "minv m xs \<Longrightarrow> headNativeModule (mlst m) = hd_opt xs"
  by (auto simp: linv_def mlist_head)

lemma minv_live: "minv m xs \<Longrightarrow> a \<in> set xs \<longleftrightarrow> mods (mlst m) a \<noteq> None"
  by (auto simp: linv_def mlist_def)

lemma minv_named:
  assumes "minv m xs" "mods (mlst m) a = Some n"
  shows "nm_name n \<noteq> None"
proof -
  have a: "a \<in> set xs" using assms minv_live by fastforce
  then have "(the (mods (mlst m) a))\<lparr>nm_next := None\<rparr> \<in> set (contents (mlst m) xs)"
    by (auto simp: contents_def)
  then have "nm_name ((the (mods (mlst m) a))\<lparr>nm_next := None\<rparr>) \<noteq> None"
    using assms(1) unfolding linv_def list_all_iff by blast
  then show ?thesis using assms(2) by simp
qed

section \<open>Assignments through the tail and the head\<close>

lemma upd_end_aux:
  assumes l: "mlist l (xs @ a # ys)"
    and f: "\<And>n. mods l a = Some n \<Longrightarrow> nm_next (f n) = nm_next n" "\<And>n. nm_jsABCCode (f n) = nm_jsABCCode n"
      "\<And>n. (f n)\<lparr>nm_next := None\<rparr> = f (n\<lparr>nm_next := None\<rparr>)"
    and c: "contents l (xs @ a # ys) = ns @ n0 # ms" and len: "length ns = length xs"
  shows "\<exists>l'. upd_module a f l = Some l' \<and> mlist l' (xs @ a # ys) \<and>
    contents l' (xs @ a # ys) = ns @ f n0 # ms \<and> abcs l' = abcs l"
proof -
  obtain l' m where l': "upd_module a f l = Some l'" "mlist l' (xs @ a # ys)" "mods l a = Some m"
    "contents l' (xs @ a # ys) = contents l xs @ f (m\<lparr>nm_next := None\<rparr>) # contents l ys" "abcs l' = abcs l"
    using upd_module_ok [OF l, of f] f by blast
  have "contents l (xs @ a # ys) = contents l xs @ m\<lparr>nm_next := None\<rparr> # contents l ys"
    using l'(3) by (simp add: contents_def)
  with c len have "contents l xs = ns \<and> m\<lparr>nm_next := None\<rparr> = n0 \<and> contents l ys = ms"
    by (simp add: contents_def)
  with l' show ?thesis by auto
qed

definition tail_update :: "(native_module \<Rightarrow> native_module) \<Rightarrow> bool" where
  "tail_update f \<longleftrightarrow> (\<forall>n. (nm_next n = None \<longrightarrow> nm_next (f n) = None) \<and> nm_jsABCCode (f n) = nm_jsABCCode n \<and>
     (f n)\<lparr>nm_next := None\<rparr> = f (n\<lparr>nm_next := None\<rparr>))"

lemma upd_tail_ok:
  assumes l: "mlist (mlst m) (xs @ [t])" and f: "tail_update f"
    and c: "contents (mlst m) (xs @ [t]) = ns @ [n0]"
  shows "\<exists>l'. upd_tail f m = Some (m\<lparr>mlst := l'\<rparr>) \<and> mlist l' (xs @ [t]) \<and> contents l' (xs @ [t]) = ns @ [f n0] \<and>
    abcs l' = abcs (mlst m)"
proof -
  have t: "tailNativeModule (mlst m) = Some t" using mlist_tail [OF l] by simp
  have nx: "nm_next n = None" if "mods (mlst m) t = Some n" for n
    using l that by (auto simp: mlist_def mseg_append)
  have len: "length ns = length xs" using arg_cong [OF c, of length] by (simp add: contents_def)
  obtain l' where "upd_module t f (mlst m) = Some l'" "mlist l' (xs @ [t])" "contents l' (xs @ [t]) = ns @ [f n0]"
    "abcs l' = abcs (mlst m)"
    using upd_end_aux [OF l, of f ns n0 "[]"] f c len nx by (auto simp: tail_update_def)
  then show ?thesis using t by (auto simp: upd_tail_def intro!: exI [of _ l'])
qed

lemma tail_updates [simp]:
  "tail_update (register_tail_fields nm b s)"
  "tail_update (\<lambda>n. n\<lparr>nm_moduleName := k, nm_systemFilePath := p\<rparr>)"
  "tail_update (nm_moduleLoaded_update g)"
  "tail_update (\<lambda>n. n\<lparr>nm_jsCode := buf, nm_jsCodeLen := len\<rparr>)"
  "tail_update (nm_systemFilePath_update h)"
  "tail_update (nm_apiAllowListChecker_update c)"
  by (simp_all add: tail_update_def register_tail_fields_def register_head_fields_def)

lemma upd_tail_minv:
  assumes m: "minv m xs" and t: "tailNativeModule (mlst m) \<noteq> None" and f: "tail_update f"
    and nm: "\<And>n. nm_name n \<noteq> None \<Longrightarrow> nm_name (f n) \<noteq> None"
  shows "\<exists>l'. upd_tail f m = Some (m\<lparr>mlst := l'\<rparr>) \<and> minv (m\<lparr>mlst := l'\<rparr>) xs \<and>
    contents l' xs = butlast (contents (mlst m) xs) @ [f (last (contents (mlst m) xs))] \<and> abcs l' = abcs (mlst m)"
proof -
  obtain ys a where xs: "xs = ys @ [a]" using t minv_tail [OF m] by (cases xs rule: rev_cases) (auto simp: last_opt_def)
  let ?c = "contents (mlst m) xs"
  have c: "?c = butlast ?c @ [last ?c]" by (simp add: xs contents_def)
  have l: "mlist (mlst m) (ys @ [a])" using m xs by (simp add: linv_def)
  obtain l' where l': "upd_tail f m = Some (m\<lparr>mlst := l'\<rparr>)" "mlist l' xs" "contents l' xs = butlast ?c @ [f (last ?c)]"
    "abcs l' = abcs (mlst m)"
    using upd_tail_ok [OF l f, of "butlast ?c" "last ?c"] c xs by auto
  have "list_all (\<lambda>n. nm_name n \<noteq> None) ?c" using m by (simp add: linv_def)
  then have "list_all (\<lambda>n. nm_name n \<noteq> None) (butlast ?c @ [f (last ?c)])"
    using nm by (subst (asm) c) (simp add: list_all_iff)
  then have "minv (m\<lparr>mlst := l'\<rparr>) xs" using l' by (simp add: linv_def)
  with l' show ?thesis by blast
qed

lemma upd_any_minv:
  assumes m: "minv m xs" and a: "a \<in> set xs"
    and f: "\<And>n. nm_next (f n) = nm_next n" "\<And>n. nm_jsABCCode (f n) = nm_jsABCCode n"
      "\<And>n. (f n)\<lparr>nm_next := None\<rparr> = f (n\<lparr>nm_next := None\<rparr>)" "\<And>n. nm_name (f n) = nm_name n"
  shows "\<exists>l'. upd_module a f (mlst m) = Some l' \<and> minv (m\<lparr>mlst := l'\<rparr>) xs \<and> abcs l' = abcs (mlst m)"
proof -
  obtain ys zs where xs: "xs = ys @ a # zs" using a by (meson split_list)
  obtain l' n where l': "upd_module a f (mlst m) = Some l'" "mlist l' xs" "mods (mlst m) a = Some n"
    "contents l' xs = contents (mlst m) ys @ f (n\<lparr>nm_next := None\<rparr>) # contents (mlst m) zs" "abcs l' = abcs (mlst m)"
    using upd_module_ok [of "mlst m" ys a zs f] f m xs by (auto simp: linv_def)
  have "contents (mlst m) xs = contents (mlst m) ys @ n\<lparr>nm_next := None\<rparr> # contents (mlst m) zs"
    using xs l'(3) by (simp add: contents_def)
  then have "list_all (\<lambda>n. nm_name n \<noteq> None) (contents l' xs)"
    using m l'(4) f(4) by (simp add: linv_def)
  then show ?thesis using l' by (auto simp: linv_def)
qed

lemma Move_ok:
  assumes "minv m xs" "case b of None \<Rightarrow> True | Some a \<Rightarrow> a \<in> set xs"
  shows "\<exists>l'. MoveApiAllowListCheckerPtr chk b m = Some (m\<lparr>mlst := l'\<rparr>) \<and> minv (m\<lparr>mlst := l'\<rparr>) xs"
proof (cases chk; cases b)
  fix c a assume e: "chk = Some c" "b = Some a"
  have "\<exists>l'. upd_module a (nm_apiAllowListChecker_update (\<lambda>_. Some c)) (mlst m) = Some l' \<and> minv (m\<lparr>mlst := l'\<rparr>) xs \<and>
      abcs l' = abcs (mlst m)"
    by (rule upd_any_minv [OF assms(1)]) (use assms(2) e in auto)
  then show ?thesis using e by (auto simp: MoveApiAllowListCheckerPtr_def)
qed (use assms in \<open>auto simp: MoveApiAllowListCheckerPtr_def intro!: exI [of _ "mlst m"]\<close>)

section \<open>Registration\<close>

lemma register_fields_simps [simp]:
  "nm_name (register_tail_fields nm b k n) = Some k" "nm_name (register_head_fields nm b k n) = Some k"
  "nm_next (register_head_fields nm b k n) = nm_next n"
  "nm_jsABCCode (register_head_fields nm b k n) = nm_jsABCCode n"
  "(register_head_fields nm b k n)\<lparr>nm_next := None\<rparr> = register_head_fields nm b k (n\<lparr>nm_next := None\<rparr>)"
  by (simp_all add: register_tail_fields_def register_head_fields_def)

text \<open>While a module is loaded, a registration appends one node and records its name.\<close>

lemma Register_tail:
  assumes m: "minv m xs" and s: "system_ok s" "sys_new s (mlst m) = Some a"
    and g: "g_isLoadingModule m \<or> loadingModuleName m = registered_name nm m"
  shows "\<exists>l. Register s (Some nm) m = Some (m\<lparr>mlst := l, loadingModuleKey := registered_name nm m\<rparr>) \<and>
    minv (m\<lparr>mlst := l\<rparr>) (xs @ [a]) \<and> abcs l = abcs (mlst m) \<and>
    contents l (xs @ [a]) = contents (mlst m) xs @
      [register_tail_fields nm (mm_isAppModule m) (registered_name nm m) new_NativeModule]"
proof -
  let ?k = "registered_name nm m"
  have a: "a \<notin> dom (mods (mlst m))" using s by (simp add: system_ok_def)
  obtain l1 where l1: "CreateTailNativeModule (Some a) (mlst m) = Some (l1, True)" "mlist l1 (xs @ [a])"
    "contents l1 (xs @ [a]) = contents (mlst m) xs @ [new_NativeModule]" "abcs l1 = abcs (mlst m)"
    using CreateTail_ok [OF minv_mlist [OF m] a] by blast
  let ?m1 = "m\<lparr>mlst := l1, loadingModuleKey := ?k\<rparr>"
  obtain l2 where l2: "upd_tail (register_tail_fields nm (mm_isAppModule m) ?k) ?m1 = Some (?m1\<lparr>mlst := l2\<rparr>)"
    "mlist l2 (xs @ [a])" "contents l2 (xs @ [a]) = contents (mlst m) xs @
      [register_tail_fields nm (mm_isAppModule m) ?k new_NativeModule]" "abcs l2 = abcs l1"
    using upd_tail_ok [of ?m1 xs a "register_tail_fields nm (mm_isAppModule m) ?k" "contents (mlst m) xs" new_NativeModule] l1
    by auto
  have "Register s (Some nm) m = Some (?m1\<lparr>mlst := l2\<rparr>)"
    using g l1(1) l2(1) s(2) by (simp add: Register_def SetLoadingNativeModuleKey_def Let_def)
  moreover have "minv (m\<lparr>mlst := l2\<rparr>) (xs @ [a])"
    using l2 m by (simp add: linv_def)
  ultimately show ?thesis using l2 l1(4) by (intro exI [of _ l2]) simp
qed

lemma Register_ok:
  assumes m: "minv m xs" and s: "system_ok s"
  shows "\<exists>l k ys. Register s nm m = Some (m\<lparr>mlst := l, loadingModuleKey := k\<rparr>) \<and> minv (m\<lparr>mlst := l\<rparr>) ys \<and>
    set xs \<subseteq> set ys"
proof -
  have triv: "m\<lparr>mlst := mlst m, loadingModuleKey := loadingModuleKey m\<rparr> = m" "m\<lparr>mlst := mlst m\<rparr> = m" by simp_all
  show ?thesis
  proof (cases nm)
    case None
    show ?thesis unfolding Register_def None option.case
      using m by (intro exI [of _ "mlst m"] exI [of _ "loadingModuleKey m"] exI [of _ xs]) simp
  next
    case (Some n)
    show ?thesis
    proof (cases "sys_new s (mlst m)")
      case None
      show ?thesis unfolding Register_def Some option.case None CreateTail_fail CreateHead_fail
        using m by (intro exI [of _ "mlst m"] exI [of _ "loadingModuleKey m"] exI [of _ xs]) (simp add: Let_def)
    next
      case a: (Some a)
      show ?thesis
      proof (cases "g_isLoadingModule m \<or> loadingModuleName m = registered_name n m")
        case True
        show ?thesis using Register_tail [OF m s a True] Some by (metis set_append Un_upper1)
      next
        case False
        let ?f = "register_head_fields n (mm_isAppModule m) (registered_name n m)"
        have af: "a \<notin> dom (mods (mlst m))" using s a by (simp add: system_ok_def)
        obtain l1 where l1: "CreateHeadNativeModule (Some a) (mlst m) = (l1, True)" "mlist l1 (a # xs)"
          "contents l1 (a # xs) = new_NativeModule # contents (mlst m) xs"
          using CreateHead_ok [OF minv_mlist [OF m] af] by blast
        obtain l2 where l2: "upd_module a ?f l1 = Some l2" "mlist l2 (a # xs)"
          "contents l2 (a # xs) = ?f new_NativeModule # contents (mlst m) xs"
          using upd_end_aux [of l1 "[]" a xs ?f "[]" new_NativeModule "contents (mlst m) xs"] l1 by auto
        have "Register s nm m = Some (m\<lparr>mlst := l2\<rparr>)"
          using False l1(1) l2(1) a Some mlist_head [OF l1(2)] by (simp add: Register_def Let_def upd_head_def)
        moreover have "minv (m\<lparr>mlst := l2\<rparr>) (a # xs)" using l2 m by (simp add: linv_def)
        ultimately show ?thesis
          by (intro exI [of _ l2] exI [of _ "loadingModuleKey m"] exI [of _ "a # xs"]) auto
      qed
    qed
  qed
qed

lemma register_all_ok:
  assumes "minv m xs" "system_ok s"
  shows "\<exists>l k ys. register_all s nms m = Some (m\<lparr>mlst := l, loadingModuleKey := k\<rparr>) \<and> minv (m\<lparr>mlst := l\<rparr>) ys \<and>
    set xs \<subseteq> set ys"
  using assms
proof (induction nms arbitrary: m xs)
  case Nil
  then show ?case
    by (intro exI [of _ "mlst m"] exI [of _ "loadingModuleKey m"] exI [of _ xs]) simp
next
  case (Cons n nms)
  obtain l k ys where 1: "Register s (Some n) m = Some (m\<lparr>mlst := l, loadingModuleKey := k\<rparr>)"
    "minv (m\<lparr>mlst := l\<rparr>) ys" "set xs \<subseteq> set ys"
    using Register_ok [OF Cons.prems, of "Some n"] by blast
  have 2: "minv (m\<lparr>mlst := l, loadingModuleKey := k\<rparr>) ys" using 1(2) by simp
  obtain l' k' zs where 3: "register_all s nms (m\<lparr>mlst := l, loadingModuleKey := k\<rparr>) =
      Some (m\<lparr>mlst := l, loadingModuleKey := k, mlst := l', loadingModuleKey := k'\<rparr>)"
    "minv (m\<lparr>mlst := l, loadingModuleKey := k, mlst := l'\<rparr>) zs" "set ys \<subseteq> set zs"
    using Cons.IH [OF 2 Cons.prems(2)] by blast
  then show ?case using 1
    by (intro exI [of _ l'] exI [of _ k'] exI [of _ zs]) auto
qed

section \<open>Loading a library\<close>

lemma EmplaceModuleLib_frame:
  "EmplaceModuleLib k lib m = (m', h) \<Longrightarrow> \<exists>lm. m' = m\<lparr>moduleLibMap := lm\<rparr>"
  by (auto simp: EmplaceModuleLib_def split: option.splits intro: exI [of _ "moduleLibMap m"])

lemma LoadModuleLibrary_ok:
  assumes m: "minv m xs" and s: "system_ok s"
  shows "\<exists>l k lm ys h e. LoadModuleLibrary s key p pk app m =
      Some (m\<lparr>mlst := l, loadingModuleKey := k, moduleLibMap := lm\<rparr>, h, e) \<and>
    minv (m\<lparr>mlst := l\<rparr>) ys \<and> set xs \<subseteq> set ys"
proof (cases "p = []")
  case True
  then show ?thesis using m
    by (intro exI [of _ "mlst m"] exI [of _ "loadingModuleKey m"] exI [of _ "moduleLibMap m"] exI [of _ xs])
      (simp add: LoadModuleLibrary_def)
next
  case False
  define o1 where "o1 = (if app \<and> IsExistedPath (appLibPathMap m) (Some pk) then sys_dlopen s (Some pk) p
    else if sys_access s p then sys_dlopen s None p else (None, []))"
  obtain lib nms where o1: "o1 = (lib, nms)" by (cases o1)
  obtain l k ys where r: "register_all s nms m = Some (m\<lparr>mlst := l, loadingModuleKey := k\<rparr>)"
    "minv (m\<lparr>mlst := l\<rparr>) ys" "set xs \<subseteq> set ys"
    using register_all_ok [OF m s] by blast
  obtain m2 h where e: "EmplaceModuleLib key lib (m\<lparr>mlst := l, loadingModuleKey := k\<rparr>) = (m2, h)"
    by (cases "EmplaceModuleLib key lib (m\<lparr>mlst := l, loadingModuleKey := k\<rparr>)")
  obtain lm where "m2 = m\<lparr>mlst := l, loadingModuleKey := k, moduleLibMap := lm\<rparr>"
    using EmplaceModuleLib_frame [OF e] by auto
  then show ?thesis
    using r e o1 False by (auto simp: LoadModuleLibrary_def Let_def o1_def [symmetric])
qed

lemma open_library_ok:
  assumes m: "minv m xs" and s: "system_ok s"
  shows "\<exists>l k lm ys r. open_library s key path ps app err m =
      Some (m\<lparr>mlst := l, loadingModuleKey := k, moduleLibMap := lm\<rparr>, r) \<and>
    minv (m\<lparr>mlst := l\<rparr>) ys \<and> set xs \<subseteq> set ys"
proof -
  obtain p0 p1 p2 where ps: "ps = (p0, p1, p2)" by (cases ps)
  obtain l k lm ys h e where 1: "LoadModuleLibrary s key p0 path app m =
      Some (m\<lparr>mlst := l, loadingModuleKey := k, moduleLibMap := lm\<rparr>, h, e)"
    "minv (m\<lparr>mlst := l\<rparr>) ys" "set xs \<subseteq> set ys"
    using LoadModuleLibrary_ok [OF assms] by metis
  let ?m1 = "m\<lparr>mlst := l, loadingModuleKey := k, moduleLibMap := lm\<rparr>"
  have m1: "minv ?m1 ys" using 1(2) by simp
  obtain l' k' lm' zs h' e' where 2: "LoadModuleLibrary s key p1 path app ?m1 =
      Some (?m1\<lparr>mlst := l', loadingModuleKey := k', moduleLibMap := lm'\<rparr>, h', e')"
    "minv (?m1\<lparr>mlst := l'\<rparr>) zs" "set ys \<subseteq> set zs"
    using LoadModuleLibrary_ok [OF m1 s] by metis
  show ?thesis
  proof (cases h)
    case (Some a)
    show ?thesis using 1 Some ps unfolding open_library_def by auto
  next
    case None
    have z: "minv (m\<lparr>mlst := l'\<rparr>) zs" "set xs \<subseteq> set zs" using 2 1 by auto
    show ?thesis using 1 2 None ps z unfolding open_library_def
      by (cases h') (auto simp: Let_def)
  qed
qed

section \<open>Binding the module\<close>

lemma good_load_mono: "good_load ys res \<Longrightarrow> set xs \<subseteq> set ys \<Longrightarrow> good_load xs res"
  unfolding good_load_def by blast

lemma load_done_good:
  "minv m xs \<Longrightarrow> (case a of None \<Rightarrow> True | Some p \<Rightarrow> p \<in> set xs) \<Longrightarrow> good_load xs (load_done m a e le)"
  unfolding good_load_def load_done_def by (intro exI conjI) (rule refl, simp_all)

lemma tail_in: "minv m xs \<Longrightarrow> (case tailNativeModule (mlst m) of None \<Rightarrow> True | Some p \<Rightarrow> p \<in> set xs)"
  using minv_tail by (auto simp: last_opt_def split: option.splits if_splits)

lemma finish_load_good:
  assumes m: "minv m xs"
  shows "good_load xs (finish_load chk e le m)"
proof (cases "tailNativeModule (mlst m)")
  case None
  then show ?thesis using m by (auto simp: finish_load_def Let_def intro!: load_done_good)
next
  case (Some t)
  let ?m1 = "SetLoadingNativeModuleKey (Some []) m"
  have m1: "minv ?m1 xs" "tailNativeModule (mlst ?m1) = Some t" using m Some by simp_all
  obtain l2 where l2: "upd_tail (nm_moduleLoaded_update (\<lambda>_. True)) ?m1 = Some (?m1\<lparr>mlst := l2\<rparr>)"
    "minv (?m1\<lparr>mlst := l2\<rparr>) xs"
    using upd_tail_minv [OF m1(1), of "nm_moduleLoaded_update (\<lambda>_. True)"] m1(2) by auto
  have t: "t \<in> set xs" using tail_in [OF m] Some by simp
  obtain l3 where l3: "MoveApiAllowListCheckerPtr chk (Some t) (?m1\<lparr>mlst := l2\<rparr>) = Some (?m1\<lparr>mlst := l3\<rparr>)"
    "minv (?m1\<lparr>mlst := l3\<rparr>) xs"
    using Move_ok [OF l2(2), of "Some t" chk] t by auto
  show ?thesis using m1 l2 l3 t Some by (auto simp: finish_load_def Let_def intro!: load_done_good)
qed

lemma upd_tail_when:
  assumes m: "minv m xs" and f: "tail_update f" "\<And>n. nm_name n \<noteq> None \<Longrightarrow> nm_name (f n) \<noteq> None"
  shows "\<exists>l. (if tailNativeModule (mlst m) \<noteq> None \<and> b then upd_tail f m else Some m) = Some (m\<lparr>mlst := l\<rparr>) \<and>
    minv (m\<lparr>mlst := l\<rparr>) xs"
proof (cases "tailNativeModule (mlst m) \<noteq> None \<and> b")
  case True
  then show ?thesis using upd_tail_minv [OF m _ f] by (metis (no_types, lifting))
next
  case False
  show ?thesis unfolding if_not_P [OF False] using m by (intro exI [of _ "mlst m"]) simp
qed

lemma bind_module_good:
  assumes m: "minv m xs" and s: "system_ok s"
  shows "good_load xs (bind_module s key lp (Some h) None internal chk e le m)"
proof -
  obtain l k ys where 1: "register_all s (sys_onLoad s h) m = Some (m\<lparr>mlst := l, loadingModuleKey := k\<rparr>)"
    "minv (m\<lparr>mlst := l\<rparr>) ys" "set xs \<subseteq> set ys"
    using register_all_ok [OF m s] by blast
  let ?m1 = "m\<lparr>mlst := l, loadingModuleKey := k\<rparr>"
  let ?f = "\<lambda>n. n\<lparr>nm_moduleName := Some key, nm_systemFilePath := Some lp\<rparr>"
  have m1: "minv ?m1 ys" using 1(2) by simp
  obtain l2 where 2: "(if tailNativeModule (mlst ?m1) \<noteq> None \<and> (None :: (addr \<times> int) option) = None then upd_tail ?f ?m1
      else Some ?m1) = Some (?m1\<lparr>mlst := l2\<rparr>)" "minv (?m1\<lparr>mlst := l2\<rparr>) ys"
    using upd_tail_when [OF m1, of ?f "(None :: (addr \<times> int) option) = None"] by (simp, blast)
  let ?m2 = "?m1\<lparr>mlst := l2\<rparr>"
  have m2: "minv ?m2 ys" using 2(2) .
  have fin: "good_load ys (finish_load chk e le m')" if "minv m' ys" for m'
    using finish_load_good [OF that] .
  have "good_load ys (bind_module s key lp (Some h) None internal chk e le m)"
  proof (cases "internal \<or> abc_symbol key = None")
    case True
    then show ?thesis
      using 1(1) 2(1) fin [OF m2] m2 unfolding bind_module_def
      by (auto simp: Let_def intro!: load_done_good)
  next
    case False
    then obtain sy where sy: "abc_symbol key = Some sy" "\<not> internal" by blast
    show ?thesis
    proof (cases "sys_getJSCode s h sy")
      case None
      obtain l3 where l3: "MoveApiAllowListCheckerPtr chk (tailNativeModule (mlst ?m2)) ?m2 = Some (?m2\<lparr>mlst := l3\<rparr>)"
        "minv (?m2\<lparr>mlst := l3\<rparr>) ys"
        using Move_ok [OF m2 tail_in [OF m2]] by blast
      show ?thesis using 1(1) 2(1) sy None l3 tail_in [OF l3(2)] unfolding bind_module_def
        by (auto intro!: load_done_good)
    next
      case (Some bl)
      obtain buf len where bl: "bl = (buf, len)" by (cases bl)
      let ?g = "\<lambda>n. n\<lparr>nm_jsCode := buf, nm_jsCodeLen := len\<rparr>"
      obtain l3 where l3: "(if tailNativeModule (mlst ?m2) \<noteq> None \<and> True then upd_tail ?g ?m2 else Some ?m2) =
          Some (?m2\<lparr>mlst := l3\<rparr>)" "minv (?m2\<lparr>mlst := l3\<rparr>) ys"
        using upd_tail_when [OF m2, of ?g True] by (simp, blast)
      show ?thesis using 1(1) 2(1) sy Some bl l3 fin [OF l3(2)] unfolding bind_module_def by auto
    qed
  qed
  then show ?thesis using 1(3) by (rule good_load_mono)
qed

lemma no_buffer: "native_only s \<Longrightarrow> GetFileBuffer s p key m = (m, None, 0)"
  by (simp add: native_only_def GetFileBuffer_def)

lemma FindNativeModuleByDisk_good:
  assumes m: "minv m xs" and s: "system_ok s" "native_only s"
    and c: "case cache of None \<Rightarrow> True | Some a \<Rightarrow> a \<in> set xs"
  shows "good_load xs (FindNativeModuleByDisk s mn path internal app e le ps cache m)"
proof (cases "fst (CheckModuleLoadable s mn app)")
  case False
  then show ?thesis using m
    by (auto simp: FindNativeModuleByDisk_def blocked_load_def split: prod.splits intro!: load_done_good)
next
  case True
  obtain chk where chk: "CheckModuleLoadable s mn app = (True, chk)"
    using True by (cases "CheckModuleLoadable s mn app") auto
  obtain p0 p1 p2 where ps: "ps = (p0, p1, p2)" by (cases ps)
  let ?key = "if app then path @ ''/'' @ mn else mn"
  let ?m0 = "m\<lparr>loadingModuleName := ?key\<rparr>"
  have m0: "minv ?m0 xs" using m by simp
  obtain l k lm ys r where o1: "open_library s ?key path ps app e ?m0 =
      Some (?m0\<lparr>mlst := l, loadingModuleKey := k, moduleLibMap := lm\<rparr>, r)"
    "minv (?m0\<lparr>mlst := l\<rparr>) ys" "set xs \<subseteq> set ys"
    using open_library_ok [OF m0 s(1)] by blast
  let ?m1 = "?m0\<lparr>mlst := l, loadingModuleKey := k, moduleLibMap := lm\<rparr>"
  have m1: "minv ?m1 ys" using o1(2) by simp
  have "good_load ys (FindNativeModuleByDisk s mn path internal app e le ps cache m)"
  proof (cases "ls_lib r")
    case (Some h)
    show ?thesis
      using bind_module_good [OF m1 s(1)] chk o1(1) Some unfolding FindNativeModuleByDisk_def by (simp add: Let_def)
  next
    case None
    have "case cache of None \<Rightarrow> True | Some a \<Rightarrow> a \<in> set ys" using c o1(3) by (auto split: option.splits)
    then show ?thesis
      using m1 chk o1(1) None no_buffer [OF s(2)] unfolding FindNativeModuleByDisk_def
      by (cases cache) (auto simp: Let_def ps intro!: load_done_good)
  qed
  then show ?thesis using o1(3) by (rule good_load_mono)
qed

section \<open>The look-up is a search in the sequence of modules\<close>

text \<open>The reference definition: the first named module with a usable path, and the last conflicting one before it.\<close>

fun search_modules ::
    "string \<Rightarrow> string list \<Rightarrow> (addr \<times> native_module) list \<Rightarrow> addr option \<Rightarrow> addr option \<times> addr option" where
  "search_modules name paths [] c = (None, c)"
| "search_modules name paths ((a, n) # ns) c =
     (if node_named name n
      then if nm_systemFilePath n \<in> {None, Some []} \<or> the (nm_systemFilePath n) \<in> set paths then (Some a, c)
           else search_modules name paths ns (Some a)
      else search_modules name paths ns c)"

definition module_seq :: "module_list \<Rightarrow> addr list \<Rightarrow> (addr \<times> native_module) list" where
  "module_seq l xs = zip xs (contents l xs)"

lemma path_listed_init: "path_listed p (map Some ps) = Some (p \<in> set ps)"
  by (induction ps) auto

lemma node_usable_init:
  "node_usable (map Some ps) n =
     Some (nm_systemFilePath n \<in> {None, Some []} \<or> the (nm_systemFilePath n) \<in> set ps)"
  by (auto simp: node_usable_def path_listed_init split: option.split)

lemma node_named_next [simp]: "node_named k (n\<lparr>nm_next := q\<rparr>) = node_named k n"
  by (simp add: node_named_def)

lemma find_scan_search:
  "mseg (mods l) p xs None \<Longrightarrow> find_scan name (map Some ps) l p c = Some (search_modules name ps (module_seq l xs) c)"
proof (induction xs arbitrary: p c)
  case Nil
  then show ?case by (subst find_scan.simps) (simp add: module_seq_def contents_def)
next
  case (Cons a xs)
  then obtain n where n: "mods l a = Some n" "p = Some a" "mseg (mods l) (nm_next n) xs None" by auto
  have sq: "module_seq l (a # xs) = (a, n\<lparr>nm_next := None\<rparr>) # module_seq l xs"
    using n(1) by (simp add: module_seq_def contents_def)
  show ?case
    unfolding sq using n by (subst find_scan.simps) (simp add: node_usable_init Cons.IH)
qed

lemma search_modules_in:
  "search_modules name ps ns c = (f, c') \<Longrightarrow> set_option f \<subseteq> fst ` set ns \<and> set_option c' \<subseteq> set_option c \<union> fst ` set ns"
proof (induction ns arbitrary: c)
  case (Cons x ns)
  obtain a n where x: "x = (a, n)" by (cases x)
  show ?case using Cons.prems Cons.IH [of c] Cons.IH [of "Some a"]
    by (auto simp: x split: if_splits)
qed auto

text \<open>
  The pointer walk of \<open>FindNativeModuleByCache\<close> is the search it stands for: on a well formed list
  with initialised paths it never reads outside the list and returns the first module whose requested
  or registered name fits and whose file path is unset or one of the three asked for; the module with
  the last conflicting path before it is the compatibility candidate; a module that is still being
  loaded is set aside instead of returned.
\<close>

theorem find_by_cache_search:
  assumes "mlist (mlst m) xs"
  shows "FindNativeModuleByCache name (map Some ps) ht check m =
    (if \<not> check \<and> ht_match ht \<noteq> None then Some (ht_match ht, None, ht)
     else let (found, cache) = search_modules name ps (module_seq (mlst m) xs) None;
              loading = (found \<noteq> None \<and> check \<and> strcasecmp_eq (loadingModuleKey m) name)
          in Some (if loading then None else found, cache,
               (if loading then ht\<lparr>ht_match := found\<rparr> else ht)
                 \<lparr>ht_head := hd_opt xs, ht_tail := last_opt xs\<rparr>))"
proof -
  have "find_scan name (map Some ps) (mlst m) (headNativeModule (mlst m)) None =
      Some (search_modules name ps (module_seq (mlst m) xs) None)"
    by (rule find_scan_search) (use assms in \<open>simp add: mlist_def\<close>)
  then show ?thesis
    using mlist_head [OF assms] mlist_tail [OF assms]
    by (simp add: FindNativeModuleByCache_def Let_def split: prod.split)
qed

theorem find_by_cache_search_witness:
  "\<exists>l ht. mlist l [5] \<and>
     FindNativeModuleByCache ''K'' (map Some [''p'']) no_head_tail False (new_manager\<lparr>mlst := l\<rparr>) =
       Some (Some 5, None, ht)"
proof -
  let ?n = "new_NativeModule\<lparr>nm_name := Some ''k'', nm_systemFilePath := Some []\<rparr>"
  let ?l = "\<lparr>mods = [5 \<mapsto> ?n], abcs = {}, headNativeModule = Some 5, tailNativeModule = Some 5\<rparr>"
  have l: "mlist ?l [5]" by (simp add: mlist_def last_opt_def new_NativeModule_def)
  have s: "search_modules ''K'' [''p''] (module_seq ?l [5]) None = (Some 5, None)"
  proof -
    have "strcasecmp_eq ''k'' ''K''" by code_simp
    then show ?thesis by (simp add: module_seq_def contents_def node_named_def new_NativeModule_def)
  qed
  show ?thesis
    using find_by_cache_search [of "new_manager\<lparr>mlst := ?l\<rparr>" "[5]" "''K''" "[''p'']" no_head_tail False] l s
    by (intro exI [of _ ?l]) (simp add: no_head_tail_def)
qed

section \<open>A whole request\<close>

definition path_strings :: "string \<times> string \<times> string \<Rightarrow> string list" where
  "path_strings ps = (case ps of (p0, p1, p2) \<Rightarrow> [p0, p1, p2])"

lemma path_list_strings: "path_list ps = map Some (path_strings ps)"
  by (cases ps) (simp add: path_list_def path_strings_def)

lemma name_at_live:
  assumes "minv m xs" "a \<in> set xs"
  shows "name_at (mlst m) a \<noteq> None"
proof -
  obtain n where "mods (mlst m) a = Some n" using assms minv_live by fastforce
  then show ?thesis using minv_named [OF assms(1)] by (simp add: name_at_def)
qed

lemma CheckNativeListChanged_ok:
  assumes m: "minv m xs" and ht: "set_option (ht_head ht) \<subseteq> set xs" "set_option (ht_tail ht) \<subseteq> set xs"
  shows "CheckNativeListChanged ht m \<noteq> None"
proof (cases "ht_head ht = None \<or> ht_tail ht = None \<or> headNativeModule (mlst m) = None \<or>
    tailNativeModule (mlst m) = None")
  case True
  then show ?thesis by (auto simp: CheckNativeListChanged_def split: option.splits)
next
  case False
  then obtain ch ct h t where e: "ht_head ht = Some ch" "ht_tail ht = Some ct"
    "headNativeModule (mlst m) = Some h" "tailNativeModule (mlst m) = Some t" by auto
  have "h \<in> set xs" "t \<in> set xs"
    using e minv_head [OF m] minv_tail [OF m] by (auto simp: hd_opt_Some_iff last_opt_def split: if_splits)
  then obtain n1 n2 n3 n4 where "name_at (mlst m) ch = Some n1" "name_at (mlst m) h = Some n2"
    "name_at (mlst m) ct = Some n3" "name_at (mlst m) t = Some n4"
    using name_at_live [OF m] ht e by (metis (no_types, lifting) insert_subset option.exhaust option.simps(15))
  then show ?thesis using e by (auto simp: CheckNativeListChanged_def)
qed

lemma module_seq_fst: "fst ` set (module_seq l xs) = set xs"
proof -
  have "map fst (module_seq l xs) = xs" by (simp add: module_seq_def contents_def)
  then show ?thesis by (metis set_map)
qed

lemma search_in_list:
  "search_modules name ps (module_seq l xs) None = (f, c) \<Longrightarrow> set_option f \<subseteq> set xs \<and> set_option c \<subseteq> set xs"
  using search_modules_in [of name ps "module_seq l xs" None f c] by (simp add: module_seq_fst)

lemma set_option_case: "set_option a \<subseteq> A \<longleftrightarrow> (case a of None \<Rightarrow> True | Some x \<Rightarrow> x \<in> A)"
  by (cases a) auto

lemma load_locked_good:
  assumes m: "minv m xs" and s: "system_ok s" "native_only s" and c: "set_option cache \<subseteq> set xs"
    and ht: "set_option (ht_head ht) \<subseteq> set xs" "set_option (ht_tail ht) \<subseteq> set xs" "set_option (ht_match ht) \<subseteq> set xs"
  shows "good_load xs (load_locked s q cache ht m)"
proof -
  obtain b where b: "CheckNativeListChanged ht m = Some b" using CheckNativeListChanged_ok [OF m ht(1,2)] by blast
  define look where "look = (if b then do { (f, c, ht1) \<leftarrow>
      FindNativeModuleByCache (rq_key q) (path_list (rq_paths q)) ht False m; Some (f, c) } else Some (None, cache))"
  obtain f c1 where look: "look = Some (f, c1)" "set_option f \<subseteq> set xs" "set_option c1 \<subseteq> set xs"
  proof (cases b)
    case False
    then show ?thesis using that [of None cache] c by (simp add: look_def)
  next
    case True
    obtain f1 c1 where sm: "search_modules (rq_key q) (path_strings (rq_paths q)) (module_seq (mlst m) xs) None = (f1, c1)"
      by fastforce
    have "look = Some (if ht_match ht \<noteq> None then (ht_match ht, None) else (f1, c1))"
      using True find_by_cache_search [OF minv_mlist [OF m], of "rq_key q" "path_strings (rq_paths q)" ht False] sm
      by (auto simp: look_def path_list_strings)
    then show ?thesis
      using that [of "if ht_match ht \<noteq> None then ht_match ht else f1" "if ht_match ht \<noteq> None then None else c1"]
        search_in_list [OF sm] ht(3) by (cases "ht_match ht = None") auto
  qed
  let ?m1 = "m\<lparr>mm_prefix := rq_prefix q, mm_isAppModule := rq_isApp q, g_isLoadingModule := True\<rparr>"
  have m1: "minv ?m1 xs" using m by simp
  have c1: "case c1 of None \<Rightarrow> True | Some a \<Rightarrow> a \<in> set xs" using look(3) by (simp add: set_option_case)
  let ?disk = "FindNativeModuleByDisk s (rq_moduleName q) (rq_prefix q) (rq_internal q) (rq_isApp q)
      (rq_errInfo q) (rq_loadErrInfo q) (rq_paths q) c1 ?m1"
  obtain m2 r ys where d: "?disk = Some (m2, r)" "minv m2 ys" "set xs \<subseteq> set ys"
    "case lr_module r of None \<Rightarrow> True | Some a \<Rightarrow> a \<in> set ys"
    using FindNativeModuleByDisk_good [OF m1 s c1] unfolding good_load_def by blast
  have run: "load_locked s q cache ht m = (if f \<noteq> None then load_done m f (rq_errInfo q) (rq_loadErrInfo q)
      else Some (m2\<lparr>g_isLoadingModule := False\<rparr>, r))"
    using b look(1) d(1) unfolding load_locked_def look_def by simp
  show ?thesis
  proof (cases "f = None")
    case True
    then show ?thesis using d unfolding run good_load_def by auto
  next
    case False
    then show ?thesis using m look(2) unfolding run by (auto simp: set_option_case intro!: load_done_good)
  qed
qed

lemma give_checker_good:
  assumes "good_load xs (Some res)"
  shows "good_load xs (give_checker chk res)"
proof -
  obtain m r where res: "res = (m, r)" by (cases res)
  obtain ys where m: "minv m ys" "set xs \<subseteq> set ys" "case lr_module r of None \<Rightarrow> True | Some a \<Rightarrow> a \<in> set ys"
    using assms res unfolding good_load_def by blast
  show ?thesis
  proof (cases "lr_module r")
    case None
    then show ?thesis using assms by (simp add: give_checker_def res)
  next
    case (Some a)
    obtain n where n: "mods (mlst m) a = Some n" using m(1,3) Some minv_live by fastforce
    obtain l where l: "MoveApiAllowListCheckerPtr chk (Some a) m = Some (m\<lparr>mlst := l\<rparr>)" "minv (m\<lparr>mlst := l\<rparr>) ys"
      using Move_ok [OF m(1), of "Some a" chk] m(3) Some by auto
    show ?thesis using n l m Some unfolding good_load_def give_checker_def res by auto
  qed
qed

lemma LoadNativeModule_good:
  assumes m: "minv m xs" and s: "system_ok s" "native_only s"
  shows "good_load xs (LoadNativeModuleWithErrorInfo s mn path app e internal rel le m)"
proof (cases "load_checks s mn path app e internal rel le m")
  case (Inl r)
  have "lr_module r = None"
    using Inl by (auto simp: load_checks_def Let_def split: option.splits if_splits prod.splits)
  then show ?thesis
    using Inl m unfolding LoadNativeModuleWithErrorInfo_def good_load_def by auto
next
  case (Inr q)
  obtain f1 c1 where sm: "search_modules (rq_key q) (path_strings (rq_paths q)) (module_seq (mlst m) xs) None = (f1, c1)"
    by fastforce
  let ?loading = "f1 \<noteq> None \<and> strcasecmp_eq (loadingModuleKey m) (rq_key q)"
  let ?ht = "(if ?loading then no_head_tail\<lparr>ht_match := f1\<rparr> else no_head_tail)\<lparr>ht_head := hd_opt xs, ht_tail := last_opt xs\<rparr>"
  let ?f = "if ?loading then None else f1"
  have look: "FindNativeModuleByCache (rq_key q) (path_list (rq_paths q)) no_head_tail True m = Some (?f, c1, ?ht)"
    using find_by_cache_search [OF minv_mlist [OF m], of "rq_key q" "path_strings (rq_paths q)" no_head_tail True] sm
    by (simp add: path_list_strings Let_def)
  note si = search_in_list [OF sm]
  have ht: "set_option (ht_head ?ht) \<subseteq> set xs" "set_option (ht_tail ?ht) \<subseteq> set xs" "set_option (ht_match ?ht) \<subseteq> set xs"
    using si by (auto simp: hd_opt_def last_opt_def no_head_tail_def split: list.splits if_splits)
  define res where "res = (if ?f \<noteq> None then load_done m ?f (rq_errInfo q) (rq_loadErrInfo q) else load_locked s q c1 ?ht m)"
  have res: "good_load xs res"
  proof (cases "?f = None")
    case True
    then show ?thesis using load_locked_good [OF m s _ ht, of c1 q] si by (simp add: res_def)
  next
    case False
    then show ?thesis using m si unfolding res_def
      by (simp add: set_option_case split: if_splits) (auto intro!: load_done_good)
  qed
  then obtain x where x: "res = Some x" unfolding good_load_def by blast
  have "LoadNativeModuleWithErrorInfo s mn path app e internal rel le m = give_checker (rq_checker q) x"
    unfolding LoadNativeModuleWithErrorInfo_def Inr sum.case look bind.bind_lunit prod.case res_def [symmetric] x ..
  then show ?thesis using give_checker_good res x by simp
qed

section \<open>Unloading\<close>

lemma remove_first_all: "list_all P xs \<Longrightarrow> list_all P (remove_first Q xs)"
  by (induction xs) auto

lemma UnloadNativeModule_ok:
  assumes m: "minv m xs" and h: "moduleLibMap m key = Some h"
  shows "\<exists>l ys. minv (m\<lparr>mlst := l\<rparr>) ys \<and>
    contents l ys = remove_first (name_matches key) (contents (mlst m) xs) \<and>
    UnloadNativeModule s key m = Some
      (let m1 = m\<lparr>moduleLibMap := (moduleLibMap m)(key := None), moduleBufMap := (moduleBufMap m)(key := None), mlst := l\<rparr>
       in if list_ex (name_matches key) (contents (mlst m) xs)
          then (m1\<lparr>dlclosed := dlclosed m @ [h]\<rparr>, sys_dlclose s h) else (m1, False))"
proof -
  let ?m0 = "m\<lparr>moduleLibMap := (moduleLibMap m)(key := None)\<rparr>"
  let ?m1 = "m\<lparr>moduleLibMap := (moduleLibMap m)(key := None), moduleBufMap := (moduleBufMap m)(key := None)\<rparr>"
  have rb: "fst (RemoveModuleBuffer key ?m0) = ?m1"
    by (auto simp: RemoveModuleBuffer_def fun_upd_idem)
  obtain l ok where l: "RemoveNativeModuleByCacheLocked key (mlst m) = Some (l, ok)" "removed key (mlst m) xs l ok"
    using Remove_ok [OF minv_mlist [OF m]] by blast
  obtain ys where ys: "mlist l ys" "contents l ys = remove_first (name_matches key) (contents (mlst m) xs)"
    using l(2) unfolding removed_def by blast
  have lv: "linv l ys" using ys m by (simp add: linv_def remove_first_all)
  have "RemoveNativeModuleLocked key ?m0 = Some (?m1\<lparr>mlst := l\<rparr>, ok)"
    using l(1) rb by (simp add: RemoveNativeModuleLocked_def Let_def)
  then have "UnloadNativeModule s key m = Some (if \<not> ok then (?m1\<lparr>mlst := l\<rparr>, False)
      else UnloadModuleLibrary s (Some h) (?m1\<lparr>mlst := l\<rparr>))"
    using h by (simp add: UnloadNativeModule_def)
  moreover have "ok = list_ex (name_matches key) (contents (mlst m) xs)"
    using l(2) by (simp add: removed_def)
  ultimately show ?thesis using ys lv
    by (intro exI [of _ l] exI [of _ ys]) (simp add: UnloadModuleLibrary_def Let_def)
qed

section \<open>Sequences of operations\<close>

datatype mm_op =
    MM_Register "native_module option"
  | MM_Load "string option" "string option" bool bool "string option"
  | MM_Unload string
  | MM_SetAppLibPath string "string list"
  | MM_UpdateLibPath string "string list"
  | MM_SetPreview string

fun mm_step :: "system \<Rightarrow> mm_op \<Rightarrow> manager \<Rightarrow> manager option" where
  "mm_step s (MM_Register nm) m = Register s nm m"
| "mm_step s (MM_Load mn path app internal rel) m =
     map_option fst (LoadNativeModuleWithErrorInfo s mn path app [] internal rel [] m)"
| "mm_step s (MM_Unload key) m = map_option fst (UnloadNativeModule s key m)"
| "mm_step s (MM_SetAppLibPath mn ps) m = Some (SetAppLibPath mn ps m)"
| "mm_step s (MM_UpdateLibPath mn ps) m = Some (UpdateNamespaceLibPath s mn ps m)"
| "mm_step s (MM_SetPreview p) m = Some (SetPreviewSearchPath p m)"

fun mm_run :: "system \<Rightarrow> mm_op list \<Rightarrow> manager \<Rightarrow> manager option" where
  "mm_run s [] m = Some m"
| "mm_run s (x # xs) m = do { m1 \<leftarrow> mm_step s x m; mm_run s xs m1 }"

text \<open>A small system: three nodes of memory, and libraries that register one module each, or none.\<close>

definition demo_module :: "string \<Rightarrow> native_module" where
  "demo_module n = new_NativeModule\<lparr>nm_name := Some n\<rparr>"

definition demo_system :: system where
  "demo_system = \<lparr>
     sys_new = (\<lambda>l. find (\<lambda>a. mods l a = None) [1, 2, 3]),
     sys_newbuf = (\<lambda>l. 100),
     sys_dlopen = (\<lambda>ns p. if p = ''/system/lib64/module/liba.z.so'' then (Some 10, [demo_module ''a''])
        else if p = ''/system/lib64/module/libb.z.so'' then (Some 11, [demo_module ''b''])
        else if p = ''/system/lib64/module/libnone.z.so'' then (Some 12, []) else (None, [])),
     sys_dlerror = (\<lambda>p. None),
     sys_access = (\<lambda>p. p \<in> set [''/system/lib64/module/liba.z.so'', ''/system/lib64/module/libb.z.so'',
        ''/system/lib64/module/libnone.z.so'']),
     sys_onLoad = (\<lambda>h. []), sys_getJSCode = (\<lambda>h k. None), sys_file = (\<lambda>p. None), sys_dlclose = (\<lambda>h. True),
     sys_set_lib_path = (\<lambda>n p. 0), sys_delegate = None\<rparr>"

definition load_sys :: "string \<Rightarrow> mm_op" where
  "load_sys n = MM_Load (Some n) None False False (Some [])"

lemma demo_system_ok: "system_ok demo_system" "native_only demo_system"
  by (auto simp: system_ok_def native_only_def demo_system_def split: if_splits)

lemma mm_step_ok:
  assumes m: "minv m xs" and s: "system_ok s" "native_only s"
  shows "\<exists>m' ys. mm_step s x m = Some m' \<and> minv m' ys"
proof (cases x)
  case (MM_Register nm)
  obtain l k ys where "Register s nm m = Some (m\<lparr>mlst := l, loadingModuleKey := k\<rparr>)" "minv (m\<lparr>mlst := l\<rparr>) ys"
    using Register_ok [OF m s(1)] by blast
  then show ?thesis using MM_Register by auto
next
  case (MM_Load mn path app internal rel)
  obtain m' r ys where "LoadNativeModuleWithErrorInfo s mn path app [] internal rel [] m = Some (m', r)" "minv m' ys"
    using LoadNativeModule_good [OF m s] unfolding good_load_def by blast
  then show ?thesis using MM_Load by auto
next
  case (MM_Unload key)
  show ?thesis
  proof (cases "moduleLibMap m key")
    case None
    then show ?thesis using MM_Unload m by (auto simp: UnloadNativeModule_def)
  next
    case (Some h)
    from UnloadNativeModule_ok [OF m Some, of s] show ?thesis
      using MM_Unload by (elim exE conjE) (auto simp: Let_def)
  qed
next
  case (MM_UpdateLibPath mn ps)
  then show ?thesis using m
    by (auto simp: UpdateNamespaceLibPath_def Let_def split: option.split)
qed (use m in \<open>auto simp: SetAppLibPath_def SetPreviewSearchPath_def\<close>)

lemma mm_run_ok:
  "minv m xs \<Longrightarrow> system_ok s \<Longrightarrow> native_only s \<Longrightarrow> \<exists>m' ys. mm_run s ops m = Some m' \<and> minv m' ys"
proof (induction ops arbitrary: m xs)
  case (Cons x ops)
  obtain m1 ys where "mm_step s x m = Some m1" "minv m1 ys"
    using mm_step_ok [OF Cons.prems] by blast
  then show ?case using Cons.IH Cons.prems by auto
qed auto



text \<open>
  Unloading a module takes its library out of the table, removes the first module of the list
  requested under that name (letter case ignored) and nothing else, closes the library exactly when
  such a module was removed, reports success exactly when it was closed without error, and a second
  unload of the name fails.  When no module was removed the handle is dropped without being closed.
\<close>

theorem unload_removes_once:
  assumes "minv m xs" and "moduleLibMap m key = Some h"
  shows "\<exists>m' ok ys. UnloadNativeModule s key m = Some (m', ok) \<and> minv m' ys \<and>
    contents (mlst m') ys = remove_first (name_matches key) (contents (mlst m) xs) \<and>
    moduleLibMap m' = (moduleLibMap m)(key := None) \<and> moduleBufMap m' = (moduleBufMap m)(key := None) \<and>
    dlclosed m' = dlclosed m @ (if list_ex (name_matches key) (contents (mlst m) xs) then [h] else []) \<and>
    ok = (list_ex (name_matches key) (contents (mlst m) xs) \<and> sys_dlclose s h) \<and>
    UnloadNativeModule s key m' = Some (m', False)"
proof -
  obtain l ys where *: "minv (m\<lparr>mlst := l\<rparr>) ys" "contents l ys = remove_first (name_matches key) (contents (mlst m) xs)"
    "UnloadNativeModule s key m = Some
      (let m1 = m\<lparr>moduleLibMap := (moduleLibMap m)(key := None), moduleBufMap := (moduleBufMap m)(key := None), mlst := l\<rparr>
       in if list_ex (name_matches key) (contents (mlst m) xs)
          then (m1\<lparr>dlclosed := dlclosed m @ [h]\<rparr>, sys_dlclose s h) else (m1, False))"
    using UnloadNativeModule_ok [OF assms, of s] by blast
  have again: "UnloadNativeModule s key m' = Some (m', False)" if "moduleLibMap m' = (moduleLibMap m)(key := None)" for m'
    using that by (simp add: UnloadNativeModule_def)
  show ?thesis
    by (cases "list_ex (name_matches key) (contents (mlst m) xs)")
      (use * in \<open>auto simp: Let_def again intro!: exI [of _ ys]\<close>)
qed

theorem unload_removes_once_witness:
  "\<exists>m xs m' ok. mm_run demo_system [load_sys ''a''] new_manager = Some m \<and> minv m xs \<and>
     moduleLibMap m ''a'' = Some 10 \<and> UnloadNativeModule demo_system ''a'' m = Some (m', ok) \<and>
     UnloadNativeModule demo_system ''a'' m' = Some (m', False)"
proof -
  obtain m xs where m: "mm_run demo_system [load_sys ''a''] new_manager = Some m" "minv m xs"
    using mm_run_ok [OF minv_new demo_system_ok] by blast
  have "map_option (\<lambda>m. moduleLibMap m ''a'') (mm_run demo_system [load_sys ''a''] new_manager) = Some (Some 10)"
    by code_simp
  then have h: "moduleLibMap m ''a'' = Some 10" using m(1) by simp
  show ?thesis using unload_removes_once [OF m(2) h, of demo_system] m h by blast
qed

lemma LoadModuleLibrary_none:
  assumes "\<forall>ns p. sys_dlopen s ns p = (None, [])"
  shows "\<exists>e. LoadModuleLibrary s key p path app m = Some (m, None, e)"
  using assms by (simp add: LoadModuleLibrary_def Let_def EmplaceModuleLib_def)

lemma open_library_none:
  assumes "\<forall>ns p. sys_dlopen s ns p = (None, [])"
  shows "\<exists>r. open_library s key path (p0, p1, p2) app err m = Some (m, r) \<and> ls_lib r = None \<and>
    has_prefix ''First: '' (ls_errInfo r) \<and>
    (ls_dlopenErr r \<noteq> None) = (dlopen_tried s app path p0 m \<or> dlopen_tried s app path p1 m)"
proof -
  obtain e0 e1 where e: "LoadModuleLibrary s key p0 path app m = Some (m, None, e0)"
    "LoadModuleLibrary s key p1 path app m = Some (m, None, e1)"
    using LoadModuleLibrary_none [OF assms] by blast
  show ?thesis
    unfolding open_library_def prod.case e Let_def bind.bind_lunit by (simp add: has_prefix_iff)
qed

text \<open>
  A request for which no library opens, no byte code file exists and no candidate with another path
  is in the list fails cleanly: no module, an error text with both attempts and the byte code path, a
  precise error that says whether the linker refused the library, the name space has no registered path
  or the module is missing, and no change of the list, of the tables of libraries and of the buffers.
\<close>

theorem failed_load_reports:
  assumes "load_checks s mn path app e internal rel le m = Inr q" and "minv m xs"
    and "search_modules (rq_key q) (path_strings (rq_paths q)) (module_seq (mlst m) xs) None = (None, None)"
    and "\<forall>ns p. sys_dlopen s ns p = (None, [])" and "\<forall>p. sys_file s p = None"
    and "fst (CheckModuleLoadable s (rq_moduleName q) (rq_isApp q))"
  shows "\<exists>m' r err dl. LoadNativeModuleWithErrorInfo s mn path app e internal rel le m = Some (m', r) \<and>
    lr_module r = None \<and> has_prefix ''First: '' (lr_errInfo r) \<and>
    lr_loadErrInfo r = ClassifyLoadError \<lparr>dlopenFailed = dl, dlopenErrMsg = err, e_isAppModule = rq_isApp q,
      pathRegistered = IsExistedPath (appLibPathMap m) (Some (rq_prefix q)), e_path = rq_prefix q\<rparr> \<and>
    dl = (dlopen_tried s (rq_isApp q) (rq_prefix q) (fst (rq_paths q)) m \<or>
          dlopen_tried s (rq_isApp q) (rq_prefix q) (fst (snd (rq_paths q))) m) \<and>
    mlst m' = mlst m \<and> moduleLibMap m' = moduleLibMap m \<and> moduleBufMap m' = moduleBufMap m \<and>
    loadingModuleKey m' = loadingModuleKey m \<and> \<not> g_isLoadingModule m'"
proof -
  let ?k = "rq_key q" and ?ps = "path_strings (rq_paths q)"
  let ?ht = "no_head_tail\<lparr>ht_head := hd_opt xs, ht_tail := last_opt xs\<rparr>"
  let ?m1 = "m\<lparr>mm_prefix := rq_prefix q, mm_isAppModule := rq_isApp q, g_isLoadingModule := True\<rparr>"
  have look: "FindNativeModuleByCache ?k (path_list (rq_paths q)) no_head_tail True m = Some (None, None, ?ht)"
    "FindNativeModuleByCache ?k (path_list (rq_paths q)) ?ht False m = Some (None, None, ?ht)"
    using find_by_cache_search [OF minv_mlist [OF assms(2)], of ?k ?ps] assms(3)
    by (simp_all add: path_list_strings no_head_tail_def)
  obtain b where b: "CheckNativeListChanged ?ht m = Some b"
  proof -
    have "set_option (ht_head ?ht) \<subseteq> set xs" "set_option (ht_tail ?ht) \<subseteq> set xs"
      by (auto simp: hd_opt_Some_iff last_opt_def no_head_tail_def split: if_splits)
    then show thesis using CheckNativeListChanged_ok [OF assms(2)] that by blast
  qed
  obtain chk where chk: "CheckModuleLoadable s (rq_moduleName q) (rq_isApp q) = (True, chk)"
    using assms(6) by (cases "CheckModuleLoadable s (rq_moduleName q) (rq_isApp q)") auto
  let ?key = "if rq_isApp q then rq_prefix q @ ''/'' @ rq_moduleName q else rq_moduleName q"
  let ?m2 = "?m1\<lparr>loadingModuleName := ?key\<rparr>"
  obtain p0 p1 p2 where ps: "rq_paths q = (p0, p1, p2)" by (cases "rq_paths q")
  obtain r where r: "open_library s ?key (rq_prefix q) (p0, p1, p2) (rq_isApp q) (rq_errInfo q) ?m2 = Some (?m2, r)"
    "ls_lib r = None" "has_prefix ''First: '' (ls_errInfo r)"
    "(ls_dlopenErr r \<noteq> None) = (dlopen_tried s (rq_isApp q) (rq_prefix q) p0 ?m2 \<or>
       dlopen_tried s (rq_isApp q) (rq_prefix q) p1 ?m2)"
    using open_library_none [OF assms(4)] by metis
  let ?le = "ClassifyLoadError \<lparr>dlopenFailed = (ls_dlopenErr r \<noteq> None),
       dlopenErrMsg = (case ls_dlopenErr r of None \<Rightarrow> [] | Some e \<Rightarrow> e), e_isAppModule = rq_isApp q,
       pathRegistered = IsExistedPath (appLibPathMap ?m2) (Some (rq_prefix q)), e_path = rq_prefix q\<rparr>"
  let ?err = "ls_errInfo r @ ''.load '' @ p2 @ '' failed''"
  have disk: "FindNativeModuleByDisk s (rq_moduleName q) (rq_prefix q) (rq_internal q) (rq_isApp q) (rq_errInfo q)
      (rq_loadErrInfo q) (p0, p1, p2) None ?m1 = load_done ?m2 None ?err ?le"
    unfolding FindNativeModuleByDisk_def chk Let_def prod.case r(1) bind.bind_lunit r(2)
      GetFileBuffer_def [of s p2] assms(5) [rule_format] option.case
    by (simp only: r(1) bind.bind_lunit prod.case r(2) simp_thms if_False option.case HOL.if_True not_False_eq_True)
  let ?res = "(?m2\<lparr>g_isLoadingModule := False\<rparr>, \<lparr>lr_module = None, lr_errInfo = ?err, lr_loadErrInfo = ?le\<rparr>)"
  have "load_locked s q None ?ht m = Some ?res"
    unfolding load_locked_def b bind.bind_lunit using look(2) disk ps
    by (cases b) (simp_all add: load_done_def del: append.simps append_assoc)
  then have run: "LoadNativeModuleWithErrorInfo s mn path app e internal rel le m = Some ?res"
    unfolding LoadNativeModuleWithErrorInfo_def assms(1) sum.case look(1) bind.bind_lunit prod.case
    by (simp add: give_checker_def del: append.simps append_assoc)
  have pre: "has_prefix ''First: '' ?err"
    using r(3) unfolding has_prefix_iff by (metis append.assoc)
  show ?thesis
    by (rule exI [of _ "fst ?res"], rule exI [of _ "snd ?res"],
        rule exI [of _ "case ls_dlopenErr r of None \<Rightarrow> [] | Some e \<Rightarrow> e"], rule exI [of _ "ls_dlopenErr r \<noteq> None"])
      (use run pre r(4) in \<open>simp add: ps dlopen_tried_def del: append.simps append_assoc has_prefix.simps\<close>)
qed

theorem failed_load_reports_witness:
  "\<exists>m' r. LoadNativeModuleWithErrorInfo (demo_system\<lparr>sys_dlopen := (\<lambda>ns p. (None, []))\<rparr>) (Some ''zz'') None False
      [] False (Some []) [] new_manager = Some (m', r) \<and> lr_module r = None \<and> mlst m' = empty_list"
proof -
  let ?s = "demo_system\<lparr>sys_dlopen := (\<lambda>ns p. (None, []))\<rparr>"
  define q where "q = \<lparr>rq_moduleName = ''zz'', rq_prefix = [], rq_key = ''zz'', rq_isApp = False, rq_internal = False,
    rq_paths = (''/system/lib64/module/libzz.z.so'', ''/system/lib64/module/libzz_napi.z.so'', ''/system/etc/abc/zz.abc''),
    rq_checker = None, rq_errInfo = [], rq_loadErrInfo = []\<rparr>"
  have c: "load_checks ?s (Some ''zz'') None False [] False (Some []) [] new_manager = Inr q"
    unfolding q_def by code_simp
  have d: "\<forall>ns p. sys_dlopen ?s ns p = (None, [])" "\<forall>p. sys_file ?s p = None"
    "fst (CheckModuleLoadable ?s (rq_moduleName q) (rq_isApp q))"
    by (simp_all add: demo_system_def CheckModuleLoadable_def)
  have sm: "search_modules (rq_key q) (path_strings (rq_paths q)) (module_seq (mlst new_manager) []) None = (None, None)"
    by (simp add: module_seq_def)
  show ?thesis using failed_load_reports [OF c minv_new sm d] by (auto simp: new_manager_def)
qed

section \<open>Library paths\<close>

lemma join_snoc: "qs \<noteq> [] \<Longrightarrow> join c (qs @ [p]) = join c qs @ c # p"
  by (induction c qs rule: join.induct) auto

lemma join_Nil_iff: "\<forall>q \<in> set qs. q \<noteq> [] \<Longrightarrow> join c qs = [] \<longleftrightarrow> qs = []"
  by (induction c qs rule: join.induct) auto

lemma getlines_single: "l \<noteq> [] \<Longrightarrow> sep \<notin> set l \<Longrightarrow> getlines sep l = [l]"
proof -
  assume l: "l \<noteq> []" "sep \<notin> set l"
  then have t: "takeWhile (\<lambda>c. c \<noteq> sep) l = l" and d: "dropWhile (\<lambda>c. c \<noteq> sep) l = []"
    by (auto simp: takeWhile_eq_all_conv dropWhile_eq_Nil_conv)
  show ?thesis unfolding getlines.simps [of sep l] t d using l by simp
qed

lemma getlines_join: "\<forall>l \<in> set ls. l \<noteq> [] \<and> sep \<notin> set l \<Longrightarrow> getlines sep (join sep ls) = ls"
  by (induction sep ls rule: join.induct) (auto simp: getlines_single getlines_line)

lemma app_lib_path_join: "app_lib_path ps = join (CHR 0x3A) (filter (\<lambda>p. p \<noteq> []) ps)"
proof -
  let ?c = "CHR 0x3A" and ?q = "filter (\<lambda>p. p \<noteq> []) ps"
  have "concat (map (\<lambda>p. if p = [] then [] else p @ [?c]) ps) = (if ?q = [] then [] else join ?c ?q @ [?c])"
  proof (induction ps)
    case (Cons p ps)
    have "join ?c (p # qs) = p @ ?c # join ?c qs" if "qs \<noteq> []" for qs
      using that by (cases qs) auto
    then show ?case using Cons by auto
  qed simp
  then show ?thesis by (simp add: app_lib_path_def Let_def)
qed

lemma extend_lib_path_join:
  "\<forall>q \<in> set qs. q \<noteq> [] \<Longrightarrow>
     extend_lib_path (join (CHR 0x3A) qs) ps = join (CHR 0x3A) (qs @ filter (\<lambda>p. p \<noteq> []) ps)"
proof (induction ps arbitrary: qs)
  case Nil
  then show ?case by (simp add: extend_lib_path_def)
next
  case (Cons p ps)
  show ?case
  proof (cases "p = []")
    case True
    then show ?thesis using Cons by (simp add: extend_lib_path_def)
  next
    case False
    have "(if join (CHR 0x3A) qs \<noteq> [] then join (CHR 0x3A) qs @ [CHR 0x3A] else join (CHR 0x3A) qs) @ p =
        join (CHR 0x3A) (qs @ [p])"
      using join_Nil_iff [OF Cons.prems] by (cases "qs = []") (simp_all add: join_snoc)
    then show ?thesis
      using Cons.IH [of "qs @ [p]"] Cons.prems False by (simp add: extend_lib_path_def)
  qed
qed

text \<open>
  The library path of an application's name space is a faithful list: after \<open>SetAppLibPath\<close> the name
  space exists and its path, read back at the colons, is the list given without its empty entries;
  \<open>UpdateNamespaceLibPath\<close> (when the linker accepts it) appends the non-empty new entries and keeps the
  old ones; the paths of other name spaces do not change.
\<close>

theorem lib_paths_roundtrip:
  assumes "\<forall>p \<in> set ps \<union> set ps'. CHR 0x3A \<notin> set p" and "\<forall>n p. sys_set_lib_path s n p = 0"
  shows "let m1 = SetAppLibPath name ps m; m2 = UpdateNamespaceLibPath s name ps' m1
    in GetLdNamespaceName name m2 = Some (''moduleNs_'' @ name) \<and>
       map_option (getlines (CHR 0x3A)) (appLibPathMap m1 name) = Some (filter (\<lambda>p. p \<noteq> []) ps) \<and>
       map_option (getlines (CHR 0x3A)) (appLibPathMap m2 name) = Some (filter (\<lambda>p. p \<noteq> []) (ps @ ps')) \<and>
       (\<forall>k. k = name \<or> appLibPathMap m2 k = appLibPathMap m k)"
proof -
  let ?q = "filter (\<lambda>p. p \<noteq> []) ps"
  have e: "extend_lib_path (app_lib_path ps) ps' = join (CHR 0x3A) (filter (\<lambda>p. p \<noteq> []) (ps @ ps'))"
    using extend_lib_path_join [of ?q ps'] by (simp add: app_lib_path_join)
  have g: "getlines (CHR 0x3A) (join (CHR 0x3A) (filter (\<lambda>p. p \<noteq> []) rs)) = filter (\<lambda>p. p \<noteq> []) rs"
    if "set rs \<subseteq> set ps \<union> set ps'" for rs
    using that assms(1) by (intro getlines_join) auto
  have "appLibPathMap (SetAppLibPath name ps m) name = Some (app_lib_path ps)"
    "name \<in> nsMap (SetAppLibPath name ps m)"
    by (simp_all add: SetAppLibPath_def)
  then show ?thesis
    using g [of ps] g [of "ps @ ps'"] e assms(2)
    by (simp add: Let_def UpdateNamespaceLibPath_def GetLdNamespaceName_def app_lib_path_join [symmetric])
      (simp add: SetAppLibPath_def app_lib_path_join)
qed

theorem lib_paths_roundtrip_witness:
  "map_option (getlines (CHR 0x3A)) (appLibPathMap (UpdateNamespaceLibPath demo_system ''app'' [''/c'']
     (SetAppLibPath ''app'' [''/a'', [], ''/b''] new_manager)) ''app'') = Some [''/a'', ''/b'', ''/c'']"
proof -
  have "\<forall>p \<in> set [''/a'', [], ''/b''] \<union> set [''/c'']. CHR 0x3A \<notin> set p" "\<forall>n p. sys_set_lib_path demo_system n p = 0"
    by (simp_all add: demo_system_def)
  from lib_paths_roundtrip [OF this, of "''app''" new_manager] show ?thesis by (simp add: Let_def)
qed

section \<open>What the model shows to be wrong\<close>

text \<open>
  The first look-up leaves pointers to the head and the tail; \<open>mutex_\<close> is taken only afterwards, and
  \<open>UnloadNativeModule\<close> does not take it.  A module unloaded in between is read after it was freed.
\<close>

theorem stale_list_pointers:
  "Option.bind (mm_run demo_system [load_sys ''a'', load_sys ''b''] new_manager) (\<lambda>m.
     (case load_checks demo_system (Some ''c'') None False [] False (Some []) [] m of
        Inl r \<Rightarrow> None
      | Inr q \<Rightarrow> Option.bind (FindNativeModuleByCache (rq_key q) (path_list (rq_paths q)) no_head_tail True m)
          (\<lambda>(f, c, ht). Option.bind (mm_step demo_system (MM_Unload ''a'') m) (\<lambda>m1.
            Some (load_locked demo_system q c ht m = None, load_locked demo_system q c ht m1 = None))))) =
   Some (False, True)"
  by code_simp

text \<open>
  A library that registers no module takes over the tail of the list: the module registered before is
  renamed, returned for the new name, and removed when the new name is unloaded.
\<close>

theorem silent_library_renames_tail:
  "map_option (\<lambda>m. map_option (\<lambda>n. (nm_name n, nm_moduleName n)) (mods (mlst m) 1))
     (mm_run demo_system [load_sys ''a'', load_sys ''none''] new_manager) = Some (Some (Some ''a'', Some ''none''))"
  "map_option (\<lambda>m. (headNativeModule (mlst m), moduleLibMap m ''a'', dlclosed m))
     (mm_run demo_system [load_sys ''a'', load_sys ''none'', MM_Unload ''none''] new_manager) =
     Some (None, Some 10, [12])"
  by code_simp+

text \<open>\<open>GetModuleFileName\<close> compares with path buffers that were never written.\<close>

theorem file_name_reads_uninitialised:
  "map_option (GetModuleFileName (Some ''a'') True)
     (mm_run demo_system [MM_Load (Some ''a'') (Some ''default'') True False (Some []),
        MM_SetAppLibPath ''default'' [''/x'']] new_manager) = Some None"
  by code_simp

text \<open>
  With byte code modules the same takeover frees a buffer that stays indexed: the module \<open>k\<close> comes from
  byte code, a silent library renames it, unloading that library deletes its buffer, and the next
  request for \<open>k\<close> is answered with the deleted buffer; the destructor then deletes it a second time.
\<close>

theorem byte_code_buffer_dangles:
  "(let s = demo_system\<lparr>sys_file := (\<lambda>p. if p = ''/system/etc/abc/k.abc'' then Some (8, 8) else None)\<rparr>;
        r = mm_run s [load_sys ''k'', load_sys ''none'', MM_Unload ''none'', load_sys ''k''] new_manager
    in (map_option (\<lambda>m. (100 \<in> abcs (mlst m), Option.bind (mods (mlst m) 1) nm_jsABCCode)) r,
        map_option dlclosed (Option.bind r destroy_NativeModuleManager))) = (Some (False, Some 100), None)"
  by code_simp

text \<open>
  Names are compared without letter case when a module is removed, but exactly in the table of
  libraries: unloading \<open>b\<close> can remove the module \<open>B\<close>, and closes the library of \<open>b\<close> under it.
\<close>

theorem unload_ignores_case:
  "(let s = demo_system\<lparr>sys_dlopen := (\<lambda>ns p. if p = ''/x/B.so'' then (Some 20, [demo_module ''1''])
             else if p = ''/x/b.so'' then (Some 21, [demo_module ''2'']) else (None, []))\<rparr>
    in map_option (\<lambda>m. (map_option nm_name (mods (mlst m) 1), map_option nm_name (mods (mlst m) 2), dlclosed m))
         (mm_run s [MM_SetAppLibPath ''default'' [''/x''],
            MM_Load (Some ''B.so'') (Some ''default'') True False (Some []),
            MM_Load (Some ''b.so'') (Some ''default'') True False (Some []),
            MM_Unload ''default/b.so''] new_manager)) =
   Some (None, Some (Some ''default/2''), [21])"
  by code_simp

end
