(* ===== verification/Idle_Monitor.thy ===== *)
theory Idle_Monitor
  imports Napi_Prelude "HOL-Library.Signed_Division"
begin

text \<open>
  The idle monitor (native\_engine/impl/ark/ark\_idle\_monitor.h and .cpp): it watches how often and how
  long the main loop sleeps and asks the VM to collect garbage when the process is idle, in the
  foreground and after a switch to the background.  The worker states it reads are
  \<open>WorkerThreadState\<close> of native\_engine/native\_engine.h.

  The build modelled is the device build (\<open>ENABLE_FFRT\<close>, \<open>ENABLE_EVENT_HANDLER\<close>).  Timers, the VM, the
  clock, the processor load and the resource scheduler are parameters; what the monitor asks of them
  is recorded in order in \<open>effects\<close>.  Times are milliseconds as unbounded integers.  The ratios, which
  the code keeps as doubles, are compared as exact fractions with the value of the constants.
\<close>

section \<open>The ring buffer of intervals\<close>

record ring =
  elements :: "int list"
  start :: nat
  ring_count :: nat

definition IDLE_CHECK_INTERVAL_LENGTH :: nat where "IDLE_CHECK_INTERVAL_LENGTH = 4"

definition new_ring :: ring where
  "new_ring = \<lparr>elements = replicate IDLE_CHECK_INTERVAL_LENGTH 0, start = 0, ring_count = 0\<rparr>"

definition ring_Push :: "int \<Rightarrow> ring \<Rightarrow> ring" where
  "ring_Push v r =
     (if ring_count r = IDLE_CHECK_INTERVAL_LENGTH
      then let s = start r + 1
           in r\<lparr>elements := (elements r)[start r := v], start := (if s = IDLE_CHECK_INTERVAL_LENGTH then 0 else s)\<rparr>
      else r\<lparr>elements := (elements r)[ring_count r := v], ring_count := ring_count r + 1\<rparr>)"

definition ring_Sum :: "ring \<Rightarrow> int" where
  "ring_Sum r = foldl (+) 0 (take (ring_count r) (elements r))"

definition ring_Reset :: "ring \<Rightarrow> ring" where
  "ring_Reset r = r\<lparr>start := 0, ring_count := 0\<rparr>"

section \<open>The state of a worker thread\<close>

record worker_state =
  isRunning :: bool
  taskCount :: u32
  lastTaskCount :: u32
  checkCount :: u32

definition IDLE_CHECK_COUNT :: u32 where "IDLE_CHECK_COUNT = 5"

definition CheckIdleState :: "worker_state \<Rightarrow> worker_state" where
  "CheckIdleState w =
     (if \<not> isRunning w \<and> taskCount w \<le> lastTaskCount w + IDLE_CHECK_COUNT
      then w\<lparr>lastTaskCount := taskCount w, checkCount := checkCount w + 1\<rparr>
      else w\<lparr>checkCount := 0, lastTaskCount := taskCount w\<rparr>)"

definition ResetCheckCount :: "worker_state \<Rightarrow> worker_state" where
  "ResetCheckCount w = w\<lparr>checkCount := 0\<rparr>"

definition NoityTaskStart :: "worker_state \<Rightarrow> worker_state" where
  "NoityTaskStart w = w\<lparr>taskCount := taskCount w + 1, isRunning := True\<rparr>"

definition NotifyTaskEnd :: "worker_state \<Rightarrow> worker_state" where
  "NotifyTaskEnd w = w\<lparr>isRunning := False\<rparr>"

section \<open>State\<close>

datatype idle_effect =
    TimerStart int int
  | TimerStop int
  | MainCompressTask
  | MainFullGC
  | SharedCC
  | SharedFullGC
  | WorkerFullGC nat
  | ReportFreeze bool
  | ClearCallback
  | IdleCheckTask
  | VmIdleStart
  | VmIdleEnd
  | ShrinkTaskpool bool

record idle_monitor =
  idleState :: bool
  inBackground :: bool
  deferfreeze :: bool
  isSwitchToBackgroundTask :: bool
  duringBackgroundTask :: bool
  idleNotifyCount :: int
  idleStartTimestamp :: int
  totalIdleDuration :: int
  idleEndTimestamp :: int
  lastTotalIdleDuration :: int
  startRecordTimestamp :: int
  intervalTimestamp :: int
  triggerTaskStartTimestamp :: int
  lastWorkerLocalGCTimestamp :: int
  started :: bool
  triggeredGC :: bool
  needCheckIntervalIdle :: bool
  enableIdleProcessGCBackground :: bool
  currentTimerHandler :: int
  waitForStopTimerHandler :: int
  switchBackgroundTimerHandler :: int
  numberOfLowIdleNotifyCycles :: u32
  numberOfHighIdleTimeRatio :: u32
  timerHandlerQueue :: "int list"
  handlerWaitToStopCount :: u32
  recordedIdleNotifyInterval :: ring
  recordedRunningNotifyInterval :: ring
  sentTaskWorkerEnvSet :: "nat set"
  workerEnvVector :: "nat list"
  workerStates :: "nat \<Rightarrow> worker_state"
  mainVM :: bool
  gEnableDeferFreeze :: bool
  hasClearCallback :: bool
  effects :: "idle_effect list"

definition new_monitor :: idle_monitor where
  "new_monitor = \<lparr>idleState = False, inBackground = True, deferfreeze = False, isSwitchToBackgroundTask = False,
     duringBackgroundTask = False, idleNotifyCount = 0, idleStartTimestamp = 0, totalIdleDuration = 0,
     idleEndTimestamp = 0, lastTotalIdleDuration = 0, startRecordTimestamp = 0, intervalTimestamp = 0,
     triggerTaskStartTimestamp = 0, lastWorkerLocalGCTimestamp = 0, started = False, triggeredGC = False,
     needCheckIntervalIdle = True, enableIdleProcessGCBackground = True, currentTimerHandler = -1,
     waitForStopTimerHandler = -1, switchBackgroundTimerHandler = -1, numberOfLowIdleNotifyCycles = 0,
     numberOfHighIdleTimeRatio = 0, timerHandlerQueue = [], handlerWaitToStopCount = 0,
     recordedIdleNotifyInterval = new_ring, recordedRunningNotifyInterval = new_ring,
     sentTaskWorkerEnvSet = {}, workerEnvVector = [],
     workerStates = (\<lambda>_. \<lparr>isRunning = False, taskCount = 0, lastTaskCount = 0, checkCount = 0\<rparr>),
     mainVM = True, gEnableDeferFreeze = True, hasClearCallback = False, effects = []\<rparr>"

definition emit :: "idle_effect \<Rightarrow> idle_monitor \<Rightarrow> idle_monitor" where
  "emit x m = m\<lparr>effects := effects m @ [x]\<rparr>"

text \<open>
  What the environment answers during one call: the clock, the handle of a timer that is started, the
  result of the VM's own idle check, the processor load against the two thresholds, and for each
  worker whether its thread is alive, is a native thread, and how many bytes its VM expects to reclaim.
\<close>

record idle_env =
  clock :: int
  newHandle :: int
  vmTriggered :: bool
  cpuAtLeastIdle :: bool
  cpuAboveBackground :: bool
  alive :: "nat \<Rightarrow> bool"
  nativeThread :: "nat \<Rightarrow> bool"
  expectedSize :: "nat \<Rightarrow> int"
  gIdleMonitoringInterval :: int

section \<open>Constants\<close>

definition IDLE_CHECK_LENGTH :: u32 where "IDLE_CHECK_LENGTH = 15"
definition IDLE_INBACKGROUND_CHECK_LENGTH :: u32 where "IDLE_INBACKGROUND_CHECK_LENGTH = 4"
definition LOW_IDLE_NOTIFY_THRESHOLD :: int where "LOW_IDLE_NOTIFY_THRESHOLD = 10"
definition SLEEP_MONITORING_INTERVAL :: int where "SLEEP_MONITORING_INTERVAL = 90 * 1000"
definition MIN_TRIGGER_GC_IDLE_INTERVAL :: int where "MIN_TRIGGER_GC_IDLE_INTERVAL = 10"
definition MAX_TRIGGER_GC_RUNNING_INTERVAL :: int where "MAX_TRIGGER_GC_RUNNING_INTERVAL = 1"
definition BACKGROUND_GC_CHECK_INTERVAL :: int where "BACKGROUND_GC_CHECK_INTERVAL = 500"
definition BACKGROUND_GC_CHECK_COUNT :: nat where "BACKGROUND_GC_CHECK_COUNT = 3"
definition BACKGROUND_GC_DELAY_OVER_TIME :: int where
  "BACKGROUND_GC_DELAY_OVER_TIME = BACKGROUND_GC_CHECK_INTERVAL + 100"
definition SHORT_IDLE_DELAY_INTERVAL :: int where "SHORT_IDLE_DELAY_INTERVAL = 50"
definition WAIT_LOCAL_GC_LOWER_INTERVAL :: int where "WAIT_LOCAL_GC_LOWER_INTERVAL = 2000"
definition WAIT_LOCAL_GC_UPPER_INTERVAL :: int where "WAIT_LOCAL_GC_UPPER_INTERVAL = 2500"
definition IDLE_WORKER_TRIGGER_COUNT :: u32 where "IDLE_WORKER_TRIGGER_COUNT = 1"
definition IDLE_WORKER_GC_CHECK_COUNT :: u32 where "IDLE_WORKER_GC_CHECK_COUNT = 3"
definition IDLE_WORKER_GC_COOLDOWN_MS :: int where "IDLE_WORKER_GC_COOLDOWN_MS = 30000"
definition IDLE_MIN_EXPECT_RECLAIM_SIZE :: int where "IDLE_MIN_EXPECT_RECLAIM_SIZE = 1024 * 1024"
definition IDLE_MIN_EXPECT_RECLAIM_SIZE_FOREGROUND :: int where
  "IDLE_MIN_EXPECT_RECLAIM_SIZE_FOREGROUND = 5 * 1024 * 1024"

text \<open>
  The ratios are float literals widened to double: 0.985f is 16525558 / 2^24, 0.96f is 16106127 / 2^24,
  0.6f is 10066330 / 2^24.  \<open>ratio_ge\<close> and \<open>ratio_gt\<close> compare \<open>a / b\<close> with such a fraction, for positive
  \<open>b\<close>; a quotient by zero is infinite or not a number, a negative one turns the comparison around.
\<close>

definition ratio_ge :: "int \<Rightarrow> int \<Rightarrow> int \<Rightarrow> bool" where
  "ratio_ge a b p = (if b > 0 then a * 2 ^ 24 \<ge> p * b else if b < 0 then a * 2 ^ 24 \<le> p * b else a > 0)"

definition ratio_gt :: "int \<Rightarrow> int \<Rightarrow> int \<Rightarrow> bool" where
  "ratio_gt a b p = (if b > 0 then a * 2 ^ 24 > p * b else if b < 0 then a * 2 ^ 24 < p * b else a > 0)"

definition IDLE_RATIO :: int where "IDLE_RATIO = 16525558"
definition SHORT_IDLE_RATIO :: int where "SHORT_IDLE_RATIO = 16106127"
definition BACKGROUND_IDLE_RATIO :: int where "BACKGROUND_IDLE_RATIO = 10066330"

section \<open>Worker threads\<close>

definition upd_worker :: "(worker_state \<Rightarrow> worker_state) \<Rightarrow> nat \<Rightarrow> idle_monitor \<Rightarrow> idle_monitor" where
  "upd_worker f w m = m\<lparr>workerStates := (workerStates m)(w := f (workerStates m w))\<rparr>"

definition CheckWorkerEnvQueue :: "idle_monitor \<Rightarrow> idle_monitor" where
  "CheckWorkerEnvQueue m = fold (upd_worker CheckIdleState) (workerEnvVector m) m"

fun all_in_idle :: "u32 \<Rightarrow> nat list \<Rightarrow> idle_monitor \<Rightarrow> idle_monitor \<times> bool" where
  "all_in_idle idleCount [] m = (m, True)"
| "all_in_idle idleCount (w # ws) m =
     (let m1 = upd_worker CheckIdleState w m
      in if checkCount (workerStates m1 w) < idleCount then (m1, False) else all_in_idle idleCount ws m1)"

definition CheckWorkerEnvQueueAllInIdle :: "u32 \<Rightarrow> idle_monitor \<Rightarrow> idle_monitor \<times> bool" where
  "CheckWorkerEnvQueueAllInIdle idleCount m = all_in_idle idleCount (workerEnvVector m) m"

definition ClearIdleStats :: "idle_monitor \<Rightarrow> idle_monitor" where
  "ClearIdleStats m =
     (let m1 = m\<lparr>idleNotifyCount := 0, numberOfLowIdleNotifyCycles := 0, numberOfHighIdleTimeRatio := 0\<rparr>
      in fold (upd_worker ResetCheckCount) (workerEnvVector m1) m1)"

definition RegisterWorkerEnv :: "nat \<Rightarrow> idle_monitor \<Rightarrow> idle_monitor" where
  "RegisterWorkerEnv w m = m\<lparr>workerEnvVector := workerEnvVector m @ [w]\<rparr>"

definition UnregisterWorkerEnv :: "nat \<Rightarrow> idle_monitor \<Rightarrow> idle_monitor" where
  "UnregisterWorkerEnv w m = m\<lparr>workerEnvVector := filter (\<lambda>v. v \<noteq> w) (workerEnvVector m)\<rparr>"

datatype WorkerGCResult = READY | SKIPPED | NOT_IDLE | ERASED

definition EvaluateWorkerGC :: "idle_env \<Rightarrow> nat \<Rightarrow> bool \<Rightarrow> idle_monitor \<Rightarrow> WorkerGCResult" where
  "EvaluateWorkerGC e w isForeground m =
     (if \<not> alive e w then ERASED
      else if w \<in> sentTaskWorkerEnvSet m then SKIPPED
      else let cc = checkCount (workerStates m w)
           in if cc = 0 then NOT_IDLE
              else if isForeground \<and> cc mod IDLE_WORKER_GC_CHECK_COUNT \<noteq> 0 then SKIPPED
              else if nativeThread e w then SKIPPED
              else if expectedSize e w \<le> (if isForeground then IDLE_MIN_EXPECT_RECLAIM_SIZE_FOREGROUND
                                             else IDLE_MIN_EXPECT_RECLAIM_SIZE) then SKIPPED
              else READY)"

definition PostWorkerFullGC :: "nat \<Rightarrow> idle_monitor \<Rightarrow> idle_monitor" where
  "PostWorkerFullGC w m = emit (WorkerFullGC w) (m\<lparr>sentTaskWorkerEnvSet := insert w (sentTaskWorkerEnvSet m)\<rparr>)"

text \<open>The callback of that task, on the worker's thread.\<close>

definition worker_gc_finished :: "nat \<Rightarrow> idle_monitor \<Rightarrow> idle_monitor" where
  "worker_gc_finished w m = m\<lparr>sentTaskWorkerEnvSet := sentTaskWorkerEnvSet m - {w}\<rparr>"

text \<open>The loop of \<open>TryTriggerWorkerLocalGC\<close>: the workers kept and the number of tasks posted.\<close>

fun local_gc_loop :: "idle_env \<Rightarrow> nat list \<Rightarrow> idle_monitor \<Rightarrow> idle_monitor \<times> nat list \<times> nat" where
  "local_gc_loop e [] m = (m, [], 0)"
| "local_gc_loop e (w # ws) m =
     (let r = EvaluateWorkerGC e w True m;
          m1 = (if r = READY then PostWorkerFullGC w m else m);
          (m2, kept, n) = local_gc_loop e ws m1
      in (m2, if r = ERASED then kept else w # kept, if r = READY then n + 1 else n))"

definition TryTriggerWorkerLocalGC :: "idle_env \<Rightarrow> idle_monitor \<Rightarrow> idle_monitor" where
  "TryTriggerWorkerLocalGC e m =
     (if clock e - lastWorkerLocalGCTimestamp m < IDLE_WORKER_GC_COOLDOWN_MS then m
      else let (m1, kept, triggeredCount) = local_gc_loop e (workerEnvVector m) m;
               m2 = m1\<lparr>workerEnvVector := kept\<rparr>
           in if triggeredCount > 0 then m2\<lparr>lastWorkerLocalGCTimestamp := clock e\<rparr> else m2)"

section \<open>Freezing\<close>

definition NotifyNeedFreeze :: "bool \<Rightarrow> idle_monitor \<Rightarrow> idle_monitor" where
  "NotifyNeedFreeze needFreeze m =
     (if \<not> gEnableDeferFreeze m \<or> \<not> isSwitchToBackgroundTask m then m
      else if \<not> needFreeze
      then if \<not> deferfreeze m then emit (ReportFreeze False) (m\<lparr>deferfreeze := True\<rparr>) else m
      else if deferfreeze m
      then let m1 = m\<lparr>deferfreeze := False, isSwitchToBackgroundTask := False\<rparr>;
               m2 = (if hasClearCallback m1 then emit ClearCallback m1 else m1)
           in emit (ReportFreeze True) m2
      else m)"

definition CheckIfInBackgroundInCompressGC :: "idle_monitor \<Rightarrow> idle_monitor \<times> bool" where
  "CheckIfInBackgroundInCompressGC m =
     (if \<not> inBackground m \<and> isSwitchToBackgroundTask m
      then (m\<lparr>deferfreeze := False, isSwitchToBackgroundTask := False\<rparr>, False) else (m, True))"

section \<open>Timers\<close>

definition stop_timer :: "int \<Rightarrow> idle_monitor \<Rightarrow> idle_monitor" where
  "stop_timer h m = (if h \<noteq> -1 then emit (TimerStop h) m else m)"

definition PostMonitorTask :: "idle_env \<Rightarrow> int \<Rightarrow> idle_monitor \<Rightarrow> idle_monitor" where
  "PostMonitorTask e delayMs m =
     (let m1 = stop_timer (waitForStopTimerHandler m) m
      in emit (TimerStart delayMs (newHandle e))
           (m1\<lparr>waitForStopTimerHandler := currentTimerHandler m1, currentTimerHandler := newHandle e\<rparr>))"

definition StopIdleMonitorTimerTask :: "idle_monitor \<Rightarrow> idle_monitor" where
  "StopIdleMonitorTimerTask m =
     (let m1 = (stop_timer (currentTimerHandler m) m)\<lparr>currentTimerHandler := -1\<rparr>
      in (stop_timer (waitForStopTimerHandler m1) m1)\<lparr>waitForStopTimerHandler := -1\<rparr>)"

definition StopIdleMonitorTimerTaskAndPostSleepTask :: "idle_env \<Rightarrow> idle_monitor \<Rightarrow> idle_monitor" where
  "StopIdleMonitorTimerTaskAndPostSleepTask e m =
     PostMonitorTask e SLEEP_MONITORING_INTERVAL (StopIdleMonitorTimerTask m)"

definition PostSwitchBackgroundGCTask :: "idle_env \<Rightarrow> idle_monitor \<Rightarrow> idle_monitor" where
  "PostSwitchBackgroundGCTask e m =
     (if duringBackgroundTask m then m
      else let m1 = stop_timer (switchBackgroundTimerHandler m) m
           in (emit (TimerStart BACKGROUND_GC_CHECK_INTERVAL (newHandle e)) m1)
                \<lparr>switchBackgroundTimerHandler := newHandle e, duringBackgroundTask := True\<rparr>)"

definition PostIdleCheckTask :: "idle_env \<Rightarrow> idle_monitor \<Rightarrow> idle_monitor" where
  "PostIdleCheckTask e m =
     (emit (TimerStart SHORT_IDLE_DELAY_INTERVAL (newHandle e)) m)
       \<lparr>timerHandlerQueue := timerHandlerQueue m @ [newHandle e]\<rparr>"

section \<open>Background switches\<close>

definition NotifyChangeBackgroundState :: "idle_env \<Rightarrow> bool \<Rightarrow> idle_monitor \<Rightarrow> idle_monitor" where
  "NotifyChangeBackgroundState e b m =
     (let m1 = ClearIdleStats (m\<lparr>enableIdleProcessGCBackground := False\<rparr>);
          m2 = (if started m1 \<and> b
                then PostSwitchBackgroundGCTask e (CheckWorkerEnvQueue (StopIdleMonitorTimerTask m1)) else m1);
          m3 = m2\<lparr>inBackground := b\<rparr>
      in if deferfreeze m3 \<and> b then m3\<lparr>deferfreeze := False\<rparr> else m3)"

text \<open>None of these operations adds or removes a worker.\<close>

lemma worker_vector_simps [simp]:
  "workerEnvVector (emit x m) = workerEnvVector m"
  "workerEnvVector (upd_worker f w m) = workerEnvVector m"
  "workerEnvVector (PostWorkerFullGC w m) = workerEnvVector m"
  "workerEnvVector (worker_gc_finished w m) = workerEnvVector m"
  "workerEnvVector (stop_timer h m) = workerEnvVector m"
  "workerEnvVector (PostMonitorTask e d m) = workerEnvVector m"
  "workerEnvVector (StopIdleMonitorTimerTask m) = workerEnvVector m"
  "workerEnvVector (PostSwitchBackgroundGCTask e m) = workerEnvVector m"
  "workerEnvVector (fst (CheckIfInBackgroundInCompressGC m)) = workerEnvVector m"
  "workerEnvVector (NotifyNeedFreeze b m) = workerEnvVector m"
  by (simp_all add: emit_def upd_worker_def PostWorkerFullGC_def worker_gc_finished_def stop_timer_def
      PostMonitorTask_def StopIdleMonitorTimerTask_def PostSwitchBackgroundGCTask_def
      CheckIfInBackgroundInCompressGC_def NotifyNeedFreeze_def Let_def)

lemma worker_vector_fold [simp]: "workerEnvVector (fold (upd_worker f) ws m) = workerEnvVector m"
  by (induction ws arbitrary: m) simp_all

lemma worker_vector_queue [simp]:
  "workerEnvVector (CheckWorkerEnvQueue m) = workerEnvVector m"
  "workerEnvVector (ClearIdleStats m) = workerEnvVector m"
  by (simp_all add: CheckWorkerEnvQueue_def ClearIdleStats_def Let_def)

lemma worker_vector_switch [simp]: "workerEnvVector (NotifyChangeBackgroundState e b m) = workerEnvVector m"
  by (simp add: NotifyChangeBackgroundState_def Let_def)

lemma CheckIf_vector [simp]:
  "CheckIfInBackgroundInCompressGC m = (m', b) \<Longrightarrow> workerEnvVector m' = workerEnvVector m"
  using worker_vector_simps(9) [of m] by simp

section \<open>Collecting the whole process\<close>

text \<open>
  What happens in one round of the loop of \<open>TryTriggerCompressGCOfProcess\<close>: a switch by another thread
  before the check, whether the worker finishes before the wait ends, and the time after the wait.
\<close>

record round_env =
  switch_to :: "bool option"
  finished :: bool
  now :: int

datatype compress_exit = ToForeground | OverTime | ToShared bool

function compress_loop ::
    "idle_env \<Rightarrow> (nat \<Rightarrow> round_env) \<Rightarrow> nat \<Rightarrow> nat \<Rightarrow> bool \<Rightarrow> idle_monitor \<Rightarrow> idle_monitor \<times> compress_exit" where
  "compress_loop e rounds k index isAllInIdle m =
     (let m0 = (case switch_to (rounds k) of None \<Rightarrow> m | Some b \<Rightarrow> NotifyChangeBackgroundState e b m);
          (m1, still) = CheckIfInBackgroundInCompressGC m0
      in if \<not> still then (m1, ToForeground)
         else if index \<ge> length (workerEnvVector m1) then (m1, ToShared isAllInIdle)
         else let w = workerEnvVector m1 ! index; r = EvaluateWorkerGC e w False m1
              in if r = ERASED
                 then compress_loop e rounds (k + 1) index isAllInIdle
                        (m1\<lparr>workerEnvVector := take index (workerEnvVector m1) @ drop (index + 1) (workerEnvVector m1)\<rparr>)
                 else let idle1 = (isAllInIdle \<and> r \<noteq> NOT_IDLE)
                      in if r \<noteq> READY then compress_loop e rounds (k + 1) (index + 1) idle1 m1
                         else let m2 = PostWorkerFullGC w m1;
                                  m3 = (if finished (rounds k) then worker_gc_finished w m2 else m2);
                                  spent = now (rounds k) - triggerTaskStartTimestamp m3
                              in if spent > WAIT_LOCAL_GC_LOWER_INTERVAL \<and> spent \<le> WAIT_LOCAL_GC_UPPER_INTERVAL
                                 then (m3, ToShared idle1)
                                 else if spent > WAIT_LOCAL_GC_UPPER_INTERVAL
                                 then (NotifyNeedFreeze True m3, OverTime)
                                 else compress_loop e rounds (k + 1) (index + 1) idle1 m3)"
  by pat_completeness auto


text \<open>Every round moves to the next worker or removes one.\<close>

termination
  by (relation "measure (\<lambda>(e, rounds, k, index, b, m). length (workerEnvVector m) - index)")
    (auto dest!: sym [of "(_, _)" "CheckIfInBackgroundInCompressGC _"] split: option.splits if_splits)

declare compress_loop.simps [simp del]

definition TryTriggerCompressGCOfProcess :: "idle_env \<Rightarrow> (nat \<Rightarrow> round_env) \<Rightarrow> idle_monitor \<Rightarrow> idle_monitor" where
  "TryTriggerCompressGCOfProcess e rounds m =
     (let m1 = emit MainFullGC (NotifyNeedFreeze False m);
          (m2, exit) = (if \<not> gEnableDeferFreeze m1
            then let (m', b) = CheckWorkerEnvQueueAllInIdle IDLE_WORKER_TRIGGER_COUNT m1 in (m', ToShared b)
            else compress_loop e rounds 0 0 True m1)
      in case exit of
           ToForeground \<Rightarrow> m2
         | OverTime \<Rightarrow> m2
         | ToShared isAllInIdle \<Rightarrow>
             if \<not> isAllInIdle then NotifyNeedFreeze True m2
             else if cpuAboveBackground e then (NotifyNeedFreeze True m2)\<lparr>isSwitchToBackgroundTask := False\<rparr>
             else let (m3, still) = CheckIfInBackgroundInCompressGC m2
                  in if still then emit SharedCC m3 else NotifyNeedFreeze True m3)"

definition SwitchBackgroundCheckGCTask ::
    "idle_env \<Rightarrow> (nat \<Rightarrow> round_env) \<Rightarrow> int \<Rightarrow> int \<Rightarrow> idle_monitor \<Rightarrow> idle_monitor \<times> bool" where
  "SwitchBackgroundCheckGCTask e rounds timestamp idleDuration m =
     (let sumDuration = clock e - timestamp;
          sumIdleDuration = (totalIdleDuration m - idleDuration) + (clock e - idleStartTimestamp m)
      in if ratio_gt sumIdleDuration sumDuration BACKGROUND_IDLE_RATIO \<and> sumDuration < BACKGROUND_GC_DELAY_OVER_TIME
         then (TryTriggerCompressGCOfProcess e rounds
                ((CheckWorkerEnvQueue (m\<lparr>triggerTaskStartTimestamp := clock e\<rparr>))\<lparr>isSwitchToBackgroundTask := True\<rparr>), True)
         else (m, False))"

text \<open>
  The timer task posted by \<open>PostSwitchBackgroundGCTask\<close>; attempt \<open>k\<close> runs in \<open>envs k\<close>, and what other
  threads do while the task sleeps is \<open>between k\<close>.
\<close>

fun background_attempts ::
    "nat \<Rightarrow> (nat \<Rightarrow> idle_env) \<Rightarrow> (nat \<Rightarrow> nat \<Rightarrow> round_env) \<Rightarrow> (nat \<Rightarrow> idle_monitor \<Rightarrow> idle_monitor) \<Rightarrow> int \<Rightarrow> int \<Rightarrow>
     idle_monitor \<Rightarrow> idle_monitor" where
  "background_attempts 0 envs rounds between timestamp idleDuration m = m"
| "background_attempts (Suc left) envs rounds between timestamp idleDuration m =
     (let k = BACKGROUND_GC_CHECK_COUNT - Suc left
      in if \<not> inBackground m then m
         else let (m1, triggered) = SwitchBackgroundCheckGCTask (envs k) (rounds k) timestamp idleDuration m
              in if triggered then m1
                 else if left > 0
                 then background_attempts left envs rounds between (clock (envs k)) (totalIdleDuration m1) (between k m1)
                 else m1)"

definition background_task ::
    "idle_env \<Rightarrow> (nat \<Rightarrow> idle_env) \<Rightarrow> (nat \<Rightarrow> nat \<Rightarrow> round_env) \<Rightarrow> (nat \<Rightarrow> idle_monitor \<Rightarrow> idle_monitor) \<Rightarrow> int \<Rightarrow> int \<Rightarrow>
     idle_monitor \<Rightarrow> idle_monitor" where
  "background_task e envs rounds between timestamp idleDuration m =
     (let m1 = background_attempts BACKGROUND_GC_CHECK_COUNT envs rounds between timestamp idleDuration m;
          m2 = emit (ShrinkTaskpool (inBackground m1)) m1
      in (ClearIdleStats (StopIdleMonitorTimerTaskAndPostSleepTask e m2))\<lparr>duringBackgroundTask := False\<rparr>)"

section \<open>Short idle checks\<close>

definition ShouldTryTriggerGC :: "int \<Rightarrow> idle_monitor \<Rightarrow> bool" where
  "ShouldTryTriggerGC interval m =
     (if interval < MIN_TRIGGER_GC_IDLE_INTERVAL \<or>
         ring_count (recordedIdleNotifyInterval m) \<noteq> IDLE_CHECK_INTERVAL_LENGTH then False
      else let averageIdleInterval = signed_divide (ring_Sum (recordedIdleNotifyInterval m)) (int (ring_count (recordedIdleNotifyInterval m)));
               averageRunningInterval = signed_divide (ring_Sum (recordedRunningNotifyInterval m)) (int (ring_count (recordedRunningNotifyInterval m)))
           in averageIdleInterval > MIN_TRIGGER_GC_IDLE_INTERVAL \<and>
              averageRunningInterval \<le> MAX_TRIGGER_GC_RUNNING_INTERVAL)"

fun stop_handlers :: "int list \<Rightarrow> idle_monitor \<Rightarrow> idle_monitor" where
  "stop_handlers [] m = m\<lparr>timerHandlerQueue := [], handlerWaitToStopCount := 0\<rparr>"
| "stop_handlers (h # hs) m =
     (if handlerWaitToStopCount m > 0
      then stop_handlers hs ((emit (TimerStop h) m)\<lparr>handlerWaitToStopCount := handlerWaitToStopCount m - 1\<rparr>)
      else m\<lparr>timerHandlerQueue := h # hs\<rparr>)"

definition CheckShortIdleTask :: "idle_env \<Rightarrow> int \<Rightarrow> int \<Rightarrow> idle_monitor \<Rightarrow> idle_monitor" where
  "CheckShortIdleTask e timestamp idleTime m =
     (let m1 = stop_handlers (timerHandlerQueue m) m
      in if triggeredGC m1 \<and> mainVM m1 then (emit VmIdleStart m1)\<lparr>triggeredGC := vmTriggered e\<rparr>
         else let m2 = (if ShouldTryTriggerGC (timestamp - idleStartTimestamp m1) m1 \<and>
                           idleTime > MIN_TRIGGER_GC_IDLE_INTERVAL \<and> needCheckIntervalIdle m1
                        then PostIdleCheckTask e m1 else m1)
              in if \<not> needCheckIntervalIdle m2 then m2\<lparr>needCheckIntervalIdle := True\<rparr> else m2)"

definition NotifyLooperIdleStart :: "idle_env \<Rightarrow> int \<Rightarrow> int \<Rightarrow> idle_monitor \<Rightarrow> idle_monitor" where
  "NotifyLooperIdleStart e timestamp idleTime m =
     (let m1 = m\<lparr>idleState := True, idleNotifyCount := idleNotifyCount m + 1,
                 recordedRunningNotifyInterval :=
                   ring_Push (timestamp - idleEndTimestamp m) (recordedRunningNotifyInterval m)\<rparr>
      in (CheckShortIdleTask e timestamp idleTime m1)\<lparr>idleStartTimestamp := timestamp\<rparr>)"

definition NotifyLooperIdleEnd :: "int \<Rightarrow> idle_monitor \<Rightarrow> idle_monitor" where
  "NotifyLooperIdleEnd timestamp m =
     (let duration = timestamp - idleStartTimestamp m;
          m1 = m\<lparr>idleEndTimestamp := timestamp, idleState := False,
                 recordedIdleNotifyInterval := ring_Push duration (recordedIdleNotifyInterval m),
                 totalIdleDuration := totalIdleDuration m + duration\<rparr>
      in if mainVM m1 then emit VmIdleEnd m1 else m1)"

definition CheckIntervalIdle :: "idle_env \<Rightarrow> int \<Rightarrow> int \<Rightarrow> idle_monitor \<Rightarrow> idle_monitor \<times> bool" where
  "CheckIntervalIdle e timestamp idleDuration m =
     (if \<not> idleState m then (m, False)
      else let sumDuration = clock e - timestamp;
               sumIdleDuration = (totalIdleDuration m - idleDuration) + (clock e - idleStartTimestamp m)
           in (if ratio_gt sumIdleDuration sumDuration SHORT_IDLE_RATIO \<and> mainVM m then emit IdleCheckTask m else m, True))"

text \<open>The task it posts to the main thread.\<close>

definition idle_check_task :: "idle_env \<Rightarrow> idle_monitor \<Rightarrow> idle_monitor" where
  "idle_check_task e m =
     (let m1 = (emit VmIdleStart m)\<lparr>triggeredGC := vmTriggered e\<rparr>;
          m2 = (if \<not> triggeredGC m1 \<and> \<not> inBackground m1 then TryTriggerWorkerLocalGC e m1 else m1);
          m3 = m2\<lparr>needCheckIntervalIdle := False, handlerWaitToStopCount := handlerWaitToStopCount m2 + 1\<rparr>
      in if \<not> triggeredGC m3 then m3\<lparr>recordedIdleNotifyInterval := ring_Reset (recordedIdleNotifyInterval m3)\<rparr> else m3)"

section \<open>The periodic check\<close>

definition NotifyMainThreadTryCompressGC :: "idle_env \<Rightarrow> idle_monitor \<Rightarrow> idle_monitor" where
  "NotifyMainThreadTryCompressGC e m =
     (if cpuAtLeastIdle e then m else if \<not> mainVM m then m else emit MainCompressTask m)"

definition checkCounts :: "idle_monitor \<Rightarrow> u32" where
  "checkCounts m = (if inBackground m then IDLE_INBACKGROUND_CHECK_LENGTH else IDLE_CHECK_LENGTH)"

definition CheckLowNotifyState :: "idle_monitor \<Rightarrow> bool" where
  "CheckLowNotifyState m = (numberOfLowIdleNotifyCycles m \<ge> checkCounts m)"

definition CheckLowRunningDurationState :: "idle_monitor \<Rightarrow> bool" where
  "CheckLowRunningDurationState m = (numberOfHighIdleTimeRatio m \<ge> checkCounts m)"

text \<open>The statistics of one period.\<close>

definition period_idle :: "idle_env \<Rightarrow> idle_monitor \<Rightarrow> int" where
  "period_idle e m =
     totalIdleDuration m - lastTotalIdleDuration m + (if idleState m then clock e - idleStartTimestamp m else 0)"

definition count_period :: "idle_env \<Rightarrow> idle_monitor \<Rightarrow> idle_monitor" where
  "count_period e m =
     (let spent = clock e - startRecordTimestamp m
      in m\<lparr>lastTotalIdleDuration := totalIdleDuration m,
           numberOfLowIdleNotifyCycles :=
             (if idleNotifyCount m \<le> LOW_IDLE_NOTIFY_THRESHOLD then numberOfLowIdleNotifyCycles m + 1 else 0),
           idleNotifyCount := 0,
           numberOfHighIdleTimeRatio :=
             (if spent \<le> 0 then 0
              else if ratio_ge (period_idle e m) spent IDLE_RATIO then numberOfHighIdleTimeRatio m + 1 else 0),
           startRecordTimestamp := clock e\<rparr>)"

definition interval_triggers :: "idle_env \<Rightarrow> idle_monitor \<Rightarrow> bool" where
  "interval_triggers e m =
     (CheckLowNotifyState m \<and> CheckLowRunningDurationState m \<and>
      clock e - intervalTimestamp m < gIdleMonitoringInterval e + 100)"

definition IntervalMonitor :: "idle_env \<Rightarrow> (nat \<Rightarrow> round_env) \<Rightarrow> idle_monitor \<Rightarrow> idle_monitor" where
  "IntervalMonitor e rounds m =
     (let m1 = CheckWorkerEnvQueue (count_period e m);
          m2 = (if interval_triggers e m1
                then let m3 = m1\<lparr>triggerTaskStartTimestamp := clock e\<rparr>;
                         m4 = (if inBackground m3
                               then (if enableIdleProcessGCBackground m3 then TryTriggerCompressGCOfProcess e rounds m3 else m3)
                               else NotifyMainThreadTryCompressGC e m3)
                     in ClearIdleStats (PostMonitorTask e SLEEP_MONITORING_INTERVAL m4)
                else PostMonitorTask e (gIdleMonitoringInterval e) m1)
      in m2\<lparr>intervalTimestamp := clock e\<rparr>)"

definition start_callback :: "idle_env \<Rightarrow> (nat \<Rightarrow> round_env) \<Rightarrow> idle_monitor \<Rightarrow> idle_monitor" where
  "start_callback e rounds m = (if \<not> started m then (IntervalMonitor e rounds m)\<lparr>started := True\<rparr> else m)"

text \<open>The task \<open>NotifyMainThreadTryCompressGC\<close> posts to the main thread.\<close>

definition main_compress_task :: "idle_monitor \<Rightarrow> idle_monitor" where
  "main_compress_task m =
     (let (m1, allIdle) = CheckWorkerEnvQueueAllInIdle IDLE_WORKER_TRIGGER_COUNT (emit MainFullGC m)
      in if allIdle then emit SharedFullGC m1 else m1)"

section \<open>Set-up and tear-down\<close>

text \<open>The interval between two checks, from a system parameter.\<close>

definition IDLE_GC_TIME_MIN :: u64 where "IDLE_GC_TIME_MIN = 1000"
definition IDLE_GC_TIME_MAX :: u64 where "IDLE_GC_TIME_MAX = 10000"

definition GetIdleMonitoringInterval :: "int \<Rightarrow> u64" where
  "GetIdleMonitoringInterval parameter =
     (let v1 = (if (word_of_int parameter :: u64) < IDLE_GC_TIME_MIN then IDLE_GC_TIME_MIN else word_of_int parameter)
      in if v1 > IDLE_GC_TIME_MAX then IDLE_GC_TIME_MAX else v1)"

text \<open>
  An engine joins or leaves: the main thread's VM is watched itself, every other engine is registered
  as a worker.  \<open>gEnableIdleGC\<close> is a system parameter read once.
\<close>

definition EnableIdleGC :: "bool \<Rightarrow> bool \<Rightarrow> nat \<Rightarrow> idle_monitor \<Rightarrow> idle_monitor" where
  "EnableIdleGC gEnableIdleGC isMainThread engine m =
     (if gEnableIdleGC \<and> isMainThread then m\<lparr>mainVM := True\<rparr> else RegisterWorkerEnv engine m)"

definition UnregisterEnv :: "bool \<Rightarrow> bool \<Rightarrow> nat \<Rightarrow> idle_monitor \<Rightarrow> idle_monitor" where
  "UnregisterEnv gEnableIdleGC isMainThread engine m =
     (if \<not> gEnableIdleGC \<or> \<not> isMainThread then UnregisterWorkerEnv engine m else m)"

definition destroy_idle_monitor :: "idle_monitor \<Rightarrow> idle_monitor" where
  "destroy_idle_monitor m =
     (let m1 = StopIdleMonitorTimerTask m
      in fold (\<lambda>h m'. (emit (TimerStop h) m')\<lparr>timerHandlerQueue := tl (timerHandlerQueue m')\<rparr>) (timerHandlerQueue m1) m1)"

text \<open>
  The library of the resource scheduler: \<open>dlopen\<close> and \<open>dlsym\<close> answer with a handle (0 is null) and with
  whether the symbol was found; the closed handles are recorded in order.
\<close>

record report_library =
  dynamicLoadHandle :: nat
  reportDataFunc :: bool
  closed_handles :: "nat list"
  reports_sent :: "bool list"

definition LoadReportDataFunc :: "nat \<Rightarrow> bool \<Rightarrow> report_library \<Rightarrow> report_library \<times> bool" where
  "LoadReportDataFunc opened found l =
     (let l1 = (if dynamicLoadHandle l \<noteq> 0 then l\<lparr>closed_handles := closed_handles l @ [dynamicLoadHandle l]\<rparr> else l);
          l2 = l1\<lparr>dynamicLoadHandle := opened\<rparr>
      in if \<not> found then (l2\<lparr>closed_handles := closed_handles l2 @ [dynamicLoadHandle l2]\<rparr>, False) else (l2, True))"

definition ReportDataToRSS :: "nat \<Rightarrow> bool \<Rightarrow> bool \<Rightarrow> report_library \<Rightarrow> report_library" where
  "ReportDataToRSS opened found needFreeze l =
     (let l1 = (if \<not> reportDataFunc l
                then let (l', f) = LoadReportDataFunc opened found l in l'\<lparr>reportDataFunc := f\<rparr> else l)
      in if reportDataFunc l1 then l1\<lparr>reports_sent := reports_sent l1 @ [needFreeze]\<rparr> else l1)"

end
