(* ===== verification/Idle_Props.thy ===== *)
theory Idle_Props
  imports Idle_Monitor
begin

text \<open>
  Properties of the idle monitor: the ring buffer against the list of the last values, the protocol of
  freeze reports, which workers are asked to collect, and when the periodic check triggers.
\<close>

section \<open>The ring buffer holds the last four values\<close>

definition ring_holds :: "ring \<Rightarrow> int list \<Rightarrow> bool" where
  "ring_holds r ws \<longleftrightarrow> length (elements r) = 4 \<and> ring_count r = length ws \<and> start r < 4 \<and> length ws \<le> 4 \<and>
     (if length ws = 4 then drop (start r) (elements r) @ take (start r) (elements r) = ws
      else start r = 0 \<and> take (length ws) (elements r) = ws)"

definition last_values :: "int list \<Rightarrow> int list" where
  "last_values vs = drop (length vs - 4) vs"

lemma last_values_snoc:
  "last_values (vs @ [v]) = (if length vs < 4 then last_values vs @ [v] else tl (last_values vs) @ [v])"
proof (cases "length vs < 4")
  case False
  then have "Suc (length vs - 4) = length (vs @ [v]) - 4" "length (vs @ [v]) - 4 \<le> length vs" by auto
  moreover have "tl (drop (length vs - 4) vs) = drop (Suc (length vs - 4)) vs" by (simp add: drop_Suc tl_drop)
  ultimately show ?thesis using False by (simp add: last_values_def)
qed (simp add: last_values_def)

lemma length_last_values: "length (last_values vs) = min 4 (length vs)"
  by (auto simp: last_values_def)

lemma four: "n < (4 :: nat) \<longleftrightarrow> n = 0 \<or> n = 1 \<or> n = 2 \<or> n = 3"
  by auto

lemma length_four: "length xs = 4 \<longleftrightarrow> (\<exists>a b c d. xs = [a, b, c, d])"
  by (auto simp: numeral_eq_Suc length_Suc_conv)

lemma ring_Push_holds:
  assumes "ring_holds r ws"
  shows "ring_holds (ring_Push v r) (if length ws < 4 then ws @ [v] else tl ws @ [v])"
proof -
  obtain es st n where r: "r = \<lparr>elements = es, start = st, ring_count = n\<rparr>" by (cases r)
  obtain a b c d where e: "es = [a, b, c, d]" using assms r by (auto simp: ring_holds_def length_four)
  have s: "st = 0 \<or> st = 1 \<or> st = 2 \<or> st = 3" using assms r by (auto simp: ring_holds_def)
  show ?thesis
  proof (cases "length ws = 4")
    case True
    then show ?thesis using assms s unfolding r e
      by (elim disjE) (auto simp: ring_holds_def ring_Push_def IDLE_CHECK_INTERVAL_LENGTH_def numeral_eq_Suc)
  next
    case False
    then have "length ws = 0 \<or> length ws = 1 \<or> length ws = 2 \<or> length ws = 3"
      using assms unfolding ring_holds_def by linarith
    then show ?thesis using assms unfolding r e
      by (elim disjE) (auto simp: ring_holds_def ring_Push_def IDLE_CHECK_INTERVAL_LENGTH_def numeral_eq_Suc
          length_Suc_conv)
  qed
qed

lemma fold_Push_holds:
  "ring_holds r [] \<Longrightarrow> ring_holds (fold ring_Push vs r) (last_values vs)"
proof (induction vs rule: rev_induct)
  case (snoc v vs)
  then show ?case
    using ring_Push_holds [of "fold ring_Push vs r" "last_values vs" v]
    by (auto simp: last_values_snoc length_last_values)
qed (simp add: last_values_def)

lemma ring_holds_Sum:
  assumes "ring_holds r ws"
  shows "ring_Sum r = sum_list ws"
proof -
  have g: "foldl (+) a xs = a + sum_list xs" for a and xs :: "int list"
    by (induction xs arbitrary: a) simp_all
  have f: "foldl (+) 0 xs = sum_list xs" for xs :: "int list"
    by (simp add: g)
  show ?thesis
  proof (cases "length ws = 4")
    case True
    then have "sum_list (drop (start r) (elements r) @ take (start r) (elements r)) = sum_list ws"
      "take (ring_count r) (elements r) = elements r"
      using assms by (auto simp: ring_holds_def)
    moreover have "sum_list (take (start r) (elements r)) + sum_list (drop (start r) (elements r)) =
        sum_list (elements r)"
      by (metis append_take_drop_id sum_list_append)
    ultimately show ?thesis by (simp add: ring_Sum_def f)
  next
    case False
    then show ?thesis using assms by (simp add: ring_holds_def ring_Sum_def f)
  qed
qed

text \<open>
  The ring buffer is the window it stands for: whatever was pushed before a reset, after pushing
  any values the count is the number of values up to four and the sum is that of the last four values,
  although the buffer overwrites in place and never clears its elements.
\<close>

theorem ring_is_window:
  "let r = fold ring_Push vs (ring_Reset (fold ring_Push us new_ring))
   in ring_count r = min 4 (length vs) \<and> ring_Sum r = sum_list (drop (length vs - 4) vs)"
proof -
  have "ring_holds new_ring []"
    by (simp add: ring_holds_def new_ring_def IDLE_CHECK_INTERVAL_LENGTH_def)
  from fold_Push_holds [OF this, of us] have "length (elements (fold ring_Push us new_ring)) = 4"
    by (simp add: ring_holds_def)
  then have "ring_holds (ring_Reset (fold ring_Push us new_ring)) []"
    by (simp add: ring_holds_def ring_Reset_def)
  note h = fold_Push_holds [OF this, of vs]
  show ?thesis
    using h ring_holds_Sum [OF h] length_last_values [of vs]
    by (simp add: ring_holds_def last_values_def Let_def)
qed

section \<open>Freeze reports\<close>

text \<open>What was reported to the resource scheduler: \<open>False\<close> defers the freezing, \<open>True\<close> asks for it.\<close>

definition reports :: "idle_monitor \<Rightarrow> bool list" where
  "reports m = List.map_filter (\<lambda>x. case x of ReportFreeze b \<Rightarrow> Some b | _ \<Rightarrow> None) (effects m)"

fun freezes_answer :: "bool \<Rightarrow> bool list \<Rightarrow> bool" where
  "freezes_answer deferred [] = True"
| "freezes_answer deferred (b # bs) = ((b \<longrightarrow> deferred) \<and> freezes_answer (\<not> b) bs)"

definition freeze_inv :: "idle_monitor \<Rightarrow> bool" where
  "freeze_inv m \<longleftrightarrow> freezes_answer False (reports m) \<and> (deferfreeze m \<longrightarrow> last_opt (reports m) = Some False)"

lemma freezes_snoc:
  "freezes_answer d (bs @ [b]) \<longleftrightarrow>
     freezes_answer d bs \<and> (b \<longrightarrow> (if bs = [] then d else last bs = False))"
  by (induction bs arbitrary: d) auto

lemma reports_emit:
  "reports (emit x m) = reports m @ (case x of ReportFreeze b \<Rightarrow> [b] | _ \<Rightarrow> [])"
  by (simp add: reports_def emit_def map_filter_def split: idle_effect.split)

lemma deferfreeze_emit [simp]: "deferfreeze (emit x m) = deferfreeze m"
  by (simp add: emit_def)

text \<open>Two states that agree on what the protocol reads.\<close>

definition same_freeze :: "idle_monitor \<Rightarrow> idle_monitor \<Rightarrow> bool" where
  "same_freeze m m' \<longleftrightarrow> reports m' = reports m \<and> deferfreeze m' = deferfreeze m"

lemma same_freeze_inv: "same_freeze m m' \<Longrightarrow> freeze_inv m \<Longrightarrow> freeze_inv m'"
  by (simp add: same_freeze_def freeze_inv_def)

lemma same_freeze_refl [simp]: "same_freeze m m"
  by (simp add: same_freeze_def)

lemma same_freeze_trans: "same_freeze m m' \<Longrightarrow> same_freeze m' m'' \<Longrightarrow> same_freeze m m''"
  by (simp add: same_freeze_def)

lemma same_freeze_emit: "(\<forall>b. x \<noteq> ReportFreeze b) \<Longrightarrow> same_freeze m (emit x m)"
  by (simp add: same_freeze_def reports_emit split: idle_effect.split)

lemma same_freeze_upd: "effects m' = effects m \<Longrightarrow> deferfreeze m' = deferfreeze m \<Longrightarrow> same_freeze m m'"
  by (simp add: same_freeze_def reports_def)

lemma same_freeze_worker [simp]: "same_freeze m (upd_worker f w m)"
  by (rule same_freeze_upd) (simp_all add: upd_worker_def)

lemma same_freeze_fold: "same_freeze m (fold (upd_worker f) ws m)"
proof (induction ws arbitrary: m)
  case (Cons w ws)
  then show ?case using same_freeze_trans [OF same_freeze_worker Cons [of "upd_worker f w m"]] by simp
qed simp

lemma freeze_eqs [simp]:
  "reports (m\<lparr>idleState := b\<rparr>) = reports m" "reports (m\<lparr>inBackground := b\<rparr>) = reports m"
  "reports (m\<lparr>deferfreeze := b\<rparr>) = reports m" "reports (m\<lparr>isSwitchToBackgroundTask := b\<rparr>) = reports m"
  "reports (m\<lparr>duringBackgroundTask := b\<rparr>) = reports m" "reports (m\<lparr>idleNotifyCount := i\<rparr>) = reports m"
  "reports (m\<lparr>idleStartTimestamp := i\<rparr>) = reports m" "reports (m\<lparr>totalIdleDuration := i\<rparr>) = reports m"
  "reports (m\<lparr>idleEndTimestamp := i\<rparr>) = reports m" "reports (m\<lparr>lastTotalIdleDuration := i\<rparr>) = reports m"
  "reports (m\<lparr>startRecordTimestamp := i\<rparr>) = reports m" "reports (m\<lparr>intervalTimestamp := i\<rparr>) = reports m"
  "reports (m\<lparr>triggerTaskStartTimestamp := i\<rparr>) = reports m"
  "reports (m\<lparr>lastWorkerLocalGCTimestamp := i\<rparr>) = reports m" "reports (m\<lparr>started := b\<rparr>) = reports m"
  "reports (m\<lparr>triggeredGC := b\<rparr>) = reports m" "reports (m\<lparr>needCheckIntervalIdle := b\<rparr>) = reports m"
  "reports (m\<lparr>enableIdleProcessGCBackground := b\<rparr>) = reports m" "reports (m\<lparr>currentTimerHandler := i\<rparr>) = reports m"
  "reports (m\<lparr>waitForStopTimerHandler := i\<rparr>) = reports m" "reports (m\<lparr>switchBackgroundTimerHandler := i\<rparr>) = reports m"
  "reports (m\<lparr>numberOfLowIdleNotifyCycles := u\<rparr>) = reports m" "reports (m\<lparr>numberOfHighIdleTimeRatio := u\<rparr>) = reports m"
  "reports (m\<lparr>timerHandlerQueue := q\<rparr>) = reports m" "reports (m\<lparr>handlerWaitToStopCount := u\<rparr>) = reports m"
  "reports (m\<lparr>recordedIdleNotifyInterval := r\<rparr>) = reports m"
  "reports (m\<lparr>recordedRunningNotifyInterval := r\<rparr>) = reports m"
  "reports (m\<lparr>sentTaskWorkerEnvSet := st\<rparr>) = reports m" "reports (m\<lparr>workerEnvVector := v\<rparr>) = reports m"
  by (simp_all add: reports_def)

lemma reports_worker [simp]:
  "reports (upd_worker f w m) = reports m" "deferfreeze (upd_worker f w m) = deferfreeze m"
  "reports (fold (upd_worker f) ws m) = reports m" "deferfreeze (fold (upd_worker f) ws m) = deferfreeze m"
  using same_freeze_worker [of m f w] same_freeze_fold [of m f ws] by (simp_all add: same_freeze_def)

lemma reports_ops [simp]:
  "reports (CheckWorkerEnvQueue m) = reports m" "deferfreeze (CheckWorkerEnvQueue m) = deferfreeze m"
  "reports (ClearIdleStats m) = reports m" "deferfreeze (ClearIdleStats m) = deferfreeze m"
  "reports (PostWorkerFullGC w m) = reports m" "deferfreeze (PostWorkerFullGC w m) = deferfreeze m"
  "reports (worker_gc_finished w m) = reports m" "deferfreeze (worker_gc_finished w m) = deferfreeze m"
  "reports (stop_timer h m) = reports m" "deferfreeze (stop_timer h m) = deferfreeze m"
  by (simp_all add: CheckWorkerEnvQueue_def ClearIdleStats_def Let_def PostWorkerFullGC_def worker_gc_finished_def
      stop_timer_def reports_emit)

lemma reports_timers [simp]:
  "reports (PostMonitorTask e d m) = reports m" "deferfreeze (PostMonitorTask e d m) = deferfreeze m"
  "reports (StopIdleMonitorTimerTask m) = reports m" "deferfreeze (StopIdleMonitorTimerTask m) = deferfreeze m"
  "reports (PostSwitchBackgroundGCTask e m) = reports m" "deferfreeze (PostSwitchBackgroundGCTask e m) = deferfreeze m"
  "reports (PostIdleCheckTask e m) = reports m" "deferfreeze (PostIdleCheckTask e m) = deferfreeze m"
  "reports (count_period e m) = reports m" "deferfreeze (count_period e m) = deferfreeze m"
  by (simp_all add: PostMonitorTask_def StopIdleMonitorTimerTask_def PostSwitchBackgroundGCTask_def PostIdleCheckTask_def
      count_period_def Let_def reports_emit)

lemma reports_stop_handlers [simp]:
  "reports (stop_handlers hs m) = reports m" "deferfreeze (stop_handlers hs m) = deferfreeze m"
  by (induction hs arbitrary: m) (auto simp: reports_emit)

lemma reports_all_in_idle:
  "all_in_idle c ws m = (m', b) \<Longrightarrow> reports m' = reports m \<and> deferfreeze m' = deferfreeze m"
  by (induction ws arbitrary: m) (auto simp: Let_def split: if_splits)

lemma reports_local_gc:
  "local_gc_loop e ws m = (m', k, n) \<Longrightarrow> reports m' = reports m \<and> deferfreeze m' = deferfreeze m"
proof (induction ws arbitrary: m m' k n)
  case (Cons w ws)
  let ?m1 = "if EvaluateWorkerGC e w True m = READY then PostWorkerFullGC w m else m"
  obtain m2 k2 n2 where r: "local_gc_loop e ws ?m1 = (m2, k2, n2)" by (cases "local_gc_loop e ws ?m1")
  have "m' = m2" using Cons.prems r by (simp add: Let_def)
  then show ?case using Cons.IH [OF r] by (auto split: if_splits)
qed simp

lemma NotifyNeedFreeze_inv [inv_intros]: "freeze_inv m \<Longrightarrow> freeze_inv (NotifyNeedFreeze b m)"
  by (auto simp: NotifyNeedFreeze_def freeze_inv_def reports_emit freezes_snoc last_opt_def Let_def split: if_splits)

lemma CheckIf_inv [inv_intros]:
  "freeze_inv m \<Longrightarrow> CheckIfInBackgroundInCompressGC m = (m', b) \<Longrightarrow> freeze_inv m'"
  by (auto simp: CheckIfInBackgroundInCompressGC_def freeze_inv_def split: if_splits)

lemma Switch_inv [inv_intros]: "freeze_inv m \<Longrightarrow> freeze_inv (NotifyChangeBackgroundState e b m)"
  by (auto simp: NotifyChangeBackgroundState_def freeze_inv_def Let_def split: if_splits)

lemma frame_inv: "reports m' = reports m \<Longrightarrow> deferfreeze m' = deferfreeze m \<Longrightarrow> freeze_inv m \<Longrightarrow> freeze_inv m'"
  by (simp add: freeze_inv_def)

lemma compress_loop_inv [inv_intros]:
  "freeze_inv m \<Longrightarrow> freeze_inv (fst (compress_loop e rounds k index b m))"
proof (induction e rounds k index b m rule: compress_loop.induct)
  case (1 e rounds k index b m)
  let ?m0 = "case switch_to (rounds k) of None \<Rightarrow> m | Some b \<Rightarrow> NotifyChangeBackgroundState e b m"
  obtain m1 still where c: "CheckIfInBackgroundInCompressGC ?m0 = (m1, still)"
    by (cases "CheckIfInBackgroundInCompressGC ?m0")
  have "freeze_inv ?m0" using 1(4) by (auto intro: inv_intros split: option.split)
  then have m1: "freeze_inv m1" using c by (rule CheckIf_inv)
  let ?w = "workerEnvVector m1 ! index"
  let ?m2 = "PostWorkerFullGC ?w m1"
  let ?m3 = "if finished (rounds k) then worker_gc_finished ?w ?m2 else ?m2"
  have m3: "freeze_inv ?m3" by (rule frame_inv [OF _ _ m1]) simp_all
  have m1': "freeze_inv (m1\<lparr>workerEnvVector := v\<rparr>)" for v by (rule frame_inv [OF _ _ m1]) simp_all
  note IH = 1(1) [OF refl c [symmetric]] 1(2) [OF refl c [symmetric]] 1(3) [OF refl c [symmetric]]
  show ?case
    using m1 m3 m1' IH NotifyNeedFreeze_inv [OF m3, of True]
    by (subst compress_loop.simps) (auto simp: c Let_def)
qed

lemma CheckWorkerEnvQueueAllInIdle_inv:
  "freeze_inv m \<Longrightarrow> CheckWorkerEnvQueueAllInIdle c m = (m', b) \<Longrightarrow> freeze_inv m'"
  using reports_all_in_idle frame_inv unfolding CheckWorkerEnvQueueAllInIdle_def by blast

lemma TryTriggerCompress_inv [inv_intros]:
  assumes "freeze_inv m"
  shows "freeze_inv (TryTriggerCompressGCOfProcess e rounds m)"
proof -
  let ?m1 = "emit MainFullGC (NotifyNeedFreeze False m)"
  have m1: "freeze_inv ?m1"
    by (rule frame_inv [OF _ _ NotifyNeedFreeze_inv [OF assms, of False]]) (simp_all add: reports_emit)
  obtain m2 x where r: "(if \<not> gEnableDeferFreeze ?m1
      then let (m', b) = CheckWorkerEnvQueueAllInIdle IDLE_WORKER_TRIGGER_COUNT ?m1 in (m', ToShared b)
      else compress_loop e rounds 0 0 True ?m1) = (m2, x)" by fastforce
  have m2: "freeze_inv m2"
    using r m1 CheckWorkerEnvQueueAllInIdle_inv [OF m1] compress_loop_inv [OF m1, of e rounds 0 0 True]
    by (auto split: if_splits prod.splits)
  have sw: "freeze_inv (m'\<lparr>isSwitchToBackgroundTask := b\<rparr>)" if "freeze_inv m'" for m' b
    by (rule frame_inv [OF _ _ that]) simp_all
  have sh: "freeze_inv (emit SharedCC m')" if "freeze_inv m'" for m'
    by (rule frame_inv [OF _ _ that]) (simp_all add: reports_emit)
  show ?thesis
    unfolding TryTriggerCompressGCOfProcess_def Let_def [of ?m1] r
    using m2 by (auto simp: Let_def intro!: sw sh NotifyNeedFreeze_inv dest: CheckIf_inv split: compress_exit.split prod.split)
qed

lemma SwitchBackgroundCheck_inv [inv_intros]:
  assumes "freeze_inv m"
  shows "freeze_inv (fst (SwitchBackgroundCheckGCTask e rounds t d m))"
proof -
  have "freeze_inv ((CheckWorkerEnvQueue (m\<lparr>triggerTaskStartTimestamp := clock e\<rparr>))\<lparr>isSwitchToBackgroundTask := True\<rparr>)"
    by (rule frame_inv [OF _ _ assms]) simp_all
  then show ?thesis using assms by (auto simp: SwitchBackgroundCheckGCTask_def Let_def intro: inv_intros)
qed

lemma background_attempts_inv:
  assumes b: "\<And>k m. freeze_inv m \<Longrightarrow> freeze_inv (between k m)"
  shows "freeze_inv m \<Longrightarrow> freeze_inv (background_attempts n envs rounds between t d m)"
proof (induction n arbitrary: t d m)
  case (Suc n)
  let ?k = "BACKGROUND_GC_CHECK_COUNT - Suc n"
  obtain m1 x where r: "SwitchBackgroundCheckGCTask (envs ?k) (rounds ?k) t d m = (m1, x)" by fastforce
  have m1: "freeze_inv m1" using SwitchBackgroundCheck_inv [OF Suc.prems, of "envs ?k" "rounds ?k" t d] r by simp
  show ?case using Suc m1 b [OF m1] r by (simp add: Let_def)
qed simp

lemma IntervalMonitor_inv [inv_intros]:
  assumes "freeze_inv m"
  shows "freeze_inv (IntervalMonitor e rounds m)"
proof -
  let ?m1 = "CheckWorkerEnvQueue (count_period e m)"
  let ?m3 = "?m1\<lparr>triggerTaskStartTimestamp := clock e\<rparr>"
  have m1: "freeze_inv ?m1" "freeze_inv ?m3" by (rule frame_inv [OF _ _ assms]; simp)+
  have n: "freeze_inv (NotifyMainThreadTryCompressGC e ?m3)"
    by (rule frame_inv [OF _ _ m1(2)]) (simp_all add: NotifyMainThreadTryCompressGC_def reports_emit)
  have f: "freeze_inv ((ClearIdleStats (PostMonitorTask e d m'))\<lparr>intervalTimestamp := c\<rparr>)"
    "freeze_inv ((PostMonitorTask e d m')\<lparr>intervalTimestamp := c\<rparr>)" if "freeze_inv m'" for m' d c
    by (rule frame_inv [OF _ _ that]; simp)+
  show ?thesis
    unfolding IntervalMonitor_def Let_def using m1 n by (auto intro!: f TryTriggerCompress_inv)
qed

section \<open>Sequences of calls\<close>

text \<open>
  Every way the monitor is entered: the looper, the timers, the posted tasks, application switches, the
  VM's request about freezing, and the worker threads.
\<close>

datatype idle_op =
    LooperIdleStart idle_env int int
  | LooperIdleEnd int
  | StartCallback idle_env "nat \<Rightarrow> round_env"
  | IntervalTimer idle_env "nat \<Rightarrow> round_env"
  | BackgroundTimer idle_env "nat \<Rightarrow> idle_env" "nat \<Rightarrow> nat \<Rightarrow> round_env" "nat \<Rightarrow> bool option" int int
  | ShortIdleTimer idle_env int int
  | ShortIdleTask idle_env
  | ApplicationSwitch idle_env bool
  | NeedFreeze bool
  | WorkerGCDone nat
  | WorkerStarts nat
  | WorkerEnds nat
  | WorkerTaskStart nat
  | WorkerTaskEnd nat
  | MainCompressTaskRuns

definition switch_between :: "(nat \<Rightarrow> idle_env) \<Rightarrow> (nat \<Rightarrow> bool option) \<Rightarrow> nat \<Rightarrow> idle_monitor \<Rightarrow> idle_monitor" where
  "switch_between envs bs k m = (case bs k of None \<Rightarrow> m | Some b \<Rightarrow> NotifyChangeBackgroundState (envs k) b m)"

fun idle_step :: "idle_op \<Rightarrow> idle_monitor \<Rightarrow> idle_monitor" where
  "idle_step (LooperIdleStart e t i) m = NotifyLooperIdleStart e t i m"
| "idle_step (LooperIdleEnd t) m = NotifyLooperIdleEnd t m"
| "idle_step (StartCallback e rounds) m = start_callback e rounds m"
| "idle_step (IntervalTimer e rounds) m = IntervalMonitor e rounds m"
| "idle_step (BackgroundTimer e envs rounds bs t d) m = background_task e envs rounds (switch_between envs bs) t d m"
| "idle_step (ShortIdleTimer e t d) m = fst (CheckIntervalIdle e t d m)"
| "idle_step (ShortIdleTask e) m = idle_check_task e m"
| "idle_step (ApplicationSwitch e b) m = NotifyChangeBackgroundState e b m"
| "idle_step (NeedFreeze b) m = NotifyNeedFreeze b m"
| "idle_step (WorkerGCDone w) m = worker_gc_finished w m"
| "idle_step (WorkerStarts w) m = RegisterWorkerEnv w m"
| "idle_step (WorkerEnds w) m = UnregisterWorkerEnv w m"
| "idle_step (WorkerTaskStart w) m = upd_worker NoityTaskStart w m"
| "idle_step (WorkerTaskEnd w) m = upd_worker NotifyTaskEnd w m"
| "idle_step MainCompressTaskRuns m = main_compress_task m"

definition idle_run :: "idle_op list \<Rightarrow> idle_monitor \<Rightarrow> idle_monitor" where
  "idle_run ops m = fold idle_step ops m"

lemma reports_short [simp]:
  "reports (CheckShortIdleTask e t i m) = reports m" "deferfreeze (CheckShortIdleTask e t i m) = deferfreeze m"
  by (simp_all add: CheckShortIdleTask_def Let_def reports_emit)

lemma reports_local [simp]:
  "reports (TryTriggerWorkerLocalGC e m) = reports m" "deferfreeze (TryTriggerWorkerLocalGC e m) = deferfreeze m"
proof -
  obtain m1 k n where r: "local_gc_loop e (workerEnvVector m) m = (m1, k, n)"
    by (cases "local_gc_loop e (workerEnvVector m) m")
  show "reports (TryTriggerWorkerLocalGC e m) = reports m" "deferfreeze (TryTriggerWorkerLocalGC e m) = deferfreeze m"
    using reports_local_gc [OF r] by (simp_all add: TryTriggerWorkerLocalGC_def r Let_def)
qed

lemma background_task_inv:
  assumes "freeze_inv m"
  shows "freeze_inv (background_task e envs rounds (switch_between envs bs) t d m)"
proof -
  have "freeze_inv (background_attempts BACKGROUND_GC_CHECK_COUNT envs rounds (switch_between envs bs) t d m)"
    by (rule background_attempts_inv [OF _ assms]) (auto simp: switch_between_def intro: inv_intros split: option.split)
  then show ?thesis
    by (rule frame_inv [rotated 2])
      (simp_all add: background_task_def StopIdleMonitorTimerTaskAndPostSleepTask_def Let_def reports_emit)
qed

lemma reports_main_compress [simp]:
  "reports (main_compress_task m) = reports m" "deferfreeze (main_compress_task m) = deferfreeze m"
proof -
  obtain m1 b where r: "CheckWorkerEnvQueueAllInIdle IDLE_WORKER_TRIGGER_COUNT (emit MainFullGC m) = (m1, b)"
    by (cases "CheckWorkerEnvQueueAllInIdle IDLE_WORKER_TRIGGER_COUNT (emit MainFullGC m)")
  show "reports (main_compress_task m) = reports m" "deferfreeze (main_compress_task m) = deferfreeze m"
    using reports_all_in_idle [OF r [unfolded CheckWorkerEnvQueueAllInIdle_def]]
    by (simp_all add: main_compress_task_def r reports_emit)
qed

lemma reports_entries [simp]:
  "reports (NotifyLooperIdleStart e t i m) = reports m" "deferfreeze (NotifyLooperIdleStart e t i m) = deferfreeze m"
  "reports (NotifyLooperIdleEnd t m) = reports m" "deferfreeze (NotifyLooperIdleEnd t m) = deferfreeze m"
  "reports (fst (CheckIntervalIdle e t i m)) = reports m" "deferfreeze (fst (CheckIntervalIdle e t i m)) = deferfreeze m"
  "reports (RegisterWorkerEnv w m) = reports m" "deferfreeze (RegisterWorkerEnv w m) = deferfreeze m"
  "reports (UnregisterWorkerEnv w m) = reports m" "deferfreeze (UnregisterWorkerEnv w m) = deferfreeze m"
  by (simp_all add: NotifyLooperIdleStart_def NotifyLooperIdleEnd_def CheckIntervalIdle_def
       RegisterWorkerEnv_def UnregisterWorkerEnv_def Let_def reports_emit)

lemma reports_idle_check [simp]:
  "reports (idle_check_task e m) = reports m" "deferfreeze (idle_check_task e m) = deferfreeze m"
  by (simp_all add: idle_check_task_def Let_def reports_emit)

lemma idle_step_inv: "freeze_inv m \<Longrightarrow> freeze_inv (idle_step x m)"
proof (cases x)
  case (StartCallback e rounds)
  assume m: "freeze_inv m"
  have "freeze_inv ((IntervalMonitor e rounds m)\<lparr>started := True\<rparr>)"
    by (rule frame_inv [OF _ _ IntervalMonitor_inv [OF m]]) simp_all
  then show ?thesis using m by (simp add: StartCallback start_callback_def)
next
  case (IntervalTimer e rounds)
  assume "freeze_inv m" then show ?thesis by (simp add: IntervalTimer IntervalMonitor_inv)
next
  case (BackgroundTimer e envs rounds bs t d)
  assume "freeze_inv m" then show ?thesis by (simp add: BackgroundTimer background_task_inv)
next
  case (ApplicationSwitch e b)
  assume "freeze_inv m" then show ?thesis by (simp add: ApplicationSwitch Switch_inv)
next
  case (NeedFreeze b)
  assume "freeze_inv m" then show ?thesis by (simp add: NeedFreeze NotifyNeedFreeze_inv)
qed (erule frame_inv [rotated 2]; simp)+

lemma idle_run_inv: "freeze_inv m \<Longrightarrow> freeze_inv (idle_run ops m)"
  unfolding idle_run_def by (induction ops arbitrary: m) (auto intro: idle_step_inv)


text \<open>An application goes to the background and its first check finds the main loop asleep.\<close>

definition sample_idle_env :: idle_env where
  "sample_idle_env = \<lparr>clock = 100, newHandle = 1, vmTriggered = False, cpuAtLeastIdle = False,
     cpuAboveBackground = False, alive = (\<lambda>w. w \<noteq> 2), nativeThread = (\<lambda>_. False),
     expectedSize = (\<lambda>w. if w = 1 then 6000000 else 0), gIdleMonitoringInterval = 30000\<rparr>"

definition sample_round :: round_env where
  "sample_round = \<lparr>switch_to = None, finished = True, now = 200\<rparr>"

definition sample_ops :: "idle_op list" where
  "sample_ops = [LooperIdleStart sample_idle_env 0 20, StartCallback sample_idle_env (\<lambda>_. sample_round),
     ApplicationSwitch sample_idle_env True,
     BackgroundTimer sample_idle_env (\<lambda>_. sample_idle_env) (\<lambda>_ _. sample_round) (\<lambda>_. None) 0 0]"

lemma sample_deferred: "deferfreeze (idle_run sample_ops new_monitor)"
  by code_simp


section \<open>Collections of worker threads\<close>

definition worker_gcs :: "idle_monitor \<Rightarrow> nat list" where
  "worker_gcs m = List.map_filter (\<lambda>x. case x of WorkerFullGC w \<Rightarrow> Some w | _ \<Rightarrow> None) (effects m)"

lemma worker_gcs_emit: "worker_gcs (emit x m) = worker_gcs m @ (case x of WorkerFullGC w \<Rightarrow> [w] | _ \<Rightarrow> [])"
  by (simp add: worker_gcs_def emit_def map_filter_def split: idle_effect.split)

lemma worker_gcs_post [simp]: "worker_gcs (PostWorkerFullGC w m) = worker_gcs m @ [w]"
proof -
  have "worker_gcs (m\<lparr>sentTaskWorkerEnvSet := st\<rparr>) = worker_gcs m" for st by (simp add: worker_gcs_def)
  then show ?thesis by (simp add: PostWorkerFullGC_def worker_gcs_emit)
qed

lemma sent_post [simp]:
  "sentTaskWorkerEnvSet (PostWorkerFullGC w m) = insert w (sentTaskWorkerEnvSet m)"
  "workerStates (PostWorkerFullGC w m) = workerStates m"
  by (simp_all add: PostWorkerFullGC_def emit_def)

lemma local_gc_timestamp:
  "local_gc_loop e ws m = (m', k, n) \<Longrightarrow> lastWorkerLocalGCTimestamp m' = lastWorkerLocalGCTimestamp m"
proof (induction ws arbitrary: m m' k n)
  case (Cons w ws)
  let ?m1 = "if EvaluateWorkerGC e w True m = READY then PostWorkerFullGC w m else m"
  obtain m2 k2 n2 where r: "local_gc_loop e ws ?m1 = (m2, k2, n2)" by (cases "local_gc_loop e ws ?m1")
  have "m' = m2" using Cons.prems r by (simp add: Let_def)
  then show ?case using Cons.IH [OF r] by (auto simp: PostWorkerFullGC_def emit_def split: if_splits)
qed simp

lemma ready_not_sent: "EvaluateWorkerGC e w fg m = READY \<Longrightarrow> w \<notin> sentTaskWorkerEnvSet m \<and> alive e w"
  by (auto simp: EvaluateWorkerGC_def split: if_splits)

lemma evaluate_cong:
  "workerStates m' = workerStates m \<Longrightarrow> (w \<in> sentTaskWorkerEnvSet m' \<longleftrightarrow> w \<in> sentTaskWorkerEnvSet m) \<Longrightarrow>
     EvaluateWorkerGC e w fg m' = EvaluateWorkerGC e w fg m"
  by (simp add: EvaluateWorkerGC_def)

lemma erased_iff: "EvaluateWorkerGC e w fg m = ERASED \<longleftrightarrow> \<not> alive e w"
  by (auto simp: EvaluateWorkerGC_def Let_def)

text \<open>The workers asked for: each ready one once, in order.\<close>

lemma local_gc_spec:
  "\<exists>m' kept n ps. local_gc_loop e ws m = (m', kept, n) \<and> kept = filter (alive e) ws \<and> n = length ps \<and>
     worker_gcs m' = worker_gcs m @ ps \<and> distinct ps \<and>
     set ps = {w \<in> set ws. EvaluateWorkerGC e w True m = READY} \<and>
     sentTaskWorkerEnvSet m' = sentTaskWorkerEnvSet m \<union> set ps \<and> workerStates m' = workerStates m \<and>
     workerEnvVector m' = workerEnvVector m"
proof (induction ws arbitrary: m)
  case (Cons w ws)
  let ?r = "EvaluateWorkerGC e w True m"
  let ?m1 = "if ?r = READY then PostWorkerFullGC w m else m"
  obtain m' kept n ps where IH: "local_gc_loop e ws ?m1 = (m', kept, n)" "kept = filter (alive e) ws" "n = length ps"
    "worker_gcs m' = worker_gcs ?m1 @ ps" "distinct ps" "set ps = {w \<in> set ws. EvaluateWorkerGC e w True ?m1 = READY}"
    "sentTaskWorkerEnvSet m' = sentTaskWorkerEnvSet ?m1 \<union> set ps" "workerStates m' = workerStates ?m1"
    "workerEnvVector m' = workerEnvVector ?m1"
    using Cons.IH [of ?m1] by blast
  show ?case
  proof (cases "?r = READY")
    case True
    have ev: "EvaluateWorkerGC e v True ?m1 = READY \<longleftrightarrow> v \<noteq> w \<and> EvaluateWorkerGC e v True m = READY" for v
    proof (cases "v = w")
      case True
      then show ?thesis using \<open>?r = READY\<close> ready_not_sent [of e w True ?m1] by auto
    next
      case False
      then show ?thesis using True evaluate_cong [of ?m1 m v e True] by simp
    qed
    have ps: "set ps = {v \<in> set ws. v \<noteq> w \<and> EvaluateWorkerGC e v True m = READY}" unfolding IH(6) ev ..
    then have w: "w \<notin> set ps" by simp
    have p: "set (w # ps) = {v \<in> set (w # ws). EvaluateWorkerGC e v True m = READY}"
      using True by (auto simp: ps)
    have "local_gc_loop e (w # ws) m = (m', w # kept, Suc n)" using True IH(1) by (simp add: Let_def)
    then show ?thesis
      using True IH(2-5) IH(7-9) w p ready_not_sent [OF True]
      by - (rule exI [of _ m'], rule exI [of _ "w # kept"], rule exI [of _ "Suc n"], rule exI [of _ "w # ps"],
        simp add: Un_insert_right [symmetric] del: local_gc_loop.simps Un_insert_right)
  next
    case False
    have "local_gc_loop e (w # ws) m = (m', if alive e w then w # kept else kept, n)"
      using False IH(1) erased_iff [of e w True m] by (simp add: Let_def)
    moreover have "set ps = {v \<in> set (w # ws). EvaluateWorkerGC e v True m = READY}"
      using IH(6) False by auto
    ultimately show ?thesis using IH(2-5) IH(7-9) False
      by - (rule exI [of _ m'], rule exI [of _ "if alive e w then w # kept else kept"], rule exI [of _ n], rule exI [of _ ps],
        simp del: local_gc_loop.simps)
  qed
qed (simp add: worker_gcs_def)

text \<open>
  In the foreground the monitor asks exactly the workers that are ready: outside the cool-down of
  30 seconds, each worker that is alive, has no unanswered request, is idle for a multiple of three
  checks, is not a native thread and expects to reclaim more than 5 MB is asked once, even when it is
  registered twice; the workers whose thread is gone, and no others, are dropped; within the cool-down
  nothing changes.
\<close>

theorem local_gc_asks_ready:
  "let m' = TryTriggerWorkerLocalGC e m; ready = {w \<in> set (workerEnvVector m). EvaluateWorkerGC e w True m = READY}
   in if clock e - lastWorkerLocalGCTimestamp m < IDLE_WORKER_GC_COOLDOWN_MS then m' = m
      else (\<exists>ps. worker_gcs m' = worker_gcs m @ ps \<and> distinct ps \<and> set ps = ready \<and>
              sentTaskWorkerEnvSet m' = sentTaskWorkerEnvSet m \<union> ready \<and> sentTaskWorkerEnvSet m \<inter> ready = {} \<and>
              workerEnvVector m' = filter (alive e) (workerEnvVector m) \<and>
              lastWorkerLocalGCTimestamp m' = (if ready = {} then lastWorkerLocalGCTimestamp m else clock e))"
proof (cases "clock e - lastWorkerLocalGCTimestamp m < IDLE_WORKER_GC_COOLDOWN_MS")
  case False
  let ?ready = "{w \<in> set (workerEnvVector m). EvaluateWorkerGC e w True m = READY}"
  obtain m1 kept n ps where r: "local_gc_loop e (workerEnvVector m) m = (m1, kept, n)"
    "kept = filter (alive e) (workerEnvVector m)" "n = length ps" "worker_gcs m1 = worker_gcs m @ ps" "distinct ps"
    "set ps = ?ready" "sentTaskWorkerEnvSet m1 = sentTaskWorkerEnvSet m \<union> set ps"
    using local_gc_spec [of e "workerEnvVector m" m] by blast
  have n: "n > 0 \<longleftrightarrow> ?ready \<noteq> {}" unfolding r(3) r(6) [symmetric] by simp
  have d: "sentTaskWorkerEnvSet m \<inter> ?ready = {}" using ready_not_sent by blast
  have k: "worker_gcs (m1\<lparr>workerEnvVector := v\<rparr>) = worker_gcs m1"
    "worker_gcs (m1\<lparr>workerEnvVector := v, lastWorkerLocalGCTimestamp := t\<rparr>) = worker_gcs m1" for v t
    by (simp_all add: worker_gcs_def)
  have "TryTriggerWorkerLocalGC e m =
      (if n > 0 then m1\<lparr>workerEnvVector := kept, lastWorkerLocalGCTimestamp := clock e\<rparr> else m1\<lparr>workerEnvVector := kept\<rparr>)"
    using False r(1) by (simp add: TryTriggerWorkerLocalGC_def)
  then show ?thesis
    using False r(2,4,5,6,7) n d k local_gc_timestamp [OF r(1)] unfolding Let_def by (intro if_not_P [THEN iffD2] exI [of _ ps]) auto
qed (simp add: TryTriggerWorkerLocalGC_def)

section \<open>The library of the resource scheduler\<close>

text \<open>
  When the symbol is missing the library is closed but its handle is kept, so the next report closes
  it a second time, before anything was opened again.
\<close>

theorem report_library_closed_twice:
  "closed_handles (ReportDataToRSS 8 found b2 (ReportDataToRSS 7 False b1
     \<lparr>dynamicLoadHandle = 0, reportDataFunc = False, closed_handles = [], reports_sent = []\<rparr>)) =
   [7, 7] @ (if found then [] else [8])"
  by (simp add: ReportDataToRSS_def LoadReportDataFunc_def Let_def)

end
