(* ===== verification/Machines.thy ===== *)
theory Machines
  imports Napi_Prelude
begin

text \<open>
  The interface between a component's operations and what is proved of all its runs.  An operation
  returns a new state, reads freed memory (\<open>Fault\<close>) or ends the process (\<open>Aborts\<close>).  A component that
  keeps an invariant under every operation its callers may issue is a \<open>guarded_machine\<close>: no run of it
  faults.  When some of its operations happen by themselves (threads of a pool, turns of a loop) and use
  up a measure, it is a \<open>draining_machine\<close>: they end, and end where the measure is used up.
\<close>

section \<open>Outcomes\<close>

datatype 'a outcome = Fault | Aborts | Returns 'a

primrec obind :: "'a outcome \<Rightarrow> ('a \<Rightarrow> 'b outcome) \<Rightarrow> 'b outcome" where
  "obind Fault f = Fault"
| "obind Aborts f = Aborts"
| "obind (Returns x) f = f x"

lemma obind_assoc: "obind (obind r f) g = obind r (\<lambda>x. obind (f x) g)"
  by (cases r) simp_all

lemma obind_eq_Returns: "obind r f = Returns y \<longleftrightarrow> (\<exists>x. r = Returns x \<and> f x = Returns y)"
  by (cases r) simp_all

lemma obind_cong: "(\<And>x. r = Returns x \<Longrightarrow> f x = g x) \<Longrightarrow> obind r f = obind r g"
  by (cases r) simp_all

fun omap :: "('a \<Rightarrow> 'b outcome) \<Rightarrow> 'a list \<Rightarrow> 'b list outcome" where
  "omap f [] = Returns []"
| "omap f (x # xs) = obind (f x) (\<lambda>y. obind (omap f xs) (\<lambda>ys. Returns (y # ys)))"

lemma omap_length: "omap f xs = Returns ys \<Longrightarrow> length ys = length xs"
  by (induction xs arbitrary: ys) (auto simp: obind_eq_Returns)

lemma omap_total: "(\<And>x. f x \<noteq> Aborts) \<Longrightarrow> omap f xs \<noteq> Aborts"
proof (induction xs)
  case (Cons x xs)
  then show ?case by (cases "f x"; cases "omap f xs") auto
qed simp

definition deref :: "'b option \<Rightarrow> ('b \<Rightarrow> 'a outcome) \<Rightarrow> 'a outcome" where
  "deref p f = (case p of None \<Rightarrow> Fault | Some x \<Rightarrow> f x)"

lemma deref_simps [simp]: "deref None f = Fault" "deref (Some x) f = f x"
  by (simp_all add: deref_def)

definition fst_of :: "('a \<times> 'b) outcome \<Rightarrow> 'a outcome" where
  "fst_of r = obind r (\<lambda>p. Returns (fst p))"

lemma fst_of_Returns [simp]: "fst_of (Returns p) = Returns (fst p)"
  by (simp add: fst_of_def)

definition faults :: "'a outcome \<Rightarrow> bool" where
  "faults r = (case r of Fault \<Rightarrow> True | _ \<Rightarrow> False)"

section \<open>Runs\<close>

fun run_all :: "('op \<Rightarrow> 's \<Rightarrow> 's outcome) \<Rightarrow> 'op list \<Rightarrow> 's \<Rightarrow> 's outcome" where
  "run_all step [] s = Returns s"
| "run_all step (x # xs) s = obind (step x s) (run_all step xs)"

fun all_allowed :: "('op \<Rightarrow> 's \<Rightarrow> bool) \<Rightarrow> ('op \<Rightarrow> 's \<Rightarrow> 's outcome) \<Rightarrow> 'op list \<Rightarrow> 's \<Rightarrow> bool" where
  "all_allowed ok step [] s = True"
| "all_allowed ok step (x # xs) s =
     (ok x s \<and> (case step x s of Returns s' \<Rightarrow> all_allowed ok step xs s' | _ \<Rightarrow> True))"

lemma run_all_append: "run_all step (xs @ ys) s = obind (run_all step xs s) (run_all step ys)"
proof (induction xs arbitrary: s)
  case (Cons x xs)
  then show ?case by (cases "step x s") simp_all
qed simp

lemma all_allowed_append:
  "all_allowed ok step (xs @ ys) s \<longleftrightarrow> all_allowed ok step xs s \<and>
     (case run_all step xs s of Returns t \<Rightarrow> all_allowed ok step ys t | _ \<Rightarrow> True)"
proof (induction xs arbitrary: s)
  case (Cons x xs)
  then show ?case by (cases "step x s") simp_all
qed simp

locale guarded_machine =
  fixes step :: "'op \<Rightarrow> 's \<Rightarrow> 's outcome"
    and ok :: "'op \<Rightarrow> 's \<Rightarrow> bool"
    and inv :: "'s \<Rightarrow> bool"
    and start :: 's
  assumes start_inv: "inv start"
    and step_ok: "inv s \<Longrightarrow> ok x s \<Longrightarrow> \<exists>s'. step x s = Returns s' \<and> inv s'"
begin

lemma run_ok: "inv s \<Longrightarrow> all_allowed ok step xs s \<Longrightarrow> \<exists>s'. run_all step xs s = Returns s' \<and> inv s'"
proof (induction xs arbitrary: s)
  case (Cons x xs)
  then obtain s1 where s1: "step x s = Returns s1" "inv s1" using step_ok [of s x] by auto
  then show ?case using Cons.IH [OF s1(2)] Cons.prems by simp
qed simp

lemma never_faults: "all_allowed ok step xs start \<Longrightarrow> \<exists>s. run_all step xs start = Returns s \<and> inv s"
  by (rule run_ok [OF start_inv])

lemma reached_inv: "all_allowed ok step xs start \<Longrightarrow> run_all step xs start = Returns s \<Longrightarrow> inv s"
  using never_faults by fastforce

end

locale draining_machine = guarded_machine +
  fixes background :: "'op \<Rightarrow> bool"
    and left :: "'s \<Rightarrow> nat"
  assumes background_step: "inv s \<Longrightarrow> background x \<Longrightarrow> ok x s \<Longrightarrow> step x s = Returns s' \<Longrightarrow> left s' < left s"
    and background_enabled: "inv s \<Longrightarrow> left s > 0 \<Longrightarrow> \<exists>x. background x \<and> ok x s"
begin

lemma drains:
  "inv s \<Longrightarrow> \<exists>bs s'. list_all background bs \<and> all_allowed ok step bs s \<and> run_all step bs s = Returns s' \<and>
     inv s' \<and> left s' = 0"
proof (induction "left s" arbitrary: s rule: less_induct)
  case less
  show ?case
  proof (cases "left s > 0")
    case True
    then obtain x where x: "background x" "ok x s" using background_enabled [OF less.prems] by blast
    obtain s1 where s1: "step x s = Returns s1" "inv s1" using step_ok [OF less.prems x(2)] by blast
    obtain bs s' where "list_all background bs" "all_allowed ok step bs s1" "run_all step bs s1 = Returns s'"
      "inv s'" "left s' = 0"
      using less.hyps [OF background_step [OF less.prems x s1(1)] s1(2)] by blast
    then show ?thesis using x s1 by (intro exI [of _ "x # bs"] exI [of _ s']) simp
  next
    case False
    then show ?thesis using less.prems by (intro exI [of _ "[]"] exI [of _ s]) simp
  qed
qed

lemma bounded: "inv s \<Longrightarrow> list_all background bs \<Longrightarrow> all_allowed ok step bs s \<Longrightarrow> length bs \<le> left s"
proof (induction bs arbitrary: s)
  case (Cons x bs)
  then obtain s1 where s1: "step x s = Returns s1" "inv s1" using step_ok [of s x] by auto
  have "left s1 < left s" using background_step [OF Cons.prems(1) _ _ s1(1)] Cons.prems by simp
  moreover have "length bs \<le> left s1" using Cons.IH [OF s1(2)] Cons.prems s1(1) by simp
  ultimately show ?case by simp
qed simp

end

end
