(* ===== verification/Async_Work.thy ===== *)
theory Async_Work
  imports Machines
begin

text \<open>
  Asynchronous work (native\_engine/native\_async\_work.cpp and .h, with the entry points of
  native\_engine/native\_node\_api.cpp and native\_api.cpp): a request is queued on the loop of its engine,
  executed on a thread of the pool, and completed on the thread of the loop, where its engine's counter of
  waiting requests goes back; a request can be cancelled until a thread takes it.

  libuv is outside the repository.  What the code relies on is in \<open>req\<close>, the state of the request inside
  libuv: a queued request is taken once by the pool or cancelled, and then handed to the loop once with a
  status.  Which request is taken next, and whether libuv accepts or cancels a request, is free.

  Reading a freed engine or work is \<open>Fault\<close>, and so is queueing a request that libuv already holds, since it
  is linked into the queue twice; \<open>HILOG_FATAL\<close> is \<open>Aborts\<close>.  Tracing and container scopes are left out.
\<close>

section \<open>State\<close>

text \<open>How a request was queued: with a quality of service, or on an ordered queue as well.\<close>

datatype queue_kind = Plain | WithQos nat | Ordered nat nat

datatype req_phase = Idle | Queued queue_kind | Running | Finished int

type_synonym callback_ptr = nat

record async_work =
  work_engine :: addr
  work_engineId :: u64
  execute_cb :: callback_ptr
  complete_cb :: callback_ptr
  work_data :: addr
  taskName :: string
  req :: req_phase

record env_engine =
  env_id :: u64
  main_context :: bool
  parent_env :: addr
  has_uv_loop :: bool
  cross_thread_check :: bool
  waiting_requests :: int

datatype work_event =
    Submitted addr
  | Executed addr callback_ptr addr
  | Completed addr callback_ptr napi_status addr

record works_state =
  engines :: "addr \<rightharpoonup> env_engine"
  works :: "addr \<rightharpoonup> async_work"
  events :: "work_event list"

definition UV_EINVAL :: int where "UV_EINVAL = -22"
definition UV_ECANCELED :: int where "UV_ECANCELED = -125"

definition log_event :: "work_event \<Rightarrow> works_state \<Rightarrow> works_state" where
  "log_event x s = s\<lparr>events := events s @ [x]\<rparr>"

definition set_req :: "req_phase \<Rightarrow> addr \<Rightarrow> async_work \<Rightarrow> works_state \<Rightarrow> works_state" where
  "set_req p w a s = s\<lparr>works := (works s)(w \<mapsto> a\<lparr>req := p\<rparr>)\<rparr>"

definition add_waiting :: "int \<Rightarrow> addr \<Rightarrow> env_engine \<Rightarrow> works_state \<Rightarrow> works_state" where
  "add_waiting n e g s = s\<lparr>engines := (engines s)(e \<mapsto> g\<lparr>waiting_requests := waiting_requests g + n\<rparr>)\<rparr>"

section \<open>The operations of a work\<close>

text \<open>The check of the engine that is passed; its result is not used by any caller.\<close>

definition valid_engine_check :: "addr \<Rightarrow> addr \<Rightarrow> u64 \<Rightarrow> works_state \<Rightarrow> bool outcome" where
  "valid_engine_check input owner ownerId s =
     deref (engines s input) (\<lambda>g.
       if input \<noteq> owner then if cross_thread_check g then Aborts else Returns False
       else if ownerId \<noteq> env_id g then if cross_thread_check g then Aborts else Returns False
       else Returns True)"

definition new_NativeAsyncWork ::
    "addr \<Rightarrow> callback_ptr \<Rightarrow> callback_ptr \<Rightarrow> string \<Rightarrow> addr \<Rightarrow> works_state \<Rightarrow> async_work outcome" where
  "new_NativeAsyncWork e execute complete asyncResourceName d s =
     deref (engines s e) (\<lambda>g. Returns \<lparr>work_engine = e, work_engineId = env_id g, execute_cb = execute, complete_cb = complete,
       work_data = d, taskName = asyncResourceName, req = Idle\<rparr>)"

definition work_loop :: "async_work \<Rightarrow> works_state \<Rightarrow> bool outcome" where
  "work_loop a s =
     deref (engines s (work_engine a)) (\<lambda>g.
       if main_context g then Returns (has_uv_loop g)
       else deref (engines s (parent_env g)) (\<lambda>p. Returns (has_uv_loop p)))"

text \<open>\<open>status\<close> is what libuv answers.\<close>

definition queue_request ::
    "queue_kind \<Rightarrow> int \<Rightarrow> addr \<Rightarrow> addr \<Rightarrow> works_state \<Rightarrow> (works_state \<times> bool) outcome" where
  "queue_request kind status input w s =
     deref (works s w) (\<lambda>a.
     obind (valid_engine_check input (work_engine a) (work_engineId a) s) (\<lambda>_.
     obind (work_loop a s) (\<lambda>loop.
       if \<not> loop then Returns (s, False)
       else deref (engines s (work_engine a)) (\<lambda>g.
         let s1 = add_waiting 1 (work_engine a) g s
         in if status \<noteq> 0
            then deref (engines s1 (work_engine a)) (\<lambda>g1. Returns (add_waiting (-1) (work_engine a) g1 s1, False))
            else if req a \<noteq> Idle then Fault
            else Returns (log_event (Submitted w) (set_req (Queued kind) w a s1), True)))))"

definition Queue :: "int \<Rightarrow> addr \<Rightarrow> addr \<Rightarrow> works_state \<Rightarrow> (works_state \<times> bool) outcome" where
  "Queue status e w s = queue_request Plain status e w s"

definition QueueWithQos :: "int \<Rightarrow> addr \<Rightarrow> nat \<Rightarrow> addr \<Rightarrow> works_state \<Rightarrow> (works_state \<times> bool) outcome" where
  "QueueWithQos status e qos w s = queue_request (WithQos qos) status e w s"

definition QueueOrdered ::
    "int \<Rightarrow> addr \<Rightarrow> nat \<Rightarrow> nat \<Rightarrow> addr \<Rightarrow> works_state \<Rightarrow> (works_state \<times> bool) outcome" where
  "QueueOrdered status e qos queueId w s = queue_request (Ordered qos queueId) status e w s"

text \<open>\<open>uv_cancel\<close> may succeed only while no thread has taken the request.\<close>

definition uv_cancel :: "bool \<Rightarrow> addr \<Rightarrow> async_work \<Rightarrow> works_state \<Rightarrow> works_state \<times> bool" where
  "uv_cancel accepts w a s =
     (case req a of Queued _ \<Rightarrow> if accepts then (set_req (Finished UV_ECANCELED) w a s, True) else (s, False)
      | _ \<Rightarrow> (s, False))"

definition Cancel :: "bool \<Rightarrow> addr \<Rightarrow> addr \<Rightarrow> works_state \<Rightarrow> (works_state \<times> bool) outcome" where
  "Cancel accepts e w s =
     deref (works s w) (\<lambda>a.
     obind (valid_engine_check e (work_engine a) (work_engineId a) s) (\<lambda>_. Returns (uv_cancel accepts w a s)))"

text \<open>On a thread of the pool, and when that thread is done.\<close>

definition AsyncWorkCallback :: "addr \<Rightarrow> works_state \<Rightarrow> works_state outcome" where
  "AsyncWorkCallback w s =
     deref (works s w) (\<lambda>that. Returns (log_event (Executed w (execute_cb that) (work_data that)) (set_req Running w that s)))"

definition pool_done :: "addr \<Rightarrow> works_state \<Rightarrow> works_state outcome" where
  "pool_done w s = deref (works s w) (\<lambda>a. Returns (set_req (Finished 0) w a s))"

definition after_status :: "int \<Rightarrow> napi_status" where
  "after_status status =
     (if status = 0 then napi_ok
      else if status = UV_EINVAL then napi_invalid_arg
      else if status = UV_ECANCELED then napi_cancelled
      else napi_generic_failure)"

text \<open>
  On the thread of the loop, up to the call of the user's callback; after that call the work is not
  touched any more.  libuv has let go of the request.
\<close>

definition AsyncAfterWorkCallback :: "addr \<Rightarrow> int \<Rightarrow> works_state \<Rightarrow> works_state outcome" where
  "AsyncAfterWorkCallback w status s =
     deref (works s w) (\<lambda>that.
     deref (engines s (work_engine that)) (\<lambda>g.
       Returns (log_event (Completed w (complete_cb that) (after_status status) (work_data that))
                 (set_req Idle w that (add_waiting (-1) (work_engine that) g s)))))"

section \<open>Entry points\<close>

text \<open>
  \<open>name\<close> is null, or a JS value that is null or undefined (\<open>Some None\<close>), or a string for which the VM
  wrote the given bytes, the end mark included; \<open>a\<close> is the address the allocator returns.
\<close>

definition c_string :: "string \<Rightarrow> string" where
  "c_string bs = takeWhile (\<lambda>c. c \<noteq> CHR 0x00) bs"

definition napi_create_async_work ::
    "addr option \<Rightarrow> string option option \<Rightarrow> callback_ptr option \<Rightarrow> callback_ptr option \<Rightarrow> addr \<Rightarrow> bool \<Rightarrow> bool \<Rightarrow>
     addr \<Rightarrow> works_state \<Rightarrow> (works_state \<times> napi_status) outcome" where
  "napi_create_async_work env name execute complete d has_result switch_ok a s =
     (case env of None \<Rightarrow> Returns (s, napi_invalid_arg) | Some e \<Rightarrow>
     (case name of None \<Rightarrow> Returns (s, napi_invalid_arg) | Some js \<Rightarrow>
     (case execute of None \<Rightarrow> Returns (s, napi_invalid_arg) | Some ex \<Rightarrow>
     (case complete of None \<Rightarrow> Returns (s, napi_invalid_arg) | Some co \<Rightarrow>
       if \<not> has_result then Returns (s, napi_invalid_arg)
       else if \<not> switch_ok then Returns (s, napi_generic_failure)
       else case js of
           None \<Rightarrow> obind (new_NativeAsyncWork e ex co [] d s) (\<lambda>x. Returns (s\<lparr>works := (works s)(a \<mapsto> x)\<rparr>, napi_ok))
         | Some written \<Rightarrow>
             if written = [] then Fault
             else obind (new_NativeAsyncWork e ex co (c_string (butlast written)) d s)
                    (\<lambda>x. Returns (s\<lparr>works := (works s)(a \<mapsto> x)\<rparr>, napi_ok))))))"

definition napi_delete_async_work ::
    "addr option \<Rightarrow> addr option \<Rightarrow> works_state \<Rightarrow> (works_state \<times> napi_status) outcome" where
  "napi_delete_async_work env work s =
     (if env = None then Returns (s, napi_invalid_arg)
      else case work of None \<Rightarrow> Returns (s, napi_invalid_arg)
      | Some w \<Rightarrow> deref (works s w) (\<lambda>_. Returns (s\<lparr>works := (works s)(w := None)\<rparr>, napi_ok)))"

definition napi_queue_async_work ::
    "int \<Rightarrow> addr option \<Rightarrow> addr option \<Rightarrow> works_state \<Rightarrow> (works_state \<times> napi_status) outcome" where
  "napi_queue_async_work status env work s =
     (case env of None \<Rightarrow> Returns (s, napi_invalid_arg) | Some e \<Rightarrow>
     (case work of None \<Rightarrow> Returns (s, napi_invalid_arg) | Some w \<Rightarrow>
        obind (Queue status e w s) (\<lambda>(s', _). Returns (s', napi_ok))))"

definition napi_queue_async_work_with_qos ::
    "int \<Rightarrow> addr option \<Rightarrow> addr option \<Rightarrow> nat \<Rightarrow> works_state \<Rightarrow> (works_state \<times> napi_status) outcome" where
  "napi_queue_async_work_with_qos status env work qos s =
     (case env of None \<Rightarrow> Returns (s, napi_invalid_arg) | Some e \<Rightarrow>
     (case work of None \<Rightarrow> Returns (s, napi_invalid_arg) | Some w \<Rightarrow>
        obind (QueueWithQos status e qos w s) (\<lambda>(s', _). Returns (s', napi_ok))))"

definition napi_queue_async_work_with_queue ::
    "int \<Rightarrow> addr option \<Rightarrow> addr option \<Rightarrow> nat \<Rightarrow> nat \<Rightarrow> works_state \<Rightarrow> (works_state \<times> napi_status) outcome" where
  "napi_queue_async_work_with_queue status env work qos taskId s =
     (case env of None \<Rightarrow> Returns (s, napi_invalid_arg) | Some e \<Rightarrow>
     (case work of None \<Rightarrow> Returns (s, napi_invalid_arg) | Some w \<Rightarrow>
        if taskId = 0 then Returns (s, napi_invalid_arg)
        else obind (QueueOrdered status e qos taskId w s)
               (\<lambda>(s', res). Returns (s', if \<not> res then napi_generic_failure else napi_ok))))"

definition napi_cancel_async_work ::
    "bool \<Rightarrow> addr option \<Rightarrow> addr option \<Rightarrow> works_state \<Rightarrow> (works_state \<times> napi_status) outcome" where
  "napi_cancel_async_work accepts env work s =
     (case env of None \<Rightarrow> Returns (s, napi_invalid_arg) | Some e \<Rightarrow>
     (case work of None \<Rightarrow> Returns (s, napi_invalid_arg) | Some w \<Rightarrow>
        obind (Cancel accepts e w s) (\<lambda>(s', _). Returns (s', napi_ok))))"

end
