(* ===== verification/Async_Props.thy ===== *)
theory Async_Props
  imports Async_Work
begin

text \<open>
  Properties of asynchronous work over every sequence of operations: engines come and go, works are
  created, queued, cancelled and deleted, and the pool and the loop take their steps, in any order.
\<close>

section \<open>Sequences of operations\<close>

datatype work_op =
    NewEngine addr env_engine
  | DestroyEngine addr
  | CreateWork addr addr string callback_ptr callback_ptr addr
  | DeleteWork addr addr
  | QueueWork queue_kind int addr addr
  | CancelWork bool addr addr
  | PoolStart addr
  | PoolEnd addr
  | LoopAfter addr

definition queue_by :: "queue_kind \<Rightarrow> int \<Rightarrow> addr \<Rightarrow> addr \<Rightarrow> works_state \<Rightarrow> (works_state \<times> napi_status) outcome" where
  "queue_by kind status e w s =
     (case kind of Plain \<Rightarrow> napi_queue_async_work status (Some e) (Some w) s
      | WithQos qos \<Rightarrow> napi_queue_async_work_with_qos status (Some e) (Some w) qos s
      | Ordered qos q \<Rightarrow> napi_queue_async_work_with_queue status (Some e) (Some w) qos q s)"

fun exec_op :: "work_op \<Rightarrow> works_state \<Rightarrow> works_state outcome" where
  "exec_op (NewEngine e g) s = Returns (s\<lparr>engines := (engines s)(e \<mapsto> g\<lparr>waiting_requests := 0\<rparr>)\<rparr>)"
| "exec_op (DestroyEngine e) s = Returns (s\<lparr>engines := (engines s)(e := None)\<rparr>)"
| "exec_op (CreateWork w e name ex co d) s =
     fst_of (napi_create_async_work (Some e) (Some (Some (name @ [CHR 0x00]))) (Some ex) (Some co) d True True w s)"
| "exec_op (DeleteWork e w) s = fst_of (napi_delete_async_work (Some e) (Some w) s)"
| "exec_op (QueueWork kind status e w) s = fst_of (queue_by kind status e w s)"
| "exec_op (CancelWork accepts e w) s = fst_of (napi_cancel_async_work accepts (Some e) (Some w) s)"
| "exec_op (PoolStart w) s = AsyncWorkCallback w s"
| "exec_op (PoolEnd w) s = pool_done w s"
| "exec_op (LoopAfter w) s =
     deref (works s w) (\<lambda>a. case req a of Finished status \<Rightarrow> AsyncAfterWorkCallback w status s | _ \<Rightarrow> Fault)"

abbreviation exec_ops :: "work_op list \<Rightarrow> works_state \<Rightarrow> works_state outcome" where
  "exec_ops \<equiv> run_all exec_op"

text \<open>
  What the callers and libuv promise: addresses handed out are free, an engine is destroyed only when no
  request of it waits and no context has it as its parent, a work is deleted or queued only while libuv
  does not hold it, and it is queued or cancelled with the engine it was made for; the pool and the loop
  act on a request in the state they find it in.
\<close>

definition owner_passed :: "addr \<Rightarrow> async_work \<Rightarrow> works_state \<Rightarrow> bool" where
  "owner_passed e a s =
     (case valid_engine_check e (work_engine a) (work_engineId a) s of Returns b \<Rightarrow> b | _ \<Rightarrow> False)"

definition work_with :: "(async_work \<Rightarrow> bool) \<Rightarrow> addr \<Rightarrow> works_state \<Rightarrow> bool" where
  "work_with P w s = (case works s w of None \<Rightarrow> False | Some a \<Rightarrow> P a)"

definition no_child :: "addr \<Rightarrow> works_state \<Rightarrow> bool" where
  "no_child e s \<longleftrightarrow> (\<forall>x g. engines s x = Some g \<and> x \<noteq> e \<and> \<not> main_context g \<longrightarrow> parent_env g \<noteq> e)"

declare no_child_def [code del]

fun allowed :: "work_op \<Rightarrow> works_state \<Rightarrow> bool" where
  "allowed (NewEngine e g) s = (engines s e = None \<and> (main_context g \<or> engines s (parent_env g) \<noteq> None))"
| "allowed (DestroyEngine e) s =
     ((case engines s e of None \<Rightarrow> False | Some g \<Rightarrow> waiting_requests g = 0) \<and>
      no_child e s)"
| "allowed (CreateWork w e name ex co d) s = (works s w = None \<and> engines s e \<noteq> None)"
| "allowed (DeleteWork e w) s = work_with (\<lambda>a. req a = Idle) w s"
| "allowed (QueueWork kind status e w) s = work_with (\<lambda>a. req a = Idle \<and> owner_passed e a s) w s"
| "allowed (CancelWork accepts e w) s = work_with (\<lambda>a. owner_passed e a s) w s"
| "allowed (PoolStart w) s = work_with (\<lambda>a. case req a of Queued _ \<Rightarrow> True | _ \<Rightarrow> False) w s"
| "allowed (PoolEnd w) s = work_with (\<lambda>a. req a = Running) w s"
| "allowed (LoopAfter w) s = work_with (\<lambda>a. case req a of Finished _ \<Rightarrow> True | _ \<Rightarrow> False) w s"

abbreviation allowed_ops :: "work_op list \<Rightarrow> works_state \<Rightarrow> bool" where
  "allowed_ops \<equiv> all_allowed allowed exec_op"

definition no_works :: works_state where
  "no_works = \<lparr>engines = Map.empty, works = Map.empty, events = []\<rparr>"

section \<open>The history of one work\<close>

datatype stage = SIdle | SQueued | SExecuted

primrec event_work :: "work_event \<Rightarrow> addr" where
  "event_work (Submitted w) = w"
| "event_work (Executed w f d) = w"
| "event_work (Completed w f st d) = w"

text \<open>
  A request is submitted, then executed once and completed with \<open>napi_ok\<close>, or completed with
  \<open>napi_cancelled\<close> without having been executed; then it may be submitted again.
\<close>

fun stage_after :: "stage option \<Rightarrow> work_event \<Rightarrow> stage option" where
  "stage_after (Some SIdle) (Submitted w) = Some SQueued"
| "stage_after (Some SQueued) (Executed w f d) = Some SExecuted"
| "stage_after (Some SQueued) (Completed w f st d) = (if st = napi_cancelled then Some SIdle else None)"
| "stage_after (Some SExecuted) (Completed w f st d) = (if st = napi_ok then Some SIdle else None)"
| "stage_after _ _ = None"

definition history :: "addr \<Rightarrow> works_state \<Rightarrow> work_event list" where
  "history w s = filter (\<lambda>x. event_work x = w) (events s)"

definition stages :: "addr \<Rightarrow> works_state \<Rightarrow> stage option" where
  "stages w s = foldl stage_after (Some SIdle) (history w s)"

definition stage_of :: "async_work option \<Rightarrow> stage" where
  "stage_of x = (case x of None \<Rightarrow> SIdle | Some a \<Rightarrow>
     (case req a of Idle \<Rightarrow> SIdle | Queued _ \<Rightarrow> SQueued | Running \<Rightarrow> SExecuted
      | Finished st \<Rightarrow> if st = 0 then SExecuted else SQueued))"

section \<open>The invariant\<close>

definition outstanding :: "addr \<Rightarrow> works_state \<Rightarrow> addr set" where
  "outstanding e s = {w. \<exists>a. works s w = Some a \<and> work_engine a = e \<and> req a \<noteq> Idle}"

definition works_inv :: "works_state \<Rightarrow> bool" where
  "works_inv s \<longleftrightarrow>
     finite (dom (works s)) \<and>
     (\<forall>e g. engines s e = Some g \<longrightarrow> waiting_requests g = int (card (outstanding e s))) \<and>
     (\<forall>w a. works s w = Some a \<longrightarrow> req a \<noteq> Idle \<longrightarrow> engines s (work_engine a) \<noteq> None) \<and>
     (\<forall>w a st. works s w = Some a \<longrightarrow> req a = Finished st \<longrightarrow> st = 0 \<or> st = UV_ECANCELED) \<and>
     (\<forall>e g. engines s e = Some g \<longrightarrow> \<not> main_context g \<longrightarrow> engines s (parent_env g) \<noteq> None) \<and>
     (\<forall>w. stages w s = Some (stage_of (works s w)))"

lemma set_req_simps [simp]:
  "engines (set_req p w a s) = engines s" "works (set_req p w a s) = (works s)(w \<mapsto> a\<lparr>req := p\<rparr>)"
  "events (set_req p w a s) = events s"
  by (simp_all add: set_req_def)

lemma add_waiting_simps [simp]:
  "works (add_waiting n e g s) = works s" "events (add_waiting n e g s) = events s"
  "engines (add_waiting n e g s) = (engines s)(e \<mapsto> g\<lparr>waiting_requests := waiting_requests g + n\<rparr>)"
  by (simp_all add: add_waiting_def)

lemma log_event_simps [simp]:
  "works (log_event x s) = works s" "engines (log_event x s) = engines s" "events (log_event x s) = events s @ [x]"
  by (simp_all add: log_event_def)

lemma outstanding_cong: "works s' = works s \<Longrightarrow> outstanding e s' = outstanding e s"
  by (simp add: outstanding_def)

lemma outstanding_upd:
  "works s' = (works s)(w \<mapsto> a) \<Longrightarrow>
     outstanding e s' = (if work_engine a = e \<and> req a \<noteq> Idle then insert w (outstanding e s) else outstanding e s - {w})"
  by (auto simp: outstanding_def)

lemma outstanding_del: "works s' = (works s)(w := None) \<Longrightarrow> outstanding e s' = outstanding e s - {w}"
  by (auto simp: outstanding_def)

lemma finite_outstanding: "works_inv s \<Longrightarrow> finite (outstanding e s)"
  by (rule finite_subset [of _ "dom (works s)"]) (auto simp: outstanding_def works_inv_def)

lemma stages_cong: "events s' = events s \<Longrightarrow> stages w s' = stages w s"
  by (simp add: stages_def history_def)

lemma stages_set_req [simp]: "stages v (set_req p w a s) = stages v s"
  by (simp add: stages_def history_def)

lemma stages_snoc:
  "events s' = events s @ [x] \<Longrightarrow>
     stages w s' = (if event_work x = w then stage_after (stages w s) x else stages w s)"
  by (simp add: stages_def history_def)

text \<open>One request moves to another state, and its engine's counter follows.\<close>

lemma request_moves:
  assumes inv: "works_inv s" and a: "works s w = Some a" and g: "engines s (work_engine a) = Some g"
    and w': "works s' = (works s)(w \<mapsto> a\<lparr>req := p\<rparr>)"
    and e': "engines s' = (engines s)(work_engine a \<mapsto> g\<lparr>waiting_requests := waiting_requests g + n\<rparr>)"
    and n: "n = (if p = Idle then 0 else 1) - (if req a = Idle then 0 else 1)"
    and st: "\<And>st. p = Finished st \<Longrightarrow> st = 0 \<or> st = UV_ECANCELED"
    and h: "\<And>v. stages v s' = Some (stage_of (works s' v))"
  shows "works_inv s'"
proof -
  have o: "outstanding e s' = (if work_engine a = e \<and> p \<noteq> Idle then insert w (outstanding e s) else outstanding e s - {w})" for e
    using outstanding_upd [OF w', of e] by simp
  have member: "w \<in> outstanding e s \<longleftrightarrow> work_engine a = e \<and> req a \<noteq> Idle" for e
    using a by (auto simp: outstanding_def)
  have fin: "finite (outstanding e s)" for e using finite_outstanding [OF inv] .
  have pos: "w \<in> outstanding e s \<Longrightarrow> card (outstanding e s) > 0" for e using fin [of e] card_gt_0_iff by blast
  have card: "int (card (outstanding e s')) = int (card (outstanding e s)) + (if e = work_engine a then n else 0)" for e
    using pos [of e] fin [of e] member [of e] unfolding o n by (auto simp: card_insert_if card_Diff_singleton_if)
  have wait: "waiting_requests g' = int (card (outstanding e s'))" if "engines s' e = Some g'" for e g'
    using that inv g unfolding e' card by (auto simp: works_inv_def split: if_splits)
  have parents: "engines s' (parent_env g') \<noteq> None" if "engines s' e = Some g'" "\<not> main_context g'" for e g'
  proof (cases "e = work_engine a")
    case True
    then have "engines s (parent_env g) \<noteq> None" using that g inv unfolding e' by (auto simp: works_inv_def)
    then show ?thesis using True that unfolding e' by auto
  next
    case False
    then have "engines s e = Some g'" using that unfolding e' by simp
    then have "engines s (parent_env g') \<noteq> None" using that inv by (auto simp: works_inv_def)
    then show ?thesis unfolding e' by simp
  qed
  have engs: "engines s' (work_engine b) \<noteq> None" if "works s' v = Some b" "req b \<noteq> Idle" for v b
    using that inv g unfolding e' w' by (auto simp: works_inv_def split: if_splits)
  have fins: "st = 0 \<or> st = UV_ECANCELED" if "works s' v = Some b" "req b = Finished st" for v b st
    using that inv assms(7) [of st] unfolding w' works_inv_def by (auto split: if_splits)
  have "finite (dom (works s'))" using inv unfolding w' works_inv_def by simp
  then show ?thesis unfolding works_inv_def using wait parents engs fins h by blast
qed

lemma stay_waiting: "engines s e = Some g \<Longrightarrow> engines s = (engines s)(e \<mapsto> g\<lparr>waiting_requests := waiting_requests g + 0\<rparr>)"
  by (cases g) (auto simp: fun_upd_idem)

lemma inv_stage: "works_inv s \<Longrightarrow> stages w s = Some (stage_of (works s w))"
  by (simp add: works_inv_def)

lemma inv_engine:
  "works_inv s \<Longrightarrow> works s w = Some a \<Longrightarrow> req a \<noteq> Idle \<Longrightarrow> \<exists>g. engines s (work_engine a) = Some g"
  by (auto simp: works_inv_def)

lemma inv_parent:
  "works_inv s \<Longrightarrow> engines s e = Some g \<Longrightarrow> \<not> main_context g \<Longrightarrow> \<exists>p. engines s (parent_env g) = Some p"
  unfolding works_inv_def by blast

lemma owner_passed_engine:
  "owner_passed e a s \<Longrightarrow> e = work_engine a \<and> (\<exists>g. engines s e = Some g \<and> env_id g = work_engineId a) \<and>
     valid_engine_check e (work_engine a) (work_engineId a) s = Returns True"
  by (auto simp: owner_passed_def valid_engine_check_def split: option.splits if_splits outcome.splits)
    (auto simp: deref_def split: option.splits if_splits)

lemma counter_restored:
  "engines s e = Some g \<Longrightarrow>
     add_waiting (-1) e (g\<lparr>waiting_requests := waiting_requests g + 1\<rparr>) (add_waiting 1 e g s) = s"
  by (cases s, cases g) (auto simp: add_waiting_def fun_upd_idem)

lemma queue_request_spec:
  assumes inv: "works_inv s" and a: "works s w = Some a" "req a = Idle" and own: "owner_passed e a s"
  shows "\<exists>s' b. queue_request kind status e w s = Returns (s', b) \<and> works_inv s' \<and> (\<not> b \<longrightarrow> s' = s)"
proof -
  from owner_passed_engine [OF own] obtain g where e: "e = work_engine a" and g: "engines s (work_engine a) = Some g"
    and v: "valid_engine_check e (work_engine a) (work_engineId a) s = Returns True" by blast
  have "\<exists>loop. work_loop a s = Returns loop"
    using g inv_parent [OF inv g] by (cases "main_context g") (auto simp: work_loop_def)
  then obtain lp where lp: "work_loop a s = Returns lp" ..
  let ?s' = "log_event (Submitted w) (set_req (Queued kind) w a (add_waiting 1 (work_engine a) g s))"
  have h: "stages x ?s' = Some (stage_of (works ?s' x))" for x
    using inv_stage [OF inv, of x] inv_stage [OF inv, of w] a
    by (subst stages_snoc [of ?s' s]) (auto simp: stage_of_def)
  have "works_inv ?s'"
    by (rule request_moves [OF inv a(1) g, where p = "Queued kind" and n = 1]) (auto simp: a(2) h)
  then show ?thesis
    using inv by (auto simp: queue_request_def a v g lp Let_def counter_restored)
qed

lemma queue_step:
  assumes inv: "works_inv s" and ok: "allowed (QueueWork kind status e w) s"
  shows "\<exists>s'. exec_op (QueueWork kind status e w) s = Returns s' \<and> works_inv s'"
proof -
  from ok obtain a where a: "works s w = Some a" "req a = Idle" "owner_passed e a s"
    by (auto simp: work_with_def split: option.splits)
  show ?thesis
    using queue_request_spec [OF inv a, of kind status] inv
    by (cases kind) (auto simp: queue_by_def napi_queue_async_work_def napi_queue_async_work_with_qos_def
      napi_queue_async_work_with_queue_def Queue_def QueueWithQos_def QueueOrdered_def fst_of_def)
qed

lemma move_step:
  assumes inv: "works_inv s" and a: "works s w = Some a" "req a \<noteq> Idle" "p \<noteq> Idle"
    and w': "works s' = (works s)(w \<mapsto> a\<lparr>req := p\<rparr>)" and e': "engines s' = engines s"
    and st: "\<And>st. p = Finished st \<Longrightarrow> st = 0 \<or> st = UV_ECANCELED"
    and h: "\<And>v. stages v s' = Some (stage_of (works s' v))"
  shows "works_inv s'"
proof -
  obtain g where g: "engines s (work_engine a) = Some g" using inv_engine [OF inv a(1,2)] ..
  show ?thesis
    by (rule request_moves [OF inv a(1) g w', where n = 0]) (use a stay_waiting [OF g] e' st h in auto)
qed

lemma cancel_step:
  assumes inv: "works_inv s" and ok: "allowed (CancelWork accepts e w) s"
  shows "\<exists>s'. exec_op (CancelWork accepts e w) s = Returns s' \<and> works_inv s'"
proof -
  from ok obtain a where a: "works s w = Some a" "owner_passed e a s"
    by (auto simp: work_with_def split: option.splits)
  have "works_inv (fst (uv_cancel accepts w a s))"
  proof (cases "\<exists>k. req a = Queued k \<and> accepts")
    case True
    let ?s' = "set_req (Finished UV_ECANCELED) w a s"
    have h: "stages x ?s' = Some (stage_of (works ?s' x))" for x
      using inv_stage [OF inv, of x] a True by (auto simp: stage_of_def UV_ECANCELED_def)
    show ?thesis using True move_step [OF inv a(1), of "Finished UV_ECANCELED" ?s'] h
      by (auto simp: uv_cancel_def)
  qed (use inv in \<open>auto simp: uv_cancel_def split: req_phase.split\<close>)
  then show ?thesis
    using owner_passed_engine [OF a(2)] by (auto simp: napi_cancel_async_work_def Cancel_def a fst_of_def split: prod.split)
qed

lemma pool_steps:
  assumes inv: "works_inv s"
  shows "allowed (PoolStart w) s \<Longrightarrow> \<exists>s'. exec_op (PoolStart w) s = Returns s' \<and> works_inv s'"
    and "allowed (PoolEnd w) s \<Longrightarrow> \<exists>s'. exec_op (PoolEnd w) s = Returns s' \<and> works_inv s'"
proof -
  assume "allowed (PoolStart w) s"
  then obtain a k where a: "works s w = Some a" "req a = Queued k"
    by (auto simp: work_with_def split: option.splits req_phase.splits)
  let ?s' = "log_event (Executed w (execute_cb a) (work_data a)) (set_req Running w a s)"
  have h: "stages x ?s' = Some (stage_of (works ?s' x))" for x
    using inv_stage [OF inv, of x] inv_stage [OF inv, of w] a
    by (subst stages_snoc [of ?s' s]) (auto simp: stage_of_def)
  have "works_inv ?s'" by (rule move_step [OF inv a(1), where p = Running]) (auto simp: a(2) h)
  then show "\<exists>s'. exec_op (PoolStart w) s = Returns s' \<and> works_inv s'" by (simp add: AsyncWorkCallback_def a)
next
  assume "allowed (PoolEnd w) s"
  then obtain a where a: "works s w = Some a" "req a = Running"
    by (auto simp: work_with_def split: option.splits)
  let ?s' = "set_req (Finished 0) w a s"
  have h: "stages x ?s' = Some (stage_of (works ?s' x))" for x
    using inv_stage [OF inv, of x] a by (auto simp: stage_of_def)
  have "works_inv ?s'" by (rule move_step [OF inv a(1), where p = "Finished 0" and s' = ?s']) (use a h in \<open>auto split: if_splits\<close>)
  then show "\<exists>s'. exec_op (PoolEnd w) s = Returns s' \<and> works_inv s'" by (simp add: pool_done_def a)
qed

lemma loop_step:
  assumes inv: "works_inv s" and ok: "allowed (LoopAfter w) s"
  shows "\<exists>s'. exec_op (LoopAfter w) s = Returns s' \<and> works_inv s'"
proof -
  from ok obtain a st where a: "works s w = Some a" "req a = Finished st"
    by (auto simp: work_with_def split: option.splits req_phase.splits)
  obtain g where g: "engines s (work_engine a) = Some g" using inv_engine [OF inv a(1)] a(2) by auto
  have st: "st = 0 \<or> st = UV_ECANCELED" using inv a by (auto simp: works_inv_def)
  let ?s' = "log_event (Completed w (complete_cb a) (after_status st) (work_data a))
               (set_req Idle w a (add_waiting (-1) (work_engine a) g s))"
  have h: "stages x ?s' = Some (stage_of (works ?s' x))" for x
    using inv_stage [OF inv, of x] inv_stage [OF inv, of w] a st
    by (subst stages_snoc [of ?s' s]) (auto simp: stage_of_def after_status_def UV_ECANCELED_def UV_EINVAL_def)
  have "works_inv ?s'"
    by (rule request_moves [OF inv a(1) g, where p = Idle and n = "-1"]) (auto simp: a(2) h)
  then show ?thesis by (simp add: AsyncAfterWorkCallback_def a g)
qed

lemma inv_waiting: "works_inv s \<Longrightarrow> engines s e = Some g \<Longrightarrow> waiting_requests g = int (card (outstanding e s))"
  by (simp add: works_inv_def)

lemma inv_finished: "works_inv s \<Longrightarrow> works s w = Some a \<Longrightarrow> req a = Finished st \<Longrightarrow> st = 0 \<or> st = UV_ECANCELED"
  unfolding works_inv_def by blast

lemma works_invI:
  assumes "finite (dom (works s))" "\<And>e g. engines s e = Some g \<Longrightarrow> waiting_requests g = int (card (outstanding e s))"
    "\<And>w a. works s w = Some a \<Longrightarrow> req a \<noteq> Idle \<Longrightarrow> engines s (work_engine a) \<noteq> None"
    "\<And>w a st. works s w = Some a \<Longrightarrow> req a = Finished st \<Longrightarrow> st = 0 \<or> st = UV_ECANCELED"
    "\<And>e g. engines s e = Some g \<Longrightarrow> \<not> main_context g \<Longrightarrow> engines s (parent_env g) \<noteq> None"
    "\<And>w. stages w s = Some (stage_of (works s w))"
  shows "works_inv s"
  unfolding works_inv_def using assms by blast

text \<open>Engines come and go without changing what the works are.\<close>

lemma engine_table:
  assumes inv: "works_inv s" and s': "s' = s\<lparr>engines := es\<rparr>"
    and wait: "\<And>e g. es e = Some g \<Longrightarrow> waiting_requests g = int (card (outstanding e s))"
    and used: "\<And>w a. works s w = Some a \<Longrightarrow> req a \<noteq> Idle \<Longrightarrow> es (work_engine a) \<noteq> None"
    and parents: "\<And>e g. es e = Some g \<Longrightarrow> \<not> main_context g \<Longrightarrow> es (parent_env g) \<noteq> None"
  shows "works_inv s'"
proof -
  have o: "outstanding x s' = outstanding x s" for x by (simp add: outstanding_def s')
  have h: "stages x s' = stages x s" for x by (rule stages_cong) (simp add: s')
  show ?thesis
  proof (rule works_invI, unfold o h)
    show "finite (dom (works s'))" using inv by (simp add: works_inv_def s')
    show "st = 0 \<or> st = UV_ECANCELED" if "works s' v = Some a" "req a = Finished st" for v a st
      using that inv_finished [OF inv, of v a] by (simp add: s')
    show "stages v s = Some (stage_of (works s' v))" for v using inv_stage [OF inv] by (simp add: s')
    show "waiting_requests g = int (card (outstanding e s))" if "engines s' e = Some g" for e g
      using that wait by (simp add: s')
    show "engines s' (work_engine a) \<noteq> None" if "works s' w = Some a" "req a \<noteq> Idle" for w a
      using that used [of w a] unfolding s' by simp
    show "engines s' (parent_env g) \<noteq> None" if "engines s' e = Some g" "\<not> main_context g" for e g
      using that parents [of e g] unfolding s' by simp
  qed
qed

lemma new_engine_step:
  assumes inv: "works_inv s" and ok: "allowed (NewEngine e g) s"
  shows "works_inv (s\<lparr>engines := (engines s)(e \<mapsto> g\<lparr>waiting_requests := 0\<rparr>)\<rparr>)"
proof (rule engine_table [OF inv refl])
  have none: "outstanding e s = {}" using inv_engine [OF inv] ok by (fastforce simp: outstanding_def)
  show "waiting_requests h = int (card (outstanding x s))" if "((engines s)(e \<mapsto> g\<lparr>waiting_requests := 0\<rparr>)) x = Some h" for x h
    using that none inv_waiting [OF inv] by (auto split: if_splits)
  show "((engines s)(e \<mapsto> g\<lparr>waiting_requests := 0\<rparr>)) (work_engine a) \<noteq> None" if "works s w = Some a" "req a \<noteq> Idle" for w a
    using inv_engine [OF inv that] by auto
  show "((engines s)(e \<mapsto> g\<lparr>waiting_requests := 0\<rparr>)) (parent_env h) \<noteq> None"
    if "((engines s)(e \<mapsto> g\<lparr>waiting_requests := 0\<rparr>)) x = Some h" "\<not> main_context h" for x h
    using that ok inv_parent [OF inv, of x h] by (auto split: if_splits)
qed

lemma destroy_engine_step:
  assumes inv: "works_inv s" and ok: "allowed (DestroyEngine e) s"
  shows "works_inv (s\<lparr>engines := (engines s)(e := None)\<rparr>)"
proof (rule engine_table [OF inv refl])
  from ok obtain g where g: "engines s e = Some g" "waiting_requests g = 0" by (auto split: option.splits)
  have none: "outstanding e s = {}" using inv_waiting [OF inv g(1)] g(2) finite_outstanding [OF inv, of e] by simp
  show "waiting_requests h = int (card (outstanding x s))" if "((engines s)(e := None)) x = Some h" for x h
    using that inv_waiting [OF inv] by (auto split: if_splits)
  show "((engines s)(e := None)) (work_engine a) \<noteq> None" if "works s w = Some a" "req a \<noteq> Idle" for w a
    using that inv_engine [OF inv that] none by (auto simp: outstanding_def)
  show "((engines s)(e := None)) (parent_env h) \<noteq> None"
    if "((engines s)(e := None)) x = Some h" "\<not> main_context h" for x h
    using that ok inv_parent [OF inv, of x h] by (auto simp: no_child_def split: if_splits)
qed

lemma idle_stage: "(\<And>a. x = Some a \<Longrightarrow> req a = Idle) \<Longrightarrow> stage_of x = SIdle"
  by (cases x) (simp_all add: stage_of_def)

lemma table_steps:
  assumes inv: "works_inv s" and idle: "\<And>a. works s w = Some a \<Longrightarrow> req a = Idle"
    and new: "\<And>a. x = Some a \<Longrightarrow> req a = Idle"
  shows "works_inv (s\<lparr>works := (works s)(w := x)\<rparr>)"
proof -
  let ?s' = "s\<lparr>works := (works s)(w := x)\<rparr>"
  have o: "outstanding e ?s' = outstanding e s" for e
  proof -
    have "w \<notin> outstanding e s" "w \<notin> outstanding e ?s'" using idle new by (auto simp: outstanding_def)
    moreover have "v \<in> outstanding e ?s' \<longleftrightarrow> v \<in> outstanding e s" if "v \<noteq> w" for v
      using that by (simp add: outstanding_def)
    ultimately show ?thesis by (metis set_eq_iff)
  qed
  have h: "stages v ?s' = stages v s" for v by (rule stages_cong) simp
  have st: "stages w s = Some (stage_of x)"
    using inv_stage [OF inv, of w] idle_stage [OF idle] idle_stage [OF new] by simp
  show ?thesis
  proof (rule works_invI)
    show "finite (dom (works ?s'))" using inv by (simp add: works_inv_def)
    show "engines ?s' (work_engine a) \<noteq> None" if "works ?s' v = Some a" "req a \<noteq> Idle" for v a
      using that new inv_engine [OF inv, of v a] by (auto split: if_splits)
    show "st = 0 \<or> st = UV_ECANCELED" if "works ?s' v = Some a" "req a = Finished st" for v a st
      using that new inv_finished [OF inv, of v a] by (auto split: if_splits)
    show "stages v ?s' = Some (stage_of (works ?s' v))" for v
      using st inv_stage [OF inv, of v] unfolding h by (cases "v = w") simp_all
    show "waiting_requests g = int (card (outstanding e ?s'))" if "engines ?s' e = Some g" for e g
      using that inv_waiting [OF inv] by (simp add: o)
    show "engines ?s' (parent_env g) \<noteq> None" if "engines ?s' e = Some g" "\<not> main_context g" for e g
      using that inv_parent [OF inv, of e g] by auto
  qed
qed

lemma allowed_step:
  assumes inv: "works_inv s" and ok: "allowed x s"
  shows "\<exists>s'. exec_op x s = Returns s' \<and> works_inv s'"
proof (cases x)
  case (CreateWork w e name ex co d)
  then obtain g where "works s w = None" "engines s e = Some g" using ok by auto
  then show ?thesis
    using table_steps [OF inv, of w "Some x" for x] CreateWork
    by (simp add: napi_create_async_work_def new_NativeAsyncWork_def fst_of_def)
next
  case (DeleteWork e w)
  then obtain a where "works s w = Some a" "req a = Idle" using ok by (auto simp: work_with_def split: option.splits)
  then show ?thesis
    using table_steps [OF inv, of w None] DeleteWork by (simp add: napi_delete_async_work_def fst_of_def)
qed (use ok new_engine_step [OF inv] destroy_engine_step [OF inv] in \<open>simp add: queue_step [OF inv] cancel_step [OF inv]
      pool_steps [OF inv] loop_step [OF inv] del: exec_op.simps(5-9) allowed.simps\<close>; simp)+

lemma no_works_inv: "works_inv no_works"
  by (simp add: works_inv_def no_works_def outstanding_def stages_def history_def stage_of_def)

interpretation works: guarded_machine exec_op allowed works_inv no_works
  by unfold_locales (use no_works_inv allowed_step in auto)

section \<open>Properties\<close>


definition one_engine :: env_engine where
  "one_engine = \<lparr>env_id = 1, main_context = True, parent_env = 0, has_uv_loop = True, cross_thread_check = False,
     waiting_requests = 0\<rparr>"

definition two_works :: "work_op list" where
  "two_works = [NewEngine 1 one_engine, CreateWork 10 1 ''a'' 5 6 7, CreateWork 11 1 ''b'' 5 6 8,
     QueueWork Plain 0 1 10, QueueWork (Ordered 2 3) 0 1 11, PoolStart 10, CancelWork True 1 11, CancelWork True 1 10,
     LoopAfter 11, PoolEnd 10]"

lemma two_works_allowed: "allowed_ops two_works no_works" by code_simp


text \<open>
  The history of every work follows the protocol: each accepted request is executed exactly once and
  then completed with \<open>napi_ok\<close>, or cancelled, never executed and completed with \<open>napi_cancelled\<close>; and
  where it stands is what libuv holds of it.
\<close>

theorem async_work_history:
  assumes "allowed_ops xs no_works" "exec_ops xs no_works = Returns s"
  shows "stages w s = Some (stage_of (works s w))"
  using works.reached_inv [OF assms] inv_stage by simp

theorem async_work_history_witness:
  "(case exec_ops two_works no_works of Returns s \<Rightarrow> map (\<lambda>w. stages w s) [10, 11] | _ \<Rightarrow> []) = [Some SExecuted, Some SIdle]"
proof -
  have "\<exists>s. exec_ops two_works no_works = Returns s" using works.never_faults [OF two_works_allowed] by blast
  then obtain s where s: "exec_ops two_works no_works = Returns s" ..
  have "(case exec_ops two_works no_works of Returns s \<Rightarrow> map (\<lambda>w. stage_of (works s w)) [10, 11] | _ \<Rightarrow> []) = [SExecuted, SIdle]"
    by code_simp
  then show ?thesis using s async_work_history [OF two_works_allowed s] by simp
qed

section \<open>Every request comes to an end\<close>

primrec background :: "work_op \<Rightarrow> bool" where
  "background (NewEngine e g) = False"
| "background (DestroyEngine e) = False"
| "background (CreateWork w e name ex co d) = False"
| "background (DeleteWork e w) = False"
| "background (QueueWork kind status e w) = False"
| "background (CancelWork accepts e w) = False"
| "background (PoolStart w) = True"
| "background (PoolEnd w) = True"
| "background (LoopAfter w) = True"

text \<open>The steps of the pool and the loop that a request still needs.\<close>

primrec steps_of :: "req_phase \<Rightarrow> nat" where
  "steps_of Idle = 0"
| "steps_of (Queued k) = 3"
| "steps_of Running = 2"
| "steps_of (Finished st) = 1"

definition steps_left :: "works_state \<Rightarrow> nat" where
  "steps_left s = (\<Sum>w\<in>dom (works s). steps_of (req (the (works s w))))"

lemma inv_finite: "works_inv s \<Longrightarrow> finite (dom (works s))"
  by (simp add: works_inv_def)

lemma steps_left_upd:
  assumes "finite (dom (works s))" "works s w = Some a" "works s' = (works s)(w \<mapsto> a\<lparr>req := p\<rparr>)"
  shows "steps_left s' + steps_of (req a) = steps_left s + steps_of p"
proof -
  have d: "dom (works s') = insert w (dom (works s) - {w})" "insert w (dom (works s) - {w}) = dom (works s)"
    using assms by auto
  have at_w: "works s' w = Some (a\<lparr>req := p\<rparr>)" by (simp add: assms(3))
  have same: "(\<Sum>v\<in>dom (works s) - {w}. steps_of (req (the (works s' v)))) =
      (\<Sum>v\<in>dom (works s) - {w}. steps_of (req (the (works s v))))"
    by (rule sum.cong) (auto simp: assms(3))
  have "steps_left s' = steps_of p + (\<Sum>v\<in>dom (works s) - {w}. steps_of (req (the (works s v))))"
    using assms(1) at_w by (subst steps_left_def, subst d(1), subst sum.insert) (simp_all add: same)
  moreover have "steps_left s = steps_of (req a) + (\<Sum>v\<in>dom (works s) - {w}. steps_of (req (the (works s v))))"
    unfolding steps_left_def using assms(1,2) by (subst sum.remove [of _ w]) auto
  ultimately show ?thesis by simp
qed

lemma background_step:
  assumes inv: "works_inv s" and x: "background x" "allowed x s"
  shows "\<exists>s'. exec_op x s = Returns s' \<and> works_inv s' \<and> Suc (steps_left s') = steps_left s \<and>
     dom (works s') = dom (works s)"
proof -
  obtain s' where s': "exec_op x s = Returns s'" "works_inv s'" using allowed_step [OF inv x(2)] by blast
  have "\<exists>w a p. works s w = Some a \<and> works s' = (works s)(w \<mapsto> a\<lparr>req := p\<rparr>) \<and> steps_of (req a) = Suc (steps_of p)"
  proof (cases x)
    case (PoolStart w)
    with x obtain a k where a: "works s w = Some a" "req a = Queued k"
      by (auto simp: work_with_def split: option.splits req_phase.splits)
    show ?thesis using s'(1) PoolStart a
      by (intro exI [of _ w] exI [of _ a] exI [of _ Running]) (auto simp: AsyncWorkCallback_def)
  next
    case (PoolEnd w)
    with x obtain a where a: "works s w = Some a" "req a = Running"
      by (auto simp: work_with_def split: option.splits req_phase.splits)
    show ?thesis using s'(1) PoolEnd a
      by (intro exI [of _ w] exI [of _ a] exI [of _ "Finished 0"]) (auto simp: pool_done_def)
  next
    case (LoopAfter w)
    with x obtain a st where a: "works s w = Some a" "req a = Finished st"
      by (auto simp: work_with_def split: option.splits req_phase.splits)
    show ?thesis using s'(1) LoopAfter a
      by (intro exI [of _ w] exI [of _ a] exI [of _ Idle])
        (auto simp: AsyncAfterWorkCallback_def deref_def split: option.splits)
  qed (use x in simp_all)
  then obtain w a p where w: "works s w = Some a" "works s' = (works s)(w \<mapsto> a\<lparr>req := p\<rparr>)"
    "steps_of (req a) = Suc (steps_of p)" by blast
  have "dom (works s') = dom (works s)" using w by auto
  then show ?thesis using steps_left_upd [OF inv_finite [OF inv] w(1,2)] w(3) s' by auto
qed

lemma background_enabled:
  assumes inv: "works_inv s" and w: "works s w = Some a" "req a \<noteq> Idle"
  shows "\<exists>x. background x \<and> allowed x s"
proof (cases "req a")
  case (Queued k) then show ?thesis using w by (intro exI [of _ "PoolStart w"]) (simp add: work_with_def)
next
  case Running then show ?thesis using w by (intro exI [of _ "PoolEnd w"]) (simp add: work_with_def)
next
  case (Finished st) then show ?thesis using w by (intro exI [of _ "LoopAfter w"]) (simp add: work_with_def)
qed (use w in simp)

lemma steps_left_pos:
  assumes "steps_left s > 0"
  shows "\<exists>w a. works s w = Some a \<and> req a \<noteq> Idle"
proof (rule ccontr)
  assume "\<not> ?thesis"
  then have "steps_left s = 0" unfolding steps_left_def by (intro sum.neutral) auto
  then show False using assms by simp
qed

lemma steps_left_zero:
  assumes inv: "works_inv s" and z: "steps_left s = 0" and g: "engines s e = Some g"
  shows "waiting_requests g = 0"
proof -
  have idle: "req a = Idle" if "works s w = Some a" for w a
  proof -
    have "w \<in> dom (works s)" using that by blast
    then have "steps_of (req (the (works s w))) = 0"
      using z inv_finite [OF inv] unfolding steps_left_def by (simp only: sum_eq_0_iff)
    then show ?thesis using that by (cases "req a") auto
  qed
  have "outstanding e s = {}" using idle by (auto simp: outstanding_def)
  then show ?thesis using inv_waiting [OF inv g] by simp
qed

interpretation works: draining_machine exec_op allowed works_inv no_works background steps_left
proof unfold_locales
  fix s s' x assume "works_inv s" "background x" "allowed x s" "exec_op x s = Returns s'"
  then show "steps_left s' < steps_left s" using background_step by fastforce
next
  fix s assume "works_inv s" "0 < steps_left s"
  then show "\<exists>x. background x \<and> allowed x s" using steps_left_pos background_enabled by blast
qed

lemma steps_left_bound: "steps_left s \<le> 3 * card (dom (works s))"
proof -
  have "steps_left s \<le> (\<Sum>w\<in>dom (works s). 3)" unfolding steps_left_def
  proof (rule sum_mono)
    show "steps_of (req (the (works s w))) \<le> 3" for w by (cases "req (the (works s w))") simp_all
  qed
  then show ?thesis by simp
qed

text \<open>
  C33: From every state the steps of the pool and the loop bring all counters of waiting requests to zero,
  which is what the clean-up of an engine waits for; no sequence of such steps is longer than three for
  each work.
\<close>

theorem async_work_drains:
  assumes "allowed_ops xs no_works" "exec_ops xs no_works = Returns s"
  shows "(\<exists>bs s'. list_all background bs \<and> allowed_ops bs s \<and> exec_ops bs s = Returns s' \<and>
      (\<forall>e g. engines s' e = Some g \<longrightarrow> waiting_requests g = 0)) \<and>
    (\<forall>bs. list_all background bs \<and> allowed_ops bs s \<longrightarrow> length bs \<le> 3 * card (dom (works s)))"
proof -
  have inv: "works_inv s" using works.reached_inv [OF assms] .
  have "length bs \<le> 3 * card (dom (works s))" if "list_all background bs" "allowed_ops bs s" for bs
    using works.bounded [OF inv that] steps_left_bound [of s] by simp
  then show ?thesis using works.drains [OF inv] steps_left_zero by blast
qed

theorem async_work_drains_witness:
  "\<exists>s. exec_ops two_works no_works = Returns s \<and>
    (\<exists>bs s'. list_all background bs \<and> allowed_ops bs s \<and> exec_ops bs s = Returns s' \<and>
      (\<forall>e g. engines s' e = Some g \<longrightarrow> waiting_requests g = 0))"
proof -
  have "\<exists>s. exec_ops two_works no_works = Returns s" using works.never_faults [OF two_works_allowed] by blast
  then obtain s where s: "exec_ops two_works no_works = Returns s" ..
  then show ?thesis using async_work_drains [OF two_works_allowed s] by blast
qed

section \<open>What the checks let through\<close>

text \<open>
  When libuv refuses the request nothing is queued and no completion will come, but
  \<open>napi_queue_async_work\<close> still answers \<open>napi_ok\<close>.
\<close>

theorem queue_failure_reported_ok:
  assumes "works s w = Some a" "engines s (work_engine a) = Some g" "main_context g" "env_id g = work_engineId a"
    and "status \<noteq> 0"
  shows "napi_queue_async_work status (Some (work_engine a)) (Some w) s = Returns (s, napi_ok)"
  using assms by (simp add: napi_queue_async_work_def Queue_def queue_request_def valid_engine_check_def work_loop_def
      Let_def counter_restored)

text \<open>
  The result of the engine check is dropped: a work whose engine was destroyed and is queued with another
  one is found out, and the freed engine is read all the same.
\<close>

theorem engine_check_ignored:
  assumes "works s w = Some a" "engines s (work_engine a) = None" "engines s e = Some g" "\<not> cross_thread_check g"
  shows "valid_engine_check e (work_engine a) (work_engineId a) s = Returns False \<and> Queue status e w s = Fault"
  using assms by (auto simp: Queue_def queue_request_def valid_engine_check_def work_loop_def)

end
