(* ===== verification/Async_Cleanup.thy ===== *)
theory Async_Cleanup
  imports Engine_Hooks Machines
begin

text \<open>
  Asynchronous clean-up hooks (\<open>napi_add_async_cleanup_hook\<close> and the classes behind it in
  native\_engine/native\_node\_api.cpp), on top of the clean-up hooks of the engine: when the engine goes
  down the user's hook is started, the engine counts a waiting request, and it is released when the user
  removes the handle.

  \<open>AsyncCleanupHookInfo\<close> is owned by two shared pointers, its own \<open>self_\<close> and the one in the handle, and
  is freed when both are gone; \<open>self_ref\<close> and \<open>handle_ref\<close> say which are held.  One engine is modelled;
  reading it after it was destroyed, a freed information or a freed handle is \<open>Fault\<close>.
\<close>

section \<open>State\<close>

record hook_info =
  hook_started :: bool
  self_ref :: bool
  handle_ref :: bool
  hook_arg :: addr

record hook_handle =
  handle_info :: addr
  user_hook :: cb
  user_data :: addr
  done_data :: "addr option"

record async_hooks =
  env_core :: engine
  env_alive :: bool
  infos :: "addr \<rightharpoonup> hook_info"
  hook_handles :: "addr \<rightharpoonup> hook_handle"
  user_calls :: "(addr \<times> cb \<times> addr) list"

text \<open>The address of the static function \<open>RunAsyncCleanupHook\<close>.\<close>

definition RUN_ASYNC :: cb where "RUN_ASYNC = 0"

definition with_env :: "async_hooks \<Rightarrow> (engine \<Rightarrow> engine) \<Rightarrow> (async_hooks \<Rightarrow> 'a outcome) \<Rightarrow> 'a outcome" where
  "with_env s f k = (if env_alive s then k (s\<lparr>env_core := f (env_core s)\<rparr>) else Fault)"

text \<open>An information is stored back, or freed when no shared pointer owns it any more.\<close>

definition put_info :: "addr \<Rightarrow> hook_info \<Rightarrow> async_hooks \<Rightarrow> async_hooks" where
  "put_info a i s = s\<lparr>infos := (infos s)(a := if self_ref i \<or> handle_ref i then Some i else None)\<rparr>"

section \<open>Operations\<close>

definition AddEnvironmentCleanupHook :: "addr \<Rightarrow> addr \<Rightarrow> async_hooks \<Rightarrow> async_hooks outcome" where
  "AddEnvironmentCleanupHook arg a s =
     with_env s (\<lambda>e. fst (AddCleanupHook (Some RUN_ASYNC) a e)) (\<lambda>s1.
       Returns (put_info a \<lparr>hook_started = False, self_ref = True, handle_ref = True, hook_arg = arg\<rparr> s1))"

definition FinishAsyncCleanupHook :: "addr \<Rightarrow> async_hooks \<Rightarrow> async_hooks outcome" where
  "FinishAsyncCleanupHook a s =
     deref (infos s a) (\<lambda>i.
     with_env s (\<lambda>e. e\<lparr>requestWaiting := requestWaiting e - 1\<rparr>) (\<lambda>s1.
       Returns (put_info a (i\<lparr>self_ref := False\<rparr>) s1)))"

text \<open>\<open>Hook\<close> notes how to report the end and calls the user's hook.\<close>

definition run_user_hook :: "addr \<Rightarrow> addr \<Rightarrow> async_hooks \<Rightarrow> async_hooks outcome" where
  "run_user_hook h doneData s =
     deref (hook_handles s h) (\<lambda>x.
       Returns (s\<lparr>hook_handles := (hook_handles s)(h \<mapsto> x\<lparr>done_data := Some doneData\<rparr>),
                  user_calls := user_calls s @ [(h, user_hook x, user_data x)]\<rparr>))"

definition RunAsyncCleanupHook :: "addr \<Rightarrow> async_hooks \<Rightarrow> async_hooks outcome" where
  "RunAsyncCleanupHook a s =
     deref (infos s a) (\<lambda>i.
     with_env s (\<lambda>e. e\<lparr>requestWaiting := requestWaiting e + 1\<rparr>) (\<lambda>s1.
       run_user_hook (hook_arg i) a (put_info a (i\<lparr>hook_started := True\<rparr>) s1)))"

text \<open>The handle's shared pointer goes at the end, when the argument is destroyed.\<close>

definition RemoveEnvironmentCleanupHook :: "addr \<Rightarrow> async_hooks \<Rightarrow> async_hooks outcome" where
  "RemoveEnvironmentCleanupHook a s =
     deref (infos s a) (\<lambda>i.
       if hook_started i then Returns (put_info a (i\<lparr>handle_ref := False\<rparr>) s)
       else with_env s (\<lambda>e. fst (RemoveCleanupHook (Some RUN_ASYNC) a e)) (\<lambda>s1.
              Returns (put_info a (i\<lparr>self_ref := False, handle_ref := False\<rparr>) s1)))"

definition delete_hook_handle :: "addr \<Rightarrow> async_hooks \<Rightarrow> async_hooks outcome" where
  "delete_hook_handle h s =
     deref (hook_handles s h) (\<lambda>x.
     obind (RemoveEnvironmentCleanupHook (handle_info x) s) (\<lambda>s1.
     obind (case done_data x of None \<Rightarrow> Returns s1 | Some d \<Rightarrow> FinishAsyncCleanupHook d s1) (\<lambda>s2.
       Returns (s2\<lparr>hook_handles := (hook_handles s2)(h := None)\<rparr>))))"

text \<open>\<open>h\<close> and \<open>a\<close> are what the allocator returns for the handle and the information.\<close>

definition napi_add_async_cleanup_hook ::
    "bool \<Rightarrow> cb option \<Rightarrow> addr \<Rightarrow> addr \<Rightarrow> addr \<Rightarrow> async_hooks \<Rightarrow> (async_hooks \<times> napi_status) outcome" where
  "napi_add_async_cleanup_hook has_env hook arg h a s =
     (if \<not> has_env then Returns (s, napi_invalid_arg)
      else case hook of None \<Rightarrow> Returns (s, napi_invalid_arg)
      | Some f \<Rightarrow> obind (AddEnvironmentCleanupHook h a s) (\<lambda>s1.
          Returns (s1\<lparr>hook_handles := (hook_handles s1)(h \<mapsto>
            \<lparr>handle_info = a, user_hook = f, user_data = arg, done_data = None\<rparr>)\<rparr>, napi_ok)))"

definition napi_remove_async_cleanup_hook :: "addr option \<Rightarrow> async_hooks \<Rightarrow> (async_hooks \<times> napi_status) outcome" where
  "napi_remove_async_cleanup_hook remove_handle s =
     (case remove_handle of None \<Rightarrow> Returns (s, napi_invalid_arg)
      | Some h \<Rightarrow> obind (delete_hook_handle h s) (\<lambda>s1. Returns (s1, napi_ok)))"

definition napi_add_env_cleanup_hook :: "bool \<Rightarrow> cb option \<Rightarrow> addr \<Rightarrow> engine \<Rightarrow> engine \<times> napi_status" where
  "napi_add_env_cleanup_hook has_env f arg e =
     (if \<not> has_env then (e, napi_invalid_arg)
      else if f = None then (e, napi_invalid_arg)
      else (fst (AddCleanupHook f arg e), napi_ok))"

definition napi_remove_env_cleanup_hook :: "bool \<Rightarrow> cb option \<Rightarrow> addr \<Rightarrow> engine \<Rightarrow> engine \<times> napi_status" where
  "napi_remove_env_cleanup_hook has_env f arg e =
     (if \<not> has_env then (e, napi_invalid_arg)
      else if f = None then (e, napi_invalid_arg)
      else (fst (RemoveCleanupHook f arg e), napi_ok))"

section \<open>Sequences of operations\<close>

text \<open>
  The engine runs a hook when it goes down (the body of the loop of \<open>RunCleanupHooks\<close>, which erases the
  entry afterwards); the user removes the handle inside the hook, or at any time later.
\<close>

datatype hook_op =
    AddAsync addr addr cb addr
  | RemoveAsync addr
  | AddPlain cb addr
  | RemovePlain cb addr
  | RunHook addr bool
  | EngineGone

definition erase_entry :: "addr \<Rightarrow> async_hooks \<Rightarrow> async_hooks" where
  "erase_entry a s = s\<lparr>env_core := (env_core s)\<lparr>cleanupHooks := AList.delete a (cleanupHooks (env_core s))\<rparr>\<rparr>"

definition hook_of :: "addr \<Rightarrow> async_hooks \<Rightarrow> cb option option" where
  "hook_of a s = map_option fst (map_of (cleanupHooks (env_core s)) a)"

fun exec_hook :: "hook_op \<Rightarrow> async_hooks \<Rightarrow> async_hooks outcome" where
  "exec_hook (AddAsync h a f d) s = fst_of (napi_add_async_cleanup_hook True (Some f) d h a s)"
| "exec_hook (RemoveAsync h) s = fst_of (napi_remove_async_cleanup_hook (Some h) s)"
| "exec_hook (AddPlain f d) s = with_env s (\<lambda>e. fst (napi_add_env_cleanup_hook True (Some f) d e)) Returns"
| "exec_hook (RemovePlain f d) s = with_env s (\<lambda>e. fst (napi_remove_env_cleanup_hook True (Some f) d e)) Returns"
| "exec_hook (RunHook a at_once) s =
     (if \<not> env_alive s then Fault
      else if hook_of a s = Some (Some RUN_ASYNC)
      then obind (RunAsyncCleanupHook a s) (\<lambda>s1.
           obind (if at_once then deref (infos s1 a) (\<lambda>i. delete_hook_handle (hook_arg i) s1) else Returns s1) (\<lambda>s2.
             Returns (erase_entry a s2)))
      else Returns (erase_entry a s))"
| "exec_hook EngineGone s = Returns (s\<lparr>env_alive := False\<rparr>)"

definition free_addr :: "addr \<Rightarrow> async_hooks \<Rightarrow> bool" where
  "free_addr a s \<longleftrightarrow> infos s a = None \<and> hook_of a s = None"

text \<open>
  What callers may do: the allocator returns free addresses, which no plain hook uses as its key either;
  handles are removed once; the engine is destroyed when no hook is left and no request waits, which is
  when \<open>RunCleanup\<close> returns.
\<close>

fun hook_allowed :: "hook_op \<Rightarrow> async_hooks \<Rightarrow> bool" where
  "hook_allowed (AddAsync h a f d) s = (env_alive s \<and> hook_handles s h = None \<and> free_addr a s)"
| "hook_allowed (RemoveAsync h) s = (hook_handles s h \<noteq> None)"
| "hook_allowed (AddPlain f d) s = (env_alive s \<and> f \<noteq> RUN_ASYNC \<and> infos s d = None)"
| "hook_allowed (RemovePlain f d) s = (env_alive s \<and> f \<noteq> RUN_ASYNC)"
| "hook_allowed (RunHook a at_once) s = (env_alive s \<and> hook_of a s \<noteq> None)"
| "hook_allowed EngineGone s = (cleanupHooks (env_core s) = [] \<and> requestWaiting (env_core s) = 0)"

definition no_hooks :: async_hooks where
  "no_hooks = \<lparr>env_core = init_engine_core True, env_alive = True, infos = Map.empty, hook_handles = Map.empty, user_calls = []\<rparr>"

section \<open>The invariant\<close>

definition running_hooks :: "async_hooks \<Rightarrow> addr set" where
  "running_hooks s = {a. \<exists>i. infos s a = Some i \<and> hook_started i}"

text \<open>
  A handle and its information belong together: before the hook is run the engine holds an entry for it,
  afterwards the handle knows how to report the end.
\<close>

definition handle_ok :: "async_hooks \<Rightarrow> addr \<Rightarrow> hook_handle \<Rightarrow> bool" where
  "handle_ok s h x \<longleftrightarrow> (\<exists>i. infos s (handle_info x) = Some i \<and> hook_arg i = h \<and> self_ref i \<and> handle_ref i \<and>
     done_data x = (if hook_started i then Some (handle_info x) else None) \<and>
     hook_of (handle_info x) s = (if hook_started i then None else Some (Some RUN_ASYNC)))"

definition hooks_inv :: "async_hooks \<Rightarrow> bool" where
  "hooks_inv s \<longleftrightarrow>
     finite (dom (infos s)) \<and> distinct (map fst (cleanupHooks (env_core s))) \<and>
     (\<forall>h x. hook_handles s h = Some x \<longrightarrow> handle_ok s h x) \<and>
     (\<forall>a i. infos s a = Some i \<longrightarrow> (\<exists>x. hook_handles s (hook_arg i) = Some x \<and> handle_info x = a)) \<and>
     (\<forall>a. hook_of a s = Some (Some RUN_ASYNC) \<longrightarrow> infos s a \<noteq> None) \<and>
     requestWaiting (env_core s) = int (card (running_hooks s)) \<and>
     (\<not> env_alive s \<longrightarrow> infos s = Map.empty)"

lemma hooks_inv_facts: assumes "hooks_inv s"
  shows hooks_finite: "finite (dom (infos s))" and hooks_distinct: "distinct (map fst (cleanupHooks (env_core s)))"
    and hooks_handle: "\<And>h x. hook_handles s h = Some x \<Longrightarrow> handle_ok s h x"
    and hooks_info: "\<And>a i. infos s a = Some i \<Longrightarrow> \<exists>x. hook_handles s (hook_arg i) = Some x \<and> handle_info x = a"
    and hooks_entry: "\<And>a. hook_of a s = Some (Some RUN_ASYNC) \<Longrightarrow> infos s a \<noteq> None"
    and hooks_waiting: "requestWaiting (env_core s) = int (card (running_hooks s))"
    and hooks_alive: "\<And>a i. infos s a = Some i \<Longrightarrow> env_alive s"
  using assms unfolding hooks_inv_def by (blast, blast, blast, blast, blast, blast, (cases "env_alive s"; simp))

lemma hooks_invI:
  assumes "finite (dom (infos s))" "distinct (map fst (cleanupHooks (env_core s)))"
    "\<And>h x. hook_handles s h = Some x \<Longrightarrow> handle_ok s h x"
    "\<And>a i. infos s a = Some i \<Longrightarrow> \<exists>x. hook_handles s (hook_arg i) = Some x \<and> handle_info x = a"
    "\<And>a. hook_of a s = Some (Some RUN_ASYNC) \<Longrightarrow> infos s a \<noteq> None"
    "requestWaiting (env_core s) = int (card (running_hooks s))" "\<not> env_alive s \<Longrightarrow> infos s = Map.empty"
  shows "hooks_inv s"
  using assms unfolding hooks_inv_def by blast

lemma hooks_pair:
  assumes "hooks_inv s" "hook_handles s h = Some x"
  shows "\<exists>i. infos s (handle_info x) = Some i \<and> hook_arg i = h \<and> self_ref i \<and> handle_ref i \<and> env_alive s \<and>
     done_data x = (if hook_started i then Some (handle_info x) else None) \<and>
     hook_of (handle_info x) s = (if hook_started i then None else Some (Some RUN_ASYNC))"
  using hooks_handle [OF assms] hooks_alive [OF assms(1)] unfolding handle_ok_def by blast

definition started_at :: "hook_info option \<Rightarrow> int" where
  "started_at i = (case i of None \<Rightarrow> 0 | Some j \<Rightarrow> if hook_started j then 1 else 0)"

text \<open>One information and its handle change together; all others stay.\<close>

lemma pair_step:
  assumes inv: "hooks_inv s" and alive: "env_alive s"
    and i': "infos s' = (infos s)(a := I)" and x': "hook_handles s' = (hook_handles s)(h := X)"
    and own: "\<And>v x. hook_handles s v = Some x \<Longrightarrow> handle_info x = a \<longleftrightarrow> v = h"
    and own': "\<And>v i. infos s v = Some i \<Longrightarrow> hook_arg i = h \<longleftrightarrow> v = a"
    and new: "(I = None) = (X = None)"
      "\<And>i x. I = Some i \<Longrightarrow> X = Some x \<Longrightarrow> handle_info x = a \<and> hook_arg i = h \<and> self_ref i \<and> handle_ref i \<and>
         done_data x = (if hook_started i then Some a else None)"
    and d: "distinct (map fst (cleanupHooks (env_core s')))"
    and hook: "\<And>v. v \<noteq> a \<Longrightarrow> hook_of v s' = hook_of v s"
      "hook_of a s' = (case I of None \<Rightarrow> None | Some i \<Rightarrow> if hook_started i then None else Some (Some RUN_ASYNC))"
    and w: "requestWaiting (env_core s') = requestWaiting (env_core s) + started_at I - started_at (infos s a)"
    and al: "env_alive s' = env_alive s"
  shows "hooks_inv s'"
proof (rule hooks_invI)
  show "finite (dom (infos s'))" using hooks_finite [OF inv] unfolding i' by (cases I) auto
  show "handle_ok s' v x" if v: "hook_handles s' v = Some x" for v x
  proof (cases "v = h")
    case True
    then have X: "X = Some x" using v unfolding x' by simp
    then obtain i where "I = Some i" using new(1) by auto
    then show ?thesis using new(2) [OF _ X] True hook(2) i' by (auto simp: handle_ok_def)
  next
    case False
    then have old: "hook_handles s v = Some x" using v unfolding x' by simp
    then have "handle_info x \<noteq> a" using own False by blast
    then show ?thesis using hooks_handle [OF inv old] hook(1) i' by (auto simp: handle_ok_def)
  qed
  show "\<exists>x. hook_handles s' (hook_arg i) = Some x \<and> handle_info x = v" if v: "infos s' v = Some i" for v i
  proof (cases "v = a")
    case True
    then have I: "I = Some i" using v unfolding i' by simp
    then obtain x where "X = Some x" using new(1) by auto
    then show ?thesis using new(2) [OF I] True x' by auto
  next
    case False
    then have old: "infos s v = Some i" using v unfolding i' by simp
    then have "hook_arg i \<noteq> h" using own' False by blast
    then show ?thesis using hooks_info [OF inv old] x' by auto
  qed
  show "infos s' v \<noteq> None" if "hook_of v s' = Some (Some RUN_ASYNC)" for v
  proof (cases "v = a")
    case True
    then show ?thesis using that hook(2) i' by (cases I) (auto split: if_splits)
  next
    case False
    then show ?thesis using that hook(1) hooks_entry [OF inv, of v] i' by auto
  qed
  have fin: "finite (running_hooks s)"
    by (rule finite_subset [OF _ hooks_finite [OF inv]]) (auto simp: running_hooks_def)
  have r: "running_hooks s' = (if started_at I = 1 then insert a (running_hooks s) else running_hooks s - {a})"
    unfolding running_hooks_def i' started_at_def by (cases I) auto
  have "a \<in> running_hooks s \<longleftrightarrow> started_at (infos s a) = 1"
    by (auto simp: running_hooks_def started_at_def split: option.splits)
  moreover have zo: "started_at y = 0 \<or> started_at y = 1" for y by (auto simp: started_at_def split: option.splits)
  moreover have "started_at I \<noteq> 1 \<Longrightarrow> started_at I = 0" "started_at (infos s a) \<noteq> 1 \<Longrightarrow> started_at (infos s a) = 0"
    using zo by blast+
  moreover have "a \<in> running_hooks s \<Longrightarrow> card (running_hooks s) > 0" using fin card_gt_0_iff by blast
  ultimately show "requestWaiting (env_core s') = int (card (running_hooks s'))"
    using fin w hooks_waiting [OF inv] unfolding r
    by (cases "started_at I = 1"; cases "started_at (infos s a) = 1")
      (auto simp: card_insert_if card_Diff_singleton_if of_nat_diff)
  show "infos s' = Map.empty" if "\<not> env_alive s'" using that alive al by simp
qed (use d in simp)

section \<open>Every operation keeps the invariant\<close>

lemma put_info_simps [simp]:
  "env_core (put_info a i s) = env_core s" "env_alive (put_info a i s) = env_alive s"
  "hook_handles (put_info a i s) = hook_handles s" "user_calls (put_info a i s) = user_calls s"
  "infos (put_info a i s) = (infos s)(a := if self_ref i \<or> handle_ref i then Some i else None)"
  by (simp_all add: put_info_def)

lemma with_env_alive [simp]: "env_alive s \<Longrightarrow> with_env s f k = k (s\<lparr>env_core := f (env_core s)\<rparr>)"
  by (simp add: with_env_def)

lemma hook_of_add:
  "hook_of v (s\<lparr>env_core := fst (AddCleanupHook f a (env_core s))\<rparr>) =
     (if v = a \<and> hook_of a s = None then Some f else hook_of v s)"
  by (auto simp: hook_of_def cleanup.entries_add)

lemma hook_of_cong: "cleanupHooks (env_core s') = cleanupHooks (env_core s) \<Longrightarrow> hook_of v s' = hook_of v s"
  by (simp add: hook_of_def)

lemma hook_of_delete:
  "cleanupHooks (env_core s') = AList.delete a (cleanupHooks (env_core s)) \<Longrightarrow>
     hook_of v s' = (if v = a then None else hook_of v s)"
  by (auto simp: hook_of_def delete_conv')

lemma distinct_delete: "distinct (map fst xs) \<Longrightarrow> distinct (map fst (AList.delete a xs))"
  by (rule distinct_delete)

lemma add_keeps: "requestWaiting (fst (AddCleanupHook f a e)) = requestWaiting e"
  "requestWaiting (fst (RemoveCleanupHook f a e)) = requestWaiting e"
  by (simp_all add: AddCleanupHook_def RemoveCleanupHook_def Let_def split: option.split)

text \<open>The owner of an address, seen from both sides.\<close>

lemma pair_unique:
  assumes inv: "hooks_inv s" and x: "hook_handles s h = Some x"
  shows "hook_handles s v = Some y \<Longrightarrow> handle_info y = handle_info x \<longleftrightarrow> v = h"
    and "infos s v = Some i \<Longrightarrow> hook_arg i = h \<longleftrightarrow> v = handle_info x"
proof -
  obtain j where j: "infos s (handle_info x) = Some j" "hook_arg j = h" using hooks_pair [OF inv x] by blast
  show "handle_info y = handle_info x \<longleftrightarrow> v = h" if y: "hook_handles s v = Some y"
    using hooks_pair [OF inv y] j x y by auto
  show "hook_arg i = h \<longleftrightarrow> v = handle_info x" if i: "infos s v = Some i"
    using hooks_info [OF inv i] j x i by auto
qed

lemma add_step:
  assumes inv: "hooks_inv s" and ok: "hook_allowed (AddAsync h a f d) s"
  shows "\<exists>s'. exec_hook (AddAsync h a f d) s = Returns s' \<and> hooks_inv s'"
proof -
  let ?e = "fst (AddCleanupHook (Some RUN_ASYNC) a (env_core s))"
  let ?i = "\<lparr>hook_started = False, self_ref = True, handle_ref = True, hook_arg = h\<rparr>"
  let ?x = "\<lparr>handle_info = a, user_hook = f, user_data = d, done_data = None\<rparr>"
  let ?s' = "put_info a ?i (s\<lparr>env_core := ?e\<rparr>)\<lparr>hook_handles := (hook_handles s)(h \<mapsto> ?x)\<rparr>"
  from ok have free: "env_alive s" "hook_handles s h = None" "infos s a = None" "hook_of a s = None"
    by (auto simp: free_addr_def)
  have "hooks_inv ?s'"
  proof (rule pair_step [OF inv free(1), where I = "Some ?i" and X = "Some ?x" and h = h and a = a])
    show "distinct (map fst (cleanupHooks (env_core ?s')))"
      using hooks_distinct [OF inv] free(4) by (auto simp: cleanup.entries_add hook_of_def map_of_eq_None_iff)
    show "hook_of v ?s' = hook_of v s" if "v \<noteq> a" for v
      using hook_of_add [of v "Some RUN_ASYNC" a s] that by (simp add: hook_of_def)
    show "hook_of a ?s' = (case Some ?i of None \<Rightarrow> None | Some i \<Rightarrow> if hook_started i then None else Some (Some RUN_ASYNC))"
      using hook_of_add [of a "Some RUN_ASYNC" a s] free(4) by (simp add: hook_of_def)
    show "(handle_info y = a) = (v = h)" if "hook_handles s v = Some y" for v y
      using hooks_pair [OF inv that] free that by auto
    show "(hook_arg i = h) = (v = a)" if "infos s v = Some i" for v i
      using hooks_info [OF inv that] free that by auto
  qed (auto simp: add_keeps started_at_def free)
  then show ?thesis
    using free by (simp add: napi_add_async_cleanup_hook_def AddEnvironmentCleanupHook_def put_info_def)
qed

lemma delete_fresh_steps:
  assumes inv: "hooks_inv s" and x: "hook_handles s h = Some x" and i: "infos s (handle_info x) = Some i" "\<not> hook_started i"
  shows "\<exists>s'. delete_hook_handle h s = Returns s' \<and> hooks_inv s' \<and> env_alive s' = env_alive s \<and>
    infos s' = (infos s)(handle_info x := None) \<and>
    cleanupHooks (env_core s') = AList.delete (handle_info x) (cleanupHooks (env_core s))"
proof -
  let ?a = "handle_info x"
  have p: "env_alive s" "hook_of ?a s = Some (Some RUN_ASYNC)" "done_data x = None" "hook_arg i = h"
    using hooks_pair [OF inv x] i by auto
  let ?e = "fst (RemoveCleanupHook (Some RUN_ASYNC) ?a (env_core s))"
  let ?s' = "put_info ?a (i\<lparr>self_ref := False, handle_ref := False\<rparr>) (s\<lparr>env_core := ?e\<rparr>)
               \<lparr>hook_handles := (hook_handles s)(h := None)\<rparr>"
  have del: "cleanupHooks (env_core ?s') = AList.delete ?a (cleanupHooks (env_core s))"
    using p(2) by (simp add: cleanup.entries_remove hook_of_def)
  have "hooks_inv ?s'"
  proof (rule pair_step [OF inv p(1), where I = None and X = None and h = h and a = ?a])
    show "distinct (map fst (cleanupHooks (env_core ?s')))"
      unfolding del by (rule distinct_delete [OF hooks_distinct [OF inv]])
    show "hook_of v ?s' = hook_of v s" if "v \<noteq> ?a" for v using hook_of_delete [OF del, of v] that by simp
    show "hook_of ?a ?s' = (case None of None \<Rightarrow> None | Some i \<Rightarrow> if hook_started i then None else Some (Some RUN_ASYNC))"
      using hook_of_delete [OF del, of ?a] by simp
    show "requestWaiting (env_core ?s') = requestWaiting (env_core s) + started_at None - started_at (infos s ?a)"
      using i by (simp add: add_keeps started_at_def)
  qed (use pair_unique [OF inv x] in auto)
  moreover have "delete_hook_handle h s = Returns ?s'"
    using p i x by (simp add: delete_hook_handle_def RemoveEnvironmentCleanupHook_def put_info_def)
  ultimately show ?thesis using del by (intro exI [of _ ?s']) simp
qed

lemma delete_started_steps:
  assumes inv: "hooks_inv s" and x: "hook_handles s h = Some x" and i: "infos s (handle_info x) = Some i" "hook_started i"
  shows "\<exists>s'. delete_hook_handle h s = Returns s' \<and> hooks_inv s' \<and> env_alive s' = env_alive s \<and>
    infos s' = (infos s)(handle_info x := None) \<and> cleanupHooks (env_core s') = cleanupHooks (env_core s)"
proof -
  let ?a = "handle_info x"
  have p: "env_alive s" "hook_of ?a s = None" "done_data x = Some ?a" "hook_arg i = h" "self_ref i"
    using hooks_pair [OF inv x] i by auto
  let ?s1 = "put_info ?a (i\<lparr>handle_ref := False\<rparr>) s"
  let ?s2 = "put_info ?a (i\<lparr>self_ref := False, handle_ref := False\<rparr>)
               (?s1\<lparr>env_core := (env_core s)\<lparr>requestWaiting := requestWaiting (env_core s) - 1\<rparr>\<rparr>)"
  let ?s' = "?s2\<lparr>hook_handles := (hook_handles s)(h := None)\<rparr>"
  have h: "hook_of v ?s' = hook_of v s" for v by (rule hook_of_cong) simp
  have "hooks_inv ?s'"
  proof (rule pair_step [OF inv p(1), where I = None and X = None and h = h and a = ?a])
    show "hook_of ?a ?s' = (case None of None \<Rightarrow> None | Some i \<Rightarrow> if hook_started i then None else Some (Some RUN_ASYNC))"
      using h [of ?a] p(2) by simp
    show "requestWaiting (env_core ?s') = requestWaiting (env_core s) + started_at None - started_at (infos s ?a)"
      using i by (simp add: started_at_def)
  qed (use pair_unique [OF inv x] h hooks_distinct [OF inv] in auto)
  moreover have "delete_hook_handle h s = Returns ?s'"
    using p i x by (simp add: delete_hook_handle_def RemoveEnvironmentCleanupHook_def FinishAsyncCleanupHook_def put_info_def)
  ultimately show ?thesis by (intro exI [of _ ?s']) simp
qed

text \<open>The hook is run: its information and handle note it, and the entry goes.\<close>

lemma run_async_step:
  assumes inv: "hooks_inv s" and a: "hook_of a s = Some (Some RUN_ASYNC)"
  shows "\<exists>i x s1. infos s a = Some i \<and> \<not> hook_started i \<and> RunAsyncCleanupHook a s = Returns s1 \<and>
    env_alive s1 = env_alive s \<and> hooks_inv (erase_entry a s1) \<and> hook_handles s1 (hook_arg i) = Some x \<and>
    handle_info x = a \<and> infos s1 = (infos s)(a \<mapsto> i\<lparr>hook_started := True\<rparr>) \<and>
    cleanupHooks (env_core s1) = cleanupHooks (env_core s)"
proof -
  obtain i where i: "infos s a = Some i" using hooks_entry [OF inv a] by auto
  obtain x where x: "hook_handles s (hook_arg i) = Some x" "handle_info x = a" using hooks_info [OF inv i] by auto
  have p: "env_alive s" "\<not> hook_started i" "self_ref i" "handle_ref i"
    using hooks_pair [OF inv x(1)] i x(2) a by (auto split: if_splits)
  let ?h = "hook_arg i"
  let ?s1 = "put_info a (i\<lparr>hook_started := True\<rparr>)
    (s\<lparr>env_core := (env_core s)\<lparr>requestWaiting := requestWaiting (env_core s) + 1\<rparr>\<rparr>)
      \<lparr>hook_handles := (hook_handles s)(?h \<mapsto> x\<lparr>done_data := Some a\<rparr>),
       user_calls := user_calls s @ [(?h, user_hook x, user_data x)]\<rparr>"
  let ?s' = "erase_entry a ?s1"
  have del: "cleanupHooks (env_core ?s') = AList.delete a (cleanupHooks (env_core s))" by (simp add: erase_entry_def)
  have "hooks_inv ?s'"
  proof (rule pair_step [OF inv p(1), where I = "Some (i\<lparr>hook_started := True\<rparr>)" and
      X = "Some (x\<lparr>done_data := Some a\<rparr>)" and h = ?h and a = a])
    show "distinct (map fst (cleanupHooks (env_core ?s')))"
      unfolding del by (rule distinct_delete [OF hooks_distinct [OF inv]])
    show "hook_of v ?s' = hook_of v s" if "v \<noteq> a" for v using hook_of_delete [OF del, of v] that by simp
    show "hook_of a ?s' = (case Some (i\<lparr>hook_started := True\<rparr>) of None \<Rightarrow> None
        | Some i \<Rightarrow> if hook_started i then None else Some (Some RUN_ASYNC))"
      using hook_of_delete [OF del, of a] by simp
  qed (use pair_unique [OF inv x(1)] x p i in \<open>auto simp: erase_entry_def started_at_def\<close>)
  moreover have "RunAsyncCleanupHook a s = Returns ?s1"
    using p i x by (simp add: RunAsyncCleanupHook_def run_user_hook_def put_info_def)
  ultimately show ?thesis using i x p by (intro exI [of _ i] exI [of _ "x\<lparr>done_data := Some a\<rparr>"] exI [of _ ?s1]) simp
qed

lemma erase_delete:
  assumes "hook_handles s h = Some x" "infos s (handle_info x) = Some i" "hook_started i" "done_data x = Some (handle_info x)"
    and "env_alive s" "self_ref i"
  shows "obind (delete_hook_handle h s) (\<lambda>s2. Returns (erase_entry a s2)) = delete_hook_handle h (erase_entry a s)"
  using assms by (simp add: delete_hook_handle_def RemoveEnvironmentCleanupHook_def FinishAsyncCleanupHook_def
    put_info_def erase_entry_def)

lemma plain_step:
  assumes inv: "hooks_inv s" and hs: "infos s' = infos s" "hook_handles s' = hook_handles s" "env_alive s' = env_alive s"
    and w: "requestWaiting (env_core s') = requestWaiting (env_core s)"
    and d: "distinct (map fst (cleanupHooks (env_core s')))"
    and hook: "\<And>v i. infos s v = Some i \<Longrightarrow> hook_of v s' = hook_of v s"
      "\<And>v. hook_of v s' = Some (Some RUN_ASYNC) \<Longrightarrow> hook_of v s = Some (Some RUN_ASYNC)"
  shows "hooks_inv s'"
proof (rule hooks_invI)
  have r: "running_hooks s' = running_hooks s" by (simp add: running_hooks_def hs)
  show "handle_ok s' h x" if "hook_handles s' h = Some x" for h x
    using hooks_handle [OF inv, of h x] that hook(1) unfolding handle_ok_def hs by fastforce
  show "requestWaiting (env_core s') = int (card (running_hooks s'))" using w r hooks_waiting [OF inv] by simp
  show "infos s' = Map.empty" if "\<not> env_alive s'"
  proof (rule ext)
    show "infos s' v = None" for v using hooks_alive [OF inv, of v] that hs by (cases "infos s v") auto
  qed
qed (use inv hooks_finite [OF inv] hooks_info [OF inv] hooks_entry [OF inv] d hook in \<open>auto simp: hs\<close>)

definition hooks_left :: "async_hooks \<Rightarrow> nat" where
  "hooks_left s = length (cleanupHooks (env_core s)) + card (dom (infos s))"

lemma length_delete: "map_of xs a \<noteq> None \<Longrightarrow> length (AList.delete a xs) < length xs"
proof (induction xs)
  case (Cons x xs)
  have "length (AList.delete a xs) \<le> length xs" by (rule length_delete_le)
  then show ?case using Cons by (cases x) auto
qed simp

lemma card_dom_delete: "finite (dom m) \<Longrightarrow> m a = Some i \<Longrightarrow> card (dom (m(a := None))) < card (dom m)"
  using card_Diff1_less [of "dom m" a] by (simp add: domI)

lemma info_hook:
  "hooks_inv s \<Longrightarrow> infos s a = Some i \<Longrightarrow> hook_of a s = (if hook_started i then None else Some (Some RUN_ASYNC))"
  using hooks_info [of s a i] hooks_pair by fastforce

lemma run_hook_step:
  assumes inv: "hooks_inv s" and ok: "hook_allowed (RunHook a at_once) s"
  shows "\<exists>s'. exec_hook (RunHook a at_once) s = Returns s' \<and> hooks_inv s' \<and> hooks_left s' < hooks_left s"
proof (cases "hook_of a s = Some (Some RUN_ASYNC)")
  case True
  then obtain i x s1 where r: "infos s a = Some i" "\<not> hook_started i" "RunAsyncCleanupHook a s = Returns s1"
    "hooks_inv (erase_entry a s1)" "hook_handles s1 (hook_arg i) = Some x" "handle_info x = a"
    "infos s1 = (infos s)(a \<mapsto> i\<lparr>hook_started := True\<rparr>)" "cleanupHooks (env_core s1) = cleanupHooks (env_core s)"
    "env_alive s1 = env_alive s"
    using run_async_step [OF inv True] by blast
  let ?s1 = "erase_entry a s1"
  have e: "hook_handles ?s1 = hook_handles s1" "infos ?s1 = infos s1"
    "cleanupHooks (env_core ?s1) = AList.delete a (cleanupHooks (env_core s))"
    by (simp_all add: erase_entry_def r(8))
  have d: "dom (infos s1) = dom (infos s)" using r(1) by (auto simp: r(7))
  have len: "length (AList.delete a (cleanupHooks (env_core s))) < length (cleanupHooks (env_core s))"
    using True by (intro length_delete) (auto simp: hook_of_def)
  show ?thesis
  proof (cases at_once)
    case True
    have x: "hook_handles ?s1 (hook_arg i) = Some x" "infos ?s1 (handle_info x) = Some (i\<lparr>hook_started := True\<rparr>)"
      using r(5,6,7) by (simp_all add: e)
    have p: "done_data x = Some (handle_info x)" "self_ref i" using hooks_pair [OF r(4) x(1)] x(2) by auto
    obtain s2 where s2: "delete_hook_handle (hook_arg i) ?s1 = Returns s2" "hooks_inv s2"
      "infos s2 = (infos ?s1)(handle_info x := None)" "cleanupHooks (env_core s2) = cleanupHooks (env_core ?s1)"
      using delete_started_steps [OF r(4) x] by auto
    have "obind (delete_hook_handle (hook_arg i) s1) (\<lambda>s2. Returns (erase_entry a s2)) = Returns s2"
      using erase_delete [of s1 "hook_arg i" x "i\<lparr>hook_started := True\<rparr>" a] r p ok s2(1) by simp
    then have "exec_hook (RunHook a at_once) s = Returns s2"
      using True \<open>hook_of a s = _\<close> ok r by simp
    moreover have "card (dom (infos s2)) < card (dom (infos s))"
      using card_dom_delete [of "infos ?s1" "handle_info x"] x(2) hooks_finite [OF r(4)] by (simp add: s2(3) e(2) d)
    ultimately show ?thesis using s2(2,4) len by (auto simp: hooks_left_def e)
  next
    case False
    have "hooks_left ?s1 < hooks_left s" unfolding hooks_left_def e d using len by simp
    then show ?thesis using False \<open>hook_of a s = _\<close> ok r by auto
  qed
next
  case False
  let ?s' = "erase_entry a s"
  have del: "cleanupHooks (env_core ?s') = AList.delete a (cleanupHooks (env_core s))" by (simp add: erase_entry_def)
  have "hooks_inv ?s'"
  proof (rule plain_step [OF inv])
    show "distinct (map fst (cleanupHooks (env_core ?s')))"
      unfolding del by (rule distinct_delete [OF hooks_distinct [OF inv]])
    show "hook_of v ?s' = hook_of v s" if "infos s v = Some i" for v i
      using info_hook [OF inv that] False ok by (auto simp: hook_of_delete [OF del] split: if_splits)
    show "hook_of v s = Some (Some RUN_ASYNC)" if "hook_of v ?s' = Some (Some RUN_ASYNC)" for v
      using that by (auto simp: hook_of_delete [OF del] split: if_splits)
  qed (simp_all add: erase_entry_def)
  moreover have "length (AList.delete a (cleanupHooks (env_core s))) < length (cleanupHooks (env_core s))"
    using ok by (intro length_delete) (auto simp: hook_of_def)
  ultimately show ?thesis using False ok by (auto simp: hooks_left_def erase_entry_def)
qed

lemma remove_step:
  assumes inv: "hooks_inv s" and ok: "hook_allowed (RemoveAsync h) s"
  shows "\<exists>s'. exec_hook (RemoveAsync h) s = Returns s' \<and> hooks_inv s' \<and> hooks_left s' < hooks_left s"
proof -
  obtain x where x: "hook_handles s h = Some x" using ok by auto
  obtain i where i: "infos s (handle_info x) = Some i" using hooks_pair [OF inv x] by blast
  have c: "card (dom ((infos s)(handle_info x := None))) < card (dom (infos s))"
    by (rule card_dom_delete [OF hooks_finite [OF inv] i])
  have l: "length (AList.delete v (cleanupHooks (env_core s))) \<le> length (cleanupHooks (env_core s))" for v
    by (rule length_delete_le)
  obtain s' where s': "delete_hook_handle h s = Returns s'" "hooks_inv s'" "infos s' = (infos s)(handle_info x := None)"
    "length (cleanupHooks (env_core s')) \<le> length (cleanupHooks (env_core s))"
    using delete_started_steps [OF inv x i] delete_fresh_steps [OF inv x i] l by (cases "hook_started i") auto
  then have "hooks_left s' < hooks_left s" unfolding hooks_left_def s'(3) using c s'(4) by linarith
  then show ?thesis using s' by (auto simp: napi_remove_async_cleanup_hook_def)
qed

lemma plain_steps:
  assumes inv: "hooks_inv s"
  shows "hook_allowed (AddPlain f d) s \<Longrightarrow> \<exists>s'. exec_hook (AddPlain f d) s = Returns s' \<and> hooks_inv s'"
    and "hook_allowed (RemovePlain f d) s \<Longrightarrow> \<exists>s'. exec_hook (RemovePlain f d) s = Returns s' \<and> hooks_inv s'"
proof -
  assume ok: "hook_allowed (AddPlain f d) s"
  let ?s' = "s\<lparr>env_core := fst (AddCleanupHook (Some f) d (env_core s))\<rparr>"
  have "hooks_inv ?s'"
  proof (rule plain_step [OF inv])
    show "distinct (map fst (cleanupHooks (env_core ?s')))"
      using hooks_distinct [OF inv] by (auto simp: cleanup.entries_add map_of_eq_None_iff)
    show "hook_of v ?s' = hook_of v s" if "infos s v = Some i" for v i
      using that ok hook_of_add [of v "Some f" d s] by auto
    show "hook_of v s = Some (Some RUN_ASYNC)" if "hook_of v ?s' = Some (Some RUN_ASYNC)" for v
      using that ok hook_of_add [of v "Some f" d s] by (auto split: if_splits)
  qed (simp_all add: add_keeps)
  then show "\<exists>s'. exec_hook (AddPlain f d) s = Returns s' \<and> hooks_inv s'" using ok by (simp add: napi_add_env_cleanup_hook_def)
next
  assume ok: "hook_allowed (RemovePlain f d) s"
  let ?s' = "s\<lparr>env_core := fst (RemoveCleanupHook (Some f) d (env_core s))\<rparr>"
  have h: "hook_of v ?s' = (if v = d \<and> hook_of d s = Some (Some f) then None else hook_of v s)" for v
    by (auto simp: hook_of_def cleanup.entries_remove delete_conv')
  have "hooks_inv ?s'"
  proof (rule plain_step [OF inv])
    show "distinct (map fst (cleanupHooks (env_core ?s')))"
      using hooks_distinct [OF inv] distinct_delete by (auto simp: cleanup.entries_remove)
    show "hook_of v ?s' = hook_of v s" if "infos s v = Some i" for v i
      using info_hook [OF inv that] ok h by (auto split: if_splits)
    show "hook_of v s = Some (Some RUN_ASYNC)" if "hook_of v ?s' = Some (Some RUN_ASYNC)" for v
      using that h by (auto split: if_splits)
  qed (simp_all add: add_keeps)
  then show "\<exists>s'. exec_hook (RemovePlain f d) s = Returns s' \<and> hooks_inv s'"
    using ok by (simp add: napi_remove_env_cleanup_hook_def)
qed

lemma gone_step:
  assumes inv: "hooks_inv s" and ok: "hook_allowed EngineGone s"
  shows "hooks_inv (s\<lparr>env_alive := False\<rparr>)"
proof -
  have "finite (running_hooks s)"
    by (rule finite_subset [OF _ hooks_finite [OF inv]]) (auto simp: running_hooks_def)
  then have none: "running_hooks s = {}" using ok hooks_waiting [OF inv] by simp
  have e: "infos s = Map.empty"
  proof (rule ext, rule ccontr)
    fix a assume "infos s a \<noteq> None"
    then obtain i where i: "infos s a = Some i" by auto
    then have "hook_started i" using info_hook [OF inv i] ok by (auto simp: hook_of_def split: if_splits)
    then show False using none i by (auto simp: running_hooks_def)
  qed
  have h: "hook_handles s h = None" for h using hooks_pair [OF inv, of h] e by (cases "hook_handles s h") auto
  show ?thesis using inv ok by (auto simp: hooks_inv_def e h running_hooks_def hook_of_def)
qed

lemma hook_step:
  assumes "hooks_inv s" "hook_allowed x s"
  shows "\<exists>s'. exec_hook x s = Returns s' \<and> hooks_inv s'"
proof (cases x)
  case (AddAsync h a f d) then show ?thesis using assms add_step by blast
next
  case (RemoveAsync h) then show ?thesis using assms remove_step by blast
next
  case (AddPlain f d) then show ?thesis using assms plain_steps(1) by blast
next
  case (RemovePlain f d) then show ?thesis using assms plain_steps(2) by blast
next
  case (RunHook a b) then show ?thesis using assms run_hook_step by blast
next
  case EngineGone then show ?thesis using assms gone_step by simp
qed

primrec winding_down :: "hook_op \<Rightarrow> bool" where
  "winding_down (AddAsync h a f d) = False"
| "winding_down (RemoveAsync h) = True"
| "winding_down (AddPlain f d) = False"
| "winding_down (RemovePlain f d) = False"
| "winding_down (RunHook a at_once) = True"
| "winding_down EngineGone = False"

lemma no_hooks_inv: "hooks_inv no_hooks"
  by (simp add: hooks_inv_def no_hooks_def init_engine_core_def running_hooks_def hook_of_def)

lemma hook_enabled:
  assumes inv: "hooks_inv s" and left: "hooks_left s > 0" and alive: "env_alive s"
  shows "\<exists>x. winding_down x \<and> hook_allowed x s"
proof (cases "cleanupHooks (env_core s)")
  case (Cons e es)
  then have "hook_of (fst e) s \<noteq> None" by (cases e) (simp add: hook_of_def)
  then show ?thesis using alive by (intro exI [of _ "RunHook (fst e) False"]) simp
next
  case Nil
  then have "card (dom (infos s)) > 0" using left by (simp add: hooks_left_def)
  then obtain a where "a \<in> dom (infos s)" by (metis card_gt_0_iff ex_in_conv)
  then obtain i where "infos s a = Some i" by blast
  then show ?thesis using hooks_info [OF inv] by (intro exI [of _ "RemoveAsync (hook_arg i)"]) fastforce
qed

interpretation async_hook: guarded_machine exec_hook hook_allowed hooks_inv no_hooks
  by unfold_locales (use no_hooks_inv hook_step in auto)

text \<open>Before the engine is gone, running the hooks and removing the handles uses up what is registered.\<close>

definition teardown_inv :: "async_hooks \<Rightarrow> bool" where
  "teardown_inv s \<longleftrightarrow> hooks_inv s \<and> env_alive s"

lemma winding_alive:
  assumes inv: "hooks_inv s" and x: "winding_down x" "hook_allowed x s" "env_alive s" and r: "exec_hook x s = Returns s'"
  shows "hooks_inv s' \<and> env_alive s' \<and> hooks_left s' < hooks_left s"
proof (cases x)
  case (RemoveAsync h)
  obtain y where y: "hook_handles s h = Some y" using x RemoveAsync by auto
  obtain i where i: "infos s (handle_info y) = Some i" using hooks_pair [OF inv y] by blast
  obtain s1 where "delete_hook_handle h s = Returns s1" "env_alive s1 = env_alive s"
    using delete_started_steps [OF inv y i] delete_fresh_steps [OF inv y i] by (cases "hook_started i") auto
  then have "env_alive s'" using r x(3) RemoveAsync by (simp add: napi_remove_async_cleanup_hook_def)
  then show ?thesis using remove_step [OF inv, of h] x RemoveAsync r by auto
next
  case (RunHook a b)
  have ok: "hooks_inv s'" "hooks_left s' < hooks_left s" using run_hook_step [OF inv x(2) [unfolded RunHook]] r RunHook by auto
  have "env_alive s'"
  proof (cases "hook_of a s = Some (Some RUN_ASYNC)")
    case True
    then obtain i z s1 where s1: "RunAsyncCleanupHook a s = Returns s1" "env_alive s1 = env_alive s"
      using run_async_step [OF inv True] by blast
    show ?thesis using r RunHook True s1 x(3)
      by (cases "infos s1 a"; cases b) (auto simp: erase_entry_def delete_hook_handle_def RemoveEnvironmentCleanupHook_def
        FinishAsyncCleanupHook_def deref_def with_env_def split: option.splits if_splits)
  next
    case False
    then show ?thesis using r RunHook x(3) by (auto simp: erase_entry_def)
  qed
  then show ?thesis using ok by simp
qed (use x in simp_all)

interpretation teardown: draining_machine exec_hook "\<lambda>x s. winding_down x \<and> hook_allowed x s" teardown_inv no_hooks
    winding_down hooks_left
proof unfold_locales
  show "teardown_inv no_hooks" using no_hooks_inv by (simp add: teardown_inv_def no_hooks_def)
next
  fix s x assume "teardown_inv s" "winding_down x \<and> hook_allowed x s"
  then show "\<exists>s'. exec_hook x s = Returns s' \<and> teardown_inv s'"
    using hook_step winding_alive unfolding teardown_inv_def by blast
next
  fix s s' x assume "teardown_inv s" "winding_down x" "winding_down x \<and> hook_allowed x s" "exec_hook x s = Returns s'"
  then show "hooks_left s' < hooks_left s" using winding_alive unfolding teardown_inv_def by blast
next
  fix s assume "teardown_inv s" "0 < hooks_left s"
  then show "\<exists>x. winding_down x \<and> winding_down x \<and> hook_allowed x s" using hook_enabled unfolding teardown_inv_def by blast
qed

section \<open>Properties\<close>

text \<open>
  Asynchronous clean-up hooks never touch freed memory, in any order of registration, removal (also
  from inside the hook) and shutdown: every live handle has exactly one live information and every
  information one handle, so nothing leaks, and the number of waiting requests the hooks hold is the
  number of hooks that were started and not yet removed.
\<close>

theorem async_hooks_counted:
  assumes "all_allowed hook_allowed exec_hook xs no_hooks"
  shows "\<exists>s. run_all exec_hook xs no_hooks = Returns s \<and>
    requestWaiting (env_core s) = int (card (running_hooks s)) \<and>
    (\<forall>h x. hook_handles s h = Some x \<longrightarrow> (\<exists>i. infos s (handle_info x) = Some i \<and> hook_arg i = h)) \<and>
    (\<forall>a i. infos s a = Some i \<longrightarrow> (\<exists>x. hook_handles s (hook_arg i) = Some x \<and> handle_info x = a))"
proof -
  obtain s where s: "run_all exec_hook xs no_hooks = Returns s" "hooks_inv s"
    using async_hook.never_faults [OF assms] by blast
  have "\<exists>i. infos s (handle_info x) = Some i \<and> hook_arg i = h" if "hook_handles s h = Some x" for h x
    using hooks_pair [OF s(2) that] by blast
  then show ?thesis using s hooks_waiting [OF s(2)] hooks_info [OF s(2)] by blast
qed

definition some_hooks :: "hook_op list" where
  "some_hooks = [AddAsync 10 20 5 1, AddPlain 6 2, AddAsync 11 21 5 3, AddAsync 12 22 5 4, RemoveAsync 11,
     RunHook 22 True, RunHook 20 False]"

lemmas hook_eval = with_env_def hook_of_def free_addr_def put_info_def erase_entry_def napi_add_async_cleanup_hook_def
  napi_remove_async_cleanup_hook_def delete_hook_handle_def RemoveEnvironmentCleanupHook_def FinishAsyncCleanupHook_def
  AddEnvironmentCleanupHook_def napi_add_env_cleanup_hook_def AddCleanupHook_def RemoveCleanupHook_def
  RunAsyncCleanupHook_def run_user_hook_def RUN_ASYNC_def Let_def

lemma some_hooks_allowed: "all_allowed hook_allowed exec_hook some_hooks no_hooks"
  by (simp add: some_hooks_def no_hooks_def init_engine_core_def hook_eval)

theorem async_hooks_counted_witness:
  "\<exists>s. run_all exec_hook some_hooks no_hooks = Returns s \<and>
    requestWaiting (env_core s) = int (card (running_hooks s)) \<and>
    (\<forall>h x. hook_handles s h = Some x \<longrightarrow> (\<exists>i. infos s (handle_info x) = Some i \<and> hook_arg i = h)) \<and>
    (\<forall>a i. infos s a = Some i \<longrightarrow> (\<exists>x. hook_handles s (hook_arg i) = Some x \<and> handle_info x = a))"
  by (rule async_hooks_counted [OF some_hooks_allowed])

text \<open>
  The shutdown of an engine with asynchronous hooks ends: as long as a hook or a handle is left, a hook
  can be run or a handle removed; each such step leaves less, and when none is left the engine has no hook
  and no waiting request, so it can be destroyed, and every information has been freed.
\<close>

theorem async_hooks_wind_down:
  assumes "all_allowed hook_allowed exec_hook xs no_hooks" "run_all exec_hook xs no_hooks = Returns s" "env_alive s"
  shows "\<exists>ys s'. list_all winding_down ys \<and> length ys \<le> hooks_left s \<and> run_all exec_hook ys s = Returns s' \<and>
    infos s' = Map.empty \<and> hook_handles s' = Map.empty \<and> hook_allowed EngineGone s'"
proof -
  have inv: "teardown_inv s" using async_hook.reached_inv [OF assms(1,2)] assms(3) by (simp add: teardown_inv_def)
  obtain ys s' where ys: "list_all winding_down ys" "run_all exec_hook ys s = Returns s'" "teardown_inv s'" "hooks_left s' = 0"
    "all_allowed (\<lambda>x s. winding_down x \<and> hook_allowed x s) exec_hook ys s"
    using teardown.drains [OF inv] by blast
  have i': "hooks_inv s'" using ys(3) by (simp add: teardown_inv_def)
  have e: "infos s' = Map.empty" "cleanupHooks (env_core s') = []"
    using ys(4) hooks_finite [OF i'] by (simp_all add: hooks_left_def)
  have h: "hook_handles s' h = None" for h using hooks_pair [OF i', of h] e by (cases "hook_handles s' h") auto
  have "running_hooks s' = {}" by (simp add: running_hooks_def e)
  then have "requestWaiting (env_core s') = 0" using hooks_waiting [OF i'] by simp
  moreover have "length ys \<le> hooks_left s" using teardown.bounded [OF inv ys(1,5)] .
  ultimately show ?thesis using ys e h by (intro exI [of _ ys] exI [of _ s']) auto
qed

theorem async_hooks_wind_down_witness:
  "\<exists>s ys s'. run_all exec_hook some_hooks no_hooks = Returns s \<and> list_all winding_down ys \<and> length ys \<le> hooks_left s \<and>
    run_all exec_hook ys s = Returns s' \<and> infos s' = Map.empty \<and> hook_handles s' = Map.empty \<and> hook_allowed EngineGone s'"
proof -
  obtain s where s: "run_all exec_hook some_hooks no_hooks = Returns s"
    using async_hook.never_faults [OF some_hooks_allowed] by blast
  have "(case run_all exec_hook some_hooks no_hooks of Returns s \<Rightarrow> env_alive s | _ \<Rightarrow> False)"
    by (simp add: some_hooks_def no_hooks_def init_engine_core_def hook_eval)
  then have "env_alive s" using s by simp
  then show ?thesis using async_hooks_wind_down [OF some_hooks_allowed s] s by blast
qed

section \<open>A key that is taken\<close>

text \<open>
  The answer of \<open>AddCleanupHook\<close> is dropped: when the address of the new information is already the key of
  a plain hook (whose data was freed without removing it), the asynchronous hook is accepted with
  \<open>napi_ok\<close> but is not registered and will never be called.
\<close>

theorem async_hook_silently_lost:
  assumes "env_alive s" "hook_of a s = Some (Some g)" "g \<noteq> RUN_ASYNC"
  shows "\<exists>s'. napi_add_async_cleanup_hook True (Some f) d h a s = Returns (s', napi_ok) \<and>
    hook_of a s' = Some (Some g) \<and> hook_handles s' h \<noteq> None"
proof -
  have "map_of (cleanupHooks (env_core s)) a \<noteq> None" using assms(2) by (auto simp: hook_of_def)
  then show ?thesis using assms
    by (auto simp: napi_add_async_cleanup_hook_def AddEnvironmentCleanupHook_def hook_of_def put_info_def cleanup.entries_add)
qed

end
