(* ===== verification/Napi_Call.thy ===== *)
theory Napi_Call
  imports Machines
begin

text \<open>
  The frame of a call of the native API (the macros of native\_engine/native\_api\_internal.h and
  native\_api.cpp): which checks come first, what they leave in the last error, and what becomes of an
  exception that is pending when the call returns.

  A check is a function of the rest of the call.  A call returns the state, the status and what was
  written through its result pointer (\<open>None\<close>: nothing was written).  The state of a component extends
  \<open>call_env\<close>.  What the VM answers during a call is the record \<open>vm_call\<close>.
\<close>

section \<open>State\<close>

text \<open>Whether \<open>lastException_\<close> holds an exception, and \<open>lastError_.errorCode\<close>.\<close>

record call_env =
  lastException :: bool
  lastError :: napi_status

text \<open>
  \<open>switch_answer\<close> is what \<open>SwitchContext\<close> returned, \<open>None\<close> when the context did not have to be switched;
  \<open>caught\<close> whether an exception is pending in the VM when the call returns.
\<close>

record vm_call =
  switch_answer :: "napi_status option"
  caught :: bool

definition quiet :: vm_call where
  "quiet = \<lparr>switch_answer = None, caught = False\<rparr>"

named_theorems api_defs \<open>the frame of a call of the native API\<close>

text \<open>The largest \<open>int\<close>, and the length that means \<open>up to the end of the string\<close>.\<close>

definition INT_MAX :: nat where "INT_MAX = 2 ^ 31 - 1"
definition NAPI_AUTO_LENGTH :: u64 where "NAPI_AUTO_LENGTH = - 1"

section \<open>Checks\<close>

definition napi_set_last_error ::
    "napi_status \<Rightarrow> 'o option \<Rightarrow> 'a call_env_scheme \<Rightarrow> ('a call_env_scheme \<times> napi_status \<times> 'o option) outcome" where
  "napi_set_last_error st out s = Returns (s\<lparr>lastError := st\<rparr>, st, out)"

definition napi_clear_last_error ::
    "'o option \<Rightarrow> 'a call_env_scheme \<Rightarrow> ('a call_env_scheme \<times> napi_status \<times> 'o option) outcome" where
  "napi_clear_last_error out s = Returns (s\<lparr>lastError := napi_ok\<rparr>, napi_ok, out)"

definition RETURN_STATUS_IF_FALSE ::
    "bool \<Rightarrow> napi_status \<Rightarrow> ('a call_env_scheme \<Rightarrow> ('a call_env_scheme \<times> napi_status \<times> 'o option) outcome) \<Rightarrow>
     'a call_env_scheme \<Rightarrow> ('a call_env_scheme \<times> napi_status \<times> 'o option) outcome" where
  "RETURN_STATUS_IF_FALSE condition st rest s = (if \<not> condition then napi_set_last_error st None s else rest s)"

definition CHECK_ENV ::
    "bool \<Rightarrow> ('a call_env_scheme \<Rightarrow> ('a call_env_scheme \<times> napi_status \<times> 'o option) outcome) \<Rightarrow>
     'a call_env_scheme \<Rightarrow> ('a call_env_scheme \<times> napi_status \<times> 'o option) outcome" where
  "CHECK_ENV env rest s = (if \<not> env then Returns (s, napi_invalid_arg, None) else rest s)"

definition CHECK_ARG ::
    "'b option \<Rightarrow> ('a call_env_scheme \<Rightarrow> ('a call_env_scheme \<times> napi_status \<times> 'o option) outcome) \<Rightarrow>
     'a call_env_scheme \<Rightarrow> ('a call_env_scheme \<times> napi_status \<times> 'o option) outcome" where
  "CHECK_ARG arg = RETURN_STATUS_IF_FALSE (arg \<noteq> None) napi_invalid_arg"

text \<open>
  \<open>NAPI_PREAMBLE\<close> opens a \<open>TryCatch\<close>, whose destructor keeps a pending exception in \<open>lastException_\<close>,
  on every way out of the call.
\<close>

definition NAPI_PREAMBLE ::
    "bool \<Rightarrow> vm_call \<Rightarrow> ('a call_env_scheme \<Rightarrow> ('a call_env_scheme \<times> napi_status \<times> 'o option) outcome) \<Rightarrow>
     'a call_env_scheme \<Rightarrow> ('a call_env_scheme \<times> napi_status \<times> 'o option) outcome" where
  "NAPI_PREAMBLE env c rest =
     CHECK_ENV env (\<lambda>s.
       RETURN_STATUS_IF_FALSE (\<not> lastException s) napi_pending_exception (\<lambda>s.
         obind (rest (s\<lparr>lastError := napi_ok\<rparr>)) (\<lambda>(s', r).
           Returns (if caught c then s'\<lparr>lastException := True\<rparr> else s', r))) s)"

definition GET_RETURN_STATUS ::
    "vm_call \<Rightarrow> 'o option \<Rightarrow> 'a call_env_scheme \<Rightarrow> ('a call_env_scheme \<times> napi_status \<times> 'o option) outcome" where
  "GET_RETURN_STATUS c out s =
     (if \<not> caught c then Returns (s, napi_ok, out) else napi_set_last_error napi_pending_exception out s)"

text \<open>
  The two macros that enter the context of the engine: the first only gives up on a generic failure,
  the second on any failure.
\<close>

definition SWITCH_CONTEXT ::
    "vm_call \<Rightarrow> ('a call_env_scheme \<Rightarrow> ('a call_env_scheme \<times> napi_status \<times> 'o option) outcome) \<Rightarrow>
     'a call_env_scheme \<Rightarrow> ('a call_env_scheme \<times> napi_status \<times> 'o option) outcome" where
  "SWITCH_CONTEXT c rest s =
     (case switch_answer c of None \<Rightarrow> rest s
      | Some status \<Rightarrow> if status = napi_generic_failure then napi_set_last_error status None s else rest s)"

definition SWITCH_CONTEXT_HOTPOT_OPT ::
    "vm_call \<Rightarrow> ('a call_env_scheme \<Rightarrow> ('a call_env_scheme \<times> napi_status \<times> 'o option) outcome) \<Rightarrow>
     'a call_env_scheme \<Rightarrow> ('a call_env_scheme \<times> napi_status \<times> 'o option) outcome" where
  "SWITCH_CONTEXT_HOTPOT_OPT c rest s =
     (case switch_answer c of None \<Rightarrow> rest s
      | Some status \<Rightarrow> if status \<noteq> napi_ok then napi_set_last_error status None s else rest s)"

lemmas api_frame [api_defs] = napi_set_last_error_def napi_clear_last_error_def RETURN_STATUS_IF_FALSE_def
  CHECK_ENV_def CHECK_ARG_def NAPI_PREAMBLE_def GET_RETURN_STATUS_def SWITCH_CONTEXT_def
  SWITCH_CONTEXT_HOTPOT_OPT_def

end
