(* ===== verification/Object_Wrap.thy ===== *)
theory Object_Wrap
  imports Reference_Lifecycle Napi_Call
begin

text \<open>
  Native objects wrapped in JS objects, and the reference functions of the native API
  (native\_engine/native\_api.cpp, the tagged variants of native\_engine/native\_node\_api.cpp): a wrapped
  object has a property whose value is a wrapper object, and a field of that object points to the
  reference that owns the native pointer.

  JS objects belong to the VM; of an object the model keeps its prototypes (nearest first), its own
  wrapper property, whether it is a function, and whether it is frozen.  \<open>Has\<close> and \<open>Get\<close> follow the prototypes; \<open>DefineProperty\<close>
  and \<open>Delete\<close> act on the object itself and do nothing when it is frozen.  A value that is no key of \<open>objects\<close> is not
  an object.  The address of a new reference is an argument.  Reading a freed reference is \<open>Fault\<close>.
\<close>

section \<open>State\<close>

text \<open>The fields are native pointers: the reference, and the type tag in the tagged variants.\<close>

datatype js_property = Wrapper "addr option list" | Plain

record js_object =
  protos :: "nat list"
  own_wrapper :: "js_property option"
  is_function :: bool
  frozen :: bool

record wrap_env = call_env +
  refs :: ark_engine
  objects :: "nat \<rightharpoonup> js_object"
  type_tags :: "addr \<rightharpoonup> u64 \<times> u64"

section \<open>What the VM does\<close>

fun first_wrapper :: "(nat \<rightharpoonup> js_object) \<Rightarrow> nat list \<Rightarrow> js_property option" where
  "first_wrapper h [] = None"
| "first_wrapper h (u # us) = (case Option.bind (h u) own_wrapper of Some p \<Rightarrow> Some p | None \<Rightarrow> first_wrapper h us)"

definition js_chain :: "nat \<Rightarrow> wrap_env \<Rightarrow> nat list" where
  "js_chain v s = v # (case objects s v of None \<Rightarrow> [] | Some x \<Rightarrow> protos x)"

definition js_Get :: "nat \<Rightarrow> wrap_env \<Rightarrow> js_property option" where
  "js_Get v s = first_wrapper (objects s) (js_chain v s)"

definition js_Has :: "nat \<Rightarrow> wrap_env \<Rightarrow> bool" where
  "js_Has v s \<longleftrightarrow> js_Get v s \<noteq> None"

definition put_own :: "nat \<Rightarrow> js_property option \<Rightarrow> wrap_env \<Rightarrow> wrap_env" where
  "put_own v p s =
     (case objects s v of None \<Rightarrow> s
      | Some x \<Rightarrow> if frozen x then s else s\<lparr>objects := (objects s)(v \<mapsto> x\<lparr>own_wrapper := p\<rparr>)\<rparr>)"

definition js_DefineProperty :: "nat \<Rightarrow> js_property \<Rightarrow> wrap_env \<Rightarrow> wrap_env" where
  "js_DefineProperty v p = put_own v (Some p)"

definition js_Delete :: "nat \<Rightarrow> wrap_env \<Rightarrow> wrap_env" where
  "js_Delete v = put_own v None"

definition IsObject :: "nat \<Rightarrow> wrap_env \<Rightarrow> bool" where
  "IsObject v s \<longleftrightarrow> (case objects s v of None \<Rightarrow> False | Some x \<Rightarrow> \<not> is_function x)"

definition IsFunction :: "nat \<Rightarrow> wrap_env \<Rightarrow> bool" where
  "IsFunction v s \<longleftrightarrow> (case objects s v of None \<Rightarrow> False | Some x \<Rightarrow> is_function x)"

text \<open>\<open>GetNativePointerField\<close>: null out of range.\<close>

definition native_field :: "addr option list \<Rightarrow> nat \<Rightarrow> addr option" where
  "native_field fs i = (if i < length fs then fs ! i else None)"

type_synonym 'o wrap_result = "(wrap_env \<times> napi_status \<times> 'o option) outcome"

definition CHECK_AND_CONVERT_TO_OBJECT :: "nat \<Rightarrow> (wrap_env \<Rightarrow> 'o wrap_result) \<Rightarrow> wrap_env \<Rightarrow> 'o wrap_result" where
  "CHECK_AND_CONVERT_TO_OBJECT v rest s =
     RETURN_STATUS_IF_FALSE (IsObject v s \<or> IsFunction v s) napi_object_expected rest s"

section \<open>Wrapping\<close>

text \<open>
  The part the variants share: a reference that the caller owns (and counts) when he asks for it, one
  that the runtime owns and the collector deletes otherwise; then the wrapper.
\<close>

definition create_reference ::
    "addr \<Rightarrow> nat \<Rightarrow> bool \<Rightarrow> callback option \<Rightarrow> addr option \<Rightarrow> addr option \<Rightarrow> bool \<Rightarrow> u64 \<Rightarrow>
     (wrap_env \<Rightarrow> 'o wrap_result) \<Rightarrow> wrap_env \<Rightarrow> 'o wrap_result" where
  "create_reference r v wanted cb data hint async bsize rest s =
     deref (new_ArkNativeReference (refs s) r v (if wanted then 1 else 0) (\<not> wanted) cb data hint async bsize)
       (\<lambda>e. rest (s\<lparr>refs := e\<rparr>))"

definition attach ::
    "vm_call \<Rightarrow> addr \<Rightarrow> nat \<Rightarrow> bool \<Rightarrow> callback option \<Rightarrow> addr option \<Rightarrow> addr option \<Rightarrow> bool \<Rightarrow> u64 \<Rightarrow>
     addr option list \<Rightarrow> wrap_env \<Rightarrow> addr wrap_result" where
  "attach c r v wanted cb data hint async bsize extra =
     create_reference r v wanted cb data hint async bsize (\<lambda>s.
       GET_RETURN_STATUS c (if wanted then Some r else None) (js_DefineProperty v (Wrapper (Some r # extra)) s))"

definition napi_wrap ::
    "bool \<Rightarrow> vm_call \<Rightarrow> addr \<Rightarrow> nat option \<Rightarrow> addr option \<Rightarrow> callback option \<Rightarrow> addr option \<Rightarrow> bool \<Rightarrow>
     wrap_env \<Rightarrow> addr wrap_result" where
  "napi_wrap env c r js_object native_object finalize_cb finalize_hint wanted =
     NAPI_PREAMBLE env c (
     CHECK_ARG js_object (CHECK_ARG native_object (CHECK_ARG finalize_cb (SWITCH_CONTEXT c (
     CHECK_AND_CONVERT_TO_OBJECT (the js_object) (
     attach c r (the js_object) wanted finalize_cb native_object finalize_hint False 0 []))))))"

definition napi_wrap_enhance ::
    "bool \<Rightarrow> vm_call \<Rightarrow> addr \<Rightarrow> nat option \<Rightarrow> addr option \<Rightarrow> callback option \<Rightarrow> bool \<Rightarrow> addr option \<Rightarrow> u64 \<Rightarrow> bool \<Rightarrow>
     wrap_env \<Rightarrow> addr wrap_result" where
  "napi_wrap_enhance env c r js_object native_object finalize_cb async_finalizer finalize_hint
       native_binding_size wanted =
     NAPI_PREAMBLE env c (
     CHECK_ARG js_object (CHECK_ARG native_object (SWITCH_CONTEXT c (
     CHECK_AND_CONVERT_TO_OBJECT (the js_object) (
     if \<not> async_finalizer
     then attach c r (the js_object) wanted finalize_cb native_object finalize_hint False native_binding_size []
     else attach c r (the js_object) wanted finalize_cb native_object finalize_hint True 0 [])))))"

definition napi_wrap_async_finalizer ::
    "bool \<Rightarrow> vm_call \<Rightarrow> addr \<Rightarrow> nat option \<Rightarrow> addr option \<Rightarrow> callback option \<Rightarrow> addr option \<Rightarrow> bool \<Rightarrow>
     wrap_env \<Rightarrow> addr wrap_result" where
  "napi_wrap_async_finalizer env c r js_object native_object finalize_cb finalize_hint wanted =
     NAPI_PREAMBLE env c (
     CHECK_ARG js_object (CHECK_ARG native_object (SWITCH_CONTEXT c (
     CHECK_AND_CONVERT_TO_OBJECT (the js_object) (
     attach c r (the js_object) wanted finalize_cb native_object finalize_hint True 0 [])))))"

definition napi_wrap_with_size ::
    "bool \<Rightarrow> vm_call \<Rightarrow> addr \<Rightarrow> nat option \<Rightarrow> addr option \<Rightarrow> callback option \<Rightarrow> addr option \<Rightarrow> bool \<Rightarrow> u64 \<Rightarrow>
     wrap_env \<Rightarrow> addr wrap_result" where
  "napi_wrap_with_size env c r js_object native_object finalize_cb finalize_hint wanted native_binding_size =
     NAPI_PREAMBLE env c (
     CHECK_ARG js_object (CHECK_ARG native_object (SWITCH_CONTEXT c (
     CHECK_AND_CONVERT_TO_OBJECT (the js_object) (
     attach c r (the js_object) wanted finalize_cb native_object finalize_hint False native_binding_size [])))))"

text \<open>The tagged variants refuse a second wrap and keep the pointer to the caller's tag.\<close>

definition refuse_wrapped :: "nat \<Rightarrow> (wrap_env \<Rightarrow> 'o wrap_result) \<Rightarrow> wrap_env \<Rightarrow> 'o wrap_result" where
  "refuse_wrapped v rest s = RETURN_STATUS_IF_FALSE (\<not> js_Has v s) napi_invalid_arg rest s"

definition napi_wrap_s ::
    "bool \<Rightarrow> vm_call \<Rightarrow> addr \<Rightarrow> nat option \<Rightarrow> addr option \<Rightarrow> callback option \<Rightarrow> addr option \<Rightarrow> addr option \<Rightarrow> bool \<Rightarrow>
     wrap_env \<Rightarrow> addr wrap_result" where
  "napi_wrap_s env c r js_object native_object finalize_cb finalize_hint type_tag wanted =
     NAPI_PREAMBLE env c (
     CHECK_ARG js_object (CHECK_ARG native_object (CHECK_ARG finalize_cb (CHECK_ARG type_tag (SWITCH_CONTEXT c (
     CHECK_AND_CONVERT_TO_OBJECT (the js_object) (refuse_wrapped (the js_object) (
     attach c r (the js_object) wanted finalize_cb native_object finalize_hint False 0 [type_tag]))))))))"

definition napi_wrap_enhance_s ::
    "bool \<Rightarrow> vm_call \<Rightarrow> addr \<Rightarrow> nat option \<Rightarrow> addr option \<Rightarrow> callback option \<Rightarrow> bool \<Rightarrow> addr option \<Rightarrow> u64 \<Rightarrow>
     addr option \<Rightarrow> bool \<Rightarrow> wrap_env \<Rightarrow> addr wrap_result" where
  "napi_wrap_enhance_s env c r js_object native_object finalize_cb async_finalizer finalize_hint
       native_binding_size type_tag wanted =
     NAPI_PREAMBLE env c (
     CHECK_ARG js_object (CHECK_ARG native_object (CHECK_ARG type_tag (SWITCH_CONTEXT c (
     CHECK_AND_CONVERT_TO_OBJECT (the js_object) (refuse_wrapped (the js_object) (
     if \<not> async_finalizer
     then attach c r (the js_object) wanted finalize_cb native_object finalize_hint False native_binding_size [type_tag]
     else attach c r (the js_object) wanted finalize_cb native_object finalize_hint True 0 [type_tag])))))))"

section \<open>Unwrapping\<close>

definition wrapped_data :: "js_property option \<Rightarrow> wrap_env \<Rightarrow> addr option outcome" where
  "wrapped_data val s = (case val of
     Some (Wrapper fs) \<Rightarrow> (case native_field fs 0 of
        Some r \<Rightarrow> deref (GetData (refs s) r) Returns
      | None \<Rightarrow> Returns None)
   | _ \<Rightarrow> Returns None)"

definition napi_unwrap :: "bool \<Rightarrow> vm_call \<Rightarrow> nat option \<Rightarrow> unit option \<Rightarrow> wrap_env \<Rightarrow> addr option wrap_result" where
  "napi_unwrap env c js_object result =
     NAPI_PREAMBLE env c (
     CHECK_ARG js_object (CHECK_ARG result (SWITCH_CONTEXT_HOTPOT_OPT c (
     CHECK_AND_CONVERT_TO_OBJECT (the js_object) (\<lambda>s.
     obind (wrapped_data (js_Get (the js_object) s) s) (\<lambda>d. GET_RETURN_STATUS c (Some d) s))))))"

definition napi_unwrap_s ::
    "bool \<Rightarrow> vm_call \<Rightarrow> nat option \<Rightarrow> addr option \<Rightarrow> unit option \<Rightarrow> wrap_env \<Rightarrow> addr option wrap_result" where
  "napi_unwrap_s env c js_object type_tag result =
     NAPI_PREAMBLE env c (
     CHECK_ARG js_object (CHECK_ARG type_tag (CHECK_ARG result (SWITCH_CONTEXT c (
     CHECK_AND_CONVERT_TO_OBJECT (the js_object) (\<lambda>s.
     case js_Get (the js_object) s of
       Some (Wrapper fs) \<Rightarrow>
         if length fs \<noteq> 2 then napi_set_last_error napi_invalid_arg (Some None) s
         else (case native_field fs 1 of
            None \<Rightarrow> napi_set_last_error napi_generic_failure (Some None) s
          | Some t \<Rightarrow> deref (type_tags s t) (\<lambda>tag. deref (type_tags s (the type_tag)) (\<lambda>given.
              if tag \<noteq> given then napi_set_last_error napi_invalid_arg (Some None) s
              else obind (wrapped_data (Some (Wrapper fs)) s) (\<lambda>d. GET_RETURN_STATUS c (Some d) s))))
     | _ \<Rightarrow> GET_RETURN_STATUS c (Some None) s))))))"

text \<open>\<open>delete ref\<close> through a pointer that may be null.\<close>

definition delete_pointer :: "addr option \<Rightarrow> (wrap_env \<Rightarrow> 'o wrap_result) \<Rightarrow> wrap_env \<Rightarrow> 'o wrap_result" where
  "delete_pointer ref rest s = (case ref of None \<Rightarrow> rest s
     | Some r \<Rightarrow> deref (destroy_ref (refs s) r) (\<lambda>e. rest (s\<lparr>refs := e\<rparr>)))"

definition napi_remove_wrap ::
    "bool \<Rightarrow> vm_call \<Rightarrow> addr \<Rightarrow> nat option \<Rightarrow> unit option \<Rightarrow> wrap_env \<Rightarrow> addr option wrap_result" where
  "napi_remove_wrap env c r js_object result =
     NAPI_PREAMBLE env c (
     CHECK_ARG js_object (CHECK_ARG result (SWITCH_CONTEXT c (
     CHECK_AND_CONVERT_TO_OBJECT (the js_object) (\<lambda>s.
     obind (wrapped_data (js_Get (the js_object) s) s) (\<lambda>d.
     case js_Get (the js_object) s of
       None \<Rightarrow> create_reference r (the js_object) False None None None False 0 (\<lambda>s.
         GET_RETURN_STATUS c (Some d) (js_DefineProperty (the js_object) (Wrapper [Some r]) s)) s
     | Some Plain \<Rightarrow> Fault
     | Some (Wrapper fs) \<Rightarrow> delete_pointer (native_field fs 0) (GET_RETURN_STATUS c (Some d))
         (js_Delete (the js_object) s)))))))"

section \<open>References\<close>

definition napi_create_reference ::
    "bool \<Rightarrow> addr \<Rightarrow> nat option \<Rightarrow> u32 \<Rightarrow> unit option \<Rightarrow> wrap_env \<Rightarrow> addr wrap_result" where
  "napi_create_reference env r v initial_refcount result =
     CHECK_ENV env (CHECK_ARG v (CHECK_ARG result (\<lambda>s.
     deref (new_ArkNativeReference (refs s) r (the v) initial_refcount False None None None False 0) (\<lambda>e.
     napi_clear_last_error (Some r) (s\<lparr>refs := e\<rparr>)))))"

definition napi_delete_reference :: "bool \<Rightarrow> addr option \<Rightarrow> wrap_env \<Rightarrow> unit wrap_result" where
  "napi_delete_reference env ref =
     CHECK_ENV env (CHECK_ARG ref (\<lambda>s.
     deref (delete_reference_core (refs s) (the ref)) (\<lambda>e. napi_clear_last_error None (s\<lparr>refs := e\<rparr>))))"

definition napi_reference_ref :: "bool \<Rightarrow> addr option \<Rightarrow> unit option \<Rightarrow> wrap_env \<Rightarrow> u32 wrap_result" where
  "napi_reference_ref env ref result =
     CHECK_ENV env (CHECK_ARG ref (\<lambda>s.
     deref (Ref (refs s) (the ref)) (\<lambda>(e, refCount).
     napi_clear_last_error (map_option (\<lambda>_. refCount) result) (s\<lparr>refs := e\<rparr>))))"

definition napi_reference_unref :: "bool \<Rightarrow> addr option \<Rightarrow> unit option \<Rightarrow> wrap_env \<Rightarrow> u32 wrap_result" where
  "napi_reference_unref env ref result =
     CHECK_ENV env (CHECK_ARG ref (\<lambda>s.
     deref (Unref (refs s) (the ref)) (\<lambda>(e, unrefCount).
     napi_clear_last_error (map_option (\<lambda>_. unrefCount) result) (s\<lparr>refs := e\<rparr>))))"

definition napi_get_reference_value :: "bool \<Rightarrow> addr option \<Rightarrow> unit option \<Rightarrow> wrap_env \<Rightarrow> nat option wrap_result" where
  "napi_get_reference_value env ref result =
     CHECK_ENV env (CHECK_ARG ref (CHECK_ARG result (\<lambda>s.
     deref (Get (refs s) (the ref)) (\<lambda>v. napi_clear_last_error (Some v) s))))"

definition napi_add_finalizer ::
    "bool \<Rightarrow> addr \<Rightarrow> nat option \<Rightarrow> addr option \<Rightarrow> callback option \<Rightarrow> addr option \<Rightarrow> bool \<Rightarrow> wrap_env \<Rightarrow> addr wrap_result" where
  "napi_add_finalizer env r js_object native_object finalize_cb finalize_hint wanted =
     CHECK_ENV env (CHECK_ARG js_object (CHECK_ARG finalize_cb (\<lambda>s.
     RETURN_STATUS_IF_FALSE (IsObject (the js_object) s) napi_object_expected (
     create_reference r (the js_object) wanted finalize_cb native_object finalize_hint False 0 (
     napi_clear_last_error (if wanted then Some r else None))) s)))"

text \<open>The effect of \<open>napi_get_and_clear_last_exception\<close> on the environment of wrapping; the call with its value is
  modelled in \<open>Native_Calls\<close>.\<close>

definition clear_last_exception :: "bool \<Rightarrow> unit option \<Rightarrow> wrap_env \<Rightarrow> unit wrap_result" where
  "clear_last_exception env result =
     CHECK_ENV env (CHECK_ARG result (\<lambda>s. napi_clear_last_error None (s\<lparr>lastException := False\<rparr>)))"

end
