(* ===== verification/Wrap_Props.thy ===== *)
theory Wrap_Props
  imports Object_Wrap
begin

text \<open>
  Properties of wrapped objects over every sequence of calls: objects are made, frozen and collected;
  they are wrapped and unwrapped in all ways the API has; references are created, counted and deleted.
  The calls implement a map from objects to native pointers, and no call reads a freed reference.
\<close>

section \<open>Sequences of calls\<close>

datatype wrap_kind =
    Sync
  | Enhance bool
  | AsyncFin
  | WithSize
  | Tagged "addr option"
  | TaggedEnhance bool "addr option"

definition wrap_by ::
    "wrap_kind \<Rightarrow> vm_call \<Rightarrow> addr \<Rightarrow> nat option \<Rightarrow> addr option \<Rightarrow> callback option \<Rightarrow> addr option \<Rightarrow> u64 \<Rightarrow> bool \<Rightarrow>
     wrap_env \<Rightarrow> addr wrap_result" where
  "wrap_by kind c r v d cb h n wanted =
     (case kind of
        Sync \<Rightarrow> napi_wrap True c r v d cb h wanted
      | Enhance a \<Rightarrow> napi_wrap_enhance True c r v d cb a h n wanted
      | AsyncFin \<Rightarrow> napi_wrap_async_finalizer True c r v d cb h wanted
      | WithSize \<Rightarrow> napi_wrap_with_size True c r v d cb h wanted n
      | Tagged t \<Rightarrow> napi_wrap_s True c r v d cb h t wanted
      | TaggedEnhance a t \<Rightarrow> napi_wrap_enhance_s True c r v d cb a h n t wanted)"

text \<open>The weak callbacks of all references to a dead object, one after the other.\<close>

fun collect_refs :: "addr list \<Rightarrow> ark_engine \<Rightarrow> ark_engine option" where
  "collect_refs [] e = Some e"
| "collect_refs (r # rs) e = Option.bind (collect e r) (collect_refs rs)"

datatype wrap_op =
    MakeObject nat js_object
  | FreezeObject nat
  | CollectObject nat "addr list"
  | Wrap wrap_kind vm_call addr "nat option" "addr option" "callback option" "addr option" u64 bool
  | Unwrap vm_call "nat option"
  | RemoveWrap vm_call addr "nat option"
  | CreateRef addr "nat option" u32
  | AddFinalizer addr "nat option" "addr option" "callback option" "addr option" bool
  | RefRef "addr option"
  | RefUnref "addr option"
  | DeleteRef "addr option"
  | ClearException
  | RunFinalizers

fun exec_wrap :: "wrap_op \<Rightarrow> wrap_env \<Rightarrow> wrap_env outcome" where
  "exec_wrap (MakeObject v x) s = Returns (s\<lparr>objects := (objects s)(v \<mapsto> x)\<rparr>)"
| "exec_wrap (FreezeObject v) s =
     deref (objects s v) (\<lambda>x. Returns (s\<lparr>objects := (objects s)(v \<mapsto> x\<lparr>frozen := True\<rparr>)\<rparr>))"
| "exec_wrap (CollectObject v rs) s =
     deref (collect_refs rs (refs s)) (\<lambda>e. Returns (s\<lparr>objects := (objects s)(v := None), refs := e\<rparr>))"
| "exec_wrap (Wrap kind c r v d cb h n wanted) s = fst_of (wrap_by kind c r v d cb h n wanted s)"
| "exec_wrap (Unwrap c v) s = fst_of (napi_unwrap True c v (Some ()) s)"
| "exec_wrap (RemoveWrap c r v) s = fst_of (napi_remove_wrap True c r v (Some ()) s)"
| "exec_wrap (CreateRef r v n) s = fst_of (napi_create_reference True r v n (Some ()) s)"
| "exec_wrap (AddFinalizer r v d cb h wanted) s = fst_of (napi_add_finalizer True r v d cb h wanted s)"
| "exec_wrap (RefRef r) s = fst_of (napi_reference_ref True r None s)"
| "exec_wrap (RefUnref r) s = fst_of (napi_reference_unref True r None s)"
| "exec_wrap (DeleteRef r) s = fst_of (napi_delete_reference True r s)"
| "exec_wrap ClearException s = fst_of (clear_last_exception True (Some ()) s)"
| "exec_wrap RunFinalizers s = Returns (s\<lparr>refs := flush_pack (refs s)\<rparr>)"

text \<open>
  What callers and the collector owe: new objects and references are new; only an object that no
  other has as a prototype and that all references hold weakly is collected; only live references are used; the
  reference of a wrapper is not deleted through the API while the object is wrapped; a wrap is
  removed from the object that carries it, which is not frozen.
\<close>

definition own_property :: "nat \<Rightarrow> wrap_env \<Rightarrow> js_property option" where
  "own_property v s = Option.bind (objects s v) own_wrapper"

definition wraps :: "addr \<Rightarrow> wrap_env \<Rightarrow> bool" where
  "wraps r s = (case Option.bind (heap (refs s) r) r_value of None \<Rightarrow> False
     | Some v \<Rightarrow> (case own_property v s of Some (Wrapper (Some r' # _)) \<Rightarrow> r' = r | _ \<Rightarrow> False))"

definition live_ref :: "addr option \<Rightarrow> wrap_env \<Rightarrow> bool" where
  "live_ref r s = (case r of None \<Rightarrow> True | Some a \<Rightarrow> heap (refs s) a \<noteq> None)"

definition fresh_ref :: "addr \<Rightarrow> wrap_env \<Rightarrow> bool" where
  "fresh_ref r s \<longleftrightarrow> r \<notin> set (born (refs s))"

definition dead_object :: "nat \<Rightarrow> addr list \<Rightarrow> wrap_env \<Rightarrow> bool" where
  "dead_object v rs s \<longleftrightarrow> distinct rs \<and> set rs = {r. Option.bind (heap (refs s) r) r_value = Some v} \<and>
     list_all (\<lambda>r. case heap (refs s) r of Some k \<Rightarrow> r_weak k | None \<Rightarrow> False) rs \<and>
     (\<forall>x \<in> Map.ran (objects s). v \<notin> set (protos x))"

definition removable :: "nat \<Rightarrow> wrap_env \<Rightarrow> bool" where
  "removable v s \<longleftrightarrow> js_Get v s = None \<or>
     (case objects s v of None \<Rightarrow> False | Some x \<Rightarrow> own_wrapper x \<noteq> None \<and> \<not> frozen x)"

fun wrap_allowed :: "wrap_op \<Rightarrow> wrap_env \<Rightarrow> bool" where
  "wrap_allowed (MakeObject v x) s \<longleftrightarrow> objects s v = None \<and> own_wrapper x = None"
| "wrap_allowed (FreezeObject v) s \<longleftrightarrow> objects s v \<noteq> None"
| "wrap_allowed (CollectObject v rs) s \<longleftrightarrow> dead_object v rs s"
| "wrap_allowed (Wrap kind c r v d cb h n wanted) s \<longleftrightarrow> fresh_ref r s"
| "wrap_allowed (Unwrap c v) s \<longleftrightarrow> True"
| "wrap_allowed (RemoveWrap c r v) s \<longleftrightarrow> fresh_ref r s \<and> (case v of None \<Rightarrow> True | Some u \<Rightarrow> removable u s)"
| "wrap_allowed (CreateRef r v n) s \<longleftrightarrow> fresh_ref r s"
| "wrap_allowed (AddFinalizer r v d cb h wanted) s \<longleftrightarrow> fresh_ref r s"
| "wrap_allowed (RefRef r) s \<longleftrightarrow> live_ref r s"
| "wrap_allowed (RefUnref r) s \<longleftrightarrow> live_ref r s"
| "wrap_allowed (DeleteRef r) s \<longleftrightarrow> live_ref r s \<and> (case r of None \<Rightarrow> True | Some a \<Rightarrow> \<not> wraps a s)"
| "wrap_allowed ClearException s \<longleftrightarrow> True"
| "wrap_allowed RunFinalizers s \<longleftrightarrow> True"

definition no_wraps :: "bool \<Rightarrow> wrap_env" where
  "no_wraps main = \<lparr>lastException = False, lastError = napi_ok, refs = init_engine main,
     objects = Map.empty, type_tags = Map.empty\<rparr>"

section \<open>The invariant and the map\<close>

text \<open>A wrapper points to a live reference to its object, whose finalizer has not run.\<close>

definition wrapper_ok :: "ark_engine \<Rightarrow> nat \<Rightarrow> js_property \<Rightarrow> bool" where
  "wrapper_ok e v p = (case p of
     Wrapper (Some r # fs) \<Rightarrow> (case heap e r of Some k \<Rightarrow> r_value k = Some v \<and> \<not> GetFinalRun k | None \<Rightarrow> False)
   | _ \<Rightarrow> False)"

definition wrap_inv :: "wrap_env \<Rightarrow> bool" where
  "wrap_inv s \<longleftrightarrow> life_inv (refs s) \<and> (\<forall>v p. own_property v s = Some p \<longrightarrow> wrapper_ok (refs s) v p)"

definition property_data :: "ark_engine \<Rightarrow> js_property \<Rightarrow> addr option" where
  "property_data e p = (case p of Wrapper (Some r # fs) \<Rightarrow> Option.bind (heap e r) r_data | _ \<Rightarrow> None)"

text \<open>The map the wrappers implement: for a wrapped object the native pointer, which may be null.\<close>

definition wrapped_view :: "wrap_env \<Rightarrow> nat \<rightharpoonup> addr option" where
  "wrapped_view s v = map_option (property_data (refs s)) (own_property v s)"

lemma own_property_upd [simp]:
  "own_property v (s\<lparr>lastError := x\<rparr>) = own_property v s" "own_property v (s\<lparr>lastException := b\<rparr>) = own_property v s"
  "own_property v (s\<lparr>refs := e\<rparr>) = own_property v s"
  by (simp_all add: own_property_def)

lemma wrap_inv_upd [simp]:
  "wrap_inv (s\<lparr>lastError := x\<rparr>) = wrap_inv s" "wrap_inv (s\<lparr>lastException := b\<rparr>) = wrap_inv s"
  by (simp_all add: wrap_inv_def)

lemma wrapped_view_upd [simp]:
  "wrapped_view (s\<lparr>lastError := x\<rparr>) = wrapped_view s" "wrapped_view (s\<lparr>lastException := b\<rparr>) = wrapped_view s"
  by (simp_all add: wrapped_view_def fun_eq_iff)

lemma own_property_make [simp]:
  "own_property u (s\<lparr>objects := (objects s)(v \<mapsto> x)\<rparr>) = (if u = v then own_wrapper x else own_property u s)"
  by (simp add: own_property_def)

definition is_frozen :: "nat \<Rightarrow> wrap_env \<Rightarrow> bool" where
  "is_frozen v s = (case objects s v of None \<Rightarrow> True | Some x \<Rightarrow> frozen x)"

lemma own_property_put:
  "own_property u (put_own v p s) = (if u = v \<and> \<not> is_frozen v s then p else own_property u s)"
  by (auto simp: put_own_def own_property_def is_frozen_def split: option.splits)

lemma put_own_refs [simp]: "refs (put_own v p s) = refs s"
  by (simp add: put_own_def split: option.split)

lemma put_own_inv:
  "wrap_inv s \<Longrightarrow> (\<And>q. p = Some q \<Longrightarrow> wrapper_ok (refs s) v q) \<Longrightarrow> wrap_inv (put_own v p s)"
  by (auto simp: wrap_inv_def own_property_put split: if_splits)

lemma put_own_view:
  "wrapped_view (put_own v p s) =
     (if is_frozen v s then wrapped_view s else (wrapped_view s)(v := map_option (property_data (refs s)) p))"
  by (auto simp: wrapped_view_def own_property_put)

lemma wrapper_okD:
  assumes "wrapper_ok e v p"
  obtains r fs k where "p = Wrapper (Some r # fs)" "heap e r = Some k" "r_value k = Some v" "\<not> GetFinalRun k"
proof (cases p)
  case (Wrapper fs)
  with assms that show thesis by (auto simp: wrapper_ok_def split: list.splits option.splits)
next
  case Plain
  with assms show thesis by (simp add: wrapper_ok_def)
qed

lemma own_propertyD:
  assumes "wrap_inv s" and "own_property v s = Some p"
  obtains r fs k where "p = Wrapper (Some r # fs)" "heap (refs s) r = Some k" "r_value k = Some v" "\<not> GetFinalRun k"
  using assms wrapper_okD by (metis wrap_inv_def)

section \<open>References change under the wrappers\<close>

text \<open>A change of the references that leaves value and data of the reference alone.\<close>

definition keeps_ref :: "ark_engine \<Rightarrow> ark_engine \<Rightarrow> addr \<Rightarrow> bool" where
  "keeps_ref e e' r \<longleftrightarrow> (\<forall>k. heap e r = Some k \<longrightarrow> (\<exists>k'. heap e' r = Some k' \<and> r_value k' = r_value k \<and> r_data k' = r_data k \<and> GetFinalRun k' = GetFinalRun k))"

lemma keeps_refI: "heap e' r = heap e r \<Longrightarrow> keeps_ref e e' r"
  by (simp add: keeps_ref_def)

lemma refs_frame:
  assumes "wrap_inv s" and "life_inv e"
    and keeps: "\<And>v r fs. own_property v s = Some (Wrapper (Some r # fs)) \<Longrightarrow> keeps_ref (refs s) e r"
  shows "wrap_inv (s\<lparr>refs := e\<rparr>)" and "wrapped_view (s\<lparr>refs := e\<rparr>) = wrapped_view s"
proof -
  have *: "wrapper_ok e v p \<and> property_data e p = property_data (refs s) p" if "own_property v s = Some p" for v p
  proof -
    from own_propertyD [OF assms(1) that] obtain r fs k where
      rk: "p = Wrapper (Some r # fs)" "heap (refs s) r = Some k" "r_value k = Some v" "\<not> GetFinalRun k" .
    from keeps [of v r fs] that rk(1) have "keeps_ref (refs s) e r" by simp
    with rk show ?thesis by (auto simp: wrapper_ok_def property_data_def keeps_ref_def)
  qed
  with assms(2) show "wrap_inv (s\<lparr>refs := e\<rparr>)" by (simp add: wrap_inv_def)
  from * show "wrapped_view (s\<lparr>refs := e\<rparr>) = wrapped_view s"
    by (auto simp: wrapped_view_def fun_eq_iff map_option_case split: option.splits)
qed

lemma new_keeps:
  assumes "new_ArkNativeReference e r v n ds cb d h a b = Some e'" and "heap e r = None"
  shows "keeps_ref e e' x"
  using new_effect [OF assms(1)] assms(2) by (auto simp: keeps_ref_def)

lemma count_keeps:
  "Ref e r = Some (e', n) \<Longrightarrow> keeps_ref e e' x" "Unref e r = Some (e', n) \<Longrightarrow> keeps_ref e e' x"
  by (auto simp: keeps_ref_def Ref_def Unref_def Let_def set_ref_def bind_eq_Some_conv split: if_splits)

lemma destroy_keeps: "destroy_ref e r = Some e' \<Longrightarrow> x \<noteq> r \<Longrightarrow> keeps_ref e e' x"
  by (drule destroy_ref_effect) (auto intro: keeps_refI)

lemma delete_keeps: "delete_reference_core e r = Some e' \<Longrightarrow> x \<noteq> r \<Longrightarrow> keeps_ref e e' x"
  by (auto simp: delete_reference_core_def bind_eq_Some_conv set_ref_def destroy_keeps intro: keeps_refI split: if_splits)

lemma collect_heap: "collect e r = Some e' \<Longrightarrow> x \<noteq> r \<Longrightarrow> heap e' x = heap e x"
proof (cases "heap e r")
  case (Some k)
  assume "collect e r = Some e'" "x \<noteq> r"
  with collect_effect [OF _ Some, of e'] show ?thesis by auto
qed (simp add: collect_def)

section \<open>The calls\<close>

definition same_core :: "wrap_env \<Rightarrow> wrap_env \<Rightarrow> bool" where
  "same_core s t \<longleftrightarrow> refs t = refs s \<and> objects t = objects s"

lemma same_coreD:
  assumes "same_core s t"
  shows "wrap_inv t = wrap_inv s" and "wrapped_view t = wrapped_view s"
  using assms by (simp_all add: same_core_def wrap_inv_def wrapped_view_def own_property_def fun_eq_iff)

lemma is_frozen_upd [simp]:
  "is_frozen v (s\<lparr>lastError := x\<rparr>) = is_frozen v s" "is_frozen v (s\<lparr>refs := e\<rparr>) = is_frozen v s"
  by (simp_all add: is_frozen_def)

text \<open>A new reference changes neither the invariant nor the map.\<close>

lemma new_ref_ok:
  assumes "wrap_inv s" and "fresh_ref r s"
  shows "\<exists>e k. new_ArkNativeReference (refs s) r v n ds cb d h a b = Some e \<and> wrap_inv (s\<lparr>refs := e\<rparr>) \<and>
    wrapped_view (s\<lparr>refs := e\<rparr>) = wrapped_view s \<and> heap e r = Some k \<and> r_value k = Some v \<and> r_data k = d \<and> \<not> GetFinalRun k"
proof -
  have li: "life_inv (refs s)" using assms(1) by (simp add: wrap_inv_def)
  then have free: "heap (refs s) r = None"
    using assms(2) by (auto simp: life_inv_def once_inv_def once_def fresh_ref_def)
  obtain e where e: "new_ArkNativeReference (refs s) r v n ds cb d h a b = Some e" "life_inv e"
    using step_life [of "refs s" "New r v n ds cb d h a b"] li assms(2) by (auto simp: fresh_ref_def)
  from new_effect [OF e(1)] obtain k where "heap e r = Some k" "r_value k = Some v" "r_data k = d" "\<not> GetFinalRun k" by auto
  with e refs_frame [OF assms(1) e(2) new_keeps [OF e(1) free]] show ?thesis by blast
qed

lemma attach_ok:
  assumes "wrap_inv s" and "fresh_ref r s"
  shows "\<exists>s'. attach c r v wanted cb d h a n ex s =
      Returns (s', if caught c then napi_pending_exception else napi_ok, if wanted then Some r else None) \<and>
    wrap_inv s' \<and> wrapped_view s' = (if is_frozen v s then wrapped_view s else (wrapped_view s)(v \<mapsto> d))"
proof -
  obtain e k where e: "new_ArkNativeReference (refs s) r v (if wanted then 1 else 0) (\<not> wanted) cb d h a n = Some e"
    "wrap_inv (s\<lparr>refs := e\<rparr>)" "wrapped_view (s\<lparr>refs := e\<rparr>) = wrapped_view s"
    "heap e r = Some k" "r_value k = Some v" "r_data k = d" "\<not> GetFinalRun k"
    using new_ref_ok [OF assms] by blast
  let ?s = "put_own v (Some (Wrapper (Some r # ex))) (s\<lparr>refs := e\<rparr>)"
  have "wrap_inv ?s" using e by (intro put_own_inv) (auto simp: wrapper_ok_def)
  moreover have "wrapped_view ?s = (if is_frozen v s then wrapped_view s else (wrapped_view s)(v \<mapsto> d))"
    using e by (simp add: put_own_view property_data_def)
  ultimately show ?thesis using e(1)
    by (simp add: attach_def create_reference_def js_DefineProperty_def GET_RETURN_STATUS_def napi_set_last_error_def)
qed

definition kind_tag :: "wrap_kind \<Rightarrow> addr option option" where
  "kind_tag kind = (case kind of Tagged t \<Rightarrow> Some t | TaggedEnhance a t \<Rightarrow> Some t | _ \<Rightarrow> None)"

definition needs_callback :: "wrap_kind \<Rightarrow> bool" where
  "needs_callback kind = (case kind of Sync \<Rightarrow> True | Tagged t \<Rightarrow> True | _ \<Rightarrow> False)"

definition kind_async :: "wrap_kind \<Rightarrow> bool" where
  "kind_async kind = (case kind of Enhance a \<Rightarrow> a | AsyncFin \<Rightarrow> True | TaggedEnhance a t \<Rightarrow> a | _ \<Rightarrow> False)"

definition kind_size :: "wrap_kind \<Rightarrow> u64 \<Rightarrow> u64" where
  "kind_size kind n = (if kind = WithSize \<or> kind = Enhance False \<or> (\<exists>t. kind = TaggedEnhance False t) then n else 0)"

text \<open>When a call wraps: no exception is kept, the arguments are there, and the value is an object.\<close>

definition entered :: "vm_call \<Rightarrow> wrap_env \<Rightarrow> bool" where
  "entered c s \<longleftrightarrow> \<not> lastException s \<and> switch_answer c \<noteq> Some napi_generic_failure"

definition wrap_accepted :: "wrap_kind \<Rightarrow> vm_call \<Rightarrow> nat option \<Rightarrow> addr option \<Rightarrow> callback option \<Rightarrow> wrap_env \<Rightarrow> bool" where
  "wrap_accepted kind c v d cb s \<longleftrightarrow> entered c s \<and> v \<noteq> None \<and> d \<noteq> None \<and> (needs_callback kind \<longrightarrow> cb \<noteq> None) \<and>
     objects s (the v) \<noteq> None \<and>
     (case kind_tag kind of None \<Rightarrow> True | Some t \<Rightarrow> t \<noteq> None \<and> \<not> js_Has (the v) s)"

lemma is_object_iff: "IsObject v s \<or> IsFunction v s \<longleftrightarrow> objects s v \<noteq> None"
  by (auto simp: IsObject_def IsFunction_def split: option.splits)

lemma object_tests [simp]:
  "IsObject v (s\<lparr>lastError := x\<rparr>) = IsObject v s" "js_Has v (s\<lparr>lastError := x\<rparr>) = js_Has v s"
  "js_Get v (s\<lparr>lastError := x\<rparr>) = js_Get v s" "IsFunction v (s\<lparr>lastError := x\<rparr>) = IsFunction v s"
  by (simp_all add: IsObject_def IsFunction_def js_Has_def js_Get_def js_chain_def)

lemmas wrap_defs = napi_wrap_def napi_wrap_enhance_def napi_wrap_async_finalizer_def napi_wrap_with_size_def
  napi_wrap_s_def napi_wrap_enhance_s_def refuse_wrapped_def CHECK_AND_CONVERT_TO_OBJECT_def

lemmas kind_defs = kind_tag_def needs_callback_def kind_async_def kind_size_def entered_def

lemma wrap_accepts:
  assumes "wrap_accepted kind c v d cb s"
  shows "wrap_by kind c r v d cb h n wanted s =
    obind (attach c r (the v) wanted cb d h (kind_async kind) (kind_size kind n)
        (case kind_tag kind of None \<Rightarrow> [] | Some t \<Rightarrow> [t]) (s\<lparr>lastError := napi_ok\<rparr>))
      (\<lambda>(s', r). Returns (if caught c then s'\<lparr>lastException := True\<rparr> else s', r))"
  using assms
  by (cases kind) (auto simp: wrap_accepted_def wrap_by_def wrap_defs kind_defs api_defs is_object_iff split: option.splits)

lemma wrap_refuses:
  assumes "\<not> wrap_accepted kind c v d cb s"
  shows "\<exists>s' st. wrap_by kind c r v d cb h n wanted s = Returns (s', st, None) \<and> same_core s s' \<and> st \<noteq> napi_ok"
  using assms
  by (cases kind) (auto simp: wrap_accepted_def wrap_by_def wrap_defs kind_defs api_defs is_object_iff same_core_def split: option.splits)

text \<open>What a look-up along the prototypes finds in the map.\<close>

fun lookup_chain :: "(nat \<rightharpoonup> addr option) \<Rightarrow> nat list \<Rightarrow> addr option" where
  "lookup_chain m [] = None"
| "lookup_chain m (u # us) = (case m u of Some d \<Rightarrow> d | None \<Rightarrow> lookup_chain m us)"

lemma wrapped_data_property:
  assumes "wrap_inv s" and "own_property u s = Some p"
  shows "wrapped_data (Some p) s = Returns (property_data (refs s) p)"
proof -
  from own_propertyD [OF assms] obtain r fs k where "p = Wrapper (Some r # fs)" "heap (refs s) r = Some k" .
  then show ?thesis by (simp add: wrapped_data_def property_data_def native_field_def GetData_def)
qed

lemma wrapped_data_chain:
  "wrap_inv s \<Longrightarrow> wrapped_data (first_wrapper (objects s) vs) s = Returns (lookup_chain (wrapped_view s) vs)"
proof (induction vs)
  case Nil
  show ?case by (simp add: wrapped_data_def)
next
  case (Cons u us)
  then show ?case
    using wrapped_data_property [OF Cons.prems, of u]
    by (cases "own_property u s") (simp_all add: own_property_def wrapped_view_def)
qed

lemma wrapped_data_Get: "wrap_inv s \<Longrightarrow> wrapped_data (js_Get v s) s = Returns (lookup_chain (wrapped_view s) (js_chain v s))"
  by (simp add: js_Get_def wrapped_data_chain)

lemma js_chain_upd [simp]: "js_chain v (s\<lparr>lastError := x\<rparr>) = js_chain v s"
  by (simp add: js_chain_def)

definition unwrap_accepted :: "vm_call \<Rightarrow> nat option \<Rightarrow> wrap_env \<Rightarrow> bool" where
  "unwrap_accepted c v s \<longleftrightarrow> \<not> lastException s \<and> switch_answer c \<in> {None, Some napi_ok} \<and> v \<noteq> None \<and> objects s (the v) \<noteq> None"

lemma unwrap_accepts:
  assumes "wrap_inv s" and "unwrap_accepted c v s"
  shows "\<exists>s'. napi_unwrap True c v (Some ()) s =
      Returns (s', if caught c then napi_pending_exception else napi_ok,
        Some (lookup_chain (wrapped_view s) (js_chain (the v) s))) \<and> same_core s s'"
  using assms wrapped_data_Get [of "s\<lparr>lastError := napi_ok\<rparr>" "the v"]
  by (auto simp: unwrap_accepted_def napi_unwrap_def CHECK_AND_CONVERT_TO_OBJECT_def api_defs is_object_iff same_core_def
      split: option.splits)

lemma unwrap_refuses:
  assumes "\<not> unwrap_accepted c v s"
  shows "\<exists>s' st. napi_unwrap True c v (Some ()) s = Returns (s', st, None) \<and> same_core s s' \<and> st \<noteq> napi_ok"
  using assms
  by (auto simp: unwrap_accepted_def napi_unwrap_def CHECK_AND_CONVERT_TO_OBJECT_def api_defs is_object_iff same_core_def
      split: option.splits)

definition remove_accepted :: "vm_call \<Rightarrow> nat option \<Rightarrow> wrap_env \<Rightarrow> bool" where
  "remove_accepted c v s \<longleftrightarrow> entered c s \<and> v \<noteq> None \<and> objects s (the v) \<noteq> None"

lemma remove_refuses:
  assumes "\<not> remove_accepted c v s"
  shows "\<exists>s' st. napi_remove_wrap True c r v (Some ()) s = Returns (s', st, None) \<and> same_core s s' \<and> st \<noteq> napi_ok"
  using assms
  by (auto simp: remove_accepted_def entered_def napi_remove_wrap_def CHECK_AND_CONVERT_TO_OBJECT_def api_defs is_object_iff same_core_def
      split: option.splits)

definition remove_body :: "vm_call \<Rightarrow> addr \<Rightarrow> nat \<Rightarrow> wrap_env \<Rightarrow> addr option wrap_result" where
  "remove_body c r v s =
     obind (wrapped_data (js_Get v s) s) (\<lambda>d.
     case js_Get v s of
       None \<Rightarrow> create_reference r v False None None None False 0 (\<lambda>s.
         GET_RETURN_STATUS c (Some d) (js_DefineProperty v (Wrapper [Some r]) s)) s
     | Some Plain \<Rightarrow> Fault
     | Some (Wrapper fs) \<Rightarrow> delete_pointer (native_field fs 0) (GET_RETURN_STATUS c (Some d)) (js_Delete v s))"

lemma remove_accepts:
  assumes "remove_accepted c v s"
  shows "napi_remove_wrap True c r v (Some ()) s = obind (remove_body c r (the v) (s\<lparr>lastError := napi_ok\<rparr>))
      (\<lambda>(s', x). Returns (if caught c then s'\<lparr>lastException := True\<rparr> else s', x))"
  using assms
  by (auto simp: remove_accepted_def entered_def napi_remove_wrap_def remove_body_def CHECK_AND_CONVERT_TO_OBJECT_def api_defs is_object_iff
      split: option.splits)

lemma js_Get_own: "own_property v s = Some p \<Longrightarrow> js_Get v s = Some p"
  by (simp add: js_Get_def js_chain_def own_property_def)

lemma own_is_object: "own_property v s = Some p \<Longrightarrow> \<not> is_frozen v s \<Longrightarrow> wrap_inv s \<Longrightarrow> wrapped_view s v = Some (property_data (refs s) p)"
  by (simp add: wrapped_view_def)

text \<open>The object carries the wrapper itself: its reference is destroyed and the property goes.\<close>

lemma remove_own:
  assumes inv: "wrap_inv s" and own: "own_property v s = Some p" and "\<not> is_frozen v s"
  shows "\<exists>s' r0 fs e. remove_body c r v s =
      Returns (s', if caught c then napi_pending_exception else napi_ok, Some (property_data (refs s) p)) \<and>
    wrap_inv s' \<and> wrapped_view s' = (wrapped_view s)(v := None) \<and>
    p = Wrapper (Some r0 # fs) \<and> destroy_ref (refs s) r0 = Some e \<and> refs s' = e"
proof -
  from own_propertyD [OF inv own] obtain r0 fs k where
    p: "p = Wrapper (Some r0 # fs)" and k: "heap (refs s) r0 = Some k" "r_value k = Some v" .
  have li: "life_inv (refs s)" using inv by (simp add: wrap_inv_def)
  obtain e where e: "destroy_ref (refs s) r0 = Some e" "life_inv e"
    using step_life [of "refs s" "DeleteNow r0"] li k by auto
  let ?s = "put_own v None s"
  have "wrap_inv ?s" using inv by (rule put_own_inv) simp
  moreover have "keeps_ref (refs ?s) e r'" if "own_property u ?s = Some (Wrapper (Some r' # gs))" for u r' gs
  proof -
    from that assms(3) have u: "u \<noteq> v" "own_property u s = Some (Wrapper (Some r' # gs))"
      by (auto simp: own_property_put split: if_splits)
    then obtain k' where "heap (refs s) r' = Some k'" "r_value k' = Some u" using own_propertyD [OF inv] by blast
    with k u have "r' \<noteq> r0" by auto
    then show ?thesis using destroy_keeps [OF e(1)] by simp
  qed
  ultimately have post: "wrap_inv (?s\<lparr>refs := e\<rparr>)" "wrapped_view (?s\<lparr>refs := e\<rparr>) = wrapped_view ?s"
    using refs_frame [of ?s e] e(2) by blast+
  have "wrapped_view (?s\<lparr>refs := e\<rparr>) = (wrapped_view s)(v := None)"
    using post(2) assms(3) by (simp add: put_own_view)
  then show ?thesis using post(1) p e(1) wrapped_data_property [OF inv own] js_Get_own [OF own]
    by (auto simp: remove_body_def delete_pointer_def native_field_def js_Delete_def GET_RETURN_STATUS_def napi_set_last_error_def)
qed

text \<open>Nothing is found: the object gets a wrapper without data.\<close>

lemma remove_none:
  assumes inv: "wrap_inv s" and none: "js_Get v s = None" and fresh: "fresh_ref r s"
  shows "\<exists>s'. remove_body c r v s =
      Returns (s', if caught c then napi_pending_exception else napi_ok, Some None) \<and>
    wrap_inv s' \<and> wrapped_view s' = (if is_frozen v s then wrapped_view s else (wrapped_view s)(v \<mapsto> None))"
proof -
  obtain e k where e: "new_ArkNativeReference (refs s) r v 0 True None None None False 0 = Some e"
    "wrap_inv (s\<lparr>refs := e\<rparr>)" "wrapped_view (s\<lparr>refs := e\<rparr>) = wrapped_view s"
    "heap e r = Some k" "r_value k = Some v" "r_data k = None" "\<not> GetFinalRun k"
    using new_ref_ok [OF inv fresh, of v 0 True None None None False 0] by blast
  let ?s = "put_own v (Some (Wrapper [Some r])) (s\<lparr>refs := e\<rparr>)"
  have "wrap_inv ?s" using e by (intro put_own_inv) (auto simp: wrapper_ok_def)
  moreover have "wrapped_view ?s = (if is_frozen v s then wrapped_view s else (wrapped_view s)(v \<mapsto> None))"
    using e by (simp add: put_own_view property_data_def)
  ultimately show ?thesis using e(1) none
    by (simp add: remove_body_def wrapped_data_def create_reference_def js_DefineProperty_def GET_RETURN_STATUS_def napi_set_last_error_def)
qed

lemma collect_refs_ok:
  assumes "life_inv e" and "distinct rs" and "\<And>r. r \<in> set rs \<Longrightarrow> heap e r \<noteq> None"
  shows "\<exists>e'. collect_refs rs e = Some e' \<and> life_inv e' \<and> (\<forall>x. x \<notin> set rs \<longrightarrow> heap e' x = heap e x)"
  using assms
proof (induction rs arbitrary: e)
  case (Cons r rs)
  obtain e1 where e1: "collect e r = Some e1" "life_inv e1"
    using step_life [of e "Collect r"] Cons.prems(1) Cons.prems(3) [of r] by auto
  have "heap e1 x = heap e x" if "x \<noteq> r" for x by (rule collect_heap [OF e1(1) that])
  moreover from this have "heap e1 x \<noteq> None" if "x \<in> set rs" for x
    using that Cons.prems(2) Cons.prems(3) [of x] by (cases "x = r") auto
  ultimately show ?case using Cons.IH [OF e1(2)] Cons.prems(2) e1(1) by fastforce
qed simp

lemma collect_object_ok:
  assumes "wrap_inv s" and "dead_object v rs s"
  shows "\<exists>e. collect_refs rs (refs s) = Some e \<and> wrap_inv (s\<lparr>objects := (objects s)(v := None), refs := e\<rparr>) \<and>
    wrapped_view (s\<lparr>objects := (objects s)(v := None), refs := e\<rparr>) = (wrapped_view s)(v := None)"
proof -
  have rs: "set rs = {r. Option.bind (heap (refs s) r) r_value = Some v}" "distinct rs"
    using assms(2) by (simp_all add: dead_object_def)
  obtain e where e: "collect_refs rs (refs s) = Some e" "life_inv e" "\<And>x. x \<notin> set rs \<Longrightarrow> heap e x = heap (refs s) x"
    using collect_refs_ok [of "refs s" rs] assms(1) rs by (auto simp: wrap_inv_def bind_eq_Some_conv)
  let ?s = "s\<lparr>objects := (objects s)(v := None)\<rparr>"
  have own: "own_property u ?s = (if u = v then None else own_property u s)" for u by (simp add: own_property_def)
  have inv: "wrap_inv ?s" using assms(1) by (auto simp: wrap_inv_def own split: if_splits)
  have keep: "keeps_ref (refs ?s) e r" if "own_property u ?s = Some (Wrapper (Some r # fs))" for u r fs
  proof -
    from that have u: "u \<noteq> v" "own_property u s = Some (Wrapper (Some r # fs))" by (auto simp: own split: if_splits)
    with own_propertyD [OF assms(1)] have "Option.bind (heap (refs s) r) r_value = Some u" by fastforce
    with u(1) rs(1) have "r \<notin> set rs" by simp
    then show ?thesis using e(3) by (simp add: keeps_refI)
  qed
  have view: "wrapped_view ?s = (wrapped_view s)(v := None)" by (auto simp: wrapped_view_def own fun_eq_iff)
  have "wrap_inv (?s\<lparr>refs := e\<rparr>)" "wrapped_view (?s\<lparr>refs := e\<rparr>) = (wrapped_view s)(v := None)"
    using refs_frame [OF inv e(2)] keep view by simp_all
  with e(1) show ?thesis by simp
qed

lemma wraps_iff:
  assumes "wrap_inv s"
  shows "wraps r s \<longleftrightarrow> (\<exists>v fs. own_property v s = Some (Wrapper (Some r # fs)))"
proof
  assume "wraps r s"
  then show "\<exists>v fs. own_property v s = Some (Wrapper (Some r # fs))"
    by (auto simp: wraps_def split: option.splits js_property.splits list.splits)
next
  assume "\<exists>v fs. own_property v s = Some (Wrapper (Some r # fs))"
  then obtain v fs where own: "own_property v s = Some (Wrapper (Some r # fs))" by blast
  with own_propertyD [OF assms own] show "wraps r s" by (fastforce simp: wraps_def)
qed

text \<open>A call that changes one reference that no wrapper reads, or only its count.\<close>

lemma ref_change:
  assumes "wrap_inv s" and "life_inv e" and "\<And>r. wraps r s \<Longrightarrow> keeps_ref (refs s) e r"
  shows "wrap_inv (s\<lparr>refs := e, lastError := x\<rparr>)" and "wrapped_view (s\<lparr>refs := e, lastError := x\<rparr>) = wrapped_view s"
proof -
  have "keeps_ref (refs s) e r" if "own_property v s = Some (Wrapper (Some r # fs))" for v r fs
    using assms(3) wraps_iff [OF assms(1)] that by blast
  from refs_frame [OF assms(1,2) this] show "wrap_inv (s\<lparr>refs := e, lastError := x\<rparr>)"
    and "wrapped_view (s\<lparr>refs := e, lastError := x\<rparr>) = wrapped_view s" by simp_all
qed

section \<open>Every call\<close>

text \<open>The map's side: when a call has an effect on it, and which.\<close>

fun takes_effect :: "wrap_op \<Rightarrow> wrap_env \<Rightarrow> bool" where
  "takes_effect (Wrap kind c r v d cb h n wanted) s \<longleftrightarrow> wrap_accepted kind c v d cb s \<and> \<not> is_frozen (the v) s"
| "takes_effect (RemoveWrap c r v) s \<longleftrightarrow> remove_accepted c v s \<and> \<not> is_frozen (the v) s"
| "takes_effect (CollectObject v rs) s \<longleftrightarrow> True"
| "takes_effect _ s \<longleftrightarrow> False"

fun map_effect :: "wrap_op \<Rightarrow> (nat \<rightharpoonup> addr option) \<Rightarrow> (nat \<rightharpoonup> addr option)" where
  "map_effect (Wrap kind c r v d cb h n wanted) m = m(the v \<mapsto> d)"
| "map_effect (RemoveWrap c r v) m = (if m (the v) = None then m(the v \<mapsto> None) else m(the v := None))"
| "map_effect (CollectObject v rs) m = m(v := None)"
| "map_effect _ m = m"

definition simulates :: "wrap_op \<Rightarrow> wrap_env \<Rightarrow> wrap_env \<Rightarrow> bool" where
  "simulates x s s' \<longleftrightarrow> wrap_inv s' \<and>
     wrapped_view s' = (if takes_effect x s then map_effect x (wrapped_view s) else wrapped_view s)"

lemma simulates_same: "wrap_inv s \<Longrightarrow> same_core s s' \<Longrightarrow> \<not> takes_effect x s \<Longrightarrow> simulates x s s'"
  by (simp add: simulates_def same_coreD)

lemma wrap_simulates:
  assumes "wrap_inv s" and "fresh_ref r s"
  shows "\<exists>s'. exec_wrap (Wrap kind c r v d cb h n wanted) s = Returns s' \<and> simulates (Wrap kind c r v d cb h n wanted) s s'"
proof (cases "wrap_accepted kind c v d cb s")
  case True
  let ?s = "s\<lparr>lastError := napi_ok\<rparr>"
  obtain t where t: "attach c r (the v) wanted cb d h (kind_async kind) (kind_size kind n)
      (case kind_tag kind of None \<Rightarrow> [] | Some t \<Rightarrow> [t]) ?s =
      Returns (t, if caught c then napi_pending_exception else napi_ok, if wanted then Some r else None)"
    "wrap_inv t" "wrapped_view t = (if is_frozen (the v) s then wrapped_view s else (wrapped_view s)(the v \<mapsto> d))"
    using attach_ok [of ?s r c "the v" wanted cb d h "kind_async kind" "kind_size kind n"] assms
    by (fastforce simp: fresh_ref_def)
  then show ?thesis using True wrap_accepts [OF True, of r h n wanted]
    by (auto simp: simulates_def)
next
  case False
  from wrap_refuses [OF this, of r h n wanted] assms(1) False show ?thesis
    by (auto intro!: simulates_same)
qed

lemma remove_simulates:
  assumes "wrap_inv s" and "wrap_allowed (RemoveWrap c r v) s"
  shows "\<exists>s'. exec_wrap (RemoveWrap c r v) s = Returns s' \<and> simulates (RemoveWrap c r v) s s'"
proof (cases "remove_accepted c v s")
  case True
  then obtain u where u: "v = Some u" "objects s u \<noteq> None" by (auto simp: remove_accepted_def)
  let ?s = "s\<lparr>lastError := napi_ok\<rparr>"
  have "\<exists>t out. remove_body c r u ?s = Returns (t, out) \<and> wrap_inv t \<and>
      wrapped_view t = (if is_frozen u s then wrapped_view s else map_effect (RemoveWrap c r v) (wrapped_view s))"
  proof (cases "own_property u s")
    case None
    with assms(2) u have n: "js_Get u ?s = None" by (auto simp: removable_def own_property_def)
    have "wrapped_view s u = None" using None by (simp add: wrapped_view_def)
    then show ?thesis using remove_none [OF _ n, of r c] assms u(1) by (fastforce simp: fresh_ref_def)
  next
    case (Some p)
    then have "js_Get u s \<noteq> None" by (simp add: js_Get_own)
    with assms(2) u have nf: "\<not> is_frozen u s" by (auto simp: removable_def is_frozen_def split: option.splits)
    have "wrapped_view s u \<noteq> None" using Some by (simp add: wrapped_view_def)
    then show ?thesis using remove_own [of ?s u p c r] Some nf assms(1) u(1) by fastforce
  qed
  then show ?thesis using remove_accepts [OF True, of r] True u(1) by (auto simp: simulates_def)
next
  case False
  from remove_refuses [OF this, of r] assms(1) False show ?thesis
    by (auto intro!: simulates_same)
qed

lemma create_simulates:
  assumes "wrap_inv s" and "fresh_ref r s"
  shows "\<exists>s'. exec_wrap (CreateRef r v n) s = Returns s' \<and> simulates (CreateRef r v n) s s'"
    and "\<exists>s'. exec_wrap (AddFinalizer r v d cb h wanted) s = Returns s' \<and> simulates (AddFinalizer r v d cb h wanted) s s'"
proof -
  show "\<exists>s'. exec_wrap (CreateRef r v n) s = Returns s' \<and> simulates (CreateRef r v n) s s'"
    using new_ref_ok [OF assms, of "the v" n False None None None False 0] assms(1)
    by (auto simp: napi_create_reference_def api_defs simulates_def)
  show "\<exists>s'. exec_wrap (AddFinalizer r v d cb h wanted) s = Returns s' \<and> simulates (AddFinalizer r v d cb h wanted) s s'"
    using new_ref_ok [OF assms, of "the v" "if wanted then 1 else 0" "\<not> wanted" cb d h False 0] assms(1)
    by (auto simp: napi_add_finalizer_def create_reference_def api_defs simulates_def)
qed

lemma count_simulates:
  assumes "wrap_inv s" and "live_ref r s"
  shows "\<exists>s'. exec_wrap (RefRef r) s = Returns s' \<and> simulates (RefRef r) s s'"
    and "\<exists>s'. exec_wrap (RefUnref r) s = Returns s' \<and> simulates (RefUnref r) s s'"
proof -
  have li: "life_inv (refs s)" using assms(1) by (simp add: wrap_inv_def)
  have up: "\<exists>e n. Ref (refs s) a = Some (e, n) \<and> life_inv e \<and> (\<forall>x. keeps_ref (refs s) e x)" if "r = Some a" for a
    using step_life [of "refs s" "IncRef a"] assms(2) li that count_keeps(1) by (fastforce simp: live_ref_def)
  have down: "\<exists>e n. Unref (refs s) a = Some (e, n) \<and> life_inv e \<and> (\<forall>x. keeps_ref (refs s) e x)" if "r = Some a" for a
    using step_life [of "refs s" "DecRef a"] assms(2) li that count_keeps(2) by (fastforce simp: live_ref_def)
  show "\<exists>s'. exec_wrap (RefRef r) s = Returns s' \<and> simulates (RefRef r) s s'"
    using up ref_change [OF assms(1)] assms(1)
    by (cases r) (fastforce simp: napi_reference_ref_def api_defs simulates_def)+
  show "\<exists>s'. exec_wrap (RefUnref r) s = Returns s' \<and> simulates (RefUnref r) s s'"
    using down ref_change [OF assms(1)] assms(1)
    by (cases r) (fastforce simp: napi_reference_unref_def api_defs simulates_def)+
qed

lemma delete_simulates:
  assumes "wrap_inv s" and "wrap_allowed (DeleteRef r) s"
  shows "\<exists>s'. exec_wrap (DeleteRef r) s = Returns s' \<and> simulates (DeleteRef r) s s'"
proof (cases r)
  case None
  with assms(1) show ?thesis by (simp add: napi_delete_reference_def api_defs simulates_def)
next
  case (Some a)
  have "life_inv (refs s)" using assms(1) by (simp add: wrap_inv_def)
  then obtain e where e: "delete_reference_core (refs s) a = Some e" "life_inv e"
    using step_life [of "refs s" "DeleteApi a"] assms(2) Some by (auto simp: live_ref_def)
  have "keeps_ref (refs s) e x" if "wraps x s" for x
    by (rule delete_keeps [OF e(1)]) (use that assms(2) Some in auto)
  from ref_change [OF assms(1) e(2) this] e(1) Some show ?thesis
    by (simp add: napi_delete_reference_def api_defs simulates_def)
qed

lemma other_simulates:
  assumes "wrap_inv s" and "wrap_allowed x s"
  shows "x = MakeObject v y \<Longrightarrow> \<exists>s'. exec_wrap x s = Returns s' \<and> simulates x s s'"
    and "x = FreezeObject v \<Longrightarrow> \<exists>s'. exec_wrap x s = Returns s' \<and> simulates x s s'"
    and "x = Unwrap c w \<Longrightarrow> \<exists>s'. exec_wrap x s = Returns s' \<and> simulates x s s'"
    and "x = RunFinalizers \<Longrightarrow> \<exists>s'. exec_wrap x s = Returns s' \<and> simulates x s s'"
proof -
  show "\<exists>s'. exec_wrap x s = Returns s' \<and> simulates x s s'" if x: "x = MakeObject v y"
  proof -
    have "own_property u (s\<lparr>objects := (objects s)(v \<mapsto> y)\<rparr>) = own_property u s" for u
      using assms(2) x by (auto simp: own_property_def)
    with assms(1) x show ?thesis by (simp add: simulates_def wrap_inv_def wrapped_view_def fun_eq_iff)
  qed
  show "\<exists>s'. exec_wrap x s = Returns s' \<and> simulates x s s'" if x: "x = FreezeObject v"
  proof -
    from assms(2) x obtain y where y: "objects s v = Some y" by auto
    then have "own_property u (s\<lparr>objects := (objects s)(v \<mapsto> y\<lparr>frozen := True\<rparr>)\<rparr>) = own_property u s" for u
      by (auto simp: own_property_def)
    with assms(1) x y show ?thesis by (simp add: simulates_def wrap_inv_def wrapped_view_def fun_eq_iff)
  qed
  show "\<exists>s'. exec_wrap x s = Returns s' \<and> simulates x s s'" if x: "x = Unwrap c w"
    using unwrap_accepts [OF assms(1), of c w] unwrap_refuses [of c w s] assms(1) x
    by (cases "unwrap_accepted c w s") (fastforce intro: simulates_same)+
  show "\<exists>s'. exec_wrap x s = Returns s' \<and> simulates x s s'" if x: "x = RunFinalizers"
  proof -
    have "life_inv (flush_pack (refs s))"
      using step_life [of "refs s" Flush] assms(1) by (simp add: wrap_inv_def)
    with refs_frame [OF assms(1) this] x show ?thesis by (simp add: simulates_def keeps_refI)
  qed
qed

lemma wrap_step:
  assumes "wrap_inv s" and "wrap_allowed x s"
  shows "\<exists>s'. exec_wrap x s = Returns s' \<and> simulates x s s'"
proof (cases x)
  case (CollectObject v rs)
  with assms collect_object_ok [of s v rs] show ?thesis by (auto simp: simulates_def)
next
  case (Wrap kind c r v d cb h n wanted)
  with assms wrap_simulates [OF assms(1), of r] show ?thesis by simp
next
  case (RemoveWrap c r v)
  with assms remove_simulates [OF assms(1)] show ?thesis by blast
next
  case (CreateRef r v n)
  with assms create_simulates(1) [OF assms(1)] show ?thesis by simp
next
  case (AddFinalizer r v d cb h wanted)
  with assms create_simulates(2) [OF assms(1)] show ?thesis by simp
next
  case (RefRef r)
  with assms count_simulates(1) [OF assms(1)] show ?thesis by simp
next
  case (RefUnref r)
  with assms count_simulates(2) [OF assms(1)] show ?thesis by simp
next
  case (DeleteRef r)
  with assms delete_simulates [OF assms(1)] show ?thesis by blast
next
  case ClearException
  with assms(1) show ?thesis by (simp add: clear_last_exception_def api_defs simulates_def)
qed (use assms other_simulates in blast)+

lemma no_wraps_inv: "wrap_inv (no_wraps main)"
  by (simp add: wrap_inv_def no_wraps_def init_life own_property_def)

interpretation wrapping: guarded_machine exec_wrap wrap_allowed wrap_inv "no_wraps main" for main
proof
  show "wrap_inv (no_wraps main)" by (rule no_wraps_inv)
  show "\<exists>s'. exec_wrap x s = Returns s' \<and> wrap_inv s'" if "wrap_inv s" "wrap_allowed x s" for x s
    using wrap_step [OF that] by (auto simp: simulates_def)
qed

section \<open>An example run\<close>

text \<open>
  Object 1 is wrapped with data 100, object 2 inherits from it, object 3 is wrapped with a reference for the
  caller and frozen.
\<close>

definition plain_object :: "nat list \<Rightarrow> js_object" where
  "plain_object ps = \<lparr>protos = ps, own_wrapper = None, is_function = False, frozen = False\<rparr>"

definition demo_start :: "wrap_op list" where
  "demo_start = [MakeObject 1 (plain_object [])]"

definition demo_wrap :: wrap_op where
  "demo_wrap = Wrap Sync quiet 10 (Some 1) (Some 100) (Some 7) (Some 5) 0 False"

definition demo_rest :: "wrap_op list" where
  "demo_rest = [MakeObject 2 (plain_object [1]), MakeObject 3 (plain_object []),
     Wrap (Enhance True) quiet 11 (Some 3) (Some 300) None None 0 True, FreezeObject 3, Unwrap quiet (Some 2)]"

definition wrap_demo :: "wrap_op list" where
  "wrap_demo = demo_start @ demo_wrap # demo_rest"

declare dead_object_def [code del]

definition wrap_demo_env :: wrap_env where
  "wrap_demo_env = (case run_all exec_wrap wrap_demo (no_wraps True) of Returns s \<Rightarrow> s | _ \<Rightarrow> no_wraps True)"

lemma wrap_demo_allowed: "all_allowed wrap_allowed exec_wrap wrap_demo (no_wraps True)"
  by code_simp

lemma wrap_demo_run: "run_all exec_wrap wrap_demo (no_wraps True) = Returns wrap_demo_env"
  using wrapping.never_faults [OF wrap_demo_allowed] by (auto simp: wrap_demo_env_def)

section \<open>Properties\<close>





text \<open>The calls that may change what an object is wrapped with.\<close>

fun touches :: "nat \<Rightarrow> wrap_op \<Rightarrow> bool" where
  "touches v (Wrap kind c r u d cb h n wanted) \<longleftrightarrow> u = Some v"
| "touches v (RemoveWrap c r u) \<longleftrightarrow> u = Some v"
| "touches v (CollectObject u rs) \<longleftrightarrow> u = v"
| "touches v _ \<longleftrightarrow> False"

lemma map_effect_other: "takes_effect x s \<Longrightarrow> \<not> touches v x \<Longrightarrow> map_effect x m v = m v"
  by (cases x) (auto simp: wrap_accepted_def remove_accepted_def)

lemma untouched_view:
  "wrap_inv s \<Longrightarrow> all_allowed wrap_allowed exec_wrap xs s \<Longrightarrow> list_all (\<lambda>x. \<not> touches v x) xs \<Longrightarrow>
   run_all exec_wrap xs s = Returns s' \<Longrightarrow> wrap_inv s' \<and> wrapped_view s' v = wrapped_view s v"
proof (induction xs arbitrary: s)
  case (Cons x xs)
  then obtain s1 where s1: "exec_wrap x s = Returns s1" "simulates x s s1" using wrap_step [of s x] by auto
  then have "wrapped_view s1 v = wrapped_view s v"
    using Cons.prems(3) map_effect_other [of x s v] by (auto simp: simulates_def)
  then show ?case using Cons.IH [of s1] Cons.prems s1 by (simp add: simulates_def)
qed simp

lemma unwrap_wrapped:
  assumes "wrap_inv s" and "wrapped_view s v = Some d" and "\<not> lastException s"
  shows "napi_unwrap True quiet (Some v) (Some ()) s = Returns (s\<lparr>lastError := napi_ok\<rparr>, napi_ok, Some d)"
proof -
  from assms(2) obtain p where p: "own_property v s = Some p" "property_data (refs s) p = d"
    by (auto simp: wrapped_view_def)
  have "objects s v \<noteq> None" using p(1) by (cases "objects s v") (simp_all add: own_property_def)
  then have o': "IsObject v s \<or> IsFunction v s" by (simp add: is_object_iff)
  have "wrapped_data (js_Get v s) (s\<lparr>lastError := napi_ok\<rparr>) = Returns d"
    using wrapped_data_property [of "s\<lparr>lastError := napi_ok\<rparr>" v p] assms(1) p js_Get_own [OF p(1)] by simp
  with o' assms(3) show ?thesis
    by (auto simp: napi_unwrap_def CHECK_AND_CONVERT_TO_OBJECT_def api_defs quiet_def)
qed

text \<open>
  Wrap and unwrap.  When an object that is not frozen has been wrapped with a native pointer, unwrapping it gives
  back this pointer after any calls and collections that do not wrap it again, remove the wrap or collect the
  object itself, whatever happens to other objects and references in between.
\<close>

theorem wrap_unwrap:
  assumes "all_allowed wrap_allowed exec_wrap xs (no_wraps main)" and "run_all exec_wrap xs (no_wraps main) = Returns s"
    and "wrap_accepted kind c (Some v) (Some d) cb s" and "\<not> is_frozen v s" and "fresh_ref r s"
    and "exec_wrap (Wrap kind c r (Some v) (Some d) cb h n wanted) s = Returns s1"
    and "all_allowed wrap_allowed exec_wrap ys s1" and "list_all (\<lambda>x. \<not> touches v x) ys"
    and "run_all exec_wrap ys s1 = Returns s'" and "\<not> lastException s'"
  shows "napi_unwrap True quiet (Some v) (Some ()) s' = Returns (s'\<lparr>lastError := napi_ok\<rparr>, napi_ok, Some (Some d))"
proof -
  have "wrap_inv s1" "wrapped_view s1 = (wrapped_view s)(v \<mapsto> Some d)"
    using wrap_simulates [OF wrapping.reached_inv [OF assms(1,2)] assms(5), of kind c "Some v" "Some d" cb h n wanted] assms(3,4,6)
    by (auto simp: simulates_def)
  with untouched_view [OF _ assms(7,8,9)] show ?thesis by (intro unwrap_wrapped assms(10)) simp_all
qed

theorem wrap_unwrap_witness:
  "napi_unwrap True quiet (Some 1) (Some ()) wrap_demo_env =
     Returns (wrap_demo_env\<lparr>lastError := napi_ok\<rparr>, napi_ok, Some (Some 100))"
proof -
  define s where "s = (case run_all exec_wrap demo_start (no_wraps True) of Returns s \<Rightarrow> s | _ \<Rightarrow> no_wraps True)"
  have ok: "all_allowed wrap_allowed exec_wrap demo_start (no_wraps True)" by code_simp
  then have s: "run_all exec_wrap demo_start (no_wraps True) = Returns s"
    using wrapping.never_faults [OF ok] by (auto simp: s_def)
  obtain s1 where s1: "exec_wrap demo_wrap s = Returns s1" "all_allowed wrap_allowed exec_wrap demo_rest s1"
    "run_all exec_wrap demo_rest s1 = Returns wrap_demo_env"
    using wrap_demo_run wrap_demo_allowed
    by (cases "exec_wrap demo_wrap s") (simp_all add: wrap_demo_def run_all_append all_allowed_append s)
  have w: "wrap_accepted Sync quiet (Some 1) (Some 100) (Some 7) s" "\<not> is_frozen 1 s" "fresh_ref 10 s"
    "list_all (\<lambda>x. \<not> touches 1 x) demo_rest" "\<not> lastException wrap_demo_env"
    unfolding s_def by code_simp+
  show ?thesis by (rule wrap_unwrap [OF ok s w(1-3) s1(1) [unfolded demo_wrap_def] s1(2) w(4) s1(3) w(5)])
qed

text \<open>
  Removing a wrap.  Removing the wrap of an object that carries it gives back the native pointer, deletes the
  reference, and takes the object out of the map; the other objects keep theirs.  The finalizer given when the object was wrapped
  is called once, with the pointer that is given back.
\<close>

theorem remove_wrap_effect:
  assumes "all_allowed wrap_allowed exec_wrap xs (no_wraps main)" and "run_all exec_wrap xs (no_wraps main) = Returns s"
    and "own_property v s = Some (Wrapper (Some r # fs))" and "heap (refs s) r = Some k"
    and "\<not> is_frozen v s" and "\<not> lastException s" and "\<not> isInDestructor (refs s)"
  shows "\<exists>s'. napi_remove_wrap True quiet r' (Some v) (Some ()) s = Returns (s', napi_ok, Some (r_data k)) \<and>
    heap (refs s') r = None \<and> wrapped_view s' = (wrapped_view s)(v := None) \<and>
    invoked (refs s') = invoked (refs s) @
      (case r_callback k of None \<Rightarrow> [] | Some cb \<Rightarrow> [(cb, r_data k, r_hint k)])"
proof -
  let ?s = "s\<lparr>lastError := napi_ok\<rparr>"
  have inv: "wrap_inv s" by (rule wrapping.reached_inv [OF assms(1,2)])
  have acc: "remove_accepted quiet (Some v) s"
    using assms(3,6) by (cases "objects s v") (simp_all add: remove_accepted_def entered_def quiet_def own_property_def)
  obtain s' e where s': "remove_body quiet r' v ?s = Returns (s', napi_ok, Some (property_data (refs s) (Wrapper (Some r # fs))))"
    "wrapped_view s' = (wrapped_view s)(v := None)" "destroy_ref (refs s) r = Some e" "refs s' = e"
    using remove_own [of ?s v "Wrapper (Some r # fs)" quiet r'] inv assms(3,5) by (auto simp: quiet_def)
  from own_propertyD [OF inv assms(3)] obtain r1 fs1 k1 where
    "Wrapper (Some r # fs) = Wrapper (Some r1 # fs1)" "heap (refs s) r1 = Some k1" "r_value k1 = Some v" "\<not> GetFinalRun k1" .
  with assms(4) have k: "r_value k = Some v" "\<not> GetFinalRun k" by simp_all
  have "heap e r = None" using destroy_ref_effect [OF s'(3)] by auto
  moreover have "invoked e = invoked (refs s) @ (case r_callback k of None \<Rightarrow> [] | Some cb \<Rightarrow> [(cb, r_data k, r_hint k)])"
    using destroy_invokes [OF assms(4) _ k(2) assms(7) s'(3)] k(1) by simp
  ultimately show ?thesis
    using remove_accepts [OF acc, of r'] s' assms(4) by (simp add: quiet_def property_data_def)
qed

theorem remove_wrap_effect_witness:
  "\<exists>s'. napi_remove_wrap True quiet 12 (Some 1) (Some ()) wrap_demo_env = Returns (s', napi_ok, Some (Some 100)) \<and>
    heap (refs s') 10 = None \<and> invoked (refs s') = [(7, Some 100, Some 5)]"
proof -
  have f: "own_property 1 wrap_demo_env = Some (Wrapper (Some 10 # []))" "\<not> is_frozen 1 wrap_demo_env"
    "\<not> lastException wrap_demo_env" "\<not> isInDestructor (refs wrap_demo_env)" "invoked (refs wrap_demo_env) = []"
    "map_option (\<lambda>k. (r_data k, r_callback k, r_hint k)) (heap (refs wrap_demo_env) 10) = Some (Some 100, Some 7, Some 5)"
    by code_simp+
  then obtain k where k: "heap (refs wrap_demo_env) 10 = Some k" "r_data k = Some 100" "r_callback k = Some 7" "r_hint k = Some 5"
    by (auto simp: map_option_case split: option.splits)
  show ?thesis
    using remove_wrap_effect [OF wrap_demo_allowed wrap_demo_run f(1) k(1) f(2-4), of 12] k f(5) by auto
qed

section \<open>Where the code departs from the map\<close>

text \<open>
  The wrapper is looked up along the prototypes, but only an own property is deleted: removing the wrap of object 2, which has none,
  destroys the reference of object 1 and leaves the wrapper of object 1 pointing to it.  The next unwrap reads freed memory.
\<close>

theorem remove_through_prototype:
  "case napi_remove_wrap True quiet 12 (Some 2) (Some ()) wrap_demo_env of
     Returns (s', st, d) \<Rightarrow> st = napi_ok \<and> d = Some (Some 100) \<and> faults (napi_unwrap True quiet (Some 1) (Some ()) s')
   | _ \<Rightarrow> False"
  by code_simp

text \<open>The result of \<open>Delete\<close> is not looked at: a frozen object keeps the wrapper of the reference that was deleted.\<close>

theorem remove_from_frozen:
  "case napi_remove_wrap True quiet 12 (Some 3) (Some ()) wrap_demo_env of
     Returns (s', st, d) \<Rightarrow> st = napi_ok \<and> d = Some (Some 300) \<and> faults (napi_unwrap True quiet (Some 3) (Some ()) s')
   | _ \<Rightarrow> False"
  by code_simp

text \<open>
  The reference returned to the caller of a wrap dies with the removal; the caller's pointer to it dangles.
\<close>

theorem remove_kills_callers_reference:
  "case run_all exec_wrap [MakeObject 1 (plain_object []), Wrap Sync quiet 10 (Some 1) (Some 100) (Some 7) None 0 True,
       RemoveWrap quiet 12 (Some 1)] (no_wraps True) of
     Returns s \<Rightarrow> faults (napi_delete_reference True (Some 10) s)
   | _ \<Rightarrow> False"
  by code_simp

text \<open>
  \<open>SWITCH_CONTEXT\<close> only gives up on a generic failure: a wrap goes on when the VM could not switch to the engine's context, where
  \<open>napi_unwrap\<close> stops.
\<close>

theorem failed_switch_wraps:
  "case exec_wrap (Wrap Sync \<lparr>switch_answer = Some napi_pending_exception, caught = True\<rparr> 12 (Some 2) (Some 200) (Some 7) None 0 False) wrap_demo_env of
     Returns s \<Rightarrow> wrapped_view s 2 = Some (Some 200) | _ \<Rightarrow> False"
  by code_simp

text \<open>A tagged wrap keeps the pointer to the caller's tag: when its memory is gone, the next tagged unwrap reads it.\<close>

theorem tag_must_outlive_wrap:
  "case napi_wrap_s True quiet 12 (Some 4) (Some 400) (Some 7) None (Some 50) False
       (wrap_demo_env\<lparr>objects := (objects wrap_demo_env)(4 \<mapsto> plain_object []), type_tags := [50 \<mapsto> (1, 2)]\<rparr>) of
     Returns (s', st, r) \<Rightarrow> st = napi_ok \<and>
       faults (napi_unwrap_s True quiet (Some 4) (Some 51) (Some ()) (s'\<lparr>type_tags := [51 \<mapsto> (1, 2)]\<rparr>))
   | _ \<Rightarrow> False"
  by code_simp

end
