(* ===== verification/Type_Tags.thy ===== *)
theory Type_Tags
  imports Napi_Call "HOL-Library.Word"
begin

text \<open>
  Big integers as arrays of words and the type tags kept in them (native\_engine/native\_api.cpp):
  \<open>napi_create_bigint_words\<close>, \<open>napi_get_value_bigint_words\<close>, \<open>napi_type_tag_object\<close> and
  \<open>napi_check_object_type_tag\<close>.

  A BigInt of the VM is a sign and a magnitude, as the language has it; its array of words is the shortest one.
  How many words zero has is not fixed by the language and is the parameter \<open>zero_size\<close>.  A tag is a property of
  the object; \<open>Has\<close> and \<open>Get\<close> follow the prototypes, \<open>Set\<close> makes an own property and answers false on a
  frozen object.  The content of a local variable before it is written is a parameter.
\<close>

section \<open>Words\<close>

fun words_of :: "nat \<Rightarrow> u64 list" where
  "words_of m = (if m = 0 then [] else word_of_nat m # words_of (m div 2 ^ 64))"

declare words_of.simps [simp del]

fun value_of :: "u64 list \<Rightarrow> nat" where
  "value_of [] = 0"
| "value_of (w # ws) = unat w + 2 ^ 64 * value_of ws"

fun strip_zeros :: "u64 list \<Rightarrow> u64 list" where
  "strip_zeros [] = []"
| "strip_zeros (w # ws) = (if w = 0 \<and> strip_zeros ws = [] then [] else w # strip_zeros ws)"

lemma words_of_0 [simp]: "words_of 0 = []"
  by (simp add: words_of.simps)

lemma value_of_words [simp]: "value_of (words_of m) = m"
proof (induction m rule: words_of.induct)
  case (1 m)
  show ?case
  proof (cases "m = 0")
    case False
    then have "value_of (words_of m) = m mod 2 ^ 64 + 2 ^ 64 * (m div 2 ^ 64)"
      using 1 by (simp add: words_of.simps [of m] unat_of_nat)
    then show ?thesis by simp
  qed simp
qed

lemma words_of_step: "words_of (unat (w :: u64) + 2 ^ 64 * n) = (if w = 0 \<and> n = 0 then [] else w # words_of n)"
proof -
  define x where "x = unat w + 2 ^ 64 * n"
  have lt: "unat w < 2 ^ 64" using unsigned_less [of w] by simp
  then have d: "x div 2 ^ 64 = n" by (simp add: x_def)
  have c: "word_of_nat x = w"
    using lt by (simp add: x_def word_unat_eq_iff unat_of_nat del: of_nat_add of_nat_mult)
  have z: "x = 0 \<longleftrightarrow> w = 0 \<and> n = 0" by (simp add: x_def unat_eq_0)
  have "words_of x = (if w = 0 \<and> n = 0 then [] else w # words_of n)"
    by (subst words_of.simps) (simp only: c d z)
  then show ?thesis by (simp only: x_def)
qed

lemma value_of_0: "value_of ws = 0 \<longleftrightarrow> strip_zeros ws = []"
  by (induction ws) (auto simp: unat_eq_0)

lemma words_of_value: "words_of (value_of ws) = strip_zeros ws"
proof (induction ws)
  case (Cons w ws)
  then show ?case using words_of_step [of w "value_of ws"] value_of_0 [of ws] by (simp only: value_of.simps strip_zeros.simps)
qed simp

section \<open>Big integers\<close>

text \<open>\<open>BigIntValue negative magnitude\<close>; other values do not matter here.\<close>

datatype js_value = BigIntValue bool nat | OtherValue

definition CreateBigWords :: "bool \<Rightarrow> u64 list \<Rightarrow> js_value" where
  "CreateBigWords sign ws = (let m = value_of ws in BigIntValue (sign \<and> m \<noteq> 0) m)"

definition GetWordsArraySize :: "nat \<Rightarrow> nat \<Rightarrow> nat" where
  "GetWordsArraySize zero_size m = (if m = 0 then zero_size else length (words_of m))"

text \<open>The first \<open>n\<close> words; the only word zero may have is 0.\<close>

definition GetWordsArray :: "nat \<Rightarrow> nat \<Rightarrow> u64 list" where
  "GetWordsArray m n = take n (words_of m @ replicate (n - length (words_of m)) 0)"

record big_env = call_env +
  js_values :: "nat \<rightharpoonup> js_value"

text \<open>
  C's remainder: the sign bit is taken only from a positive odd number.  The call reads \<open>word_count\<close> words from the
  caller's array; the VM may refuse a number that is too large (\<open>caught\<close>).  The new value is \<open>fresh\<close>.
\<close>

definition napi_create_bigint_words ::
    "bool \<Rightarrow> vm_call \<Rightarrow> nat \<Rightarrow> int \<Rightarrow> nat \<Rightarrow> u64 list option \<Rightarrow> unit option \<Rightarrow> big_env \<Rightarrow>
     (big_env \<times> napi_status \<times> nat option) outcome" where
  "napi_create_bigint_words env c fresh sign_bit word_count words result =
     NAPI_PREAMBLE env c (
     CHECK_ARG words (CHECK_ARG result (
     RETURN_STATUS_IF_FALSE (word_count \<le> INT_MAX) napi_invalid_arg (
     SWITCH_CONTEXT c (\<lambda>s.
     if length (the words) < word_count then Fault
     else if caught c then napi_set_last_error napi_pending_exception None s
     else let sign = (sign_bit > 0 \<and> sign_bit mod 2 = 1)
          in GET_RETURN_STATUS c (Some fresh)
               (s\<lparr>js_values := (js_values s)(fresh \<mapsto> CreateBigWords sign (take word_count (the words)))\<rparr>))))))"

text \<open>
  What is written: the sign and the words when both are asked for (into an array of \<open>word_count\<close> words), and the number of words.
\<close>

record words_out =
  out_sign :: "int option"
  out_count :: nat
  out_words :: "u64 list"

definition napi_get_value_bigint_words ::
    "nat \<Rightarrow> bool \<Rightarrow> nat option \<Rightarrow> unit option \<Rightarrow> nat option \<Rightarrow> unit option \<Rightarrow> big_env \<Rightarrow>
     (big_env \<times> napi_status \<times> words_out option) outcome" where
  "napi_get_value_bigint_words zero_size env v sign_bit word_count words =
     CHECK_ENV env (CHECK_ARG v (CHECK_ARG word_count (\<lambda>s.
     case js_values s (the v) of
       Some (BigIntValue negative m) \<Rightarrow>
         (let size = GetWordsArraySize zero_size m in
          if sign_bit = None \<and> words = None
          then napi_set_last_error napi_ok (Some \<lparr>out_sign = None, out_count = size, out_words = []\<rparr>) s
          else if sign_bit \<noteq> None \<and> words \<noteq> None
          then let size' = (if size > the word_count then the word_count else size)
               in napi_set_last_error napi_ok
                    (Some \<lparr>out_sign = Some (if negative then 1 else 0), out_count = size', out_words = GetWordsArray m size'\<rparr>) s
          else napi_clear_last_error None s)
     | _ \<Rightarrow> napi_set_last_error napi_object_expected None s)))"

section \<open>Type tags\<close>

record tag_object =
  tag_protos :: "nat list"
  own_tag :: "js_value option"
  tag_function :: bool
  tag_frozen :: bool

record tag_env = call_env +
  tag_objects :: "nat \<rightharpoonup> tag_object"

fun first_tag :: "(nat \<rightharpoonup> tag_object) \<Rightarrow> nat list \<Rightarrow> js_value option" where
  "first_tag h [] = None"
| "first_tag h (u # us) = (case Option.bind (h u) own_tag of Some p \<Rightarrow> Some p | None \<Rightarrow> first_tag h us)"

definition get_tag :: "nat \<Rightarrow> tag_env \<Rightarrow> js_value option" where
  "get_tag v s = first_tag (tag_objects s) (v # (case tag_objects s v of None \<Rightarrow> [] | Some x \<Rightarrow> tag_protos x))"

definition set_tag :: "nat \<Rightarrow> js_value \<Rightarrow> tag_env \<Rightarrow> tag_env \<times> bool" where
  "set_tag v p s = (case tag_objects s v of None \<Rightarrow> (s, False)
     | Some x \<Rightarrow> if tag_frozen x then (s, False)
                else (s\<lparr>tag_objects := (tag_objects s)(v \<mapsto> x\<lparr>own_tag := Some p\<rparr>)\<rparr>, True))"

definition is_tag_object :: "nat \<Rightarrow> tag_env \<Rightarrow> bool" where
  "is_tag_object v s = (case tag_objects s v of None \<Rightarrow> False | Some x \<Rightarrow> \<not> tag_function x)"

definition napi_type_tag_object ::
    "bool \<Rightarrow> vm_call \<Rightarrow> nat option \<Rightarrow> (u64 \<times> u64) option \<Rightarrow> tag_env \<Rightarrow> (tag_env \<times> napi_status \<times> unit option) outcome" where
  "napi_type_tag_object env c js_object type_tag =
     NAPI_PREAMBLE env c (
     CHECK_ARG js_object (CHECK_ARG type_tag (SWITCH_CONTEXT c (\<lambda>s.
     RETURN_STATUS_IF_FALSE (is_tag_object (the js_object) s) napi_object_expected (\<lambda>s.
     let (s', result) = (if get_tag (the js_object) s = None
           then set_tag (the js_object) (CreateBigWords False [fst (the type_tag), snd (the type_tag)]) s
           else (s, True))
     in if \<not> result then napi_set_last_error napi_invalid_arg None s'
        else napi_clear_last_error None s') s))))"

definition BigIntGetWordsArray ::
    "nat \<Rightarrow> bool \<Rightarrow> nat \<Rightarrow> unit option \<Rightarrow> nat option \<Rightarrow> unit option \<Rightarrow> bool \<times> words_out option" where
  "BigIntGetWordsArray zero_size negative m signBit wordCount words = (case wordCount of
     None \<Rightarrow> (False, None)
   | Some count \<Rightarrow>
       (let size = GetWordsArraySize zero_size m in
        if signBit = None \<and> words = None
        then (True, Some \<lparr>out_sign = None, out_count = size, out_words = []\<rparr>)
        else if signBit \<noteq> None \<and> words \<noteq> None
        then let size' = (if size > count then count else size)
             in (True, Some \<lparr>out_sign = Some (if negative then 1 else 0), out_count = size', out_words = GetWordsArray m size'\<rparr>)
        else (False, None)))"

text \<open>\<open>garbage\<close> is what the local \<open>tag\<close> holds before words are written to it.\<close>

definition napi_check_object_type_tag ::
    "nat \<Rightarrow> u64 \<times> u64 \<Rightarrow> bool \<Rightarrow> vm_call \<Rightarrow> nat option \<Rightarrow> (u64 \<times> u64) option \<Rightarrow> unit option \<Rightarrow> tag_env \<Rightarrow>
     (tag_env \<times> napi_status \<times> bool option) outcome" where
  "napi_check_object_type_tag zero_size garbage env c js_object type_tag result =
     NAPI_PREAMBLE env c (
     CHECK_ARG js_object (CHECK_ARG type_tag (CHECK_ARG result (SWITCH_CONTEXT c (\<lambda>s.
     RETURN_STATUS_IF_FALSE (is_tag_object (the js_object) s) napi_object_expected (\<lambda>s.
     case get_tag (the js_object) s of
       None \<Rightarrow> napi_clear_last_error (Some False) s
     | Some (BigIntValue negative m) \<Rightarrow>
         (case snd (BigIntGetWordsArray zero_size negative m (Some ()) (Some 2) (Some ())) of
            None \<Rightarrow> napi_clear_last_error (Some True) s
          | Some out \<Rightarrow>
              (let words = out_words out;
                   lower = (if 0 < length words then words ! 0 else fst garbage);
                   upper = (if 1 < length words then words ! 1 else snd garbage)
               in if out_sign out = Some 0 \<and> (out_count out = 1 \<or> out_count out = 2)
                  then napi_clear_last_error (Some (lower = fst (the type_tag) \<and> upper = snd (the type_tag))) s
                  else napi_clear_last_error (Some True) s))
     | Some OtherValue \<Rightarrow> napi_clear_last_error (Some True) s) s)))))"

section \<open>Properties\<close>

lemma tag_upd [simp]:
  "get_tag v (s\<lparr>lastError := x\<rparr>) = get_tag v s" "is_tag_object v (s\<lparr>lastError := x\<rparr>) = is_tag_object v s"
  by (simp_all add: get_tag_def is_tag_object_def)

lemma GetWordsArray_words: "n \<le> length (words_of m) \<Longrightarrow> GetWordsArray m n = take n (words_of m)"
  by (simp add: GetWordsArray_def)

text \<open>
  Words in, words out.  A BigInt made from an array of words reads back as the same words without the
  leading zero words, cut to the room the caller has, with the sign it was given; a zero has no sign.
\<close>

theorem bigint_words_roundtrip:
  assumes "\<not> lastException s" and "length ws \<le> INT_MAX" and "strip_zeros ws \<noteq> []"
  shows "\<exists>s'. napi_create_bigint_words True quiet v (if sign then 1 else 0) (length ws) (Some ws) (Some ()) s =
        Returns (s', napi_ok, Some v) \<and>
        napi_get_value_bigint_words zero_size True (Some v) (Some ()) (Some room) (Some ()) s' =
          Returns (s'\<lparr>lastError := napi_ok\<rparr>, napi_ok, Some \<lparr>out_sign = Some (if sign then 1 else 0),
            out_count = min room (length (strip_zeros ws)), out_words = take room (strip_zeros ws)\<rparr>)"
proof -
  have nz: "value_of ws \<noteq> 0" using assms(3) by (simp add: value_of_0)
  have "GetWordsArray (value_of ws) n = take n (strip_zeros ws)" if "n \<le> length (strip_zeros ws)" for n
    using that by (simp add: GetWordsArray_words words_of_value)
  then show ?thesis using assms nz
    by (cases "length (strip_zeros ws) < room")
      (simp_all add: napi_create_bigint_words_def napi_get_value_bigint_words_def api_defs quiet_def
        CreateBigWords_def GetWordsArraySize_def words_of_value Let_def)
qed

theorem bigint_words_roundtrip_witness:
  "\<exists>s'. napi_create_bigint_words True quiet 3 1 3 (Some [5, 6, 0]) (Some ())
      \<lparr>lastException = False, lastError = napi_ok, js_values = Map.empty\<rparr> = Returns (s', napi_ok, Some 3) \<and>
        napi_get_value_bigint_words 1 True (Some 3) (Some ()) (Some 4) (Some ()) s' =
          Returns (s'\<lparr>lastError := napi_ok\<rparr>, napi_ok, Some \<lparr>out_sign = Some 1, out_count = 2, out_words = [5, 6]\<rparr>)"
proof -
  have e: "length [5, 6, 0 :: u64] = 3" "strip_zeros [5, 6, 0] = [5, 6]" "length [5, 6 :: u64] = 2"
    "take 4 [5, 6 :: u64] = [5, 6]" "min 4 2 = (2 :: nat)" by simp_all
  show ?thesis
    by (rule bigint_words_roundtrip [where ws = "[5, 6, 0]" and sign = True and room = 4, unfolded e if_True])
      (simp_all add: INT_MAX_def)
qed

lemma tag_words: "words_of (value_of [lo, up]) = (if up \<noteq> 0 then [lo, up] else if lo \<noteq> 0 then [lo] else [])"
  by (simp add: words_of_value del: value_of.simps)

text \<open>
  Type tags.  An object that has no tag, neither itself nor from its prototypes, and is not frozen takes a tag; a check then
  compares both halves when the upper half of the tag is not zero.  When it is zero, the tag is
  kept in one word, and the check compares the upper half it asks for with a variable that was never written.
\<close>

theorem type_tag_roundtrip:
  assumes "\<not> lastException s" and "tag_objects s v = Some x" and "\<not> tag_function x" and "\<not> tag_frozen x"
    and "get_tag v s = None" and "lo \<noteq> 0"
  shows "\<exists>s'. napi_type_tag_object True quiet (Some v) (Some (lo, up)) s = Returns (s', napi_ok, None) \<and>
        napi_check_object_type_tag zero_size garbage True quiet (Some v) (Some (lo', up')) (Some ()) s' =
          Returns (s'\<lparr>lastError := napi_ok\<rparr>, napi_ok,
            Some (lo' = lo \<and> up' = (if up \<noteq> 0 then up else snd garbage)))"
proof -
  define m where "m = value_of [lo, up]"
  have nz: "m \<noteq> 0" using assms(6) by (simp add: m_def value_of_0 del: value_of.simps)
  have w: "words_of m = (if up \<noteq> 0 then [lo, up] else [lo])" using tag_words [of lo up] assms(6) by (simp add: m_def)
  have g: "GetWordsArraySize zero_size m = (if up \<noteq> 0 then 2 else 1)"
    "GetWordsArray m 2 = (if up \<noteq> 0 then [lo, up] else [lo, 0])" "GetWordsArray m (Suc 0) = [lo]"
    using nz w by (simp_all add: GetWordsArraySize_def GetWordsArray_def numeral_2_eq_2)
  have b: "CreateBigWords False [lo, up] = BigIntValue False m" by (simp only: CreateBigWords_def Let_def m_def) simp
  define t where "t = s\<lparr>tag_objects := (tag_objects s)(v \<mapsto> x\<lparr>own_tag := Some (BigIntValue False m)\<rparr>), lastError := napi_ok\<rparr>"
  have "napi_type_tag_object True quiet (Some v) (Some (lo, up)) s = Returns (t, napi_ok, None)"
    using assms b by (simp add: napi_type_tag_object_def api_defs quiet_def is_tag_object_def set_tag_def t_def)
  moreover have "get_tag v t = Some (BigIntValue False m)" "is_tag_object v t" "\<not> lastException t"
    using assms by (simp_all add: get_tag_def t_def is_tag_object_def)
  then have "napi_check_object_type_tag zero_size garbage True quiet (Some v) (Some (lo', up')) (Some ()) t =
      Returns (t\<lparr>lastError := napi_ok\<rparr>, napi_ok, Some (lo' = lo \<and> up' = (if up \<noteq> 0 then up else snd garbage)))"
    using g by (auto simp: napi_check_object_type_tag_def api_defs quiet_def BigIntGetWordsArray_def Let_def)
  ultimately show ?thesis by blast
qed

definition tag_demo :: tag_env where
  "tag_demo = \<lparr>lastException = False, lastError = napi_ok,
     tag_objects = [1 \<mapsto> \<lparr>tag_protos = [], own_tag = None, tag_function = False, tag_frozen = False\<rparr>,
       2 \<mapsto> \<lparr>tag_protos = [1], own_tag = None, tag_function = False, tag_frozen = False\<rparr>]\<rparr>"

theorem type_tag_roundtrip_witness:
  "\<exists>s'. napi_type_tag_object True quiet (Some 1) (Some (7, 8)) tag_demo = Returns (s', napi_ok, None) \<and>
        napi_check_object_type_tag 1 (0, 0) True quiet (Some 1) (Some (7, 8)) (Some ()) s' =
          Returns (s'\<lparr>lastError := napi_ok\<rparr>, napi_ok, Some True)"
  using type_tag_roundtrip [where s = tag_demo and v = 1 and lo = 7 and up = 8 and zero_size = 1 and garbage = "(0, 0)" and lo' = 7 and up' = 8]
  by (simp add: tag_demo_def get_tag_def)

section \<open>Where a check says too much\<close>

definition check_result :: "(tag_env \<times> napi_status \<times> bool option) outcome \<Rightarrow> bool option" where
  "check_result r = (case r of Returns (s, st, out) \<Rightarrow> out | _ \<Rightarrow> None)"

definition with_tag :: "js_value \<Rightarrow> tag_env" where
  "with_tag p = fst (set_tag 1 p tag_demo)"

text \<open>
  Any value of the property that is not a BigInt, a negative BigInt, and a BigInt that agrees in the lowest
  two words pass every check; the property is an ordinary one that scripts can set.
\<close>

theorem forged_tags_pass:
  "check_result (napi_check_object_type_tag zero_size garbage True quiet (Some 1) (Some (lo, up)) (Some ()) (with_tag OtherValue)) = Some True"
  "check_result (napi_check_object_type_tag 1 garbage True quiet (Some 1) (Some (lo, up)) (Some ()) (with_tag (BigIntValue True 1))) = Some True"
  "check_result (napi_check_object_type_tag 1 garbage True quiet (Some 1) (Some (7, 8)) (Some ())
     (with_tag (BigIntValue False (value_of [7, 8, 9])))) = Some True"
proof -
  have w: "words_of (value_of [7, 8, 9]) = [7, 8, 9]" "words_of 1 = [1]"
    by (simp_all add: words_of_value words_of.simps [of "Suc 0"] del: value_of.simps)
  define m where "m = value_of [7, 8, 9]"
  have m: "words_of m = [7, 8, 9]" "m \<noteq> 0" using w(1) by (auto simp: m_def)
  note defs = check_result_def napi_check_object_type_tag_def api_defs quiet_def is_tag_object_def with_tag_def tag_demo_def
    set_tag_def get_tag_def BigIntGetWordsArray_def GetWordsArraySize_def GetWordsArray_def Let_def numeral_2_eq_2
  show "check_result (napi_check_object_type_tag zero_size garbage True quiet (Some 1) (Some (lo, up)) (Some ()) (with_tag OtherValue)) = Some True"
    by (simp add: defs)
  show "check_result (napi_check_object_type_tag 1 garbage True quiet (Some 1) (Some (lo, up)) (Some ()) (with_tag (BigIntValue True 1))) = Some True"
    using w(2) by (simp add: defs)
  show "check_result (napi_check_object_type_tag 1 garbage True quiet (Some 1) (Some (7, 8)) (Some ())
     (with_tag (BigIntValue False (value_of [7, 8, 9])))) = Some True"
    using m unfolding m_def [symmetric] by (simp add: defs)
qed

text \<open>A second tag is dropped and the call succeeds; an object whose prototype has a tag cannot get its own.\<close>

theorem second_tag_dropped:
  "\<exists>s1 s2. napi_type_tag_object True quiet (Some 1) (Some (7, 8)) tag_demo = Returns (s1, napi_ok, None) \<and>
     napi_type_tag_object True quiet (Some 2) (Some (5, 6)) s1 = Returns (s2, napi_ok, None) \<and>
     check_result (napi_check_object_type_tag 1 (0, 0) True quiet (Some 2) (Some (5, 6)) (Some ()) s2) = Some False \<and>
     check_result (napi_check_object_type_tag 1 (0, 0) True quiet (Some 2) (Some (7, 8)) (Some ()) s2) = Some True"
proof -
  define m where "m = value_of [7, 8]"
  have m: "words_of m = [7, 8]" "m \<noteq> 0" using tag_words [of 7 8] by (auto simp: m_def)
  have b: "CreateBigWords False [7, 8] = BigIntValue False m" by (simp only: CreateBigWords_def Let_def m_def) simp
  show ?thesis using m b
    by (simp add: check_result_def napi_check_object_type_tag_def napi_type_tag_object_def api_defs quiet_def is_tag_object_def
        tag_demo_def set_tag_def get_tag_def BigIntGetWordsArray_def GetWordsArraySize_def GetWordsArray_def Let_def numeral_2_eq_2)
qed

end
