(* ===== verification/Handle_Scopes.thy ===== *)
theory Handle_Scopes
  imports Napi_Call "HOL-Library.Word"
begin

text \<open>
  Handle scopes (native\_engine/native\_api.cpp): plain and escapable scopes are objects the caller opens and closes;
  the engine only counts them, and an escapable scope lets one handle out.  The scopes inside the VM
  (\<open>LocalScope\<close>, \<open>EscapeLocalScope\<close>) are left out: a handle is a value, and what \<open>Escape\<close> returns is the parameter
  \<open>escaped\<close>.  Closing or using a freed scope is \<open>Fault\<close>.
\<close>

section \<open>State and calls\<close>

datatype handle_scope = PlainScope | EscapableScope bool

record scope_env = call_env +
  openHandleScopes :: u64
  open_scopes :: "addr \<rightharpoonup> handle_scope"

definition new_scope :: "addr \<Rightarrow> handle_scope \<Rightarrow> scope_env \<Rightarrow> scope_env" where
  "new_scope a x s = s\<lparr>open_scopes := (open_scopes s)(a \<mapsto> x), openHandleScopes := openHandleScopes s + 1\<rparr>"

definition napi_open_handle_scope ::
    "bool \<Rightarrow> addr \<Rightarrow> unit option \<Rightarrow> scope_env \<Rightarrow> (scope_env \<times> napi_status \<times> addr option) outcome" where
  "napi_open_handle_scope env a result =
     CHECK_ENV env (CHECK_ARG result (\<lambda>s. napi_clear_last_error (Some a) (new_scope a PlainScope s)))"

definition napi_open_escapable_handle_scope ::
    "bool \<Rightarrow> addr \<Rightarrow> unit option \<Rightarrow> scope_env \<Rightarrow> (scope_env \<times> napi_status \<times> addr option) outcome" where
  "napi_open_escapable_handle_scope env a result =
     CHECK_ENV env (CHECK_ARG result (\<lambda>s. napi_clear_last_error (Some a) (new_scope a (EscapableScope False) s)))"

text \<open>The status of a mismatch is returned without being noted as the last error.\<close>

definition close_scope :: "addr option \<Rightarrow> scope_env \<Rightarrow> (scope_env \<times> napi_status \<times> unit option) outcome" where
  "close_scope scope s =
     (if openHandleScopes s = 0 then Returns (s, napi_handle_scope_mismatch, None)
      else deref (open_scopes s (the scope)) (\<lambda>x.
        napi_clear_last_error None (s\<lparr>openHandleScopes := openHandleScopes s - 1,
          open_scopes := (open_scopes s)(the scope := None)\<rparr>)))"

definition napi_close_handle_scope ::
    "bool \<Rightarrow> addr option \<Rightarrow> scope_env \<Rightarrow> (scope_env \<times> napi_status \<times> unit option) outcome" where
  "napi_close_handle_scope env scope = CHECK_ENV env (CHECK_ARG scope (close_scope scope))"

definition napi_close_escapable_handle_scope ::
    "bool \<Rightarrow> addr option \<Rightarrow> scope_env \<Rightarrow> (scope_env \<times> napi_status \<times> unit option) outcome" where
  "napi_close_escapable_handle_scope env scope = CHECK_ENV env (CHECK_ARG scope (close_scope scope))"

text \<open>Reading \<open>escapeCalled_\<close> of a scope that is not an escapable one is \<open>Fault\<close> too.\<close>

definition napi_escape_handle ::
    "(nat \<Rightarrow> nat) \<Rightarrow> bool \<Rightarrow> addr option \<Rightarrow> nat option \<Rightarrow> unit option \<Rightarrow> scope_env \<Rightarrow> (scope_env \<times> napi_status \<times> nat option) outcome" where
  "napi_escape_handle escaped env scope escapee result =
     CHECK_ENV env (CHECK_ARG scope (CHECK_ARG escapee (CHECK_ARG result (\<lambda>s.
     case open_scopes s (the scope) of
       Some (EscapableScope escapeCalled) \<Rightarrow>
         if \<not> escapeCalled
         then napi_clear_last_error (Some (escaped (the escapee)))
                (s\<lparr>open_scopes := (open_scopes s)(the scope \<mapsto> EscapableScope True)\<rparr>)
         else napi_set_last_error napi_escape_called_twice None s
     | _ \<Rightarrow> Fault))))"

section \<open>Sequences of calls\<close>

datatype scope_op =
    OpenScope addr
  | OpenEscapable addr
  | CloseScope "addr option"
  | CloseEscapable "addr option"
  | Escape "addr option" "nat option"

fun exec_scope :: "scope_op \<Rightarrow> scope_env \<times> (addr \<times> napi_status) list \<Rightarrow> (scope_env \<times> (addr \<times> napi_status) list) outcome" where
  "exec_scope (OpenScope a) (s, log) = obind (napi_open_handle_scope True a (Some ()) s) (\<lambda>(s', r). Returns (s', log))"
| "exec_scope (OpenEscapable a) (s, log) = obind (napi_open_escapable_handle_scope True a (Some ()) s) (\<lambda>(s', r). Returns (s', log))"
| "exec_scope (CloseScope p) (s, log) = obind (napi_close_handle_scope True p s) (\<lambda>(s', r). Returns (s', log))"
| "exec_scope (CloseEscapable p) (s, log) = obind (napi_close_escapable_handle_scope True p s) (\<lambda>(s', r). Returns (s', log))"
| "exec_scope (Escape p v) (s, log) = obind (napi_escape_handle id True p v (Some ()) s) (\<lambda>(s', st, out).
     Returns (s', case p of None \<Rightarrow> log | Some a \<Rightarrow> log @ [(a, st)]))"

text \<open>
  What the caller owes: the allocator gives new addresses; a scope is closed, if any is open, and used with its own kind of
  call; fewer than \<open>2 ^ 64 - 1\<close> scopes are open.  An address that was used before is not given again, so that
  the answers of a scope can be told apart.
\<close>

fun scope_allowed :: "scope_op \<Rightarrow> scope_env \<times> (addr \<times> napi_status) list \<Rightarrow> bool" where
  "scope_allowed (OpenScope a) (s, log) \<longleftrightarrow> open_scopes s a = None \<and> a \<notin> fst ` set log \<and> openHandleScopes s \<noteq> - 1"
| "scope_allowed (OpenEscapable a) (s, log) \<longleftrightarrow> open_scopes s a = None \<and> a \<notin> fst ` set log \<and> openHandleScopes s \<noteq> - 1"
| "scope_allowed (CloseScope p) (s, log) \<longleftrightarrow>
     (case p of None \<Rightarrow> True | Some a \<Rightarrow> openHandleScopes s = 0 \<or> open_scopes s a = Some PlainScope)"
| "scope_allowed (CloseEscapable p) (s, log) \<longleftrightarrow>
     (case p of None \<Rightarrow> True | Some a \<Rightarrow> openHandleScopes s = 0 \<or>
        open_scopes s a = Some (EscapableScope False) \<or> open_scopes s a = Some (EscapableScope True))"
| "scope_allowed (Escape p v) (s, log) \<longleftrightarrow>
     (case p of None \<Rightarrow> True | Some a \<Rightarrow> v \<noteq> None \<and>
        (open_scopes s a = Some (EscapableScope False) \<or> open_scopes s a = Some (EscapableScope True)))"

definition answers :: "addr \<Rightarrow> (addr \<times> napi_status) list \<Rightarrow> napi_status list" where
  "answers a log = map snd (filter (\<lambda>p. fst p = a) log)"

text \<open>The answers a scope gives to attempts to escape: one success, then refusals.\<close>

definition escapes_once :: "napi_status list \<Rightarrow> bool" where
  "escapes_once sts \<longleftrightarrow> (case sts of [] \<Rightarrow> True
     | st # later \<Rightarrow> st = napi_ok \<and> list_all (\<lambda>x. x = napi_escape_called_twice) later)"

definition scope_inv :: "scope_env \<times> (addr \<times> napi_status) list \<Rightarrow> bool" where
  "scope_inv x \<longleftrightarrow> (case x of (s, log) \<Rightarrow>
     finite (dom (open_scopes s)) \<and> card (dom (open_scopes s)) = unat (openHandleScopes s) \<and>
     (\<forall>a. escapes_once (answers a log) \<and>
        (case open_scopes s a of
           None \<Rightarrow> True
         | Some PlainScope \<Rightarrow> answers a log = []
         | Some (EscapableScope called) \<Rightarrow> called \<longleftrightarrow> answers a log \<noteq> [])))"

definition no_scopes :: "scope_env \<times> (addr \<times> napi_status) list" where
  "no_scopes = (\<lparr>lastException = False, lastError = napi_ok, openHandleScopes = 0, open_scopes = Map.empty\<rparr>, [])"

lemma answers_fresh: "a \<notin> fst ` set log \<Longrightarrow> answers a log = []"
  by (auto simp: answers_def filter_empty_conv)

lemma answers_snoc: "answers a (log @ [(b, st)]) = (if a = b then answers a log @ [st] else answers a log)"
  by (simp add: answers_def)

lemma open_inv:
  assumes "scope_inv (s, log)" and "open_scopes s a = None" "a \<notin> fst ` set log" "openHandleScopes s \<noteq> - 1"
    and "x \<noteq> EscapableScope True"
  shows "scope_inv ((new_scope a x s)\<lparr>lastError := e\<rparr>, log)"
proof -
  have fin: "finite (dom (open_scopes s))" "card (dom (open_scopes s)) = unat (openHandleScopes s)"
    and each: "\<And>b. escapes_once (answers b log) \<and> (case open_scopes s b of None \<Rightarrow> True
      | Some PlainScope \<Rightarrow> answers b log = [] | Some (EscapableScope c) \<Rightarrow> c \<longleftrightarrow> answers b log \<noteq> [])"
    using assms(1) by (simp_all add: scope_inv_def)
  have "a \<notin> dom (open_scopes s)" using assms(2) by auto
  moreover have "unat (openHandleScopes s + 1) = unat (openHandleScopes s) + 1"
    using assms(4) by (metis Suc_eq_plus1 add.commute add_eq_0_iff unatSuc)
  moreover have "escapes_once (answers b log) \<and> (case (if b = a then Some x else open_scopes s b) of None \<Rightarrow> True
      | Some PlainScope \<Rightarrow> answers b log = [] | Some (EscapableScope c) \<Rightarrow> c \<longleftrightarrow> answers b log \<noteq> [])" for b
    using each [of b] answers_fresh [OF assms(3)] assms(5) by (auto split: handle_scope.split)
  ultimately show ?thesis using fin by (simp add: scope_inv_def new_scope_def)
qed

lemma close_inv:
  assumes "scope_inv (s, log)" and "openHandleScopes s \<noteq> 0" and "open_scopes s a = Some x"
  shows "scope_inv (s\<lparr>openHandleScopes := openHandleScopes s - 1, open_scopes := (open_scopes s)(a := None), lastError := e\<rparr>, log)"
proof -
  have fin: "finite (dom (open_scopes s))" "card (dom (open_scopes s)) = unat (openHandleScopes s)"
    and each: "\<And>b. escapes_once (answers b log)"
      "\<And>b. case open_scopes s b of None \<Rightarrow> True
      | Some PlainScope \<Rightarrow> answers b log = [] | Some (EscapableScope c) \<Rightarrow> c \<longleftrightarrow> answers b log \<noteq> []"
    using assms(1) by (simp_all add: scope_inv_def)
  have "card (dom (open_scopes s) - {a}) = unat (openHandleScopes s - 1)"
    using assms(2,3) fin by (subst card_Diff_singleton) (auto simp: unat_minus_one)
  then show ?thesis using fin each by (simp add: scope_inv_def)
qed

lemma escape_inv:
  assumes "scope_inv (s, log)" and "open_scopes s a = Some (EscapableScope c)"
  shows "scope_inv (s\<lparr>open_scopes := (open_scopes s)(a \<mapsto> EscapableScope True), lastError := e\<rparr>,
      log @ [(a, if c then napi_escape_called_twice else napi_ok)])"
    and "c \<Longrightarrow> scope_inv (s\<lparr>lastError := e\<rparr>, log @ [(a, napi_escape_called_twice)])"
proof -
  have fin: "finite (dom (open_scopes s))" "card (dom (open_scopes s)) = unat (openHandleScopes s)"
    and each: "\<And>b. escapes_once (answers b log)"
      "\<And>b. case open_scopes s b of None \<Rightarrow> True
      | Some PlainScope \<Rightarrow> answers b log = [] | Some (EscapableScope c) \<Rightarrow> c \<longleftrightarrow> answers b log \<noteq> []"
    using assms(1) by (simp_all add: scope_inv_def)
  have c: "c \<longleftrightarrow> answers a log \<noteq> []" using each(2) [of a] assms(2) by simp
  have dom: "insert a (dom (open_scopes s)) = dom (open_scopes s)" using assms(2) by auto
  have once: "escapes_once (answers a log @ [if c then napi_escape_called_twice else napi_ok])"
    using each(1) [of a] c by (cases "answers a log") (auto simp: escapes_once_def)
  show one: "scope_inv (s\<lparr>open_scopes := (open_scopes s)(a \<mapsto> EscapableScope True), lastError := e\<rparr>,
      log @ [(a, if c then napi_escape_called_twice else napi_ok)])"
  proof -
    define st where "st = (if c then napi_escape_called_twice else napi_ok)"
    have "escapes_once (answers b (log @ [(a, st)])) \<and>
        (case (if b = a then Some (EscapableScope True) else open_scopes s b) of None \<Rightarrow> True
         | Some PlainScope \<Rightarrow> answers b (log @ [(a, st)]) = []
         | Some (EscapableScope c) \<Rightarrow> c \<longleftrightarrow> answers b (log @ [(a, st)]) \<noteq> [])" for b
    proof (cases "b = a")
      case True
      then show ?thesis using once by (simp add: answers_snoc st_def)
    next
      case False
      then have "answers b (log @ [(a, st)]) = answers b log" by (simp add: answers_snoc)
      then show ?thesis using False each(1) [of b] each(2) [of b] by (simp only: fun_upd_apply if_False)
    qed
    then show ?thesis using fin unfolding st_def [symmetric] by (simp add: scope_inv_def dom)
  qed
  assume c
  with assms(2) have "(open_scopes s)(a \<mapsto> EscapableScope True) = open_scopes s" by auto
  with one \<open>c\<close> show "scope_inv (s\<lparr>lastError := e\<rparr>, log @ [(a, napi_escape_called_twice)])" by simp
qed

lemma scope_inv_upd [simp]: "scope_inv (s\<lparr>lastError := e\<rparr>, log) = scope_inv (s, log)"
  by (simp add: scope_inv_def)

lemma scope_step:
  assumes "scope_inv sl" and "scope_allowed x sl"
  shows "\<exists>sl'. exec_scope x sl = Returns sl' \<and> scope_inv sl'"
proof (cases sl)
  case (Pair s log)
  note inv = assms(1) [unfolded Pair]
  show ?thesis
  proof (cases x)
    case (OpenScope a)
    with assms(2) open_inv [OF inv, of a PlainScope] show ?thesis
      by (auto simp: Pair napi_open_handle_scope_def api_defs)
  next
    case (OpenEscapable a)
    with assms(2) open_inv [OF inv, of a "EscapableScope False"] show ?thesis
      by (auto simp: Pair napi_open_escapable_handle_scope_def api_defs)
  next
    case (CloseScope p)
    with assms(2) inv close_inv [OF inv] show ?thesis
      by (cases p) (auto simp: Pair napi_close_handle_scope_def close_scope_def api_defs)
  next
    case (CloseEscapable p)
    with assms(2) inv close_inv [OF inv] show ?thesis
      by (cases p) (auto simp: Pair napi_close_escapable_handle_scope_def close_scope_def api_defs)
  next
    case (Escape p v)
    with assms(2) inv escape_inv [OF inv] show ?thesis
      by (cases p) (fastforce simp: Pair napi_escape_handle_def api_defs)+
  qed
qed

interpretation handle_scopes: guarded_machine exec_scope scope_allowed scope_inv no_scopes
proof
  show "scope_inv no_scopes" by (simp add: scope_inv_def no_scopes_def answers_def escapes_once_def)
qed (rule scope_step)

section \<open>Properties\<close>

definition scope_demo :: "scope_op list" where
  "scope_demo = [OpenScope 1, OpenEscapable 2, Escape (Some 2) (Some 9), Escape (Some 2) (Some 9),
     CloseEscapable (Some 2), CloseScope (Some 1), CloseScope (Some 1)]"

text \<open>
  Handle scopes.  Opening, closing and escaping in any order touches no freed scope, the engine's counter is the number
  of open scopes, and each escapable scope lets exactly the first handle out and refuses every later one.
\<close>

theorem handle_scopes_balanced:
  assumes "all_allowed scope_allowed exec_scope ops no_scopes"
  shows "\<exists>s log. run_all exec_scope ops no_scopes = Returns (s, log) \<and>
    card (dom (open_scopes s)) = unat (openHandleScopes s) \<and> (\<forall>a. escapes_once (answers a log))"
  using handle_scopes.never_faults [OF assms] by (auto simp: scope_inv_def)

theorem handle_scopes_balanced_witness:
  "\<exists>s log. run_all exec_scope scope_demo no_scopes = Returns (s, log) \<and>
    card (dom (open_scopes s)) = unat (openHandleScopes s) \<and> (\<forall>a. escapes_once (answers a log))"
proof (rule handle_scopes_balanced)
  show "all_allowed scope_allowed exec_scope scope_demo no_scopes"
    by (simp add: scope_demo_def no_scopes_def napi_open_handle_scope_def napi_open_escapable_handle_scope_def
        napi_close_handle_scope_def napi_close_escapable_handle_scope_def napi_escape_handle_def close_scope_def new_scope_def api_defs)
qed

text \<open>
  The counter does not tell the scopes apart: with another scope open, a scope that was closed is closed again and
  freed twice.
\<close>

theorem scope_closed_twice:
  "faults (run_all exec_scope [OpenScope 1, OpenScope 2, CloseScope (Some 2), CloseScope (Some 2)] no_scopes)"
  by (simp add: faults_def no_scopes_def napi_open_handle_scope_def napi_close_handle_scope_def close_scope_def new_scope_def api_defs)

end
