(* ===== verification/Native_Timers.thy ===== *)
theory Native_Timers
  imports Reference_Manager Machines
begin

text \<open>
  Timers of the VM (native\_engine/impl/ark/ark\_native\_timer.cpp and .h).  A timer is an object in a doubly linked
  list of the engine and a handle of libuv, which lives on until libuv has closed it.  The links are the
  record \<open>ref_mgr\<close> of the reference manager, whose list the timers share.

  libuv is modelled as documented: a started handle is due until it is stopped, one with a repeat of 0 is due once; a
  closed handle is kept in \<open>uv_closing\<close> until its close callback is called, and reading it there after it was freed is
  \<open>Fault\<close>.  \<open>uv_timer_init\<close> and \<open>uv_timer_start\<close> may fail; the answers are parameters.
\<close>

section \<open>State\<close>

record timer_info =
  cb_fn :: nat
  cb_data :: nat
  repeat_timer :: bool
  timeoutExecuting :: bool
  timerReq :: "addr option"

record uv_timer =
  req_data :: "addr option"
  req_active :: bool
  req_repeats :: bool

text \<open>
  \<open>in_callback\<close> is the running timer callback with its local \<open>repeat\<close>: libuv calls one at a time.  The calls made are
  kept in \<open>timer_calls\<close>, newest first.
\<close>

record timer_engine =
  timerList :: ref_mgr
  infos :: "addr \<rightharpoonup> timer_info"
  reqs :: "addr \<rightharpoonup> uv_timer"
  uv_closing :: "addr list"
  in_callback :: "(addr \<times> bool) option"
  timer_calls :: "(addr \<times> nat \<times> nat) list"

section \<open>The list\<close>

definition timer_Insert :: "ref_mgr \<Rightarrow> addr \<Rightarrow> ref_mgr option" where
  "timer_Insert l this =
     (let timerListHead = references l in
      Option.bind
        (case timerListHead of
           None \<Rightarrow> Some (nodes l)
         | Some h \<Rightarrow> Option.bind (set_prev (nodes l) (Some h) (Some this)) (\<lambda>m. set_next m (Some this) (Some h)))
        (\<lambda>m. Some (l\<lparr>nodes := m, references := Some this\<rparr>)))"

definition Erase :: "ref_mgr \<Rightarrow> addr \<Rightarrow> ref_mgr option" where
  "Erase l this =
     Option.bind (nodes l this) (\<lambda>n.
     Option.bind (set_next (nodes l) (prev_link n) (next_link n)) (\<lambda>m1.
     let head = (if references l = Some this then next_link n else references l) in
     Option.bind (set_prev m1 (next_link n) (prev_link n)) (\<lambda>m2.
     Option.bind (upd_at m2 this (\<lambda>n. n\<lparr>next_link := None, prev_link := None\<rparr>)) (\<lambda>m3.
       Some (l\<lparr>nodes := m3, references := head\<rparr>)))))"

section \<open>Creation and destruction\<close>

text \<open>The destructor: the handle is stopped and handed to \<open>uv_close\<close>, whose callback frees it.\<close>

definition destroy_info :: "addr \<Rightarrow> timer_engine \<Rightarrow> timer_engine outcome" where
  "destroy_info a s =
     deref (infos s a) (\<lambda>i.
     obind (case timerReq i of
              None \<Rightarrow> Returns s
            | Some q \<Rightarrow> deref (reqs s q) (\<lambda>r.
                Returns (s\<lparr>reqs := (reqs s)(q \<mapsto> r\<lparr>req_data := None, req_active := False\<rparr>),
                           uv_closing := uv_closing s @ [q]\<rparr>)))
       (\<lambda>s. Returns (s\<lparr>infos := (infos s)(a := None),
                       timerList := (timerList s)\<lparr>nodes := (nodes (timerList s))(a := None)\<rparr>\<rparr>)))"

text \<open>\<open>engine_ok\<close> and \<open>loop_ok\<close>: the pointers are not null.  A failed start closes the handle and frees it at once.\<close>

definition timer_Init ::
    "bool \<Rightarrow> bool \<Rightarrow> bool \<Rightarrow> bool \<Rightarrow> addr \<Rightarrow> u64 \<Rightarrow> addr \<Rightarrow> timer_engine \<Rightarrow> (timer_engine \<times> bool) outcome" where
  "timer_Init engine_ok loop_ok init_ok start_ok q timeout a s =
     (if \<not> engine_ok then Returns (s, False)
      else if \<not> loop_ok then Returns (s, False)
      else deref (infos s a) (\<lambda>i.
        let r = \<lparr>req_data = Some a, req_active = False, req_repeats = False\<rparr> in
        if \<not> init_ok then Returns (s\<lparr>infos := (infos s)(a \<mapsto> i\<lparr>timerReq := None\<rparr>), reqs := (reqs s)(q := None)\<rparr>, False)
        else if \<not> start_ok
        then Returns (s\<lparr>infos := (infos s)(a \<mapsto> i\<lparr>timerReq := None\<rparr>), reqs := (reqs s)(q := None),
                        uv_closing := uv_closing s @ [q]\<rparr>, False)
        else Returns (s\<lparr>infos := (infos s)(a \<mapsto> i\<lparr>timerReq := Some q\<rparr>),
                        reqs := (reqs s)(q \<mapsto> r\<lparr>req_active := True, req_repeats := timeout \<noteq> 0\<rparr>)\<rparr>, True)))"

definition TimerTaskCallback ::
    "bool \<Rightarrow> bool \<Rightarrow> bool \<Rightarrow> bool \<Rightarrow> bool \<Rightarrow> addr \<Rightarrow> addr \<Rightarrow> nat \<Rightarrow> nat option \<Rightarrow> u64 \<Rightarrow> bool \<Rightarrow> timer_engine \<Rightarrow>
     (timer_engine \<times> addr option) outcome" where
  "TimerTaskCallback vm engine_ok loop_ok init_ok start_ok a q data func timeout repeat s =
     (if \<not> vm \<or> func = None then Returns (s, None)
      else let s1 = s\<lparr>infos := (infos s)(a \<mapsto> \<lparr>cb_fn = the func, cb_data = data, repeat_timer = repeat,
                                          timeoutExecuting = False, timerReq = None\<rparr>),
                      timerList := (timerList s)\<lparr>nodes := (nodes (timerList s))(a \<mapsto> new_node)\<rparr>\<rparr>
           in obind (timer_Init engine_ok loop_ok init_ok start_ok q timeout a s1) (\<lambda>(s2, ok).
              if \<not> ok then obind (destroy_info a s2) (\<lambda>s3. Returns (s3, None))
              else deref (timer_Insert (timerList s2) a) (\<lambda>l. Returns (s2\<lparr>timerList := l\<rparr>, Some a))))"

definition erase_and_delete :: "addr \<Rightarrow> timer_engine \<Rightarrow> timer_engine outcome" where
  "erase_and_delete a s = deref (Erase (timerList s) a) (\<lambda>l. destroy_info a (s\<lparr>timerList := l\<rparr>))"

definition CancelTimerCallback :: "addr option \<Rightarrow> timer_engine \<Rightarrow> timer_engine outcome" where
  "CancelTimerCallback timerCallbackInfo s =
     (case timerCallbackInfo of
        None \<Rightarrow> Returns s
      | Some a \<Rightarrow> deref (infos s a) (\<lambda>i.
          if timeoutExecuting i then Returns s else erase_and_delete a s))"

partial_function (option) ReleaseTimerList :: "timer_engine \<Rightarrow> timer_engine outcome option" where
  "ReleaseTimerList s =
     (case references (timerList s) of
        None \<Rightarrow> Some (Returns s)
      | Some a \<Rightarrow> (case erase_and_delete a s of
          Fault \<Rightarrow> Some Fault
        | Aborts \<Rightarrow> Some Aborts
        | Returns s' \<Rightarrow> ReleaseTimerList s'))"

section \<open>The loop's side\<close>

text \<open>
  \<open>TimerCallback\<close> up to the call of \<open>cb_\<close>, with what libuv did before: the handle is due again when it repeats.  The
  callback runs between the two parts and may use the API.
\<close>

definition TimerCallback_begin :: "addr \<Rightarrow> timer_engine \<Rightarrow> timer_engine outcome" where
  "TimerCallback_begin q s =
     deref (reqs s q) (\<lambda>r.
     deref (req_data r) (\<lambda>a.
     deref (infos s a) (\<lambda>i.
       let repeat = repeat_timer i in
       Returns (s\<lparr>reqs := (reqs s)(q \<mapsto> r\<lparr>req_active := req_repeats r\<rparr>),
                  infos := (infos s)(a \<mapsto> (if \<not> repeat then i\<lparr>timeoutExecuting := True\<rparr> else i)),
                  in_callback := Some (a, repeat),
                  timer_calls := (a, cb_fn i, cb_data i) # timer_calls s\<rparr>))))"

definition TimerCallback_end :: "timer_engine \<Rightarrow> timer_engine outcome" where
  "TimerCallback_end s =
     (case in_callback s of
        None \<Rightarrow> Returns s
      | Some (a, repeat) \<Rightarrow>
          let s' = s\<lparr>in_callback := None\<rparr> in if \<not> repeat then erase_and_delete a s' else Returns s')"

text \<open>libuv calls the close callback of the handle that was closed first, which frees it.\<close>

definition uv_close_turn :: "timer_engine \<Rightarrow> timer_engine outcome" where
  "uv_close_turn s =
     (case uv_closing s of
        [] \<Rightarrow> Returns s
      | q # qs \<Rightarrow> deref (reqs s q) (\<lambda>r. Returns (s\<lparr>reqs := (reqs s)(q := None), uv_closing := qs\<rparr>)))"

section \<open>The invariant\<close>

text \<open>
  \<open>timer_list s xs\<close>: the list holds the live timers \<open>xs\<close>, each timer owns a handle of libuv that points back to it,
  and the handles that point nowhere are the ones being closed.
\<close>

definition handle_of :: "timer_engine \<Rightarrow> addr \<Rightarrow> addr option" where
  "handle_of s a = Option.bind (infos s a) timerReq"

definition timer_of :: "timer_engine \<Rightarrow> addr \<Rightarrow> addr option" where
  "timer_of s q = Option.bind (reqs s q) req_data"

definition timer_list :: "timer_engine \<Rightarrow> addr list \<Rightarrow> bool" where
  "timer_list s xs \<longleftrightarrow> dll (timerList s) xs \<and> set xs = dom (infos s) \<and> dom (nodes (timerList s)) = set xs"

definition handles_ok :: "timer_engine \<Rightarrow> bool" where
  "handles_ok s \<longleftrightarrow>
     (\<forall>a \<in> dom (infos s). \<exists>q. handle_of s a = Some q \<and> timer_of s q = Some a) \<and>
     (\<forall>q a. timer_of s q = Some a \<longrightarrow> handle_of s a = Some q) \<and>
     set (uv_closing s) = {q \<in> dom (reqs s). timer_of s q = None} \<and> distinct (uv_closing s)"

definition callback_ok :: "timer_engine \<times> (addr \<Rightarrow> nat) \<Rightarrow> bool" where
  "callback_ok x \<longleftrightarrow> (case x of (s, calls) \<Rightarrow>
     (\<forall>a i. infos s a = Some i \<longrightarrow> (timeoutExecuting i \<longleftrightarrow> in_callback s = Some (a, False)) \<and>
        (\<not> repeat_timer i \<longrightarrow> calls a = (if timeoutExecuting i then 1 else 0)) \<and>
        (timeoutExecuting i \<longrightarrow> \<not> repeat_timer i)) \<and>
     (\<forall>a. in_callback s = Some (a, False) \<longrightarrow> a \<in> dom (infos s)) \<and>
     (\<forall>q r. reqs s q = Some r \<longrightarrow> req_active r \<longrightarrow> req_data r \<noteq> None))"

definition timer_inv :: "timer_engine \<times> (addr \<Rightarrow> nat) \<Rightarrow> bool" where
  "timer_inv x \<longleftrightarrow> (\<exists>xs. timer_list (fst x) xs) \<and> handles_ok (fst x) \<and> callback_ok x"

lemma Insert_eq: "nodes l a = Some n \<Longrightarrow> references l \<noteq> Some a \<Longrightarrow> timer_Insert l a = CreateHandler l a"
  by (cases "references l") (auto simp: timer_Insert_def CreateHandler_def Let_def set_prev_def upd_at_def split: option.splits)

lemma Erase_dll:
  assumes "dll l xs" and "a \<in> set xs"
  shows "\<exists>l'. Erase l a = Some l' \<and> dll (l'\<lparr>nodes := (nodes l')(a := None)\<rparr>) (remove1 a xs) \<and> dom (nodes l') = dom (nodes l)"
proof -
  obtain us ys where xs: "xs = us @ a # ys" "a \<notin> set us" using assms(2) split_list_first by metis
  obtain t where t: "ReleaseHandler l a = Some t" "dll t (us @ ys)" "nodes t a = nodes l a" "dom (nodes t) = dom (nodes l)"
    using ReleaseHandler_dll assms(1) xs by blast
  obtain n where n: "nodes l a = Some n" using assms lseg_alloc by (metis dll_def)
  have a: "a \<notin> set (us @ ys)" using assms(1) xs by (auto simp: dll_def)
  have "Erase l a = Some (t\<lparr>nodes := (nodes t)(a \<mapsto> n\<lparr>next_link := None, prev_link := None\<rparr>)\<rparr>)"
    using t(1) n t(3) by (auto simp: ReleaseHandler_def Erase_def Let_def bind_eq_Some_conv split: option.splits)
  moreover have "dll (t\<lparr>nodes := (nodes t)(a := None)\<rparr>) (us @ ys)" using t(2) a by (simp add: dll_def)
  ultimately show ?thesis using xs t(4) n a by (auto simp: remove1_split insert_absorb domI)
qed

lemma erase_and_delete_ok:
  assumes "timer_list s xs" and "handles_ok s" and "a \<in> dom (infos s)"
  shows "\<exists>s'. erase_and_delete a s = Returns s' \<and> timer_list s' (remove1 a xs) \<and> handles_ok s' \<and>
     infos s' = (infos s)(a := None) \<and> in_callback s' = in_callback s \<and> timer_calls s' = timer_calls s \<and>
     (\<forall>q r. reqs s' q = Some r \<longrightarrow> reqs s q = Some r \<or> \<not> req_active r)"
proof -
  have l: "dll (timerList s) xs" "set xs = dom (infos s)" "dom (nodes (timerList s)) = set xs"
    using assms(1) by (auto simp: timer_list_def)
  obtain l' where l': "Erase (timerList s) a = Some l'" "dll (l'\<lparr>nodes := (nodes l')(a := None)\<rparr>) (remove1 a xs)"
    "dom (nodes l') = dom (nodes (timerList s))"
    using Erase_dll [OF l(1), of a] assms(3) l(2) by auto
  obtain i q r where i: "infos s a = Some i" "timerReq i = Some q" and r: "reqs s q = Some r" "req_data r = Some a"
    using assms(2,3) by (fastforce simp: handles_ok_def handle_of_def timer_of_def bind_eq_Some_conv)
  have d: "distinct xs" using l(1) by (simp add: dll_def)
  define s' where "s' = s\<lparr>timerList := l'\<lparr>nodes := (nodes l')(a := None)\<rparr>, infos := (infos s)(a := None),
    reqs := (reqs s)(q \<mapsto> r\<lparr>req_data := None, req_active := False\<rparr>), uv_closing := uv_closing s @ [q]\<rparr>"
  have e: "erase_and_delete a s = Returns s'"
    using i r by (simp add: erase_and_delete_def destroy_info_def l' s'_def)
  have "timer_list s' (remove1 a xs)"
    using l'(2,3) l d by (auto simp: timer_list_def s'_def)
  moreover have "handles_ok s'"
  proof -
    have t: "timer_of s' p = (if p = q then None else timer_of s p)" for p by (simp add: timer_of_def s'_def)
    have h: "handle_of s' b = (if b = a then None else handle_of s b)" for b by (simp add: handle_of_def s'_def)
    have q: "handle_of s a = Some q" "timer_of s q = Some a" using i r by (simp_all add: handle_of_def timer_of_def)
    have uv: "\<forall>p b. timer_of s p = Some b \<longrightarrow> handle_of s b = Some p"
      and lv: "\<forall>b \<in> dom (infos s). \<exists>p. handle_of s b = Some p \<and> timer_of s p = Some b"
      and cl: "set (uv_closing s) = {p \<in> dom (reqs s). timer_of s p = None}" "distinct (uv_closing s)"
      using assms(2) by (simp_all add: handles_ok_def)
    have own: "timer_of s p = Some a \<Longrightarrow> p = q" for p using uv q by fastforce
    have "\<forall>b \<in> dom (infos s'). \<exists>p. handle_of s' b = Some p \<and> timer_of s' p = Some b"
    proof
      fix b assume "b \<in> dom (infos s')"
      then have b: "b \<noteq> a" "b \<in> dom (infos s)" by (auto simp: s'_def split: if_splits)
      then obtain p where "handle_of s b = Some p" "timer_of s p = Some b" using lv by blast
      then show "\<exists>p. handle_of s' b = Some p \<and> timer_of s' p = Some b" using b q by (auto simp: t h)
    qed
    moreover have "\<forall>p b. timer_of s' p = Some b \<longrightarrow> handle_of s' b = Some p"
      using uv own by (auto simp: t h)
    moreover have "set (uv_closing s') = {p \<in> dom (reqs s'). timer_of s' p = None}"
      using cl(1) r(1) q(2) by (auto simp: t) (auto simp: s'_def)
    moreover have "distinct (uv_closing s')" using cl q(2) by (simp add: s'_def)
    ultimately show ?thesis unfolding handles_ok_def by blast
  qed
  ultimately show ?thesis using e by (auto simp: s'_def)
qed

text \<open>A new timer.\<close>

lemma start_ok:
  assumes "timer_list s xs" and "handles_ok s" and "infos s a = None" and "reqs s q = None"
  shows "\<exists>s'. TimerTaskCallback True True True True True a q data (Some f) timeout rep s = Returns (s', Some a) \<and>
     timer_list s' (a # xs) \<and> handles_ok s' \<and>
     infos s' = (infos s)(a \<mapsto> \<lparr>cb_fn = f, cb_data = data, repeat_timer = rep, timeoutExecuting = False, timerReq = Some q\<rparr>) \<and>
     reqs s' = (reqs s)(q \<mapsto> \<lparr>req_data = Some a, req_active = True, req_repeats = timeout \<noteq> 0\<rparr>) \<and>
     in_callback s' = in_callback s \<and> timer_calls s' = timer_calls s"
proof -
  let ?l = "(timerList s)\<lparr>nodes := (nodes (timerList s))(a \<mapsto> new_node)\<rparr>"
  have l: "dll (timerList s) xs" "set xs = dom (infos s)" "dom (nodes (timerList s)) = set xs" and a: "a \<notin> set xs"
    using assms(1,3) by (auto simp: timer_list_def)
  have "dll ?l xs" using l(1) a by (simp add: dll_def)
  then obtain t where t: "CreateHandler ?l a = Some t" "dll t (a # xs)" "dom (nodes t) = insert a (set xs)"
    using CreateHandler_dll [of ?l xs a] a l(3) by (auto simp: insert_absorb)
  have "references ?l \<noteq> Some a" using l(1) a by (cases xs) (auto simp: dll_def)
  then have ins: "timer_Insert ?l a = Some t" using t(1) Insert_eq [of ?l a new_node] by simp
  define s' where "s' = s\<lparr>timerList := t,
    infos := (infos s)(a \<mapsto> \<lparr>cb_fn = f, cb_data = data, repeat_timer = rep, timeoutExecuting = False, timerReq = Some q\<rparr>),
    reqs := (reqs s)(q \<mapsto> \<lparr>req_data = Some a, req_active = True, req_repeats = timeout \<noteq> 0\<rparr>)\<rparr>"
  have e: "TimerTaskCallback True True True True True a q data (Some f) timeout rep s = Returns (s', Some a)"
    using ins by (simp add: TimerTaskCallback_def timer_Init_def Let_def s'_def)
  have tl: "timer_list s' (a # xs)" using t(2,3) l(2) by (auto simp: timer_list_def s'_def)
  have "handles_ok s'"
  proof -
    have h: "handle_of s' b = (if b = a then Some q else handle_of s b)" for b by (simp add: handle_of_def s'_def)
    have u: "timer_of s' p = (if p = q then Some a else timer_of s p)" for p by (simp add: timer_of_def s'_def)
    have fresh: "timer_of s q = None" "handle_of s a = None"
      using assms(3,4) by (simp_all add: timer_of_def handle_of_def)
    have uv: "\<forall>p b. timer_of s p = Some b \<longrightarrow> handle_of s b = Some p"
      and lv: "\<forall>b \<in> dom (infos s). \<exists>p. handle_of s b = Some p \<and> timer_of s p = Some b"
      and cl: "set (uv_closing s) = {p \<in> dom (reqs s). timer_of s p = None}" "distinct (uv_closing s)"
      using assms(2) by (simp_all add: handles_ok_def)
    have live: "\<forall>b \<in> dom (infos s'). \<exists>p. handle_of s' b = Some p \<and> timer_of s' p = Some b"
    proof
      fix b assume b: "b \<in> dom (infos s')"
      show "\<exists>p. handle_of s' b = Some p \<and> timer_of s' p = Some b"
      proof (cases "b = a")
        case True
        then show ?thesis by (simp add: h u)
      next
        case False
        with b have "b \<in> dom (infos s)" by (simp add: s'_def)
        then obtain p where "handle_of s b = Some p" "timer_of s p = Some b" using lv by blast
        then show ?thesis using False fresh(1) by (auto simp: h u)
      qed
    qed
    have owns: "handle_of s' b = Some p" if "timer_of s' p = Some b" for p b
      using that uv fresh(2) by (cases "p = q"; cases "b = a") (auto simp: h u)
    note live
    moreover from owns have "\<forall>p b. timer_of s' p = Some b \<longrightarrow> handle_of s' b = Some p" by blast
    moreover have "set (uv_closing s') = {p \<in> dom (reqs s'). timer_of s' p = None}"
      using cl(1) assms(4) by (auto simp: u) (auto simp: s'_def)
    moreover have "distinct (uv_closing s')" using cl(2) by (simp add: s'_def)
    ultimately show ?thesis unfolding handles_ok_def by blast
  qed
  with e tl show ?thesis by (auto simp: s'_def)
qed

lemma start_refused:
  assumes "\<not> engine_ok \<or> \<not> loop_ok \<or> \<not> init_ok" and "infos s a = None" and "reqs s q = None"
    and "nodes (timerList s) a = None"
  shows "TimerTaskCallback True engine_ok loop_ok init_ok start a q data (Some f) timeout rep s = Returns (s, None)"
  using assms by (auto simp: TimerTaskCallback_def timer_Init_def destroy_info_def Let_def fun_upd_idem intro!: timer_engine.equality ref_mgr.equality)

lemma release_ok:
  assumes "timer_list s xs" and "handles_ok s"
  shows "\<exists>s'. ReleaseTimerList s = Some (Returns s') \<and> timer_list s' [] \<and> handles_ok s' \<and>
     infos s' = Map.empty \<and> in_callback s' = in_callback s \<and> timer_calls s' = timer_calls s \<and>
     (\<forall>q r. reqs s' q = Some r \<longrightarrow> reqs s q = Some r \<or> \<not> req_active r)"
  using assms
proof (induction xs arbitrary: s)
  case Nil
  then have "references (timerList s) = None" "infos s = Map.empty" by (auto simp: timer_list_def dll_def)
  then show ?case using Nil by (subst ReleaseTimerList.simps) auto
next
  case (Cons a xs)
  then have h: "references (timerList s) = Some a" "a \<in> dom (infos s)" by (auto simp: timer_list_def dll_def)
  obtain s1 where s1: "erase_and_delete a s = Returns s1" "timer_list s1 xs" "handles_ok s1"
    "in_callback s1 = in_callback s" "timer_calls s1 = timer_calls s"
    "\<forall>q r. reqs s1 q = Some r \<longrightarrow> reqs s q = Some r \<or> \<not> req_active r"
    using erase_and_delete_ok [OF Cons.prems h(2)] by auto
  from Cons.IH [OF s1(2,3)] s1 h show ?case by (subst ReleaseTimerList.simps) fastforce
qed

section \<open>Runs\<close>

text \<open>
  A run issues calls of the API and turns of the loop, nested in the running callback or not.  The second component counts
  the calls made by each live timer.
\<close>

datatype timer_op =
    Start bool bool bool addr addr nat nat u64 bool
  | Cancel "addr option"
  | Fire addr
  | CallbackReturns
  | CloseTurn
  | ReleaseAll

fun exec_timer :: "timer_op \<Rightarrow> timer_engine \<times> (addr \<Rightarrow> nat) \<Rightarrow> (timer_engine \<times> (addr \<Rightarrow> nat)) outcome" where
  "exec_timer (Start eok lok iok a q data f timeout rep) (s, calls) =
     obind (TimerTaskCallback True eok lok iok True a q data (Some f) timeout rep s) (\<lambda>(s', r).
       Returns (s', if r = None then calls else calls(a := 0)))"
| "exec_timer (Cancel p) (s, calls) = obind (CancelTimerCallback p s) (\<lambda>s'. Returns (s', calls))"
| "exec_timer (Fire q) (s, calls) = obind (TimerCallback_begin q s) (\<lambda>s'.
     Returns (s', case in_callback s' of None \<Rightarrow> calls | Some (a, _) \<Rightarrow> calls(a := calls a + 1)))"
| "exec_timer CallbackReturns (s, calls) = obind (TimerCallback_end s) (\<lambda>s'. Returns (s', calls))"
| "exec_timer CloseTurn (s, calls) = obind (uv_close_turn s) (\<lambda>s'. Returns (s', calls))"
| "exec_timer ReleaseAll (s, calls) = (case ReleaseTimerList s of
     None \<Rightarrow> Fault | Some r \<Rightarrow> obind r (\<lambda>s'. Returns (s', calls)))"

text \<open>
  The allocator gives free addresses; a timer is cancelled through a live pointer; libuv fires a started handle, one callback
  at a time; the list is not released inside the callback of a one-shot timer.
\<close>

fun timer_allowed :: "timer_op \<Rightarrow> timer_engine \<times> (addr \<Rightarrow> nat) \<Rightarrow> bool" where
  "timer_allowed (Start eok lok iok a q data f timeout rep) (s, calls) \<longleftrightarrow> infos s a = None \<and> reqs s q = None"
| "timer_allowed (Cancel p) (s, calls) \<longleftrightarrow> (case p of None \<Rightarrow> True | Some a \<Rightarrow> infos s a \<noteq> None)"
| "timer_allowed (Fire q) (s, calls) \<longleftrightarrow> in_callback s = None \<and> (case reqs s q of None \<Rightarrow> False | Some r \<Rightarrow> req_active r)"
| "timer_allowed CallbackReturns (s, calls) \<longleftrightarrow> True"
| "timer_allowed CloseTurn (s, calls) \<longleftrightarrow> True"
| "timer_allowed ReleaseAll (s, calls) \<longleftrightarrow> (case in_callback s of Some (_, False) \<Rightarrow> False | _ \<Rightarrow> True)"

lemma Start_step:
  assumes "timer_inv (s, calls)" and "infos s a = None" "reqs s q = None"
  shows "\<exists>x. exec_timer (Start eok lok iok a q data f timeout rep) (s, calls) = Returns x \<and> timer_inv x"
proof (cases "eok \<and> lok \<and> iok")
  case True
  obtain xs where m: "timer_list s xs" "handles_ok s" "callback_ok (s, calls)"
    using assms(1) by (auto simp: timer_inv_def)
  obtain s' where s': "TimerTaskCallback True True True True True a q data (Some f) timeout rep s = Returns (s', Some a)"
     "timer_list s' (a # xs)" "handles_ok s'"
     "infos s' = (infos s)(a \<mapsto> \<lparr>cb_fn = f, cb_data = data, repeat_timer = rep, timeoutExecuting = False, timerReq = Some q\<rparr>)"
     "reqs s' = (reqs s)(q \<mapsto> \<lparr>req_data = Some a, req_active = True, req_repeats = timeout \<noteq> 0\<rparr>)"
     "in_callback s' = in_callback s" using start_ok [OF m(1,2) assms(2,3)] by blast
  have "callback_ok (s', calls(a := 0))"
    using m(3) assms(2) by (auto simp: callback_ok_def s'(4-6) split: if_splits)
  then have "timer_inv (s', calls(a := 0))" using s'(2,3) by (auto simp: timer_inv_def)
  then show ?thesis using True s'(1) by simp
next
  case False
  obtain xs where "timer_list s xs" using assms(1) by (auto simp: timer_inv_def)
  then have "nodes (timerList s) a = None" using assms(2) by (auto simp: timer_list_def)
  then have "exec_timer (Start eok lok iok a q data f timeout rep) (s, calls) = Returns (s, calls)"
    using False start_refused [of eok lok iok s a q] assms(2,3) by simp
  then show ?thesis using assms(1) by blast
qed

lemma delete_inv:
  assumes "timer_inv (s, calls)" and "a \<in> dom (infos s)" and "in_callback s \<noteq> Some (a, False)"
  shows "\<exists>s'. erase_and_delete a s = Returns s' \<and> timer_inv (s', calls)"
proof -
  obtain xs where m: "timer_list s xs" "handles_ok s" "callback_ok (s, calls)"
    using assms(1) by (auto simp: timer_inv_def)
  obtain s' where s': "erase_and_delete a s = Returns s'" "timer_list s' (remove1 a xs)" "handles_ok s'"
     "infos s' = (infos s)(a := None)" "in_callback s' = in_callback s"
     "\<forall>q r. reqs s' q = Some r \<longrightarrow> reqs s q = Some r \<or> \<not> req_active r"
    using erase_and_delete_ok [OF m(1,2) assms(2)] by blast
  have "callback_ok (s', calls)"
    using m(3) assms(3) s'(6) by (fastforce simp: callback_ok_def s'(4,5) split: if_splits)
  with s' show ?thesis by (auto simp: timer_inv_def)
qed

lemma Fire_step:
  assumes "timer_inv (s, calls)" and "in_callback s = None" and "reqs s q = Some r" "req_active r"
  shows "\<exists>x. exec_timer (Fire q) (s, calls) = Returns x \<and> timer_inv x"
proof -
  obtain xs where m: "timer_list s xs" "handles_ok s" "callback_ok (s, calls)"
    using assms(1) by (auto simp: timer_inv_def)
  obtain a where a: "req_data r = Some a" using m(3) assms(3,4) by (cases "req_data r") (fastforce simp: callback_ok_def)+
  then have "timer_of s q = Some a" using assms(3) by (simp add: timer_of_def)
  then have "handle_of s a = Some q" using m(2) by (simp add: handles_ok_def)
  then obtain i where i: "infos s a = Some i" "timerReq i = Some q" by (auto simp: handle_of_def bind_eq_Some_conv)
  define i' where "i' = (if \<not> repeat_timer i then i\<lparr>timeoutExecuting := True\<rparr> else i)"
  define s' where "s' = s\<lparr>reqs := (reqs s)(q \<mapsto> r\<lparr>req_active := req_repeats r\<rparr>), infos := (infos s)(a \<mapsto> i'),
    in_callback := Some (a, repeat_timer i), timer_calls := (a, cb_fn i, cb_data i) # timer_calls s\<rparr>"
  have "exec_timer (Fire q) (s, calls) = Returns (s', calls(a := calls a + 1))"
    using assms(3) a i by (simp add: TimerCallback_begin_def Let_def s'_def i'_def)
  moreover have "timer_list s' xs" using m(1) i(1) by (auto simp: timer_list_def s'_def)
  moreover have "handles_ok s'"
  proof -
    have t: "timer_of s' = timer_of s" using assms(3) by (auto simp: timer_of_def s'_def)
    have h: "handle_of s' = handle_of s" using i(1) by (auto simp: handle_of_def s'_def i'_def)
    have d: "dom (infos s') = dom (infos s)" "dom (reqs s') = dom (reqs s)" "uv_closing s' = uv_closing s"
      using i(1) assms(3) by (auto simp: s'_def)
    show ?thesis using m(2) unfolding handles_ok_def t h d .
  qed
  moreover have "callback_ok (s', calls(a := calls a + 1))"
    using m(3) assms(2,3) i(1) a by (auto simp: callback_ok_def s'_def i'_def split: if_splits)
  ultimately show ?thesis by (auto simp: timer_inv_def)
qed

lemma Return_step:
  assumes "timer_inv (s, calls)"
  shows "\<exists>x. exec_timer CallbackReturns (s, calls) = Returns x \<and> timer_inv x"
proof -
  obtain xs where m: "timer_list s xs" "handles_ok s" "callback_ok (s, calls)"
    using assms(1) by (auto simp: timer_inv_def)
  show ?thesis
  proof (cases "in_callback s")
    case None
    then show ?thesis using assms by (simp add: TimerCallback_end_def)
  next
    case (Some p)
    define s0 where "s0 = s\<lparr>in_callback := None\<rparr>"
    have s0: "timer_list s0 xs" "handles_ok s0" "infos s0 = infos s" "reqs s0 = reqs s" "in_callback s0 = None"
      using m(1,2) by (simp_all add: s0_def timer_list_def handles_ok_def handle_of_def timer_of_def)
    obtain a rep where p: "p = (a, rep)" by (cases p)
    show ?thesis
    proof (cases rep)
      case True
      then have "callback_ok (s0, calls)" using m(3) Some p by (fastforce simp: callback_ok_def s0)
      then show ?thesis using s0(1,2) Some p True by (auto simp: TimerCallback_end_def timer_inv_def s0_def)
    next
      case False
      then have a: "a \<in> dom (infos s0)" using m(3) Some p s0(3) by (auto simp: callback_ok_def)
      obtain s' where s': "erase_and_delete a s0 = Returns s'" "timer_list s' (remove1 a xs)" "handles_ok s'"
        "infos s' = (infos s0)(a := None)" "in_callback s' = in_callback s0"
        "\<forall>q r. reqs s' q = Some r \<longrightarrow> reqs s0 q = Some r \<or> \<not> req_active r"
        using erase_and_delete_ok [OF s0(1,2) a] by blast
      have "callback_ok (s', calls)"
        using m(3) Some p False s'(6) by (fastforce simp: callback_ok_def s'(4,5) s0 split: if_splits)
      with s' show ?thesis using Some p False by (auto simp: TimerCallback_end_def timer_inv_def s0_def)
    qed
  qed
qed

lemma CloseTurn_step:
  assumes "timer_inv (s, calls)"
  shows "\<exists>s'. uv_close_turn s = Returns s' \<and> timer_inv (s', calls) \<and> uv_closing s' = tl (uv_closing s) \<and>
     infos s' = infos s"
proof (cases "uv_closing s")
  case Nil
  then show ?thesis using assms by (simp add: uv_close_turn_def)
next
  case (Cons q qs)
  obtain xs where m: "timer_list s xs" "handles_ok s" "callback_ok (s, calls)"
    using assms(1) by (auto simp: timer_inv_def)
  have q: "q \<in> dom (reqs s)" "timer_of s q = None" "q \<notin> set qs"
    and qs: "set (q # qs) = {q \<in> dom (reqs s). timer_of s q = None}" "distinct qs"
    using m(2) Cons by (auto simp: handles_ok_def)
  define s' where "s' = s\<lparr>reqs := (reqs s)(q := None), uv_closing := qs\<rparr>"
  have t: "timer_of s' = timer_of s" using q(2) by (auto simp: timer_of_def s'_def)
  have h: "handle_of s' = handle_of s" by (auto simp: handle_of_def s'_def)
  have "handles_ok s'"
    using m(2) qs q unfolding handles_ok_def t h by (auto simp: s'_def)
  moreover have "timer_list s' xs" using m(1) by (simp add: timer_list_def s'_def)
  moreover have "callback_ok (s', calls)" using m(3) by (auto simp: callback_ok_def s'_def)
  moreover have "uv_close_turn s = Returns s'" using q(1) Cons by (auto simp: uv_close_turn_def s'_def)
  ultimately show ?thesis using Cons by (auto simp: timer_inv_def s'_def)
qed

lemma timers_release_inv:
  assumes "timer_inv (s, calls)" and "\<And>a. in_callback s \<noteq> Some (a, False)"
  shows "\<exists>s'. ReleaseTimerList s = Some (Returns s') \<and> timer_inv (s', calls) \<and> infos s' = Map.empty \<and>
     references (timerList s') = None"
proof -
  obtain xs where m: "timer_list s xs" "handles_ok s" "callback_ok (s, calls)"
    using assms(1) by (auto simp: timer_inv_def)
  obtain s' where s': "ReleaseTimerList s = Some (Returns s')" "timer_list s' []" "handles_ok s'" "infos s' = Map.empty"
    "in_callback s' = in_callback s" "\<forall>q r. reqs s' q = Some r \<longrightarrow> reqs s q = Some r \<or> \<not> req_active r"
    using release_ok [OF m(1,2)] by blast
  have "callback_ok (s', calls)"
    using m(3) assms(2) s'(6) by (fastforce simp: callback_ok_def s'(4,5))
  moreover have "references (timerList s') = None" using s'(2) by (simp add: timer_list_def dll_def)
  ultimately show ?thesis using s' by (auto simp: timer_inv_def)
qed

lemma timer_step:
  assumes "timer_inv sc" and "timer_allowed x sc"
  shows "\<exists>sc'. exec_timer x sc = Returns sc' \<and> timer_inv sc'"
proof -
  obtain s calls where sc: "sc = (s, calls)" by (cases sc)
  note inv = assms(1) [unfolded sc] and ok = assms(2) [unfolded sc]
  show ?thesis
  proof (cases x)
    case (Start eok lok iok a q data f timeout rep)
    then show ?thesis using Start_step [OF inv] ok sc by (simp only: timer_allowed.simps)
  next
    case (Cancel p)
    show ?thesis
    proof (cases p)
      case None
      then show ?thesis using Cancel inv sc by (simp add: CancelTimerCallback_def)
    next
      case (Some a)
      then obtain i where i: "infos s a = Some i" using ok Cancel by auto
      have "timeoutExecuting i \<longleftrightarrow> in_callback s = Some (a, False)"
        using inv i by (auto simp: timer_inv_def callback_ok_def)
      then obtain s' where "CancelTimerCallback p s = Returns s'" "timer_inv (s', calls)"
        using Some i inv delete_inv [OF inv, of a]
        by (cases "timeoutExecuting i") (auto simp: CancelTimerCallback_def)
      then show ?thesis using Cancel sc by simp
    qed
  next
    case (Fire q)
    then show ?thesis using Fire_step [OF inv] ok sc by (auto split: option.splits)
  next
    case CallbackReturns
    then show ?thesis using Return_step [OF inv] sc by blast
  next
    case CloseTurn
    then show ?thesis using CloseTurn_step [OF inv] sc by auto
  next
    case ReleaseAll
    then have "in_callback s \<noteq> Some (a, False)" for a using ok by auto
    then show ?thesis using timers_release_inv [OF inv] ReleaseAll sc by auto
  qed
qed

definition no_timers :: "timer_engine \<times> (addr \<Rightarrow> nat)" where
  "no_timers = (\<lparr>timerList = \<lparr>references = None, nodes = Map.empty\<rparr>, infos = Map.empty, reqs = Map.empty,
     uv_closing = [], in_callback = None, timer_calls = []\<rparr>, \<lambda>a. 0)"

interpretation timers: guarded_machine exec_timer timer_allowed timer_inv no_timers
proof
  show "timer_inv no_timers"
    by (auto simp: timer_inv_def no_timers_def timer_list_def dll_def handles_ok_def handle_of_def timer_of_def callback_ok_def
        intro!: exI [of _ "[]"])
qed (rule timer_step)

section \<open>Properties\<close>

definition timer_demo :: "timer_op list" where
  "timer_demo = [Start True True True 1 11 7 5 0 False, Start True True True 2 12 8 5 30 True, Start True True False 3 13 0 5 9 False,
     Fire 11, Cancel (Some 1), Start True True True 4 14 9 5 0 False, Cancel (Some 2), CallbackReturns, CloseTurn, ReleaseAll,
     CloseTurn, CloseTurn]"


declare ReleaseTimerList.simps [code]

lemma timer_demo_allowed: "all_allowed timer_allowed exec_timer timer_demo no_timers"
  by code_simp


lemma close_turns:
  "timer_inv (s, calls) \<Longrightarrow> uv_closing s = qs \<Longrightarrow>
   \<exists>s'. run_all (\<lambda>_ :: unit. uv_close_turn) (replicate (length qs) ()) s = Returns s' \<and> timer_inv (s', calls) \<and>
     uv_closing s' = [] \<and> infos s' = infos s"
proof (induction qs arbitrary: s)
  case (Cons q qs)
  obtain s1 where s1: "uv_close_turn s = Returns s1" "timer_inv (s1, calls)" "uv_closing s1 = qs" "infos s1 = infos s"
    using CloseTurn_step [OF Cons.prems(1)] Cons.prems(2) by auto
  then show ?case using Cons.IH [OF s1(2,3)] by simp
qed auto

text \<open>
  Release of the timers.  In any reached state that is not inside a one-shot callback the loop of
  \<open>ReleaseTimerList\<close> ends with no timer left, and once libuv has closed what was handed to it, no handle is left.
\<close>

theorem timers_released:
  assumes "all_allowed timer_allowed exec_timer ops no_timers"
    and "run_all exec_timer ops no_timers = Returns (s, calls)" and "\<forall>a. in_callback s \<noteq> Some (a, False)"
  shows "\<exists>s1 s2. ReleaseTimerList s = Some (Returns s1) \<and> infos s1 = Map.empty \<and> references (timerList s1) = None \<and>
    run_all (\<lambda>_ :: unit. uv_close_turn) (replicate (length (uv_closing s1)) ()) s1 = Returns s2 \<and> reqs s2 = Map.empty"
proof -
  have inv: "timer_inv (s, calls)" using timers.reached_inv [OF assms(1,2)] .
  obtain s1 where s1: "ReleaseTimerList s = Some (Returns s1)" "timer_inv (s1, calls)" "infos s1 = Map.empty"
    "references (timerList s1) = None" using timers_release_inv [OF inv] assms(3) by blast
  obtain s2 where s2: "run_all (\<lambda>_ :: unit. uv_close_turn) (replicate (length (uv_closing s1)) ()) s1 = Returns s2"
    "timer_inv (s2, calls)" "uv_closing s2 = []" "infos s2 = Map.empty" using close_turns [OF s1(2) refl] s1(3) by auto
  have t: "timer_of s2 q \<noteq> Some a" for q a using s2(2,4) by (auto simp: timer_inv_def handles_ok_def handle_of_def)
  have "{q \<in> dom (reqs s2). timer_of s2 q = None} = {}" using s2(2,3) by (auto simp: timer_inv_def handles_ok_def)
  then have "dom (reqs s2) = {}" using t by (metis (mono_tags, lifting) empty_Collect_eq ex_in_conv option.exhaust)
  with s1 s2(1) show ?thesis by auto
qed

theorem timers_released_witness:
  "\<exists>s calls s1 s2. run_all exec_timer (take 5 timer_demo @ [CallbackReturns]) no_timers = Returns (s, calls) \<and>
    ReleaseTimerList s = Some (Returns s1) \<and> infos s1 = Map.empty \<and>
    run_all (\<lambda>_ :: unit. uv_close_turn) (replicate (length (uv_closing s1)) ()) s1 = Returns s2 \<and> reqs s2 = Map.empty"
proof -
  have ok: "all_allowed timer_allowed exec_timer (take 5 timer_demo @ [CallbackReturns]) no_timers" by code_simp
  obtain s calls where r: "run_all exec_timer (take 5 timer_demo @ [CallbackReturns]) no_timers = Returns (s, calls)"
    using timers.never_faults [OF ok] by auto
  have "(case run_all exec_timer (take 5 timer_demo @ [CallbackReturns]) no_timers of
      Returns (s, calls) \<Rightarrow> in_callback s = None | _ \<Rightarrow> False)" by code_simp
  then have "\<forall>a. in_callback s \<noteq> Some (a, False)" by (simp add: r)
  from timers_released [OF ok r this] r show ?thesis by blast
qed

text \<open>
  A start that fails leaves libuv with a handle that was freed: the next turn of the loop reads it.
\<close>

theorem timer_start_failure_dangles:
  assumes "infos s a = None" and "reqs s q = None" and "uv_closing s = []"
  shows "\<exists>s'. TimerTaskCallback True True True True False a q data (Some f) timeout rep s = Returns (s', None) \<and>
    uv_close_turn s' = Fault"
  using assms by (simp add: TimerTaskCallback_def timer_Init_def destroy_info_def Let_def uv_close_turn_def)

text \<open>
  Releasing the timers inside the callback of a one-shot timer frees the timer the callback returns to.
\<close>

theorem timer_release_in_callback:
  "faults (run_all exec_timer [Start True True True 1 11 7 5 0 False, Fire 11, ReleaseAll, CallbackReturns] no_timers)"
  by code_simp

text \<open>
  The timeout is the repeat: a repeating timer with timeout 0 fires once, is never due again and stays in the list.
\<close>

theorem timer_repeat_zero:
  assumes "reqs s q = Some r" and "timer_of s q = Some a" and "\<not> req_repeats r"
    and "infos s a = Some i" "repeat_timer i" and "in_callback s = None"
  shows "\<exists>s1 s2. TimerCallback_begin q s = Returns s1 \<and> TimerCallback_end s1 = Returns s2 \<and> a \<in> dom (infos s2) \<and>
    (\<exists>r'. reqs s2 q = Some r' \<and> \<not> req_active r')"
  using assms by (simp add: TimerCallback_begin_def TimerCallback_end_def Let_def timer_of_def)

end
