(* ===== verification/Class_Props.thy ===== *)
theory Class_Props
  imports Napi_Call "HOL-Library.Word"
begin

text \<open>
  Property descriptors: how \<open>napi_define_class\<close>, \<open>napi_define_sendable_class\<close>, \<open>napi_define_properties\<close> and
  \<open>napi_create_object_with_properties\<close> translate them (native\_engine/impl/ark/ark\_native\_engine.cpp,
  native\_engine/native\_sendable.cpp, native\_engine/native\_api.cpp).

  The VM is outside the repository.  What it is asked is the datatype \<open>vm_request\<close>, and a call appends its requests to
  the state; the handle it answers with is a parameter.  A pointer to native memory or a handle of a value is a number;
  a null one is \<open>None\<close>.  Following a null key, or reading a key that is neither a string nor a symbol as a symbol, is
  \<open>Fault\<close>.
\<close>

section \<open>Data\<close>

datatype prop_key = StringKey string | SymbolKey nat string | OtherKey nat

record func_info =
  fi_callback :: nat
  fi_data :: nat
  fi_isSendable :: bool
  fi_env :: "nat option"

text \<open>\<open>ValueRef\<close> is the handle in the descriptor; an accessor is a pair of a getter and a setter.\<close>

datatype prop_value =
    UndefinedRef
  | ValueRef "nat option"
  | FunctionRef string func_info
  | SendableFunctionRef func_info
  | AccessorData prop_value prop_value
  | SendableAccessorData prop_value prop_value

record property_attr =
  attr_value :: prop_value
  attr_writable :: bool
  attr_enumerable :: bool
  attr_configurable :: bool

type_synonym prop_slot = "prop_key option \<times> property_attr"

record property_descriptor =
  utf8name :: "string option"
  pd_name :: "prop_key option"
  pd_method :: "nat option"
  pd_getter :: "nat option"
  pd_setter :: "nat option"
  pd_value :: "nat option"
  attributes :: u32
  pd_data :: nat

definition NATIVE_WRITABLE :: nat where "NATIVE_WRITABLE = 0"
definition NATIVE_ENUMERABLE :: nat where "NATIVE_ENUMERABLE = 1"
definition NATIVE_CONFIGURABLE :: nat where "NATIVE_CONFIGURABLE = 2"
definition NATIVE_INSTANCE :: nat where "NATIVE_INSTANCE = 9"
definition NATIVE_STATIC :: nat where "NATIVE_STATIC = 10"
definition NATIVE_INSTANCE_OBJECT :: nat where "NATIVE_INSTANCE_OBJECT = 11"
definition NATIVE_INSTANCE_GENERIC :: nat where "NATIVE_INSTANCE_GENERIC = 12"

text \<open>\<open>property.attributes & flag\<close>; the flags are the constants above, as bit numbers.\<close>

definition has_flag :: "property_descriptor \<Rightarrow> nat \<Rightarrow> bool" where
  "has_flag p flag = bit (attributes p) flag"

definition key_of :: "property_descriptor \<Rightarrow> prop_key option" where
  "key_of p = (case utf8name p of Some n \<Rightarrow> Some (StringKey n) | None \<Rightarrow> pd_name p)"

section \<open>Functions and attributes\<close>

text \<open>
  \<open>mem\<close> tells whether the information of a function can be allocated; when it cannot, the function is undefined.
  \<open>engine\<close> is the environment.
\<close>

definition NapiNativeCreateFunction :: "(func_info \<Rightarrow> bool) \<Rightarrow> nat \<Rightarrow> string \<Rightarrow> nat \<Rightarrow> nat \<Rightarrow> prop_value" where
  "NapiNativeCreateFunction mem engine name cb data =
     (let funcInfo = \<lparr>fi_callback = cb, fi_data = data, fi_isSendable = False, fi_env = Some engine\<rparr> in
      if \<not> mem funcInfo then UndefinedRef else FunctionRef name funcInfo)"

definition NapiNativeCreateSendableFunction :: "(func_info \<Rightarrow> bool) \<Rightarrow> string \<Rightarrow> nat \<Rightarrow> nat \<Rightarrow> prop_value" where
  "NapiNativeCreateSendableFunction mem name cb data =
     (let funcInfo = \<lparr>fi_callback = cb, fi_data = data, fi_isSendable = True, fi_env = None\<rparr> in
      if \<not> mem funcInfo then UndefinedRef else SendableFunctionRef funcInfo)"

text \<open>The name of a method without a C string: the string of its key, or the description of the symbol.\<close>

definition method_name :: "property_descriptor \<Rightarrow> prop_key option \<Rightarrow> string outcome" where
  "method_name p key = (case utf8name p of
       Some n \<Rightarrow> Returns n
     | None \<Rightarrow> (case key of
         Some (StringKey n) \<Rightarrow> Returns n
       | Some (SymbolKey i d) \<Rightarrow> Returns d
       | _ \<Rightarrow> Fault))"

text \<open>The two functions of an accessor; the name of the setter is appended to the one of the getter.\<close>

definition accessor_functions :: "(string \<Rightarrow> nat \<Rightarrow> prop_value) \<Rightarrow> string \<Rightarrow> property_descriptor \<Rightarrow> prop_value \<times> prop_value" where
  "accessor_functions create prefix p =
     (let n1 = (if pd_getter p \<noteq> None then prefix @ ''getter'' else prefix);
          localGetter = (case pd_getter p of None \<Rightarrow> UndefinedRef | Some cb \<Rightarrow> create n1 cb);
          n2 = (if pd_setter p \<noteq> None then n1 @ ''setter'' else n1);
          localSetter = (case pd_setter p of None \<Rightarrow> UndefinedRef | Some cb \<Rightarrow> create n2 cb)
      in (localGetter, localSetter))"

text \<open>The result is the value and the flag \<open>writable\<close>, which an accessor clears.\<close>

definition NapiInitAttrValFromProp ::
    "(func_info \<Rightarrow> bool) \<Rightarrow> nat \<Rightarrow> property_descriptor \<Rightarrow> bool \<Rightarrow> prop_key option \<Rightarrow> (prop_value \<times> bool) outcome" where
  "NapiInitAttrValFromProp mem engine p writable curKey =
     (let create = (\<lambda>name cb. NapiNativeCreateFunction mem engine name cb (pd_data p)) in
      if pd_getter p \<noteq> None \<or> pd_setter p \<noteq> None
      then let (g, s) = accessor_functions create '''' p in Returns (AccessorData g s, False)
      else case pd_method p of
        Some cb \<Rightarrow> obind (method_name p curKey) (\<lambda>fullName. Returns (create fullName cb, writable))
      | None \<Rightarrow> Returns (ValueRef (pd_value p), writable))"

definition slot_of :: "(func_info \<Rightarrow> bool) \<Rightarrow> nat \<Rightarrow> property_descriptor \<Rightarrow> prop_slot outcome" where
  "slot_of mem engine p =
     obind (NapiInitAttrValFromProp mem engine p (has_flag p NATIVE_WRITABLE) (key_of p)) (\<lambda>(val, writable).
       Returns (key_of p, \<lparr>attr_value = val, attr_writable = writable,
                 attr_enumerable = has_flag p NATIVE_ENUMERABLE, attr_configurable = has_flag p NATIVE_CONFIGURABLE\<rparr>))"

section \<open>The table of a class\<close>

text \<open>
  The loop of \<open>NapiGetKeysAndAttrsFromProps\<close> with its two indices; \<open>keys\<close> and \<open>attrs\<close> are one list of slots that are
  not written yet.  Writing outside of the arrays is \<open>Fault\<close>.
\<close>

fun fill_slots ::
    "(func_info \<Rightarrow> bool) \<Rightarrow> nat \<Rightarrow> property_descriptor list \<Rightarrow> u64 \<Rightarrow> u64 \<Rightarrow> prop_slot option list \<Rightarrow>
     (prop_slot option list \<times> u64) outcome" where
  "fill_slots mem engine [] curStatic curNonStatic arr = Returns (arr, curStatic)"
| "fill_slots mem engine (p # ps) curStatic curNonStatic arr =
     (let static = has_flag p NATIVE_STATIC;
          cur = (if static then curStatic else curNonStatic);
          curStatic' = (if static then curStatic + 1 else curStatic);
          curNonStatic' = (if static then curNonStatic else curNonStatic - 1)
      in if unat cur < length arr
         then obind (slot_of mem engine p) (\<lambda>x.
                fill_slots mem engine ps curStatic' curNonStatic' (arr[unat cur := Some x]))
         else Fault)"

definition NapiGetKeysAndAttrsFromProps ::
    "(func_info \<Rightarrow> bool) \<Rightarrow> nat \<Rightarrow> property_descriptor list \<Rightarrow> prop_slot option list \<Rightarrow> (prop_slot option list \<times> u64) outcome" where
  "NapiGetKeysAndAttrsFromProps mem engine properties arr =
     fill_slots mem engine properties 0 (of_nat (length properties) - 1) arr"

section \<open>Sendable properties\<close>

datatype sendable_type = SendableNone | SendableObject | SendableGeneric

text \<open>The three vectors \<open>keys\<close>, \<open>types\<close> and \<open>attributes\<close> grow together.\<close>

type_synonym sendable_info = "(prop_key option \<times> sendable_type \<times> property_attr) list"

record sendable_infos =
  instancePropertiesInfo :: sendable_info
  staticPropertiesInfo :: sendable_info
  nonStaticPropertiesInfo :: sendable_info

definition InitSendablePropertiesInfo ::
    "(func_info \<Rightarrow> bool) \<Rightarrow> sendable_info \<Rightarrow> property_descriptor \<Rightarrow> sendable_type \<Rightarrow> sendable_info outcome" where
  "InitSendablePropertiesInfo mem info p type =
     (let key = key_of p;
          enumable = has_flag p NATIVE_ENUMERABLE;
          configable = has_flag p NATIVE_CONFIGURABLE;
          writable = has_flag p NATIVE_WRITABLE;
          create = (\<lambda>name cb. NapiNativeCreateSendableFunction mem name cb (pd_data p))
      in if pd_getter p \<noteq> None \<or> pd_setter p \<noteq> None
         then let g = (case pd_getter p of None \<Rightarrow> UndefinedRef | Some cb \<Rightarrow> create ''getter'' cb);
                  s = (case pd_setter p of None \<Rightarrow> UndefinedRef | Some cb \<Rightarrow> create ''setter'' cb)
              in Returns (info @ [(key, SendableObject, \<lparr>attr_value = SendableAccessorData g s, attr_writable = False,
                   attr_enumerable = enumable, attr_configurable = configable\<rparr>)])
         else case pd_method p of
           Some cb \<Rightarrow> obind (method_name p key) (\<lambda>fullName.
             Returns (info @ [(key, SendableObject, \<lparr>attr_value = create fullName cb, attr_writable = writable,
                   attr_enumerable = enumable, attr_configurable = configable\<rparr>)]))
         | None \<Rightarrow> Returns (info @ [(key, type, \<lparr>attr_value = ValueRef (pd_value p), attr_writable = writable,
                   attr_enumerable = enumable, attr_configurable = configable\<rparr>)]))"

fun CreateSendablePropertiesInfos ::
    "(func_info \<Rightarrow> bool) \<Rightarrow> property_descriptor list \<Rightarrow> sendable_infos \<Rightarrow> sendable_infos outcome" where
  "CreateSendablePropertiesInfos mem [] infos = Returns infos"
| "CreateSendablePropertiesInfos mem (p # ps) infos =
     obind
       (if has_flag p NATIVE_STATIC
        then obind (InitSendablePropertiesInfo mem (staticPropertiesInfo infos) p SendableNone) (\<lambda>i.
               Returns (infos\<lparr>staticPropertiesInfo := i\<rparr>))
        else if has_flag p NATIVE_INSTANCE
        then obind (InitSendablePropertiesInfo mem (instancePropertiesInfo infos) p SendableNone) (\<lambda>i.
               Returns (infos\<lparr>instancePropertiesInfo := i\<rparr>))
        else if has_flag p NATIVE_INSTANCE_OBJECT
        then obind (InitSendablePropertiesInfo mem (instancePropertiesInfo infos) p SendableObject) (\<lambda>i.
               Returns (infos\<lparr>instancePropertiesInfo := i\<rparr>))
        else if has_flag p NATIVE_INSTANCE_GENERIC
        then obind (InitSendablePropertiesInfo mem (instancePropertiesInfo infos) p SendableGeneric) (\<lambda>i.
               Returns (infos\<lparr>instancePropertiesInfo := i\<rparr>))
        else obind (InitSendablePropertiesInfo mem (nonStaticPropertiesInfo infos) p SendableNone) (\<lambda>i.
               Returns (infos\<lparr>nonStaticPropertiesInfo := i\<rparr>)))
       (CreateSendablePropertiesInfos mem ps)"

definition no_infos :: sendable_infos where
  "no_infos = \<lparr>instancePropertiesInfo = [], staticPropertiesInfo = [], nonStaticPropertiesInfo = []\<rparr>"

section \<open>Requests to the VM\<close>

datatype vm_request =
    NewConcurrentClass string func_info nat nat "prop_slot option list"
  | NewSendableClass string func_info sendable_infos "nat option"
  | NewWithProperties "prop_slot list"
  | NewSWithProperties sendable_info
  | DefineProperty nat "prop_key option" property_attr
  | SetAccessorProperty nat "prop_key option" prop_value prop_value property_attr
  | SetProperty nat "prop_key option" prop_value
  | ThrowError string

record class_env = call_env +
  requests :: "vm_request list"
  napiProfilerEnabled :: bool
  tempModuleName :: string
  main_context :: bool

text \<open>
  What the machine grants a call: allocations of function informations, \<open>MAX_PROPERTIES_ON_STACK\<close>, the two calls of
  \<open>malloc\<close>, whether \<open>strncpy_s\<close> copies the name, and the handle the VM answers with.
\<close>

record class_vm =
  fi_mem :: "func_info \<Rightarrow> bool"
  stack_max :: nat
  malloc_attrs :: bool
  malloc_keys :: bool
  name_copied :: bool
  answer :: nat

definition ask :: "vm_request \<Rightarrow> class_env \<Rightarrow> class_env" where
  "ask r s = s\<lparr>requests := requests s @ [r]\<rparr>"

definition NapiCreateClassFunction ::
    "class_vm \<Rightarrow> nat \<Rightarrow> string \<Rightarrow> func_info \<Rightarrow> property_descriptor list \<Rightarrow> class_env \<Rightarrow> (class_env \<times> nat option) outcome" where
  "NapiCreateClassFunction vm engine className funcInfo properties s =
     (let propCount = length properties in
      if propCount = 0 then Returns (ask (NewConcurrentClass className funcInfo 0 0 []) s, Some (answer vm))
      else if propCount \<le> stack_max vm
      then obind (NapiGetKeysAndAttrsFromProps (fi_mem vm) engine properties (replicate (stack_max vm) None)) (\<lambda>(arr, n).
             Returns (ask (NewConcurrentClass className funcInfo propCount (unat n) (take propCount arr)) s, Some (answer vm)))
      else if malloc_attrs vm \<and> malloc_keys vm
      then obind (NapiGetKeysAndAttrsFromProps (fi_mem vm) engine properties (replicate propCount None)) (\<lambda>(arr, n).
             Returns (ask (NewConcurrentClass className funcInfo propCount (unat n) arr) s, Some (answer vm)))
      else Returns (ask (ThrowError ''malloc failed in napi_define_class'') s, None))"

text \<open>The result is the handle of the class, \<open>None\<close> for undefined.  A pending exception is cleared.\<close>

definition NapiDefineClass ::
    "class_vm \<Rightarrow> nat \<Rightarrow> string \<Rightarrow> nat \<Rightarrow> nat \<Rightarrow> property_descriptor list \<Rightarrow> class_env \<Rightarrow> (class_env \<times> nat option) outcome" where
  "NapiDefineClass vm engine name callback data properties s =
     (let className = (if napiProfilerEnabled s then tempModuleName s @ ''.'' @ name else name);
          funcInfo = \<lparr>fi_callback = callback, fi_data = data, fi_isSendable = False, fi_env = Some engine\<rparr>
      in if \<not> fi_mem vm funcInfo then Returns (s, None)
         else NapiCreateClassFunction vm engine className funcInfo properties s)"

definition NapiDefineSendableClass ::
    "class_vm \<Rightarrow> string \<Rightarrow> nat \<Rightarrow> nat \<Rightarrow> property_descriptor list \<Rightarrow> nat option \<Rightarrow> class_env \<Rightarrow> (class_env \<times> nat option) outcome" where
  "NapiDefineSendableClass vm name callback data properties parent s =
     (let funcInfo = \<lparr>fi_callback = callback, fi_data = data, fi_isSendable = True, fi_env = None\<rparr> in
      if \<not> fi_mem vm funcInfo then Returns (s, None)
      else let className = (if napiProfilerEnabled s then tempModuleName s @ ''.'' @ name else name)
           in obind (CreateSendablePropertiesInfos (fi_mem vm) properties no_infos) (\<lambda>infos.
                Returns (ask (NewSendableClass className funcInfo infos parent) s, Some (answer vm))))"

text \<open>
  The caller's array \<open>properties\<close> is a list; a count beyond its end is \<open>Fault\<close>, and so is a null array whose elements
  are read.
\<close>

definition read_array :: "'a list option \<Rightarrow> nat \<Rightarrow> 'a list outcome" where
  "read_array xs n = (if n = 0 then Returns [] else deref xs (\<lambda>xs. if length xs < n then Fault else Returns (take n xs)))"

text \<open>
  The result of the calls that make a class or an object is a handle: \<open>None\<close> null, \<open>Some None\<close> undefined.
\<close>

definition napi_define_class ::
    "class_vm \<Rightarrow> nat \<Rightarrow> bool \<Rightarrow> vm_call \<Rightarrow> string option \<Rightarrow> u64 \<Rightarrow> nat option \<Rightarrow> nat \<Rightarrow> nat \<Rightarrow>
     property_descriptor list option \<Rightarrow> unit option \<Rightarrow> class_env \<Rightarrow>
     (class_env \<times> napi_status \<times> nat option option option) outcome" where
  "napi_define_class vm engine env c name len constructor data property_count properties result =
     NAPI_PREAMBLE env (c\<lparr>caught := False\<rparr>) (
     CHECK_ARG name (
     RETURN_STATUS_IF_FALSE (len = NAPI_AUTO_LENGTH \<or> unat len \<le> INT_MAX) napi_object_expected (
     CHECK_ARG constructor (
     (if property_count > 0 then CHECK_ARG properties else (\<lambda>rest. rest)) (
     CHECK_ARG result (
     SWITCH_CONTEXT c (\<lambda>s.
       if \<not> name_copied vm then GET_RETURN_STATUS (c\<lparr>caught := False\<rparr>) (Some None) s
       else obind (read_array properties property_count) (\<lambda>ps.
            obind (NapiDefineClass vm engine (take (unat len) (the name)) (the constructor) data ps s) (\<lambda>(s', v).
              GET_RETURN_STATUS (c\<lparr>caught := False\<rparr>) (Some (Some v)) s')))))))))"

definition napi_define_sendable_class ::
    "class_vm \<Rightarrow> bool \<Rightarrow> vm_call \<Rightarrow> string option \<Rightarrow> u64 \<Rightarrow> nat option \<Rightarrow> nat \<Rightarrow> nat \<Rightarrow>
     property_descriptor list option \<Rightarrow> nat option \<Rightarrow> unit option \<Rightarrow> class_env \<Rightarrow>
     (class_env \<times> napi_status \<times> nat option option option) outcome" where
  "napi_define_sendable_class vm env c name len constructor data property_count properties parent result =
     NAPI_PREAMBLE env c (
     CHECK_ARG name (
     RETURN_STATUS_IF_FALSE (len = NAPI_AUTO_LENGTH \<or> unat len \<le> INT_MAX) napi_object_expected (
     CHECK_ARG constructor (
     (if property_count > 0 then CHECK_ARG properties else (\<lambda>rest. rest)) (
     CHECK_ARG result (\<lambda>s.
       if \<not> main_context s then napi_set_last_error napi_invalid_arg None s
       else if \<not> name_copied vm then GET_RETURN_STATUS c (Some None) s
       else obind (read_array properties property_count) (\<lambda>ps.
            obind (NapiDefineSendableClass vm (take (unat len) (the name)) (the constructor) data ps parent s) (\<lambda>(s', v).
              GET_RETURN_STATUS c (Some (Some v)) s'))))))))"

section \<open>Defining properties of an object\<close>

text \<open>\<open>moduleName\<close> is the name of the module of the object with a dot, empty when it has none.\<close>

definition NapiDefinePropertyInner ::
    "(func_info \<Rightarrow> bool) \<Rightarrow> nat \<Rightarrow> string \<Rightarrow> nat \<Rightarrow> property_descriptor \<Rightarrow> prop_key option \<Rightarrow> vm_request outcome" where
  "NapiDefinePropertyInner mem engine moduleName obj p propertyName =
     (let writable = has_flag p NATIVE_WRITABLE;
          enumable = has_flag p NATIVE_ENUMERABLE;
          configable = has_flag p NATIVE_CONFIGURABLE;
          create = (\<lambda>name cb. NapiNativeCreateFunction mem engine name cb (pd_data p))
      in if pd_getter p \<noteq> None \<or> pd_setter p \<noteq> None
         then let (g, s) = accessor_functions create moduleName p
              in Returns (SetAccessorProperty obj propertyName g s \<lparr>attr_value = UndefinedRef, attr_writable = False,
                   attr_enumerable = enumable, attr_configurable = configable\<rparr>)
         else case pd_method p of
           Some cb \<Rightarrow> obind (method_name p propertyName) (\<lambda>fullName.
             Returns (DefineProperty obj propertyName \<lparr>attr_value = create (moduleName @ fullName) cb, attr_writable = writable,
                   attr_enumerable = enumable, attr_configurable = configable\<rparr>))
         | None \<Rightarrow> Returns (DefineProperty obj propertyName \<lparr>attr_value = ValueRef (pd_value p), attr_writable = writable,
                   attr_enumerable = enumable, attr_configurable = configable\<rparr>))"

definition NapiDefineSendabledProperty ::
    "(func_info \<Rightarrow> bool) \<Rightarrow> nat \<Rightarrow> property_descriptor \<Rightarrow> prop_key option \<Rightarrow> vm_request outcome" where
  "NapiDefineSendabledProperty mem obj p propertyName =
     (let enumable = has_flag p NATIVE_ENUMERABLE;
          configable = has_flag p NATIVE_CONFIGURABLE;
          create = (\<lambda>name cb. NapiNativeCreateSendableFunction mem name cb (pd_data p))
      in if pd_getter p \<noteq> None \<or> pd_setter p \<noteq> None
         then let g = (case pd_getter p of None \<Rightarrow> UndefinedRef | Some cb \<Rightarrow> create ''getter'' cb);
                  s = (case pd_setter p of None \<Rightarrow> UndefinedRef | Some cb \<Rightarrow> create ''setter'' cb)
              in Returns (SetAccessorProperty obj propertyName g s \<lparr>attr_value = UndefinedRef, attr_writable = False,
                   attr_enumerable = enumable, attr_configurable = configable\<rparr>)
         else case pd_method p of
           Some cb \<Rightarrow> obind (method_name p propertyName) (\<lambda>fullName. Returns (SetProperty obj propertyName (create fullName cb)))
         | None \<Rightarrow> Returns (SetProperty obj propertyName (ValueRef (pd_value p))))"

text \<open>The answer of the VM and an exception it raised are dropped by the callers, so only the request matters.\<close>

definition NapiDefineProperty ::
    "(func_info \<Rightarrow> bool) \<Rightarrow> nat \<Rightarrow> string \<Rightarrow> bool \<Rightarrow> nat \<Rightarrow> property_descriptor \<Rightarrow> class_env \<Rightarrow> class_env outcome" where
  "NapiDefineProperty mem engine moduleName isJSShared obj p s =
     obind (if isJSShared then NapiDefineSendabledProperty mem obj p (key_of p)
            else NapiDefinePropertyInner mem engine moduleName obj p (key_of p)) (\<lambda>r. Returns (ask r s))"

fun key_usable :: "prop_key option \<Rightarrow> bool" where
  "key_usable (Some (StringKey n)) = True"
| "key_usable (Some (SymbolKey i d)) = True"
| "key_usable _ = False"

fun define_loop ::
    "(func_info \<Rightarrow> bool) \<Rightarrow> nat \<Rightarrow> string \<Rightarrow> bool \<Rightarrow> nat \<Rightarrow> vm_call \<Rightarrow> property_descriptor list \<Rightarrow> class_env \<Rightarrow>
     (class_env \<times> napi_status \<times> unit option) outcome" where
  "define_loop mem engine moduleName shared obj c [] s = GET_RETURN_STATUS c None s"
| "define_loop mem engine moduleName shared obj c (p # ps) s =
     (if utf8name p = None \<and> \<not> key_usable (pd_name p) then napi_set_last_error napi_name_expected None s
      else obind (NapiDefineProperty mem engine moduleName shared obj p s) (\<lambda>s'.
             define_loop mem engine moduleName shared obj c ps s'))"

text \<open>\<open>is_object\<close>: the value is an object or a function; \<open>shared\<close>: it is a shared one.\<close>

definition napi_define_properties ::
    "(func_info \<Rightarrow> bool) \<Rightarrow> nat \<Rightarrow> string \<Rightarrow> bool \<Rightarrow> bool \<Rightarrow> bool \<Rightarrow> vm_call \<Rightarrow> nat option \<Rightarrow> nat \<Rightarrow>
     property_descriptor list option \<Rightarrow> class_env \<Rightarrow> (class_env \<times> napi_status \<times> unit option) outcome" where
  "napi_define_properties mem engine moduleName is_object shared env c object property_count properties =
     NAPI_PREAMBLE env (c\<lparr>caught := False\<rparr>) (
     CHECK_ARG object (CHECK_ARG properties (SWITCH_CONTEXT c (
     RETURN_STATUS_IF_FALSE is_object napi_object_expected (\<lambda>s.
       obind (read_array properties property_count) (\<lambda>ps.
         define_loop mem engine moduleName shared (the object) (c\<lparr>caught := False\<rparr>) ps s))))))"

section \<open>Objects with properties\<close>

text \<open>Only the C string is used as the key here.\<close>

definition object_slot :: "(func_info \<Rightarrow> bool) \<Rightarrow> nat \<Rightarrow> property_descriptor \<Rightarrow> prop_slot outcome" where
  "object_slot mem engine p =
     deref (utf8name p) (\<lambda>n.
       let writable = has_flag p NATIVE_WRITABLE;
           create = (\<lambda>name cb. NapiNativeCreateFunction mem engine name cb (pd_data p));
           (val, w) =
             (if pd_getter p \<noteq> None \<or> pd_setter p \<noteq> None
              then let (g, s) = accessor_functions create '''' p in (AccessorData g s, False)
              else case pd_method p of Some cb \<Rightarrow> (create n cb, writable) | None \<Rightarrow> (ValueRef (pd_value p), writable))
       in Returns (Some (StringKey n), \<lparr>attr_value = val, attr_writable = w,
                 attr_enumerable = has_flag p NATIVE_ENUMERABLE, attr_configurable = has_flag p NATIVE_CONFIGURABLE\<rparr>))"

definition NapiCreateObjectWithProperties ::
    "(func_info \<Rightarrow> bool) \<Rightarrow> nat \<Rightarrow> nat \<Rightarrow> property_descriptor list \<Rightarrow> class_env \<Rightarrow> (class_env \<times> nat option) outcome" where
  "NapiCreateObjectWithProperties mem engine new properties s =
     obind (omap (object_slot mem engine) properties) (\<lambda>slots. Returns (ask (NewWithProperties slots) s, Some new))"

definition napi_create_object_with_properties ::
    "class_vm \<Rightarrow> nat \<Rightarrow> bool \<Rightarrow> vm_call \<Rightarrow> unit option \<Rightarrow> nat \<Rightarrow> property_descriptor list option \<Rightarrow> class_env \<Rightarrow>
     (class_env \<times> napi_status \<times> nat option option) outcome" where
  "napi_create_object_with_properties vm engine env c result property_count properties =
     CHECK_ENV env (CHECK_ARG result (SWITCH_CONTEXT c (\<lambda>s.
       obind (if property_count \<le> stack_max vm \<or> malloc_attrs vm \<and> malloc_keys vm
              then obind (read_array properties property_count) (\<lambda>ps.
                     NapiCreateObjectWithProperties (fi_mem vm) engine (answer vm) ps s)
              else Returns (ask (ThrowError ''malloc failed in napi_create_object_with_properties'') s, None))
         (\<lambda>(s', v). napi_clear_last_error (Some v) s'))))"

fun fold_sendable :: "(func_info \<Rightarrow> bool) \<Rightarrow> property_descriptor list \<Rightarrow> sendable_info \<Rightarrow> sendable_info outcome" where
  "fold_sendable mem [] info = Returns info"
| "fold_sendable mem (p # ps) info = obind (InitSendablePropertiesInfo mem info p SendableNone) (fold_sendable mem ps)"

definition NapiCreateSObjectWithProperties ::
    "(func_info \<Rightarrow> bool) \<Rightarrow> nat \<Rightarrow> property_descriptor list \<Rightarrow> class_env \<Rightarrow> (class_env \<times> nat option) outcome" where
  "NapiCreateSObjectWithProperties mem new properties s =
     obind (fold_sendable mem properties []) (\<lambda>info. Returns (ask (NewSWithProperties info) s, Some new))"

definition napi_create_sendable_object_with_properties ::
    "class_vm \<Rightarrow> bool \<Rightarrow> nat \<Rightarrow> property_descriptor list option \<Rightarrow> unit option \<Rightarrow> class_env \<Rightarrow>
     (class_env \<times> napi_status \<times> nat option option) outcome" where
  "napi_create_sendable_object_with_properties vm env property_count properties result =
     CHECK_ENV env (CHECK_ARG result (\<lambda>s.
       if \<not> main_context s then napi_set_last_error napi_invalid_arg None s
       else obind (read_array properties property_count) (\<lambda>ps.
            obind (NapiCreateSObjectWithProperties (fi_mem vm) (answer vm) ps s) (\<lambda>(s', v).
              napi_clear_last_error (Some v) s'))))"

section \<open>The two-pointer loop\<close>

lemma slot_of_total: "slot_of mem engine p \<noteq> Aborts"
  by (auto simp: slot_of_def NapiInitAttrValFromProp_def method_name_def Let_def
      split: option.split prop_key.split prod.split)

definition is_static :: "property_descriptor \<Rightarrow> bool" where
  "is_static p = has_flag p NATIVE_STATIC"

definition class_table :: "(func_info \<Rightarrow> bool) \<Rightarrow> nat \<Rightarrow> property_descriptor list \<Rightarrow> prop_slot list outcome" where
  "class_table mem engine ps =
     obind (omap (slot_of mem engine) (filter is_static ps)) (\<lambda>a.
     obind (omap (slot_of mem engine) (filter (\<lambda>p. \<not> is_static p) ps)) (\<lambda>b. Returns (a @ rev b)))"

lemma fill_slots_eq:
  assumes "length M = length ps" and "unat cs = length A" and "ps \<noteq> [] \<Longrightarrow> unat cn + 1 = length A + length ps"
    and "length A + length ps < 2 ^ 64"
  shows "fill_slots mem engine ps cs cn (A @ M @ B) =
    obind (omap (slot_of mem engine) (filter is_static ps)) (\<lambda>a.
    obind (omap (slot_of mem engine) (filter (\<lambda>p. \<not> is_static p) ps)) (\<lambda>b.
      Returns (A @ map Some (a @ rev b) @ B, cs + of_nat (length a))))"
  using assms
proof (induction ps arbitrary: cs cn A M B)
  case (Cons p ps)
  show ?case
  proof (cases "has_flag p NATIVE_STATIC")
    case True
    obtain m M' where M: "M = m # M'" using Cons.prems(1) by (cases M) auto
    have len: "unat cs < length (A @ M @ B)" using Cons.prems(2) M by simp
    have cs1: "unat (cs + 1) = Suc (length A)"
      using Cons.prems(2,4) by (simp add: unat_word_ariths(1))
    have upd: "(A @ M @ B)[unat cs := Some x] = (A @ [Some x]) @ M' @ B" for x
      using Cons.prems(2) M by (simp add: list_update_append)
    have "fill_slots mem engine (p # ps) cs cn (A @ M @ B) =
      obind (slot_of mem engine p) (\<lambda>x. fill_slots mem engine ps (cs + 1) cn ((A @ [Some x]) @ M' @ B))"
      using True len upd by simp
    also have "\<dots> = obind (slot_of mem engine p) (\<lambda>x.
      obind (omap (slot_of mem engine) (filter is_static ps)) (\<lambda>a.
      obind (omap (slot_of mem engine) (filter (\<lambda>p. \<not> is_static p) ps)) (\<lambda>b.
      Returns ((A @ [Some x]) @ map Some (a @ rev b) @ B, cs + 1 + of_nat (length a)))))"
    proof (rule obind_cong)
      fix x
      show "fill_slots mem engine ps (cs + 1) cn ((A @ [Some x]) @ M' @ B) = obind (omap (slot_of mem engine) (filter is_static ps)) (\<lambda>a.
      obind (omap (slot_of mem engine) (filter (\<lambda>p. \<not> is_static p) ps)) (\<lambda>b.
      Returns ((A @ [Some x]) @ map Some (a @ rev b) @ B, cs + 1 + of_nat (length a))))"
        using Cons.prems M cs1 by (intro Cons.IH) auto
    qed
    finally have step: "fill_slots mem engine (p # ps) cs cn (A @ M @ B) = \<dots>" .
    have "is_static p" using True by (simp add: is_static_def)
    then show ?thesis unfolding step by (simp add: obind_assoc algebra_simps)
  next
    case False
    obtain m M' where M: "M = M' @ [m]" using Cons.prems(1) by (cases M rule: rev_cases) auto
    have cn: "unat cn = length A + length M'" using Cons.prems(1,3) M by simp
    have cn1: "unat (cn - 1) + 1 = length A + length ps" if "ps \<noteq> []"
      using that Cons.prems(1) cn M by (cases "cn = 0") (auto simp: unat_minus_one)
    have upd: "(A @ M @ B)[unat cn := Some x] = A @ M' @ (Some x # B)" for x
      using cn M by (simp add: list_update_append)
    have "fill_slots mem engine (p # ps) cs cn (A @ M @ B) =
      obind (slot_of mem engine p) (\<lambda>x. fill_slots mem engine ps cs (cn - 1) (A @ M' @ (Some x # B)))"
      using False cn M upd by simp
    also have "\<dots> = obind (slot_of mem engine p) (\<lambda>x.
      obind (omap (slot_of mem engine) (filter is_static ps)) (\<lambda>a.
      obind (omap (slot_of mem engine) (filter (\<lambda>p. \<not> is_static p) ps)) (\<lambda>b.
      Returns (A @ map Some (a @ rev b) @ (Some x # B), cs + of_nat (length a)))))"
    proof (rule obind_cong)
      fix x
      show "fill_slots mem engine ps cs (cn - 1) (A @ M' @ (Some x # B)) = obind (omap (slot_of mem engine) (filter is_static ps)) (\<lambda>a.
      obind (omap (slot_of mem engine) (filter (\<lambda>p. \<not> is_static p) ps)) (\<lambda>b.
      Returns (A @ map Some (a @ rev b) @ (Some x # B), cs + of_nat (length a))))"
        using Cons.prems M cn1 by (intro Cons.IH) auto
    qed
    finally have step: "fill_slots mem engine (p # ps) cs cn (A @ M @ B) = \<dots>" .
    have "\<not> is_static p" using False by (simp add: is_static_def)
    moreover have "omap (slot_of mem engine) (filter is_static ps) \<noteq> Aborts" by (rule omap_total) (rule slot_of_total)
    ultimately show ?thesis unfolding step using slot_of_total [of mem engine p]
      by (cases "slot_of mem engine p"; cases "omap (slot_of mem engine) (filter is_static ps)") (simp_all add: obind_assoc)
  qed
qed simp


section \<open>Properties\<close>

text \<open>
  C18: the table of a class.  Whatever the order of the descriptors, the two-pointer loop fills the array with
  the static properties in order followed by the other ones in reverse order, writes every slot of the table once and
  no other, and returns the number of static properties: it computes \<open>class_table\<close>, faults included.
\<close>

theorem class_table_filled:
  assumes "length properties \<le> length arr" and "length properties < 2 ^ 64"
  shows "NapiGetKeysAndAttrsFromProps mem engine properties arr =
    obind (class_table mem engine properties) (\<lambda>t.
      Returns (map Some t @ drop (length properties) arr, of_nat (length (filter is_static properties))))"
proof -
  let ?n = "length properties"
  have "fill_slots mem engine properties 0 (of_nat ?n - 1) ([] @ take ?n arr @ drop ?n arr) =
    obind (omap (slot_of mem engine) (filter is_static properties)) (\<lambda>a.
    obind (omap (slot_of mem engine) (filter (\<lambda>p. \<not> is_static p) properties)) (\<lambda>b.
      Returns ([] @ map Some (a @ rev b) @ drop ?n arr, 0 + of_nat (length a))))"
  proof (rule fill_slots_eq)
    assume "properties \<noteq> []"
    then have "unat (of_nat ?n - 1 :: u64) = ?n - 1" using assms(2)
      by (subst unat_minus_one) (auto simp: unat_of_nat word_of_nat_eq_0_iff dvd_imp_le dest!: dvd_imp_le)
    then show "unat (of_nat ?n - 1 :: u64) + 1 = length [] + ?n" using \<open>properties \<noteq> []\<close> by (cases properties) simp_all
  qed (use assms in simp_all)
  then show ?thesis
    by (auto simp: NapiGetKeysAndAttrsFromProps_def class_table_def obind_assoc dest: omap_length intro!: obind_cong)
qed

definition demo_props :: "property_descriptor list" where
  "demo_props =
     [\<lparr>utf8name = Some ''run'', pd_name = None, pd_method = Some 4, pd_getter = None, pd_setter = None, pd_value = None,
        attributes = 1, pd_data = 0\<rparr>,
      \<lparr>utf8name = Some ''of'', pd_name = None, pd_method = Some 5, pd_getter = None, pd_setter = None, pd_value = None,
        attributes = 1024, pd_data = 0\<rparr>,
      \<lparr>utf8name = None, pd_name = Some (SymbolKey 1 ''tag''), pd_method = None, pd_getter = Some 6, pd_setter = Some 7,
        pd_value = None, attributes = 7, pd_data = 0\<rparr>]"

theorem class_table_filled_witness:
  "NapiGetKeysAndAttrsFromProps (\<lambda>i. True) 1 demo_props (replicate 8 None) =
    obind (class_table (\<lambda>i. True) 1 demo_props) (\<lambda>t.
      Returns (map Some t @ drop (length demo_props) (replicate 8 None), of_nat (length (filter is_static demo_props))))"
  by (rule class_table_filled) (simp_all add: demo_props_def)

text \<open>
  Defining a class.  When the machine grants what the call asks for, the VM gets one request: the class with its
  name cut to the given length (and prefixed while the profiler runs), the information of its constructor, and the table
  of its properties with the number of the static ones; the call succeeds with the VM's answer.
\<close>

theorem define_class_request:
  assumes "class_table (fi_mem vm) engine ps = Returns t" and "ps \<noteq> []" and "length ps < 2 ^ 64"
    and "length ps \<le> stack_max vm \<or> malloc_attrs vm \<and> malloc_keys vm" and "name_copied vm"
    and "fi_mem vm \<lparr>fi_callback = f, fi_data = data, fi_isSendable = False, fi_env = Some engine\<rparr>"
    and "\<not> lastException s" and "len = NAPI_AUTO_LENGTH \<or> unat len \<le> INT_MAX" and "switch_answer c = None"
  shows "napi_define_class vm engine True c (Some name) len (Some f) data (length ps) (Some ps) (Some ()) s =
    Returns (s\<lparr>lastError := napi_ok, requests := requests s @
      [NewConcurrentClass ((if napiProfilerEnabled s then tempModuleName s @ ''.'' else '''') @ take (unat len) name)
         \<lparr>fi_callback = f, fi_data = data, fi_isSendable = False, fi_env = Some engine\<rparr>
         (length ps) (length (filter is_static ps)) (map Some t)]\<rparr>, napi_ok, Some (Some (Some (answer vm))))"
proof -
  have len: "length t = length ps"
    using assms(1) by (auto simp: class_table_def obind_eq_Returns dest!: omap_length) (metis sum_length_filter_compl)
  have st: "unat (of_nat (length (filter is_static ps)) :: u64) = length (filter is_static ps)"
    using assms(3) le_less_trans [OF length_filter_le] by (subst unat_of_nat) (auto intro!: mod_less)
  have fill: "NapiGetKeysAndAttrsFromProps (fi_mem vm) engine ps arr =
      Returns (map Some t @ drop (length ps) arr, of_nat (length (filter is_static ps)))" if "length ps \<le> length arr" for arr
    using class_table_filled [OF that assms(3)] assms(1) by simp
  show ?thesis
    using assms(2,4-9) len st fill
    by (auto simp: napi_define_class_def NapiDefineClass_def NapiCreateClassFunction_def read_array_def ask_def Let_def api_defs)
qed

definition demo_vm :: class_vm where
  "demo_vm = \<lparr>fi_mem = (\<lambda>i. True), stack_max = 32, malloc_attrs = False, malloc_keys = False, name_copied = True, answer = 90\<rparr>"

definition demo_class_env :: class_env where
  "demo_class_env = \<lparr>lastException = False, lastError = napi_generic_failure, requests = [], napiProfilerEnabled = True,
     tempModuleName = ''m'', main_context = True\<rparr>"

definition demo_table :: "prop_slot list" where
  "demo_table = (case class_table (\<lambda>i. True) 3 demo_props of Returns t \<Rightarrow> t | _ \<Rightarrow> [])"

lemma demo_table: "class_table (\<lambda>i. True) 3 demo_props = Returns demo_table"
  by (simp add: demo_table_def demo_props_def class_table_def is_static_def has_flag_def NATIVE_STATIC_def slot_of_def
      NapiInitAttrValFromProp_def accessor_functions_def method_name_def Let_def)

theorem define_class_request_witness:
  "napi_define_class demo_vm 3 True quiet (Some ''Class'') 3 (Some 8) 9 3 (Some demo_props) (Some ()) demo_class_env =
    Returns (demo_class_env\<lparr>lastError := napi_ok, requests :=
      [NewConcurrentClass ''m.Cla'' \<lparr>fi_callback = 8, fi_data = 9, fi_isSendable = False, fi_env = Some 3\<rparr>
         3 1 (map Some demo_table)]\<rparr>, napi_ok, Some (Some (Some 90)))"
proof -
  have n: "length demo_props = 3" "length (filter is_static demo_props) = 1"
    by (simp_all add: demo_props_def is_static_def has_flag_def NATIVE_STATIC_def)
  have "napi_define_class demo_vm 3 True quiet (Some ''Class'') 3 (Some 8) 9 (length demo_props) (Some demo_props) (Some ()) demo_class_env =
    Returns (demo_class_env\<lparr>lastError := napi_ok, requests := requests demo_class_env @
      [NewConcurrentClass ((if napiProfilerEnabled demo_class_env then tempModuleName demo_class_env @ ''.'' else '''') @ take (unat (3 :: u64)) ''Class'')
         \<lparr>fi_callback = 8, fi_data = 9, fi_isSendable = False, fi_env = Some 3\<rparr>
         (length demo_props) (length (filter is_static demo_props)) (map Some demo_table)]\<rparr>, napi_ok, Some (Some (Some (answer demo_vm))))"
    by (rule define_class_request) (use n in \<open>auto simp: demo_vm_def demo_table demo_class_env_def quiet_def INT_MAX_def\<close>)
  then show ?thesis unfolding n by (simp add: demo_class_env_def demo_vm_def)
qed

text \<open>What a request to define a property says, in the form the table of a class has.\<close>

fun as_slot :: "vm_request \<Rightarrow> prop_slot option" where
  "as_slot (DefineProperty obj k a) = Some (k, a)"
| "as_slot (SetAccessorProperty obj k g s a) = Some (k, a\<lparr>attr_value := AccessorData g s\<rparr>)"
| "as_slot _ = None"

text \<open>
  The three routes agree.  A descriptor means the same property for a class, for an object that exists and for a new
  object: the same key, value, function names and attributes (an accessor is never writable), faults included.
\<close>

theorem property_routes_agree:
  "obind (NapiDefinePropertyInner mem engine '''' obj p (key_of p)) (\<lambda>r. Returns (as_slot r)) =
     obind (slot_of mem engine p) (\<lambda>x. Returns (Some x)) \<and>
   object_slot mem engine (p\<lparr>utf8name := Some n\<rparr>) = slot_of mem engine (p\<lparr>utf8name := Some n\<rparr>)"
proof
  show "obind (NapiDefinePropertyInner mem engine '''' obj p (key_of p)) (\<lambda>r. Returns (as_slot r)) =
     obind (slot_of mem engine p) (\<lambda>x. Returns (Some x))"
    by (simp add: NapiDefinePropertyInner_def slot_of_def NapiInitAttrValFromProp_def Let_def obind_assoc split: prod.split option.split)
  show "object_slot mem engine (p\<lparr>utf8name := Some n\<rparr>) = slot_of mem engine (p\<lparr>utf8name := Some n\<rparr>)"
    by (simp add: object_slot_def slot_of_def NapiInitAttrValFromProp_def key_of_def method_name_def has_flag_def
        accessor_functions_def Let_def split: option.split)
qed

definition descriptor_named :: "property_descriptor \<Rightarrow> bool" where
  "descriptor_named p \<longleftrightarrow> utf8name p \<noteq> None \<or> key_usable (pd_name p)"

lemma not_named: "utf8name p = None \<and> \<not> key_usable (pd_name p) \<longleftrightarrow> \<not> descriptor_named p"
  by (simp add: descriptor_named_def)

lemma inner_returns:
  "descriptor_named p \<Longrightarrow> \<exists>r. NapiDefinePropertyInner mem engine moduleName obj p (key_of p) = Returns r"
  by (auto simp: NapiDefinePropertyInner_def descriptor_named_def key_of_def method_name_def Let_def
      split: option.split prod.split elim!: key_usable.elims)

lemma define_loop_eq:
  assumes "\<not> caught c"
  shows "\<exists>rs. omap (\<lambda>p. NapiDefinePropertyInner mem engine moduleName obj p (key_of p)) (takeWhile descriptor_named ps) = Returns rs \<and>
    define_loop mem engine moduleName False obj c ps s =
      Returns (if list_all descriptor_named ps then (s\<lparr>requests := requests s @ rs\<rparr>, napi_ok, None)
               else (s\<lparr>requests := requests s @ rs, lastError := napi_name_expected\<rparr>, napi_name_expected, None))"
proof (induction ps arbitrary: s)
  case Nil
  then show ?case using assms by (simp add: api_defs)
next
  case (Cons p ps)
  show ?case
  proof (cases "descriptor_named p")
    case True
    obtain r where r: "NapiDefinePropertyInner mem engine moduleName obj p (key_of p) = Returns r"
      using inner_returns [OF True] by blast
    obtain rs where rs: "omap (\<lambda>p. NapiDefinePropertyInner mem engine moduleName obj p (key_of p)) (takeWhile descriptor_named ps) = Returns rs"
      "define_loop mem engine moduleName False obj c ps (ask r s) =
       Returns (if list_all descriptor_named ps then ((ask r s)\<lparr>requests := requests (ask r s) @ rs\<rparr>, napi_ok, None)
               else ((ask r s)\<lparr>requests := requests (ask r s) @ rs, lastError := napi_name_expected\<rparr>, napi_name_expected, None))"
      using Cons.IH [of "ask r s"] by blast
    then show ?thesis using True r
      by (simp add: NapiDefineProperty_def ask_def not_named)
  next
    case False
    then show ?thesis by (simp add: not_named api_defs)
  qed
qed

text \<open>
  Defining properties of an object.  The descriptors are applied in order up to the first one without a usable name;
  those before it stay applied when the call then fails with \<open>napi_name_expected\<close>, and otherwise the call succeeds.
\<close>

theorem define_properties_prefix:
  assumes "\<not> lastException s" and "switch_answer c = None"
  shows "\<exists>rs. omap (\<lambda>p. NapiDefinePropertyInner mem engine moduleName obj p (key_of p)) (takeWhile descriptor_named ps) = Returns rs \<and>
    napi_define_properties mem engine moduleName True False True c (Some obj) (length ps) (Some ps) s =
      (let st = (if list_all descriptor_named ps then napi_ok else napi_name_expected)
       in Returns (s\<lparr>requests := requests s @ rs, lastError := st\<rparr>, st, None))"
proof -
  have r: "read_array (Some ps) (length ps) = Returns ps" by (simp add: read_array_def)
  show ?thesis
    using define_loop_eq [of "c\<lparr>caught := False\<rparr>" mem engine moduleName obj ps "s\<lparr>lastError := napi_ok\<rparr>"] assms
    by (auto simp: napi_define_properties_def api_defs r)
qed

theorem define_properties_prefix_witness:
  "\<exists>rs. omap (\<lambda>p. NapiDefinePropertyInner (\<lambda>i. True) 1 [] 5 p (key_of p)) (takeWhile descriptor_named (demo_props @ [(hd demo_props)\<lparr>utf8name := None\<rparr>])) = Returns rs \<and>
    napi_define_properties (\<lambda>i. True) 1 [] True False True quiet (Some 5) (length (demo_props @ [(hd demo_props)\<lparr>utf8name := None\<rparr>]))
      (Some (demo_props @ [(hd demo_props)\<lparr>utf8name := None\<rparr>])) demo_class_env =
      (let st = (if list_all descriptor_named (demo_props @ [(hd demo_props)\<lparr>utf8name := None\<rparr>]) then napi_ok else napi_name_expected)
       in Returns (demo_class_env\<lparr>requests := requests demo_class_env @ rs, lastError := st\<rparr>, st, None))"
  by (rule define_properties_prefix) (simp_all add: demo_class_env_def quiet_def)

text \<open>
  Every descriptor of a sendable class goes to one of the three tables, in order: static ones first of all, then the ones of
  instances.
\<close>

definition is_instance :: "property_descriptor \<Rightarrow> bool" where
  "is_instance p \<longleftrightarrow> \<not> is_static p \<and>
     (has_flag p NATIVE_INSTANCE \<or> has_flag p NATIVE_INSTANCE_OBJECT \<or> has_flag p NATIVE_INSTANCE_GENERIC)"

lemma sendable_keys: "InitSendablePropertiesInfo mem info p ty = Returns i \<Longrightarrow> map fst i = map fst info @ [key_of p]"
  by (auto simp: InitSendablePropertiesInfo_def Let_def obind_eq_Returns split: if_splits option.splits)

theorem sendable_tables_partition:
  assumes "CreateSendablePropertiesInfos mem ps infos = Returns infos'"
  shows "map fst (staticPropertiesInfo infos') = map fst (staticPropertiesInfo infos) @ map key_of (filter is_static ps)"
    and "map fst (instancePropertiesInfo infos') = map fst (instancePropertiesInfo infos) @ map key_of (filter is_instance ps)"
    and "map fst (nonStaticPropertiesInfo infos') = map fst (nonStaticPropertiesInfo infos) @
           map key_of (filter (\<lambda>p. \<not> is_static p \<and> \<not> is_instance p) ps)"
  using assms
  by (induction ps arbitrary: infos)
     (auto simp: obind_eq_Returns is_static_def is_instance_def split: if_splits dest!: sendable_keys)

text \<open>
  The setter of an accessor with a getter is named after both: a descriptor with the two makes functions named
  \<open>getter\<close> and \<open>gettersetter\<close>.
\<close>

theorem setter_named_after_getter:
  "accessor_functions (\<lambda>n cb. FunctionRef n \<lparr>fi_callback = cb, fi_data = 0, fi_isSendable = False, fi_env = Some 1\<rparr>) [] (demo_props ! 2) =
     (FunctionRef ''getter'' \<lparr>fi_callback = 6, fi_data = 0, fi_isSendable = False, fi_env = Some 1\<rparr>,
      FunctionRef ''gettersetter'' \<lparr>fi_callback = 7, fi_data = 0, fi_isSendable = False, fi_env = Some 1\<rparr>)"
  by (simp add: accessor_functions_def demo_props_def)

text \<open>
  Without memory for the table the class is undefined, and the exception that tells so is cleared: the call succeeds.
\<close>

theorem define_class_lost_failure:
  assumes "length ps > stack_max vm" and "\<not> malloc_keys vm" and "name_copied vm" and "ps \<noteq> []"
    and "fi_mem vm \<lparr>fi_callback = f, fi_data = data, fi_isSendable = False, fi_env = Some engine\<rparr>"
    and "\<not> lastException s" and "switch_answer c = None"
  shows "\<exists>s'. napi_define_class vm engine True c (Some name) NAPI_AUTO_LENGTH (Some f) data (length ps) (Some ps) (Some ()) s =
    Returns (s', napi_ok, Some (Some None)) \<and> \<not> lastException s'"
  using assms
  by (auto simp: napi_define_class_def NapiDefineClass_def NapiCreateClassFunction_def read_array_def ask_def Let_def api_defs)

text \<open>
  A data property of a shared object is set, not defined: the attributes of its descriptor are dropped.
\<close>

theorem sendable_attributes_dropped:
  assumes "pd_getter p = None" and "pd_setter p = None"
  shows "NapiDefineSendabledProperty mem obj (p\<lparr>attributes := a\<rparr>) k = NapiDefineSendabledProperty mem obj (p\<lparr>attributes := b\<rparr>) k"
  using assms by (simp add: NapiDefineSendabledProperty_def method_name_def Let_def split: option.split)

end
