(* ===== verification/Array_Buffers.thy ===== *)
theory Array_Buffers
  imports Napi_Call "HOL-Library.Word"
begin

text \<open>
  Array buffers, typed arrays, data views and node buffers (native\_engine/native\_api.cpp,
  native\_engine/impl/ark/ark\_native\_engine.cpp).

  The objects are the VM's; they are modelled as ECMAScript has them: an array buffer is a block of bytes until it is
  detached, a view is a range of one, and the constructor of a view throws when the range does not fit or a typed array
  is not aligned.  What the machine grants a call (the block, the handle of the new value) is a parameter.
\<close>

section \<open>Values\<close>

datatype NativeTypedArrayType =
    NATIVE_INT8_ARRAY | NATIVE_UINT8_ARRAY | NATIVE_UINT8_CLAMPED_ARRAY | NATIVE_INT16_ARRAY | NATIVE_UINT16_ARRAY
  | NATIVE_INT32_ARRAY | NATIVE_UINT32_ARRAY | NATIVE_FLOAT32_ARRAY | NATIVE_FLOAT64_ARRAY
  | NATIVE_BIGINT64_ARRAY | NATIVE_BIGUINT64_ARRAY

definition typed_array_types :: "NativeTypedArrayType list" where
  "typed_array_types = [NATIVE_INT8_ARRAY, NATIVE_UINT8_ARRAY, NATIVE_UINT8_CLAMPED_ARRAY, NATIVE_INT16_ARRAY,
     NATIVE_UINT16_ARRAY, NATIVE_INT32_ARRAY, NATIVE_UINT32_ARRAY, NATIVE_FLOAT32_ARRAY, NATIVE_FLOAT64_ARRAY,
     NATIVE_BIGINT64_ARRAY, NATIVE_BIGUINT64_ARRAY]"

text \<open>The enumeration as a number, and back; other numbers reach the default branches.\<close>

definition typed_code :: "NativeTypedArrayType \<Rightarrow> nat" where
  "typed_code k = length (takeWhile (\<lambda>x. x \<noteq> k) typed_array_types)"

definition typed_of :: "nat \<Rightarrow> NativeTypedArrayType option" where
  "typed_of n = (if n < length typed_array_types then Some (typed_array_types ! n) else None)"

fun element_size :: "NativeTypedArrayType \<Rightarrow> nat" where
  "element_size NATIVE_INT8_ARRAY = 1"
| "element_size NATIVE_UINT8_ARRAY = 1"
| "element_size NATIVE_UINT8_CLAMPED_ARRAY = 1"
| "element_size NATIVE_INT16_ARRAY = 2"
| "element_size NATIVE_UINT16_ARRAY = 2"
| "element_size NATIVE_INT32_ARRAY = 4"
| "element_size NATIVE_UINT32_ARRAY = 4"
| "element_size NATIVE_FLOAT32_ARRAY = 4"
| "element_size NATIVE_FLOAT64_ARRAY = 8"
| "element_size NATIVE_BIGINT64_ARRAY = 8"
| "element_size NATIVE_BIGUINT64_ARRAY = 8"

text \<open>
  A block is its address (\<open>None\<close>: null) and its length in bytes; a detached buffer remembers the length it had.  A view
  is the handle of its buffer, its offset and its length in bytes.
\<close>

datatype buffer_value =
    ArrayBuffer "addr option" nat bool
  | SendableArrayBuffer "addr option" nat
  | TypedArray NativeTypedArrayType nat nat nat
  | SharedTypedArray NativeTypedArrayType nat nat nat
  | DataView nat nat nat
  | BufferObject "addr option" nat
  | OtherValue

text \<open>
  \<open>registered\<close> are the finalizers given away with external memory: handle, memory, callback, hint, and whether the VM
  or a reference of the engine keeps them.
\<close>

record buffer_env = call_env +
  js_vals :: "nat \<rightharpoonup> buffer_value"
  block_bytes :: "addr \<rightharpoonup> u8 list"
  IsMainEnvContext :: bool
  registered :: "(nat \<times> addr \<times> nat option \<times> nat \<times> bool) list"

definition MAX_BYTE_LENGTH :: nat where "MAX_BYTE_LENGTH = 2097152"

definition put :: "nat \<Rightarrow> buffer_value \<Rightarrow> buffer_env \<Rightarrow> buffer_env" where
  "put v x s = s\<lparr>js_vals := (js_vals s)(v \<mapsto> x)\<rparr>"

fun is_array_buffer :: "buffer_value option \<Rightarrow> bool" where
  "is_array_buffer (Some (ArrayBuffer b n d)) = True"
| "is_array_buffer _ = False"

fun is_sendable_array_buffer :: "buffer_value option \<Rightarrow> bool" where
  "is_sendable_array_buffer (Some (SendableArrayBuffer b n)) = True"
| "is_sendable_array_buffer _ = False"

fun is_typed :: "buffer_value option \<Rightarrow> bool" where
  "is_typed (Some (TypedArray k b off n)) = True"
| "is_typed _ = False"

fun is_shared_typed :: "buffer_value option \<Rightarrow> bool" where
  "is_shared_typed (Some (SharedTypedArray k b off n)) = True"
| "is_shared_typed _ = False"

section \<open>Array buffers\<close>

definition napi_is_arraybuffer :: "bool \<Rightarrow> nat option \<Rightarrow> unit option \<Rightarrow> buffer_env \<Rightarrow> (buffer_env \<times> napi_status \<times> bool option) outcome" where
  "napi_is_arraybuffer env value result =
     CHECK_ENV env (CHECK_ARG value (CHECK_ARG result (\<lambda>s.
       napi_clear_last_error (Some (is_array_buffer (js_vals s (the value)) \<or> is_sendable_array_buffer (js_vals s (the value)))) s)))"

text \<open>The results of a creation: the pointer written through \<open>data\<close> and the handle.\<close>

definition napi_create_arraybuffer ::
    "bool \<Rightarrow> vm_call \<Rightarrow> addr option \<Rightarrow> nat \<Rightarrow> nat \<Rightarrow> unit option \<Rightarrow> unit option \<Rightarrow> buffer_env \<Rightarrow>
     (buffer_env \<times> napi_status \<times> (addr option \<times> nat) option) outcome" where
  "napi_create_arraybuffer env c block v byte_length data result =
     NAPI_PREAMBLE env c (CHECK_ARG data (CHECK_ARG result (\<lambda>s.
       GET_RETURN_STATUS c (Some (if caught c then None else block, v))
         (put v (if caught c then OtherValue else ArrayBuffer block byte_length False) s))))"

definition napi_create_sendable_arraybuffer ::
    "bool \<Rightarrow> vm_call \<Rightarrow> addr option \<Rightarrow> nat \<Rightarrow> nat \<Rightarrow> unit option \<Rightarrow> unit option \<Rightarrow> buffer_env \<Rightarrow>
     (buffer_env \<times> napi_status \<times> (addr option \<times> nat) option) outcome" where
  "napi_create_sendable_arraybuffer env c block v byte_length data result =
     NAPI_PREAMBLE env c (CHECK_ARG data (CHECK_ARG result (\<lambda>s.
       if \<not> IsMainEnvContext s then napi_set_last_error napi_invalid_arg None s
       else GET_RETURN_STATUS c (Some (if caught c then None else block, v))
         (put v (if caught c then OtherValue else SendableArrayBuffer block byte_length) s))))"

definition napi_create_external_arraybuffer ::
    "bool \<Rightarrow> vm_call \<Rightarrow> nat \<Rightarrow> addr option \<Rightarrow> nat \<Rightarrow> nat option \<Rightarrow> nat \<Rightarrow> unit option \<Rightarrow> buffer_env \<Rightarrow>
     (buffer_env \<times> napi_status \<times> nat option) outcome" where
  "napi_create_external_arraybuffer env c v external_data byte_length finalize_cb finalize_hint result =
     NAPI_PREAMBLE env c (CHECK_ARG external_data (CHECK_ARG finalize_cb (CHECK_ARG result (\<lambda>s.
       GET_RETURN_STATUS c (Some v)
         ((put v (ArrayBuffer external_data byte_length False) s)
           \<lparr>registered := (v, the external_data, finalize_cb, finalize_hint, IsMainEnvContext s) # registered s\<rparr>)))))"

definition napi_get_arraybuffer_info ::
    "bool \<Rightarrow> nat option \<Rightarrow> bool \<Rightarrow> unit option \<Rightarrow> buffer_env \<Rightarrow> (buffer_env \<times> napi_status \<times> (addr option option \<times> nat) option) outcome" where
  "napi_get_arraybuffer_info env arraybuffer data byte_length =
     CHECK_ENV env (CHECK_ARG arraybuffer (CHECK_ARG byte_length (\<lambda>s.
       case js_vals s (the arraybuffer) of
         Some (ArrayBuffer b n detached) \<Rightarrow>
           napi_clear_last_error (Some (if data then Some (if detached then None else b) else None, if detached then 0 else n)) s
       | Some (SendableArrayBuffer b n) \<Rightarrow> napi_clear_last_error (Some (if data then Some b else None, n)) s
       | _ \<Rightarrow> napi_set_last_error napi_arraybuffer_expected None s)))"

text \<open>Other objects are objects, too; \<open>is_object\<close> tells whether \<open>OtherValue\<close> is one.\<close>

definition napi_detach_arraybuffer :: "bool \<Rightarrow> bool \<Rightarrow> nat option \<Rightarrow> buffer_env \<Rightarrow> (buffer_env \<times> napi_status \<times> unit option) outcome" where
  "napi_detach_arraybuffer env is_object arraybuffer =
     CHECK_ENV env (CHECK_ARG arraybuffer (\<lambda>s.
       case js_vals s (the arraybuffer) of
         Some (ArrayBuffer b n detached) \<Rightarrow> napi_clear_last_error None (put (the arraybuffer) (ArrayBuffer None n True) s)
       | x \<Rightarrow> RETURN_STATUS_IF_FALSE (case x of None \<Rightarrow> False | Some OtherValue \<Rightarrow> is_object | _ \<Rightarrow> True) napi_object_expected
                (napi_set_last_error napi_invalid_arg None) s))"

definition napi_is_detached_arraybuffer ::
    "bool \<Rightarrow> nat option \<Rightarrow> unit option \<Rightarrow> buffer_env \<Rightarrow> (buffer_env \<times> napi_status \<times> bool option) outcome" where
  "napi_is_detached_arraybuffer env arraybuffer result =
     CHECK_ENV env (CHECK_ARG arraybuffer (CHECK_ARG result (\<lambda>s.
       case js_vals s (the arraybuffer) of
         Some (ArrayBuffer b n detached) \<Rightarrow> napi_clear_last_error (Some detached) s
       | _ \<Rightarrow> napi_set_last_error napi_invalid_arg None s)))"

section \<open>Typed arrays\<close>

text \<open>
  The two switches.  The answer is whether the type is known, and the handle written (null otherwise); \<open>threw\<close> tells that
  the constructor threw, and then no view was made.
\<close>

definition NapiNewTypedArray ::
    "bool \<Rightarrow> nat \<Rightarrow> nat \<Rightarrow> nat \<Rightarrow> nat \<Rightarrow> nat \<Rightarrow> buffer_env \<Rightarrow> buffer_env \<times> bool \<times> nat option" where
  "NapiNewTypedArray threw v type arrayBuf byte_offset len s =
     (case typed_of type of
        None \<Rightarrow> (s, False, None)
      | Some k \<Rightarrow> (put v (if threw then OtherValue else TypedArray k arrayBuf byte_offset (len * element_size k)) s, True, Some v))"

definition sendable_types :: "NativeTypedArrayType list" where
  "sendable_types = [NATIVE_INT8_ARRAY, NATIVE_UINT8_ARRAY, NATIVE_INT16_ARRAY, NATIVE_UINT16_ARRAY, NATIVE_INT32_ARRAY,
     NATIVE_UINT32_ARRAY, NATIVE_FLOAT32_ARRAY, NATIVE_UINT8_CLAMPED_ARRAY]"

definition NapiNewSendableTypedArray ::
    "bool \<Rightarrow> nat \<Rightarrow> nat \<Rightarrow> nat \<Rightarrow> nat \<Rightarrow> nat \<Rightarrow> buffer_env \<Rightarrow> buffer_env \<times> bool \<times> nat option" where
  "NapiNewSendableTypedArray threw v type arrayBuf byte_offset len s =
     (case typed_of type of
        None \<Rightarrow> (s, False, None)
      | Some k \<Rightarrow> if k \<in> set sendable_types
          then (put v (if threw then OtherValue else SharedTypedArray k arrayBuf byte_offset (len * element_size k)) s, True, Some v)
          else (s, False, None))"

definition napi_create_typedarray ::
    "bool \<Rightarrow> vm_call \<Rightarrow> nat \<Rightarrow> nat \<Rightarrow> nat \<Rightarrow> nat option \<Rightarrow> nat \<Rightarrow> unit option \<Rightarrow> buffer_env \<Rightarrow>
     (buffer_env \<times> napi_status \<times> nat option option) outcome" where
  "napi_create_typedarray env c v type len arraybuffer byte_offset result =
     NAPI_PREAMBLE env c (CHECK_ARG arraybuffer (CHECK_ARG result (\<lambda>s.
     RETURN_STATUS_IF_FALSE (is_array_buffer (js_vals s (the arraybuffer))) napi_arraybuffer_expected (\<lambda>s.
       let (s', known, out) = NapiNewTypedArray (caught c) v type (the arraybuffer) byte_offset len s
       in if \<not> known then napi_set_last_error napi_invalid_arg (Some out) s' else GET_RETURN_STATUS c (Some out) s') s)))"

definition napi_create_sendable_typedarray ::
    "bool \<Rightarrow> vm_call \<Rightarrow> nat \<Rightarrow> nat \<Rightarrow> nat \<Rightarrow> nat option \<Rightarrow> nat \<Rightarrow> unit option \<Rightarrow> buffer_env \<Rightarrow>
     (buffer_env \<times> napi_status \<times> nat option option) outcome" where
  "napi_create_sendable_typedarray env c v type len arraybuffer byte_offset result =
     NAPI_PREAMBLE env c (CHECK_ARG arraybuffer (CHECK_ARG result (\<lambda>s.
     if \<not> IsMainEnvContext s then napi_set_last_error napi_invalid_arg None s
     else RETURN_STATUS_IF_FALSE (is_sendable_array_buffer (js_vals s (the arraybuffer))) napi_arraybuffer_expected (\<lambda>s.
       let (s', known, out) = NapiNewSendableTypedArray (caught c) v type (the arraybuffer) byte_offset len s
       in if \<not> known then napi_set_last_error napi_invalid_arg (Some out) s' else GET_RETURN_STATUS c (Some out) s') s)))"

text \<open>The chain of questions, where \<open>k\<close> is the type the VM knows.\<close>

definition GetTypedArrayType :: "NativeTypedArrayType \<Rightarrow> NativeTypedArrayType" where
  "GetTypedArrayType k =
     (if k = NATIVE_INT32_ARRAY then NATIVE_INT32_ARRAY
      else if k = NATIVE_INT8_ARRAY then NATIVE_INT8_ARRAY
      else if k = NATIVE_UINT8_ARRAY then NATIVE_UINT8_ARRAY
      else if k = NATIVE_UINT8_CLAMPED_ARRAY then NATIVE_UINT8_CLAMPED_ARRAY
      else if k = NATIVE_INT16_ARRAY then NATIVE_INT16_ARRAY
      else if k = NATIVE_UINT16_ARRAY then NATIVE_UINT16_ARRAY
      else if k = NATIVE_UINT32_ARRAY then NATIVE_UINT32_ARRAY
      else if k = NATIVE_FLOAT32_ARRAY then NATIVE_FLOAT32_ARRAY
      else if k = NATIVE_FLOAT64_ARRAY then NATIVE_FLOAT64_ARRAY
      else if k = NATIVE_BIGINT64_ARRAY then NATIVE_BIGINT64_ARRAY
      else if k = NATIVE_BIGUINT64_ARRAY then NATIVE_BIGUINT64_ARRAY
      else NATIVE_INT8_ARRAY)"

definition GetSendableTypedArrayType :: "NativeTypedArrayType \<Rightarrow> NativeTypedArrayType" where
  "GetSendableTypedArrayType k =
     (if k = NATIVE_INT8_ARRAY then NATIVE_INT8_ARRAY
      else if k = NATIVE_UINT8_ARRAY then NATIVE_UINT8_ARRAY
      else if k = NATIVE_INT16_ARRAY then NATIVE_INT16_ARRAY
      else if k = NATIVE_UINT16_ARRAY then NATIVE_UINT16_ARRAY
      else if k = NATIVE_INT32_ARRAY then NATIVE_INT32_ARRAY
      else if k = NATIVE_UINT32_ARRAY then NATIVE_UINT32_ARRAY
      else if k = NATIVE_FLOAT32_ARRAY then NATIVE_FLOAT32_ARRAY
      else if k = NATIVE_UINT8_CLAMPED_ARRAY then NATIVE_UINT8_CLAMPED_ARRAY
      else NATIVE_INT8_ARRAY)"

text \<open>What the VM says of a view: the block of its buffer, its offset and length, both 0 when the buffer is detached.\<close>

definition view_data :: "buffer_env \<Rightarrow> nat \<Rightarrow> nat \<Rightarrow> nat \<Rightarrow> addr option \<times> nat \<times> nat" where
  "view_data s buf off n =
     (case js_vals s buf of
        Some (ArrayBuffer b len detached) \<Rightarrow> if detached then (None, 0, 0) else (b, off, n)
      | Some (SendableArrayBuffer b len) \<Rightarrow> (b, off, n)
      | _ \<Rightarrow> (None, 0, 0))"

text \<open>What was written through each of the pointers that is not null.\<close>

record view_info =
  vi_type :: "NativeTypedArrayType option"
  vi_length :: "nat option"
  vi_data :: "addr option option"
  vi_arraybuffer :: "nat option"
  vi_byte_offset :: "nat option"

definition view_answer :: "NativeTypedArrayType \<Rightarrow> nat \<Rightarrow> addr option \<times> nat \<times> nat \<Rightarrow> bool \<Rightarrow> bool \<Rightarrow> bool \<Rightarrow> bool \<Rightarrow> bool \<Rightarrow> view_info" where
  "view_answer k buf d ty len data ab offset = (case d of (b, off, n) \<Rightarrow>
     \<lparr>vi_type = (if ty then Some k else None), vi_length = (if len then Some n else None),
      vi_data = (if data then Some (map_option (\<lambda>a. a + off) b) else None),
      vi_arraybuffer = (if ab then Some buf else None), vi_byte_offset = (if offset then Some off else None)\<rparr>)"

definition napi_get_typedarray_info ::
    "bool \<Rightarrow> nat option \<Rightarrow> bool \<Rightarrow> bool \<Rightarrow> bool \<Rightarrow> bool \<Rightarrow> bool \<Rightarrow> buffer_env \<Rightarrow> (buffer_env \<times> napi_status \<times> view_info option) outcome" where
  "napi_get_typedarray_info env typedarray type len data arraybuffer byte_offset =
     CHECK_ENV env (CHECK_ARG typedarray (\<lambda>s.
       case js_vals s (the typedarray) of
         Some (TypedArray k buf off n) \<Rightarrow>
           napi_clear_last_error (Some (view_answer (GetTypedArrayType k) buf (view_data s buf off n) type len data arraybuffer byte_offset)) s
       | Some (SharedTypedArray k buf off n) \<Rightarrow>
           napi_clear_last_error (Some (view_answer (GetSendableTypedArrayType k) buf (view_data s buf off n) type len data arraybuffer byte_offset)) s
       | _ \<Rightarrow> napi_set_last_error napi_invalid_arg None s))"

definition napi_is_typedarray :: "bool \<Rightarrow> nat option \<Rightarrow> unit option \<Rightarrow> buffer_env \<Rightarrow> (buffer_env \<times> napi_status \<times> bool option) outcome" where
  "napi_is_typedarray env value result =
     CHECK_ENV env (CHECK_ARG value (CHECK_ARG result (\<lambda>s.
       napi_clear_last_error (Some (is_typed (js_vals s (the value)) \<or> is_shared_typed (js_vals s (the value)))) s)))"

section \<open>Data views and node buffers\<close>

text \<open>When the range does not fit the VM answers with a hole (\<open>caught\<close>) and a \<open>RangeError\<close> is thrown.\<close>

definition napi_create_dataview ::
    "bool \<Rightarrow> vm_call \<Rightarrow> nat \<Rightarrow> nat \<Rightarrow> nat option \<Rightarrow> nat \<Rightarrow> unit option \<Rightarrow> buffer_env \<Rightarrow>
     (buffer_env \<times> napi_status \<times> nat option) outcome" where
  "napi_create_dataview env c v len arraybuffer byte_offset result =
     NAPI_PREAMBLE env c (CHECK_ARG arraybuffer (CHECK_ARG result (SWITCH_CONTEXT c (\<lambda>s.
     RETURN_STATUS_IF_FALSE (is_array_buffer (js_vals s (the arraybuffer))) napi_arraybuffer_expected (\<lambda>s.
       if caught c then napi_set_last_error napi_pending_exception None s
       else GET_RETURN_STATUS c (Some v) (put v (DataView (the arraybuffer) byte_offset len) s)) s))))"

definition napi_get_dataview_info ::
    "bool \<Rightarrow> nat option \<Rightarrow> bool \<Rightarrow> bool \<Rightarrow> bool \<Rightarrow> bool \<Rightarrow> buffer_env \<Rightarrow> (buffer_env \<times> napi_status \<times> view_info option) outcome" where
  "napi_get_dataview_info env dataview bytelength data arraybuffer byte_offset =
     CHECK_ENV env (CHECK_ARG dataview (\<lambda>s.
       case js_vals s (the dataview) of
         Some (DataView buf off n) \<Rightarrow>
           napi_clear_last_error (Some (view_answer NATIVE_INT8_ARRAY buf (view_data s buf off n) False bytelength data arraybuffer byte_offset)) s
       | _ \<Rightarrow> napi_set_last_error napi_invalid_arg None s))"

text \<open>
  The results of the buffer calls: the pointer written through \<open>data\<close> (\<open>None\<close>: not written) and the handle.  \<open>block\<close> is
  the memory the VM allocates, if it can.
\<close>

definition napi_create_buffer ::
    "bool \<Rightarrow> vm_call \<Rightarrow> addr option \<Rightarrow> nat \<Rightarrow> nat \<Rightarrow> unit option \<Rightarrow> unit option \<Rightarrow> buffer_env \<Rightarrow>
     (buffer_env \<times> napi_status \<times> (addr option option \<times> nat option) option) outcome" where
  "napi_create_buffer env c block v size' data result =
     CHECK_ENV env (CHECK_ARG data (CHECK_ARG result (
     RETURN_STATUS_IF_FALSE (size' > 0) napi_invalid_arg (\<lambda>s.
       if size' > MAX_BYTE_LENGTH then napi_set_last_error napi_invalid_arg (Some (Some None, None)) s
       else SWITCH_CONTEXT c (\<lambda>s.
         let s' = put v (if block = None then OtherValue else BufferObject block size') s in
         if block = None then napi_set_last_error napi_invalid_arg (Some (Some None, None)) s'
         else napi_clear_last_error (Some (Some block, Some v)) s') s))))"

text \<open>\<open>memcpy_s\<close> refuses a null destination, which is only logged; reading past the end of the caller's data is \<open>Fault\<close>.\<close>

definition napi_create_buffer_copy ::
    "bool \<Rightarrow> vm_call \<Rightarrow> addr option \<Rightarrow> nat \<Rightarrow> nat \<Rightarrow> u8 list option \<Rightarrow> unit option \<Rightarrow> unit option \<Rightarrow> buffer_env \<Rightarrow>
     (buffer_env \<times> napi_status \<times> (addr option option \<times> nat option) option) outcome" where
  "napi_create_buffer_copy env c block v len data result_data result =
     CHECK_ENV env (CHECK_ARG data (CHECK_ARG result_data (CHECK_ARG result (
     RETURN_STATUS_IF_FALSE (len > 0) napi_invalid_arg (\<lambda>s.
       if len > MAX_BYTE_LENGTH then napi_set_last_error napi_invalid_arg (Some (Some None, None)) s
       else SWITCH_CONTEXT c (\<lambda>s.
         let s1 = put v (if block = None then OtherValue else BufferObject block len) s in
         case block of
           None \<Rightarrow> napi_set_last_error napi_invalid_arg (Some (Some None, None)) s1
         | Some b \<Rightarrow> if length (the data) < len then Fault
             else napi_clear_last_error (Some (Some block, Some v))
                    (s1\<lparr>block_bytes := (block_bytes s1)(b \<mapsto> take len (the data))\<rparr>)) s)))))"

text \<open>\<open>made\<close>: the VM could make the object.\<close>

definition napi_create_external_buffer ::
    "bool \<Rightarrow> vm_call \<Rightarrow> bool \<Rightarrow> nat \<Rightarrow> nat \<Rightarrow> addr option \<Rightarrow> nat option \<Rightarrow> nat \<Rightarrow> unit option \<Rightarrow> buffer_env \<Rightarrow>
     (buffer_env \<times> napi_status \<times> nat option) outcome" where
  "napi_create_external_buffer env c made v len data finalize_cb finalize_hint result =
     NAPI_PREAMBLE env c (CHECK_ARG result (CHECK_ARG data (
     RETURN_STATUS_IF_FALSE (len > 0) napi_invalid_arg (\<lambda>s.
       if len > MAX_BYTE_LENGTH then napi_set_last_error napi_invalid_arg None s
       else SWITCH_CONTEXT c (\<lambda>s.
         if \<not> made then napi_set_last_error napi_invalid_arg None (put v OtherValue s)
         else GET_RETURN_STATUS c (Some v)
           ((put v (BufferObject data len) s)
             \<lparr>registered := (v, the data, finalize_cb, finalize_hint, IsMainEnvContext s) # registered s\<rparr>)) s))))"

text \<open>The two pointers \<open>data\<close> and \<open>length\<close> are not checked; writing through a null one is \<open>Fault\<close>.\<close>

definition napi_get_buffer_info ::
    "bool \<Rightarrow> nat option \<Rightarrow> unit option \<Rightarrow> unit option \<Rightarrow> buffer_env \<Rightarrow> (buffer_env \<times> napi_status \<times> (addr option \<times> nat) option) outcome" where
  "napi_get_buffer_info env value data len =
     CHECK_ENV env (CHECK_ARG value (\<lambda>s.
       case js_vals s (the value) of
         Some (BufferObject b n) \<Rightarrow> deref data (\<lambda>_. deref len (\<lambda>_. napi_clear_last_error (Some (b, n)) s))
       | _ \<Rightarrow> napi_set_last_error napi_arraybuffer_expected None s))"

definition napi_is_buffer :: "bool \<Rightarrow> nat option \<Rightarrow> unit option \<Rightarrow> buffer_env \<Rightarrow> (buffer_env \<times> napi_status \<times> bool option) outcome" where
  "napi_is_buffer env value result =
     CHECK_ENV env (CHECK_ARG value (CHECK_ARG result (\<lambda>s.
       napi_clear_last_error (Some (case js_vals s (the value) of Some (BufferObject b n) \<Rightarrow> True | _ \<Rightarrow> False)) s)))"

definition napi_is_dataview :: "bool \<Rightarrow> nat option \<Rightarrow> unit option \<Rightarrow> buffer_env \<Rightarrow> (buffer_env \<times> napi_status \<times> bool option) outcome" where
  "napi_is_dataview env value result =
     CHECK_ENV env (CHECK_ARG value (CHECK_ARG result (\<lambda>s.
       napi_clear_last_error (Some (case js_vals s (the value) of Some (DataView b off n) \<Rightarrow> True | _ \<Rightarrow> False)) s)))"

section \<open>Well-formed views\<close>

text \<open>A range of a block, aligned for its elements: the language's condition for a view.\<close>

definition view_fits :: "nat \<Rightarrow> nat \<Rightarrow> nat \<Rightarrow> nat \<Rightarrow> bool" where
  "view_fits align off n len \<longleftrightarrow> off mod align = 0 \<and> off + n \<le> len"

definition buffer_length :: "buffer_value option \<Rightarrow> nat option" where
  "buffer_length x = (case x of
       Some (ArrayBuffer b n d) \<Rightarrow> Some n
     | Some (SendableArrayBuffer b n) \<Rightarrow> Some n
     | _ \<Rightarrow> None)"

definition fits_in :: "nat \<Rightarrow> nat \<Rightarrow> nat \<Rightarrow> buffer_value option \<Rightarrow> bool" where
  "fits_in align off n x \<longleftrightarrow> (case buffer_length x of None \<Rightarrow> False | Some len \<Rightarrow> view_fits align off n len)"

text \<open>
  The typing of the values: a view is a range of a buffer of its own kind, a sendable array has one of the sendable types,
  and a node buffer has a permitted length.
\<close>

definition value_ok :: "buffer_env \<Rightarrow> buffer_value \<Rightarrow> bool" where
  "value_ok s x \<longleftrightarrow> (case x of
       TypedArray k b off n \<Rightarrow> is_array_buffer (js_vals s b) \<and> fits_in (element_size k) off n (js_vals s b) \<and> element_size k dvd n
     | SharedTypedArray k b off n \<Rightarrow>
         is_sendable_array_buffer (js_vals s b) \<and> k \<in> set sendable_types \<and> fits_in (element_size k) off n (js_vals s b) \<and> element_size k dvd n
     | DataView b off n \<Rightarrow> is_array_buffer (js_vals s b) \<and> fits_in 1 off n (js_vals s b)
     | BufferObject b n \<Rightarrow> b \<noteq> None \<and> 0 < n \<and> n \<le> MAX_BYTE_LENGTH
     | _ \<Rightarrow> True)"

definition buffers_ok :: "buffer_env \<Rightarrow> bool" where
  "buffers_ok s \<longleftrightarrow> (\<forall>v x. js_vals s v = Some x \<longrightarrow> value_ok s x)"

lemma value_ok_put:
  assumes "value_ok s x" and "js_vals s v = None \<or> is_array_buffer (js_vals s v) \<and> is_array_buffer (Some y) \<and>
      buffer_length (js_vals s v) = buffer_length (Some y)"
  shows "value_ok (put v y s) x"
proof -
  have keep: "is_array_buffer (js_vals s b) \<Longrightarrow> is_array_buffer (js_vals (put v y s) b)"
    "is_sendable_array_buffer (js_vals s b) \<Longrightarrow> is_sendable_array_buffer (js_vals (put v y s) b)"
    "buffer_length (js_vals s b) = Some n \<Longrightarrow> buffer_length (js_vals (put v y s) b) = Some n" for b n
    using assms(2) by (auto simp: put_def buffer_length_def elim!: is_array_buffer.elims is_sendable_array_buffer.elims)
  have "fits_in al off n (js_vals s b) \<Longrightarrow> fits_in al off n (js_vals (put v y s) b)" for al off n b
    using keep(3) by (auto simp: fits_in_def split: option.splits)
  with keep(1,2) assms(1) show ?thesis by (auto simp: value_ok_def split: buffer_value.splits)
qed

lemma buffers_ok_put:
  assumes "buffers_ok s" and "value_ok (put v y s) y"
    and "js_vals s v = None \<or> is_array_buffer (js_vals s v) \<and> is_array_buffer (Some y) \<and> buffer_length (js_vals s v) = buffer_length (Some y)"
  shows "buffers_ok (put v y s)"
  unfolding buffers_ok_def
proof (intro allI impI)
  fix w x assume w: "js_vals (put v y s) w = Some x"
  show "value_ok (put v y s) x"
  proof (cases "w = v")
    case True
    then show ?thesis using w assms(2) by (simp add: put_def)
  next
    case False
    then have "js_vals s w = Some x" using w by (simp add: put_def)
    then show ?thesis using assms(1,3) value_ok_put by (auto simp: buffers_ok_def)
  qed
qed

lemma value_ok_frame:
  "value_ok (s\<lparr>lastError := e\<rparr>) x = value_ok s x" "value_ok (s\<lparr>lastException := l\<rparr>) x = value_ok s x"
  "value_ok (s\<lparr>registered := r\<rparr>) x = value_ok s x" "value_ok (s\<lparr>block_bytes := m\<rparr>) x = value_ok s x"
  by (auto simp: value_ok_def split: buffer_value.split)

lemma buffers_ok_frame [simp]:
  "buffers_ok (s\<lparr>lastError := e\<rparr>) = buffers_ok s" "buffers_ok (s\<lparr>lastException := l\<rparr>) = buffers_ok s"
  "buffers_ok (s\<lparr>registered := r\<rparr>) = buffers_ok s" "buffers_ok (s\<lparr>block_bytes := m\<rparr>) = buffers_ok s"
  by (simp_all add: buffers_ok_def value_ok_frame)

section \<open>Runs\<close>

definition detached :: "buffer_value option \<Rightarrow> bool" where
  "detached x = (case x of Some (ArrayBuffer b n d) \<Rightarrow> d | _ \<Rightarrow> False)"

text \<open>The VM of the language: whether its constructor of a view throws.\<close>

definition view_throws :: "nat \<Rightarrow> nat \<Rightarrow> nat \<Rightarrow> buffer_value option \<Rightarrow> bool" where
  "view_throws align off n x \<longleftrightarrow> detached x \<or> \<not> fits_in align off n x"

definition type_size :: "nat \<Rightarrow> nat" where
  "type_size type = (case typed_of type of None \<Rightarrow> 1 | Some k \<Rightarrow> element_size k)"

definition vm_throws :: "bool \<Rightarrow> vm_call" where
  "vm_throws b = quiet\<lparr>caught := b\<rparr>"

datatype buffer_op =
    CreateArrayBuffer "addr option" nat nat
  | CreateSendableArrayBuffer "addr option" nat nat
  | CreateExternalArrayBuffer nat addr nat nat nat
  | CreateTypedArray nat nat nat nat nat
  | CreateSendableTypedArray nat nat nat nat nat
  | CreateDataView nat nat nat nat
  | CreateBuffer "addr option" nat nat
  | CreateBufferCopy "addr option" nat nat "u8 list"
  | CreateExternalBuffer nat nat addr "nat option" nat
  | DetachArrayBuffer bool nat

fun exec_buffer :: "buffer_op \<Rightarrow> buffer_env \<Rightarrow> buffer_env outcome" where
  "exec_buffer (CreateArrayBuffer block v n) s =
     fst_of (napi_create_arraybuffer True (vm_throws (block = None \<and> n > 0)) block v n (Some ()) (Some ()) s)"
| "exec_buffer (CreateSendableArrayBuffer block v n) s =
     fst_of (napi_create_sendable_arraybuffer True (vm_throws (block = None \<and> n > 0)) block v n (Some ()) (Some ()) s)"
| "exec_buffer (CreateExternalArrayBuffer v a n cb hint) s =
     fst_of (napi_create_external_arraybuffer True (vm_throws False) v (Some a) n (Some cb) hint (Some ()) s)"
| "exec_buffer (CreateTypedArray v type len buf off) s =
     fst_of (napi_create_typedarray True (vm_throws (view_throws (type_size type) off (len * type_size type) (js_vals s buf)))
       v type len (Some buf) off (Some ()) s)"
| "exec_buffer (CreateSendableTypedArray v type len buf off) s =
     fst_of (napi_create_sendable_typedarray True (vm_throws (view_throws (type_size type) off (len * type_size type) (js_vals s buf)))
       v type len (Some buf) off (Some ()) s)"
| "exec_buffer (CreateDataView v len buf off) s =
     fst_of (napi_create_dataview True (vm_throws (view_throws 1 off len (js_vals s buf))) v len (Some buf) off (Some ()) s)"
| "exec_buffer (CreateBuffer block v n) s = fst_of (napi_create_buffer True quiet block v n (Some ()) (Some ()) s)"
| "exec_buffer (CreateBufferCopy block v n data) s =
     fst_of (napi_create_buffer_copy True quiet block v n (Some data) (Some ()) (Some ()) s)"
| "exec_buffer (CreateExternalBuffer v n a cb hint) s =
     fst_of (napi_create_external_buffer True quiet True v n (Some a) cb hint (Some ()) s)"
| "exec_buffer (DetachArrayBuffer is_object v) s = fst_of (napi_detach_arraybuffer True is_object (Some v) s)"

text \<open>A new value has a new handle; the data to copy are as long as the caller says.\<close>

fun buffer_allowed :: "buffer_op \<Rightarrow> buffer_env \<Rightarrow> bool" where
  "buffer_allowed (CreateArrayBuffer block v n) s \<longleftrightarrow> js_vals s v = None"
| "buffer_allowed (CreateSendableArrayBuffer block v n) s \<longleftrightarrow> js_vals s v = None"
| "buffer_allowed (CreateExternalArrayBuffer v a n cb hint) s \<longleftrightarrow> js_vals s v = None"
| "buffer_allowed (CreateTypedArray v type len buf off) s \<longleftrightarrow> js_vals s v = None"
| "buffer_allowed (CreateSendableTypedArray v type len buf off) s \<longleftrightarrow> js_vals s v = None"
| "buffer_allowed (CreateDataView v len buf off) s \<longleftrightarrow> js_vals s v = None"
| "buffer_allowed (CreateBuffer block v n) s \<longleftrightarrow> js_vals s v = None"
| "buffer_allowed (CreateBufferCopy block v n data) s \<longleftrightarrow> js_vals s v = None \<and> n \<le> length data"
| "buffer_allowed (CreateExternalBuffer v n a cb hint) s \<longleftrightarrow> js_vals s v = None"
| "buffer_allowed (DetachArrayBuffer is_object v) s \<longleftrightarrow> True"

lemma put_frame [simp]:
  "js_vals (put v x s) = (js_vals s)(v \<mapsto> x)"
  by (simp add: put_def)

lemma element_size_pos: "0 < element_size k"
  by (cases k) simp_all

text \<open>The values the operations make.\<close>

lemma fresh_ok:
  assumes "buffers_ok s" and "js_vals s v = None"
  shows "buffers_ok (put v OtherValue s)" and "buffers_ok (put v (ArrayBuffer b n d) s)" and "buffers_ok (put v (SendableArrayBuffer b n) s)"
    and "n > 0 \<Longrightarrow> n \<le> MAX_BYTE_LENGTH \<Longrightarrow> buffers_ok (put v (BufferObject (Some a) n) s)"
  using assms by (auto intro!: buffers_ok_put simp: value_ok_def)

lemma fresh_view_ok:
  assumes "buffers_ok s" and "js_vals s v = None" and "is_array_buffer (js_vals s b)"
  shows "fits_in (element_size k) off (len * element_size k) (js_vals s b) \<Longrightarrow>
      buffers_ok (put v (TypedArray k b off (len * element_size k)) s)"
    and "fits_in 1 off len (js_vals s b) \<Longrightarrow> buffers_ok (put v (DataView b off len) s)"
proof -
  have "v \<noteq> b" using assms(2,3) by auto
  then show "fits_in (element_size k) off (len * element_size k) (js_vals s b) \<Longrightarrow>
      buffers_ok (put v (TypedArray k b off (len * element_size k)) s)"
    and "fits_in 1 off len (js_vals s b) \<Longrightarrow> buffers_ok (put v (DataView b off len) s)"
    using assms by (auto intro!: buffers_ok_put simp: value_ok_def)
qed

lemma fresh_shared_ok:
  assumes "buffers_ok s" and "js_vals s v = None" and "is_sendable_array_buffer (js_vals s b)" and "k \<in> set sendable_types"
    and "fits_in (element_size k) off (len * element_size k) (js_vals s b)"
  shows "buffers_ok (put v (SharedTypedArray k b off (len * element_size k)) s)"
proof -
  have "v \<noteq> b" using assms(2,3) by auto
  then show ?thesis using assms by (auto intro!: buffers_ok_put simp: value_ok_def)
qed

lemmas creation_defs = napi_create_arraybuffer_def napi_create_sendable_arraybuffer_def napi_create_external_arraybuffer_def
  napi_create_buffer_def napi_create_buffer_copy_def napi_create_external_buffer_def napi_create_dataview_def
  napi_create_typedarray_def napi_create_sendable_typedarray_def NapiNewTypedArray_def NapiNewSendableTypedArray_def

lemma put_swap:
  "put v x (s\<lparr>lastError := e\<rparr>) = (put v x s)\<lparr>lastError := e\<rparr>"
  by (simp add: put_def)

lemma detach_ok: "buffers_ok s \<Longrightarrow> js_vals s v = Some (ArrayBuffer b n d) \<Longrightarrow> buffers_ok (put v (ArrayBuffer None n True) s)"
  by (rule buffers_ok_put) (simp_all add: value_ok_def buffer_length_def)

lemmas create_simps = creation_defs api_defs vm_throws_def quiet_def Let_def put_swap

lemma typed_step:
  assumes "buffers_ok s" and "js_vals s v = None"
  shows "\<exists>s'. exec_buffer (CreateTypedArray v type len buf off) s = Returns s' \<and> buffers_ok s'"
proof (cases "is_array_buffer (js_vals s buf) \<and> \<not> lastException s")
  case True
  show ?thesis
  proof (cases "typed_of type")
    case None
    then show ?thesis using True assms by (simp add: create_simps)
  next
    case (Some k)
    then have size: "type_size type = element_size k" by (simp add: type_size_def)
    show ?thesis
    proof (cases "view_throws (element_size k) off (len * element_size k) (js_vals s buf)")
      case threw: True
      then show ?thesis using True Some fresh_ok(1) [OF assms] by (simp add: create_simps size)
    next
      case fits: False
      then have "buffers_ok (put v (TypedArray k buf off (len * element_size k)) s)"
        using fresh_view_ok(1) [OF assms] True by (simp add: view_throws_def)
      then show ?thesis using True Some fits by (simp add: create_simps size)
    qed
  qed
qed (use assms in \<open>auto simp: create_simps\<close>)

lemma shared_typed_step:
  assumes "buffers_ok s" and "js_vals s v = None"
  shows "\<exists>s'. exec_buffer (CreateSendableTypedArray v type len buf off) s = Returns s' \<and> buffers_ok s'"
proof (cases "is_sendable_array_buffer (js_vals s buf) \<and> \<not> lastException s \<and> IsMainEnvContext s")
  case True
  show ?thesis
  proof (cases "typed_of type")
    case None
    then show ?thesis using True assms by (simp add: create_simps)
  next
    case (Some k)
    then have size: "type_size type = element_size k" by (simp add: type_size_def)
    show ?thesis
    proof (cases "view_throws (element_size k) off (len * element_size k) (js_vals s buf)")
      case threw: True
      then show ?thesis using True Some assms fresh_ok(1) [OF assms] by (simp add: create_simps size)
    next
      case fits: False
      then have "k \<in> set sendable_types \<Longrightarrow> buffers_ok (put v (SharedTypedArray k buf off (len * element_size k)) s)"
        using fresh_shared_ok [OF assms] True by (simp add: view_throws_def)
      then show ?thesis using True Some fits assms by (cases "k \<in> set sendable_types") (simp_all add: create_simps size)
    qed
  qed
qed (use assms in \<open>auto simp: create_simps\<close>)

lemma dataview_step:
  assumes "buffers_ok s" and "js_vals s v = None"
  shows "\<exists>s'. exec_buffer (CreateDataView v len buf off) s = Returns s' \<and> buffers_ok s'"
proof (cases "is_array_buffer (js_vals s buf) \<and> \<not> lastException s \<and> \<not> view_throws 1 off len (js_vals s buf)")
  case True
  then have "buffers_ok (put v (DataView buf off len) s)" using fresh_view_ok(2) [OF assms] by (simp add: view_throws_def)
  with True show ?thesis by (simp add: create_simps)
qed (use assms in \<open>auto simp: create_simps\<close>)

lemma buffer_copy_step:
  assumes "buffers_ok s" and "js_vals s v = None" and "n \<le> length data"
  shows "\<exists>s'. exec_buffer (CreateBufferCopy block v n data) s = Returns s' \<and> buffers_ok s'"
proof (cases "0 < n \<and> n \<le> MAX_BYTE_LENGTH")
  case True
  then show ?thesis using assms(3) fresh_ok(1,4) [OF assms(1,2)] by (cases block) (simp_all add: create_simps)
qed (use assms in \<open>auto simp: create_simps\<close>)

lemma buffer_simple_steps:
  assumes "buffers_ok s" and "js_vals s v = None"
  shows "\<exists>s'. exec_buffer (CreateArrayBuffer block v n) s = Returns s' \<and> buffers_ok s'"
    and "\<exists>s'. exec_buffer (CreateSendableArrayBuffer block v n) s = Returns s' \<and> buffers_ok s'"
    and "\<exists>s'. exec_buffer (CreateExternalArrayBuffer v a n cb hint) s = Returns s' \<and> buffers_ok s'"
    and "\<exists>s'. exec_buffer (CreateBuffer block v n) s = Returns s' \<and> buffers_ok s'"
    and "\<exists>s'. exec_buffer (CreateExternalBuffer v n a fin hint) s = Returns s' \<and> buffers_ok s'"
  using fresh_ok(1-3) [OF assms] fresh_ok(4) [OF assms, of n] assms(1)
  by (auto simp: create_simps)

lemma detach_step:
  assumes "buffers_ok s"
  shows "\<exists>s'. exec_buffer (DetachArrayBuffer is_object v) s = Returns s' \<and> buffers_ok s'"
proof (cases "is_array_buffer (js_vals s v)")
  case True
  then obtain b n d where b: "js_vals s v = Some (ArrayBuffer b n d)" by (auto elim!: is_array_buffer.elims)
  show ?thesis using detach_ok [OF assms b] b by (simp add: napi_detach_arraybuffer_def api_defs)
next
  case False
  then have "\<exists>st. exec_buffer (DetachArrayBuffer is_object v) s = Returns (s\<lparr>lastError := st\<rparr>)"
    by (cases "js_vals s v"; cases "the (js_vals s v)") (auto simp: napi_detach_arraybuffer_def api_defs)
  then show ?thesis using assms by auto
qed

lemma buffer_step:
  assumes "buffers_ok s" and "buffer_allowed x s"
  shows "\<exists>s'. exec_buffer x s = Returns s' \<and> buffers_ok s'"
  using assms
  by (cases x) (use typed_step shared_typed_step dataview_step buffer_copy_step buffer_simple_steps detach_step in
      \<open>simp_all only: buffer_allowed.simps\<close>)

definition no_buffers :: buffer_env where
  "no_buffers = \<lparr>lastException = False, lastError = napi_ok, js_vals = Map.empty, block_bytes = Map.empty,
     IsMainEnvContext = True, registered = []\<rparr>"

interpretation buffers: guarded_machine exec_buffer buffer_allowed buffers_ok no_buffers
proof
  show "buffers_ok no_buffers" by (simp add: buffers_ok_def no_buffers_def)
qed (rule buffer_step)

section \<open>Properties\<close>

definition buffer_demo :: "buffer_op list" where
  "buffer_demo = [CreateArrayBuffer (Some 1000) 1 16, CreateTypedArray 2 5 2 1 8, CreateSendableArrayBuffer (Some 2000) 4 8,
     CreateSendableTypedArray 5 3 4 4 0, CreateDataView 6 6 1 10, CreateBufferCopy (Some 3000) 7 2 [5, 6, 7],
     CreateExternalBuffer 8 12 4000 (Some 1) 0, DetachArrayBuffer True 1, CreateTypedArray 9 0 1 1 3]"

text \<open>
  C8: the typing of the values.  In every run of creations and detachments, whatever the lengths and offsets asked for,
  every typed array and data view is a range of a buffer of its own kind, aligned for its elements and with a whole number of
  them, sendable arrays have a sendable type, and node buffers have a block of 1 to \<open>MAX_BYTE_LENGTH\<close> bytes.
\<close>

theorem views_well_typed:
  assumes "all_allowed buffer_allowed exec_buffer ops no_buffers"
  shows "\<exists>s. run_all exec_buffer ops no_buffers = Returns s \<and> (\<forall>v x. js_vals s v = Some x \<longrightarrow> value_ok s x)"
  using buffers.never_faults [OF assms] by (simp add: buffers_ok_def)

theorem views_well_typed_witness:
  "\<exists>s. run_all exec_buffer buffer_demo no_buffers = Returns s \<and> (\<forall>v x. js_vals s v = Some x \<longrightarrow> value_ok s x)"
proof (rule views_well_typed)
  show "all_allowed buffer_allowed exec_buffer buffer_demo no_buffers"
    by (simp add: buffer_demo_def no_buffers_def create_simps put_def napi_detach_arraybuffer_def type_size_def typed_of_def
        typed_array_types_def sendable_types_def view_throws_def detached_def fits_in_def buffer_length_def view_fits_def MAX_BYTE_LENGTH_def)
qed

lemma typed_code_of: "typed_of (typed_code k) = Some k"
  by (cases k) (simp_all add: typed_code_def typed_of_def typed_array_types_def)

lemma type_chains: "GetTypedArrayType k = k" "k \<in> set sendable_types \<Longrightarrow> GetSendableTypedArrayType k = k"
  by (cases k; simp add: GetTypedArrayType_def GetSendableTypedArrayType_def sendable_types_def)+

text \<open>
  Round trip of a typed array.  A typed array made over a live buffer, for any of the eleven types, reports its type,
  its buffer, its offset, and as its data the address of the buffer plus the offset; its range lies inside the block.  The
  length reported is in bytes: the number of elements asked for times their size.
\<close>

theorem typedarray_roundtrip:
  assumes "js_vals s buf = Some (ArrayBuffer (Some a) size' False)" and "js_vals s v = None" and "\<not> lastException s"
    and "off mod element_size k = 0" and "off + len * element_size k \<le> size'"
  shows "\<exists>s'. napi_create_typedarray True quiet v (typed_code k) len (Some buf) off (Some ()) s = Returns (s', napi_ok, Some (Some v)) \<and>
    napi_get_typedarray_info True (Some v) True True True True True s' =
      Returns (s'\<lparr>lastError := napi_ok\<rparr>, napi_ok, Some \<lparr>vi_type = Some k, vi_length = Some (len * element_size k),
        vi_data = Some (Some (a + off)), vi_arraybuffer = Some buf, vi_byte_offset = Some off\<rparr>) \<and>
    a \<le> a + off \<and> a + off + len * element_size k \<le> a + size'"
proof -
  have "v \<noteq> buf" using assms(1,2) by auto
  then show ?thesis using assms
    by (simp add: create_simps typed_code_of napi_get_typedarray_info_def type_chains view_answer_def view_data_def)
qed

theorem typedarray_roundtrip_witness:
  "\<exists>s'. napi_create_typedarray True quiet 2 (typed_code NATIVE_INT32_ARRAY) 2 (Some 1) 8 (Some ())
      (put 1 (ArrayBuffer (Some 1000) 16 False) no_buffers) = Returns (s', napi_ok, Some (Some 2)) \<and>
    napi_get_typedarray_info True (Some 2) True True True True True s' =
      Returns (s'\<lparr>lastError := napi_ok\<rparr>, napi_ok, Some \<lparr>vi_type = Some NATIVE_INT32_ARRAY, vi_length = Some (2 * element_size NATIVE_INT32_ARRAY),
        vi_data = Some (Some (1000 + 8)), vi_arraybuffer = Some 1, vi_byte_offset = Some 8\<rparr>) \<and>
    (1000 :: nat) \<le> 1000 + 8 \<and> 1000 + 8 + 2 * element_size NATIVE_INT32_ARRAY \<le> 1000 + (16 :: nat)"
  by (rule typedarray_roundtrip) (simp_all add: put_def no_buffers_def)

text \<open>
  The sendable arrays know eight of the types: for the others the call writes a null handle and fails.
\<close>

theorem sendable_typedarray_types:
  assumes "is_sendable_array_buffer (js_vals s buf)" and "\<not> lastException s" and "IsMainEnvContext s" and "js_vals s v = None"
  shows "(\<exists>s'. napi_create_sendable_typedarray True quiet v (typed_code k) len (Some buf) off (Some ()) s = Returns (s', napi_ok, Some (Some v)) \<and>
       k \<in> set sendable_types \<and> GetSendableTypedArrayType k = k) \<or>
    napi_create_sendable_typedarray True quiet v (typed_code k) len (Some buf) off (Some ()) s =
      Returns (s\<lparr>lastError := napi_invalid_arg\<rparr>, napi_invalid_arg, Some None) \<and> k \<notin> set sendable_types"
  using assms type_chains(2) [of k] by (cases "k \<in> set sendable_types") (simp_all add: create_simps typed_code_of)

text \<open>
  Node buffers.  \<open>napi_create_buffer\<close> and \<open>napi_create_buffer_copy\<close> accept exactly the lengths from 1 to
  \<open>MAX_BYTE_LENGTH\<close>, a copy holds the bytes it was given, and a refusal for the length makes no value; a longer one has
  the data pointer set to null.
\<close>

theorem buffer_lengths:
  assumes "js_vals s v = None" and "n \<le> length data"
  shows "if 0 < n \<and> n \<le> MAX_BYTE_LENGTH
    then \<exists>s'. napi_create_buffer_copy True quiet (Some b) v n (Some data) (Some ()) (Some ()) s =
        Returns (s', napi_ok, Some (Some (Some b), Some v)) \<and>
      js_vals s' v = Some (BufferObject (Some b) n) \<and> block_bytes s' b = Some (take n data)
    else napi_create_buffer_copy True quiet (Some b) v n (Some data) (Some ()) (Some ()) s =
        Returns (s\<lparr>lastError := napi_invalid_arg\<rparr>, napi_invalid_arg, if n = 0 then None else Some (Some None, None))"
  using assms by (auto simp: create_simps put_def)

theorem buffer_lengths_witness:
  "if 0 < (2 :: nat) \<and> 2 \<le> MAX_BYTE_LENGTH
    then \<exists>s'. napi_create_buffer_copy True quiet (Some 3000) 7 2 (Some [5, 6, 7]) (Some ()) (Some ()) no_buffers =
        Returns (s', napi_ok, Some (Some (Some 3000), Some 7)) \<and>
      js_vals s' 7 = Some (BufferObject (Some 3000) 2) \<and> block_bytes s' 3000 = Some (take 2 [5, 6, 7])
    else napi_create_buffer_copy True quiet (Some 3000) 7 2 (Some [5, 6, 7]) (Some ()) (Some ()) no_buffers =
        Returns (no_buffers\<lparr>lastError := napi_invalid_arg\<rparr>, napi_invalid_arg, if (2 :: nat) = 0 then None else Some (Some None, None))"
  by (rule buffer_lengths) (simp_all add: no_buffers_def)

text \<open>\<open>napi_get_buffer_info\<close> writes through its two pointers without looking whether they are null.\<close>

theorem buffer_info_null:
  assumes "js_vals s v = Some (BufferObject b n)"
  shows "napi_get_buffer_info True (Some v) None len s = Fault" and "napi_get_buffer_info True (Some v) data None s = Fault"
  using assms by (cases data; simp add: napi_get_buffer_info_def api_defs)+

text \<open>
  The memory of an external buffer of either kind has one finalizer registered, kept by the VM in the main context and by
  a reference in another one; it is registered only when the call succeeds.
\<close>

theorem external_registered:
  assumes "js_vals s v = None" and "\<not> lastException s" and "0 < n" and "n \<le> MAX_BYTE_LENGTH"
  shows "\<exists>s'. napi_create_external_buffer True quiet made v n (Some a) cb hint (Some ()) s = Returns (s', if made then napi_ok else napi_invalid_arg, if made then Some v else None) \<and>
    registered s' = (if made then (v, a, cb, hint, IsMainEnvContext s) # registered s else registered s)"
  using assms by (auto simp: create_simps put_def)

end
