(* ===== verification/Module_Require.thy ===== *)
theory Module_Require
  imports Machines Module_Names
begin

text \<open>
  How an engine loads a module for a script (native\_engine/impl/ark/ark\_native\_engine.cpp): \<open>requireNapi\<close>,
  \<open>requireInternal\<close>, the table of exports of the engine, the allow list of an interface, the validation of modules for
  context engines, and the names of ohm URLs.

  The module manager (theories Module\_Manager and Module\_Loading) is the record \<open>module_source\<close> of the answers it
  gives; the VM's objects are a heap of properties.  What a module's \<open>Init\<close> does is the parameter \<open>run_init\<close>: it fills
  the export object and may load further modules.  Calling a null function or reading a null name is \<open>Fault\<close>.
\<close>

section \<open>State\<close>

datatype export_value =
    VUndefined
  | VNull
  | VBoolean bool
  | VNumber int
  | VString string
  | VObject nat
  | VFunction nat

fun type_of :: "export_value \<Rightarrow> string" where
  "type_of VUndefined = ''undefined''"
| "type_of VNull = ''object''"
| "type_of (VBoolean b) = ''boolean''"
| "type_of (VNumber n) = ''number''"
| "type_of (VString x) = ''string''"
| "type_of (VObject a) = ''object''"
| "type_of (VFunction f) = ''function''"

type_synonym export_heap = "nat \<rightharpoonup> (string \<times> export_value) list"

record script_module =
  nm_modname :: "string option"
  registerCallback :: "nat option"
  getABCCode :: "nat option"
  jsCode :: "nat option"
  jsABCCode :: "nat option"
  apiAllowListChecker :: "(string \<Rightarrow> bool) option"

text \<open>\<open>init_log\<close>: the modules whose \<open>Init\<close> was run, newest first.\<close>

record require_engine =
  isLimitedWorker :: bool
  isAppModule :: bool
  modules_at :: "addr \<rightharpoonup> script_module"
  loadedModules :: "addr \<rightharpoonup> export_value"
  tempModuleName :: string
  export_objects :: export_heap
  init_log :: "addr list"
  so_failures :: "(string \<times> string) list"

text \<open>
  What the engine asks of the module manager: whether a limited worker may load the module; the module for a name,
  path, kind and relative path with the two error texts; modules of the other language.
\<close>

record module_source =
  CheckModuleRestricted :: "string \<Rightarrow> bool"
  load_module :: "string \<Rightarrow> string option \<Rightarrow> bool \<Rightarrow> string \<Rightarrow> addr option \<times> string \<times> string"
  IsCJModule :: "string \<Rightarrow> bool"
  LoadCJModule :: "string \<Rightarrow> export_value"

section \<open>The allow list\<close>

text \<open>
  The copy of an export object that the allow list lets through is made of new objects: a tree.  A recursion that does
  not end is \<open>None\<close>.  For a null value the VM is asked for the properties of null; \<open>on_null\<close> is what it answers.
\<close>

datatype export_tree = Leaf export_value | Node "(string \<times> export_tree) list"

definition members :: "(string \<times> export_value) list \<Rightarrow> export_heap \<Rightarrow> export_value \<Rightarrow> (string \<times> export_value) list" where
  "members on_null heap v = (case v of VObject a \<Rightarrow> (case heap a of None \<Rightarrow> [] | Some ps \<Rightarrow> ps) | _ \<Rightarrow> on_null)"

definition sub_path :: "string \<Rightarrow> string \<Rightarrow> string" where
  "sub_path apiPath name = apiPath @ ''.'' @ name"

partial_function (option) CopyPropertyApiFilter ::
    "(string \<Rightarrow> bool) \<Rightarrow> (string \<times> export_value) list \<Rightarrow> export_heap \<Rightarrow> (string \<times> export_value) list \<Rightarrow> string \<Rightarrow>
     (string \<times> export_tree) list option" where
  "CopyPropertyApiFilter checker on_null heap props apiPath =
     (case props of
        [] \<Rightarrow> Some []
      | p # rest \<Rightarrow>
          let curPath = sub_path apiPath (fst p) in
          if checker curPath
          then Option.bind
                 (if type_of (snd p) = ''object''
                  then Option.bind (CopyPropertyApiFilter checker on_null heap (members on_null heap (snd p)) curPath)
                         (\<lambda>sub. Some (Node sub))
                  else Some (Leaf (snd p)))
                 (\<lambda>x. Option.bind (CopyPropertyApiFilter checker on_null heap rest apiPath) (\<lambda>out. Some ((fst p, x) # out)))
          else CopyPropertyApiFilter checker on_null heap rest apiPath)"

declare CopyPropertyApiFilter.simps [code]

text \<open>A value at a path of names, in the exports and in the copy, and the paths whose every prefix is on the list.\<close>

fun source_at ::
    "(string \<times> export_value) list \<Rightarrow> export_heap \<Rightarrow> (string \<times> export_value) list \<Rightarrow> string list \<Rightarrow> export_value \<Rightarrow> bool" where
  "source_at on_null heap props [] v = False"
| "source_at on_null heap props [n] v = ((n, v) \<in> set props \<and> type_of v \<noteq> ''object'')"
| "source_at on_null heap props (n # m # ns) v =
     (\<exists>w. (n, w) \<in> set props \<and> type_of w = ''object'' \<and> source_at on_null heap (members on_null heap w) (m # ns) v)"

fun leaf_at :: "(string \<times> export_tree) list \<Rightarrow> string list \<Rightarrow> export_value \<Rightarrow> bool" where
  "leaf_at props [] v = False"
| "leaf_at props [n] v = ((n, Leaf v) \<in> set props)"
| "leaf_at props (n # m # ns) v = (\<exists>sub. (n, Node sub) \<in> set props \<and> leaf_at sub (m # ns) v)"

fun path_allowed :: "(string \<Rightarrow> bool) \<Rightarrow> string \<Rightarrow> string list \<Rightarrow> bool" where
  "path_allowed checker apiPath [] = True"
| "path_allowed checker apiPath (n # ns) = (checker (sub_path apiPath n) \<and> path_allowed checker (sub_path apiPath n) ns)"

declare source_at.simps [code del] leaf_at.simps [code del]

lemma source_at_Cons:
  "source_at on_null heap (p # rest) ns v \<longleftrightarrow>
     (case ns of
        [] \<Rightarrow> False
      | n # ms \<Rightarrow> n = fst p \<and> (if ms = [] then v = snd p \<and> type_of v \<noteq> ''object''
                    else type_of (snd p) = ''object'' \<and> source_at on_null heap (members on_null heap (snd p)) ms v) \<or>
          source_at on_null heap rest ns v)"
  by (cases "(on_null, heap, p # rest, ns, v)" rule: source_at.cases) (cases p; auto)+

lemma leaf_at_Cons:
  "leaf_at (p # rest) ns v \<longleftrightarrow>
     (case ns of
        [] \<Rightarrow> False
      | n # ms \<Rightarrow> n = fst p \<and> (if ms = [] then snd p = Leaf v else \<exists>sub. snd p = Node sub \<and> leaf_at sub ms v) \<or>
          leaf_at rest ns v)"
  by (cases "(p # rest, ns, v)" rule: leaf_at.cases) (cases p; auto)+

lemma no_path: "\<not> source_at on_null heap props [] v" "\<not> leaf_at out [] v"
  by simp_all

text \<open>Whenever the copy returns, it holds exactly the values all of whose prefixes are on the list.\<close>

lemma source_at_Nil: "\<not> source_at on_null heap [] ns v" and leaf_at_Nil: "\<not> leaf_at [] ns v"
  by (cases ns; simp; cases "tl ns"; simp)+

declare source_at.simps [simp del] leaf_at.simps [simp del]

definition copies :: "(string \<Rightarrow> bool) \<Rightarrow> (string \<times> export_value) list \<Rightarrow> export_heap \<Rightarrow> (string \<times> export_value) list \<Rightarrow> string \<Rightarrow>
    (string \<times> export_tree) list \<Rightarrow> bool" where
  "copies checker on_null heap props apiPath out \<longleftrightarrow>
     (\<forall>ns v. leaf_at out ns v \<longleftrightarrow> source_at on_null heap props ns v \<and> path_allowed checker apiPath ns)"

lemma copy_exact:
  assumes "CopyPropertyApiFilter checker on_null heap props apiPath = Some out"
  shows "copies checker on_null heap props apiPath out"
  using assms
proof (rule CopyPropertyApiFilter.raw_induct [of copies, rotated])
  fix copy checker on_null heap props apiPath out
  assume 1: "\<And>checker on_null heap props apiPath out.
      copy checker on_null heap props apiPath = Some out \<Longrightarrow> copies checker on_null heap props apiPath out"
    and 2: "(case props of
        [] \<Rightarrow> Some []
      | p # rest \<Rightarrow>
          let curPath = sub_path apiPath (fst p) in
          if checker curPath
          then Option.bind
                 (if type_of (snd p) = ''object''
                  then Option.bind (copy checker on_null heap (members on_null heap (snd p)) curPath)
                         (\<lambda>sub. Some (Node sub))
                  else Some (Leaf (snd p)))
                 (\<lambda>x. Option.bind (copy checker on_null heap rest apiPath) (\<lambda>out. Some ((fst p, x) # out)))
          else copy checker on_null heap rest apiPath) = Some out"
  show "copies checker on_null heap props apiPath out"
  proof (cases props)
    case Nil
    then have "out = []" using 2 by simp
    then show ?thesis using Nil by (simp add: copies_def source_at_Nil leaf_at_Nil)
  next
    case (Cons p rest)
    define cur where "cur = sub_path apiPath (fst p)"
    show ?thesis
    proof (cases "checker cur")
      case False
      then have r: "copy checker on_null heap rest apiPath = Some out" using 2 Cons by (simp add: cur_def Let_def)
      have n: "\<not> checker (sub_path apiPath (fst p))" using False by (simp add: cur_def)
      show ?thesis using 1 [OF r] Cons n by (auto simp: copies_def no_path source_at_Cons split: list.splits)
    next
      case True
      then obtain x out' where x: "(if type_of (snd p) = ''object''
           then Option.bind (copy checker on_null heap (members on_null heap (snd p)) cur) (\<lambda>sub. Some (Node sub))
           else Some (Leaf (snd p))) = Some x"
        and r: "copy checker on_null heap rest apiPath = Some out'" and out: "out = (fst p, x) # out'"
        using 2 Cons True by (auto simp: Let_def bind_eq_Some_conv simp flip: cur_def)
      note IH = 1 [OF r]
      show ?thesis
      proof (cases "type_of (snd p) = ''object''")
        case True
        then obtain sub where sub: "copy checker on_null heap (members on_null heap (snd p)) cur = Some sub" "x = Node sub"
          using x by (auto simp: bind_eq_Some_conv)
        note IH2 = 1 [OF sub(1)]
        with IH IH2 show ?thesis using True \<open>checker cur\<close> out sub(2) Cons
          by (auto simp: copies_def no_path source_at_Cons leaf_at_Cons cur_def split: list.splits)
      next
        case False
        with x have "x = Leaf (snd p)" by simp
        with IH show ?thesis using False \<open>checker cur\<close> out Cons
          by (auto simp: copies_def no_path source_at_Cons leaf_at_Cons cur_def split: list.splits)
      qed
    qed
  qed
qed

text \<open>
  The copy ends when the exports are not cyclic: \<open>rank\<close> decreases from an object to the objects in its properties.
\<close>

definition acyclic_exports :: "(nat \<Rightarrow> nat) \<Rightarrow> export_heap \<Rightarrow> bool" where
  "acyclic_exports rank heap \<longleftrightarrow> (\<forall>a ps n b. heap a = Some ps \<longrightarrow> (n, VObject b) \<in> set ps \<longrightarrow> rank b < rank a)"

definition plain_names :: "(string \<times> export_value) list \<Rightarrow> bool" where
  "plain_names ps \<longleftrightarrow> list_all (\<lambda>p. type_of (snd p) \<noteq> ''object'') ps"

lemma copy_plain:
  "plain_names ps \<Longrightarrow> \<exists>out. CopyPropertyApiFilter checker on_null heap ps apiPath = Some out"
proof (induction ps)
  case Nil
  then show ?case by (simp add: CopyPropertyApiFilter.simps)
next
  case (Cons p ps)
  then show ?case by (subst CopyPropertyApiFilter.simps) (auto simp: plain_names_def Let_def)
qed

lemma copy_ends:
  assumes "acyclic_exports rank heap" and "plain_names on_null"
  shows "(\<forall>n b. (n, VObject b) \<in> set props \<longrightarrow> rank b < r) \<Longrightarrow>
    \<exists>out. CopyPropertyApiFilter checker on_null heap props apiPath = Some out"
proof (induction r arbitrary: props apiPath rule: less_induct)
  case (less r)
  from less.prems show ?case
  proof (induction props)
    case Nil
    then show ?case by (simp add: CopyPropertyApiFilter.simps)
  next
    case (Cons p rest)
    obtain out where out: "CopyPropertyApiFilter checker on_null heap rest apiPath = Some out" using Cons by auto
    have "\<exists>sub. CopyPropertyApiFilter checker on_null heap (members on_null heap (snd p)) (sub_path apiPath (fst p)) = Some sub"
      if "type_of (snd p) = ''object''"
    proof (cases "snd p")
      case (VObject a)
      then have a: "rank a < r" using Cons.prems by (cases p) auto
      show ?thesis
      proof (rule less.IH [OF a], intro allI impI)
        fix n b assume "(n, VObject b) \<in> set (members on_null heap (snd p))"
        then show "rank b < rank a" using VObject assms(1)
          by (cases "heap a") (auto simp: members_def acyclic_exports_def)
      qed
    next
      case VNull
      then show ?thesis using copy_plain [OF assms(2)] by (simp add: members_def)
    qed (use that in simp_all)
    with out show ?case by (subst CopyPropertyApiFilter.simps) (auto simp: Let_def)
  qed
qed

text \<open>An object that is among its own properties, with a list that lets every path through: the copy does not end.\<close>

lemma copy_cyclic:
  assumes "CopyPropertyApiFilter checker on_null heap props apiPath = Some out"
  shows "checker = (\<lambda>x. True) \<longrightarrow> heap 0 = Some [(''self'', VObject 0)] \<longrightarrow> props = [(''self'', VObject 0)] \<longrightarrow> False"
  using assms
proof (rule CopyPropertyApiFilter.raw_induct [of "\<lambda>checker on_null heap props apiPath out.
    checker = (\<lambda>x. True) \<longrightarrow> heap 0 = Some [(''self'', VObject 0)] \<longrightarrow> props = [(''self'', VObject 0)] \<longrightarrow> False", rotated],
    intro impI)
  fix copy :: "(string \<Rightarrow> bool) \<Rightarrow> (string \<times> export_value) list \<Rightarrow> export_heap \<Rightarrow> (string \<times> export_value) list \<Rightarrow> string \<Rightarrow>
     (string \<times> export_tree) list option"
    and checker :: "string \<Rightarrow> bool" and on_null props and heap :: export_heap and apiPath out
  assume IH: "\<And>checker on_null heap props apiPath out. copy checker on_null heap props apiPath = Some out \<Longrightarrow>
      checker = (\<lambda>x. True) \<longrightarrow> heap 0 = Some [(''self'', VObject 0)] \<longrightarrow> props = [(''self'', VObject 0)] \<longrightarrow> False"
    and h: "checker = (\<lambda>x. True)" "heap 0 = Some [(''self'', VObject 0)]" "props = [(''self'', VObject 0)]"
    and 2: "(case props of
        [] \<Rightarrow> Some []
      | p # rest \<Rightarrow>
          let curPath = sub_path apiPath (fst p) in
          if checker curPath
          then Option.bind
                 (if type_of (snd p) = ''object''
                  then Option.bind (copy checker on_null heap (members on_null heap (snd p)) curPath)
                         (\<lambda>sub. Some (Node sub))
                  else Some (Leaf (snd p)))
                 (\<lambda>x. Option.bind (copy checker on_null heap rest apiPath) (\<lambda>out. Some ((fst p, x) # out)))
          else copy checker on_null heap rest apiPath) = Some out"
  obtain sub where "copy (\<lambda>x. True) on_null heap [(''self'', VObject 0)] (sub_path apiPath ''self'') = Some sub"
    using 2 h by (auto simp: Let_def members_def bind_eq_Some_conv)
  from IH [OF this] h(2) show False by simp
qed

section \<open>Loading a module\<close>

text \<open>
  What the VM's engine answers: the exports of a byte code buffer, the address of a new object, the answer for the
  properties of null, and \<open>run_init\<close>, the call of \<open>registerCallback\<close> with an export object.
\<close>

record engine_calls =
  LoadArkModule :: "nat \<Rightarrow> string \<Rightarrow> export_value"
  run_getABCCode :: "nat \<Rightarrow> nat option"
  null_names :: "(string \<times> export_value) list"
  run_init :: "nat \<Rightarrow> nat \<Rightarrow> require_engine \<Rightarrow> require_engine outcome"

text \<open>
  What a script gets: a value, an object made by the allow list (\<open>None\<close>: its copy does not end), or the failure
  information.
\<close>

datatype require_result = Exports export_value | Filtered "(string \<times> export_tree) list" | FailureInfo string

definition CheckArkApiAllowList ::
    "engine_calls \<Rightarrow> script_module \<Rightarrow> string \<Rightarrow> nat \<Rightarrow> require_engine \<Rightarrow> require_result option outcome" where
  "CheckArkApiAllowList k m apiPath exportObj s =
     (case apiAllowListChecker m of
        None \<Rightarrow> Returns None
      | Some checker \<Rightarrow>
          if checker apiPath
          then (case CopyPropertyApiFilter checker (null_names k) (export_objects s) (members [] (export_objects s) (VObject exportObj)) apiPath of
                  None \<Rightarrow> Aborts
                | Some copy \<Rightarrow> Returns (Some (Filtered copy)))
          else Returns (Some (Filtered [])))"

definition js_file_name :: "string option \<Rightarrow> string" where
  "js_file_name name = (let n = (case name of None \<Rightarrow> ''(null)'' | Some n \<Rightarrow> n) in ''lib'' @ n @ ''.z.so/'' @ n @ ''.js'')"

text \<open>
  The part that runs \<open>Init\<close>, shared by \<open>engine_LoadNativeModule\<close> and \<open>RequireInternal\<close>: \<open>obj\<close> is the new export object,
  \<open>exports\<close> what is returned when it is not one.
\<close>

definition init_module ::
    "engine_calls \<Rightarrow> nat \<Rightarrow> string \<Rightarrow> addr \<Rightarrow> script_module \<Rightarrow> nat \<Rightarrow> require_engine \<Rightarrow> (require_engine \<times> require_result) outcome" where
  "init_module k cb moduleName a m obj s =
     deref (nm_modname m) (\<lambda>_.
     let s1 = s\<lparr>export_objects := (export_objects s)(obj \<mapsto> []), init_log := a # init_log s\<rparr> in
     obind (run_init k cb obj s1) (\<lambda>s2.
     obind (CheckArkApiAllowList k m moduleName obj s2) (\<lambda>r.
       case r of
         Some copy \<Rightarrow> Returns (s2, copy)
       | None \<Rightarrow> Returns (s2\<lparr>loadedModules := (loadedModules s2)(a \<mapsto> VObject obj)\<rparr>, Exports (VObject obj)))))"

text \<open>\<open>MoudleNameLocker\<close>: its destructor runs on every way out.\<close>

definition with_module_name ::
    "string \<Rightarrow> (require_engine \<Rightarrow> (require_engine \<times> require_result) outcome) \<Rightarrow> require_engine \<Rightarrow> (require_engine \<times> require_result) outcome" where
  "with_module_name moduleName body s =
     obind (body (s\<lparr>tempModuleName := moduleName\<rparr>)) (\<lambda>(s', r). Returns (s'\<lparr>tempModuleName := []\<rparr>, r))"

definition engine_LoadNativeModule ::
    "engine_calls \<Rightarrow> nat \<Rightarrow> string \<Rightarrow> addr option \<Rightarrow> export_value \<Rightarrow> require_engine \<Rightarrow> (require_engine \<times> require_result) outcome" where
  "engine_LoadNativeModule k obj moduleName module exports s =
     (case module of
        None \<Rightarrow> Returns (s, Exports exports)
      | Some a \<Rightarrow>
          (case loadedModules s a of
             Some v \<Rightarrow> Returns (s, Exports v)
           | None \<Rightarrow>
               with_module_name moduleName (\<lambda>s.
                 deref (modules_at s a) (\<lambda>m0.
                 let m = (case getABCCode m0 of
                        Some g \<Rightarrow> if jsCode m0 = None then m0\<lparr>jsCode := run_getABCCode k g\<rparr> else m0
                      | None \<Rightarrow> m0);
                     s1 = s\<lparr>modules_at := (modules_at s)(a \<mapsto> m)\<rparr>
                 in if jsABCCode m \<noteq> None \<or> jsCode m \<noteq> None
                    then (let fileName = js_file_name (nm_modname m);
                              buffer = (case jsABCCode m of Some b \<Rightarrow> b | None \<Rightarrow> the (jsCode m)) in
                          if length fileName \<ge> NAPI_PATH_MAX then Returns (s1, Exports exports)
                          else if LoadArkModule k buffer fileName = VUndefined then Returns (s1, Exports exports)
                          else Returns (s1\<lparr>loadedModules := (loadedModules s1)(a \<mapsto> LoadArkModule k buffer fileName)\<rparr>,
                                 Exports (LoadArkModule k buffer fileName)))
                    else case registerCallback m of
                      Some cb \<Rightarrow> init_module k cb moduleName a m obj s1
                    | None \<Rightarrow> Returns (s1, Exports exports))) s))"

text \<open>
  \<open>args\<close> is the number of arguments of the call, which also may carry a path and a relative path.  The result is the return
  code, the module and the exports.
\<close>

definition CheckAndGetModule ::
    "module_source \<Rightarrow> nat \<Rightarrow> bool \<Rightarrow> string \<Rightarrow> string \<Rightarrow> string \<Rightarrow> require_engine \<Rightarrow>
     require_engine \<times> int \<times> addr option \<times> export_value \<times> string \<times> string" where
  "CheckAndGetModule mm args isApp moduleName path relativePath s =
     (let s' = s\<lparr>isAppModule := isApp\<rparr> in
      if isLimitedWorker s \<and> \<not> isApp \<and> \<not> CheckModuleRestricted mm moduleName
      then (s', - 1, None, VUndefined, [], [])
      else if args = 3
      then (if IsCJModule mm moduleName then (s', 1, None, LoadCJModule mm moduleName, [], [])
            else let (m, e, l) = load_module mm moduleName (Some path) isApp [] in (s', 0, m, VUndefined, e, l))
      else if args = 4
      then (let (m, e, l) = load_module mm moduleName None isApp relativePath in (s', 0, m, VUndefined, e, l))
      else (let (m, e, l) = load_module mm moduleName None isApp [] in (s', 0, m, VUndefined, e, l)))"

text \<open>What \<open>RequireNapi\<close> and \<open>RequireNapiForCtxEnv\<close> do after their checks.\<close>

definition require_module ::
    "engine_calls \<Rightarrow> module_source \<Rightarrow> nat \<Rightarrow> nat \<Rightarrow> bool \<Rightarrow> string \<Rightarrow> string \<Rightarrow> string \<Rightarrow> require_engine \<Rightarrow>
     (require_engine \<times> require_result) outcome" where
  "require_module k mm obj args isApp moduleName path relativePath s =
     (let (s1, code, m, exports, errInfo, loadErrInfo) = CheckAndGetModule mm args isApp moduleName path relativePath s in
      if code \<noteq> 0 then Returns (s1, Exports exports)
      else case m of
        Some a \<Rightarrow> engine_LoadNativeModule k obj moduleName (Some a) exports s1
      | None \<Rightarrow> Returns (s1\<lparr>so_failures := (moduleName, loadErrInfo) # so_failures s1\<rparr>, FailureInfo errInfo))"

definition RequireNapi ::
    "engine_calls \<Rightarrow> module_source \<Rightarrow> nat \<Rightarrow> nat \<Rightarrow> bool \<Rightarrow> string \<Rightarrow> string \<Rightarrow> string \<Rightarrow> require_engine \<Rightarrow>
     (require_engine \<times> require_result) outcome" where
  "RequireNapi k mm obj args isApp moduleName path relativePath s =
     (if args = 0 then Returns (s, Exports VUndefined)
      else require_module k mm obj args (args > 1 \<and> isApp) moduleName path relativePath s)"

text \<open>
  A context engine ends the process for a module of the application (\<open>HILOG_FATAL\<close>); otherwise the callback set by
  \<open>SetModuleValidateCallback\<close> decides.
\<close>

definition RequireNapiForCtxEnv ::
    "engine_calls \<Rightarrow> module_source \<Rightarrow> (string \<Rightarrow> bool) option \<Rightarrow> nat \<Rightarrow> nat \<Rightarrow> bool \<Rightarrow> string \<Rightarrow> string \<Rightarrow> string \<Rightarrow> require_engine \<Rightarrow>
     (require_engine \<times> require_result) outcome" where
  "RequireNapiForCtxEnv k mm modCheckCb obj args isApp moduleName path relativePath s =
     (if args = 0 then Returns (s, Exports VUndefined)
      else if args > 1 \<and> isApp then Aborts
      else case modCheckCb of
        None \<Rightarrow> Returns (s, Exports VUndefined)
      | Some check \<Rightarrow>
          if \<not> check moduleName then Returns (s, Exports VUndefined)
          else require_module k mm obj args False moduleName path relativePath s)"

text \<open>\<open>is_object\<close>: the VM could make the export object.\<close>

definition RequireInternal ::
    "engine_calls \<Rightarrow> module_source \<Rightarrow> bool \<Rightarrow> nat \<Rightarrow> string \<Rightarrow> require_engine \<Rightarrow> (require_engine \<times> require_result) outcome" where
  "RequireInternal k mm is_object obj moduleName s =
     (if isLimitedWorker s \<and> \<not> CheckModuleRestricted mm moduleName then Returns (s, Exports VUndefined)
      else with_module_name moduleName (\<lambda>s.
        case fst (load_module mm moduleName None False []) of
          None \<Rightarrow> Returns (s, Exports VUndefined)
        | Some a \<Rightarrow> deref (modules_at s a) (\<lambda>m.
            case registerCallback m of
              None \<Rightarrow> Returns (s, Exports VUndefined)
            | Some cb \<Rightarrow>
                (case loadedModules s a of
                   Some v \<Rightarrow> Returns (s, Exports v)
                 | None \<Rightarrow> if is_object then init_module k cb moduleName a m obj s else Returns (s, Exports VUndefined)))) s)"

text \<open>
  \<open>SetModuleValidateCallback\<close> reads and then writes an atomic variable; the two halves are separate steps.
\<close>

definition validate_test :: "(string \<Rightarrow> bool) option \<Rightarrow> (string \<Rightarrow> bool) option \<Rightarrow> bool" where
  "validate_test new current \<longleftrightarrow> new \<noteq> None \<and> current = None"

definition SetModuleValidateCallback ::
    "(string \<Rightarrow> bool) option \<Rightarrow> (string \<Rightarrow> bool) option \<Rightarrow> (string \<Rightarrow> bool) option \<times> bool" where
  "SetModuleValidateCallback new current = (if validate_test new current then (new, True) else (current, False))"

section \<open>Modules outside of a script\<close>

text \<open>
  \<open>GetModuleFromName\<close> and \<open>LoadModuleByName\<close> run \<open>Init\<close> on a new object every time, without asking whether
  the module has one; \<open>props\<close> are the properties defined first.  \<open>found\<close> is the module the manager gave.
\<close>

definition run_init_plain ::
    "engine_calls \<Rightarrow> addr option \<Rightarrow> nat \<Rightarrow> (string \<times> export_value) list \<Rightarrow> require_engine \<Rightarrow> (require_engine \<times> require_result) outcome" where
  "run_init_plain k found obj props s =
     (case found of
        None \<Rightarrow> Returns (s, Exports VUndefined)
      | Some a \<Rightarrow>
          deref (modules_at s a) (\<lambda>m.
          deref (nm_modname m) (\<lambda>name.
            with_module_name name (\<lambda>s.
              deref (registerCallback m) (\<lambda>cb.
              obind (run_init k cb obj (s\<lparr>export_objects := (export_objects s)(obj \<mapsto> props), init_log := a # init_log s\<rparr>)) (\<lambda>s'.
                Returns (s', Exports (VObject obj))))) s)))"

definition GetModuleFromName ::
    "engine_calls \<Rightarrow> module_source \<Rightarrow> (nat \<Rightarrow> string \<Rightarrow> nat option) \<Rightarrow> nat \<Rightarrow> string \<Rightarrow> bool \<Rightarrow> string \<Rightarrow> string \<Rightarrow> string \<Rightarrow>
     nat option \<Rightarrow> require_engine \<Rightarrow> (require_engine \<times> require_result \<times> nat option) outcome" where
  "GetModuleFromName k mm unwrap obj moduleName isApp ident param instanceName inst s =
     (let found = fst (load_module mm moduleName None isApp []) in
      obind (run_init_plain k found obj [(''id'', VString ident), (''param'', VString param)] s) (\<lambda>(s', r).
        Returns (s', r, if found = None then inst
                        else case unwrap obj instanceName of Some p \<Rightarrow> Some p | None \<Rightarrow> inst)))"

definition LoadModuleByName ::
    "engine_calls \<Rightarrow> module_source \<Rightarrow> nat \<Rightarrow> nat \<Rightarrow> string \<Rightarrow> bool \<Rightarrow> string \<Rightarrow> string \<Rightarrow> string \<Rightarrow> require_engine \<Rightarrow>
     (require_engine \<times> require_result) outcome" where
  "LoadModuleByName k mm obj inst moduleName isApp param instanceName path s =
     run_init_plain k (fst (load_module mm moduleName (if path = [] then None else Some path) isApp [])) obj
       [(''param'', VString param), (instanceName, VObject inst)] s"

section \<open>Ohm URLs\<close>

definition trim_spaces :: "string \<Rightarrow> string" where
  "trim_spaces path = rev (dropWhile (\<lambda>c. c = CHR '' '') (rev (dropWhile (\<lambda>c. c = CHR '' '') path)))"

text \<open>The white space of \<open>\\s\<close> in the C locale.\<close>

definition is_white :: "char \<Rightarrow> bool" where
  "is_white c \<longleftrightarrow> c \<in> {CHR '' '', CHR 0x09, CHR 0x0A, CHR 0x0B, CHR 0x0C, CHR 0x0D}"

text \<open>The expression \<open>@(ohos|system)\\.(\\S+)\<close>, as its rest after the prefix.\<close>

definition ohm_rest :: "string \<Rightarrow> string option" where
  "ohm_rest path =
     (let rest = (if take 6 path = ''@ohos.'' then Some (drop 6 path)
                  else if take 8 path = ''@system.'' then Some (drop 8 path) else None)
      in case rest of None \<Rightarrow> None
         | Some r \<Rightarrow> if r \<noteq> [] \<and> list_all (\<lambda>c. \<not> is_white c) r then Some r else None)"

definition NATIVE_MODULE :: "string list" where
  "NATIVE_MODULE = [''system.app'', ''ohos.app'', ''system.router'', ''system.curves'', ''ohos.curves'', ''system.matrix4'', ''ohos.matrix4'']"

definition GetOhmurl :: "string \<Rightarrow> string" where
  "GetOhmurl path =
     (let p = trim_spaces path in
      if ohm_rest p = None then []
      else let systemModule = drop 1 p in
        if systemModule \<in> set NATIVE_MODULE then ''@native:'' @ systemModule
        else let pos = length (takeWhile (\<lambda>c. c \<noteq> CHR ''.'') p) in
          ''@ohos:'' @ take (length systemModule) (drop (pos + 1) p))"

datatype module_request = NativeModule string | FileNamespace string | NormalApp string string

definition NapiLoadModule :: "string option \<Rightarrow> module_request option" where
  "NapiLoadModule path = (case path of None \<Rightarrow> None
     | Some p \<Rightarrow> (let ohmurl = GetOhmurl p in Some (if ohmurl \<noteq> [] then NativeModule ohmurl else FileNamespace p)))"

definition NapiLoadModuleWithInfo :: "string option \<Rightarrow> string option \<Rightarrow> module_request option" where
  "NapiLoadModuleWithInfo path module_info = (case path of None \<Rightarrow> None
     | Some p \<Rightarrow> (case module_info of
         Some info \<Rightarrow> Some (NormalApp p info)
       | None \<Rightarrow> (let key = GetOhmurl p in if key = [] then None else Some (NativeModule key))))"

section \<open>Properties\<close>

text \<open>
  C11: the allow list.  For exports that are not cyclic the copy ends, and it holds a value at a path exactly when
  the exports do and every prefix of the path, from the module on, is on the list: nothing else reaches the script, and
  nothing that is allowed is lost.
\<close>

theorem allow_list_exact:
  assumes "acyclic_exports rank heap" and "plain_names on_null"
  shows "\<exists>out. CopyPropertyApiFilter checker on_null heap props apiPath = Some out \<and>
    (\<forall>ns v. leaf_at out ns v \<longleftrightarrow> source_at on_null heap props ns v \<and> path_allowed checker apiPath ns)"
proof -
  have "\<forall>n b. (n, VObject b) \<in> set props \<longrightarrow> rank b < Suc (sum_list (map (\<lambda>p. case snd p of VObject b \<Rightarrow> rank b | _ \<Rightarrow> 0) props))"
  proof (intro allI impI)
    fix n b assume "(n, VObject b) \<in> set props"
    then have "rank b \<in> set (map (\<lambda>p. case snd p of VObject b \<Rightarrow> rank b | _ \<Rightarrow> 0) props)" by force
    then show "rank b < Suc (sum_list (map (\<lambda>p. case snd p of VObject b \<Rightarrow> rank b | _ \<Rightarrow> 0) props))"
      using member_le_sum_list [of "rank b"] by fastforce
  qed
  from copy_ends [OF assms this] copy_exact show ?thesis unfolding copies_def by metis
qed

definition demo_exports :: export_heap where
  "demo_exports = [1 \<mapsto> [(''open'', VFunction 4), (''secret'', VNumber 7)]]"

definition demo_list :: "string \<Rightarrow> bool" where
  "demo_list path = (path \<in> {''fs.version'', ''fs.dir'', ''fs.dir.open'', ''fs.none''})"

theorem allow_list_exact_witness:
  "\<exists>out. CopyPropertyApiFilter demo_list [] demo_exports [(''version'', VNumber 3), (''dir'', VObject 1), (''none'', VNull), (''hidden'', VObject 1)] ''fs'' = Some out \<and>
    (\<forall>ns v. leaf_at out ns v \<longleftrightarrow>
      source_at [] demo_exports [(''version'', VNumber 3), (''dir'', VObject 1), (''none'', VNull), (''hidden'', VObject 1)] ns v \<and>
      path_allowed demo_list ''fs'' ns)"
  by (rule allow_list_exact [of "\<lambda>a. a"]) (simp_all add: acyclic_exports_def demo_exports_def plain_names_def)

text \<open>What the example lets through.\<close>

lemma demo_copy:
  "CopyPropertyApiFilter demo_list [] demo_exports [(''version'', VNumber 3), (''dir'', VObject 1), (''none'', VNull), (''hidden'', VObject 1)] ''fs'' =
    Some [(''version'', Leaf (VNumber 3)), (''dir'', Node [(''open'', Leaf (VFunction 4))]), (''none'', Node [])]"
  by code_simp

text \<open>Exports that contain themselves, on a list that lets them through, are copied without end.\<close>

theorem allow_list_cyclic:
  assumes "heap 0 = Some [(''self'', VObject 0)]"
  shows "CopyPropertyApiFilter (\<lambda>x. True) on_null heap [(''self'', VObject 0)] apiPath = None"
  using copy_cyclic [of "\<lambda>x. True" on_null heap "[(''self'', VObject 0)]" apiPath] assms
  by (cases "CopyPropertyApiFilter (\<lambda>x. True) on_null heap [(''self'', VObject 0)] apiPath") auto

definition registers_only :: "script_module \<Rightarrow> nat \<Rightarrow> bool" where
  "registers_only m cb \<longleftrightarrow> registerCallback m = Some cb \<and> jsCode m = None \<and> jsABCCode m = None \<and> getABCCode m = None \<and> nm_modname m \<noteq> None"

text \<open>The state in which the \<open>Init\<close> of a module runs.\<close>

definition at_init :: "string \<Rightarrow> addr \<Rightarrow> script_module \<Rightarrow> nat \<Rightarrow> require_engine \<Rightarrow> require_engine" where
  "at_init moduleName a m obj s = s\<lparr>tempModuleName := moduleName, modules_at := (modules_at s)(a \<mapsto> m),
     export_objects := (export_objects s)(obj \<mapsto> []), init_log := a # init_log s\<rparr>"

lemma load_native:
  assumes "loadedModules s a = None" and "modules_at s a = Some m" and "registers_only m cb"
    and "run_init k cb obj (at_init moduleName a m obj s) = Returns s2"
  shows "engine_LoadNativeModule k obj moduleName (Some a) exports s =
    obind (CheckArkApiAllowList k m moduleName obj s2) (\<lambda>r. case r of
       Some copy \<Rightarrow> Returns (s2\<lparr>tempModuleName := []\<rparr>, copy)
     | None \<Rightarrow> Returns (s2\<lparr>tempModuleName := [], loadedModules := (loadedModules s2)(a \<mapsto> VObject obj)\<rparr>, Exports (VObject obj)))"
proof -
  obtain n where n: "nm_modname m = Some n" using assms(3) by (auto simp: registers_only_def)
  have i: "init_module k cb moduleName a m obj (s\<lparr>tempModuleName := moduleName, modules_at := (modules_at s)(a \<mapsto> m)\<rparr>) =
      obind (CheckArkApiAllowList k m moduleName obj s2) (\<lambda>r. case r of
         Some copy \<Rightarrow> Returns (s2, copy)
       | None \<Rightarrow> Returns (s2\<lparr>loadedModules := (loadedModules s2)(a \<mapsto> VObject obj)\<rparr>, Exports (VObject obj)))"
    using assms(4) by (simp add: init_module_def n at_init_def Let_def)
  show ?thesis
    using assms(1-3) i
    by (cases "CheckArkApiAllowList k m moduleName obj s2")
       (auto simp: engine_LoadNativeModule_def with_module_name_def registers_only_def Let_def split: option.split)
qed

text \<open>
  One initialisation.  The first load of a module without an allow list runs its \<open>Init\<close> once on a new
  object and returns this object; from then on every load of the module returns the same object, whatever is asked for, and
  runs nothing.
\<close>

theorem require_initialises_once:
  assumes "loadedModules s a = None" and "modules_at s a = Some m" and "registers_only m cb" and "apiAllowListChecker m = None"
    and "run_init k cb obj (at_init moduleName a m obj s) = Returns s2"
  shows "\<exists>s'. engine_LoadNativeModule k obj moduleName (Some a) exports s = Returns (s', Exports (VObject obj)) \<and>
    init_log s' = init_log s2 \<and> export_objects s' = export_objects s2 \<and>
    (\<forall>k' obj' name' exports'. engine_LoadNativeModule k' obj' name' (Some a) exports' s' = Returns (s', Exports (VObject obj)))"
  using load_native [OF assms(1-3,5)] assms(4)
  by (simp add: CheckArkApiAllowList_def) (simp add: engine_LoadNativeModule_def)

definition demo_calls :: engine_calls where
  "demo_calls = \<lparr>LoadArkModule = (\<lambda>b f. VUndefined), run_getABCCode = (\<lambda>g. None), null_names = [],
     run_init = (\<lambda>cb obj s. Returns (s\<lparr>export_objects := (export_objects s)(obj \<mapsto> [(''version'', VNumber 3)])\<rparr>))\<rparr>"

definition require_demo_module :: script_module where
  "require_demo_module = \<lparr>nm_modname = Some ''fs'', registerCallback = Some 5, getABCCode = None, jsCode = None, jsABCCode = None,
     apiAllowListChecker = None\<rparr>"

definition require_demo_engine :: require_engine where
  "require_demo_engine = \<lparr>isLimitedWorker = False, isAppModule = False, modules_at = [1 \<mapsto> require_demo_module], loadedModules = Map.empty,
     tempModuleName = [], export_objects = Map.empty, init_log = [], so_failures = []\<rparr>"

theorem require_initialises_once_witness:
  "\<exists>s' s2. run_init demo_calls 5 9 (at_init ''fs'' 1 require_demo_module 9 require_demo_engine) = Returns s2 \<and>
    engine_LoadNativeModule demo_calls 9 ''fs'' (Some 1) VUndefined require_demo_engine = Returns (s', Exports (VObject 9)) \<and>
    init_log s' = init_log s2 \<and> export_objects s' = export_objects s2 \<and>
    (\<forall>k' obj' name' exports'. engine_LoadNativeModule k' obj' name' (Some 1) exports' s' = Returns (s', Exports (VObject 9)))"
proof -
  obtain s2 where s2: "run_init demo_calls 5 9 (at_init ''fs'' 1 require_demo_module 9 require_demo_engine) = Returns s2"
    by (simp add: demo_calls_def)
  have "\<exists>s'. engine_LoadNativeModule demo_calls 9 ''fs'' (Some 1) VUndefined require_demo_engine = Returns (s', Exports (VObject 9)) \<and>
    init_log s' = init_log s2 \<and> export_objects s' = export_objects s2 \<and>
    (\<forall>k' obj' name' exports'. engine_LoadNativeModule k' obj' name' (Some 1) exports' s' = Returns (s', Exports (VObject 9)))"
    by (rule require_initialises_once [OF _ _ _ _ s2]) (simp_all add: require_demo_engine_def registers_only_def require_demo_module_def)
  with s2 show ?thesis by blast
qed

text \<open>
  A module with an allow list is never entered in the table: each load runs its \<open>Init\<close> again and gives a new copy.
\<close>

theorem allow_list_reinitialises:
  assumes "loadedModules s a = None" and "modules_at s a = Some m" and "registers_only m cb" and "apiAllowListChecker m = Some checker"
    and "run_init k cb obj (at_init moduleName a m obj s) = Returns s2" and "loadedModules s2 a = None"
    and "\<not> checker moduleName"
  shows "\<exists>s'. engine_LoadNativeModule k obj moduleName (Some a) exports s = Returns (s', Filtered []) \<and> loadedModules s' a = None \<and>
    init_log s' = init_log s2"
  using load_native [OF assms(1-3,5)] assms(4,6,7) by (simp add: CheckArkApiAllowList_def)

text \<open>
  Who may load.  A context engine loads a module only after the validation callback accepted its name, and a
  limited worker loads a module of the system only when the manager lists it: otherwise the call changes neither the table of
  exports nor the objects, runs no \<open>Init\<close>, and the script gets undefined.
\<close>

theorem require_gates:
  "(\<not> (args > 1 \<and> isApp) \<and> (\<forall>check. modCheckCb = Some check \<longrightarrow> \<not> check moduleName) \<longrightarrow>
      RequireNapiForCtxEnv k mm modCheckCb obj args isApp moduleName path relativePath s = Returns (s, Exports VUndefined)) \<and>
   (isLimitedWorker s \<and> \<not> CheckModuleRestricted mm moduleName \<longrightarrow>
      RequireInternal k mm is_object obj moduleName s = Returns (s, Exports VUndefined) \<and>
      (\<not> (args > 1 \<and> isApp) \<longrightarrow>
         RequireNapi k mm obj args isApp moduleName path relativePath s =
           Returns (if args = 0 then s else s\<lparr>isAppModule := False\<rparr>, Exports VUndefined)))"
  by (cases modCheckCb)
     (auto simp: RequireNapiForCtxEnv_def RequireInternal_def RequireNapi_def require_module_def CheckAndGetModule_def Let_def)

theorem require_gates_witness:
  "RequireNapiForCtxEnv demo_calls \<lparr>CheckModuleRestricted = (\<lambda>n. n = ''fs''), load_module = (\<lambda>n p i r. (Some 1, [], [])),
        IsCJModule = (\<lambda>n. False), LoadCJModule = (\<lambda>n. VUndefined)\<rparr> (Some (\<lambda>n. n = ''fs'')) 9 2 False ''net'' [] [] require_demo_engine =
     Returns (require_demo_engine, Exports VUndefined) \<and>
   RequireInternal demo_calls \<lparr>CheckModuleRestricted = (\<lambda>n. n = ''fs''), load_module = (\<lambda>n p i r. (Some 1, [], [])),
        IsCJModule = (\<lambda>n. False), LoadCJModule = (\<lambda>n. VUndefined)\<rparr> True 9 ''net'' (require_demo_engine\<lparr>isLimitedWorker := True\<rparr>) =
     Returns (require_demo_engine\<lparr>isLimitedWorker := True\<rparr>, Exports VUndefined)"
  using require_gates [of 2 False "Some (\<lambda>n. n = ''fs'')" "''net''" demo_calls "\<lparr>CheckModuleRestricted = (\<lambda>n. n = ''fs''), load_module = (\<lambda>n p i r. (Some 1, [], [])),
        IsCJModule = (\<lambda>n. False), LoadCJModule = (\<lambda>n. VUndefined)\<rparr>" 9 "[]" "[]" require_demo_engine]
    require_gates [of 2 False None "''net''" demo_calls "\<lparr>CheckModuleRestricted = (\<lambda>n. n = ''fs''), load_module = (\<lambda>n p i r. (Some 1, [], [])),
        IsCJModule = (\<lambda>n. False), LoadCJModule = (\<lambda>n. VUndefined)\<rparr>" 9 "[]" "[]" "require_demo_engine\<lparr>isLimitedWorker := True\<rparr>" True]
  by simp

text \<open>
  Ohm URLs.  A name that is, without the spaces around it, \<open>@ohos.\<close> or \<open>@system.\<close> followed by at least one character
  and no white space becomes \<open>@native:\<close> with the whole name when it is a native module and \<open>@ohos:\<close> with what follows the
  first dot otherwise; every other name gives the empty string.
\<close>

theorem ohm_url_form:
  "GetOhmurl path = (case ohm_rest (trim_spaces path) of
      None \<Rightarrow> []
    | Some r \<Rightarrow> if tl (trim_spaces path) \<in> set NATIVE_MODULE then ''@native:'' @ tl (trim_spaces path) else ''@ohos:'' @ r)"
proof -
  define p where "p = trim_spaces path"
  have "take (length p - 1) (drop (Suc (length (takeWhile (\<lambda>c. c \<noteq> CHR ''.'') p))) p) = r" if "ohm_rest p = Some r" for r
  proof -
    have "take 6 p = ''@ohos.'' \<and> r = drop 6 p \<or> take 8 p = ''@system.'' \<and> r = drop 8 p"
      using that by (auto simp: ohm_rest_def Let_def split: if_splits)
    then have "p = ''@ohos.'' @ r \<or> p = ''@system.'' @ r" by (metis append_take_drop_id)
    then show ?thesis by auto
  qed
  then show ?thesis unfolding p_def [symmetric] by (auto simp: GetOhmurl_def Let_def drop_Suc simp flip: p_def split: option.split)
qed

text \<open>
  The locker of the module name restores nothing: a load inside the \<open>Init\<close> of another module leaves the outer one without a
  name for the rest of its \<open>Init\<close>.
\<close>

theorem module_name_lost:
  assumes "with_module_name moduleName body s = Returns (s', r)"
  shows "tempModuleName s' = []"
  using assms by (auto simp: with_module_name_def obind_eq_Returns)

text \<open>
  The table is keyed by the address of the module and not told when the manager frees one: a module that gets the address of
  an unloaded one is given the exports of the old one.
\<close>

theorem stale_exports:
  assumes "loadedModules s a = Some v"
  shows "engine_LoadNativeModule k obj moduleName (Some a) exports (s\<lparr>modules_at := (modules_at s)(a \<mapsto> other)\<rparr>) =
    Returns (s\<lparr>modules_at := (modules_at s)(a \<mapsto> other)\<rparr>, Exports v)"
  using assms by (simp add: engine_LoadNativeModule_def)

text \<open>
  The two loads from native code call \<open>registerCallback\<close> without looking: a module that only brings byte code crashes them.
\<close>

theorem plain_load_null_callback:
  assumes "modules_at s a = Some m" and "registerCallback m = None"
  shows "run_init_plain k (Some a) obj props s = Fault"
  using assms by (cases "nm_modname m") (simp_all add: run_init_plain_def with_module_name_def)

text \<open>
  Two threads that set the validation callback at the same time are both told that they succeeded; the callback of the
  first one is gone.
\<close>

theorem validate_callback_race:
  "validate_test (Some f) None \<and> validate_test (Some g) None \<and> SetModuleValidateCallback (Some g) None = (Some g, True) \<and>
    SetModuleValidateCallback (Some g) (Some f) = (Some f, False)"
  by (simp add: validate_test_def SetModuleValidateCallback_def)

end
