(* ===== verification/Native_Calls.thy ===== *)
theory Native_Calls
  imports Class_Props
begin

text \<open>
  Calls between scripts and native functions, and the exceptions that cross them (native\_engine/native\_api.cpp,
  \<open>ArkNativeFunctionCallBack\<close> in native\_engine/impl/ark/ark\_native\_engine.cpp, the critical scopes of
  native\_engine/native\_engine.cpp).

  The functions of the user and of the scripts are the record \<open>program\<close>.  The objects are the VM's: an error is made of
  its class, its message and its code; a call of a native function runs \<open>ArkNativeFunctionCallBack\<close> on the arguments, the
  receiver and the information the function was made with, and answers with the hole when an exception is pending.  A
  handle is a value here.  One engine is modelled; container scopes and tracing are left out.
\<close>

section \<open>State\<close>

datatype js_val = JUndefined | JHole | JBoolean bool | JNumber int | JString string | JRef nat

datatype error_class = ErrorClass | TypeErrorClass | RangeErrorClass

datatype js_obj =
    ErrorObject error_class string "js_val option"
  | NativeFunction func_info string
  | ScriptFunction nat
  | PlainObject

text \<open>\<open>pending_exc\<close> is the exception pending in the VM, \<open>critical_scopes\<close> the counter behind \<open>criticalScopeCounter_\<close>.\<close>

record call_state = call_env +
  pending_exc :: "js_val option"
  js_objs :: "nat \<rightharpoonup> js_obj"
  critical_scopes :: u64

text \<open>\<open>JsiRuntimeCallInfo\<close>.\<close>

record call_info =
  ci_args :: "js_val list"
  ci_this :: js_val
  ci_new_target :: js_val
  ci_data :: "func_info option"

text \<open>
  \<open>vm_has_env\<close>: the VM knows an environment, which the sendable functions run in; \<open>no_receiver\<close> is what the VM takes for a
  null receiver.
\<close>

record program =
  native_code :: "nat \<Rightarrow> call_info \<Rightarrow> call_state \<Rightarrow> (call_state \<times> js_val option) outcome"
  script_code :: "nat \<Rightarrow> js_val \<Rightarrow> js_val list \<Rightarrow> call_state \<Rightarrow> (call_state \<times> js_val) outcome"
  vm_has_env :: bool
  no_receiver :: js_val

definition HasCriticalScope :: "call_state \<Rightarrow> bool" where
  "HasCriticalScope s \<longleftrightarrow> critical_scopes s > 0"

definition GetEcmaVm :: "(call_state \<Rightarrow> 'a outcome) \<Rightarrow> call_state \<Rightarrow> 'a outcome" where
  "GetEcmaVm rest s = (if HasCriticalScope s then Aborts else rest s)"

text \<open>\<open>NAPI_PREAMBLE\<close> where the VM's pending exception is part of the state.\<close>

definition PREAMBLE ::
    "bool \<Rightarrow> (call_state \<Rightarrow> (call_state \<times> napi_status \<times> 'o option) outcome) \<Rightarrow> call_state \<Rightarrow> (call_state \<times> napi_status \<times> 'o option) outcome" where
  "PREAMBLE env rest = CHECK_ENV env (\<lambda>s.
     RETURN_STATUS_IF_FALSE (\<not> lastException s) napi_pending_exception (\<lambda>s. GetEcmaVm (\<lambda>s.
       obind (rest s) (\<lambda>(s', r). Returns (if pending_exc s' \<noteq> None then s'\<lparr>lastException := True\<rparr> else s', r)))
       (s\<lparr>lastError := napi_ok\<rparr>)) s)"

definition RETURN_STATUS :: "'o option \<Rightarrow> call_state \<Rightarrow> (call_state \<times> napi_status \<times> 'o option) outcome" where
  "RETURN_STATUS out s = (if pending_exc s = None then Returns (s, napi_ok, out) else napi_set_last_error napi_pending_exception out s)"

section \<open>Critical scopes\<close>

definition IncreaseCriticalScopeCounter :: "call_state \<Rightarrow> call_state" where
  "IncreaseCriticalScopeCounter s = s\<lparr>critical_scopes := critical_scopes s + 1\<rparr>"

definition DecreaseCriticalScopeCounter :: "call_state \<Rightarrow> call_state" where
  "DecreaseCriticalScopeCounter s = s\<lparr>critical_scopes := critical_scopes s - 1\<rparr>"

text \<open>The scope itself is an object of the VM; only that it is there matters here.\<close>

definition napi_open_critical_scope :: "bool \<Rightarrow> unit option \<Rightarrow> call_state \<Rightarrow> (call_state \<times> napi_status \<times> unit option) outcome" where
  "napi_open_critical_scope env scope =
     CHECK_ENV env (CHECK_ARG scope (GetEcmaVm (\<lambda>s. napi_clear_last_error (Some ()) (IncreaseCriticalScopeCounter s))))"

definition napi_close_critical_scope :: "bool \<Rightarrow> unit option \<Rightarrow> call_state \<Rightarrow> (call_state \<times> napi_status \<times> unit option) outcome" where
  "napi_close_critical_scope env scope =
     CHECK_ENV env (CHECK_ARG scope (\<lambda>s.
       if \<not> HasCriticalScope s then napi_set_last_error napi_invalid_arg None s
       else napi_clear_last_error None (DecreaseCriticalScopeCounter s)))"

text \<open>\<open>buf\<close> is the buffer of the string, \<open>None\<close> when the VM has no flat one; the result is the buffer and its length.\<close>

definition napi_get_buffer_string_utf16_in_critical_scope ::
    "bool \<Rightarrow> js_val option \<Rightarrow> unit option \<Rightarrow> unit option \<Rightarrow> (string \<Rightarrow> nat option) \<Rightarrow> call_state \<Rightarrow> (call_state \<times> napi_status \<times> (nat \<times> nat) option) outcome" where
  "napi_get_buffer_string_utf16_in_critical_scope env value buffer len buf =
     CHECK_ENV env (CHECK_ARG value (CHECK_ARG buffer (CHECK_ARG len (\<lambda>s.
     RETURN_STATUS_IF_FALSE (HasCriticalScope s) napi_generic_failure (\<lambda>s.
       case the value of
         JString x \<Rightarrow> (case buf x of None \<Rightarrow> napi_set_last_error napi_invalid_arg None s
                     | Some b \<Rightarrow> napi_clear_last_error (Some (b, length x)) s)
       | _ \<Rightarrow> napi_set_last_error napi_string_expected None s) s))))"

section \<open>Calls\<close>

fun is_callable :: "call_state \<Rightarrow> js_val \<Rightarrow> bool" where
  "is_callable s (JRef a) = (case js_objs s a of Some (NativeFunction i n) \<Rightarrow> True | Some (ScriptFunction c) \<Rightarrow> True | _ \<Rightarrow> False)"
| "is_callable s _ = False"

definition napi_is_callable :: "bool \<Rightarrow> js_val option \<Rightarrow> unit option \<Rightarrow> call_state \<Rightarrow> (call_state \<times> napi_status \<times> bool option) outcome" where
  "napi_is_callable env value result =
     CHECK_ENV env (CHECK_ARG value (CHECK_ARG result (GetEcmaVm (\<lambda>s. napi_clear_last_error (Some (is_callable s (the value))) s))))"

text \<open>
  The name is \<open>defaultName\<close> when there is none (its length is not read); \<open>a\<close> is the handle of the new function and
  \<open>mem\<close> whether its information can be allocated.
\<close>

definition napi_create_function ::
    "bool \<Rightarrow> vm_call \<Rightarrow> (func_info \<Rightarrow> bool) \<Rightarrow> nat \<Rightarrow> nat \<Rightarrow> string option \<Rightarrow> nat option \<Rightarrow> nat \<Rightarrow> unit option \<Rightarrow> call_state \<Rightarrow>
     (call_state \<times> napi_status \<times> js_val option) outcome" where
  "napi_create_function env c mem engine a fname cb data result =
     PREAMBLE env (CHECK_ARG cb (CHECK_ARG result (SWITCH_CONTEXT c (\<lambda>s.
       let funcInfo = \<lparr>fi_callback = the cb, fi_data = data, fi_isSendable = False, fi_env = Some engine\<rparr>;
           fn_name = (case fname of Some n \<Rightarrow> n | None \<Rightarrow> ''defaultName'')
       in if \<not> mem funcInfo then napi_set_last_error napi_invalid_arg None s
          else RETURN_STATUS (Some (JRef a)) (s\<lparr>js_objs := (js_objs s)(a \<mapsto> NativeFunction funcInfo fn_name)\<rparr>)))))"

text \<open>
  The callback of a function is never null: every call that makes one checks it.  The last exception is dropped when the
  callback returns; what the VM has pending is thrown on into the script.
\<close>

definition ArkNativeFunctionCallBack :: "program \<Rightarrow> call_info \<Rightarrow> call_state \<Rightarrow> (call_state \<times> js_val) outcome" where
  "ArkNativeFunctionCallBack p i s =
     (case ci_data i of
        None \<Rightarrow> Returns (s, JUndefined)
      | Some info \<Rightarrow>
          if \<not> (if fi_isSendable info then vm_has_env p else fi_env info \<noteq> None) then Returns (s, JUndefined)
          else obind (native_code p (fi_callback info) i s) (\<lambda>(s', result).
                 if HasCriticalScope s' then Aborts
                 else Returns (s'\<lparr>lastException := False\<rparr>, case result of None \<Rightarrow> JUndefined | Some v \<Rightarrow> v)))"

definition CallForNapi :: "program \<Rightarrow> js_val \<Rightarrow> js_val option \<Rightarrow> js_val list \<Rightarrow> call_state \<Rightarrow> (call_state \<times> js_val) outcome" where
  "CallForNapi p f recv args s =
     (let this = (case recv of Some v \<Rightarrow> v | None \<Rightarrow> no_receiver p) in
      obind (case f of
          JRef a \<Rightarrow> (case js_objs s a of
              Some (NativeFunction info n) \<Rightarrow>
                ArkNativeFunctionCallBack p \<lparr>ci_args = args, ci_this = this, ci_new_target = JUndefined, ci_data = Some info\<rparr> s
            | Some (ScriptFunction c) \<Rightarrow> script_code p c this args s
            | _ \<Rightarrow> Returns (s, JHole))
        | _ \<Rightarrow> Returns (s, JHole)) (\<lambda>(s', v).
      Returns (s', if pending_exc s' \<noteq> None then JHole else v)))"

text \<open>\<open>argv\<close> is the caller's array; \<open>out\<close> whether the caller wants the result.\<close>

definition napi_call_function ::
    "program \<Rightarrow> bool \<Rightarrow> js_val option \<Rightarrow> js_val option \<Rightarrow> nat \<Rightarrow> js_val list option \<Rightarrow> bool \<Rightarrow> call_state \<Rightarrow>
     (call_state \<times> napi_status \<times> js_val option) outcome" where
  "napi_call_function p env recv func argc argv out =
     CHECK_ENV env (\<lambda>s. RETURN_STATUS_IF_FALSE (\<not> lastException s) napi_pending_exception (\<lambda>s.
     CHECK_ARG func ((if argc > 0 then CHECK_ARG argv else (\<lambda>rest. rest)) (GetEcmaVm (\<lambda>s.
     RETURN_STATUS_IF_FALSE (is_callable s (the func)) napi_function_expected (\<lambda>s.
       obind (read_array argv argc) (\<lambda>args.
       obind (CallForNapi p (the func) recv args s) (\<lambda>(s', value).
         if value = JHole then napi_set_last_error napi_pending_exception None (s'\<lparr>lastException := True\<rparr>)
         else napi_clear_last_error (if out then Some value else None) s'))) s))) (s\<lparr>lastError := napi_ok\<rparr>)) s)"

text \<open>The engine's own call: null arguments become undefined, and a null result says that an exception is pending.\<close>

definition CallFunction ::
    "program \<Rightarrow> js_val option \<Rightarrow> js_val option \<Rightarrow> js_val option list option \<Rightarrow> nat \<Rightarrow> call_state \<Rightarrow> (call_state \<times> js_val option) outcome" where
  "CallFunction p thisVar func argv argc s =
     (case func of
        None \<Rightarrow> Returns (s, None)
      | Some f \<Rightarrow>
          obind (read_array argv argc) (\<lambda>args.
          obind (CallForNapi p f (Some (case thisVar of None \<Rightarrow> JUndefined | Some v \<Rightarrow> v))
                   (map (\<lambda>x. case x of None \<Rightarrow> JUndefined | Some v \<Rightarrow> v) args) s) (\<lambda>(s', v).
            Returns (s', if pending_exc s' \<noteq> None then None else Some v))))"

section \<open>The information of a call\<close>

text \<open>Writes into the caller's array; a write behind its end is \<open>Fault\<close>.\<close>

fun store_from :: "nat \<Rightarrow> js_val list \<Rightarrow> js_val option list \<Rightarrow> js_val option list outcome" where
  "store_from i [] arr = Returns arr"
| "store_from i (v # vs) arr = (if i < length arr then store_from (Suc i) vs (arr[i := Some v]) else Fault)"

text \<open>What was written through each pointer.\<close>

record cb_result =
  res_argc :: "nat option"
  res_argv :: "js_val option list option"
  res_this :: "js_val option"
  res_data :: "nat option"

definition FillCbData :: "call_info \<Rightarrow> nat option" where
  "FillCbData info = map_option fi_data (ci_data info)"

definition napi_get_cb_info ::
    "bool \<Rightarrow> call_info option \<Rightarrow> nat option \<Rightarrow> js_val option list option \<Rightarrow> bool \<Rightarrow> bool \<Rightarrow> call_state \<Rightarrow>
     (call_state \<times> napi_status \<times> cb_result option) outcome" where
  "napi_get_cb_info env cbinfo argc argv this_arg data =
     CHECK_ENV env (CHECK_ARG cbinfo (\<lambda>s.
       let info = the cbinfo; j = length (ci_args info) in
       obind (case (argc, argv) of
           (Some argcVal, Some arr) \<Rightarrow>
             (if argcVal > 0
              then let copyCount = min j argcVal in
                obind (store_from 0 (take copyCount (ci_args info)) arr) (\<lambda>arr.
                if j < argcVal then GetEcmaVm (\<lambda>s. obind (store_from j (replicate (argcVal - j) JUndefined) arr) (\<lambda>arr. Returns (Some arr))) s
                else Returns (Some arr))
              else Returns (Some arr))
         | (_, arr) \<Rightarrow> Returns arr) (\<lambda>arr.
       napi_clear_last_error (Some \<lparr>res_argc = (if argc \<noteq> None then Some j else None), res_argv = arr,
           res_this = (if this_arg then Some (ci_this info) else None),
           res_data = (if data then FillCbData info else None)\<rparr>) s)))"

text \<open>\<open>instance_of\<close> is the VM's answer; a null result is \<open>Some None\<close>.\<close>

definition napi_get_new_target ::
    "bool \<Rightarrow> (js_val \<Rightarrow> js_val \<Rightarrow> bool) \<Rightarrow> call_info option \<Rightarrow> unit option \<Rightarrow> call_state \<Rightarrow> (call_state \<times> napi_status \<times> js_val option option) outcome" where
  "napi_get_new_target env instance_of cbinfo result =
     PREAMBLE env (CHECK_ARG cbinfo (CHECK_ARG result (\<lambda>s.
       let info = the cbinfo in
       RETURN_STATUS (Some (if instance_of (ci_this info) (ci_new_target info) then Some (ci_new_target info) else None)) s)))"

section \<open>Errors and exceptions\<close>

text \<open>\<open>a\<close> is the handle of the new error.\<close>

definition new_error :: "nat \<Rightarrow> error_class \<Rightarrow> string \<Rightarrow> js_val option \<Rightarrow> call_state \<Rightarrow> call_state" where
  "new_error a class_of msg code s = s\<lparr>js_objs := (js_objs s)(a \<mapsto> ErrorObject class_of msg code)\<rparr>"

fun code_usable :: "js_val option \<Rightarrow> bool" where
  "code_usable None = True"
| "code_usable (Some (JString x)) = True"
| "code_usable (Some (JNumber n)) = True"
| "code_usable (Some _) = False"

definition napi_create_error ::
    "bool \<Rightarrow> vm_call \<Rightarrow> nat \<Rightarrow> js_val option \<Rightarrow> js_val option \<Rightarrow> unit option \<Rightarrow> call_state \<Rightarrow> (call_state \<times> napi_status \<times> js_val option) outcome" where
  "napi_create_error env c a code msg result =
     CHECK_ENV env (CHECK_ARG msg (CHECK_ARG result (GetEcmaVm (SWITCH_CONTEXT c (
     RETURN_STATUS_IF_FALSE (code_usable code) napi_invalid_arg (\<lambda>s.
       case the msg of
         JString m \<Rightarrow> napi_clear_last_error (Some (JRef a)) (new_error a ErrorClass m code s)
       | _ \<Rightarrow> napi_set_last_error napi_invalid_arg None s))))))"

definition napi_create_type_error ::
    "bool \<Rightarrow> vm_call \<Rightarrow> nat \<Rightarrow> js_val option \<Rightarrow> js_val option \<Rightarrow> unit option \<Rightarrow> call_state \<Rightarrow> (call_state \<times> napi_status \<times> js_val option) outcome" where
  "napi_create_type_error env c a code msg result =
     CHECK_ENV env (CHECK_ARG msg (CHECK_ARG result (GetEcmaVm (SWITCH_CONTEXT c (
     RETURN_STATUS_IF_FALSE (code_usable code) napi_invalid_arg (\<lambda>s.
       case the msg of
         JString m \<Rightarrow> napi_clear_last_error (Some (JRef a)) (new_error a ErrorClass m code s)
       | _ \<Rightarrow> napi_set_last_error napi_invalid_arg None s))))))"

definition napi_create_range_error ::
    "bool \<Rightarrow> vm_call \<Rightarrow> nat \<Rightarrow> js_val option \<Rightarrow> js_val option \<Rightarrow> unit option \<Rightarrow> call_state \<Rightarrow> (call_state \<times> napi_status \<times> js_val option) outcome" where
  "napi_create_range_error env c a code msg result =
     CHECK_ENV env (CHECK_ARG msg (CHECK_ARG result (GetEcmaVm (SWITCH_CONTEXT c (
     RETURN_STATUS_IF_FALSE (code_usable code) napi_invalid_arg (\<lambda>s.
       case the msg of
         JString m \<Rightarrow> napi_clear_last_error (Some (JRef a)) (new_error a ErrorClass m code s)
       | _ \<Rightarrow> napi_set_last_error napi_invalid_arg None s))))))"

fun is_error :: "call_state \<Rightarrow> js_val \<Rightarrow> bool" where
  "is_error s (JRef a) = (case js_objs s a of Some (ErrorObject k m c) \<Rightarrow> True | _ \<Rightarrow> False)"
| "is_error s _ = False"

definition ThrowException :: "js_val \<Rightarrow> call_state \<Rightarrow> call_state" where
  "ThrowException v s = s\<lparr>pending_exc := Some v\<rparr>"

definition napi_throw :: "bool \<Rightarrow> js_val option \<Rightarrow> call_state \<Rightarrow> (call_state \<times> napi_status \<times> unit option) outcome" where
  "napi_throw env error =
     CHECK_ENV env (CHECK_ARG error (GetEcmaVm (\<lambda>s.
     RETURN_STATUS_IF_FALSE (is_error s (the error)) napi_invalid_arg (\<lambda>s.
       napi_clear_last_error None (ThrowException (the error) s)) s)))"

definition napi_throw_jsvalue :: "bool \<Rightarrow> js_val option \<Rightarrow> call_state \<Rightarrow> (call_state \<times> napi_status \<times> unit option) outcome" where
  "napi_throw_jsvalue env error =
     CHECK_ENV env (CHECK_ARG error (GetEcmaVm (\<lambda>s. napi_clear_last_error None (ThrowException (the error) s))))"

definition throw_new :: "error_class \<Rightarrow> nat \<Rightarrow> js_val option \<Rightarrow> string \<Rightarrow> call_state \<Rightarrow> (call_state \<times> napi_status \<times> unit option) outcome" where
  "throw_new class_of a code msg s = napi_clear_last_error None (ThrowException (JRef a) (new_error a class_of msg code s))"

definition napi_throw_error ::
    "bool \<Rightarrow> vm_call \<Rightarrow> nat \<Rightarrow> string option \<Rightarrow> string option \<Rightarrow> call_state \<Rightarrow> (call_state \<times> napi_status \<times> unit option) outcome" where
  "napi_throw_error env c a code msg =
     CHECK_ENV env (CHECK_ARG msg (GetEcmaVm (SWITCH_CONTEXT c (throw_new ErrorClass a (map_option JString code) (the msg)))))"

definition napi_throw_type_error ::
    "bool \<Rightarrow> vm_call \<Rightarrow> nat \<Rightarrow> string option \<Rightarrow> string option \<Rightarrow> call_state \<Rightarrow> (call_state \<times> napi_status \<times> unit option) outcome" where
  "napi_throw_type_error env c a code msg =
     CHECK_ENV env (CHECK_ARG msg (GetEcmaVm (SWITCH_CONTEXT c (throw_new TypeErrorClass a (map_option JString code) (the msg)))))"

definition napi_throw_range_error ::
    "bool \<Rightarrow> vm_call \<Rightarrow> nat \<Rightarrow> string option \<Rightarrow> string option \<Rightarrow> call_state \<Rightarrow> (call_state \<times> napi_status \<times> unit option) outcome" where
  "napi_throw_range_error env c a code msg =
     CHECK_ENV env (CHECK_ARG msg (GetEcmaVm (SWITCH_CONTEXT c (throw_new RangeErrorClass a (map_option JString code) (the msg)))))"

text \<open>The code is a number here; the preamble sees the exception that the call itself throws.\<close>

definition napi_throw_business_error ::
    "bool \<Rightarrow> vm_call \<Rightarrow> nat \<Rightarrow> 32 word \<Rightarrow> string option \<Rightarrow> call_state \<Rightarrow> (call_state \<times> napi_status \<times> unit option) outcome" where
  "napi_throw_business_error env c a errorCode msg =
     PREAMBLE env (CHECK_ARG msg (SWITCH_CONTEXT c (throw_new ErrorClass a (Some (JNumber (sint errorCode))) (the msg))))"

definition napi_is_error :: "bool \<Rightarrow> js_val option \<Rightarrow> unit option \<Rightarrow> call_state \<Rightarrow> (call_state \<times> napi_status \<times> bool option) outcome" where
  "napi_is_error env value result =
     CHECK_ENV env (CHECK_ARG value (CHECK_ARG result (GetEcmaVm (\<lambda>s. napi_clear_last_error (Some (is_error s (the value))) s))))"

definition napi_is_exception_pending :: "bool \<Rightarrow> unit option \<Rightarrow> call_state \<Rightarrow> (call_state \<times> napi_status \<times> bool option) outcome" where
  "napi_is_exception_pending env result =
     CHECK_ENV env (CHECK_ARG result (GetEcmaVm (\<lambda>s. napi_clear_last_error (Some (pending_exc s \<noteq> None)) s)))"

definition napi_get_and_clear_last_exception :: "bool \<Rightarrow> unit option \<Rightarrow> call_state \<Rightarrow> (call_state \<times> napi_status \<times> js_val option) outcome" where
  "napi_get_and_clear_last_exception env result =
     CHECK_ENV env (CHECK_ARG result (GetEcmaVm (\<lambda>s.
       napi_clear_last_error (pending_exc s) (s\<lparr>lastException := False, pending_exc := None\<rparr>))))"

definition napi_get_last_error_info :: "bool \<Rightarrow> unit option \<Rightarrow> call_state \<Rightarrow> (call_state \<times> napi_status \<times> napi_status option) outcome" where
  "napi_get_last_error_info env result =
     CHECK_ENV env (CHECK_ARG result (\<lambda>s.
       Returns (if lastError s = napi_ok then s\<lparr>lastError := napi_ok\<rparr> else s, napi_ok, Some (lastError s))))"

section \<open>What the calls do\<close>

lemmas call_defs = api_frame PREAMBLE_def RETURN_STATUS_def GetEcmaVm_def HasCriticalScope_def

lemma store_from_append:
  "i + length vs \<le> length arr \<Longrightarrow> store_from i vs arr = Returns (take i arr @ map Some vs @ drop (i + length vs) arr)"
proof (induction vs arbitrary: i arr)
  case (Cons v vs)
  have "take (Suc i) (arr[i := Some v]) = take i arr @ [Some v]"
    using Cons.prems by (simp add: take_Suc_conv_app_nth)
  then show ?case using Cons by simp
qed simp

lemma store_from_outside: "length arr < i + length vs \<Longrightarrow> vs \<noteq> [] \<Longrightarrow> store_from i vs arr = Fault"
proof (induction vs arbitrary: i arr)
  case (Cons v vs)
  show ?case
  proof (cases "vs = []")
    case False
    then have "store_from (Suc i) vs (arr[i := Some v]) = Fault" using Cons.prems by (intro Cons.IH) simp_all
    then show ?thesis by simp
  qed (use Cons.prems in simp)
qed simp

text \<open>What \<open>napi_get_cb_info\<close> leaves in an array with room for \<open>n\<close> values.\<close>

definition padded :: "nat \<Rightarrow> js_val list \<Rightarrow> js_val list" where
  "padded n args = take n args @ replicate (n - length args) JUndefined"

lemma length_padded [simp]: "length (padded n args) = n"
  by (simp add: padded_def)

text \<open>
  Arguments of a call.  For an array with at least the announced room \<open>n\<close>, \<open>napi_get_cb_info\<close> writes exactly its
  first \<open>n\<close> slots: the arguments that fit, then undefined; the others keep what they held.  The count written is the number of
  arguments, whatever the room, and the receiver and the data are those of the call.  With less room than announced a call
  writes behind the array.
\<close>

theorem cb_info_exact:
  assumes "\<not> HasCriticalScope s"
  shows "(n \<le> length arr \<longrightarrow>
      napi_get_cb_info True (Some i) (Some n) (Some arr) True True s = Returns (s\<lparr>lastError := napi_ok\<rparr>, napi_ok,
        Some \<lparr>res_argc = Some (length (ci_args i)), res_argv = Some (map Some (padded n (ci_args i)) @ drop n arr),
          res_this = Some (ci_this i), res_data = map_option fi_data (ci_data i)\<rparr>)) \<and>
    (length arr < n \<longrightarrow> napi_get_cb_info True (Some i) (Some n) (Some arr) True True s = Fault)"
proof -
  let ?j = "length (ci_args i)"
  have fits: "napi_get_cb_info True (Some i) (Some n) (Some arr) True True s = Returns (s\<lparr>lastError := napi_ok\<rparr>, napi_ok,
        Some \<lparr>res_argc = Some ?j, res_argv = Some (map Some (padded n (ci_args i)) @ drop n arr),
          res_this = Some (ci_this i), res_data = map_option fi_data (ci_data i)\<rparr>)" if n: "n \<le> length arr"
    using assms n by (cases "?j < n") (auto simp: napi_get_cb_info_def call_defs Let_def FillCbData_def store_from_append padded_def min_def)
  have "napi_get_cb_info True (Some i) (Some n) (Some arr) True True s = Fault" if n: "length arr < n"
  proof (cases "length arr < min ?j n")
    case True
    then have "take (min ?j n) (ci_args i) \<noteq> []" by auto
    then have "store_from 0 (take (min ?j n) (ci_args i)) arr = Fault" using True by (intro store_from_outside) auto
    then show ?thesis using n by (simp add: napi_get_cb_info_def call_defs Let_def)
  next
    case False
    then have j: "?j \<le> length arr" "?j < n" using n by auto
    then have "store_from ?j (replicate (n - ?j) JUndefined) arr' = Fault" if "length arr' = length arr" for arr'
      using that n by (intro store_from_outside) auto
    then show ?thesis using assms j by (simp add: napi_get_cb_info_def call_defs Let_def store_from_append)
  qed
  with fits show ?thesis by blast
qed

definition call_demo_state :: call_state where
  "call_demo_state = \<lparr>lastException = False, lastError = napi_ok, pending_exc = None, js_objs = Map.empty, critical_scopes = 0\<rparr>"

definition call_demo_info :: call_info where
  "call_demo_info = \<lparr>ci_args = [JNumber 1, JString ''x''], ci_this = JUndefined, ci_new_target = JUndefined,
     ci_data = Some \<lparr>fi_callback = 4, fi_data = 77, fi_isSendable = False, fi_env = Some 1\<rparr>\<rparr>"

theorem cb_info_exact_witness:
  "napi_get_cb_info True (Some call_demo_info) (Some 3) (Some (replicate 4 None)) True True call_demo_state =
     Returns (call_demo_state, napi_ok, Some \<lparr>res_argc = Some 2, res_argv = Some [Some (JNumber 1), Some (JString ''x''), Some JUndefined, None],
       res_this = Some JUndefined, res_data = Some 77\<rparr>) \<and>
   napi_get_cb_info True (Some call_demo_info) (Some 5) (Some (replicate 4 None)) True True call_demo_state = Fault"
  using cb_info_exact [of call_demo_state 3 "replicate 4 None" call_demo_info]
    cb_info_exact [of call_demo_state 5 "replicate 4 None" call_demo_info]
  by (simp add: call_demo_state_def call_demo_info_def HasCriticalScope_def padded_def numeral_eq_Suc)


definition call_demo_program :: program where
  "call_demo_program = \<lparr>native_code = (\<lambda>cb i s. if cb = 4
       then obind (napi_get_cb_info True (Some i) (Some 1) (Some [None]) False True s) (\<lambda>(s', st, r). Returns (s',
         case r of Some q \<Rightarrow> (case res_argv q of Some [x] \<Rightarrow> x | _ \<Rightarrow> None) | None \<Rightarrow> None))
       else obind (napi_throw_range_error True quiet 9 (Some ''E7'') (Some ''too big'') s) (\<lambda>(s', st, r). Returns (s', None))),
     script_code = (\<lambda>c this args s. Returns (s, JUndefined)), vm_has_env = True, no_receiver = JUndefined\<rparr>"




text \<open>The three calls that make an error make the same one: a type error and a range error are plain errors.\<close>

theorem created_errors_plain:
  "napi_create_type_error env c a code msg result = napi_create_error env c a code msg result \<and>
   napi_create_range_error env c a code msg result = napi_create_error env c a code msg result"
  by (simp add: napi_create_type_error_def napi_create_range_error_def napi_create_error_def)

text \<open>
  A business error is seen by the call's own preamble, so the next call is refused; after the other throws the next call with a
  preamble still runs its body with the exception pending, and only then reports it.
\<close>

theorem throws_differ:
  assumes "\<not> lastException s" and "\<not> HasCriticalScope s" and "switch_answer c = None"
  shows "(\<exists>s'. napi_throw_business_error True c a code (Some msg) s = Returns (s', napi_ok, None) \<and> lastException s') \<and>
    (\<exists>s'. napi_throw_error True c a x (Some msg) s = Returns (s', napi_ok, None) \<and> \<not> lastException s' \<and> pending_exc s' \<noteq> None)"
  using assms by (simp add: napi_throw_business_error_def napi_throw_error_def call_defs throw_new_def new_error_def ThrowException_def)

text \<open>With nothing pending the call succeeds and the result keeps what it held.\<close>

theorem clear_without_exception:
  assumes "pending_exc s = None" and "\<not> HasCriticalScope s"
  shows "\<exists>s'. napi_get_and_clear_last_exception True (Some ()) s = Returns (s', napi_ok, None)"
  using assms by (simp add: napi_get_and_clear_last_exception_def call_defs)

text \<open>
  A second critical scope ends the process, since the call that opens it asks for the VM first; and a scope can be closed
  only once, since the counter is back at 0.
\<close>

theorem critical_scopes_do_not_nest:
  assumes "critical_scopes s = 0"
  shows "\<exists>s1 s2. napi_open_critical_scope True (Some ()) s = Returns (s1, napi_ok, Some ()) \<and>
    napi_open_critical_scope True (Some ()) s1 = Aborts \<and>
    napi_close_critical_scope True (Some ()) s1 = Returns (s2, napi_ok, None) \<and> critical_scopes s2 = 0 \<and>
    (\<exists>s3. napi_close_critical_scope True (Some ()) s2 = Returns (s3, napi_invalid_arg, None))"
  using assms
  by (simp add: napi_open_critical_scope_def napi_close_critical_scope_def call_defs IncreaseCriticalScopeCounter_def
      DecreaseCriticalScopeCounter_def)

text \<open>
  \<open>NapiDefineProperty\<close> and \<open>NapiDefineClass\<close> clear what is pending when they end, to hide what the definition itself
  raised: an error that was thrown before goes with it, and the call reports success.
\<close>

definition drop_exception :: "call_state \<Rightarrow> call_state" where
  "drop_exception s = (if pending_exc s \<noteq> None then s\<lparr>pending_exc := None\<rparr> else s)"

theorem define_drops_exception:
  assumes "\<not> lastException s" and "\<not> HasCriticalScope s" and "switch_answer c = None"
    and "napi_throw_error True c a code (Some msg) s = Returns (s1, napi_ok, None)"
  shows "pending_exc s1 = Some (JRef a) \<and>
    (\<exists>s2. PREAMBLE True (\<lambda>s. RETURN_STATUS (None :: unit option) (drop_exception s)) s1 = Returns (s2, napi_ok, None) \<and>
      pending_exc s2 = None \<and> \<not> lastException s2)"
  using assms by (auto simp: napi_throw_error_def call_defs throw_new_def new_error_def ThrowException_def drop_exception_def)

end
