(* ===== verification/Js_Objects.thy ===== *)
theory Js_Objects
  imports Class_Props "HOL-Library.AList"
begin

text \<open>
  Properties of objects and entries of maps (native\_engine/native\_api.cpp): the three routes to a property, by a value, by a
  name and by an index, and the calls on \<open>Map\<close> and shared maps.

  The objects are the VM's; they are modelled as ECMAScript has them: an ordinary object is a list of own properties in the
  order of their creation and the chain of its prototypes, a map is a list of entries in the order of their insertion.
  What user code behind an accessor or a proxy would do is outside; that it raised an exception is the flag \<open>caught\<close> of the
  call.  A handle is a number, and \<open>value_keys\<close> says what the VM makes of one as a key.
\<close>

section \<open>Values\<close>

text \<open>
  \<open>as_key\<close> is the property key of a value, \<open>index_key\<close> the one of an index, \<open>same_value\<close> what two values have in common
  that a map takes for the same key.
\<close>

record value_keys =
  as_key :: "nat \<Rightarrow> prop_key"
  index_key :: "u32 \<Rightarrow> prop_key"
  same_value :: "nat \<Rightarrow> prop_key"
  undefined_value :: nat

record prop_object =
  own_props :: "(prop_key \<times> nat) list"
  prototypes :: "nat list"
  is_function :: bool

record map_object =
  is_shared :: bool
  map_entries :: "(prop_key \<times> nat) list"

text \<open>The arrays the calls make.\<close>

datatype made_array = KeyArray "prop_key list" | ValueArray "nat list" | EntryArray "(prop_key \<times> nat) list"

record object_env = call_env +
  objs_at :: "nat \<rightharpoonup> prop_object"
  maps_at :: "nat \<rightharpoonup> map_object"
  arrays_at :: "nat \<rightharpoonup> made_array"
  in_main_context :: bool

section \<open>The objects of the VM\<close>

definition own_of :: "object_env \<Rightarrow> nat \<Rightarrow> (prop_key \<times> nat) list" where
  "own_of s a = (case objs_at s a of None \<Rightarrow> [] | Some x \<Rightarrow> own_props x)"

definition set_own :: "nat \<Rightarrow> (prop_key \<times> nat) list \<Rightarrow> object_env \<Rightarrow> object_env" where
  "set_own a ps s = (case objs_at s a of None \<Rightarrow> s | Some x \<Rightarrow> s\<lparr>objs_at := (objs_at s)(a \<mapsto> x\<lparr>own_props := ps\<rparr>)\<rparr>)"

fun chain_get :: "object_env \<Rightarrow> prop_key \<Rightarrow> nat list \<Rightarrow> nat option" where
  "chain_get s k [] = None"
| "chain_get s k (a # as) = (case map_of (own_of s a) k of Some v \<Rightarrow> Some v | None \<Rightarrow> chain_get s k as)"

definition chain_of :: "object_env \<Rightarrow> nat \<Rightarrow> nat list" where
  "chain_of s a = a # (case objs_at s a of None \<Rightarrow> [] | Some x \<Rightarrow> prototypes x)"

definition vm_Get :: "value_keys \<Rightarrow> object_env \<Rightarrow> nat \<Rightarrow> prop_key \<Rightarrow> nat" where
  "vm_Get vk s a k = (case chain_get s k (chain_of s a) of Some v \<Rightarrow> v | None \<Rightarrow> undefined_value vk)"

definition vm_Has :: "object_env \<Rightarrow> nat \<Rightarrow> prop_key \<Rightarrow> bool" where
  "vm_Has s a k \<longleftrightarrow> chain_get s k (chain_of s a) \<noteq> None"

definition vm_Set :: "nat \<Rightarrow> prop_key \<Rightarrow> nat \<Rightarrow> object_env \<Rightarrow> object_env" where
  "vm_Set a k v s = set_own a (AList.update k v (own_of s a)) s"

definition vm_Delete :: "nat \<Rightarrow> prop_key \<Rightarrow> object_env \<Rightarrow> object_env" where
  "vm_Delete a k s = set_own a (AList.delete k (own_of s a)) s"

text \<open>\<open>IsObjectWithoutSwitchState || IsFunction\<close>.\<close>

definition is_object_like :: "object_env \<Rightarrow> nat \<Rightarrow> bool" where
  "is_object_like s a \<longleftrightarrow> objs_at s a \<noteq> None"

text \<open>\<open>CHECK_AND_CONVERT_TO_OBJECT\<close>; the conversion of a function is the function.\<close>

definition CONVERT_TO_OBJECT ::
    "nat option \<Rightarrow> (object_env \<Rightarrow> (object_env \<times> napi_status \<times> 'o option) outcome) \<Rightarrow>
     object_env \<Rightarrow> (object_env \<times> napi_status \<times> 'o option) outcome" where
  "CONVERT_TO_OBJECT obj rest s = RETURN_STATUS_IF_FALSE (is_object_like s (the obj)) napi_object_expected rest s"

text \<open>
  The calls of \<open>JSNApi\<close> that look at the object themselves answer with a special value when it is none:
  \<open>NapiStatusValidationCheck\<close>.
\<close>

definition VALIDATED ::
    "nat option \<Rightarrow> (object_env \<Rightarrow> (object_env \<times> napi_status \<times> 'o option) outcome) \<Rightarrow>
     object_env \<Rightarrow> (object_env \<times> napi_status \<times> 'o option) outcome" where
  "VALIDATED obj rest s = RETURN_STATUS_IF_FALSE (is_object_like s (the obj)) napi_object_expected rest s"

section \<open>Properties\<close>

definition napi_create_object :: "bool \<Rightarrow> nat \<Rightarrow> unit option \<Rightarrow> object_env \<Rightarrow> (object_env \<times> napi_status \<times> nat option) outcome" where
  "napi_create_object env a result =
     CHECK_ENV env (CHECK_ARG result (\<lambda>s.
       napi_clear_last_error (Some a) (s\<lparr>objs_at := (objs_at s)(a \<mapsto> \<lparr>own_props = [], prototypes = [], is_function = False\<rparr>)\<rparr>)))"

definition napi_set_property ::
    "value_keys \<Rightarrow> bool \<Rightarrow> vm_call \<Rightarrow> nat option \<Rightarrow> nat option \<Rightarrow> nat option \<Rightarrow> object_env \<Rightarrow> (object_env \<times> napi_status \<times> unit option) outcome" where
  "napi_set_property vk env c obj key val =
     NAPI_PREAMBLE env c (CHECK_ARG obj (CHECK_ARG key (CHECK_ARG val (SWITCH_CONTEXT c (CONVERT_TO_OBJECT obj (\<lambda>s.
       GET_RETURN_STATUS c None (vm_Set (the obj) (as_key vk (the key)) (the val) s)))))))"

definition napi_has_property ::
    "value_keys \<Rightarrow> bool \<Rightarrow> vm_call \<Rightarrow> nat option \<Rightarrow> nat option \<Rightarrow> unit option \<Rightarrow> object_env \<Rightarrow> (object_env \<times> napi_status \<times> bool option) outcome" where
  "napi_has_property vk env c obj key result =
     NAPI_PREAMBLE env c (CHECK_ARG obj (CHECK_ARG key (CHECK_ARG result (SWITCH_CONTEXT c (VALIDATED obj (\<lambda>s.
       GET_RETURN_STATUS c (Some (vm_Has s (the obj) (as_key vk (the key)))) s))))))"

definition napi_get_property ::
    "value_keys \<Rightarrow> bool \<Rightarrow> vm_call \<Rightarrow> nat option \<Rightarrow> nat option \<Rightarrow> unit option \<Rightarrow> object_env \<Rightarrow> (object_env \<times> napi_status \<times> nat option) outcome" where
  "napi_get_property vk env c obj key result =
     NAPI_PREAMBLE env c (CHECK_ARG obj (CHECK_ARG key (CHECK_ARG result (SWITCH_CONTEXT c (VALIDATED obj (\<lambda>s.
       GET_RETURN_STATUS c (Some (vm_Get vk s (the obj) (as_key vk (the key)))) s))))))"

text \<open>The result of a deletion is written when the caller asks for it; deleting what is not there succeeds.\<close>

definition napi_delete_property ::
    "value_keys \<Rightarrow> bool \<Rightarrow> vm_call \<Rightarrow> nat option \<Rightarrow> nat option \<Rightarrow> unit option \<Rightarrow> object_env \<Rightarrow> (object_env \<times> napi_status \<times> bool option) outcome" where
  "napi_delete_property vk env c obj key result =
     NAPI_PREAMBLE env c (CHECK_ARG obj (CHECK_ARG key (SWITCH_CONTEXT c (CONVERT_TO_OBJECT obj (VALIDATED obj (\<lambda>s.
       GET_RETURN_STATUS c (map_option (\<lambda>_. True) result) (vm_Delete (the obj) (as_key vk (the key)) s)))))))"

definition napi_has_own_property ::
    "value_keys \<Rightarrow> bool \<Rightarrow> vm_call \<Rightarrow> nat option \<Rightarrow> nat option \<Rightarrow> unit option \<Rightarrow> object_env \<Rightarrow> (object_env \<times> napi_status \<times> bool option) outcome" where
  "napi_has_own_property vk env c obj key result =
     NAPI_PREAMBLE env c (CHECK_ARG obj (CHECK_ARG key (CHECK_ARG result (SWITCH_CONTEXT c (VALIDATED obj (\<lambda>s.
       GET_RETURN_STATUS c (Some (map_of (own_of s (the obj)) (as_key vk (the key)) \<noteq> None)) s))))))"

definition napi_set_named_property ::
    "bool \<Rightarrow> vm_call \<Rightarrow> nat option \<Rightarrow> string option \<Rightarrow> nat option \<Rightarrow> object_env \<Rightarrow> (object_env \<times> napi_status \<times> unit option) outcome" where
  "napi_set_named_property env c obj name val =
     NAPI_PREAMBLE env c (CHECK_ARG obj (CHECK_ARG name (CHECK_ARG val (SWITCH_CONTEXT c (CONVERT_TO_OBJECT obj (\<lambda>s.
       GET_RETURN_STATUS c None (vm_Set (the obj) (StringKey (the name)) (the val) s)))))))"

definition napi_has_named_property ::
    "bool \<Rightarrow> vm_call \<Rightarrow> nat option \<Rightarrow> string option \<Rightarrow> unit option \<Rightarrow> object_env \<Rightarrow> (object_env \<times> napi_status \<times> bool option) outcome" where
  "napi_has_named_property env c obj name result =
     NAPI_PREAMBLE env c (CHECK_ARG obj (CHECK_ARG name (CHECK_ARG result (SWITCH_CONTEXT c (CONVERT_TO_OBJECT obj (\<lambda>s.
       GET_RETURN_STATUS c (Some (vm_Has s (the obj) (StringKey (the name)))) s))))))"

definition napi_get_named_property ::
    "value_keys \<Rightarrow> bool \<Rightarrow> vm_call \<Rightarrow> nat option \<Rightarrow> string option \<Rightarrow> unit option \<Rightarrow> object_env \<Rightarrow> (object_env \<times> napi_status \<times> nat option) outcome" where
  "napi_get_named_property vk env c obj name result =
     NAPI_PREAMBLE env c (CHECK_ARG obj (CHECK_ARG name (CHECK_ARG result (SWITCH_CONTEXT c (VALIDATED obj (\<lambda>s.
       GET_RETURN_STATUS c (Some (vm_Get vk s (the obj) (StringKey (the name)))) s))))))"

text \<open>The descriptor is not returned: only the value in it, which is undefined when there is no such own property.\<close>

definition napi_get_own_property_descriptor ::
    "value_keys \<Rightarrow> bool \<Rightarrow> vm_call \<Rightarrow> nat option \<Rightarrow> string option \<Rightarrow> unit option \<Rightarrow> object_env \<Rightarrow> (object_env \<times> napi_status \<times> nat option) outcome" where
  "napi_get_own_property_descriptor vk env c obj name result =
     CHECK_ENV env (CHECK_ARG obj (CHECK_ARG name (CHECK_ARG result (SWITCH_CONTEXT c (CONVERT_TO_OBJECT obj (\<lambda>s.
       napi_clear_last_error (Some (case map_of (own_of s (the obj)) (StringKey (the name)) of Some v \<Rightarrow> v
           | None \<Rightarrow> undefined_value vk)) s))))))"

definition napi_set_element ::
    "value_keys \<Rightarrow> bool \<Rightarrow> vm_call \<Rightarrow> nat option \<Rightarrow> u32 \<Rightarrow> nat option \<Rightarrow> object_env \<Rightarrow> (object_env \<times> napi_status \<times> unit option) outcome" where
  "napi_set_element vk env c obj index val =
     NAPI_PREAMBLE env c (CHECK_ARG obj (CHECK_ARG val (SWITCH_CONTEXT c (CONVERT_TO_OBJECT obj (\<lambda>s.
       GET_RETURN_STATUS c None (vm_Set (the obj) (index_key vk index) (the val) s))))))"

definition napi_has_element ::
    "value_keys \<Rightarrow> bool \<Rightarrow> vm_call \<Rightarrow> nat option \<Rightarrow> u32 \<Rightarrow> unit option \<Rightarrow> object_env \<Rightarrow> (object_env \<times> napi_status \<times> bool option) outcome" where
  "napi_has_element vk env c obj index result =
     NAPI_PREAMBLE env c (CHECK_ARG obj (CHECK_ARG result (SWITCH_CONTEXT c (CONVERT_TO_OBJECT obj (\<lambda>s.
       GET_RETURN_STATUS c (Some (vm_Has s (the obj) (index_key vk index))) s)))))"

definition napi_get_element ::
    "value_keys \<Rightarrow> bool \<Rightarrow> vm_call \<Rightarrow> nat option \<Rightarrow> u32 \<Rightarrow> unit option \<Rightarrow> object_env \<Rightarrow> (object_env \<times> napi_status \<times> nat option) outcome" where
  "napi_get_element vk env c obj index result =
     NAPI_PREAMBLE env c (CHECK_ARG obj (CHECK_ARG result (SWITCH_CONTEXT c (CONVERT_TO_OBJECT obj (\<lambda>s.
       GET_RETURN_STATUS c (Some (vm_Get vk s (the obj) (index_key vk index))) s)))))"

definition napi_delete_element ::
    "value_keys \<Rightarrow> bool \<Rightarrow> vm_call \<Rightarrow> nat option \<Rightarrow> u32 \<Rightarrow> unit option \<Rightarrow> object_env \<Rightarrow> (object_env \<times> napi_status \<times> bool option) outcome" where
  "napi_delete_element vk env c obj index result =
     NAPI_PREAMBLE env c (CHECK_ARG obj (SWITCH_CONTEXT c (CONVERT_TO_OBJECT obj (\<lambda>s.
       GET_RETURN_STATUS c (map_option (\<lambda>_. True) result) (vm_Delete (the obj) (index_key vk index) s)))))"

text \<open>Neither pointer is checked before it is followed; \<open>names\<close> are the enumerable names the VM gives.\<close>

definition napi_object_get_keys ::
    "bool \<Rightarrow> vm_call \<Rightarrow> (object_env \<Rightarrow> nat \<Rightarrow> prop_key list) \<Rightarrow> nat \<Rightarrow> nat option \<Rightarrow> unit option \<Rightarrow> object_env \<Rightarrow>
     (object_env \<times> napi_status \<times> nat option) outcome" where
  "napi_object_get_keys env c names arr data result =
     CHECK_ENV env (SWITCH_CONTEXT c (\<lambda>s. deref data (\<lambda>d.
       RETURN_STATUS_IF_FALSE (case objs_at s d of Some x \<Rightarrow> \<not> is_function x | None \<Rightarrow> False) napi_object_expected (\<lambda>s.
         deref result (\<lambda>_. napi_clear_last_error (Some arr)
           (s\<lparr>arrays_at := (arrays_at s)(arr \<mapsto> KeyArray (names s d))\<rparr>))) s)))"

text \<open>
  The filter handed to the VM: the bits of \<open>napi_key_filter\<close>, then one for the mode and one for the conversion; \<open>None\<close> when
  one of these is not a value of its enumeration.
\<close>

definition set_if :: "bool \<Rightarrow> nat \<Rightarrow> u32 \<Rightarrow> u32" where
  "set_if c n w = (if c then set_bit n w else w)"

definition names_filter :: "u32 \<Rightarrow> nat \<Rightarrow> nat \<Rightarrow> u32 option" where
  "names_filter key_filter key_mode key_conversion =
     (let f5 = set_if (bit key_filter 4) 4 (set_if (bit key_filter 3) 3 (set_if (bit key_filter 2) 2
                (set_if (bit key_filter 1) 1 (set_if (bit key_filter 0) 0 0))))
      in case (if key_mode = 0 then Some (set_bit 5 f5) else if key_mode = 1 then Some (set_bit 6 f5) else None) of
           None \<Rightarrow> None
         | Some f6 \<Rightarrow> if key_conversion = 0 then Some (set_bit 7 f6)
                     else if key_conversion = 1 then Some (set_bit 8 f6) else None)"

text \<open>\<open>names\<close> is the VM's answer for a filter; a refused mode or conversion sets the result to null.\<close>

definition napi_get_all_property_names ::
    "bool \<Rightarrow> vm_call \<Rightarrow> (u32 \<Rightarrow> nat) \<Rightarrow> nat option \<Rightarrow> nat \<Rightarrow> u32 \<Rightarrow> nat \<Rightarrow> unit option \<Rightarrow> object_env \<Rightarrow>
     (object_env \<times> napi_status \<times> nat option option) outcome" where
  "napi_get_all_property_names env c names obj key_mode key_filter key_conversion result =
     NAPI_PREAMBLE env c (CHECK_ARG obj (CHECK_ARG result (CONVERT_TO_OBJECT obj (\<lambda>s.
       case names_filter key_filter key_mode key_conversion of
         None \<Rightarrow> napi_set_last_error napi_invalid_arg (Some None) s
       | Some f \<Rightarrow> GET_RETURN_STATUS c (Some (Some (names f))) s))))"

section \<open>Maps\<close>

definition is_map :: "object_env \<Rightarrow> nat \<Rightarrow> bool" where
  "is_map s m = (case maps_at s m of Some x \<Rightarrow> \<not> is_shared x | None \<Rightarrow> False)"

definition is_shared_map :: "object_env \<Rightarrow> nat \<Rightarrow> bool" where
  "is_shared_map s m = (case maps_at s m of Some x \<Rightarrow> is_shared x | None \<Rightarrow> False)"

definition entries_of :: "object_env \<Rightarrow> nat \<Rightarrow> (prop_key \<times> nat) list" where
  "entries_of s m = (case maps_at s m of None \<Rightarrow> [] | Some x \<Rightarrow> map_entries x)"

definition set_entries :: "nat \<Rightarrow> (prop_key \<times> nat) list \<Rightarrow> object_env \<Rightarrow> object_env" where
  "set_entries m es s = (case maps_at s m of None \<Rightarrow> s | Some x \<Rightarrow> s\<lparr>maps_at := (maps_at s)(m \<mapsto> x\<lparr>map_entries := es\<rparr>)\<rparr>)"

text \<open>
  The check of every call on a map, and the calls of \<open>MapRef\<close> and \<open>SendableMapRef\<close>, which do the same.  A map holds no
  special value, so the check of what \<open>Get\<close> answered is dropped.
\<close>

definition MAP_EXPECTED ::
    "nat option \<Rightarrow> (object_env \<Rightarrow> (object_env \<times> napi_status \<times> 'o option) outcome) \<Rightarrow>
     object_env \<Rightarrow> (object_env \<times> napi_status \<times> 'o option) outcome" where
  "MAP_EXPECTED m rest s = RETURN_STATUS_IF_FALSE (is_map s (the m) \<or> is_shared_map s (the m)) napi_object_expected rest s"

definition map_Set :: "nat \<Rightarrow> prop_key \<Rightarrow> nat \<Rightarrow> object_env \<Rightarrow> object_env" where
  "map_Set m k v s = set_entries m (AList.update k v (entries_of s m)) s"

definition map_Get :: "value_keys \<Rightarrow> object_env \<Rightarrow> nat \<Rightarrow> prop_key \<Rightarrow> nat" where
  "map_Get vk s m k = (case map_of (entries_of s m) k of Some v \<Rightarrow> v | None \<Rightarrow> undefined_value vk)"

definition map_Has :: "object_env \<Rightarrow> nat \<Rightarrow> prop_key \<Rightarrow> bool" where
  "map_Has s m k \<longleftrightarrow> map_of (entries_of s m) k \<noteq> None"

definition new_map :: "nat \<Rightarrow> bool \<Rightarrow> object_env \<Rightarrow> object_env" where
  "new_map m shared s = s\<lparr>maps_at := (maps_at s)(m \<mapsto> \<lparr>is_shared = shared, map_entries = []\<rparr>)\<rparr>"

definition napi_create_map :: "bool \<Rightarrow> vm_call \<Rightarrow> nat \<Rightarrow> unit option \<Rightarrow> object_env \<Rightarrow> (object_env \<times> napi_status \<times> nat option) outcome" where
  "napi_create_map env c m result =
     CHECK_ENV env (CHECK_ARG result (SWITCH_CONTEXT c (\<lambda>s. napi_clear_last_error (Some m) (new_map m False s))))"

definition napi_create_sendable_map :: "bool \<Rightarrow> nat \<Rightarrow> unit option \<Rightarrow> object_env \<Rightarrow> (object_env \<times> napi_status \<times> nat option) outcome" where
  "napi_create_sendable_map env m result =
     CHECK_ENV env (CHECK_ARG result (\<lambda>s.
       if \<not> in_main_context s then napi_set_last_error napi_invalid_arg None s
       else napi_clear_last_error (Some m) (new_map m True s)))"

definition napi_map_set_property ::
    "value_keys \<Rightarrow> bool \<Rightarrow> vm_call \<Rightarrow> nat option \<Rightarrow> nat option \<Rightarrow> nat option \<Rightarrow> object_env \<Rightarrow> (object_env \<times> napi_status \<times> unit option) outcome" where
  "napi_map_set_property vk env c m key val =
     NAPI_PREAMBLE env c (CHECK_ARG m (CHECK_ARG key (CHECK_ARG val (SWITCH_CONTEXT c (MAP_EXPECTED m (\<lambda>s.
       GET_RETURN_STATUS c None (map_Set (the m) (same_value vk (the key)) (the val) s)))))))"

definition napi_map_set_named_property ::
    "bool \<Rightarrow> vm_call \<Rightarrow> nat option \<Rightarrow> string option \<Rightarrow> nat option \<Rightarrow> object_env \<Rightarrow> (object_env \<times> napi_status \<times> unit option) outcome" where
  "napi_map_set_named_property env c m name val =
     NAPI_PREAMBLE env c (CHECK_ARG m (CHECK_ARG name (CHECK_ARG val (SWITCH_CONTEXT c (MAP_EXPECTED m (\<lambda>s.
       GET_RETURN_STATUS c None (map_Set (the m) (StringKey (the name)) (the val) s)))))))"

definition napi_map_get_property ::
    "value_keys \<Rightarrow> bool \<Rightarrow> vm_call \<Rightarrow> nat option \<Rightarrow> nat option \<Rightarrow> unit option \<Rightarrow> object_env \<Rightarrow> (object_env \<times> napi_status \<times> nat option) outcome" where
  "napi_map_get_property vk env c m key result =
     NAPI_PREAMBLE env c (CHECK_ARG m (CHECK_ARG key (CHECK_ARG result (SWITCH_CONTEXT c (MAP_EXPECTED m (\<lambda>s.
       GET_RETURN_STATUS c (Some (map_Get vk s (the m) (same_value vk (the key)))) s))))))"

definition napi_map_get_named_property ::
    "value_keys \<Rightarrow> bool \<Rightarrow> vm_call \<Rightarrow> nat option \<Rightarrow> string option \<Rightarrow> unit option \<Rightarrow> object_env \<Rightarrow> (object_env \<times> napi_status \<times> nat option) outcome" where
  "napi_map_get_named_property vk env c m name result =
     NAPI_PREAMBLE env c (CHECK_ARG m (CHECK_ARG name (CHECK_ARG result (SWITCH_CONTEXT c (MAP_EXPECTED m (\<lambda>s.
       GET_RETURN_STATUS c (Some (map_Get vk s (the m) (StringKey (the name)))) s))))))"

definition napi_map_has_property ::
    "value_keys \<Rightarrow> bool \<Rightarrow> vm_call \<Rightarrow> nat option \<Rightarrow> nat option \<Rightarrow> unit option \<Rightarrow> object_env \<Rightarrow> (object_env \<times> napi_status \<times> bool option) outcome" where
  "napi_map_has_property vk env c m key result =
     NAPI_PREAMBLE env c (CHECK_ARG m (CHECK_ARG key (CHECK_ARG result (SWITCH_CONTEXT c (MAP_EXPECTED m (\<lambda>s.
       GET_RETURN_STATUS c (Some (map_Has s (the m) (same_value vk (the key)))) s))))))"

definition napi_map_has_named_property ::
    "bool \<Rightarrow> vm_call \<Rightarrow> nat option \<Rightarrow> string option \<Rightarrow> unit option \<Rightarrow> object_env \<Rightarrow> (object_env \<times> napi_status \<times> bool option) outcome" where
  "napi_map_has_named_property env c m name result =
     NAPI_PREAMBLE env c (CHECK_ARG m (CHECK_ARG name (CHECK_ARG result (SWITCH_CONTEXT c (MAP_EXPECTED m (\<lambda>s.
       GET_RETURN_STATUS c (Some (map_Has s (the m) (StringKey (the name)))) s))))))"

definition napi_map_delete_property ::
    "value_keys \<Rightarrow> bool \<Rightarrow> vm_call \<Rightarrow> nat option \<Rightarrow> nat option \<Rightarrow> object_env \<Rightarrow> (object_env \<times> napi_status \<times> unit option) outcome" where
  "napi_map_delete_property vk env c m key =
     NAPI_PREAMBLE env c (CHECK_ARG m (CHECK_ARG key (SWITCH_CONTEXT c (MAP_EXPECTED m (\<lambda>s.
       GET_RETURN_STATUS c None (set_entries (the m) (AList.delete (same_value vk (the key)) (entries_of s (the m))) s))))))"

definition napi_map_clear :: "bool \<Rightarrow> vm_call \<Rightarrow> nat option \<Rightarrow> object_env \<Rightarrow> (object_env \<times> napi_status \<times> unit option) outcome" where
  "napi_map_clear env c m =
     NAPI_PREAMBLE env c (CHECK_ARG m (SWITCH_CONTEXT c (MAP_EXPECTED m (\<lambda>s.
       GET_RETURN_STATUS c None (set_entries (the m) [] s)))))"

definition napi_map_get_size ::
    "bool \<Rightarrow> vm_call \<Rightarrow> nat option \<Rightarrow> unit option \<Rightarrow> object_env \<Rightarrow> (object_env \<times> napi_status \<times> u32 option) outcome" where
  "napi_map_get_size env c m result =
     NAPI_PREAMBLE env c (CHECK_ARG m (CHECK_ARG result (SWITCH_CONTEXT c (MAP_EXPECTED m (\<lambda>s.
       GET_RETURN_STATUS c (Some (of_nat (length (entries_of s (the m))))) s)))))"

text \<open>The three calls that list a map write the handle of a new array.\<close>

definition map_array :: "(prop_key \<times> nat) list \<Rightarrow> nat \<Rightarrow> made_array" where
  "map_array es which = (if which = 0 then EntryArray es else if which = 1 then KeyArray (map fst es) else ValueArray (map snd es))"

definition napi_map_get_entries ::
    "bool \<Rightarrow> vm_call \<Rightarrow> nat \<Rightarrow> nat option \<Rightarrow> unit option \<Rightarrow> object_env \<Rightarrow> (object_env \<times> napi_status \<times> nat option) outcome" where
  "napi_map_get_entries env c arr m result =
     NAPI_PREAMBLE env c (CHECK_ARG m (CHECK_ARG result (SWITCH_CONTEXT c (MAP_EXPECTED m (\<lambda>s.
       GET_RETURN_STATUS c (Some arr) (s\<lparr>arrays_at := (arrays_at s)(arr \<mapsto> map_array (entries_of s (the m)) 0)\<rparr>))))))"

definition napi_map_get_keys ::
    "bool \<Rightarrow> vm_call \<Rightarrow> nat \<Rightarrow> nat option \<Rightarrow> unit option \<Rightarrow> object_env \<Rightarrow> (object_env \<times> napi_status \<times> nat option) outcome" where
  "napi_map_get_keys env c arr m result =
     NAPI_PREAMBLE env c (CHECK_ARG m (CHECK_ARG result (SWITCH_CONTEXT c (MAP_EXPECTED m (\<lambda>s.
       GET_RETURN_STATUS c (Some arr) (s\<lparr>arrays_at := (arrays_at s)(arr \<mapsto> map_array (entries_of s (the m)) 1)\<rparr>))))))"

definition napi_map_get_values ::
    "bool \<Rightarrow> vm_call \<Rightarrow> nat \<Rightarrow> nat option \<Rightarrow> unit option \<Rightarrow> object_env \<Rightarrow> (object_env \<times> napi_status \<times> nat option) outcome" where
  "napi_map_get_values env c arr m result =
     NAPI_PREAMBLE env c (CHECK_ARG m (CHECK_ARG result (SWITCH_CONTEXT c (MAP_EXPECTED m (\<lambda>s.
       GET_RETURN_STATUS c (Some arr) (s\<lparr>arrays_at := (arrays_at s)(arr \<mapsto> map_array (entries_of s (the m)) 2)\<rparr>))))))"

section \<open>Keyed stores\<close>

text \<open>
  The interface that the properties of an object and the entries of a map share: calls that write and calls that remove,
  each under the key its route stands for, on a view that is a map.
\<close>

datatype ('r, 'q) store_call = Put 'r nat | Remove 'q

fun store_step :: "('r \<Rightarrow> nat \<Rightarrow> 'e \<Rightarrow> 'e outcome) \<Rightarrow> ('q \<Rightarrow> 'e \<Rightarrow> 'e outcome) \<Rightarrow> ('r, 'q) store_call \<Rightarrow> 'e \<Rightarrow> 'e outcome" where
  "store_step put remove (Put r v) = put r v"
| "store_step put remove (Remove q) = remove q"

fun store_spec :: "('r \<Rightarrow> 'k) \<Rightarrow> ('q \<Rightarrow> 'k) \<Rightarrow> ('r, 'q) store_call \<Rightarrow> ('k \<rightharpoonup> nat) \<Rightarrow> ('k \<rightharpoonup> nat)" where
  "store_spec put_key remove_key (Put r v) m = m(put_key r \<mapsto> v)"
| "store_spec put_key remove_key (Remove q) m = m(remove_key q := None)"

locale keyed_store =
  fixes put :: "'r \<Rightarrow> nat \<Rightarrow> 'e \<Rightarrow> 'e outcome"
    and remove :: "'q \<Rightarrow> 'e \<Rightarrow> 'e outcome"
    and put_key :: "'r \<Rightarrow> 'k"
    and remove_key :: "'q \<Rightarrow> 'k"
    and view :: "'e \<Rightarrow> 'k \<rightharpoonup> nat"
    and ready :: "'e \<Rightarrow> bool"
  assumes put_ok: "ready e \<Longrightarrow> \<exists>e'. put r v e = Returns e' \<and> view e' = (view e)(put_key r \<mapsto> v) \<and> ready e'"
    and remove_ok: "ready e \<Longrightarrow> \<exists>e'. remove q e = Returns e' \<and> view e' = (view e)(remove_key q := None) \<and> ready e'"
begin

lemma step_refines:
  assumes "ready e"
  shows "\<exists>e'. store_step put remove c e = Returns e' \<and> view e' = store_spec put_key remove_key c (view e) \<and> ready e'"
  using put_ok [OF assms] remove_ok [OF assms] by (cases c) simp_all

lemma run_refines:
  assumes "ready e"
  shows "\<exists>e'. run_all (store_step put remove) cs e = Returns e' \<and>
    view e' = fold (store_spec put_key remove_key) cs (view e) \<and> ready e'"
  using assms
proof (induction cs arbitrary: e)
  case (Cons c cs)
  obtain e1 where e1: "store_step put remove c e = Returns e1" "view e1 = store_spec put_key remove_key c (view e)" "ready e1"
    using step_refines [OF Cons.prems] by blast
  then show ?case using Cons.IH [OF e1(3)] by simp
qed simp

end

text \<open>A call that must succeed.\<close>

definition accepted :: "('e \<times> napi_status \<times> 'o option) outcome \<Rightarrow> 'e outcome" where
  "accepted r = obind r (\<lambda>(s, st, out). if st = napi_ok then Returns s else Fault)"

datatype key_route = ByValue nat | ByName string | ByIndex u32
datatype remove_route = RemoveValue nat | RemoveIndex u32
datatype map_route = MapValue nat | MapName string

fun route_key :: "value_keys \<Rightarrow> key_route \<Rightarrow> prop_key" where
  "route_key vk (ByValue k) = as_key vk k"
| "route_key vk (ByName n) = StringKey n"
| "route_key vk (ByIndex i) = index_key vk i"

fun remove_key :: "value_keys \<Rightarrow> remove_route \<Rightarrow> prop_key" where
  "remove_key vk (RemoveValue k) = as_key vk k"
| "remove_key vk (RemoveIndex i) = index_key vk i"

fun map_key :: "value_keys \<Rightarrow> map_route \<Rightarrow> prop_key" where
  "map_key vk (MapValue k) = same_value vk k"
| "map_key vk (MapName n) = StringKey n"

fun put_property :: "value_keys \<Rightarrow> nat \<Rightarrow> key_route \<Rightarrow> nat \<Rightarrow> object_env \<Rightarrow> object_env outcome" where
  "put_property vk a (ByValue k) v s = accepted (napi_set_property vk True quiet (Some a) (Some k) (Some v) s)"
| "put_property vk a (ByName n) v s = accepted (napi_set_named_property True quiet (Some a) (Some n) (Some v) s)"
| "put_property vk a (ByIndex i) v s = accepted (napi_set_element vk True quiet (Some a) i (Some v) s)"

fun remove_property :: "value_keys \<Rightarrow> nat \<Rightarrow> remove_route \<Rightarrow> object_env \<Rightarrow> object_env outcome" where
  "remove_property vk a (RemoveValue k) s = accepted (napi_delete_property vk True quiet (Some a) (Some k) None s)"
| "remove_property vk a (RemoveIndex i) s = accepted (napi_delete_element vk True quiet (Some a) i None s)"

fun read_property :: "value_keys \<Rightarrow> nat \<Rightarrow> key_route \<Rightarrow> object_env \<Rightarrow> (object_env \<times> napi_status \<times> nat option) outcome" where
  "read_property vk a (ByValue k) s = napi_get_property vk True quiet (Some a) (Some k) (Some ()) s"
| "read_property vk a (ByName n) s = napi_get_named_property vk True quiet (Some a) (Some n) (Some ()) s"
| "read_property vk a (ByIndex i) s = napi_get_element vk True quiet (Some a) i (Some ()) s"

fun put_entry :: "value_keys \<Rightarrow> nat \<Rightarrow> map_route \<Rightarrow> nat \<Rightarrow> object_env \<Rightarrow> object_env outcome" where
  "put_entry vk m (MapValue k) v s = accepted (napi_map_set_property vk True quiet (Some m) (Some k) (Some v) s)"
| "put_entry vk m (MapName n) v s = accepted (napi_map_set_named_property True quiet (Some m) (Some n) (Some v) s)"

definition remove_entry :: "value_keys \<Rightarrow> nat \<Rightarrow> nat \<Rightarrow> object_env \<Rightarrow> object_env outcome" where
  "remove_entry vk m k s = accepted (napi_map_delete_property vk True quiet (Some m) (Some k) s)"

fun read_entry :: "value_keys \<Rightarrow> nat \<Rightarrow> map_route \<Rightarrow> object_env \<Rightarrow> (object_env \<times> napi_status \<times> nat option) outcome" where
  "read_entry vk m (MapValue k) s = napi_map_get_property vk True quiet (Some m) (Some k) (Some ()) s"
| "read_entry vk m (MapName n) s = napi_map_get_named_property vk True quiet (Some m) (Some n) (Some ()) s"

text \<open>The object \<open>a\<close> is \<open>x\<close> up to its own properties, the other ones are as in \<open>h\<close>; likewise for maps.\<close>

definition property_ready :: "(nat \<rightharpoonup> prop_object) \<Rightarrow> prop_object \<Rightarrow> nat \<Rightarrow> object_env \<Rightarrow> bool" where
  "property_ready h x a s \<longleftrightarrow> \<not> lastException s \<and> objs_at s = h(a \<mapsto> x\<lparr>own_props := own_of s a\<rparr>)"

definition map_ready :: "map_object \<Rightarrow> nat \<Rightarrow> object_env \<Rightarrow> bool" where
  "map_ready x m s \<longleftrightarrow> \<not> lastException s \<and> maps_at s m = Some (x\<lparr>map_entries := entries_of s m\<rparr>) \<and> distinct (map fst (entries_of s m))"

lemmas object_defs = api_frame accepted_def quiet_def CONVERT_TO_OBJECT_def VALIDATED_def is_object_like_def
lemmas map_defs = api_frame accepted_def quiet_def MAP_EXPECTED_def is_map_def is_shared_map_def

lemma own_of_set_own: "objs_at s a = Some x \<Longrightarrow> own_of (set_own a ps s) a = ps"
  by (simp add: own_of_def set_own_def)

lemma property_ready_set:
  assumes "property_ready h x a s"
  shows "property_ready h x a (set_own a ps (s\<lparr>lastError := e\<rparr>))" "own_of (set_own a ps (s\<lparr>lastError := e\<rparr>)) a = ps"
proof -
  obtain qs where o: "objs_at s = h(a \<mapsto> x\<lparr>own_props := qs\<rparr>)" "\<not> lastException s"
    using assms unfolding property_ready_def by blast
  then show own: "own_of (set_own a ps (s\<lparr>lastError := e\<rparr>)) a = ps" by (simp add: own_of_def set_own_def)
  show "property_ready h x a (set_own a ps (s\<lparr>lastError := e\<rparr>))"
    unfolding property_ready_def own using o by (simp add: set_own_def)
qed

interpretation properties: keyed_store "put_property vk a" "remove_property vk a" "route_key vk" "remove_key vk"
    "\<lambda>s. map_of (own_of s a)" "property_ready h x a" for vk a h x
proof
  fix s r v q
  assume rdy: "property_ready h x a s"
  then have o: "objs_at s a = Some (x\<lparr>own_props := own_of s a\<rparr>)" "\<not> lastException s"
    unfolding property_ready_def by (metis fun_upd_same)+
  have own: "own_of (s\<lparr>lastError := e\<rparr>) a = own_of s a" for e by (simp add: own_of_def)
  let ?s = "s\<lparr>lastError := napi_ok\<rparr>"
  have "put_property vk a r v s = Returns (set_own a (AList.update (route_key vk r) v (own_of s a)) ?s)"
    using o by (cases r) (simp_all add: object_defs napi_set_property_def napi_set_named_property_def napi_set_element_def vm_Set_def own)
  then show "\<exists>e'. put_property vk a r v s = Returns e' \<and> map_of (own_of e' a) = (map_of (own_of s a))(route_key vk r \<mapsto> v) \<and> property_ready h x a e'"
    using property_ready_set [OF rdy] by (simp add: update_conv')
  have "remove_property vk a q s = Returns (set_own a (AList.delete (remove_key vk q) (own_of s a)) ?s)"
    using o by (cases q) (simp_all add: object_defs napi_delete_property_def napi_delete_element_def vm_Delete_def own)
  then show "\<exists>e'. remove_property vk a q s = Returns e' \<and> map_of (own_of e' a) = (map_of (own_of s a))(remove_key vk q := None) \<and> property_ready h x a e'"
    using property_ready_set [OF rdy] by (simp add: delete_conv')
qed

lemma distinct_entries: "distinct (map fst es) \<Longrightarrow> distinct (map fst (AList.update k v es)) \<and> distinct (map fst (AList.delete k es))"
  by (simp add: distinct_update distinct_delete)

lemma map_ready_set:
  assumes "map_ready x m s" and "distinct (map fst es)"
  shows "map_ready x m (set_entries m es (s\<lparr>lastError := e\<rparr>))" "entries_of (set_entries m es (s\<lparr>lastError := e\<rparr>)) m = es"
proof -
  obtain qs where o: "maps_at s m = Some (x\<lparr>map_entries := qs\<rparr>)" "\<not> lastException s"
    using assms(1) unfolding map_ready_def by blast
  then show own: "entries_of (set_entries m es (s\<lparr>lastError := e\<rparr>)) m = es" by (simp add: entries_of_def set_entries_def)
  show "map_ready x m (set_entries m es (s\<lparr>lastError := e\<rparr>))"
    unfolding map_ready_def own using o assms(2) by (simp add: set_entries_def)
qed

lemma map_ready_expected:
  assumes "map_ready x m s"
  shows "MAP_EXPECTED (Some m) rest (s\<lparr>lastError := e\<rparr>) = rest (s\<lparr>lastError := e\<rparr>)" "\<not> lastException s"
proof -
  obtain qs where "maps_at s m = Some (x\<lparr>map_entries := qs\<rparr>)" "\<not> lastException s"
    using assms unfolding map_ready_def by blast
  then show "MAP_EXPECTED (Some m) rest (s\<lparr>lastError := e\<rparr>) = rest (s\<lparr>lastError := e\<rparr>)" "\<not> lastException s"
    by (simp_all add: MAP_EXPECTED_def RETURN_STATUS_IF_FALSE_def is_map_def is_shared_map_def)
qed

lemma entries_of_lastError [simp]: "entries_of (s\<lparr>lastError := e\<rparr>) m = entries_of s m"
  by (simp add: entries_of_def)

lemma own_of_lastError [simp]: "own_of (s\<lparr>lastError := e\<rparr>) a = own_of s a"
  by (simp add: own_of_def)

interpretation entries: keyed_store "put_entry vk m" "remove_entry vk m" "map_key vk" "same_value vk"
    "\<lambda>s. map_of (entries_of s m)" "map_ready x m" for vk m x
proof
  fix s r v q
  assume rdy: "map_ready x m s"
  then have d: "distinct (map fst (entries_of s m))" by (simp add: map_ready_def)
  let ?s = "s\<lparr>lastError := napi_ok\<rparr>"
  have "put_entry vk m r v s = Returns (set_entries m (AList.update (map_key vk r) v (entries_of s m)) ?s)"
    by (cases r) (simp_all add: map_ready_expected [OF rdy] api_frame accepted_def quiet_def napi_map_set_property_def napi_map_set_named_property_def map_Set_def)
  then show "\<exists>e'. put_entry vk m r v s = Returns e' \<and> map_of (entries_of e' m) = (map_of (entries_of s m))(map_key vk r \<mapsto> v) \<and> map_ready x m e'"
    using map_ready_set [OF rdy] distinct_entries [OF d] by (simp add: update_conv')
  have "remove_entry vk m q s = Returns (set_entries m (AList.delete (same_value vk q) (entries_of s m)) ?s)"
    by (simp add: map_ready_expected [OF rdy] remove_entry_def api_frame accepted_def quiet_def napi_map_delete_property_def)
  then show "\<exists>e'. remove_entry vk m q s = Returns e' \<and> map_of (entries_of e' m) = (map_of (entries_of s m))(same_value vk q := None) \<and> map_ready x m e'"
    using map_ready_set [OF rdy] distinct_entries [OF d] by (simp add: delete_conv')
qed

section \<open>Properties of the calls\<close>

lemma chain_get_others: "a \<notin> set as \<Longrightarrow> objs_at s = (objs_at t)(a \<mapsto> y) \<Longrightarrow> chain_get s k as = chain_get t k as"
  by (induction as) (auto simp: own_of_def split: option.split)


definition demo_keys :: value_keys where
  "demo_keys = \<lparr>as_key = (\<lambda>v. if v = 100 then StringKey ''x'' else OtherKey v), index_key = (\<lambda>i. OtherKey (unat i)),
     same_value = (\<lambda>v. if v = 100 then StringKey ''x'' else OtherKey v), undefined_value = 0\<rparr>"

definition demo_objects :: object_env where
  "demo_objects = \<lparr>lastException = False, lastError = napi_ok,
     objs_at = [1 \<mapsto> \<lparr>own_props = [], prototypes = [2], is_function = False\<rparr>,
                2 \<mapsto> \<lparr>own_props = [(StringKey ''y'', 8)], prototypes = [], is_function = True\<rparr>],
     maps_at = [3 \<mapsto> \<lparr>is_shared = True, map_entries = []\<rparr>], arrays_at = Map.empty, in_main_context = True\<rparr>"


text \<open>
  Entries of a map.  On a map and on a shared one every sequence of writes and deletions succeeds and makes of the
  entries what it makes of a map, each key once; reading by a value or by a name gives the last value written under that
  key, the size is the number of keys modulo \<open>2 ^ 32\<close>, and the arrays of keys, values and entries agree with each other.
\<close>

theorem map_calls_refine:
  assumes "maps_at s m = Some x" and "map_entries x = []" and "\<not> lastException s"
  shows "\<exists>s' es f. run_all (store_step (put_entry vk m) (remove_entry vk m)) calls s = Returns s' \<and>
    f = fold (store_spec (map_key vk) (same_value vk)) calls Map.empty \<and> map_of es = f \<and> distinct (map fst es) \<and>
    (\<forall>r. read_entry vk m r s' = Returns (s'\<lparr>lastError := napi_ok\<rparr>, napi_ok,
       Some (case f (map_key vk r) of Some v \<Rightarrow> v | None \<Rightarrow> undefined_value vk))) \<and>
    napi_map_get_size True quiet (Some m) (Some ()) s' = Returns (s'\<lparr>lastError := napi_ok\<rparr>, napi_ok, Some (of_nat (card (dom f)))) \<and>
    (\<exists>t. napi_map_get_entries True quiet b (Some m) (Some ()) s' = Returns (t, napi_ok, Some b) \<and> arrays_at t b = Some (EntryArray es)) \<and>
    (\<exists>t. napi_map_get_keys True quiet b (Some m) (Some ()) s' = Returns (t, napi_ok, Some b) \<and> arrays_at t b = Some (KeyArray (map fst es))) \<and>
    (\<exists>t. napi_map_get_values True quiet b (Some m) (Some ()) s' = Returns (t, napi_ok, Some b) \<and> arrays_at t b = Some (ValueArray (map snd es)))"
proof -
  have "map_ready x m s" using assms by (cases x) (simp add: map_ready_def entries_of_def)
  then obtain s' where s': "run_all (store_step (put_entry vk m) (remove_entry vk m)) calls s = Returns s'"
    "map_of (entries_of s' m) = fold (store_spec (map_key vk) (same_value vk)) calls (map_of (entries_of s m))" "map_ready x m s'"
    using entries.run_refines by blast
  have e: "entries_of s m = []" using assms by (simp add: entries_of_def)
  have d: "distinct (map fst (entries_of s' m))" using s'(3) by (simp add: map_ready_def)
  have card: "length (entries_of s' m) = card (dom (map_of (entries_of s' m)))"
    using d by (metis dom_map_of_conv_image_fst distinct_card length_map list.set_map)
  let ?l = "s'\<lparr>lastError := napi_ok\<rparr>" and ?f = "map_of (entries_of s' m)"
  note q = map_ready_expected [OF s'(3)]
  have reads: "read_entry vk m r s' = Returns (?l, napi_ok, Some (case ?f (map_key vk r) of Some v \<Rightarrow> v | None \<Rightarrow> undefined_value vk))" for r
    by (cases r) (simp_all add: q api_frame quiet_def napi_map_get_property_def napi_map_get_named_property_def map_Get_def)
  have len: "napi_map_get_size True quiet (Some m) (Some ()) s' = Returns (?l, napi_ok, Some (of_nat (card (dom ?f))))"
    by (simp add: q api_frame quiet_def napi_map_get_size_def card)
  have arrs: "napi_map_get_entries True quiet b (Some m) (Some ()) s' = Returns (?l\<lparr>arrays_at := (arrays_at s')(b \<mapsto> EntryArray (entries_of s' m))\<rparr>, napi_ok, Some b)"
    "napi_map_get_keys True quiet b (Some m) (Some ()) s' = Returns (?l\<lparr>arrays_at := (arrays_at s')(b \<mapsto> KeyArray (map fst (entries_of s' m)))\<rparr>, napi_ok, Some b)"
    "napi_map_get_values True quiet b (Some m) (Some ()) s' = Returns (?l\<lparr>arrays_at := (arrays_at s')(b \<mapsto> ValueArray (map snd (entries_of s' m)))\<rparr>, napi_ok, Some b)"
    by (simp_all add: q api_frame quiet_def napi_map_get_entries_def napi_map_get_keys_def napi_map_get_values_def map_array_def)
  show ?thesis
    by (rule exI [of _ s'], rule exI [of _ "entries_of s' m"], rule exI [of _ ?f]) (use s' d e in \<open>simp add: reads len arrs\<close>)
qed

theorem map_calls_refine_witness:
  "\<exists>s'. run_all (store_step (put_entry demo_keys 3) (remove_entry demo_keys 3))
      [Put (MapName ''x'') 5, Put (MapValue 7) 6, Put (MapValue 100) 9, Remove 7] demo_objects = Returns s' \<and>
    read_entry demo_keys 3 (MapName ''x'') s' = Returns (s'\<lparr>lastError := napi_ok\<rparr>, napi_ok, Some 9) \<and>
    napi_map_get_size True quiet (Some 3) (Some ()) s' = Returns (s'\<lparr>lastError := napi_ok\<rparr>, napi_ok, Some 1)"
proof -
  let ?calls = "[Put (MapName ''x'') 5, Put (MapValue 7) 6, Put (MapValue 100) 9, Remove 7]"
  obtain s' f where s': "run_all (store_step (put_entry demo_keys 3) (remove_entry demo_keys 3)) ?calls demo_objects = Returns s'"
    and f: "f = fold (store_spec (map_key demo_keys) (same_value demo_keys)) ?calls Map.empty"
    and r: "\<And>r. read_entry demo_keys 3 r s' = Returns (s'\<lparr>lastError := napi_ok\<rparr>, napi_ok,
       Some (case f (map_key demo_keys r) of Some v \<Rightarrow> v | None \<Rightarrow> undefined_value demo_keys))"
    and n: "napi_map_get_size True quiet (Some 3) (Some ()) s' = Returns (s'\<lparr>lastError := napi_ok\<rparr>, napi_ok, Some (of_nat (card (dom f))))"
    using map_calls_refine [of demo_objects 3 "\<lparr>is_shared = True, map_entries = []\<rparr>" demo_keys ?calls 4]
    by (auto simp: demo_objects_def)
  have f': "f = [StringKey ''x'' \<mapsto> 9]" by (simp add: f demo_keys_def fun_eq_iff)
  have "read_entry demo_keys 3 (MapName ''x'') s' = Returns (s'\<lparr>lastError := napi_ok\<rparr>, napi_ok, Some 9)"
    unfolding r f' by simp
  then show ?thesis using s' n unfolding f' by (intro exI [of _ s']) (simp del: read_entry.simps run_all.simps)
qed

text \<open>The two pointers of \<open>napi_object_get_keys\<close> are followed without a look.\<close>

theorem object_get_keys_null:
  "napi_object_get_keys True quiet names b None (Some ()) s = Fault \<and>
   (objs_at s d = Some x \<and> \<not> is_function x \<longrightarrow> napi_object_get_keys True quiet names b (Some d) None s = Fault)"
  by (simp add: napi_object_get_keys_def api_frame quiet_def)

text \<open>
  The filter of \<open>napi_get_all_property_names\<close> copies the five lowest bits of the caller's and adds exactly one bit for the mode
  and one for the conversion.
\<close>

theorem names_filter_bits:
  assumes "key_mode \<le> 1" and "key_conversion \<le> 1"
  shows "\<exists>f. names_filter key_filter key_mode key_conversion = Some f \<and>
    (\<forall>i. bit f i \<longleftrightarrow> i < 5 \<and> bit key_filter i \<or> i = 5 + key_mode \<or> i = 7 + key_conversion)"
proof -
  have m: "key_mode = 0 \<or> key_mode = 1" "key_conversion = 0 \<or> key_conversion = 1" using assms by auto
  have b: "bit (set_bit n (w :: u32)) i \<longleftrightarrow> i = n \<and> n < 32 \<or> bit w i"
    "bit (set_if c n w) i \<longleftrightarrow> c \<and> i = n \<and> n < 32 \<or> bit w i" for c n w i
    by (auto simp: set_if_def bit_set_bit_iff)
  have five: "i < 5 \<longleftrightarrow> i = 0 \<or> i = 1 \<or> i = 2 \<or> i = 3 \<or> i = (4 :: nat)" for i by auto
  show ?thesis using m by (elim disjE; simp add: names_filter_def Let_def b five; metis)
qed

end
