(* ===== verification/Context_Engine.thy ===== *)
theory Context_Engine
  imports Native_Reference Machines
begin

text \<open>
  Engines that share one VM (native\_engine/impl/ark/ark\_native\_engine.cpp, native\_engine.cpp and the three entry points of
  native\_api.cpp): a root engine and the context engines made from it.  A context that is destroyed is deleted at once, or
  when the last reference the runtime owns is collected; the root deletes the contexts that are left when it goes down.

  The contexts themselves are handles of the VM.  What is kept of an engine is what decides over its life: its state, its
  counters, its identifier and the table of living engines.  The user's clean-up hooks and finalizers that run inside a
  deletion are a parameter, the two counters (requests, thread-safe functions) that the deletion of an engine finds after them.
\<close>

section \<open>State\<close>

record context_engine =
  cx_main :: bool
  cx_state :: ArkNativeEngineState
  cx_context :: "nat option"
  cx_parent :: "addr option"
  cx_id :: u64
  cx_refs :: nat
  cx_waiting :: nat
  cx_tsfns :: nat
  cx_multi :: bool
  cx_exception :: bool
  cx_error :: napi_status

text \<open>
  \<open>env_hooks\<close> are the arguments of the root's clean-up hooks \<open>EnvironmentCleanup\<close>, the newest first, and \<open>current\<close> is the
  context the VM runs.  The ghosts \<open>made\<close> and \<open>gone\<close> list the engines constructed and destructed, the newest first.
\<close>

record engines =
  engines_at :: "addr \<rightharpoonup> context_engine"
  env_hooks :: "addr list"
  current :: nat
  alive_engines :: "addr set"
  lastEngineId :: u64
  made :: "(addr \<times> u64) list"
  gone :: "(addr \<times> u64) list"

type_synonym leftovers = "addr \<Rightarrow> nat \<times> nat"
type_synonym 'a engine_result = "(engines \<times> 'a) outcome"

definition put_engine :: "addr \<Rightarrow> context_engine \<Rightarrow> engines \<Rightarrow> engines" where
  "put_engine a x s = s\<lparr>engines_at := (engines_at s)(a \<mapsto> x)\<rparr>"

definition engine_error :: "addr \<Rightarrow> napi_status \<Rightarrow> engines \<Rightarrow> napi_status engine_result" where
  "engine_error a st s = deref (engines_at s a) (\<lambda>x. Returns (put_engine a (x\<lparr>cx_error := st\<rparr>) s, st))"

section \<open>Living engines\<close>

definition SetAlive :: "addr \<Rightarrow> engines \<Rightarrow> engines outcome" where
  "SetAlive a s = deref (engines_at s a) (\<lambda>x.
     if cx_id x \<noteq> 0 then Aborts
     else Returns ((put_engine a (x\<lparr>cx_id := lastEngineId s\<rparr>) s)
            \<lparr>alive_engines := insert a (alive_engines s), lastEngineId := lastEngineId s + 1, made := (a, lastEngineId s) # made s\<rparr>))"

definition SetDead :: "addr \<Rightarrow> engines \<Rightarrow> engines" where
  "SetDead a s = s\<lparr>alive_engines := alive_engines s - {a}\<rparr>"

definition IsAlive :: "addr \<Rightarrow> engines \<Rightarrow> bool" where
  "IsAlive a s \<longleftrightarrow> a \<in> alive_engines s"

text \<open>The check that objects make which outlive calls: they keep the address and the identifier of their engine.\<close>

definition EngineIdentityCheck :: "addr \<Rightarrow> addr \<Rightarrow> u64 \<Rightarrow> engines \<Rightarrow> bool outcome" where
  "EngineIdentityCheck input owner ownerId s =
     (if input \<noteq> owner then Returns False
      else deref (engines_at s input) (\<lambda>x. Returns (ownerId = cx_id x)))"

section \<open>Construction\<close>

definition fresh_engine :: "bool \<Rightarrow> nat \<Rightarrow> addr option \<Rightarrow> context_engine" where
  "fresh_engine main h parent = \<lparr>cx_main = main, cx_state = RUNNING, cx_context = Some h, cx_parent = parent, cx_id = 0,
     cx_refs = 0, cx_waiting = 0, cx_tsfns = 0, cx_multi = (parent \<noteq> None), cx_exception = False, cx_error = napi_ok\<rparr>"

definition new_root :: "addr \<Rightarrow> nat \<Rightarrow> engines \<Rightarrow> engines outcome" where
  "new_root a h s = SetAlive a (put_engine a (fresh_engine True h None) s)"

definition new_context :: "addr \<Rightarrow> addr \<Rightarrow> nat \<Rightarrow> engines \<Rightarrow> engines outcome" where
  "new_context parent a h s =
     obind (SetAlive a (put_engine a (fresh_engine False h (Some parent)) s)) (\<lambda>s.
     deref (engines_at s parent) (\<lambda>p.
       Returns ((put_engine parent (p\<lparr>cx_multi := True\<rparr>) s)\<lparr>env_hooks := a # env_hooks s\<rparr>)))"

text \<open>\<open>ArkNativeEngine::New\<close>: whether the VM's context is a global environment is known to the VM.\<close>

definition New :: "addr option \<Rightarrow> bool \<Rightarrow> bool \<Rightarrow> addr \<Rightarrow> nat \<Rightarrow> engines \<Rightarrow> addr engine_result" where
  "New engine vm isJsGlobalEnv a h s =
     (case engine of None \<Rightarrow> Aborts | Some p \<Rightarrow>
      if \<not> vm then Aborts
      else deref (engines_at s p) (\<lambda>x.
        if \<not> cx_main x then Aborts
        else if \<not> isJsGlobalEnv then Aborts
        else obind (new_context p a h s) (\<lambda>s. Returns (s, a))))"

section \<open>Destruction\<close>

definition context_IsReadyToDelete :: "context_engine \<Rightarrow> bool" where
  "context_IsReadyToDelete x \<longleftrightarrow> \<not> cx_main x \<and> cx_state x = STOPPED \<and> cx_refs x = 0"

text \<open>
  \<open>DeconstructCtxEnv\<close>: hooks and finalizers have run and left the counters \<open>(w, t)\<close>.  The counters are asked twice, before and
  after the engine is taken off the table of living engines, and nothing runs in between.
\<close>

definition DeconstructCtxEnv :: "leftovers \<Rightarrow> addr \<Rightarrow> engines \<Rightarrow> engines outcome" where
  "DeconstructCtxEnv u a s = deref (engines_at s a) (\<lambda>x.
     let (w, t) = u a; x1 = x\<lparr>cx_waiting := w, cx_tsfns := t\<rparr>; s1 = put_engine a x1 s
     in deref (cx_parent x1) (\<lambda>p. deref (engines_at s1 p) (\<lambda>_.
        let s2 = s1\<lparr>env_hooks := remove1 a (env_hooks s1)\<rparr>
        in if cx_waiting x1 \<noteq> 0 then Aborts
           else if cx_tsfns x1 \<noteq> 0 then Aborts
           else Returns (put_engine a (x1\<lparr>cx_parent := None\<rparr>) (SetDead a s2)))))"

text \<open>\<open>Delete\<close> of a context: the handle of its context is freed, the destructor runs, and the memory is free.\<close>

definition context_Delete :: "leftovers \<Rightarrow> addr \<Rightarrow> engines \<Rightarrow> engines outcome" where
  "context_Delete u a s = deref (engines_at s a) (\<lambda>x.
     obind (DeconstructCtxEnv u a (put_engine a (x\<lparr>cx_context := None, cx_state := RELEASING\<rparr>) s)) (\<lambda>s.
       Returns (s\<lparr>engines_at := (engines_at s)(a := None), gone := (a, cx_id x) # gone s\<rparr>)))"

text \<open>The clean-up hooks of the root, newest first: one pass over a copy, and passes until no hook is left.\<close>

fun run_env_hooks :: "leftovers \<Rightarrow> addr list \<Rightarrow> engines \<Rightarrow> engines outcome" where
  "run_env_hooks u [] s = Returns s"
| "run_env_hooks u (a # as) s =
     (if a \<in> set (env_hooks s)
      then obind (context_Delete u a s) (\<lambda>s. run_env_hooks u as (s\<lparr>env_hooks := remove1 a (env_hooks s)\<rparr>))
      else run_env_hooks u as s)"

partial_function (option) RunEnvHooks :: "leftovers \<Rightarrow> engines \<Rightarrow> engines outcome option" where
  "RunEnvHooks u s =
     (if env_hooks s = [] then Some (Returns s)
      else case run_env_hooks u (env_hooks s) s of
             Returns s' \<Rightarrow> RunEnvHooks u s'
           | Aborts \<Rightarrow> Some Aborts
           | Fault \<Rightarrow> Some Fault)"

text \<open>The destructor of the root engine, as far as other engines see it.\<close>

definition delete_root :: "leftovers \<Rightarrow> addr \<Rightarrow> engines \<Rightarrow> engines outcome option" where
  "delete_root u r s =
     (case engines_at s r of
        None \<Rightarrow> Some Fault
      | Some x \<Rightarrow>
          (case RunEnvHooks u (put_engine r (x\<lparr>cx_state := RELEASING\<rparr>) s) of
             None \<Rightarrow> None
           | Some res \<Rightarrow> Some (obind res (\<lambda>s.
               Returns ((SetDead r s)\<lparr>engines_at := (engines_at s)(r := None), gone := (r, cx_id x) # gone s\<rparr>)))))"

section \<open>Switching and destroying\<close>

datatype switch_result = SWITCHED | SWITCH_FAILED | SWITCH_EMPTY

definition SwitchContext :: "switch_result \<Rightarrow> addr \<Rightarrow> engines \<Rightarrow> napi_status engine_result" where
  "SwitchContext answer a s = deref (engines_at s a) (\<lambda>x. deref (cx_context x) (\<lambda>h.
     Returns (case answer of
       SWITCH_FAILED \<Rightarrow> (s, napi_pending_exception)
     | SWITCH_EMPTY \<Rightarrow> (s, napi_generic_failure)
     | SWITCHED \<Rightarrow> (s\<lparr>current := h\<rparr>, napi_ok))))"

definition context_Destroy :: "leftovers \<Rightarrow> addr \<Rightarrow> engines \<Rightarrow> napi_status engine_result" where
  "context_Destroy u a s = deref (engines_at s a) (\<lambda>x.
     if cx_state x \<noteq> RUNNING then Returns (s, napi_invalid_arg)
     else if cx_main x then Returns (s, napi_invalid_arg)
     else if cx_context x = Some (current s) then Returns (s, napi_invalid_arg)
     else let s1 = put_engine a (x\<lparr>cx_state := STOPPED\<rparr>) s
          in if cx_refs x = 0 then obind (context_Delete u a s1) (\<lambda>s. Returns (s, napi_ok))
             else Returns (s1, napi_ok))"

text \<open>
  A reference of the runtime is made, and collected: the second callback of the collection counts it down and deletes the
  engine when that was the last one (ark\_native\_reference.cpp).
\<close>

definition ref_made :: "addr \<Rightarrow> engines \<Rightarrow> engines outcome" where
  "ref_made a s = deref (engines_at s a) (\<lambda>x.
     Returns (if \<not> cx_main x then put_engine a (x\<lparr>cx_refs := cx_refs x + 1\<rparr>) s else s))"

definition ref_collected :: "leftovers \<Rightarrow> addr \<Rightarrow> engines \<Rightarrow> engines outcome" where
  "ref_collected u a s = deref (engines_at s a) (\<lambda>x.
     let x1 = x\<lparr>cx_refs := cx_refs x - 1\<rparr>; s1 = put_engine a x1 s
     in if context_IsReadyToDelete x1 then context_Delete u a s1 else Returns s1)"

section \<open>Entry points\<close>

text \<open>
  The VM's answers: the new context if one was made, whether it is a global environment, and whether an exception was caught
  by the end of the call.
\<close>

record create_answer =
  made_context :: "nat option"
  is_global_env :: bool
  caught_exception :: bool

definition engine_preamble :: "addr option \<Rightarrow> (addr \<Rightarrow> engines \<Rightarrow> (napi_status \<times> 'o option) engine_result) \<Rightarrow> engines \<Rightarrow>
    (napi_status \<times> 'o option) engine_result" where
  "engine_preamble env rest s =
     (case env of None \<Rightarrow> Returns (s, napi_invalid_arg, None) | Some a \<Rightarrow>
      deref (engines_at s a) (\<lambda>x.
        if cx_exception x then obind (engine_error a napi_pending_exception s) (\<lambda>(s, st). Returns (s, st, None))
        else rest a (put_engine a (x\<lparr>cx_error := napi_ok\<rparr>) s)))"

definition failing :: "addr \<Rightarrow> napi_status \<Rightarrow> engines \<Rightarrow> (napi_status \<times> 'o option) engine_result" where
  "failing a st s = obind (engine_error a st s) (\<lambda>(s, st). Returns (s, st, None))"

text \<open>The destructor of \<open>TryCatch\<close>, which ends a call with a preamble.\<close>

definition end_preamble :: "addr \<Rightarrow> bool \<Rightarrow> engines \<times> 'r \<Rightarrow> 'r engine_result" where
  "end_preamble a caught sr = (let (s, res) = sr in
     if caught then deref (engines_at s a) (\<lambda>x. Returns (put_engine a (x\<lparr>cx_exception := True\<rparr>) s, res)) else Returns (s, res))"

definition napi_create_ark_context ::
    "addr option \<Rightarrow> unit option \<Rightarrow> bool \<Rightarrow> create_answer \<Rightarrow> addr \<Rightarrow> engines \<Rightarrow> (napi_status \<times> addr option) engine_result" where
  "napi_create_ark_context env newEnv mainThread v b = engine_preamble env (\<lambda>a s.
     obind (if newEnv = None then failing a napi_invalid_arg s
            else deref (engines_at s a) (\<lambda>x.
              if \<not> cx_main x then failing a napi_invalid_arg s
              else if \<not> mainThread then Aborts
              else case made_context v of
                None \<Rightarrow> failing a napi_generic_failure s
              | Some h \<Rightarrow>
                  if \<not> is_global_env v then failing a napi_generic_failure s
                  else obind (New (Some a) True (is_global_env v) b h s) (\<lambda>(s, b).
                    if caught_exception v
                    then obind (engine_error a napi_pending_exception s) (\<lambda>(s, st). Returns (s, st, Some b))
                    else Returns (s, napi_ok, Some b))))
       (end_preamble a (caught_exception v)))"

definition napi_switch_ark_context :: "addr option \<Rightarrow> bool \<Rightarrow> switch_result \<Rightarrow> engines \<Rightarrow> (napi_status \<times> unit option) engine_result" where
  "napi_switch_ark_context env mainThread answer = engine_preamble env (\<lambda>a s.
     if \<not> mainThread then Aborts
     else obind (SwitchContext answer a s) (\<lambda>(s, status).
       if status \<noteq> napi_ok then failing a status s else Returns (s, napi_ok, None)))"

text \<open>
  No preamble here: the environment may be gone at the end.  An exception that is pending in the VM is moved into the engine,
  and one that the engine already keeps is lost when none is pending.
\<close>

definition napi_destroy_ark_context ::
    "leftovers \<Rightarrow> addr option \<Rightarrow> bool \<Rightarrow> bool \<Rightarrow> engines \<Rightarrow> (napi_status \<times> unit option) engine_result" where
  "napi_destroy_ark_context u env mainThread pendingException s =
     (case env of None \<Rightarrow> Returns (s, napi_invalid_arg, None) | Some a \<Rightarrow>
      deref (engines_at s a) (\<lambda>x.
        if cx_exception x \<or> pendingException
        then failing a napi_pending_exception (put_engine a (x\<lparr>cx_exception := pendingException\<rparr>) s)
        else if \<not> mainThread then Aborts
        else obind (context_Destroy u a s) (\<lambda>(s, status).
          if status \<noteq> napi_ok then failing a status s else Returns (s, napi_ok, None))))"

section \<open>Runs\<close>

text \<open>
  The calls a program can make while the root lives.  \<open>Counters\<close> and \<open>Exception\<close> stand for everything else that changes the
  counters of an engine and the exception it keeps.
\<close>

datatype engine_op =
    CreateContext "addr option" "unit option" create_answer addr
  | SwitchTo "addr option" switch_result
  | DestroyContextOf leftovers "addr option" bool
  | RefMade addr
  | RefCollected leftovers addr
  | Counters addr nat nat
  | Exception addr bool

fun exec_engine :: "engine_op \<Rightarrow> engines \<Rightarrow> engines outcome" where
  "exec_engine (CreateContext env newEnv v b) s = fst_of (napi_create_ark_context env newEnv True v b s)"
| "exec_engine (SwitchTo env answer) s = fst_of (napi_switch_ark_context env True answer s)"
| "exec_engine (DestroyContextOf u env pending) s = fst_of (napi_destroy_ark_context u env True pending s)"
| "exec_engine (RefMade a) s = ref_made a s"
| "exec_engine (RefCollected u a) s = ref_collected u a s"
| "exec_engine (Counters a w t) s = deref (engines_at s a) (\<lambda>x. Returns (put_engine a (x\<lparr>cx_waiting := w, cx_tsfns := t\<rparr>) s))"
| "exec_engine (Exception a e) s = deref (engines_at s a) (\<lambda>x. Returns (put_engine a (x\<lparr>cx_exception := e\<rparr>) s))"

text \<open>
  What the callers owe: an environment is used while it lives; the allocator and the VM give a new address and a new
  context; a context that was destroyed is not switched to; what is deleted has no request in flight and no thread-safe
  function; only references that are counted are collected.
\<close>

fun engine_allowed :: "engine_op \<Rightarrow> engines \<Rightarrow> bool" where
  "engine_allowed (CreateContext env newEnv v b) s \<longleftrightarrow>
     (case env of None \<Rightarrow> True | Some a \<Rightarrow> engines_at s a \<noteq> None) \<and> engines_at s b = None \<and>
     (case made_context v of None \<Rightarrow> True | Some h \<Rightarrow> \<forall>a x. engines_at s a = Some x \<longrightarrow> cx_context x \<noteq> Some h) \<and>
     length (made s) < 2 ^ 64 - 1"
| "engine_allowed (SwitchTo env answer) s \<longleftrightarrow>
     (case env of None \<Rightarrow> True | Some a \<Rightarrow>
       (case engines_at s a of None \<Rightarrow> False | Some x \<Rightarrow> answer = SWITCHED \<longrightarrow> cx_state x = RUNNING))"
| "engine_allowed (DestroyContextOf u env pending) s \<longleftrightarrow>
     (case env of None \<Rightarrow> True | Some a \<Rightarrow>
       (case engines_at s a of None \<Rightarrow> False | Some x \<Rightarrow> cx_refs x = 0 \<longrightarrow> u a = (0, 0)))"
| "engine_allowed (RefMade a) s \<longleftrightarrow> engines_at s a \<noteq> None"
| "engine_allowed (RefCollected u a) s \<longleftrightarrow>
     (case engines_at s a of None \<Rightarrow> False | Some x \<Rightarrow> 0 < cx_refs x \<and> (cx_refs x = 1 \<longrightarrow> u a = (0, 0)))"
| "engine_allowed (Counters a w t) s \<longleftrightarrow> engines_at s a \<noteq> None"
| "engine_allowed (Exception a e) s \<longleftrightarrow> engines_at s a \<noteq> None"

section \<open>The invariant\<close>

definition context_ok :: "addr \<Rightarrow> context_engine \<Rightarrow> bool" where
  "context_ok r x \<longleftrightarrow> \<not> cx_main x \<and> cx_parent x = Some r \<and> (cx_state x = RUNNING \<or> cx_state x = STOPPED \<and> 0 < cx_refs x)"

definition table_ok :: "addr \<Rightarrow> (addr \<rightharpoonup> context_engine) \<Rightarrow> bool" where
  "table_ok r h \<longleftrightarrow> (\<exists>x. h r = Some x \<and> cx_main x \<and> cx_state x = RUNNING) \<and>
     (\<forall>a x. h a = Some x \<longrightarrow> cx_context x \<noteq> None \<and> (a \<noteq> r \<longrightarrow> context_ok r x)) \<and>
     (\<forall>a b x y. h a = Some x \<longrightarrow> h b = Some y \<longrightarrow> cx_context x = cx_context y \<longrightarrow> a = b)"

text \<open>The engines in memory with their identifiers.\<close>

definition living :: "(addr \<rightharpoonup> context_engine) \<Rightarrow> (addr \<times> u64) set" where
  "living h = {(a, i). map_option cx_id (h a) = Some i}"

lemma living_iff: "(a, i) \<in> living h \<longleftrightarrow> (\<exists>x. h a = Some x \<and> cx_id x = i)"
  by (auto simp: living_def)

definition ids_ok :: "engines \<Rightarrow> bool" where
  "ids_ok s \<longleftrightarrow> length (made s) < 2 ^ 64 \<and> lastEngineId s = of_nat (Suc (length (made s))) \<and>
     map snd (made s) = rev (map of_nat [1..<Suc (length (made s))]) \<and> distinct (gone s) \<and>
     set (made s) = living (engines_at s) \<union> set (gone s) \<and>
     living (engines_at s) \<inter> set (gone s) = {}"

definition engines_ok :: "addr \<Rightarrow> engines \<Rightarrow> bool" where
  "engines_ok r s \<longleftrightarrow> table_ok r (engines_at s) \<and> distinct (env_hooks s) \<and> set (env_hooks s) = dom (engines_at s) - {r} \<and>
     (\<exists>a x. engines_at s a = Some x \<and> cx_state x = RUNNING \<and> cx_context x = Some (current s)) \<and>
     alive_engines s = dom (engines_at s) \<and> ids_ok s"

lemma engines_ok_root: "engines_ok r s \<Longrightarrow> \<exists>x. engines_at s r = Some x \<and> cx_main x \<and> cx_state x = RUNNING"
  by (simp add: engines_ok_def table_ok_def)

lemma engines_ok_context: "engines_ok r s \<Longrightarrow> engines_at s a = Some x \<Longrightarrow> a \<noteq> r \<Longrightarrow> context_ok r x"
  by (simp add: engines_ok_def table_ok_def)

lemma engines_ok_handle: "engines_ok r s \<Longrightarrow> engines_at s a = Some x \<Longrightarrow> \<exists>h. cx_context x = Some h"
  unfolding engines_ok_def table_ok_def by blast

lemma main_is_root: "engines_ok r s \<Longrightarrow> engines_at s a = Some x \<Longrightarrow> cx_main x \<longleftrightarrow> a = r"
  using engines_ok_root [of r s] engines_ok_context [of r s a x] by (auto simp: context_ok_def)

text \<open>An engine that changes nothing but its counters, its exception and its status.\<close>

definition same_life :: "context_engine \<Rightarrow> context_engine \<Rightarrow> bool" where
  "same_life x y \<longleftrightarrow> cx_main y = cx_main x \<and> cx_state y = cx_state x \<and> cx_context y = cx_context x \<and>
     cx_parent y = cx_parent x \<and> cx_id y = cx_id x \<and> (cx_state x = STOPPED \<longrightarrow> 0 < cx_refs x \<longrightarrow> 0 < cx_refs y)"

lemma living_image: "living h = (\<lambda>a. (a, cx_id (the (h a)))) ` dom h"
  by (force simp: living_def image_def dom_def)

lemma living_update: "h a = Some x \<Longrightarrow> cx_id y = cx_id x \<Longrightarrow> living (h(a \<mapsto> y)) = living h"
  by (auto simp: living_def split: if_splits)

lemma living_delete: "h a = Some x \<Longrightarrow> living (h(a := None)) = living h - {(a, cx_id x)}"
  by (auto simp: living_def split: if_splits)

lemma table_ok_update:
  assumes t: "table_ok r h" and x: "h a = Some x" and y: "same_life x y"
  shows "table_ok r (h(a \<mapsto> y))"
proof -
  have c: "\<forall>b z. (h(a \<mapsto> y)) b = Some z \<longrightarrow> (\<exists>w. h b = Some w \<and> same_life w z)"
    using x y by (simp add: same_life_def)
  have i: "\<And>b d z w. h b = Some z \<Longrightarrow> h d = Some w \<Longrightarrow> cx_context z = cx_context w \<Longrightarrow> b = d"
    and k: "\<And>b z. h b = Some z \<Longrightarrow> cx_context z \<noteq> None \<and> (b \<noteq> r \<longrightarrow> context_ok r z)"
    using t unfolding table_ok_def by blast+
  show ?thesis unfolding table_ok_def
  proof (intro conjI allI impI)
    show "\<exists>z. (h(a \<mapsto> y)) r = Some z \<and> cx_main z \<and> cx_state z = RUNNING"
      using t x y unfolding table_ok_def same_life_def by auto
  next
    fix b z assume "(h(a \<mapsto> y)) b = Some z"
    then obtain w where w: "h b = Some w" "same_life w z" using c by blast
    then show "cx_context z \<noteq> None" using k [OF w(1)] by (simp add: same_life_def)
    assume "b \<noteq> r"
    then show "context_ok r z" using w k [OF w(1)] by (auto simp: same_life_def context_ok_def)
  next
    fix b d z w assume bd: "(h(a \<mapsto> y)) b = Some z" "(h(a \<mapsto> y)) d = Some w" "cx_context z = cx_context w"
    obtain z' w' where z': "h b = Some z'" "same_life z' z" and w': "h d = Some w'" "same_life w' w"
      using c bd(1,2) by metis
    show "b = d" by (rule i [OF z'(1) w'(1)]) (use z'(2) w'(2) bd(3) in \<open>simp add: same_life_def\<close>)
  qed
qed

lemma put_ok:
  assumes "engines_ok r s" and "engines_at s a = Some x" and "same_life x y"
  shows "engines_ok r (put_engine a y s)"
proof -
  have "\<exists>b z. ((engines_at s)(a \<mapsto> y)) b = Some z \<and> cx_state z = RUNNING \<and> cx_context z = Some (current s)"
    using assms unfolding engines_ok_def same_life_def by (metis fun_upd_apply option.inject)
  moreover have "dom ((engines_at s)(a \<mapsto> y)) = dom (engines_at s)" using assms(2) by auto
  moreover have "ids_ok (put_engine a y s)"
    using assms living_update [of "engines_at s" a x y] unfolding engines_ok_def ids_ok_def put_engine_def same_life_def by simp
  moreover have "table_ok r ((engines_at s)(a \<mapsto> y))"
    using assms unfolding engines_ok_def by (intro table_ok_update) auto
  ultimately show ?thesis using assms(1) unfolding engines_ok_def by (simp add: put_engine_def)
qed

lemma put_engine_at [simp]: "engines_at (put_engine a x s) = (engines_at s)(a \<mapsto> x)"
  by (simp add: put_engine_def)

lemma engine_error_ok:
  "engines_ok r s \<Longrightarrow> engines_at s a \<noteq> None \<Longrightarrow> \<exists>s'. engine_error a st s = Returns (s', st) \<and> engines_ok r s' \<and>
     engines_at s' a \<noteq> None"
  by (auto simp: engine_error_def same_life_def intro!: put_ok)

section \<open>Deletion\<close>

definition drop_engine :: "addr \<Rightarrow> context_engine \<Rightarrow> engines \<Rightarrow> engines" where
  "drop_engine a x s = s\<lparr>engines_at := (engines_at s)(a := None), env_hooks := remove1 a (env_hooks s),
     alive_engines := alive_engines s - {a}, gone := (a, cx_id x) # gone s\<rparr>"

lemma context_Delete_effect:
  assumes "engines_at s a = Some x" and "cx_parent x = Some p" and "p \<noteq> a" and "engines_at s p \<noteq> None" and "u a = (0, 0)"
  shows "context_Delete u a s = Returns (drop_engine a x s)"
  using assms by (auto simp: context_Delete_def DeconstructCtxEnv_def put_engine_def SetDead_def drop_engine_def)

lemma drop_put: "cx_id y = cx_id x \<Longrightarrow> drop_engine a y (put_engine a z s) = drop_engine a x s"
  by (simp add: drop_engine_def put_engine_def)

lemma drop_ok:
  assumes ok: "engines_ok r s" and x: "engines_at s a = Some x" and "a \<noteq> r" and c: "cx_context x \<noteq> Some (current s)"
  shows "engines_ok r (drop_engine a x s)"
proof -
  have t: "table_ok r (engines_at s)" and i: "ids_ok s" and d: "distinct (env_hooks s)"
    using ok by (simp_all add: engines_ok_def)
  have "(a, cx_id x) \<in> living (engines_at s)" using x by (simp add: living_iff)
  then have "(a, cx_id x) \<notin> set (gone s)" and "(a, cx_id x) \<in> set (made s)" using i unfolding ids_ok_def by blast+
  then have "ids_ok (drop_engine a x s)"
    using i unfolding ids_ok_def drop_engine_def using living_delete [of "engines_at s" a x] x by simp blast
  moreover have "table_ok r ((engines_at s)(a := None))"
    using t \<open>a \<noteq> r\<close> unfolding table_ok_def by (auto split: if_splits)
  moreover have "\<exists>b y. ((engines_at s)(a := None)) b = Some y \<and> cx_state y = RUNNING \<and> cx_context y = Some (current s)"
    using ok x c unfolding engines_ok_def by (metis fun_upd_apply option.inject)
  ultimately show ?thesis
    using ok d unfolding engines_ok_def by (auto simp: drop_engine_def)
qed


section \<open>Construction keeps the invariant\<close>

lemma new_context_effect:
  assumes "engines_at s p = Some y" and "engines_at s a = None"
  shows "new_context p a h s = Returns (s\<lparr>
     engines_at := (engines_at s)(a \<mapsto> (fresh_engine False h (Some p))\<lparr>cx_id := lastEngineId s\<rparr>, p \<mapsto> y\<lparr>cx_multi := True\<rparr>),
     env_hooks := a # env_hooks s, alive_engines := insert a (alive_engines s), lastEngineId := lastEngineId s + 1,
     made := (a, lastEngineId s) # made s\<rparr>)"
proof -
  have "p \<noteq> a" using assms by auto
  then show ?thesis using assms
    by (auto simp: new_context_def SetAlive_def put_engine_def fresh_engine_def fun_upd_twist)
qed

lemma fresh_id:
  assumes "ids_ok s" and "length (made s) < 2 ^ 64 - 1"
  shows "lastEngineId s \<notin> snd ` set (made s)"
proof
  assume "lastEngineId s \<in> snd ` set (made s)"
  then have "lastEngineId s \<in> set (map snd (made s))" by simp
  then have "lastEngineId s \<in> of_nat ` {1..<Suc (length (made s))}"
    using assms(1) unfolding ids_ok_def by (simp only: set_rev set_map set_upt)
  then obtain n where "n < Suc (length (made s))" "(of_nat n :: u64) = of_nat (Suc (length (made s)))"
    using assms(1) unfolding ids_ok_def by auto
  then show False
    using assms(2) word_of_nat_eq_iff [where 'a = 64, of n "Suc (length (made s))"] by (simp add: take_bit_nat_eq_self)
qed

lemma new_context_ok:
  assumes ok: "engines_ok r s" and p: "engines_at s r = Some y" and a: "engines_at s a = None"
    and h: "\<And>b x. engines_at s b = Some x \<Longrightarrow> cx_context x \<noteq> Some h" and n: "length (made s) < 2 ^ 64 - 1"
  shows "\<exists>s'. new_context r a h s = Returns s' \<and> engines_ok r s' \<and> engines_at s' a \<noteq> None \<and> engines_at s' r \<noteq> None"
proof -
  define x where "x = (fresh_engine False h (Some r))\<lparr>cx_id := lastEngineId s\<rparr>"
  define s1 where "s1 = s\<lparr>engines_at := (engines_at s)(a \<mapsto> x), env_hooks := a # env_hooks s,
    alive_engines := insert a (alive_engines s), lastEngineId := lastEngineId s + 1, made := (a, lastEngineId s) # made s\<rparr>"
  have t: "table_ok r (engines_at s)" and i: "ids_ok s" using ok by (simp_all add: engines_ok_def)
  have ra: "r \<noteq> a" using p a by auto
  have living: "living ((engines_at s)(a \<mapsto> x)) = insert (a, lastEngineId s) (living (engines_at s))"
    using a by (auto simp: living_def x_def split: if_splits)
  have "(a, lastEngineId s) \<notin> set (made s)" using fresh_id [OF i n] by force
  then have "(a, lastEngineId s) \<notin> set (gone s)" using i unfolding ids_ok_def by blast
  then have ids: "ids_ok s1" using i n unfolding ids_ok_def s1_def by (simp add: living)
  have table: "table_ok r ((engines_at s)(a \<mapsto> x))"
    unfolding table_ok_def
  proof (intro conjI allI impI)
    show "\<exists>z. ((engines_at s)(a \<mapsto> x)) r = Some z \<and> cx_main z \<and> cx_state z = RUNNING"
      using engines_ok_root [OF ok] ra by simp
  next
    fix b z assume b: "((engines_at s)(a \<mapsto> x)) b = Some z"
    show "cx_context z \<noteq> None" using b t by (cases "b = a") (auto simp: x_def fresh_engine_def table_ok_def)
    assume "b \<noteq> r"
    then show "context_ok r z" using b engines_ok_context [OF ok, of b z]
      by (cases "b = a") (auto simp: x_def fresh_engine_def context_ok_def)
  next
    fix b d z w
    assume "((engines_at s)(a \<mapsto> x)) b = Some z" "((engines_at s)(a \<mapsto> x)) d = Some w" "cx_context z = cx_context w"
    then show "b = d" using t h unfolding table_ok_def
      by (cases "b = a"; cases "d = a") (auto simp: x_def fresh_engine_def, metis+)
  qed
  obtain b z where "engines_at s b = Some z" "cx_state z = RUNNING" "cx_context z = Some (current s)"
    using ok unfolding engines_ok_def by blast
  then have cur: "\<exists>b z. ((engines_at s)(a \<mapsto> x)) b = Some z \<and> cx_state z = RUNNING \<and> cx_context z = Some (current s)"
    using a by (intro exI [of _ b] exI [of _ z]) auto
  have hooks: "distinct (a # env_hooks s)" "set (a # env_hooks s) = dom ((engines_at s)(a \<mapsto> x)) - {r}"
      "insert a (alive_engines s) = dom ((engines_at s)(a \<mapsto> x))"
    using ok a ra unfolding engines_ok_def by auto
  have "engines_ok r s1"
    unfolding engines_ok_def using table ids cur hooks by (simp add: s1_def)
  then have "engines_ok r (put_engine r (y\<lparr>cx_multi := True\<rparr>) s1)"
    by (rule put_ok) (use p ra in \<open>auto simp: s1_def same_life_def\<close>)
  moreover have "new_context r a h s = Returns (put_engine r (y\<lparr>cx_multi := True\<rparr>) s1)"
    using new_context_effect [OF p a] by (simp add: put_engine_def s1_def x_def)
  ultimately show ?thesis by (auto simp: put_engine_def s1_def)
qed


section \<open>Every call keeps the invariant\<close>

lemma engine_preamble_ok:
  assumes ok: "engines_ok r s" and env: "case env of None \<Rightarrow> True | Some a \<Rightarrow> engines_at s a \<noteq> None"
    and rest: "\<And>a x s1. env = Some a \<Longrightarrow> engines_at s a = Some x \<Longrightarrow> \<not> cx_exception x \<Longrightarrow>
      s1 = put_engine a (x\<lparr>cx_error := napi_ok\<rparr>) s \<Longrightarrow> engines_ok r s1 \<Longrightarrow> \<exists>s2. fst_of (rest a s1) = Returns s2 \<and> engines_ok r s2"
  shows "\<exists>s2. fst_of (engine_preamble env rest s) = Returns s2 \<and> engines_ok r s2"
proof (cases env)
  case (Some a)
  then obtain x where x: "engines_at s a = Some x" using env by auto
  show ?thesis
  proof (cases "cx_exception x")
    case True
    then show ?thesis using engine_error_ok [OF ok, of a napi_pending_exception] Some x
      by (auto simp: engine_preamble_def fst_of_def)
  next
    case False
    have "engines_ok r (put_engine a (x\<lparr>cx_error := napi_ok\<rparr>) s)"
      by (rule put_ok [OF ok x]) (simp add: same_life_def)
    then show ?thesis using rest [OF Some x False refl] False Some x by (simp add: engine_preamble_def)
  qed
qed (use ok in \<open>simp add: engine_preamble_def\<close>)

lemma failing_ok:
  assumes "engines_ok r s" and "engines_at s a \<noteq> None"
  shows "\<exists>s'. failing a st s = Returns (s', st, None) \<and> engines_ok r s' \<and> engines_at s' a \<noteq> None"
  using engine_error_ok [OF assms, of st] by (auto simp: failing_def)

lemma end_preamble_ok:
  assumes "engines_ok r s" and "engines_at s a \<noteq> None"
  shows "\<exists>s'. fst_of (end_preamble a caught (s, q)) = Returns s' \<and> engines_ok r s'"
proof -
  obtain x where x: "engines_at s a = Some x" using assms(2) by auto
  have "engines_ok r (put_engine a (x\<lparr>cx_exception := True\<rparr>) s)"
    by (rule put_ok [OF assms(1) x]) (simp add: same_life_def)
  then show ?thesis using x assms(1) by (simp add: end_preamble_def)
qed

lemma fst_of_obind: "fst_of (obind m f) = obind m (\<lambda>x. fst_of (f x))"
  by (simp add: fst_of_def obind_assoc)

lemma failing_fst:
  assumes "engines_ok r s" and "engines_at s a \<noteq> None"
  shows "\<exists>s'. fst_of (failing a st s :: (napi_status \<times> 'o option) engine_result) = Returns s' \<and> engines_ok r s'"
proof -
  obtain s' where "engine_error a st s = Returns (s', st)" "engines_ok r s'" using engine_error_ok [OF assms] by blast
  then show ?thesis by (simp add: failing_def)
qed

lemma create_step:
  assumes ok: "engines_ok r s" and allowed: "engine_allowed (CreateContext env newEnv v b) s"
  shows "\<exists>s'. exec_engine (CreateContext env newEnv v b) s = Returns s' \<and> engines_ok r s'"
  unfolding exec_engine.simps napi_create_ark_context_def
proof (rule engine_preamble_ok [OF ok])
  show "case env of None \<Rightarrow> True | Some a \<Rightarrow> engines_at s a \<noteq> None" using allowed by simp
next
  fix a x s1 assume a: "env = Some a" and x: "engines_at s a = Some x"
    and s1: "s1 = put_engine a (x\<lparr>cx_error := napi_ok\<rparr>) s" and ok1: "engines_ok r s1"
  have x1: "engines_at s1 a = Some (x\<lparr>cx_error := napi_ok\<rparr>)" by (simp add: s1 put_engine_def)
  have fail: "\<exists>s2 q. failing a st s1 = Returns (s2, q) \<and> engines_ok r s2 \<and> engines_at s2 a \<noteq> None" for st
    using failing_ok [OF ok1, of a st] x1 by auto
  let ?body = "if newEnv = None then failing a napi_invalid_arg s1
            else deref (engines_at s1 a) (\<lambda>x.
              if \<not> cx_main x then failing a napi_invalid_arg s1
              else if \<not> True then Aborts
              else case made_context v of
                None \<Rightarrow> failing a napi_generic_failure s1
              | Some h \<Rightarrow>
                  if \<not> is_global_env v then failing a napi_generic_failure s1
                  else obind (New (Some a) True (is_global_env v) b h s1) (\<lambda>(s, b).
                    if caught_exception v
                    then obind (engine_error a napi_pending_exception s) (\<lambda>(s, st). Returns (s, st, Some b))
                    else Returns (s, napi_ok, Some b)))"
  have "\<exists>s2 q. ?body = Returns (s2, q) \<and> engines_ok r s2 \<and> engines_at s2 a \<noteq> None"
  proof (cases "newEnv = None \<or> \<not> cx_main x \<or> made_context v = None \<or> \<not> is_global_env v")
    case True
    then show ?thesis using fail [of napi_invalid_arg] fail [of napi_generic_failure]
      by (cases "made_context v") (auto simp: x1)
  next
    case False
    then obtain h where h: "made_context v = Some h" by auto
    have ar: "a = r" using main_is_root [OF ok x] False by simp
    have b1: "engines_at s1 b = None" using allowed x a by (auto simp: s1 put_engine_def)
    have h1: "\<And>d y. engines_at s1 d = Some y \<Longrightarrow> cx_context y \<noteq> Some h"
      using allowed a x h by (auto simp: s1 put_engine_def split: if_splits)
    have n1: "length (made s1) < 2 ^ 64 - 1" using allowed by (simp add: s1 put_engine_def)
    have "engines_at s1 r = Some (x\<lparr>cx_error := napi_ok\<rparr>)" using x1 ar by simp
    then have "\<exists>s2. new_context r b h s1 = Returns s2 \<and> engines_ok r s2 \<and> engines_at s2 b \<noteq> None \<and> engines_at s2 r \<noteq> None"
      by (rule new_context_ok [OF ok1 _ b1 _ n1]) (rule h1)
    then obtain s2 where s2: "new_context r b h s1 = Returns s2" "engines_ok r s2" "engines_at s2 r \<noteq> None" by blast
    have "New (Some a) True (is_global_env v) b h s1 = Returns (s2, b)"
      using s2(1) x1 ar False by (simp add: New_def)
    moreover obtain s3 where "engine_error r napi_pending_exception s2 = Returns (s3, napi_pending_exception)"
        "engines_ok r s3" "engines_at s3 r \<noteq> None"
      using engine_error_ok [OF s2(2,3), of napi_pending_exception] s2(3) by auto
    ultimately show ?thesis using False h x1 ar s2(2,3) by simp
  qed
  then show "\<exists>s2. fst_of (obind ?body (end_preamble a (caught_exception v))) = Returns s2 \<and> engines_ok r s2"
    using end_preamble_ok by (fastforce simp: fst_of_obind)
qed


lemma ready_iff: "context_ok r x \<Longrightarrow> context_IsReadyToDelete x \<longleftrightarrow> cx_state x = STOPPED \<and> cx_refs x = 0"
  by (simp add: context_ok_def context_IsReadyToDelete_def)

lemma delete_ok:
  assumes ok: "engines_ok r s" and x: "engines_at s a = Some x" and ar: "a \<noteq> r" and c: "cx_context x \<noteq> Some (current s)"
    and y: "cx_id y = cx_id x" "cx_parent y = cx_parent x" and u: "u a = (0, 0)"
  shows "context_Delete u a (put_engine a y s) = Returns (drop_engine a x s)" and "engines_ok r (drop_engine a x s)"
proof -
  have "cx_parent y = Some r" using engines_ok_context [OF ok x ar] y by (simp add: context_ok_def)
  moreover have "engines_at s r \<noteq> None" using engines_ok_root [OF ok] by auto
  ultimately have "context_Delete u a (put_engine a y s) = Returns (drop_engine a y (put_engine a y s))"
    using ar u by (intro context_Delete_effect [of _ _ _ r]) auto
  then show "context_Delete u a (put_engine a y s) = Returns (drop_engine a x s)"
    by (simp add: drop_put [OF y(1)])
  show "engines_ok r (drop_engine a x s)" by (rule drop_ok [OF ok x ar c])
qed

lemma stopped_not_current:
  assumes ok: "engines_ok r s" and x: "engines_at s a = Some x" and "cx_state x = STOPPED"
  shows "cx_context x \<noteq> Some (current s)"
proof
  assume c: "cx_context x = Some (current s)"
  obtain b z where b: "engines_at s b = Some z" "cx_state z = RUNNING" "cx_context z = Some (current s)"
    using ok unfolding engines_ok_def by blast
  have "table_ok r (engines_at s)" using ok by (simp add: engines_ok_def)
  then have "a = b" using x b c unfolding table_ok_def by metis
  then show False using x b assms(3) by simp
qed

lemma switch_step:
  assumes ok: "engines_ok r s" and allowed: "engine_allowed (SwitchTo env answer) s"
  shows "\<exists>s'. exec_engine (SwitchTo env answer) s = Returns s' \<and> engines_ok r s'"
  unfolding exec_engine.simps napi_switch_ark_context_def
proof (rule engine_preamble_ok [OF ok])
  show "case env of None \<Rightarrow> True | Some a \<Rightarrow> engines_at s a \<noteq> None"
    using allowed by (auto split: option.splits)
next
  fix a x s1 assume a: "env = Some a" and x: "engines_at s a = Some x"
    and s1: "s1 = put_engine a (x\<lparr>cx_error := napi_ok\<rparr>) s" and ok1: "engines_ok r s1"
  have x1: "engines_at s1 a = Some (x\<lparr>cx_error := napi_ok\<rparr>)" by (simp add: s1)
  obtain h where h: "cx_context x = Some h" using engines_ok_handle [OF ok x] by blast
  have fail: "\<exists>s2. fst_of (failing a st s1 :: (napi_status \<times> unit option) engine_result) = Returns s2 \<and> engines_ok r s2" for st
    by (rule failing_fst [OF ok1]) (simp add: x1)
  have sw: "engines_ok r (s1\<lparr>current := h\<rparr>)" if "answer = SWITCHED"
  proof -
    have "cx_state x = RUNNING" using allowed a x that by simp
    then have "\<exists>b y. engines_at s1 b = Some y \<and> cx_state y = RUNNING \<and> cx_context y = Some h"
      using x1 h by (intro exI [of _ a] exI [of _ "x\<lparr>cx_error := napi_ok\<rparr>"]) simp
    then show ?thesis using ok1 by (simp add: engines_ok_def ids_ok_def)
  qed
  show "\<exists>s2. fst_of (if \<not> True then Aborts
     else obind (SwitchContext answer a s1) (\<lambda>(s, status).
       if status \<noteq> napi_ok then failing a status s else Returns (s, napi_ok, None :: unit option))) = Returns s2 \<and> engines_ok r s2"
    using sw fail [of napi_pending_exception] fail [of napi_generic_failure]
    by (cases answer) (simp_all add: SwitchContext_def x1 h)
qed

lemma context_Destroy_ok:
  assumes ok: "engines_ok r s" and x: "engines_at s a = Some x" and u: "cx_refs x = 0 \<longrightarrow> u a = (0, 0)"
  shows "\<exists>s' st. context_Destroy u a s = Returns (s', st) \<and> engines_ok r s' \<and> (st \<noteq> napi_ok \<longrightarrow> s' = s)"
proof (cases "cx_state x \<noteq> RUNNING \<or> cx_main x \<or> cx_context x = Some (current s)")
  case True
  then show ?thesis using ok x by (auto simp: context_Destroy_def)
next
  case False
  then have ar: "a \<noteq> r" using main_is_root [OF ok x] by simp
  show ?thesis
  proof (cases "cx_refs x = 0")
    case True
    then show ?thesis
      using delete_ok [OF ok x ar, of "x\<lparr>cx_state := STOPPED\<rparr>" u] False u x by (simp add: context_Destroy_def)
  next
    case refs: False
    have cx: "context_ok r (x\<lparr>cx_state := STOPPED\<rparr>)"
      using engines_ok_context [OF ok x ar] refs by (simp add: context_ok_def)
    let ?h = "(engines_at s)(a \<mapsto> x\<lparr>cx_state := STOPPED\<rparr>)"
    have t: "table_ok r (engines_at s)" using ok by (simp add: engines_ok_def)
    have c: "\<forall>b z. ?h b = Some z \<longrightarrow> (\<exists>w. engines_at s b = Some w \<and> cx_context w = cx_context z)" using x by simp
    have "table_ok r ?h"
      unfolding table_ok_def
    proof (intro conjI allI impI)
      show "\<exists>z. ?h r = Some z \<and> cx_main z \<and> cx_state z = RUNNING" using engines_ok_root [OF ok] ar by simp
    next
      fix b z assume b: "?h b = Some z"
      then show "cx_context z \<noteq> None" using c t unfolding table_ok_def by metis
      assume "b \<noteq> r"
      then show "context_ok r z" using b cx engines_ok_context [OF ok, of b z] by (cases "b = a") auto
    next
      fix b d z w assume "?h b = Some z" "?h d = Some w" "cx_context z = cx_context w"
      then show "b = d" using c t unfolding table_ok_def by metis
    qed
    moreover have "\<exists>b z. ?h b = Some z \<and> cx_state z = RUNNING \<and> cx_context z = Some (current s)"
      using ok x False unfolding engines_ok_def by (metis fun_upd_apply option.inject)
    moreover have "dom ?h = dom (engines_at s)" using x by auto
    ultimately have "engines_ok r (put_engine a (x\<lparr>cx_state := STOPPED\<rparr>) s)"
      using ok living_update [of "engines_at s" a x "x\<lparr>cx_state := STOPPED\<rparr>"] x
      unfolding engines_ok_def ids_ok_def by (simp add: put_engine_def)
    then show ?thesis using False refs x by (simp add: context_Destroy_def)
  qed
qed

lemma destroy_step:
  assumes ok: "engines_ok r s" and allowed: "engine_allowed (DestroyContextOf u env pending) s"
  shows "\<exists>s'. exec_engine (DestroyContextOf u env pending) s = Returns s' \<and> engines_ok r s'"
proof (cases env)
  case (Some a)
  then obtain x where x: "engines_at s a = Some x" and u: "cx_refs x = 0 \<longrightarrow> u a = (0, 0)"
    using allowed by (auto split: option.splits)
  show ?thesis
  proof (cases "cx_exception x \<or> pending")
    case True
    have "engines_ok r (put_engine a (x\<lparr>cx_exception := pending\<rparr>) s)"
      by (rule put_ok [OF ok x]) (simp add: same_life_def)
    then have "\<exists>s'. fst_of (failing a napi_pending_exception (put_engine a (x\<lparr>cx_exception := pending\<rparr>) s)
        :: (napi_status \<times> unit option) engine_result) = Returns s' \<and> engines_ok r s'"
      by (rule failing_fst) simp
    then show ?thesis using True Some x by (simp add: napi_destroy_ark_context_def)
  next
    case False
    obtain s' st where d: "context_Destroy u a s = Returns (s', st)" "engines_ok r s'" "st \<noteq> napi_ok \<longrightarrow> s' = s"
      using context_Destroy_ok [of r s a x u, OF ok x u] by blast
    have "\<exists>s'. fst_of (failing a st s :: (napi_status \<times> unit option) engine_result) = Returns s' \<and> engines_ok r s'"
      by (rule failing_fst [OF ok]) (simp add: x)
    then show ?thesis using d False Some x by (cases "st = napi_ok") (simp_all add: napi_destroy_ark_context_def)
  qed
qed (use ok in \<open>simp add: napi_destroy_ark_context_def\<close>)

lemma ref_collected_step:
  assumes ok: "engines_ok r s" and allowed: "engine_allowed (RefCollected u a) s"
  shows "\<exists>s'. exec_engine (RefCollected u a) s = Returns s' \<and> engines_ok r s'"
proof -
  obtain x where x: "engines_at s a = Some x" and p: "0 < cx_refs x" and u: "cx_refs x = 1 \<longrightarrow> u a = (0, 0)"
    using allowed by (auto split: option.splits)
  let ?y = "x\<lparr>cx_refs := cx_refs x - 1\<rparr>"
  show ?thesis
  proof (cases "context_IsReadyToDelete ?y")
    case True
    then have "\<not> cx_main x" "cx_state x = STOPPED" "cx_refs x = 1"
      using p by (auto simp: context_IsReadyToDelete_def)
    then show ?thesis
      using True x u main_is_root [OF ok x] stopped_not_current [OF ok x] delete_ok [OF ok x, of ?y u]
      by (simp add: ref_collected_def)
  next
    case False
    then have "same_life x ?y" if "a \<noteq> r"
      using engines_ok_context [OF ok x that] p by (auto simp: same_life_def context_ok_def context_IsReadyToDelete_def)
    moreover have "same_life x ?y" if "a = r" using engines_ok_root [OF ok] that x by (simp add: same_life_def)
    ultimately show ?thesis using put_ok [OF ok x, of ?y] x False by (auto simp: ref_collected_def)
  qed
qed

lemma engine_step:
  assumes ok: "\<exists>r. engines_ok r s" and allowed: "engine_allowed op s"
  shows "\<exists>s'. exec_engine op s = Returns s' \<and> (\<exists>r. engines_ok r s')"
proof -
  obtain r where r: "engines_ok r s" using ok by blast
  have "\<exists>s'. exec_engine op s = Returns s' \<and> engines_ok r s'"
  proof (cases op)
    case (CreateContext env newEnv v b)
    then show ?thesis using create_step [OF r] allowed by simp
  next
    case (SwitchTo env answer)
    then show ?thesis using switch_step [OF r] allowed by simp
  next
    case (DestroyContextOf u env pending)
    then show ?thesis using destroy_step [OF r] allowed by simp
  next
    case (RefMade a)
    then obtain x where x: "engines_at s a = Some x" using allowed by auto
    have "engines_ok r (put_engine a (x\<lparr>cx_refs := cx_refs x + 1\<rparr>) s)" by (rule put_ok [OF r x]) (simp add: same_life_def)
    then show ?thesis using RefMade x r by (simp add: ref_made_def)
  next
    case (RefCollected u a)
    then show ?thesis using ref_collected_step [OF r] allowed by simp
  next
    case (Counters a w t)
    then obtain x where x: "engines_at s a = Some x" using allowed by auto
    have "engines_ok r (put_engine a (x\<lparr>cx_waiting := w, cx_tsfns := t\<rparr>) s)" by (rule put_ok [OF r x]) (simp add: same_life_def)
    then show ?thesis using Counters x by simp
  next
    case (Exception a e)
    then obtain x where x: "engines_at s a = Some x" using allowed by auto
    have "engines_ok r (put_engine a (x\<lparr>cx_exception := e\<rparr>) s)" by (rule put_ok [OF r x]) (simp add: same_life_def)
    then show ?thesis using Exception x by simp
  qed
  then show ?thesis by blast
qed


text \<open>The first engine of the process is a root.\<close>

definition no_engines :: engines where
  "no_engines = \<lparr>engines_at = Map.empty, env_hooks = [], current = 0, alive_engines = {}, lastEngineId = 1, made = [], gone = []\<rparr>"

definition booted :: engines where
  "booted = (case new_root 0 0 no_engines of Returns s \<Rightarrow> s | _ \<Rightarrow> no_engines)"

lemma booted_ok: "engines_ok 0 booted"
  by (simp add: engines_ok_def booted_def new_root_def SetAlive_def no_engines_def fresh_engine_def put_engine_def table_ok_def
      ids_ok_def living_def set_eq_iff)

interpretation engines: guarded_machine exec_engine engine_allowed "\<lambda>s. \<exists>r. engines_ok r s" booted
  by unfold_locales (use booted_ok engine_step in auto)

section \<open>Taking the root down\<close>

lemma run_env_hooks_effect:
  assumes "distinct as" and "set as \<subseteq> dom (engines_at s) - {r}" and "\<And>a. u a = (0, 0)" and "engines_at s r \<noteq> None"
    and "\<And>a x. engines_at s a = Some x \<Longrightarrow> a \<noteq> r \<Longrightarrow> cx_parent x = Some r" and "env_hooks s = as @ hs" and "set as \<inter> set hs = {}"
  shows "run_env_hooks u as s = Returns (s\<lparr>engines_at := engines_at s |` (- set as), env_hooks := hs,
     alive_engines := alive_engines s - set as, gone := rev (map (\<lambda>a. (a, cx_id (the (engines_at s a)))) as) @ gone s\<rparr>)"
  using assms
proof (induction as arbitrary: s)
  case (Cons a as)
  then obtain x where x: "engines_at s a = Some x" and ar: "a \<noteq> r" by auto
  then have d: "context_Delete u a s = Returns (drop_engine a x s)"
    using Cons.prems(5) [OF x ar] Cons.prems(3,4) by (intro context_Delete_effect [of _ _ _ r]) auto
  let ?s = "(drop_engine a x s)\<lparr>env_hooks := remove1 a (env_hooks (drop_engine a x s))\<rparr>"
  have h: "env_hooks ?s = as @ hs" using Cons.prems(1,6,7) by (simp add: drop_engine_def remove1_idem)
  have "run_env_hooks u as ?s = Returns (?s\<lparr>engines_at := engines_at ?s |` (- set as), env_hooks := hs,
     alive_engines := alive_engines ?s - set as, gone := rev (map (\<lambda>a. (a, cx_id (the (engines_at ?s a)))) as) @ gone ?s\<rparr>)"
    using Cons.prems x ar h by (intro Cons.IH) (auto simp: drop_engine_def split: if_splits)
  moreover have "engines_at ?s |` (- set as) = engines_at s |` (- set (a # as))"
    by (auto simp: drop_engine_def restrict_map_def)
  moreover have "map (\<lambda>b. (b, cx_id (the (engines_at ?s b)))) as = map (\<lambda>b. (b, cx_id (the (engines_at s b)))) as"
    using Cons.prems(1) by (auto simp: drop_engine_def)
  moreover have "alive_engines ?s - set as = alive_engines s - set (a # as)" by (auto simp: drop_engine_def)
  moreover have "gone ?s = (a, cx_id x) # gone s" by (simp add: drop_engine_def)
  ultimately have "run_env_hooks u as ?s = Returns (?s\<lparr>engines_at := engines_at s |` (- set (a # as)), env_hooks := hs,
     alive_engines := alive_engines s - set (a # as),
     gone := rev (map (\<lambda>a. (a, cx_id (the (engines_at s a)))) (a # as)) @ gone s\<rparr>)" using x by simp
  moreover have "run_env_hooks u (a # as) s = run_env_hooks u as ?s" using d Cons.prems(6) by simp
  ultimately show ?case by (simp add: drop_engine_def)
next
  case Nil
  then show ?case by (cases s) (auto simp: restrict_map_def)
qed

lemma delete_root_effect:
  assumes ok: "engines_ok r s" and u: "\<And>a. u a = (0, 0)"
  shows "\<exists>x. engines_at s r = Some x \<and> delete_root u r s = Some (Returns (s\<lparr>engines_at := Map.empty, env_hooks := [],
     alive_engines := {}, gone := (r, cx_id x) # rev (map (\<lambda>a. (a, cx_id (the (engines_at s a)))) (env_hooks s)) @ gone s\<rparr>))"
proof -
  obtain x where x: "engines_at s r = Some x" using engines_ok_root [OF ok] by blast
  let ?s = "put_engine r (x\<lparr>cx_state := RELEASING\<rparr>) s"
  let ?hs = "env_hooks s"
  have hs: "set ?hs = dom (engines_at s) - {r}" "distinct ?hs" "alive_engines s = dom (engines_at s)"
    using ok by (simp_all add: engines_ok_def)
  have hooks: "env_hooks ?s = ?hs" by (simp add: put_engine_def)
  have "run_env_hooks u ?hs ?s = Returns (?s\<lparr>engines_at := engines_at ?s |` (- set ?hs), env_hooks := [],
     alive_engines := alive_engines ?s - set ?hs, gone := rev (map (\<lambda>a. (a, cx_id (the (engines_at ?s a)))) ?hs) @ gone ?s\<rparr>)"
  proof (rule run_env_hooks_effect [where r = r])
    show "set ?hs \<subseteq> dom (engines_at ?s) - {r}" using hs by auto
    show "cx_parent y = Some r" if "engines_at ?s a = Some y" "a \<noteq> r" for a y
      using engines_ok_context [OF ok, of a y] that by (simp add: context_ok_def)
  qed (use hs u hooks in auto)
  then have run: "RunEnvHooks u ?s = Some (Returns (?s\<lparr>engines_at := engines_at ?s |` (- set ?hs), env_hooks := [],
     alive_engines := alive_engines ?s - set ?hs, gone := rev (map (\<lambda>a. (a, cx_id (the (engines_at ?s a)))) ?hs) @ gone ?s\<rparr>))"
    by (cases "?hs = []") (simp_all add: RunEnvHooks.simps hooks)
  have "(engines_at ?s |` (- set ?hs))(r := None) = Map.empty"
    using hs(1) x by (auto simp: restrict_map_def fun_eq_iff)
  moreover have "alive_engines ?s - set ?hs - {r} = {}" using hs by (auto simp: put_engine_def)
  moreover have "map (\<lambda>a. (a, cx_id (the (engines_at ?s a)))) ?hs = map (\<lambda>a. (a, cx_id (the (engines_at s a)))) ?hs"
    using hs(1) by auto
  ultimately show ?thesis
    using run x by (auto simp: delete_root_def SetDead_def put_engine_def)
qed


section \<open>Properties\<close>

text \<open>An engine that was constructed is in memory until it is destructed, and its address and identifier name no other.\<close>

lemma made_unique:
  assumes ok: "engines_ok r s" and "(a, i) \<in> set (made s)" and "(b, i) \<in> set (made s)"
  shows "a = b"
proof -
  have "inj_on (of_nat :: nat \<Rightarrow> u64) {1..<Suc (length (made s))}"
    using ok unfolding engines_ok_def ids_ok_def by (intro inj_onI) (simp add: word_of_nat_eq_iff take_bit_nat_eq_self)
  then have "distinct (map snd (made s))"
    using ok unfolding engines_ok_def ids_ok_def by (simp add: distinct_map del: upt_Suc)
  then show ?thesis using assms(2,3) by (fastforce simp: distinct_map inj_on_def)
qed

text \<open>
  C3: the life of a context.  In every run in which environments are used while they live, contexts that were destroyed are
  not switched to, and nothing is deleted with work in flight, no operation reads freed memory or ends the process.  There
  is one root; a living context is running, or destroyed and kept by a reference of the runtime; the clean-up hooks of the
  root are exactly the living contexts, and the VM runs a context that was not destroyed.  No engine is destructed twice.
\<close>

theorem contexts_lifecycle:
  assumes "all_allowed engine_allowed exec_engine ops booted"
  shows "\<exists>s r. run_all exec_engine ops booted = Returns s \<and>
    (\<exists>x. engines_at s r = Some x \<and> cx_main x \<and> cx_state x = RUNNING) \<and>
    (\<forall>a x. a \<noteq> r \<longrightarrow> engines_at s a = Some x \<longrightarrow> \<not> cx_main x \<and> (cx_state x = RUNNING \<or> cx_state x = STOPPED \<and> 0 < cx_refs x)) \<and>
    distinct (env_hooks s) \<and> set (env_hooks s) = dom (engines_at s) - {r} \<and>
    (\<exists>a x. engines_at s a = Some x \<and> cx_state x = RUNNING \<and> cx_context x = Some (current s)) \<and> distinct (gone s)"
proof -
  obtain s r where s: "run_all exec_engine ops booted = Returns s" and ok: "engines_ok r s"
    using engines.never_faults [OF assms] by blast
  then show ?thesis
    using engines_ok_root [OF ok] engines_ok_context [OF ok]
    by (intro exI [of _ s] exI [of _ r]) (auto simp: engines_ok_def ids_ok_def context_ok_def)
qed

text \<open>A context that is made, gets a reference, is destroyed and collected, between two switches.\<close>

definition engines_demo :: "engine_op list" where
  "engines_demo =
     [CreateContext (Some 0) (Some ()) \<lparr>made_context = Some 5, is_global_env = True, caught_exception = False\<rparr> 7,
      SwitchTo (Some 7) SWITCHED, RefMade 7, DestroyContextOf (\<lambda>_. (0, 0)) (Some 7) False, SwitchTo (Some 0) SWITCHED,
      DestroyContextOf (\<lambda>_. (0, 0)) (Some 7) False, Counters 0 1 0, RefCollected (\<lambda>_. (0, 0)) 7,
      CreateContext (Some 0) (Some ()) \<lparr>made_context = Some 6, is_global_env = True, caught_exception = False\<rparr> 7]"

lemmas engine_defs = napi_create_ark_context_def napi_switch_ark_context_def napi_destroy_ark_context_def engine_preamble_def
  failing_def engine_error_def end_preamble_def New_def new_context_def SetAlive_def fresh_engine_def SwitchContext_def
  context_Destroy_def context_Delete_def DeconstructCtxEnv_def SetDead_def ref_made_def ref_collected_def
  context_IsReadyToDelete_def put_engine_def booted_def new_root_def no_engines_def

lemma engines_demo_allowed: "all_allowed engine_allowed exec_engine engines_demo booted"
  by (simp add: engines_demo_def engine_defs)

theorem contexts_lifecycle_witness:
  "\<exists>s r. run_all exec_engine engines_demo booted = Returns s \<and>
    (\<exists>x. engines_at s r = Some x \<and> cx_main x \<and> cx_state x = RUNNING) \<and>
    (\<forall>a x. a \<noteq> r \<longrightarrow> engines_at s a = Some x \<longrightarrow> \<not> cx_main x \<and> (cx_state x = RUNNING \<or> cx_state x = STOPPED \<and> 0 < cx_refs x)) \<and>
    distinct (env_hooks s) \<and> set (env_hooks s) = dom (engines_at s) - {r} \<and>
    (\<exists>a x. engines_at s a = Some x \<and> cx_state x = RUNNING \<and> cx_context x = Some (current s)) \<and> distinct (gone s)"
  by (rule contexts_lifecycle [OF engines_demo_allowed])

text \<open>
  C7: the check of an engine.  For every engine that was ever made, the check with its address and its identifier against an
  engine in memory succeeds exactly when this is the same engine and it was not destructed: a new engine at the address of
  an old one is told apart, and no two engines have one identifier.
\<close>

theorem engine_check_exact:
  assumes "all_allowed engine_allowed exec_engine ops booted" and "run_all exec_engine ops booted = Returns s"
    and "(a, i) \<in> set (made s)" and "engines_at s b \<noteq> None"
  shows "EngineIdentityCheck b a i s = Returns (b = a \<and> (a, i) \<notin> set (gone s)) \<and> (\<forall>c. (c, i) \<in> set (made s) \<longrightarrow> c = a)"
proof -
  obtain r where ok: "engines_ok r s" using engines.reached_inv [OF assms(1,2)] by blast
  obtain x where x: "engines_at s b = Some x" using assms(4) by auto
  have "(b, cx_id x) \<in> living (engines_at s)" using x by (simp add: living_iff)
  then have l: "(b, cx_id x) \<in> set (made s)" "(b, cx_id x) \<notin> set (gone s)"
    using ok unfolding engines_ok_def ids_ok_def by blast+
  have "i = cx_id x" if "b = a" "(a, i) \<notin> set (gone s)"
    using assms(3) that x ok unfolding engines_ok_def ids_ok_def by (auto simp: living_iff)
  then have "EngineIdentityCheck b a i s = Returns (b = a \<and> (a, i) \<notin> set (gone s))" using x l by (auto simp: EngineIdentityCheck_def)
  then show ?thesis using made_unique [OF ok _ assms(3)] by blast
qed

lemma engines_demo_end:
  "\<exists>s. run_all exec_engine engines_demo booted = Returns s \<and> (7, 2) \<in> set (made s) \<and> (7, 2) \<in> set (gone s) \<and> engines_at s 7 \<noteq> None"
  by (simp add: engines_demo_def engine_defs)

theorem engine_check_exact_witness:
  "\<exists>s. run_all exec_engine engines_demo booted = Returns s \<and> EngineIdentityCheck 7 7 2 s = Returns False"
proof -
  obtain s where s: "run_all exec_engine engines_demo booted = Returns s" "(7, 2) \<in> set (made s)" "(7, 2) \<in> set (gone s)"
      "engines_at s 7 \<noteq> None"
    using engines_demo_end by blast
  have "EngineIdentityCheck 7 7 2 s = Returns False"
    using conjunct1 [OF engine_check_exact [OF engines_demo_allowed s(1,2,4)]] s(3) by (simp only: simp_thms)
  with s(1) show ?thesis by (intro exI [of _ s] conjI)
qed


lemma collect_refs_stopped:
  assumes "engines_at s a = Some x" and "cx_state x = STOPPED" and "\<not> cx_main x" and "cx_parent x = Some p" and "p \<noteq> a"
    and "engines_at s p \<noteq> None" and "k \<le> cx_refs x" and "0 < cx_refs x" and "u a = (0, 0)"
  shows "\<exists>s'. run_all exec_engine (replicate k (RefCollected u a)) s = Returns s' \<and> (engines_at s' a = None \<longleftrightarrow> k = cx_refs x)"
  using assms
proof (induction k arbitrary: s x)
  case (Suc k)
  let ?y = "x\<lparr>cx_refs := cx_refs x - 1\<rparr>"
  show ?case
  proof (cases "cx_refs x = 1")
    case True
    then have "ref_collected u a s = Returns (drop_engine a ?y (put_engine a ?y s))"
      using Suc.prems by (auto simp: ref_collected_def context_IsReadyToDelete_def intro!: context_Delete_effect [of _ _ _ p])
    moreover have "k = 0" using True Suc.prems(7) by simp
    ultimately show ?thesis using True by (simp add: drop_engine_def)
  next
    case False
    then have c: "ref_collected u a s = Returns (put_engine a ?y s)"
      using Suc.prems by (auto simp: ref_collected_def context_IsReadyToDelete_def)
    have "0 < cx_refs ?y" and "k \<le> cx_refs ?y" using Suc.prems(7,8) False by auto
    then have "\<exists>s'. run_all exec_engine (replicate k (RefCollected u a)) (put_engine a ?y s) = Returns s' \<and>
        (engines_at s' a = None \<longleftrightarrow> k = cx_refs ?y)"
      using Suc.prems by (intro Suc.IH) simp_all
    moreover have "k = cx_refs ?y \<longleftrightarrow> Suc k = cx_refs x" using Suc.prems(8) by auto
    ultimately show ?thesis using c by simp
  qed
qed auto

text \<open>
  The end of a context.  Destroying a running context that is not the current one succeeds; it is deleted at once when
  the runtime owns no reference of it, and otherwise exactly when the last of them is collected, provided that hooks and
  finalizers leave no work.
\<close>

theorem destroyed_with_last_reference:
  assumes "all_allowed engine_allowed exec_engine ops booted" and "run_all exec_engine ops booted = Returns s"
    and "engines_at s a = Some x" and "\<not> cx_main x" and "cx_state x = RUNNING" and "cx_context x \<noteq> Some (current s)"
    and "\<not> cx_exception x" and "u a = (0, 0)" and "k \<le> cx_refs x"
  shows "\<exists>s1 s2. napi_destroy_ark_context u (Some a) True False s = Returns (s1, napi_ok, None) \<and>
    run_all exec_engine (replicate k (RefCollected u a)) s1 = Returns s2 \<and> (engines_at s2 a = None \<longleftrightarrow> k = cx_refs x)"
proof -
  obtain r where ok: "engines_ok r s" using engines.reached_inv [OF assms(1,2)] by blast
  have ar: "a \<noteq> r" using main_is_root [OF ok assms(3)] assms(4) by simp
  have p: "cx_parent x = Some r" using engines_ok_context [OF ok assms(3) ar] by (simp add: context_ok_def)
  let ?y = "x\<lparr>cx_state := STOPPED\<rparr>"
  show ?thesis
  proof (cases "cx_refs x = 0")
    case True
    then have "context_Destroy u a s = Returns (drop_engine a x s, napi_ok)"
      using assms delete_ok(1) [OF ok assms(3) ar assms(6), of ?y u] by (simp add: context_Destroy_def)
    then show ?thesis using assms True by (simp add: napi_destroy_ark_context_def drop_engine_def)
  next
    case False
    have "\<exists>s2. run_all exec_engine (replicate k (RefCollected u a)) (put_engine a ?y s) = Returns s2 \<and>
        (engines_at s2 a = None \<longleftrightarrow> k = cx_refs ?y)"
      by (rule collect_refs_stopped [of _ _ _ r]) (use assms False p ar engines_ok_root [OF ok] in auto)
    moreover have "context_Destroy u a s = Returns (put_engine a ?y s, napi_ok)"
      using assms False by (simp add: context_Destroy_def)
    ultimately show ?thesis using assms by (simp add: napi_destroy_ark_context_def)
  qed
qed

definition two_refs_demo :: "engine_op list" where
  "two_refs_demo =
     [CreateContext (Some 0) (Some ()) \<lparr>made_context = Some 5, is_global_env = True, caught_exception = False\<rparr> 7, RefMade 7, RefMade 7]"

lemma two_refs_demo_allowed: "all_allowed engine_allowed exec_engine two_refs_demo booted"
  by (simp add: two_refs_demo_def engine_defs)

lemma two_refs_demo_end:
  "\<exists>s x. run_all exec_engine two_refs_demo booted = Returns s \<and> engines_at s 7 = Some x \<and> \<not> cx_main x \<and> cx_state x = RUNNING \<and>
    cx_context x \<noteq> Some (current s) \<and> \<not> cx_exception x \<and> cx_refs x = 2"
  by (simp add: two_refs_demo_def engine_defs)

theorem destroyed_with_last_reference_witness:
  "\<exists>s s1 s2. run_all exec_engine two_refs_demo booted = Returns s \<and>
    napi_destroy_ark_context (\<lambda>_. (0, 0)) (Some 7) True False s = Returns (s1, napi_ok, None) \<and>
    run_all exec_engine (replicate 2 (RefCollected (\<lambda>_. (0, 0)) 7)) s1 = Returns s2 \<and> engines_at s2 7 = None"
proof -
  obtain s x where s: "run_all exec_engine two_refs_demo booted = Returns s" "engines_at s 7 = Some x" "\<not> cx_main x"
    "cx_state x = RUNNING" "cx_context x \<noteq> Some (current s)" "\<not> cx_exception x" "cx_refs x = 2"
    using two_refs_demo_end by blast
  then show ?thesis
    using destroyed_with_last_reference [OF two_refs_demo_allowed s(1-6), of "\<lambda>_. (0, 0)" 2] by fastforce
qed

text \<open>
  The end of the root.  From every reachable state, the destructor of the root ends: all contexts are deleted, newest
  first, then the root; no engine is left, and every engine that was ever made was destructed exactly once.
\<close>

theorem contexts_torn_down:
  assumes "all_allowed engine_allowed exec_engine ops booted" and "run_all exec_engine ops booted = Returns s"
    and "\<forall>a. u a = (0, 0)"
  shows "\<exists>r s' x. engines_at s r = Some x \<and> cx_main x \<and> delete_root u r s = Some (Returns s') \<and> engines_at s' = Map.empty \<and> alive_engines s' = {} \<and>
    map fst (gone s') = r # rev (env_hooks s) @ map fst (gone s) \<and> distinct (gone s') \<and> set (gone s') = set (made s')"
proof -
  obtain r where ok: "engines_ok r s" using engines.reached_inv [OF assms(1,2)] by blast
  obtain y where y: "engines_at s r = Some y" "cx_main y" using engines_ok_root [OF ok] by blast
  let ?ids = "map (\<lambda>a. (a, cx_id (the (engines_at s a)))) (env_hooks s)"
  let ?s = "s\<lparr>engines_at := Map.empty, env_hooks := [], alive_engines := {}, gone := (r, cx_id y) # rev ?ids @ gone s\<rparr>"
  have run: "delete_root u r s = Some (Returns ?s)" using delete_root_effect [OF ok, of u] assms(3) y by auto
  have hs: "set (env_hooks s) = dom (engines_at s) - {r}" "distinct (env_hooks s)" using ok by (simp_all add: engines_ok_def)
  have l: "insert (r, cx_id y) (set ?ids) = living (engines_at s)"
  proof -
    have "dom (engines_at s) = insert r (set (env_hooks s))" using hs(1) y(1) by auto
    then show ?thesis using y(1) by (simp add: living_image)
  qed
  have "distinct ?ids" using hs(2) by (simp add: distinct_map inj_on_def)
  moreover have "(r, cx_id y) \<notin> set ?ids" using hs(1) by auto
  moreover have "living (engines_at s) \<inter> set (gone s) = {}" "distinct (gone s)" "set (made s) = living (engines_at s) \<union> set (gone s)"
    using ok by (auto simp: engines_ok_def ids_ok_def)
  ultimately have "distinct (gone ?s)" and "set (gone ?s) = set (made ?s)" using l by (auto simp del: set_map)
  moreover have "map fst (gone ?s) = r # rev (env_hooks s) @ map fst (gone s)" by (simp add: rev_map [symmetric] comp_def)
  ultimately show ?thesis using run y by (intro exI [of _ r] exI [of _ ?s] exI [of _ y]) simp
qed

theorem contexts_torn_down_witness:
  "\<exists>s r s' x. run_all exec_engine engines_demo booted = Returns s \<and> engines_at s r = Some x \<and> cx_main x \<and>
    delete_root (\<lambda>_. (0, 0)) r s = Some (Returns s') \<and> engines_at s' = Map.empty \<and> alive_engines s' = {} \<and>
    map fst (gone s') = r # rev (env_hooks s) @ map fst (gone s) \<and> distinct (gone s') \<and> set (gone s') = set (made s')"
proof -
  obtain s where s: "run_all exec_engine engines_demo booted = Returns s"
    using engines_demo_end by blast
  have u: "\<forall>a :: addr. (\<lambda>_. (0 :: nat, 0 :: nat)) a = (0, 0)" by simp
  obtain r s' x where "engines_at s r = Some x \<and> cx_main x \<and>
      delete_root (\<lambda>_. (0, 0)) r s = Some (Returns s') \<and> engines_at s' = Map.empty \<and> alive_engines s' = {} \<and>
      map fst (gone s') = r # rev (env_hooks s) @ map fst (gone s) \<and> distinct (gone s') \<and> set (gone s') = set (made s')"
    using contexts_torn_down [OF engines_demo_allowed s u] by (elim exE)
  then show ?thesis by (intro exI [of _ s] exI [of _ r] exI [of _ s'] exI [of _ x] conjI s) simp_all
qed

section \<open>Where a context goes wrong\<close>

text \<open>
  \<open>SwitchContext\<close> does not look at the state: a context that was destroyed and waits for a reference can be switched to, and
  is deleted by the collection while it is the current one.
\<close>

theorem switched_to_destroyed:
  "\<exists>s. run_all exec_engine
     [CreateContext (Some 0) (Some ()) \<lparr>made_context = Some 5, is_global_env = True, caught_exception = False\<rparr> 7, RefMade 7,
      DestroyContextOf (\<lambda>_. (0, 0)) (Some 7) False, SwitchTo (Some 7) SWITCHED, RefCollected (\<lambda>_. (0, 0)) 7] booted = Returns s \<and>
     current s = 5 \<and> (\<forall>a x. engines_at s a = Some x \<longrightarrow> cx_context x \<noteq> Some 5)"
  by (simp add: engine_defs)

text \<open>
  The destructor of the root waits for its own requests before it runs the hooks, and not for those of its contexts: a
  context with a request in flight ends the process.
\<close>

theorem teardown_with_work_aborts:
  "\<exists>s. run_all exec_engine
     [CreateContext (Some 0) (Some ()) \<lparr>made_context = Some 5, is_global_env = True, caught_exception = False\<rparr> 7] booted = Returns s \<and>
     delete_root (\<lambda>a. if a = 7 then (1, 0) else (0, 0)) 0 s = Some Aborts"
  by (simp add: engine_defs delete_root_def RunEnvHooks.simps)

end
