(* ===== verification/Worker_Counts.thy ===== *)
theory Worker_Counts
  imports Machines
begin

text \<open>
  The limits on threads that run JS (native\_engine/worker\_manager.cpp) and the two calls of native\_api.cpp that create
  and destroy runtimes under them.  Five counters, each with a mutex of its own: one for all JS threads and one for each kind.  A slot
  is taken in two lock sections, first of the JS threads and then of the kind; when the second refuses, the first is given
  back.  A thread may be overtaken between its sections, so they are the steps of the model of all runs.

  The number of workers can be configured by a system parameter, read at every call: the argument \<open>maxWorkers\<close>.
\<close>

section \<open>The counters\<close>

datatype WorkerType = THREAD_WORKER | LIMITED_WORKER | OLD_WORKER

datatype slot_kind = ArkRuntime | Worker WorkerType

record thread_counts =
  jsThreadCount :: u32
  kindCount :: "slot_kind \<Rightarrow> u32"

definition MAX_JS_THREAD_COUNT :: u32 where "MAX_JS_THREAD_COUNT = 80"
definition MAX_ARK_RUNTIME_COUNT :: u32 where "MAX_ARK_RUNTIME_COUNT = 64"
definition MAX_THREADWORKER_COUNT :: u32 where "MAX_THREADWORKER_COUNT = 64"
definition MAX_LIMITWORKER_COUNT :: u32 where "MAX_LIMITWORKER_COUNT = 16"
definition MAX_OLDWORKER_COUNT :: u32 where "MAX_OLDWORKER_COUNT = 8"

definition zero_counts :: thread_counts where
  "zero_counts = \<lparr>jsThreadCount = 0, kindCount = (\<lambda>_. 0)\<rparr>"

definition IncrementJSThreadCount :: "thread_counts \<Rightarrow> thread_counts \<times> bool" where
  "IncrementJSThreadCount c =
     (if jsThreadCount c \<ge> MAX_JS_THREAD_COUNT then (c, False) else (c\<lparr>jsThreadCount := jsThreadCount c + 1\<rparr>, True))"

definition DecrementJSThreadCount :: "thread_counts \<Rightarrow> thread_counts" where
  "DecrementJSThreadCount c = (if jsThreadCount c > 0 then c\<lparr>jsThreadCount := jsThreadCount c - 1\<rparr> else c)"

text \<open>The sections under the mutex of a kind, without the call of the JS threads they end with.\<close>

definition take_kind :: "slot_kind \<Rightarrow> u32 \<Rightarrow> thread_counts \<Rightarrow> thread_counts \<times> bool" where
  "take_kind k m c =
     (if kindCount c k \<ge> m then (c, False) else (c\<lparr>kindCount := (kindCount c)(k := kindCount c k + 1)\<rparr>, True))"

definition drop_kind :: "slot_kind \<Rightarrow> thread_counts \<Rightarrow> thread_counts" where
  "drop_kind k c = (if kindCount c k > 0 then c\<lparr>kindCount := (kindCount c)(k := kindCount c k - 1)\<rparr> else c)"

definition take_slot :: "slot_kind \<Rightarrow> u32 \<Rightarrow> thread_counts \<Rightarrow> thread_counts \<times> bool" where
  "take_slot k m c =
     (let (c1, success) = IncrementJSThreadCount c
      in if \<not> success then (c1, False)
         else let (c2, granted) = take_kind k m c1 in if \<not> granted then (DecrementJSThreadCount c2, False) else (c2, True))"

definition give_slot :: "slot_kind \<Rightarrow> thread_counts \<Rightarrow> thread_counts" where
  "give_slot k c = DecrementJSThreadCount (drop_kind k c)"

definition IncrementArkRuntimeCount :: "thread_counts \<Rightarrow> thread_counts \<times> bool" where
  "IncrementArkRuntimeCount = take_slot ArkRuntime MAX_ARK_RUNTIME_COUNT"

definition DecrementArkRuntimeCount :: "thread_counts \<Rightarrow> thread_counts" where
  "DecrementArkRuntimeCount = give_slot ArkRuntime"

definition IncrementThreadWorkerCount :: "u32 \<Rightarrow> thread_counts \<Rightarrow> thread_counts \<times> bool" where
  "IncrementThreadWorkerCount maxWorkers = take_slot (Worker THREAD_WORKER) maxWorkers"

definition DecrementThreadWorkerCount :: "thread_counts \<Rightarrow> thread_counts" where
  "DecrementThreadWorkerCount = give_slot (Worker THREAD_WORKER)"

definition IncrementLimitWorkerCount :: "thread_counts \<Rightarrow> thread_counts \<times> bool" where
  "IncrementLimitWorkerCount = take_slot (Worker LIMITED_WORKER) MAX_LIMITWORKER_COUNT"

definition DecrementLimitWorkerCount :: "thread_counts \<Rightarrow> thread_counts" where
  "DecrementLimitWorkerCount = give_slot (Worker LIMITED_WORKER)"

definition IncrementOldWorkerCount :: "u32 \<Rightarrow> thread_counts \<Rightarrow> thread_counts \<times> bool" where
  "IncrementOldWorkerCount maxWorkers = take_slot (Worker OLD_WORKER) maxWorkers"

definition DecrementOldWorkerCount :: "thread_counts \<Rightarrow> thread_counts" where
  "DecrementOldWorkerCount = give_slot (Worker OLD_WORKER)"

definition IncrementWorkerCount :: "u32 \<Rightarrow> WorkerType \<Rightarrow> thread_counts \<Rightarrow> thread_counts \<times> bool" where
  "IncrementWorkerCount maxWorkers type =
     (if type = THREAD_WORKER then IncrementThreadWorkerCount maxWorkers
      else if type = LIMITED_WORKER then IncrementLimitWorkerCount
      else IncrementOldWorkerCount maxWorkers)"

definition DecrementWorkerCount :: "WorkerType \<Rightarrow> thread_counts \<Rightarrow> thread_counts" where
  "DecrementWorkerCount type =
     (if type = THREAD_WORKER then DecrementThreadWorkerCount
      else if type = LIMITED_WORKER then DecrementLimitWorkerCount
      else DecrementOldWorkerCount)"

lemmas count_defs = IncrementJSThreadCount_def DecrementJSThreadCount_def take_kind_def drop_kind_def take_slot_def give_slot_def

section \<open>Runtimes\<close>

text \<open>
  The embedder registers how an environment is made and destroyed; each call answers with a status, here a parameter.
  \<open>None\<close> is a call that was not registered.
\<close>

definition napi_create_ark_runtime :: "napi_status option \<Rightarrow> thread_counts \<Rightarrow> thread_counts \<times> napi_status" where
  "napi_create_ark_runtime createNapiEnv c =
     (case createNapiEnv of
        None \<Rightarrow> (c, napi_invalid_arg)
      | Some result \<Rightarrow>
          (let (c1, success) = IncrementArkRuntimeCount c
           in if \<not> success then (c1, napi_create_ark_runtime_too_many_envs)
              else if result = napi_ok then (c1, result)
              else (DecrementArkRuntimeCount c1, result)))"

definition napi_destroy_ark_runtime :: "napi_status option \<Rightarrow> thread_counts \<Rightarrow> thread_counts \<times> napi_status" where
  "napi_destroy_ark_runtime destroyNapiEnv c =
     (case destroyNapiEnv of
        None \<Rightarrow> (c, napi_invalid_arg)
      | Some result \<Rightarrow> (if result = napi_ok then DecrementArkRuntimeCount c else c, result))"

section \<open>Threads between their sections\<close>

text \<open>
  A thread that takes a slot is before the section of the JS threads, before the one of its kind, or refused by it and
  about to give the JS thread back; one that gives a slot back is before the section of its kind or before the other.
  In \<open>Refused\<close> and \<open>GivingThread\<close> it holds the mutex of its kind.
\<close>

datatype stage_of_slot = Taking slot_kind | TakingKind slot_kind | Refused slot_kind | GivingKind slot_kind | GivingThread slot_kind

record slots =
  cnt :: thread_counts
  in_flight :: "stage_of_slot list"
  held :: "slot_kind \<Rightarrow> nat"

definition holds_mutex :: "slot_kind \<Rightarrow> stage_of_slot \<Rightarrow> bool" where
  "holds_mutex k t \<longleftrightarrow> t = Refused k \<or> t = GivingThread k"

definition moves :: "nat \<Rightarrow> stage_of_slot option \<Rightarrow> slots \<Rightarrow> slots" where
  "moves i t s = s\<lparr>in_flight := (case t of Some x \<Rightarrow> (in_flight s)[i := x] | None \<Rightarrow> take i (in_flight s) @ drop (Suc i) (in_flight s))\<rparr>"

datatype slot_op = StartTaking slot_kind | StartGiving slot_kind | Section nat u32

text \<open>The limit of a kind, where the two kinds of workers with a parameter use \<open>m\<close>.\<close>

definition limit_of :: "slot_kind \<Rightarrow> u32 \<Rightarrow> u32" where
  "limit_of k m = (case k of ArkRuntime \<Rightarrow> MAX_ARK_RUNTIME_COUNT | Worker LIMITED_WORKER \<Rightarrow> MAX_LIMITWORKER_COUNT | _ \<Rightarrow> m)"

fun exec_slot :: "slot_op \<Rightarrow> slots \<Rightarrow> slots outcome" where
  "exec_slot (StartTaking k) s = Returns (s\<lparr>in_flight := in_flight s @ [Taking k]\<rparr>)"
| "exec_slot (StartGiving k) s = Returns (s\<lparr>in_flight := in_flight s @ [GivingKind k], held := (held s)(k := held s k - 1)\<rparr>)"
| "exec_slot (Section i m) s =
     (if i < length (in_flight s)
      then Returns (case in_flight s ! i of
          Taking k \<Rightarrow> (let (c, success) = IncrementJSThreadCount (cnt s)
                       in moves i (if success then Some (TakingKind k) else None) (s\<lparr>cnt := c\<rparr>))
        | TakingKind k \<Rightarrow> (let (c, granted) = take_kind k (limit_of k m) (cnt s)
                       in if granted then moves i None (s\<lparr>cnt := c, held := (held s)(k := held s k + 1)\<rparr>)
                          else moves i (Some (Refused k)) s)
        | Refused k \<Rightarrow> moves i None (s\<lparr>cnt := DecrementJSThreadCount (cnt s)\<rparr>)
        | GivingKind k \<Rightarrow> moves i (Some (GivingThread k)) (s\<lparr>cnt := drop_kind k (cnt s)\<rparr>)
        | GivingThread k \<Rightarrow> moves i None (s\<lparr>cnt := DecrementJSThreadCount (cnt s)\<rparr>))
      else Fault)"

text \<open>Only slots that are held are given back, and a section waits for the mutex of its kind.\<close>

fun slot_allowed :: "slot_op \<Rightarrow> slots \<Rightarrow> bool" where
  "slot_allowed (StartTaking k) s = True"
| "slot_allowed (StartGiving k) s = (held s k > 0)"
| "slot_allowed (Section i m) s =
     (i < length (in_flight s) \<and>
      (case in_flight s ! i of
         TakingKind k \<Rightarrow> list_all (\<lambda>t. \<not> holds_mutex k t) (in_flight s)
       | GivingKind k \<Rightarrow> list_all (\<lambda>t. \<not> holds_mutex k t) (in_flight s)
       | _ \<Rightarrow> True))"

definition no_slots :: slots where
  "no_slots = \<lparr>cnt = zero_counts, in_flight = [], held = (\<lambda>_. 0)\<rparr>"

section \<open>The invariant\<close>

definition slot_kinds :: "slot_kind list" where
  "slot_kinds = [ArkRuntime, Worker THREAD_WORKER, Worker LIMITED_WORKER, Worker OLD_WORKER]"

lemma all_slot_kinds: "k \<in> set slot_kinds"
proof (cases k)
  case (Worker t)
  then show ?thesis by (cases t) (simp_all add: slot_kinds_def)
qed (simp add: slot_kinds_def)

definition kinds_total :: "(slot_kind \<Rightarrow> nat) \<Rightarrow> nat" where
  "kinds_total f = sum_list (map f slot_kinds)"

lemma kinds_total_update: "kinds_total (f(k := n)) + f k = kinds_total f + n"
proof (cases k)
  case (Worker t)
  then show ?thesis by (cases t) (simp_all add: kinds_total_def slot_kinds_def)
qed (simp add: kinds_total_def slot_kinds_def)

text \<open>What a thread between its sections holds: a JS thread that no counter of a kind stands for, and a slot it gives back.\<close>

fun extra_thread :: "stage_of_slot \<Rightarrow> nat" where
  "extra_thread (Taking k) = 0"
| "extra_thread (TakingKind k) = 1"
| "extra_thread (Refused k) = 1"
| "extra_thread (GivingKind k) = 0"
| "extra_thread (GivingThread k) = 1"

fun sections_left :: "stage_of_slot \<Rightarrow> nat" where
  "sections_left (Taking k) = 3"
| "sections_left (TakingKind k) = 2"
| "sections_left (Refused k) = 1"
| "sections_left (GivingKind k) = 2"
| "sections_left (GivingThread k) = 1"

definition giving :: "slot_kind \<Rightarrow> stage_of_slot \<Rightarrow> nat" where
  "giving k t = (if t = GivingKind k then 1 else 0)"

definition in_all :: "(stage_of_slot \<Rightarrow> nat) \<Rightarrow> slots \<Rightarrow> nat" where
  "in_all f s = sum_list (map f (in_flight s))"

lemma in_all_bound: "i < length (in_flight s) \<Longrightarrow> f (in_flight s ! i) \<le> in_all f s"
  by (simp add: in_all_def member_le_sum_list)

lemma sum_take_drop:
  "i < length xs \<Longrightarrow> sum_list (map f xs) = sum_list (map f (take i xs)) + f (xs ! i) + sum_list (map f (drop (Suc i) xs))" for f :: "'a \<Rightarrow> nat"
proof (induction xs arbitrary: i)
  case (Cons x xs)
  then show ?case by (cases i) simp_all
qed simp

lemma in_all_moves:
  assumes "i < length (in_flight s)"
  shows "in_all f (moves i t s) = in_all f s + (case t of Some x \<Rightarrow> f x | None \<Rightarrow> 0) - f (in_flight s ! i)"
proof (cases t)
  case None
  then show ?thesis using sum_take_drop [OF assms, of f] by (simp add: in_all_def moves_def)
next
  case (Some x)
  then have "in_flight (moves i t s) = take i (in_flight s) @ x # drop (Suc i) (in_flight s)"
    using assms by (simp add: moves_def upd_conv_take_nth_drop)
  then show ?thesis using sum_take_drop [OF assms, of f] Some by (simp add: in_all_def)
qed

lemma moves_frame [simp]: "cnt (moves i t s) = cnt s" "held (moves i t s) = held s"
  by (simp_all add: moves_def)

lemma in_all_frame [simp]:
  "in_all f (s\<lparr>cnt := c\<rparr>) = in_all f s" "in_all f (s\<lparr>held := h\<rparr>) = in_all f s"
  "in_all f (moves i t (s\<lparr>cnt := c\<rparr>)) = in_all f (moves i t s)" "in_all f (moves i t (s\<lparr>held := h\<rparr>)) = in_all f (moves i t s)"
  by (simp_all add: in_all_def moves_def split: option.splits)

definition slots_ok :: "slots \<Rightarrow> bool" where
  "slots_ok s \<longleftrightarrow>
     unat (jsThreadCount (cnt s)) = kinds_total (\<lambda>k. unat (kindCount (cnt s) k)) + in_all extra_thread s \<and>
     (\<forall>k. unat (kindCount (cnt s) k) = held s k + in_all (giving k) s) \<and>
     jsThreadCount (cnt s) \<le> 80 \<and> kindCount (cnt s) ArkRuntime \<le> 64 \<and> kindCount (cnt s) (Worker LIMITED_WORKER) \<le> 16"

lemma unat_suc: "(x :: u32) < m \<Longrightarrow> unat (x + 1) = unat x + 1"
  by unat_arith

lemma unat_pred: "0 < (x :: u32) \<Longrightarrow> unat (x - 1) = unat x - 1"
  by (metis unat_minus_one word_gt_0)

lemma kind_small:
  assumes "slots_ok s"
  shows "unat (kindCount (cnt s) k) \<le> unat (jsThreadCount (cnt s))"
  using assms all_slot_kinds [of k] member_le_sum_list [of "unat (kindCount (cnt s) k)" "map (\<lambda>k. unat (kindCount (cnt s) k)) slot_kinds"]
  by (auto simp: slots_ok_def kinds_total_def)

lemma thread_positive:
  assumes "slots_ok s" and "i < length (in_flight s)" and "extra_thread (in_flight s ! i) = 1"
  shows "0 < jsThreadCount (cnt s)"
proof -
  have "1 \<le> in_all extra_thread s" using in_all_bound [OF assms(2), of extra_thread] assms(3) by simp
  then have "0 < unat (jsThreadCount (cnt s))" using assms(1) by (simp add: slots_ok_def)
  then show ?thesis by (simp add: unat_gt_0 word_gt_0)
qed

lemma give_thread_ok:
  assumes ok: "slots_ok s" and i: "i < length (in_flight s)" and t: "in_flight s ! i = Refused k \<or> in_flight s ! i = GivingThread k"
  shows "slots_ok (moves i None (s\<lparr>cnt := DecrementJSThreadCount (cnt s)\<rparr>))"
proof -
  have e: "extra_thread (in_flight s ! i) = 1" "\<And>k'. giving k' (in_flight s ! i) = 0" using t by (auto simp: giving_def)
  have p: "0 < jsThreadCount (cnt s)" by (rule thread_positive [OF ok i e(1)])
  have "jsThreadCount (cnt s) \<le> 80" using ok by (simp add: slots_ok_def)
  then have "jsThreadCount (cnt s) - 1 \<le> 80" using unat_pred [OF p] by (simp add: word_le_nat_alt)
  moreover have "in_all extra_thread (moves i None s) = in_all extra_thread s - 1"
      "\<And>k'. in_all (giving k') (moves i None s) = in_all (giving k') s"
    using e by (simp_all add: in_all_moves [OF i])
  moreover have "1 \<le> in_all extra_thread s" using in_all_bound [OF i, of extra_thread] e by simp
  ultimately show ?thesis
    using ok p unat_pred [OF p] by (simp add: slots_ok_def DecrementJSThreadCount_def)
qed

lemma section_ok:
  assumes ok: "slots_ok s" and i: "i < length (in_flight s)"
  shows "\<exists>s'. exec_slot (Section i m) s = Returns s' \<and> slots_ok s'"
proof (cases "in_flight s ! i")
  case (Taking k)
  show ?thesis
  proof (cases "jsThreadCount (cnt s) \<ge> MAX_JS_THREAD_COUNT")
    case True
    have "in_all extra_thread (moves i None s) = in_all extra_thread s" "\<And>k'. in_all (giving k') (moves i None s) = in_all (giving k') s"
      by (simp_all add: in_all_moves [OF i] Taking giving_def)
    then show ?thesis using ok i Taking True by (simp add: IncrementJSThreadCount_def slots_ok_def)
  next
    case False
    have "in_all extra_thread (moves i (Some (TakingKind k)) s) = in_all extra_thread s + 1"
         "\<And>k'. in_all (giving k') (moves i (Some (TakingKind k)) s) = in_all (giving k') s"
      by (simp_all add: in_all_moves [OF i] Taking giving_def)
    moreover have "unat (jsThreadCount (cnt s) + 1) = unat (jsThreadCount (cnt s)) + 1" "jsThreadCount (cnt s) + 1 \<le> 80"
      using False unat_suc [of "jsThreadCount (cnt s)" 80] by (auto simp: MAX_JS_THREAD_COUNT_def not_le word_le_nat_alt word_less_nat_alt)
    ultimately show ?thesis using ok i Taking False by (simp add: IncrementJSThreadCount_def slots_ok_def)
  qed
next
  case (TakingKind k)
  show ?thesis
  proof (cases "kindCount (cnt s) k \<ge> limit_of k m")
    case True
    have "in_all extra_thread (moves i (Some (Refused k)) s) = in_all extra_thread s"
         "\<And>k'. in_all (giving k') (moves i (Some (Refused k)) s) = in_all (giving k') s"
      by (simp_all add: in_all_moves [OF i] TakingKind giving_def)
    then show ?thesis using ok i TakingKind True by (simp add: take_kind_def slots_ok_def)
  next
    case False
    then have lt: "kindCount (cnt s) k < limit_of k m" by simp
    let ?kc = "(kindCount (cnt s))(k := kindCount (cnt s) k + 1)"
    have "in_all extra_thread (moves i None s) + 1 = in_all extra_thread s" "\<And>k'. in_all (giving k') (moves i None s) = in_all (giving k') s"
      using in_all_bound [OF i, of extra_thread] by (simp_all add: in_all_moves [OF i] TakingKind giving_def)
    moreover have u: "unat (kindCount (cnt s) k + 1) = unat (kindCount (cnt s) k) + 1" by (rule unat_suc [OF lt])
    moreover have "kinds_total (\<lambda>k'. unat (?kc k')) = kinds_total (\<lambda>k'. unat (kindCount (cnt s) k')) + 1"
      using kinds_total_update [of "\<lambda>k'. unat (kindCount (cnt s) k')" k "unat (kindCount (cnt s) k) + 1"] u
      by (simp add: fun_upd_def if_distrib cong: if_cong)
    moreover have "?kc ArkRuntime \<le> 64 \<and> ?kc (Worker LIMITED_WORKER) \<le> 16"
      using ok lt u by (auto simp: slots_ok_def limit_of_def MAX_ARK_RUNTIME_COUNT_def MAX_LIMITWORKER_COUNT_def word_le_nat_alt word_less_nat_alt)
    ultimately show ?thesis using ok i TakingKind False by (auto simp: take_kind_def slots_ok_def)
  qed
next
  case (GivingKind k)
  have "1 \<le> in_all (giving k) s" using in_all_bound [OF i, of "giving k"] GivingKind by (simp add: giving_def)
  then have p: "0 < kindCount (cnt s) k" using ok by (auto simp: slots_ok_def word_gt_0 simp flip: unat_gt_0)
  let ?kc = "(kindCount (cnt s))(k := kindCount (cnt s) k - 1)"
  have "in_all extra_thread (moves i (Some (GivingThread k)) s) = in_all extra_thread s + 1"
      "in_all (giving k) (moves i (Some (GivingThread k)) s) + 1 = in_all (giving k) s"
      "\<And>k'. k' \<noteq> k \<Longrightarrow> in_all (giving k') (moves i (Some (GivingThread k)) s) = in_all (giving k') s"
    using in_all_bound [OF i, of "giving k"] by (simp_all add: in_all_moves [OF i] GivingKind giving_def)
  moreover have u: "unat (kindCount (cnt s) k - 1) = unat (kindCount (cnt s) k) - 1" by (rule unat_pred [OF p])
  moreover have u': "0 < unat (kindCount (cnt s) k)" using p by (simp add: word_less_nat_alt)
  moreover have "kinds_total (\<lambda>k'. unat (?kc k')) + 1 = kinds_total (\<lambda>k'. unat (kindCount (cnt s) k'))"
    using kinds_total_update [of "\<lambda>k'. unat (kindCount (cnt s) k')" k "unat (kindCount (cnt s) k) - 1"] u u'
    by (simp add: fun_upd_def if_distrib cong: if_cong)
  moreover have "?kc ArkRuntime \<le> 64 \<and> ?kc (Worker LIMITED_WORKER) \<le> 16"
    using ok u by (auto simp: slots_ok_def word_le_nat_alt)
  ultimately show ?thesis using ok i GivingKind p by (auto simp: drop_kind_def slots_ok_def)
qed (use give_thread_ok [OF ok i] i in auto)


lemma no_slots_ok: "slots_ok no_slots"
  by (simp add: slots_ok_def no_slots_def zero_counts_def kinds_total_def slot_kinds_def in_all_def)

lemma slot_step:
  assumes ok: "slots_ok s" and allowed: "slot_allowed x s"
  shows "\<exists>s'. exec_slot x s = Returns s' \<and> slots_ok s'"
proof (cases x)
  case (StartTaking k)
  have "in_all f (s\<lparr>in_flight := in_flight s @ [Taking k]\<rparr>) = in_all f s + f (Taking k)" for f by (simp add: in_all_def)
  then show ?thesis using ok StartTaking by (simp add: slots_ok_def giving_def)
next
  case (StartGiving k)
  have "in_all f (s\<lparr>in_flight := in_flight s @ [GivingKind k], held := h\<rparr>) = in_all f s + f (GivingKind k)" for f h
    by (simp add: in_all_def)
  then show ?thesis using ok StartGiving allowed by (auto simp: slots_ok_def giving_def)
next
  case (Section i m)
  then show ?thesis using section_ok [OF ok, of i m] allowed by simp
qed

fun slot_background :: "slot_op \<Rightarrow> bool" where
  "slot_background (Section i m) = True"
| "slot_background _ = False"

lemma sections_decrease:
  assumes "i < length (in_flight s)" and "exec_slot (Section i m) s = Returns s'"
  shows "in_all sections_left s' < in_all sections_left s"
  using assms in_all_bound [OF assms(1), of sections_left]
  by (cases "in_flight s ! i") (auto simp: in_all_moves case_prod_beta split: if_splits)

lemma section_enabled:
  assumes "0 < in_all sections_left s"
  shows "\<exists>x. slot_background x \<and> slot_allowed x s"
proof (cases "\<exists>t\<in>set (in_flight s). \<exists>k. holds_mutex k t")
  case True
  then obtain i k where "i < length (in_flight s)" "holds_mutex k (in_flight s ! i)" by (auto simp: in_set_conv_nth)
  then show ?thesis by (intro exI [of _ "Section i 0"]) (auto simp: holds_mutex_def)
next
  case False
  have "in_flight s \<noteq> []" using assms by (auto simp: in_all_def)
  then show ?thesis using False by (intro exI [of _ "Section 0 0"]) (auto simp: list_all_iff split: stage_of_slot.splits)
qed

interpretation slots: draining_machine exec_slot slot_allowed slots_ok no_slots slot_background "in_all sections_left"
proof unfold_locales
  fix s s' x assume "slot_background x" "slot_allowed x s" "exec_slot x s = Returns s'"
  then show "in_all sections_left s' < in_all sections_left s" by (cases x) (auto simp: sections_decrease)
qed (use no_slots_ok slot_step section_enabled in auto)

lemma quiet_flight: "in_all sections_left s = 0 \<Longrightarrow> in_flight s = []"
proof (cases "in_flight s")
  case (Cons t ts)
  moreover have "0 < sections_left t" by (cases t) auto
  moreover assume "in_all sections_left s = 0"
  ultimately show ?thesis by (simp add: in_all_def)
qed simp

section \<open>Properties\<close>

text \<open>
  C6: the limits on threads.  In every interleaving of threads that take slots and give back slots they hold, whatever limits
  are configured, there are never more than 80 JS threads, 64 runtimes and 16 restricted workers.  Every counter of a kind
  counts the slots held and those about to be given back, and the counter of JS threads is never below their sum; when no thread is between its sections, both are exact.
\<close>

theorem worker_limits:
  assumes "all_allowed slot_allowed exec_slot ops no_slots"
  shows "\<exists>s. run_all exec_slot ops no_slots = Returns s \<and> jsThreadCount (cnt s) \<le> MAX_JS_THREAD_COUNT \<and>
    kindCount (cnt s) ArkRuntime \<le> MAX_ARK_RUNTIME_COUNT \<and> kindCount (cnt s) (Worker LIMITED_WORKER) \<le> MAX_LIMITWORKER_COUNT \<and>
    (\<forall>k. held s k \<le> unat (kindCount (cnt s) k)) \<and>
    kinds_total (\<lambda>k. unat (kindCount (cnt s) k)) \<le> unat (jsThreadCount (cnt s)) \<and>
    (in_flight s = [] \<longrightarrow> (\<forall>k. unat (kindCount (cnt s) k) = held s k) \<and> unat (jsThreadCount (cnt s)) = kinds_total (held s))"
proof -
  obtain s where s: "run_all exec_slot ops no_slots = Returns s" and ok: "slots_ok s"
    using slots.never_faults [OF assms] by blast
  have "in_flight s = [] \<Longrightarrow> in_all f s = 0" for f by (simp add: in_all_def)
  moreover have "in_flight s = [] \<Longrightarrow> (\<lambda>k. unat (kindCount (cnt s) k)) = held s"
    using ok by (auto simp: slots_ok_def in_all_def)
  ultimately show ?thesis using s ok
    by (intro exI [of _ s]) (auto simp: slots_ok_def MAX_JS_THREAD_COUNT_def MAX_ARK_RUNTIME_COUNT_def MAX_LIMITWORKER_COUNT_def)
qed

text \<open>Two threads take the last slot of a limit of one, and the loser gives its JS thread back.\<close>

definition slots_demo :: "slot_op list" where
  "slots_demo = [StartTaking (Worker OLD_WORKER), StartTaking (Worker OLD_WORKER), Section 0 1, Section 0 1, Section 0 1,
     Section 0 1, StartGiving (Worker OLD_WORKER)]"

lemma slots_demo_allowed: "all_allowed slot_allowed exec_slot slots_demo no_slots"
  by (simp add: slots_demo_def no_slots_def zero_counts_def count_defs moves_def limit_of_def MAX_JS_THREAD_COUNT_def holds_mutex_def word_le_nat_alt)

theorem worker_limits_witness:
  "\<exists>s. run_all exec_slot slots_demo no_slots = Returns s \<and> jsThreadCount (cnt s) \<le> MAX_JS_THREAD_COUNT \<and>
    kindCount (cnt s) ArkRuntime \<le> MAX_ARK_RUNTIME_COUNT \<and> kindCount (cnt s) (Worker LIMITED_WORKER) \<le> MAX_LIMITWORKER_COUNT \<and>
    (\<forall>k. held s k \<le> unat (kindCount (cnt s) k)) \<and>
    kinds_total (\<lambda>k. unat (kindCount (cnt s) k)) \<le> unat (jsThreadCount (cnt s)) \<and>
    (in_flight s = [] \<longrightarrow> (\<forall>k. unat (kindCount (cnt s) k) = held s k) \<and> unat (jsThreadCount (cnt s)) = kinds_total (held s))"
  by (rule worker_limits [OF slots_demo_allowed])

text \<open>
  No thread is stuck between its sections.  From every reachable state the threads on their way can all finish, whatever
  limits are read on the way, in at most three sections each; then no mutex is held and the counters are exact.
\<close>

theorem worker_sections_finish:
  assumes "all_allowed slot_allowed exec_slot ops no_slots" and "run_all exec_slot ops no_slots = Returns s"
  shows "\<exists>bs s'. list_all slot_background bs \<and> all_allowed slot_allowed exec_slot bs s \<and> run_all exec_slot bs s = Returns s' \<and>
    in_flight s' = [] \<and> unat (jsThreadCount (cnt s')) = kinds_total (held s') \<and> length bs \<le> 3 * length (in_flight s)"
proof -
  have ok: "slots_ok s" by (rule slots.reached_inv [OF assms])
  obtain bs s' where bs: "list_all slot_background bs" "all_allowed slot_allowed exec_slot bs s" "run_all exec_slot bs s = Returns s'"
    and ok': "slots_ok s'" and left: "in_all sections_left s' = 0" using slots.drains [OF ok] by blast
  have q: "in_flight s' = []" by (rule quiet_flight [OF left])
  have "(\<lambda>k. unat (kindCount (cnt s') k)) = held s'" using ok' q by (auto simp: slots_ok_def in_all_def)
  then have "unat (jsThreadCount (cnt s')) = kinds_total (held s')" using ok' q by (simp add: slots_ok_def in_all_def)
  moreover have "in_all sections_left s \<le> 3 * length (in_flight s)"
  proof -
    have "sum_list (map sections_left ts) \<le> 3 * length ts" for ts
    proof (induction ts)
      case (Cons t ts)
      then show ?case by (cases t) auto
    qed simp
    then show ?thesis by (simp add: in_all_def)
  qed
  moreover have "length bs \<le> in_all sections_left s" by (rule slots.bounded [OF ok bs(1,2)])
  ultimately show ?thesis using bs q by (intro exI [of _ bs] exI [of _ s']) simp
qed

theorem worker_sections_finish_witness:
  "\<exists>s bs s'. run_all exec_slot slots_demo no_slots = Returns s \<and> list_all slot_background bs \<and>
    run_all exec_slot bs s = Returns s' \<and> in_flight s' = [] \<and> unat (jsThreadCount (cnt s')) = kinds_total (held s')"
proof -
  obtain s where s: "run_all exec_slot slots_demo no_slots = Returns s" using slots.never_faults [OF slots_demo_allowed] by blast
  then show ?thesis using worker_sections_finish [OF slots_demo_allowed s] by blast
qed


section \<open>Calls without interruption\<close>

text \<open>A call that is not interrupted runs the sections of one thread to the end.\<close>

lemma take_slot_sections:
  assumes "in_flight s = []"
  shows "\<exists>n s'. run_all exec_slot (StartTaking k # replicate n (Section 0 m)) s = Returns s' \<and> in_flight s' = [] \<and>
    take_slot k (limit_of k m) (cnt s) = (cnt s', held s' \<noteq> held s)"
proof (cases "jsThreadCount (cnt s) \<ge> MAX_JS_THREAD_COUNT")
  case True
  then show ?thesis using assms
    by (intro exI [of _ 1] exI [of _ s]) (cases s, simp add: count_defs moves_def)
next
  case False
  let ?c = "(cnt s)\<lparr>jsThreadCount := jsThreadCount (cnt s) + 1\<rparr>"
  have u: "unat (jsThreadCount (cnt s) + 1) = unat (jsThreadCount (cnt s)) + 1"
    using False unat_suc [of "jsThreadCount (cnt s)" MAX_JS_THREAD_COUNT] by (simp add: not_le)
  have p: "0 < jsThreadCount (cnt s) + 1" using u by (simp add: word_less_nat_alt)
  show ?thesis
  proof (cases "kindCount (cnt s) k \<ge> limit_of k m")
    case True
    then show ?thesis using assms False p
      by (intro exI [of _ 3] exI [of _ s]) (cases s, simp add: count_defs moves_def numeral_3_eq_3)
  next
    case granted: False
    let ?s = "s\<lparr>cnt := ?c\<lparr>kindCount := (kindCount (cnt s))(k := kindCount (cnt s) k + 1)\<rparr>, held := (held s)(k := held s k + 1)\<rparr>"
    have "held ?s \<noteq> held s" by (auto simp: fun_eq_iff)
    then show ?thesis using assms False granted
      by (intro exI [of _ 2] exI [of _ ?s]) (simp add: count_defs moves_def numeral_2_eq_2)
  qed
qed

text \<open>
  Creating and destroying runtimes.  Creation is refused when 64 runtimes or 80 threads are counted; when the embedder
  fails, the counters are as they were; when it succeeds, one more runtime and one more thread are counted, and a successful
  destruction takes both away again.
\<close>

theorem runtime_slots_returned:
  "(if kindCount c ArkRuntime \<ge> MAX_ARK_RUNTIME_COUNT \<or> jsThreadCount c \<ge> MAX_JS_THREAD_COUNT
      then napi_create_ark_runtime (Some st) c = (c, napi_create_ark_runtime_too_many_envs)
      else if st \<noteq> napi_ok then napi_create_ark_runtime (Some st) c = (c, st)
      else \<exists>c'. napi_create_ark_runtime (Some st) c = (c', napi_ok) \<and> unat (jsThreadCount c') = unat (jsThreadCount c) + 1 \<and>
        unat (kindCount c' ArkRuntime) = unat (kindCount c ArkRuntime) + 1 \<and>
        napi_destroy_ark_runtime (Some napi_ok) c' = (c, napi_ok))"
proof (cases "kindCount c ArkRuntime \<ge> MAX_ARK_RUNTIME_COUNT \<or> jsThreadCount c \<ge> MAX_JS_THREAD_COUNT")
  case full: True
  have "jsThreadCount c + 1 > 0" if "jsThreadCount c < MAX_JS_THREAD_COUNT"
    using unat_suc [OF that] by (simp add: word_less_nat_alt)
  then show ?thesis using full
    by (auto simp: napi_create_ark_runtime_def IncrementArkRuntimeCount_def count_defs not_le)
next
  case False
  then have lt: "kindCount c ArkRuntime < MAX_ARK_RUNTIME_COUNT" "jsThreadCount c < MAX_JS_THREAD_COUNT" by auto
  have "jsThreadCount c + 1 > 0" "kindCount c ArkRuntime + 1 > 0"
    using unat_suc [OF lt(1)] unat_suc [OF lt(2)] by (simp_all add: word_less_nat_alt)
  then show ?thesis using False unat_suc [OF lt(1)] unat_suc [OF lt(2)]
    by (auto simp: napi_create_ark_runtime_def napi_destroy_ark_runtime_def IncrementArkRuntimeCount_def
        DecrementArkRuntimeCount_def count_defs not_le)
qed

section \<open>Where the counters go wrong\<close>

text \<open>A slot of a kind that nobody holds is logged and not given back, but the JS thread is taken away all the same.\<close>

theorem stray_decrement:
  "jsThreadCount (DecrementWorkerCount OLD_WORKER (fst (IncrementWorkerCount 8 THREAD_WORKER zero_counts))) = 0 \<and>
   kindCount (DecrementWorkerCount OLD_WORKER (fst (IncrementWorkerCount 8 THREAD_WORKER zero_counts))) (Worker THREAD_WORKER) = 1"
  by (simp add: DecrementWorkerCount_def IncrementWorkerCount_def IncrementThreadWorkerCount_def DecrementOldWorkerCount_def
      count_defs zero_counts_def MAX_JS_THREAD_COUNT_def word_le_nat_alt)

text \<open>
  A thread that will be refused by its kind holds a JS thread for a moment, and another thread is refused for it although
  there is room for both counters.
\<close>

theorem refused_for_nothing:
  assumes "jsThreadCount (cnt s) = 80" and "in_flight s = [TakingKind (Worker OLD_WORKER), Taking ArkRuntime]"
    and "kindCount (cnt s) (Worker OLD_WORKER) = 8" and "kindCount (cnt s) ArkRuntime = 0"
  shows "\<exists>s'. run_all exec_slot [Section 1 8, Section 0 8, Section 0 8] s = Returns s' \<and>
    in_flight s' = [] \<and> held s' = held s \<and> jsThreadCount (cnt s') = 79"
  using assms by (simp add: count_defs moves_def MAX_JS_THREAD_COUNT_def limit_of_def)

end
