(* ===== verification/Cj_Modules.thy ===== *)
theory Cj_Modules
  imports Machines "HOL-Library.Word"
begin

text \<open>
  Modules written in Cangjie (native\_engine/impl/ark/cj\_support.cpp): a library is one when its ELF file has a section
  \<open>.cjmetadata\<close>, which is looked for in the bytes of the file; it is then loaded by the Cangjie runtime.  The 64 bit layout
  on a little-endian machine is modelled.

  A file is its list of bytes.  \<open>pread\<close> gives the bytes that are there, and fails for an offset that is negative as an
  \<open>off_t\<close>.  A read outside of an array and the overflow of a signed product, which C++ leaves undefined, are \<open>Fault\<close>.
\<close>

section \<open>Structures of the file\<close>

type_synonym bytes = "u8 list"

fun le_value :: "bytes \<Rightarrow> nat" where
  "le_value [] = 0"
| "le_value (b # bs) = unat b + 256 * le_value bs"

definition le_field :: "nat \<Rightarrow> nat \<Rightarrow> bytes \<Rightarrow> nat" where
  "le_field off n bs = le_value (take n (drop off bs))"

record ElfEhdr =
  e_shoff :: u64
  e_shentsize :: u16
  e_shnum :: u16
  e_shstrndx :: u16

record ElfShdr =
  sh_name :: u32
  sh_offset :: u64
  sh_size :: u64
  sh_link :: u32

definition ehdr_of :: "bytes \<Rightarrow> ElfEhdr" where
  "ehdr_of bs = \<lparr>e_shoff = of_nat (le_field 40 8 bs), e_shentsize = of_nat (le_field 58 2 bs),
     e_shnum = of_nat (le_field 60 2 bs), e_shstrndx = of_nat (le_field 62 2 bs)\<rparr>"

definition shdr_of :: "bytes \<Rightarrow> ElfShdr" where
  "shdr_of bs = \<lparr>sh_name = of_nat (le_field 0 4 bs), sh_offset = of_nat (le_field 24 8 bs),
     sh_size = of_nat (le_field 32 8 bs), sh_link = of_nat (le_field 40 4 bs)\<rparr>"

definition SHN_UNDEF :: u16 where "SHN_UNDEF = 0"
definition SHN_XINDEX :: u16 where "SHN_XINDEX = 0xffff"
definition header_size :: nat where "header_size = 64"

definition pread :: "bytes \<Rightarrow> nat \<Rightarrow> u64 \<Rightarrow> bytes option" where
  "pread file n off = (if unat off \<ge> 2 ^ 63 then None else Some (take n (drop (unat off) file)))"

definition read_exactly :: "bytes \<Rightarrow> nat \<Rightarrow> u64 \<Rightarrow> bytes option" where
  "read_exactly file n off =
     (case pread file n off of None \<Rightarrow> None | Some bs \<Rightarrow> if length bs \<noteq> n then None else Some bs)"

definition read_ehdr :: "bytes \<Rightarrow> ElfEhdr option" where
  "read_ehdr file = map_option ehdr_of (read_exactly file header_size 0)"

definition read_shdr :: "bytes \<Rightarrow> u64 \<Rightarrow> ElfShdr option" where
  "read_shdr file off = map_option shdr_of (read_exactly file header_size off)"

section \<open>The search\<close>

text \<open>Both numbers are cut to 16 bits when they come from the first section header.\<close>

definition LoadExtendedInfo :: "bytes \<Rightarrow> u64 \<Rightarrow> u16 \<Rightarrow> u16 \<Rightarrow> (u16 \<times> u16) option" where
  "LoadExtendedInfo file shoff shnum shstrndx =
     (case read_shdr file shoff of None \<Rightarrow> None | Some firstShdr \<Rightarrow>
        Some (if shnum = 0 then ucast (sh_size firstShdr) else shnum,
              if shstrndx = SHN_XINDEX then ucast (sh_link firstShdr) else shstrndx))"

text \<open>
  The table of section names: empty when there is none.  Its size is cut to 32 bits; \<open>malloc_ok\<close> tells whether the
  allocation of a size succeeds.
\<close>

definition load_names :: "(nat \<Rightarrow> bool) \<Rightarrow> bytes \<Rightarrow> ElfEhdr \<Rightarrow> u16 \<Rightarrow> u16 \<Rightarrow> bytes option" where
  "load_names malloc_ok file ehdr shnum shstrndx =
     (if shstrndx \<noteq> SHN_UNDEF \<and> shstrndx < shnum
      then case read_shdr file (e_shoff ehdr + ucast shstrndx * ucast (e_shentsize ehdr)) of
             None \<Rightarrow> None
           | Some shstrtabHdr \<Rightarrow>
               let shstrtabSize = (ucast (sh_size shstrtabHdr) :: u32)
               in if \<not> malloc_ok (unat shstrtabSize) then None
                  else read_exactly file (unat shstrtabSize) (sh_offset shstrtabHdr)
      else Some [])"

text \<open>\<open>strncmp\<close> of the array \<open>arr\<close> from \<open>p\<close> on with a literal, whose last byte is 0: whether it answers 0.\<close>

fun strncmp_zero :: "bytes \<Rightarrow> nat \<Rightarrow> bytes \<Rightarrow> nat \<Rightarrow> bool outcome" where
  "strncmp_zero arr p lit 0 = Returns True"
| "strncmp_zero arr p [] (Suc n) = Fault"
| "strncmp_zero arr p (d # lit) (Suc n) =
     (if p < length arr
      then if arr ! p \<noteq> d then Returns False else if d = 0 then Returns True else strncmp_zero arr (Suc p) lit n
      else Fault)"

definition ascii :: "string \<Rightarrow> bytes" where
  "ascii s = map of_char s"

definition CJ_METADATA :: bytes where "CJ_METADATA = ascii ''.cjmetadata''"

text \<open>The loop from the section \<open>i\<close> on, with \<open>n\<close> sections to go.\<close>

fun scan_sections :: "bytes \<Rightarrow> ElfEhdr \<Rightarrow> bytes \<Rightarrow> nat \<Rightarrow> nat \<Rightarrow> bool outcome" where
  "scan_sections file ehdr names i 0 = Returns False"
| "scan_sections file ehdr names i (Suc n) =
     (if i * unat (e_shentsize ehdr) \<ge> 2 ^ 31 then Fault
      else case read_shdr file (e_shoff ehdr + of_nat (i * unat (e_shentsize ehdr))) of
             None \<Rightarrow> Returns False
           | Some shdr \<Rightarrow>
               if unat (sh_name shdr) < length names
               then let maxLen = length names - unat (sh_name shdr)
                    in if maxLen \<ge> length CJ_METADATA
                       then obind (strncmp_zero names (unat (sh_name shdr)) (CJ_METADATA @ [0]) maxLen) (\<lambda>found.
                              if found then Returns True else scan_sections file ehdr names (Suc i) n)
                       else scan_sections file ehdr names (Suc i) n
               else scan_sections file ehdr names (Suc i) n)"

definition HasCJMetadata :: "(nat \<Rightarrow> bool) \<Rightarrow> bytes \<Rightarrow> bool outcome" where
  "HasCJMetadata malloc_ok file =
     (case read_ehdr file of
        None \<Rightarrow> Returns False
      | Some ehdr \<Rightarrow>
          (case (if e_shnum ehdr = 0 \<or> e_shstrndx ehdr = SHN_XINDEX
                 then LoadExtendedInfo file (e_shoff ehdr) (e_shnum ehdr) (e_shstrndx ehdr)
                 else Some (e_shnum ehdr, e_shstrndx ehdr)) of
             None \<Rightarrow> Returns False
           | Some (shnum, shstrndx) \<Rightarrow>
               (case load_names malloc_ok file ehdr shnum shstrndx of
                  None \<Rightarrow> Returns False
                | Some names \<Rightarrow> scan_sections file ehdr names 0 (unat shnum))))"

text \<open>
  The path of a module.  \<open>fs\<close> gives the content of a file that can be opened, and \<open>libs\<close> is the name of the architecture.
\<close>

definition cj_path :: "string \<Rightarrow> string \<Rightarrow> string" where
  "cj_path libs moduleName = ''/data/storage/el1/bundle/libs/'' @ libs @ ''/'' @ ''lib'' @ moduleName @ ''.so''"

definition ELF_MAGIC :: bytes where "ELF_MAGIC = [0x7f, 0x45, 0x4c, 0x46]"
definition EI_NIDENT :: nat where "EI_NIDENT = 16"

definition IsCJModule :: "string \<Rightarrow> (string \<rightharpoonup> bytes) \<Rightarrow> (nat \<Rightarrow> bool) \<Rightarrow> string \<Rightarrow> bool outcome" where
  "IsCJModule libs fs malloc_ok moduleName =
     (case fs (cj_path libs moduleName) of
        None \<Rightarrow> Returns False
      | Some file \<Rightarrow>
          if length (take EI_NIDENT file) \<noteq> EI_NIDENT \<or> take (length ELF_MAGIC) file \<noteq> ELF_MAGIC then Returns False
          else HasCJMetadata malloc_ok file)"

section \<open>Loading\<close>

text \<open>The runtime answers whether it starts, and gives a library and its symbols; the value a loader returns is its own.\<close>

record 'v cj_runtime =
  startRuntime :: bool
  startUIScheduler :: bool
  loadLibrary :: "string \<Rightarrow> nat option"
  getSymbol :: "nat \<Rightarrow> string \<Rightarrow> nat option"
  run_loader :: "nat \<Rightarrow> string \<Rightarrow> 'v"

definition LoadArkCJModule :: "'v cj_runtime option \<Rightarrow> string \<Rightarrow> 'v \<Rightarrow> 'v \<times> bool" where
  "LoadArkCJModule runtime moduleName result =
     (case runtime of None \<Rightarrow> (result, False) | Some rt \<Rightarrow>
      case loadLibrary rt ''libark_interop.z.so'' of None \<Rightarrow> (result, False) | Some handle \<Rightarrow>
        let libName = ''lib'' @ moduleName @ ''.so''
        in case getSymbol rt handle ''ARKTS_LoadModuleByNapiEnv'' of
             Some symbol \<Rightarrow> (run_loader rt symbol libName, True)
           | None \<Rightarrow> (case getSymbol rt handle ''ARKTS_LoadModule'' of
               Some symbol \<Rightarrow> (run_loader rt symbol libName, True)
             | None \<Rightarrow> (result, False)))"

text \<open>\<open>undefined_value\<close> is what \<open>napi_get_undefined\<close> writes, which does not fail for an environment.\<close>

definition LoadCJModule :: "'v cj_runtime option \<Rightarrow> string \<Rightarrow> 'v \<Rightarrow> 'v" where
  "LoadCJModule runtime nameBuf undefined_value =
     (case runtime of None \<Rightarrow> undefined_value | Some rt \<Rightarrow>
      if \<not> startRuntime rt then undefined_value
      else if \<not> startUIScheduler rt then undefined_value
      else fst (LoadArkCJModule runtime nameBuf undefined_value))"

section \<open>Comparing names\<close>

text \<open>The name at an offset: up to a 0 or the end of the table.\<close>

definition name_from :: "bytes \<Rightarrow> nat \<Rightarrow> bytes" where
  "name_from names p = takeWhile (\<lambda>b. b \<noteq> 0) (drop p names)"

lemma name_from_step: "p < length names \<Longrightarrow> name_from names p = (if names ! p = 0 then [] else names ! p # name_from names (Suc p))"
  by (simp add: name_from_def Cons_nth_drop_Suc [symmetric])

lemma strncmp_name:
  assumes "0 \<notin> set lit" and "p + n = length names" and "length lit \<le> n"
  shows "strncmp_zero names p (lit @ [0]) n = Returns (name_from names p = lit)"
  using assms
proof (induction lit arbitrary: p n)
  case Nil
  show ?case
  proof (cases n)
    case 0
    then show ?thesis using Nil by (simp add: name_from_def)
  next
    case (Suc m)
    then have "p < length names" using Nil by simp
    then show ?thesis using Suc by (simp add: name_from_step)
  qed
next
  case (Cons d lit)
  then obtain m where n: "n = Suc m" by (cases n) auto
  have p: "p < length names" using Cons.prems n by simp
  have "strncmp_zero names (Suc p) (lit @ [0]) m = Returns (name_from names (Suc p) = lit)"
    using Cons.prems n by (intro Cons.IH) auto
  then show ?case using n p Cons.prems by (auto simp: name_from_step)
qed

lemma no_zero_in_metadata: "0 \<notin> set CJ_METADATA" and length_metadata [simp]: "length CJ_METADATA = 11"
  by (simp_all add: CJ_METADATA_def ascii_def)

text \<open>A comparison of the loop: it stays in the table and finds the name of the section.\<close>

lemma metadata_compared:
  assumes "p < length names" and "11 \<le> length names - p"
  shows "strncmp_zero names p (CJ_METADATA @ [0]) (length names - p) = Returns (name_from names p = CJ_METADATA)"
  by (rule strncmp_name) (use assms no_zero_in_metadata in auto)

lemma short_name: "length names - p < 11 \<Longrightarrow> name_from names p \<noteq> CJ_METADATA"
proof
  assume "length names - p < 11" and "name_from names p = CJ_METADATA"
  moreover have "length (name_from names p) \<le> length (drop p names)" unfolding name_from_def by (rule length_takeWhile_le)
  ultimately show False by simp
qed

lemma metadata_inside: "name_from names p = CJ_METADATA \<Longrightarrow> p < length names"
  using short_name [of names p] by (cases "p < length names") auto

lemma scan_step:
  "scan_sections file ehdr names i (Suc n) =
     (if i * unat (e_shentsize ehdr) \<ge> 2 ^ 31 then Fault
      else case read_shdr file (e_shoff ehdr + of_nat (i * unat (e_shentsize ehdr))) of
             None \<Rightarrow> Returns False
           | Some shdr \<Rightarrow>
               if name_from names (unat (sh_name shdr)) = CJ_METADATA then Returns True
               else scan_sections file ehdr names (Suc i) n)"
  using short_name [of names] metadata_inside [of names] by (auto simp: metadata_compared not_le Let_def split: option.splits)

section \<open>Reading at an offset\<close>

lemma read_exactly_iff:
  assumes "0 < n"
  shows "read_exactly file n off =
    (if unat off < 2 ^ 63 \<and> unat off + n \<le> length file then Some (take n (drop (unat off) file)) else None)"
  using assms by (auto simp: read_exactly_def pread_def)

definition header_at :: "bytes \<Rightarrow> nat \<Rightarrow> ElfShdr" where
  "header_at file off = shdr_of (take header_size (drop off file))"

lemma read_shdr_iff:
  "read_shdr file off = (if unat off < 2 ^ 63 \<and> unat off + header_size \<le> length file then Some (header_at file (unat off)) else None)"
  by (simp add: read_shdr_def read_exactly_iff header_at_def header_size_def)

lemma unat_add_of_nat:
  assumes "unat (x :: u64) + k < 2 ^ 64"
  shows "unat (x + of_nat k) = unat x + k"
proof -
  have "unat (of_nat k :: u64) = k" using assms by (simp add: unsigned_of_nat take_bit_nat_eq_self)
  then show ?thesis using assms by (subst unat_add_lem [THEN iffD1]) simp_all
qed

lemma entsize_small: "unat (e_shentsize h) < 2 ^ 16"
  by (rule order.strict_trans2 [OF unsigned_less]) simp

section \<open>The search stays inside the file\<close>

lemma scan_safe:
  assumes len: "length file \<le> 2 ^ 31 - 2 ^ 16" and i: "i = 0 \<or> unat (e_shoff h) + (i - 1) * unat (e_shentsize h) + header_size \<le> length file"
  shows "\<exists>b. scan_sections file h names i n = Returns b"
  using i
proof (induction n arbitrary: i)
  case (Suc n)
  let ?k = "i * unat (e_shentsize h)"
  have k: "?k < 2 ^ 31"
  proof (cases i)
    case (Suc j)
    then show ?thesis using Suc.prems len entsize_small [of h] by simp
  qed simp
  show ?case
  proof (cases "read_shdr file (e_shoff h + of_nat ?k)")
    case None
    then show ?thesis using k by (auto simp: scan_step simp del: scan_sections.simps)
  next
    case (Some shdr)
    have small: "unat (e_shoff h) + ?k < 2 ^ 64"
    proof (cases "i = 0")
      case False
      then have "unat (e_shoff h) < 2 ^ 31" using Suc.prems len by simp
      then show ?thesis using k by simp
    qed (use unsigned_less [of "e_shoff h"] in simp)
    then have "unat (e_shoff h) + ?k + header_size \<le> length file"
      using Some unfolding read_shdr_iff unat_add_of_nat [OF small] by (simp split: if_splits)
    then have "\<exists>b. scan_sections file h names (Suc i) n = Returns b" by (intro Suc.IH) simp
    then show ?thesis using k Some by (auto simp: scan_step simp del: scan_sections.simps)
  qed
qed auto

section \<open>Properties\<close>

text \<open>
  C5: the check of a file is safe for every content.  Whatever bytes a file of less than 2 GiB (and 64 KiB) holds, the search for the
  section reads neither outside of the table of names nor past the name it looks for, no product overflows, and it ends
  with an answer; so does the check of a module, with false when the file cannot be opened or does not begin as an ELF file.
\<close>

theorem cj_check_safe:
  assumes "\<And>path file. fs path = Some file \<Longrightarrow> length file \<le> 2 ^ 31 - 2 ^ 16"
  shows "\<exists>b. IsCJModule libs fs malloc_ok moduleName = Returns b \<and>
    (b \<longrightarrow> (\<exists>file. fs (cj_path libs moduleName) = Some file \<and> 64 \<le> length file \<and> take (length ELF_MAGIC) file = ELF_MAGIC))"
proof (cases "fs (cj_path libs moduleName)")
  case (Some bs)
  have len: "length bs \<le> 2 ^ 31 - 2 ^ 16" by (rule assms [OF Some])
  have "\<exists>b. HasCJMetadata malloc_ok bs = Returns b \<and> (b \<longrightarrow> 64 \<le> length bs)"
  proof (cases "read_ehdr bs")
    case None
    then show ?thesis by (auto simp: HasCJMetadata_def)
  next
    case (Some h)
    then have "64 \<le> length bs" by (simp add: read_ehdr_def read_exactly_iff header_size_def split: if_splits)
    then show ?thesis using Some scan_safe [OF len, of 0 h]
      by (auto simp: HasCJMetadata_def split: option.splits)
  qed
  then show ?thesis using Some by (auto simp: IsCJModule_def)
qed (auto simp: IsCJModule_def)

text \<open>
  What a file says of its sections: their number and the section of the names, where the first header holds them when they
  do not fit, and the table of the names.
\<close>

definition section_header :: "bytes \<Rightarrow> ElfEhdr \<Rightarrow> nat \<Rightarrow> ElfShdr" where
  "section_header file h i = header_at file (unat (e_shoff h) + i * unat (e_shentsize h))"

definition section_count :: "bytes \<Rightarrow> ElfEhdr \<Rightarrow> nat" where
  "section_count file h = (if e_shnum h = 0 then unat (sh_size (section_header file h 0)) else unat (e_shnum h))"

definition names_index :: "bytes \<Rightarrow> ElfEhdr \<Rightarrow> nat" where
  "names_index file h = (if e_shstrndx h = SHN_XINDEX then unat (sh_link (section_header file h 0)) else unat (e_shstrndx h))"

definition names_table :: "bytes \<Rightarrow> ElfEhdr \<Rightarrow> bytes" where
  "names_table file h = (let t = section_header file h (names_index file h)
     in take (unat (sh_size t)) (drop (unat (sh_offset t)) file))"

definition complete_elf :: "bytes \<Rightarrow> ElfEhdr \<Rightarrow> bool" where
  "complete_elf file h \<longleftrightarrow> read_ehdr file = Some h \<and> length file \<le> 2 ^ 31 - 2 ^ 16 \<and>
     unat (e_shentsize h) \<ge> header_size \<and> 0 < section_count file h \<and>
     unat (e_shoff h) + section_count file h * unat (e_shentsize h) \<le> length file \<and>
     0 < names_index file h \<and> names_index file h < section_count file h \<and>
     (let t = section_header file h (names_index file h) in unat (sh_offset t) + unat (sh_size t) \<le> length file)"

lemma read_section:
  assumes c: "complete_elf file h" and i: "i < section_count file h"
  shows "read_shdr file (e_shoff h + of_nat (i * unat (e_shentsize h))) = Some (section_header file h i)"
    and "i * unat (e_shentsize h) < 2 ^ 31"
proof -
  let ?k = "i * unat (e_shentsize h)"
  have "(i + 1) * unat (e_shentsize h) \<le> section_count file h * unat (e_shentsize h)" using i by (intro mult_right_mono) auto
  then have b: "unat (e_shoff h) + ?k + header_size \<le> length file" and len: "length file < 2 ^ 31"
    using c unfolding complete_elf_def by simp_all
  then show "?k < 2 ^ 31" by simp
  have "unat (e_shoff h + of_nat ?k) = unat (e_shoff h) + ?k" by (rule unat_add_of_nat) (use b len in simp)
  then show "read_shdr file (e_shoff h + of_nat ?k) = Some (section_header file h i)"
    using b len by (simp add: read_shdr_iff section_header_def)
qed

lemma ex_from: "(\<exists>j. i \<le> j \<and> j < i + Suc n \<and> P j) \<longleftrightarrow> P i \<or> (\<exists>j. Suc i \<le> j \<and> j < Suc i + n \<and> P j)" for i n :: nat
proof
  assume "\<exists>j. i \<le> j \<and> j < i + Suc n \<and> P j"
  then obtain j where "i \<le> j" "j < i + Suc n" "P j" by blast
  then show "P i \<or> (\<exists>j. Suc i \<le> j \<and> j < Suc i + n \<and> P j)" by (cases "j = i") auto
next
  assume "P i \<or> (\<exists>j. Suc i \<le> j \<and> j < Suc i + n \<and> P j)"
  then obtain j where "j = i \<or> Suc i \<le> j \<and> j < Suc i + n" "P j" by blast
  then show "\<exists>j. i \<le> j \<and> j < i + Suc n \<and> P j" by (intro exI [of _ j]) auto
qed

lemma scan_finds:
  assumes c: "complete_elf file h" and "i + n = section_count file h"
  shows "scan_sections file h names i n =
    Returns (\<exists>j. i \<le> j \<and> j < i + n \<and>
      name_from names (unat (sh_name (section_header file h j))) = CJ_METADATA)"
  using assms(2)
proof (induction n arbitrary: i)
  case (Suc n)
  let ?hit = "\<lambda>j. name_from names (unat (sh_name (section_header file h j))) = CJ_METADATA"
  have "i < section_count file h" using Suc.prems by simp
  note r = read_section [OF c this]
  have "scan_sections file h names i (Suc n) = (if ?hit i then Returns True else scan_sections file h names (Suc i) n)"
    using r by (simp add: scan_step del: scan_sections.simps)
  also have "\<dots> = Returns (?hit i \<or> (\<exists>j. Suc i \<le> j \<and> j < Suc i + n \<and> ?hit j))"
    using Suc.IH [of "Suc i"] Suc.prems by (cases "?hit i") simp_all
  also have "(?hit i \<or> (\<exists>j. Suc i \<le> j \<and> j < Suc i + n \<and> ?hit j)) = (\<exists>j. i \<le> j \<and> j < i + Suc n \<and> ?hit j)"
    by (rule ex_from [symmetric])
  finally show ?case .
qed simp



text \<open>
  A file with an empty section, the table of the names, and a section \<open>.cjmetadata\<close>.  In the second file the number of
  sections is in the first header: 65536 for 3.
\<close>

definition demo_elf :: bytes where
  "demo_elf =
  [127, 69, 76, 70, 0, 0, 0, 0, 0, 0, 0, 0, 0, 0, 0, 0, 0, 0, 0, 0, 0, 0, 0, 0, 0, 0, 0, 0, 0, 0, 0, 0, 0, 0, 0, 0, 0, 0,
   0, 0, 80, 0, 0, 0, 0, 0, 0, 0, 0, 0, 0, 0, 0, 0, 0, 0, 0, 0, 64, 0, 3, 0, 1, 0, 0, 46, 99, 106, 109, 101, 116, 97,
   100, 97, 116, 97, 0, 0, 0, 0, 0, 0, 0, 0, 0, 0, 0, 0, 0, 0, 0, 0, 0, 0, 0, 0, 0, 0, 0, 0, 0, 0, 0, 0, 0, 0, 0, 0, 0,
   0, 0, 0, 0, 0, 0, 0, 0, 0, 0, 0, 0, 0, 0, 0, 0, 0, 0, 0, 0, 0, 0, 0, 0, 0, 0, 0, 0, 0, 0, 0, 0, 0, 0, 0, 0, 0, 0, 0,
   0, 0, 0, 0, 0, 0, 0, 0, 0, 0, 0, 0, 0, 0, 0, 0, 0, 0, 0, 0, 64, 0, 0, 0, 0, 0, 0, 0, 16, 0, 0, 0, 0, 0, 0, 0, 0, 0, 0,
   0, 0, 0, 0, 0, 0, 0, 0, 0, 0, 0, 0, 0, 0, 0, 0, 0, 0, 0, 0, 0, 1, 0, 0, 0, 0, 0, 0, 0, 0, 0, 0, 0, 0, 0, 0, 0, 0, 0,
   0, 0, 0, 0, 0, 0, 0, 0, 0, 0, 0, 0, 0, 0, 0, 0, 0, 0, 0, 0, 0, 0, 0, 0, 0, 0, 0, 0, 0, 0, 0, 0, 0, 0, 0, 0, 0, 0, 0,
   0, 0, 0, 0, 0, 0, 0]"

definition many_elf :: bytes where
  "many_elf =
  [127, 69, 76, 70, 0, 0, 0, 0, 0, 0, 0, 0, 0, 0, 0, 0, 0, 0, 0, 0, 0, 0, 0, 0, 0, 0, 0, 0, 0, 0, 0, 0, 0, 0, 0, 0, 0, 0,
   0, 0, 80, 0, 0, 0, 0, 0, 0, 0, 0, 0, 0, 0, 0, 0, 0, 0, 0, 0, 64, 0, 0, 0, 1, 0, 0, 46, 99, 106, 109, 101, 116, 97,
   100, 97, 116, 97, 0, 0, 0, 0, 0, 0, 0, 0, 0, 0, 0, 0, 0, 0, 0, 0, 0, 0, 0, 0, 0, 0, 0, 0, 0, 0, 0, 0, 0, 0, 0, 0, 0,
   0, 0, 0, 0, 0, 1, 0, 0, 0, 0, 0, 0, 0, 0, 0, 0, 0, 0, 0, 0, 0, 0, 0, 0, 0, 0, 0, 0, 0, 0, 0, 0, 0, 0, 0, 0, 0, 0, 0,
   0, 0, 0, 0, 0, 0, 0, 0, 0, 0, 0, 0, 0, 0, 0, 0, 0, 0, 0, 0, 64, 0, 0, 0, 0, 0, 0, 0, 16, 0, 0, 0, 0, 0, 0, 0, 0, 0, 0,
   0, 0, 0, 0, 0, 0, 0, 0, 0, 0, 0, 0, 0, 0, 0, 0, 0, 0, 0, 0, 0, 1, 0, 0, 0, 0, 0, 0, 0, 0, 0, 0, 0, 0, 0, 0, 0, 0, 0,
   0, 0, 0, 0, 0, 0, 0, 0, 0, 0, 0, 0, 0, 0, 0, 0, 0, 0, 0, 0, 0, 0, 0, 0, 0, 0, 0, 0, 0, 0, 0, 0, 0, 0, 0, 0, 0, 0, 0,
   0, 0, 0, 0, 0, 0, 0]"

definition demo_header :: "nat \<Rightarrow> ElfEhdr" where
  "demo_header shnum = \<lparr>e_shoff = 80, e_shentsize = 64, e_shnum = of_nat shnum, e_shstrndx = 1\<rparr>"

lemmas elf_eval = read_ehdr_def read_exactly_iff header_size_def ehdr_of_def le_field_def demo_header_def section_header_def
  header_at_def shdr_of_def

lemma demo_length: "length demo_elf = 272"
  by (simp add: demo_elf_def)

lemma demo_read: "read_ehdr demo_elf = Some (demo_header 3)"
  by (simp add: elf_eval demo_elf_def)

lemma demo_sections:
  "section_header demo_elf (demo_header 3) 0 = \<lparr>sh_name = 0, sh_offset = 0, sh_size = 0, sh_link = 0\<rparr>"
  "section_header demo_elf (demo_header 3) 1 = \<lparr>sh_name = 0, sh_offset = 64, sh_size = 16, sh_link = 0\<rparr>"
  by (simp_all add: elf_eval demo_elf_def)

lemma demo_count: "section_count demo_elf (demo_header 3) = 3" and demo_names: "names_index demo_elf (demo_header 3) = 1"
  by (simp_all add: section_count_def names_index_def demo_header_def SHN_XINDEX_def)

lemma demo_complete: "complete_elf demo_elf (demo_header 3)"
  unfolding complete_elf_def demo_read demo_length demo_count demo_names demo_sections by (simp add: demo_header_def header_size_def)

theorem cj_check_safe_witness:
  "\<exists>b. IsCJModule ''arm64'' [cj_path ''arm64'' ''m'' \<mapsto> demo_elf] (\<lambda>_. True) ''m'' = Returns b \<and>
    (b \<longrightarrow> (\<exists>file. [cj_path ''arm64'' ''m'' \<mapsto> demo_elf] (cj_path ''arm64'' ''m'') = Some file \<and> 64 \<le> length file \<and>
      take (length ELF_MAGIC) file = ELF_MAGIC))"
  by (rule cj_check_safe) (auto simp: demo_length split: if_splits)


section \<open>Where the search goes wrong\<close>

text \<open>
  The number of sections that the first header holds is cut to 16 bits, although it is there because it does not fit into
  them: with 65536 sections none is looked at.
\<close>

lemma many_read: "read_ehdr many_elf = Some (demo_header 0)" and many_length: "length many_elf = 272"
  by (simp_all add: elf_eval many_elf_def)

lemma many_sections:
  "section_header many_elf (demo_header 0) 0 = \<lparr>sh_name = 0, sh_offset = 0, sh_size = 65536, sh_link = 0\<rparr>"
  "section_header many_elf (demo_header 0) 1 = \<lparr>sh_name = 0, sh_offset = 64, sh_size = 16, sh_link = 0\<rparr>"
  "section_header many_elf (demo_header 0) 2 = \<lparr>sh_name = 1, sh_offset = 0, sh_size = 0, sh_link = 0\<rparr>"
  by (simp_all add: elf_eval many_elf_def)

lemma many_index: "names_index many_elf (demo_header 0) = 1"
  by (simp add: names_index_def demo_header_def SHN_XINDEX_def)

lemma many_names: "names_table many_elf (demo_header 0) = [0, 46, 99, 106, 109, 101, 116, 97, 100, 97, 116, 97, 0, 0, 0, 0]"
proof -
  have "names_table many_elf (demo_header 0) = take 16 (drop 64 many_elf)"
    unfolding names_table_def many_index many_sections Let_def by simp
  then show ?thesis by (simp add: many_elf_def)
qed

lemma many_first: "read_shdr many_elf 80 = Some \<lparr>sh_name = 0, sh_offset = 0, sh_size = 65536, sh_link = 0\<rparr>"
  using many_sections(1) by (simp add: read_shdr_iff section_header_def demo_header_def many_length header_size_def)

theorem section_count_cut:
  "section_count many_elf (demo_header 0) = 65536 \<and>
   name_from (names_table many_elf (demo_header 0)) (unat (sh_name (section_header many_elf (demo_header 0) 2))) = CJ_METADATA \<and>
   HasCJMetadata (\<lambda>_. True) many_elf = Returns False"
proof (intro conjI)
  show "section_count many_elf (demo_header 0) = 65536"
    unfolding section_count_def many_sections by (simp add: demo_header_def)
  show "name_from (names_table many_elf (demo_header 0)) (unat (sh_name (section_header many_elf (demo_header 0) 2))) = CJ_METADATA"
    unfolding many_names many_sections by (simp add: name_from_def CJ_METADATA_def ascii_def)
  have "LoadExtendedInfo many_elf 80 0 1 = Some (0, 1)"
    by (simp add: LoadExtendedInfo_def many_first SHN_XINDEX_def)
  then show "HasCJMetadata (\<lambda>_. True) many_elf = Returns False"
    by (simp add: HasCJMetadata_def many_read demo_header_def load_names_def)
qed

text \<open>The product of the index and the size of a header is an \<open>int\<close>: it overflows for sizes that the file chooses.\<close>

theorem header_offset_overflows:
  assumes "unat (e_shentsize h) = 65535"
  shows "scan_sections bs h names 32769 1 = Fault"
  using assms by simp

end
