(* ===== verification/Js_Strings.thy ===== *)
theory Js_Strings
  imports Napi_Call "HOL-Library.Word"
begin

text \<open>
  Strings between C and JS (native\_engine/native\_api.cpp, native\_node\_api.cpp, and the two encoders of
  native\_engine.cpp): how long the C string is, how much of a buffer is written, and where the terminator goes.

  A JS string is its code units.  The encodings are the VM's: the record \<open>string_vm\<close> holds how it encodes and decodes, and how many
  units a write with a given room puts down.  A pointer into C memory is the list of what is there from the pointer to the end of the
  allocation; an access behind it is \<open>Fault\<close>.  Strings of more than \<open>INT_MAX\<close> units are not considered.
\<close>

section \<open>The VM and the memory\<close>

type_synonym js_string = "u16 list"

record string_vm =
  utf8 :: "js_string \<Rightarrow> u8 list"
  from_utf8 :: "u8 list \<Rightarrow> js_string"
  latin1 :: "js_string \<Rightarrow> u8 list"
  write_utf8 :: "js_string \<Rightarrow> nat \<Rightarrow> nat"
  write_utf16 :: "js_string \<Rightarrow> nat \<Rightarrow> nat"
  write_latin1 :: "js_string \<Rightarrow> nat \<Rightarrow> nat"
  write_terminates :: bool

record string_env = call_env +
  string_at :: "nat \<rightharpoonup> js_string"

definition new_string :: "nat \<Rightarrow> js_string \<Rightarrow> string_env \<Rightarrow> string_env" where
  "new_string v str s = s\<lparr>string_at := (string_at s)(v \<mapsto> str)\<rparr>"

definition c_strlen :: "'c :: zero list \<Rightarrow> nat outcome" where
  "c_strlen mem = (if 0 \<in> set mem then Returns (length (takeWhile (\<lambda>c. c \<noteq> 0) mem)) else Fault)"

definition read_units :: "nat \<Rightarrow> 'c list \<Rightarrow> 'c list outcome" where
  "read_units n mem = (if n \<le> length mem then Returns (take n mem) else Fault)"

text \<open>Writing units at a position, and one unit.\<close>

definition write_units :: "'c list \<Rightarrow> nat \<Rightarrow> 'c list \<Rightarrow> 'c list outcome" where
  "write_units xs p mem = (if p + length xs \<le> length mem then Returns (take p mem @ xs @ drop (p + length xs) mem) else Fault)"

section \<open>Making strings\<close>

definition SMALL_STRING_SIZE :: u64 where "SMALL_STRING_SIZE = 16"

text \<open>The units that a call with \<open>str\<close> and \<open>len\<close> hands to the VM.\<close>

definition string_units :: "u64 \<Rightarrow> 'c :: zero list \<Rightarrow> 'c list outcome" where
  "string_units len mem =
     (if len < SMALL_STRING_SIZE then read_units (unat len) mem
      else obind (if len = NAPI_AUTO_LENGTH then c_strlen mem else Returns (unat len)) (\<lambda>n. read_units n mem))"

definition napi_create_string_utf8 ::
    "string_vm \<Rightarrow> bool \<Rightarrow> nat \<Rightarrow> u8 list option \<Rightarrow> u64 \<Rightarrow> unit option \<Rightarrow> string_env \<Rightarrow> (string_env \<times> napi_status \<times> nat option) outcome" where
  "napi_create_string_utf8 vm env v str len result =
     CHECK_ENV env (CHECK_ARG str (CHECK_ARG result (\<lambda>s.
       obind (string_units len (the str)) (\<lambda>bs. napi_clear_last_error (Some v) (new_string v (from_utf8 vm bs) s)))))"

text \<open>The bytes go through the same decoder as those of \<open>napi_create_string_utf8\<close>.\<close>

definition napi_create_string_latin1 ::
    "string_vm \<Rightarrow> bool \<Rightarrow> nat \<Rightarrow> u8 list option \<Rightarrow> u64 \<Rightarrow> unit option \<Rightarrow> string_env \<Rightarrow> (string_env \<times> napi_status \<times> nat option) outcome" where
  "napi_create_string_latin1 vm env v str len result =
     CHECK_ENV env (CHECK_ARG str (CHECK_ARG result (\<lambda>s.
       obind (string_units len (the str)) (\<lambda>bs. napi_clear_last_error (Some v) (new_string v (from_utf8 vm bs) s)))))"

text \<open>The decoder with replacement is another function of the VM, \<open>replacing\<close>.\<close>

definition napi_create_string_utf8_with_replacement ::
    "(u8 list \<Rightarrow> js_string) \<Rightarrow> bool \<Rightarrow> vm_call \<Rightarrow> nat \<Rightarrow> u8 list option \<Rightarrow> u64 \<Rightarrow> unit option \<Rightarrow> string_env \<Rightarrow>
     (string_env \<times> napi_status \<times> nat option) outcome" where
  "napi_create_string_utf8_with_replacement replacing env c v str len result =
     NAPI_PREAMBLE env c (CHECK_ARG str (CHECK_ARG result (\<lambda>s.
       obind (string_units len (the str)) (\<lambda>bs. GET_RETURN_STATUS c (Some v) (new_string v (replacing bs) s)))))"

definition length_usable :: "u64 \<Rightarrow> bool" where
  "length_usable len \<longleftrightarrow> len = NAPI_AUTO_LENGTH \<or> unat len \<le> INT_MAX"

text \<open>The length of the C string is computed also when the caller gives it.\<close>

definition napi_create_string_utf16 ::
    "bool \<Rightarrow> nat \<Rightarrow> u16 list option \<Rightarrow> u64 \<Rightarrow> unit option \<Rightarrow> string_env \<Rightarrow> (string_env \<times> napi_status \<times> nat option) outcome" where
  "napi_create_string_utf16 env v str len result =
     CHECK_ENV env (CHECK_ARG str (CHECK_ARG result (RETURN_STATUS_IF_FALSE (length_usable len) napi_invalid_arg (\<lambda>s.
       obind (c_strlen (the str)) (\<lambda>char16Length.
       obind (if len < SMALL_STRING_SIZE then read_units (unat len) (the str)
              else read_units (if len = NAPI_AUTO_LENGTH then char16Length else unat len) (the str)) (\<lambda>us.
         napi_clear_last_error (Some v) (new_string v us s)))))))"

text \<open>\<open>made\<close> tells whether the VM could make the external string; if not, nothing is written.\<close>

definition external_units :: "u64 \<Rightarrow> 'c :: zero list \<Rightarrow> 'c list outcome" where
  "external_units len mem = obind (if len = NAPI_AUTO_LENGTH then c_strlen mem else Returns (unat len)) (\<lambda>n. read_units n mem)"

definition napi_create_external_string_utf16 ::
    "bool \<Rightarrow> vm_call \<Rightarrow> bool \<Rightarrow> nat \<Rightarrow> u16 list option \<Rightarrow> u64 \<Rightarrow> unit option \<Rightarrow> string_env \<Rightarrow> (string_env \<times> napi_status \<times> nat option) outcome" where
  "napi_create_external_string_utf16 env c made v str len result =
     NAPI_PREAMBLE env c (CHECK_ARG str (CHECK_ARG result (RETURN_STATUS_IF_FALSE (length_usable len) napi_invalid_arg (\<lambda>s.
       obind (external_units len (the str)) (\<lambda>us.
         if \<not> made then GET_RETURN_STATUS c None s else GET_RETURN_STATUS c (Some v) (new_string v us s))))))"

definition napi_create_external_string_ascii ::
    "bool \<Rightarrow> vm_call \<Rightarrow> bool \<Rightarrow> nat \<Rightarrow> u8 list option \<Rightarrow> u64 \<Rightarrow> unit option \<Rightarrow> string_env \<Rightarrow> (string_env \<times> napi_status \<times> nat option) outcome" where
  "napi_create_external_string_ascii env c made v str len result =
     NAPI_PREAMBLE env c (CHECK_ARG str (CHECK_ARG result (RETURN_STATUS_IF_FALSE (length_usable len) napi_invalid_arg (\<lambda>s.
       obind (external_units len (the str)) (\<lambda>bs.
         if \<not> made then GET_RETURN_STATUS c None s else GET_RETURN_STATUS c (Some v) (new_string v (map ucast bs) s))))))"

section \<open>Reading strings\<close>

text \<open>What a read leaves: the buffer, if there is one, and the number written through the result pointer.\<close>

type_synonym 'c string_out = "'c list option \<times> nat option"

text \<open>Units at the start of the buffer and the terminator behind them.\<close>

definition put_terminated :: "'c :: zero list \<Rightarrow> 'c list \<Rightarrow> 'c list outcome" where
  "put_terminated xs buf = obind (write_units xs 0 buf) (write_units [0] (length xs))"

definition napi_get_value_string_latin1 ::
    "string_vm \<Rightarrow> bool \<Rightarrow> nat option \<Rightarrow> u8 list option \<Rightarrow> u64 \<Rightarrow> unit option \<Rightarrow> string_env \<Rightarrow>
     (string_env \<times> napi_status \<times> u8 string_out option) outcome" where
  "napi_get_value_string_latin1 vm env val buf bufsize result =
     CHECK_ENV env (CHECK_ARG val (\<lambda>s.
     RETURN_STATUS_IF_FALSE (string_at s (the val) \<noteq> None) napi_string_expected (\<lambda>s.
       let str = the (string_at s (the val)) in
       case buf of
         None \<Rightarrow> CHECK_ARG result (napi_clear_last_error (Some (None, Some (length str)))) s
       | Some b \<Rightarrow>
           if bufsize \<noteq> 0
           then let copied = write_latin1 vm str (unat bufsize)
                in obind (put_terminated (take copied (latin1 vm str)) b) (\<lambda>b'.
                     napi_clear_last_error (Some (Some b', map_option (\<lambda>_. copied) result)) s)
           else napi_clear_last_error (Some (Some b, map_option (\<lambda>_. 0) result)) s) s))"

definition napi_get_value_string_utf8 ::
    "string_vm \<Rightarrow> bool \<Rightarrow> nat option \<Rightarrow> u8 list option \<Rightarrow> u64 \<Rightarrow> unit option \<Rightarrow> string_env \<Rightarrow>
     (string_env \<times> napi_status \<times> u8 string_out option) outcome" where
  "napi_get_value_string_utf8 vm env val buf bufsize result =
     CHECK_ENV env (CHECK_ARG val (\<lambda>s.
     RETURN_STATUS_IF_FALSE (string_at s (the val) \<noteq> None) napi_string_expected (\<lambda>s.
       let str = the (string_at s (the val)) in
       case buf of
         None \<Rightarrow> CHECK_ARG result (napi_clear_last_error (Some (None, Some (length (utf8 vm str))))) s
       | Some b \<Rightarrow>
           if bufsize \<noteq> 0
           then let copied = write_utf8 vm str (unat (bufsize - 1))
                in obind (put_terminated (take copied (utf8 vm str)) b) (\<lambda>b'.
                     napi_clear_last_error (Some (Some b', map_option (\<lambda>_. copied) result)) s)
           else napi_clear_last_error (Some (Some b, map_option (\<lambda>_. 0) result)) s) s))"

definition napi_get_value_string_utf16 ::
    "string_vm \<Rightarrow> bool \<Rightarrow> nat option \<Rightarrow> u16 list option \<Rightarrow> u64 \<Rightarrow> unit option \<Rightarrow> string_env \<Rightarrow>
     (string_env \<times> napi_status \<times> u16 string_out option) outcome" where
  "napi_get_value_string_utf16 vm env val buf bufsize result =
     CHECK_ENV env (CHECK_ARG val (\<lambda>s.
     RETURN_STATUS_IF_FALSE (string_at s (the val) \<noteq> None) napi_string_expected (\<lambda>s.
       let str = the (string_at s (the val)) in
       case buf of
         None \<Rightarrow> CHECK_ARG result (napi_clear_last_error (Some (None, Some (length str)))) s
       | Some b \<Rightarrow>
           if bufsize = 1
           then obind (write_units [0] 0 b) (\<lambda>b'. napi_clear_last_error (Some (Some b', map_option (\<lambda>_. 0) result)) s)
           else if bufsize \<noteq> 0
           then let copied = write_utf16 vm str (unat (bufsize - 1))
                in obind (put_terminated (take copied str) b) (\<lambda>b'.
                     napi_clear_last_error (Some (Some b', map_option (\<lambda>_. copied) result)) s)
           else napi_clear_last_error (Some (Some b, map_option (\<lambda>_. 0) result)) s) s))"

text \<open>\<open>GetCString\<close> of ark\_native\_engine.cpp, which answers nothing without a place for the length.\<close>

definition GetCString :: "string_vm \<Rightarrow> js_string \<Rightarrow> u8 list option \<Rightarrow> u64 \<Rightarrow> unit option \<Rightarrow> u8 string_out outcome" where
  "GetCString vm str buffer n len =
     (if len = None then Returns (buffer, None)
      else case buffer of
        None \<Rightarrow> Returns (None, Some (length (utf8 vm str)))
      | Some b \<Rightarrow>
          if n \<noteq> 0
          then let copied = write_utf8 vm str (unat (n - 1))
               in obind (put_terminated (take copied (utf8 vm str)) b) (\<lambda>b'. Returns (Some b', Some copied))
          else Returns (Some b, Some 0))"

section \<open>The encoders\<close>

text \<open>
  \<open>EncodeToUtf8\<close> goes through the code units one by one.  The VM may put a terminator behind what it writes when the room it was given allows.
\<close>

fun SubEncodeToUtf8 :: "string_vm \<Rightarrow> js_string \<Rightarrow> u8 list \<Rightarrow> u32 \<Rightarrow> u32 \<Rightarrow> nat \<Rightarrow> (u8 list \<times> u32 \<times> nat) outcome" where
  "SubEncodeToUtf8 vm [] buffer pos writableSize i = Returns (buffer, pos, i)"
| "SubEncodeToUtf8 vm (u # us) buffer pos writableSize i =
     (let bs = utf8 vm [u]; len = (of_nat (length bs) :: u32)
      in if len > writableSize then Returns (buffer, pos, i)
         else obind (write_units (if write_terminates vm \<and> length bs < unat writableSize then bs @ [0] else bs) (unat pos) buffer) (\<lambda>b.
                SubEncodeToUtf8 vm us b (pos + len) (writableSize - len) (Suc i)))"

text \<open>The value is a string, or null or something that is not turned into one; \<open>None\<close>: nothing was written.\<close>

definition EncodeToUtf8 :: "string_vm \<Rightarrow> js_string option \<Rightarrow> u8 list option \<Rightarrow> bool \<Rightarrow> u64 \<Rightarrow> bool \<Rightarrow> (u8 list \<times> u32 \<times> nat) option outcome" where
  "EncodeToUtf8 vm val buffer written bufferSize nchars =
     (case val of None \<Rightarrow> Returns None | Some str \<Rightarrow>
      if \<not> nchars \<or> \<not> written then Returns None
      else case buffer of None \<Rightarrow> Returns None | Some b \<Rightarrow>
        obind (SubEncodeToUtf8 vm str b 0 (ucast bufferSize) 0) (\<lambda>r. Returns (Some r)))"

text \<open>
  \<open>SubEncodeToChinese\<close> collects the UTF-8 of code units in \<open>tempBuf\<close>, of which \<open>pos\<close> bytes are used, and hands them to ICU before they are 22.
  \<open>conv\<close> is \<open>ucnv_convert\<close> into 22 bytes: \<open>None\<close> when the error code is not zero, which it is also when the
  output fills them.  What was converted is appended as a C string.
\<close>

definition CHUNK :: nat where "CHUNK = 22"

fun chinese_loop :: "string_vm \<Rightarrow> (u8 list \<Rightarrow> u8 list option) \<Rightarrow> js_string \<Rightarrow> u8 list \<Rightarrow> u8 list \<Rightarrow> (u8 list \<times> u8 list option) outcome" where
  "chinese_loop vm conv [] buffer used = Returns (buffer, Some used)"
| "chinese_loop vm conv (u # us) buffer used =
     (let bs = utf8 vm [u]
      in if length used + length bs \<ge> CHUNK
         then (case conv used of
                 None \<Rightarrow> Returns (buffer, None)
               | Some out \<Rightarrow> if length bs \<le> CHUNK + 1
                   then chinese_loop vm conv us (buffer @ takeWhile (\<lambda>b. b \<noteq> 0) out) bs else Fault)
         else chinese_loop vm conv us buffer (used @ bs))"

definition SubEncodeToChinese :: "string_vm \<Rightarrow> (u8 list \<Rightarrow> u8 list option) \<Rightarrow> js_string \<Rightarrow> u8 list \<Rightarrow> u8 list outcome" where
  "SubEncodeToChinese vm conv str buffer =
     obind (chinese_loop vm conv str buffer []) (\<lambda>(buf, used).
       case used of
         None \<Rightarrow> Returns buf
       | Some us \<Rightarrow> if length us > 0
           then (case conv us of None \<Rightarrow> Returns buf | Some out \<Rightarrow> Returns (buf @ takeWhile (\<lambda>b. b \<noteq> 0) out))
           else Returns buf)"

definition EncodeToChinese :: "string_vm \<Rightarrow> (string \<Rightarrow> u8 list \<Rightarrow> u8 list option) \<Rightarrow> js_string option option \<Rightarrow> u8 list \<Rightarrow> string \<Rightarrow> u8 list outcome" where
  "EncodeToChinese vm convs val buffer encoding =
     (case val of None \<Rightarrow> Returns buffer
      | Some None \<Rightarrow> Returns buffer
      | Some (Some str) \<Rightarrow> SubEncodeToChinese vm (convs encoding) str buffer)"

section \<open>Lemmas\<close>

lemmas string_calls = CHECK_ENV_def CHECK_ARG_def RETURN_STATUS_IF_FALSE_def napi_clear_last_error_def Let_def

text \<open>A write of the VM puts down a prefix that has room, and everything when everything has room.\<close>

definition writes_within :: "(js_string \<Rightarrow> 'c list) \<Rightarrow> (js_string \<Rightarrow> nat \<Rightarrow> nat) \<Rightarrow> bool" where
  "writes_within enc w \<longleftrightarrow> (\<forall>str room. w str room \<le> room \<and> w str room \<le> length (enc str) \<and>
     (length (enc str) \<le> room \<longrightarrow> w str room = length (enc str)))"

text \<open>What a read should leave in a buffer \<open>b\<close> of \<open>n\<close> units, for the units \<open>xs\<close>.\<close>

definition terminated_prefix :: "'c :: zero list \<Rightarrow> nat \<Rightarrow> 'c list \<Rightarrow> 'c list \<Rightarrow> nat \<Rightarrow> bool" where
  "terminated_prefix xs n b b' copied \<longleftrightarrow>
     copied < n \<and> copied \<le> length xs \<and> b' = take copied xs @ 0 # drop (Suc copied) b \<and> (length xs < n \<longrightarrow> copied = length xs)"

lemma put_terminated_ok: "length xs < length b \<Longrightarrow> put_terminated xs b = Returns (xs @ 0 # drop (Suc (length xs)) b)"
  by (simp add: put_terminated_def write_units_def)

lemma put_terminated_Fault: "length b \<le> length xs \<Longrightarrow> put_terminated xs b = Fault"
  by (simp add: put_terminated_def write_units_def)

lemma Suc_unat_pred: "(n :: u64) \<noteq> 0 \<Longrightarrow> Suc (unat (n - 1)) = unat n"
  using unat_minus_one [of n] unat_gt_0 [of n] by simp

lemma terminated_prefixI:
  assumes "c \<le> room" "c \<le> length xs" "length xs \<le> room \<longrightarrow> c = length xs" "Suc room = n" "n \<le> length b"
  shows "\<exists>b'. put_terminated (take c xs) b = Returns b' \<and> terminated_prefix xs n b b' c"
proof -
  have "put_terminated (take c xs) b = Returns (take c xs @ 0 # drop (Suc (length (take c xs))) b)"
    using assms by (intro put_terminated_ok) simp
  moreover have "length (take c xs) = c" using assms(2) by simp
  ultimately show ?thesis using assms by (simp add: terminated_prefix_def)
qed

lemma write_terminated:
  assumes "writes_within enc w" "n \<noteq> (0 :: u64)" "unat n \<le> length b"
  shows "\<exists>b'. put_terminated (take (w str (unat (n - 1))) (enc str)) b = Returns b' \<and>
    terminated_prefix (enc str) (unat n) b b' (w str (unat (n - 1)))"
proof (rule terminated_prefixI [OF _ _ _ Suc_unat_pred [OF assms(2)] assms(3)])
  from assms(1) show "w str (unat (n - 1)) \<le> unat (n - 1)" "w str (unat (n - 1)) \<le> length (enc str)"
    and "length (enc str) \<le> unat (n - 1) \<longrightarrow> w str (unat (n - 1)) = length (enc str)"
    unfolding writes_within_def by blast+
qed

text \<open>
  C17: Reading a string as UTF-8 or UTF-16 stays inside the buffer for every string, buffer and size (0 and 1 included): the call answers
  \<open>napi_ok\<close>, the buffer holds a prefix of the encoding and a terminator behind it, everything else in it is unchanged, and the number
  reported is that of the units before the terminator.  The prefix is the whole encoding as soon as the size is larger than the length that the
  call without a buffer reports.  The VM is assumed to write at most what has room, and everything that has.
\<close>

theorem string_reads_bounded:
  assumes "writes_within (utf8 vm) (write_utf8 vm)" "writes_within (\<lambda>us. us) (write_utf16 vm)"
    and "string_at s v = Some str" "unat n8 \<le> length b8" "unat n16 \<le> length b16"
  shows "napi_get_value_string_utf8 vm True (Some v) None n8 (Some ()) s
      = Returns (s\<lparr>lastError := napi_ok\<rparr>, napi_ok, Some (None, Some (length (utf8 vm str)))) \<and>
    (\<exists>b' k. napi_get_value_string_utf8 vm True (Some v) (Some b8) n8 (Some ()) s
      = Returns (s\<lparr>lastError := napi_ok\<rparr>, napi_ok, Some (Some b', Some k)) \<and>
      (if n8 = 0 then b' = b8 \<and> k = 0 else terminated_prefix (utf8 vm str) (unat n8) b8 b' k)) \<and>
    napi_get_value_string_utf16 vm True (Some v) None n16 (Some ()) s
      = Returns (s\<lparr>lastError := napi_ok\<rparr>, napi_ok, Some (None, Some (length str))) \<and>
    (\<exists>b' k. napi_get_value_string_utf16 vm True (Some v) (Some b16) n16 (Some ()) s
      = Returns (s\<lparr>lastError := napi_ok\<rparr>, napi_ok, Some (Some b', Some k)) \<and>
      (if n16 = 0 then b' = b16 \<and> k = 0 else terminated_prefix str (unat n16) b16 b' k))"
proof (intro conjI)
  show "napi_get_value_string_utf8 vm True (Some v) None n8 (Some ()) s
      = Returns (s\<lparr>lastError := napi_ok\<rparr>, napi_ok, Some (None, Some (length (utf8 vm str))))"
    using assms(3) by (simp add: napi_get_value_string_utf8_def string_calls)
  show "napi_get_value_string_utf16 vm True (Some v) None n16 (Some ()) s
      = Returns (s\<lparr>lastError := napi_ok\<rparr>, napi_ok, Some (None, Some (length str)))"
    using assms(3) by (simp add: napi_get_value_string_utf16_def string_calls)
  show "\<exists>b' k. napi_get_value_string_utf8 vm True (Some v) (Some b8) n8 (Some ()) s
      = Returns (s\<lparr>lastError := napi_ok\<rparr>, napi_ok, Some (Some b', Some k)) \<and>
      (if n8 = 0 then b' = b8 \<and> k = 0 else terminated_prefix (utf8 vm str) (unat n8) b8 b' k)"
  proof (cases "n8 = 0")
    case False
    from write_terminated [OF assms(1) False assms(4), of str] obtain b'
      where "put_terminated (take (write_utf8 vm str (unat (n8 - 1))) (utf8 vm str)) b8 = Returns b'"
        and "terminated_prefix (utf8 vm str) (unat n8) b8 b' (write_utf8 vm str (unat (n8 - 1)))" by blast
    with False assms(3) show ?thesis by (simp add: napi_get_value_string_utf8_def string_calls)
  qed (use assms(3) in \<open>simp add: napi_get_value_string_utf8_def string_calls\<close>)
  show "\<exists>b' k. napi_get_value_string_utf16 vm True (Some v) (Some b16) n16 (Some ()) s
      = Returns (s\<lparr>lastError := napi_ok\<rparr>, napi_ok, Some (Some b', Some k)) \<and>
      (if n16 = 0 then b' = b16 \<and> k = 0 else terminated_prefix str (unat n16) b16 b' k)"
  proof (cases "n16 = 0 \<or> n16 = 1")
    case False
    then have n: "n16 \<noteq> 0" by simp
    from write_terminated [OF assms(2) n assms(5), of str] obtain b'
      where "put_terminated (take (write_utf16 vm str (unat (n16 - 1))) str) b16 = Returns b'"
        and "terminated_prefix str (unat n16) b16 b' (write_utf16 vm str (unat (n16 - 1)))" by blast
    with False assms(3) show ?thesis by (simp add: napi_get_value_string_utf16_def string_calls)
  next
    case True
    with assms(3,5) show ?thesis
      by (elim disjE) (simp_all add: napi_get_value_string_utf16_def string_calls write_units_def terminated_prefix_def)
  qed
qed

text \<open>A VM with one byte for a unit.\<close>

definition ascii_vm :: string_vm where
  "ascii_vm = \<lparr>utf8 = map ucast, from_utf8 = map ucast, latin1 = map ucast, write_utf8 = (\<lambda>str room. min room (length str)),
     write_utf16 = (\<lambda>str room. min room (length str)), write_latin1 = (\<lambda>str room. min room (length str)), write_terminates = True\<rparr>"

lemma ascii_vm_simps [simp]: "utf8 ascii_vm = map ucast" "from_utf8 ascii_vm = map ucast" "write_terminates ascii_vm"
    "latin1 ascii_vm = map ucast"
    "write_utf8 ascii_vm str room = min room (length str)" "write_utf16 ascii_vm str room = min room (length str)"
    "write_latin1 ascii_vm str room = min room (length str)"
  by (simp_all add: ascii_vm_def)

lemma ascii_vm_writes: "writes_within (utf8 ascii_vm) (write_utf8 ascii_vm)" "writes_within (\<lambda>us. us) (write_utf16 ascii_vm)"
  by (auto simp: writes_within_def ascii_vm_def)

definition env0 :: string_env where
  "env0 = \<lparr>lastException = False, lastError = napi_ok, string_at = [0 \<mapsto> [72, 105, 33]]\<rparr>"

theorem string_reads_bounded_witness:
  "\<exists>b' k. napi_get_value_string_utf8 ascii_vm True (Some 0) (Some [1, 2, 3]) 3 (Some ()) env0
      = Returns (env0\<lparr>lastError := napi_ok\<rparr>, napi_ok, Some (Some b', Some k)) \<and>
      (if (3 :: u64) = 0 then b' = [1, 2, 3] \<and> k = 0 else terminated_prefix (utf8 ascii_vm [72, 105, 33]) (unat (3 :: u64)) [1, 2, 3] b' k)"
  using string_reads_bounded [where vm = ascii_vm and s = env0 and v = 0 and str = "[72, 105, 33]" and ?b8.0 = "[1, 2, 3]" and ?n8.0 = 3
      and ?b16.0 = "[]" and ?n16.0 = 0, OF ascii_vm_writes]
  by (simp add: env0_def)

text \<open>The Latin-1 read hands the VM the whole size: when the string fills it, the terminator is written behind the buffer.\<close>

theorem latin1_terminator_overrun:
  "napi_get_value_string_latin1 ascii_vm True (Some 0) (Some [1, 2, 3]) 3 (Some ()) env0 = Fault"
  by (simp add: napi_get_value_string_latin1_def string_calls env0_def ascii_vm_def put_terminated_def write_units_def)

text \<open>The same read with a size that is larger than the string is correct.\<close>

lemma latin1_read_ok:
  assumes "string_at s v = Some str" "writes_within (latin1 vm) (write_latin1 vm)"
    and "length (latin1 vm str) < unat n" "unat n \<le> length b"
  shows "napi_get_value_string_latin1 vm True (Some v) (Some b) n (Some ()) s = Returns (s\<lparr>lastError := napi_ok\<rparr>, napi_ok,
    Some (Some (latin1 vm str @ 0 # drop (Suc (length (latin1 vm str))) b), Some (length (latin1 vm str))))"
proof -
  have "write_latin1 vm str (unat n) = length (latin1 vm str)" using assms(2,3) unfolding writes_within_def by (meson less_imp_le)
  moreover have "n \<noteq> 0" using assms(3) by auto
  ultimately show ?thesis using assms(1,3,4) by (simp add: napi_get_value_string_latin1_def string_calls put_terminated_ok)
qed

section \<open>Round trips\<close>

lemma c_strlen_terminated: "0 \<notin> set xs \<Longrightarrow> c_strlen (xs @ 0 # rest) = Returns (length xs)"
proof -
  assume "0 \<notin> set xs"
  then have "takeWhile (\<lambda>c. c \<noteq> 0) (xs @ 0 # rest) = xs" by (induction xs) auto
  then show ?thesis by (simp add: c_strlen_def)
qed

lemma string_units_auto: "0 \<notin> set xs \<Longrightarrow> string_units NAPI_AUTO_LENGTH (xs @ 0 # rest) = Returns xs"
  by (simp add: string_units_def NAPI_AUTO_LENGTH_def SMALL_STRING_SIZE_def c_strlen_terminated read_units_def)

lemma string_units_length:
  "length xs < 2 ^ 64 - 1 \<Longrightarrow> string_units (of_nat (length xs)) (xs @ rest) = Returns xs"
proof -
  assume len: "length xs < 2 ^ 64 - 1"
  then have u: "unat (of_nat (length xs) :: u64) = length xs" by (simp add: unsigned_of_nat take_bit_nat_eq_self)
  have "unat NAPI_AUTO_LENGTH = 2 ^ 64 - 1" by (simp add: NAPI_AUTO_LENGTH_def unsigned_minus_1_eq_mask mask_eq_exp_minus_1)
  with u len have "of_nat (length xs) \<noteq> NAPI_AUTO_LENGTH" by (metis less_irrefl)
  then show ?thesis by (simp add: string_units_def u read_units_def)
qed

text \<open>
  C35: Creating a JS string from UTF-8 bytes and reading it back gives the same bytes: with the length given (and whatever follows in memory,
  terminated or not) or, for bytes without a zero, up to the terminator; the second call reports their number, and terminates them in the caller's
  buffer, which has only to be one larger than the bytes.  The bytes are such that the VM encodes what it decoded from them (well-formed UTF-8).
\<close>

theorem string_utf8_roundtrip:
  assumes "utf8 vm (from_utf8 vm bs) = bs" "writes_within (utf8 vm) (write_utf8 vm)" "length bs < 2 ^ 64 - 1"
    and "n = of_nat (length bs) \<and> mem = bs @ rest \<or> n = NAPI_AUTO_LENGTH \<and> 0 \<notin> set bs \<and> mem = bs @ 0 # rest"
    and "length bs < unat bufsize" "unat bufsize \<le> length buf"
  shows "\<exists>s'. napi_create_string_utf8 vm True v (Some mem) n (Some ()) s = Returns (s', napi_ok, Some v) \<and>
    napi_get_value_string_utf8 vm True (Some v) (Some buf) bufsize (Some ()) s' =
      Returns (s', napi_ok, Some (Some (bs @ 0 # drop (Suc (length bs)) buf), Some (length bs)))"
proof -
  let ?s' = "new_string v (from_utf8 vm bs) s\<lparr>lastError := napi_ok\<rparr>"
  have "string_units n mem = Returns bs" using assms(3,4) string_units_auto string_units_length by blast
  then have "napi_create_string_utf8 vm True v (Some mem) n (Some ()) s = Returns (?s', napi_ok, Some v)"
    by (simp add: napi_create_string_utf8_def string_calls)
  moreover have "string_at ?s' v = Some (from_utf8 vm bs)" by (simp add: new_string_def)
  moreover have nz: "bufsize \<noteq> 0" using assms(5) by auto
  moreover have "write_utf8 vm (from_utf8 vm bs) (unat (bufsize - 1)) = length bs"
    using assms(1,2,5) Suc_unat_pred [OF nz] unfolding writes_within_def by (metis Suc_le_mono less_eq_Suc_le)
  ultimately show ?thesis using assms(1,5,6)
    by (intro exI [of _ ?s']) (simp add: napi_get_value_string_utf8_def string_calls put_terminated_ok)
qed

theorem string_utf8_roundtrip_witness:
  "\<exists>s'. napi_create_string_utf8 ascii_vm True 7 (Some ([72, 105] @ 0 # [9])) NAPI_AUTO_LENGTH (Some ()) env0 = Returns (s', napi_ok, Some 7) \<and>
    napi_get_value_string_utf8 ascii_vm True (Some 7) (Some [1, 2, 3, 4]) 4 (Some ()) s' =
      Returns (s', napi_ok, Some (Some ([72, 105] @ 0 # drop (Suc (length [72 :: u8, 105])) [1, 2, 3, 4]), Some (length [72 :: u8, 105])))"
  by (rule string_utf8_roundtrip [OF _ ascii_vm_writes(1)]) (auto simp: ascii_vm_def)

text \<open>A UTF-16 buffer that is not terminated is read behind its end although its length is given.\<close>

theorem utf16_length_overread:
  "napi_create_string_utf16 True 7 (Some [72, 105]) 2 (Some ()) env0 = Fault"
  by (simp add: napi_create_string_utf16_def string_calls length_usable_def INT_MAX_def c_strlen_def)

section \<open>The UTF-8 encoder\<close>

definition unit_bytes :: "string_vm \<Rightarrow> js_string \<Rightarrow> u8 list" where
  "unit_bytes vm us = concat (map (\<lambda>u. utf8 vm [u]) us)"

lemma unit_bytes_simps [simp]: "unit_bytes vm [] = []" "unit_bytes vm (u # us) = utf8 vm [u] @ unit_bytes vm us"
  "unit_bytes vm (us @ ws) = unit_bytes vm us @ unit_bytes vm ws"
  by (simp_all add: unit_bytes_def)

text \<open>The state after \<open>k\<close> units of \<open>us\<close> were written at \<open>pos\<close> into a buffer that has \<open>room\<close> from there.\<close>

definition encoded :: "string_vm \<Rightarrow> js_string \<Rightarrow> nat \<Rightarrow> nat \<Rightarrow> nat \<Rightarrow> u8 list \<Rightarrow> u8 list \<Rightarrow> bool" where
  "encoded vm us k pos room buf buf' \<longleftrightarrow> k \<le> length us \<and> length buf' = length buf \<and> length (unit_bytes vm (take k us)) \<le> room \<and>
     take (pos + length (unit_bytes vm (take k us))) buf' = take pos buf @ unit_bytes vm (take k us) \<and>
     drop (pos + room) buf' = drop (pos + room) buf \<and>
     (k < length us \<longrightarrow> room < length (unit_bytes vm (take (Suc k) us)))"

lemma write_with_terminator:
  assumes "length bs \<le> room" "pos + room \<le> length buf"
  shows "\<exists>b. write_units (if term \<and> length bs < room then bs @ [0] else bs) pos buf = Returns b \<and> length b = length buf \<and>
    take (pos + length bs) b = take pos buf @ bs \<and> drop (pos + room) b = drop (pos + room) buf"
  using assms by (auto simp: write_units_def add.commute)

lemma encoded_Cons:
  assumes "encoded vm us k (pos + length (utf8 vm [u])) (room - length (utf8 vm [u])) b b'" "length (utf8 vm [u]) \<le> room"
    and "length b = length buf" "take (pos + length (utf8 vm [u])) b = take pos buf @ utf8 vm [u]" "drop (pos + room) b = drop (pos + room) buf"
  shows "encoded vm (u # us) (Suc k) pos room buf b'"
  using assms by (auto simp: encoded_def add.assoc)

lemma SubEncodeToUtf8_encoded:
  assumes "\<forall>u. length (utf8 vm [u]) < 2 ^ 32" "unat pos + unat w \<le> length buf" "unat pos + unat w < 2 ^ 32"
  shows "\<exists>k b'. SubEncodeToUtf8 vm us buf pos w i = Returns (b', pos + of_nat (length (unit_bytes vm (take k us))), i + k) \<and>
    encoded vm us k (unat pos) (unat w) buf b'"
  using assms(2,3)
proof (induction us arbitrary: buf pos w i)
  case Nil
  then show ?case by (simp add: encoded_def)
next
  case (Cons u us)
  let ?bs = "utf8 vm [u]" and ?l = "of_nat (length (utf8 vm [u])) :: u32"
  have l: "unat ?l = length ?bs" using assms(1) by (simp add: unsigned_of_nat take_bit_nat_eq_self)
  show ?case
  proof (cases "?l > w")
    case True
    then have "unat w < length ?bs" using l by (simp add: word_less_nat_alt)
    with True show ?thesis by (intro exI [of _ 0] exI [of _ buf]) (simp add: encoded_def)
  next
    case False
    then have le: "length ?bs \<le> unat w" using l by (simp add: word_less_nat_alt)
    from write_with_terminator [OF le Cons.prems(1), of "write_terminates vm"] obtain b where
      b: "write_units (if write_terminates vm \<and> length ?bs < unat w then ?bs @ [0] else ?bs) (unat pos) buf = Returns b"
        "length b = length buf" "take (unat pos + length ?bs) b = take (unat pos) buf @ ?bs"
        "drop (unat pos + unat w) b = drop (unat pos + unat w) buf" by blast
    have p: "unat (pos + ?l) = unat pos + length ?bs" using le Cons.prems(2) l by (simp add: unat_word_ariths)
    have q: "unat (w - ?l) = unat w - length ?bs" using False l by (simp add: unat_sub word_less_nat_alt word_le_nat_alt)
    from Cons.IH [of "pos + ?l" "w - ?l" b "Suc i"] le Cons.prems p q b(2) obtain k b' where
      k: "SubEncodeToUtf8 vm us b (pos + ?l) (w - ?l) (Suc i)
        = Returns (b', pos + ?l + of_nat (length (unit_bytes vm (take k us))), Suc i + k)"
        "encoded vm us k (unat pos + length ?bs) (unat w - length ?bs) b b'" by fastforce
    have "encoded vm (u # us) (Suc k) (unat pos) (unat w) buf b'" by (rule encoded_Cons [OF k(2) le b(2-4)])
    with False k(1) b(1) show ?thesis by (intro exI [of _ "Suc k"] exI [of _ b']) (simp add: Let_def add.assoc)
  qed
qed

text \<open>
  C19: \<open>EncodeToUtf8\<close> writes the encodings of the longest run of code units from the start of the string that fits into the buffer, whole units only:
  the number of units and bytes reported are those of the run, the bytes are at the start of the buffer, and nothing behind the room is
  touched even when the VM terminates what it writes.  The room is the size of the buffer as 32 bits.
\<close>

theorem encode_utf8_greedy:
  assumes "\<forall>u. length (utf8 vm [u]) < 2 ^ 32" "unat n \<le> length buf"
  shows "\<exists>k b'. EncodeToUtf8 vm (Some str) (Some buf) True n True = Returns (Some (b', of_nat (length (unit_bytes vm (take k str))), k)) \<and>
    length b' = length buf \<and> k \<le> length str \<and>
    take (length (unit_bytes vm (take k str))) b' = unit_bytes vm (take k str) \<and>
    drop (unat (ucast n :: u32)) b' = drop (unat (ucast n :: u32)) buf \<and>
    (\<forall>j \<le> length str. length (unit_bytes vm (take j str)) \<le> unat (ucast n :: u32) \<longleftrightarrow>
       length (unit_bytes vm (take j str)) \<le> length (unit_bytes vm (take k str)))"
proof -
  let ?w = "ucast n :: u32"
  have "unat ?w \<le> unat n" by (simp add: unsigned_ucast_eq)
  with assms(2) have room: "unat (0 :: u32) + unat ?w \<le> length buf" "unat (0 :: u32) + unat ?w < 2 ^ 32"
    using unsigned_less [of ?w] by auto
  from SubEncodeToUtf8_encoded [OF assms(1) room, of str 0] obtain k b' where
    k: "SubEncodeToUtf8 vm str buf 0 ?w 0 = Returns (b', of_nat (length (unit_bytes vm (take k str))), k)"
      "encoded vm str k 0 (unat ?w) buf b'" by auto
  have mono: "length (unit_bytes vm (take i str)) \<le> length (unit_bytes vm (take j str))" if "i \<le> j" for i j
    using that by (metis le_add1 length_append take_add le_Suc_ex unit_bytes_simps(3))
  have "length (unit_bytes vm (take j str)) \<le> length (unit_bytes vm (take k str))"
    if j: "j \<le> length str" "length (unit_bytes vm (take j str)) \<le> unat ?w" for j
  proof (rule mono, rule ccontr)
    assume "\<not> j \<le> k"
    with j(1) have "Suc k \<le> j" "k < length str" by simp_all
    with k(2) mono [of "Suc k" j] j(2) show False by (simp add: encoded_def)
  qed
  with k have "\<forall>j \<le> length str. length (unit_bytes vm (take j str)) \<le> unat ?w \<longleftrightarrow>
      length (unit_bytes vm (take j str)) \<le> length (unit_bytes vm (take k str))"
    unfolding encoded_def by (meson le_trans)
  moreover have "EncodeToUtf8 vm (Some str) (Some buf) True n True = Returns (Some (b', of_nat (length (unit_bytes vm (take k str))), k))"
    using k(1) by (simp add: EncodeToUtf8_def)
  ultimately show ?thesis using k(2) unfolding encoded_def by (intro exI [of _ k] exI [of _ b'] conjI) simp_all
qed

theorem encode_utf8_greedy_witness:
  "\<exists>k b'. EncodeToUtf8 ascii_vm (Some [72, 105, 33]) (Some [9, 9, 9]) True 2 True
      = Returns (Some (b', of_nat (length (unit_bytes ascii_vm (take k [72, 105, 33]))), k)) \<and> length b' = 3 \<and> k \<le> 3"
proof -
  have "\<forall>u. length (utf8 ascii_vm [u]) < 2 ^ 32" "unat (2 :: u64) \<le> length [9 :: u8, 9, 9]" by simp_all
  from encode_utf8_greedy [OF this, of "[72, 105, 33]"] show ?thesis by (elim exE conjE) (intro exI conjI, assumption, simp_all)
qed

section \<open>The encoder of the Chinese encodings\<close>

definition chunk_conv :: "string_vm \<Rightarrow> (u8 list \<Rightarrow> u8 list option) \<Rightarrow> (u16 \<Rightarrow> u8 list) \<Rightarrow> js_string \<Rightarrow> bool" where
  "chunk_conv vm conv t str \<longleftrightarrow> (\<forall>ws. set ws \<subseteq> set str \<and> length (unit_bytes vm ws) < CHUNK \<longrightarrow>
     conv (unit_bytes vm ws) = Some (concat (map t ws)) \<and> 0 \<notin> set (concat (map t ws)))"

lemma takeWhile_nonzero: "0 \<notin> set xs \<Longrightarrow> takeWhile (\<lambda>b. b \<noteq> (0 :: u8)) xs = xs"
  by (induction xs) auto

lemma chinese_loop_ok:
  assumes "chunk_conv vm conv t str" "\<forall>u \<in> set str. length (utf8 vm [u]) < CHUNK"
    and "set us \<subseteq> set str" "set ws \<subseteq> set str" "length (unit_bytes vm ws) < CHUNK"
  shows "\<exists>buf' ws'. chinese_loop vm conv us buf (unit_bytes vm ws) = Returns (buf', Some (unit_bytes vm ws')) \<and>
    set ws' \<subseteq> set str \<and> length (unit_bytes vm ws') < CHUNK \<and>
    buf' @ concat (map t ws') = buf @ concat (map t (ws @ us))"
  using assms(3-5)
proof (induction us arbitrary: buf ws)
  case Nil
  then show ?case by (intro exI [of _ buf] exI [of _ ws]) simp
next
  case (Cons u us)
  let ?bs = "utf8 vm [u]"
  have u: "length ?bs < CHUNK" using assms(2) Cons.prems(1) by simp
  have one: "unit_bytes vm [u] = ?bs" by simp
  show ?case
  proof (cases "length (unit_bytes vm ws) + length ?bs \<ge> CHUNK")
    case True
    have c: "conv (unit_bytes vm ws) = Some (concat (map t ws))" "0 \<notin> set (concat (map t ws))"
      using assms(1) Cons.prems(2,3) unfolding chunk_conv_def by blast+
    from Cons.IH [of "[u]" "buf @ concat (map t ws)"] Cons.prems(1) u obtain buf' ws' where
      "chinese_loop vm conv us (buf @ concat (map t ws)) ?bs = Returns (buf', Some (unit_bytes vm ws'))"
      "set ws' \<subseteq> set str" "length (unit_bytes vm ws') < CHUNK"
      "buf' @ concat (map t ws') = buf @ concat (map t (ws @ u # us))" by auto
    moreover have "chinese_loop vm conv (u # us) buf (unit_bytes vm ws) = chinese_loop vm conv us (buf @ concat (map t ws)) ?bs"
      using True u c by (simp add: takeWhile_nonzero Let_def del: set_concat)
    ultimately show ?thesis by metis
  next
    case False
    from Cons.IH [of "ws @ [u]" buf] Cons.prems False obtain buf' ws' where
      "chinese_loop vm conv us buf (unit_bytes vm ws @ ?bs) = Returns (buf', Some (unit_bytes vm ws'))"
      "set ws' \<subseteq> set str" "length (unit_bytes vm ws') < CHUNK"
      "buf' @ concat (map t ws') = buf @ concat (map t (ws @ u # us))" by auto
    with False show ?thesis by (intro exI [of _ buf'] exI [of _ ws']) (simp add: Let_def)
  qed
qed

text \<open>
  Converting to a Chinese encoding in chunks of less than 22 bytes gives, behind what the buffer held, the conversion of the string unit
  by unit: cutting it into chunks loses, repeats and reorders nothing, whatever its length.  The converter is assumed to convert every run
  of less than 22 bytes of units of the string to the concatenation of what the units stand for, without zeros.
\<close>

theorem encode_chinese_whole:
  assumes "chunk_conv vm (convs encoding) t str" "\<forall>u \<in> set str. length (utf8 vm [u]) < CHUNK"
  shows "EncodeToChinese vm convs (Some (Some str)) buf encoding = Returns (buf @ concat (map t str))"
proof -
  have e: "unit_bytes vm [] = []" "length (unit_bytes vm []) < CHUNK" by (simp_all add: CHUNK_def)
  from chinese_loop_ok [OF assms order_refl _ e(2), of buf] obtain buf' ws where
    l: "chinese_loop vm (convs encoding) str buf [] = Returns (buf', Some (unit_bytes vm ws))"
    and ws: "set ws \<subseteq> set str" "length (unit_bytes vm ws) < CHUNK"
    and eq: "buf' @ concat (map t ws) = buf @ concat (map t str)" by auto
  have c: "convs encoding (unit_bytes vm ws) = Some (concat (map t ws))" "0 \<notin> set (concat (map t ws))"
    using assms(1) ws unfolding chunk_conv_def by blast+
  have z: "convs encoding [] = Some []" using assms(1) e unfolding chunk_conv_def by (elim allE [of _ "[]"]) simp
  show ?thesis
  proof (cases "unit_bytes vm ws = []")
    case True
    with c z have "concat (map t ws) = []" by simp
    with l eq True show ?thesis by (simp add: EncodeToChinese_def SubEncodeToChinese_def)
  next
    case False
    with l c eq show ?thesis by (simp add: EncodeToChinese_def SubEncodeToChinese_def takeWhile_nonzero del: set_concat)
  qed
qed

theorem encode_chinese_whole_witness:
  "EncodeToChinese ascii_vm (\<lambda>_. Some) (Some (Some (replicate 50 65))) [1] ''gbk'' =
    Returns ([1] @ concat (map (\<lambda>u :: u16. [ucast u]) (replicate 50 65)))"
proof -
  have "unit_bytes ascii_vm ws = map ucast ws" "concat (map (\<lambda>u. [ucast u :: u8]) ws) = map ucast ws" for ws :: js_string
    by (induction ws) simp_all
  moreover have "(0 :: u8) \<notin> set (map ucast ws)" if "set ws \<subseteq> {65 :: u16}" for ws using that by (induction ws) auto
  ultimately have "chunk_conv ascii_vm Some (\<lambda>u. [ucast u]) (replicate 50 65)" by (simp add: chunk_conv_def)
  moreover have "\<forall>u \<in> set (replicate 50 65). length (utf8 ascii_vm [u]) < CHUNK" by (simp add: CHUNK_def)
  ultimately show ?thesis by (rule encode_chinese_whole [where convs = "\<lambda>_. Some"])
qed

end
