(* ===== verification/Event_Loop.thy ===== *)
theory Event_Loop
  imports Napi_Call
begin

text \<open>
  The loop of an engine (native\_engine/native\_engine.cpp): the thread that waits for the descriptor of the libuv loop and has the thread
  of the engine run it (\<open>CheckUVLoop\<close>, \<open>UVThreadRunner\<close>, \<open>PostLoopTask\<close>, \<open>Loop\<close>, \<open>CancelCheckUVLoop\<close>), the calls that run
  and stop the loop for the user (\<open>RunEventLoop\<close>, \<open>StopEventLoop\<close> and their entry points in native\_api.cpp), and how the loop comes and goes with the
  engine (\<open>Init\<close>, \<open>Deinit\<close>, \<open>ReinitUVLoop\<close>).

  libuv is not part of the repository.  \<open>uv_run\<close> is two steps, its start and its return, with whatever its callbacks do
  between them.  That \<open>uv_async_send\<close> makes the descriptor readable until the loop has run is used where it is said.
\<close>

section \<open>The thread that watches the loop\<close>

datatype LoopMode = LOOP_DEFAULT | LOOP_ONCE | LOOP_NOWAIT

text \<open>
  Where the thread is: before \<open>postTask_\<close> and at the semaphore in \<open>PostLoopTask\<close> (the first call, or one in the loop), at the condition of the
  loop, in \<open>epoll_wait\<close>, behind it with what it answered, and behind a task in the loop.
\<close>

datatype runner_pc = Posting bool | Waiting bool | AtWhile | InEpoll | AfterEpoll bool | AfterPost | ThreadEnded

text \<open>Where the thread of the engine is: idle, in \<open>Loop\<close> (with \<open>needSync\<close>), or between two calls of \<open>CancelCheckUVLoop\<close>.\<close>

datatype engine_pc = EngineIdle | InLoop bool | BeforeSend | BeforeSemPost | Joining

text \<open>The tasks that \<open>postTask_\<close> was given, by the \<open>needSync\<close> that \<open>Loop\<close> will be called with.\<close>

record loop_sys =
  has_loop :: bool
  checkUVLoop :: bool
  uvSem :: nat
  uvAsync_sent :: bool
  posted :: "bool list"
  runner :: "runner_pc option"
  engine_at :: engine_pc

definition CheckUVLoop :: "loop_sys \<Rightarrow> loop_sys" where
  "CheckUVLoop s = s\<lparr>checkUVLoop := True, runner := Some (Posting True)\<rparr>"

text \<open>One section of \<open>UVThreadRunner\<close>; \<open>None\<close>: it is blocked.  \<open>answer\<close> is what \<open>epoll_wait\<close> returns, when it does: whether the result is not negative.\<close>

definition UVThreadRunner :: "bool option \<Rightarrow> loop_sys \<Rightarrow> loop_sys option" where
  "UVThreadRunner answer s =
     (case runner s of
        None \<Rightarrow> None
      | Some (Posting fst_call) \<Rightarrow> Some (s\<lparr>posted := posted s @ [True], runner := Some (Waiting fst_call)\<rparr>)
      | Some (Waiting fst_call) \<Rightarrow>
          if uvSem s = 0 then None
          else Some (s\<lparr>uvSem := uvSem s - 1, runner := Some (if fst_call then AtWhile else AfterPost)\<rparr>)
      | Some AtWhile \<Rightarrow> Some (s\<lparr>runner := Some (if checkUVLoop s then InEpoll else ThreadEnded)\<rparr>)
      | Some InEpoll \<Rightarrow> map_option (\<lambda>ok. s\<lparr>runner := Some (AfterEpoll ok)\<rparr>) answer
      | Some (AfterEpoll ok) \<Rightarrow>
          Some (s\<lparr>runner := Some (if \<not> checkUVLoop s then ThreadEnded else if ok then Posting False else AfterPost)\<rparr>)
      | Some AfterPost \<Rightarrow> Some (s\<lparr>runner := Some (if \<not> checkUVLoop s then ThreadEnded else AtWhile)\<rparr>)
      | Some ThreadEnded \<Rightarrow> None)"

text \<open>A posted task calls \<open>Loop\<close>: its start, and its end when \<open>uv_run\<close> has returned.\<close>

definition Loop_starts :: "bool \<Rightarrow> loop_sys \<Rightarrow> loop_sys" where
  "Loop_starts needSync s = (if \<not> has_loop s then s else s\<lparr>engine_at := InLoop needSync\<rparr>)"

definition Loop_ends :: "bool \<Rightarrow> loop_sys \<Rightarrow> loop_sys" where
  "Loop_ends needSync s = s\<lparr>uvAsync_sent := False, uvSem := (if needSync then uvSem s + 1 else uvSem s), engine_at := EngineIdle\<rparr>"

definition TriggerPostTask :: "loop_sys \<Rightarrow> loop_sys" where
  "TriggerPostTask s = s\<lparr>posted := posted s @ [False]\<rparr>"

text \<open>The four calls of \<open>CancelCheckUVLoop\<close>; the last returns when the thread has ended.\<close>

definition CancelCheckUVLoop :: "loop_sys \<Rightarrow> loop_sys option" where
  "CancelCheckUVLoop s =
     (case engine_at s of
        EngineIdle \<Rightarrow> Some (s\<lparr>checkUVLoop := False, engine_at := BeforeSend\<rparr>)
      | BeforeSend \<Rightarrow> Some (s\<lparr>uvAsync_sent := True, engine_at := BeforeSemPost\<rparr>)
      | BeforeSemPost \<Rightarrow> Some (s\<lparr>uvSem := uvSem s + 1, engine_at := Joining\<rparr>)
      | Joining \<Rightarrow> if runner s = Some ThreadEnded then Some (s\<lparr>runner := None, engine_at := EngineIdle\<rparr>) else None
      | InLoop needSync \<Rightarrow> None)"

text \<open>
  The steps of both threads between one call of \<open>CheckUVLoop\<close> and the next.  \<open>CancelCheckUVLoop\<close> is called when there is a thread, and
  tasks run when the thread of the engine is idle.
\<close>

inductive session_step :: "loop_sys \<Rightarrow> loop_sys \<Rightarrow> bool" where
  runs: "UVThreadRunner answer s = Some s' \<Longrightarrow> session_step s s'"
| task: "engine_at s = EngineIdle \<Longrightarrow> posted s = xs @ needSync # ys \<Longrightarrow> session_step s (Loop_starts needSync (s\<lparr>posted := xs @ ys\<rparr>))"
| returns: "engine_at s = InLoop needSync \<Longrightarrow> session_step s (Loop_ends needSync s)"
| triggers: "session_step s (TriggerPostTask s)"
| cancels: "runner s \<noteq> None \<Longrightarrow> CancelCheckUVLoop s = Some s' \<Longrightarrow> session_step s s'"

definition loop_step :: "loop_sys \<Rightarrow> loop_sys \<Rightarrow> bool" where
  "loop_step s s' \<longleftrightarrow> session_step s s' \<or> engine_at s = EngineIdle \<and> runner s = None \<and> has_loop s \<and> s' = CheckUVLoop s"

text \<open>What happens without any event: calls of the cancellation, and sections of the thread, which leaves \<open>epoll_wait\<close> when the descriptor is readable.\<close>

definition own_step :: "loop_sys \<Rightarrow> loop_sys \<Rightarrow> bool" where
  "own_step s s' \<longleftrightarrow> UVThreadRunner (if uvAsync_sent s then Some True else None) s = Some s' \<or>
     runner s \<noteq> None \<and> engine_at s \<noteq> EngineIdle \<and> CancelCheckUVLoop s = Some s'"

definition fresh_loop :: loop_sys where
  "fresh_loop = \<lparr>has_loop = True, checkUVLoop = False, uvSem = 0, uvAsync_sent = False, posted = [], runner = None, engine_at = EngineIdle\<rparr>"

lemmas loop_defs = CheckUVLoop_def UVThreadRunner_def Loop_starts_def Loop_ends_def TriggerPostTask_def CancelCheckUVLoop_def

subsection \<open>One run of the loop for every wait\<close>

text \<open>The runs of the loop that were asked for with synchronisation and have not posted the semaphore.\<close>

definition owed :: "loop_sys \<Rightarrow> nat" where
  "owed s = length (filter (\<lambda>b. b) (posted s)) + (if engine_at s = InLoop True then 1 else 0)"

definition cancelling :: "loop_sys \<Rightarrow> bool" where
  "cancelling s \<longleftrightarrow> engine_at s = BeforeSend \<or> engine_at s = BeforeSemPost \<or> engine_at s = Joining"

definition turns_inv :: "loop_sys \<Rightarrow> bool" where
  "turns_inv s \<longleftrightarrow> has_loop s \<and> (checkUVLoop s \<longrightarrow> runner s \<noteq> None \<and> \<not> cancelling s \<and>
     uvSem s + owed s = (case runner s of Some (Waiting _) \<Rightarrow> 1 | _ \<Rightarrow> 0))"

lemma owed_simps [simp]:
  "owed (s\<lparr>checkUVLoop := b\<rparr>) = owed s" "owed (s\<lparr>uvSem := n\<rparr>) = owed s" "owed (s\<lparr>runner := r\<rparr>) = owed s"
  by (simp_all add: owed_def)

lemma cancelling_simps [simp]:
  "cancelling (s\<lparr>checkUVLoop := b\<rparr>) = cancelling s" "cancelling (s\<lparr>uvSem := n\<rparr>) = cancelling s"
  "cancelling (s\<lparr>runner := r\<rparr>) = cancelling s" "cancelling (s\<lparr>posted := p\<rparr>) = cancelling s"
  by (simp_all add: cancelling_def)

lemma owed_post [simp]: "owed (s\<lparr>posted := posted s @ [b]\<rparr>) = owed s + (if b then 1 else 0)"
  by (simp add: owed_def)

lemma turns_inv_runs: "turns_inv s \<Longrightarrow> UVThreadRunner a s = Some s' \<Longrightarrow> turns_inv s'"
proof (cases "runner s")
  case (Some pc)
  then show "turns_inv s \<Longrightarrow> UVThreadRunner a s = Some s' \<Longrightarrow> turns_inv s'"
    by (cases pc) (auto simp: turns_inv_def UVThreadRunner_def split: if_splits)
qed (simp add: UVThreadRunner_def)

lemma turns_inv_step: "session_step s s' \<Longrightarrow> turns_inv s \<Longrightarrow> turns_inv s'"
proof (induction rule: session_step.induct)
  case (runs a s s')
  then show ?case using turns_inv_runs by blast
next
  case (task s xs b ys)
  then show ?case by (cases b) (auto simp: turns_inv_def owed_def cancelling_def Loop_starts_def)
next
  case (returns s b)
  then show ?case by (cases b) (auto simp: turns_inv_def owed_def cancelling_def Loop_ends_def)
next
  case (triggers s)
  then show ?case by (auto simp: turns_inv_def owed_def cancelling_def TriggerPostTask_def)
next
  case (cancels s s')
  then show ?case
    by (auto simp: turns_inv_def owed_def cancelling_def CancelCheckUVLoop_def split: engine_pc.splits if_splits)
qed


subsection \<open>Runs that are computed\<close>

text \<open>A section of the thread, the task at an index, the return of \<open>Loop\<close>, a call of the cancellation, and \<open>CheckUVLoop\<close>.\<close>

datatype loop_op = Section "bool option" | Task nat | Return | Cancel | Start

fun exec_loop :: "loop_op \<Rightarrow> loop_sys \<Rightarrow> loop_sys option" where
  "exec_loop (Section a) s = UVThreadRunner a s"
| "exec_loop (Task i) s = (if engine_at s = EngineIdle \<and> i < length (posted s)
     then Some (Loop_starts (posted s ! i) (s\<lparr>posted := take i (posted s) @ drop (Suc i) (posted s)\<rparr>)) else None)"
| "exec_loop Return s = (case engine_at s of InLoop b \<Rightarrow> Some (Loop_ends b s) | _ \<Rightarrow> None)"
| "exec_loop Cancel s = (if runner s = None then None else CancelCheckUVLoop s)"
| "exec_loop Start s = (if engine_at s = EngineIdle \<and> runner s = None \<and> has_loop s then Some (CheckUVLoop s) else None)"

fun exec_loops :: "loop_op list \<Rightarrow> loop_sys \<Rightarrow> loop_sys option" where
  "exec_loops [] s = Some s"
| "exec_loops (x # xs) s = (case exec_loop x s of None \<Rightarrow> None | Some s' \<Rightarrow> exec_loops xs s')"

lemma exec_loop_session: "exec_loop x s = Some s' \<Longrightarrow> x \<noteq> Start \<Longrightarrow> session_step s s'"
proof (cases x)
  case (Section a)
  then show "exec_loop x s = Some s' \<Longrightarrow> session_step s s'" by (auto intro: session_step.runs)
next
  case (Task i)
  assume "exec_loop x s = Some s'"
  with Task have i: "engine_at s = EngineIdle" "i < length (posted s)"
    and s': "s' = Loop_starts (posted s ! i) (s\<lparr>posted := take i (posted s) @ drop (Suc i) (posted s)\<rparr>)"
    by (auto split: if_splits)
  from i(2) have "posted s = take i (posted s) @ (posted s ! i) # drop (Suc i) (posted s)" by (rule id_take_nth_drop)
  from session_step.task [OF i(1) this] show ?thesis by (simp add: s')
next
  case Return
  then show "exec_loop x s = Some s' \<Longrightarrow> session_step s s'" by (auto intro: session_step.returns split: engine_pc.splits)
next
  case Cancel
  then show "exec_loop x s = Some s' \<Longrightarrow> session_step s s'" by (auto intro: session_step.cancels split: if_splits)
qed simp

lemma exec_loop_step: "exec_loop x s = Some s' \<Longrightarrow> loop_step s s'"
  using exec_loop_session [of x s s'] by (cases "x = Start") (auto simp: loop_step_def split: if_splits)

lemma exec_loops_reaches: "exec_loops xs s = Some s' \<Longrightarrow> loop_step\<^sup>*\<^sup>* s s'"
proof (induction xs arbitrary: s)
  case (Cons x xs)
  from Cons.prems obtain t where "exec_loop x s = Some t" "exec_loops xs t = Some s'" by (auto split: option.splits)
  with Cons.IH [of t] exec_loop_step [of x s t] show ?case by (meson converse_rtranclp_into_rtranclp)
qed simp

lemma exec_loops_session: "exec_loops xs s = Some s' \<Longrightarrow> Start \<notin> set xs \<Longrightarrow> session_step\<^sup>*\<^sup>* s s'"
proof (induction xs arbitrary: s)
  case (Cons x xs)
  from Cons.prems obtain t where "exec_loop x s = Some t" "exec_loops xs t = Some s'" by (auto split: option.splits)
  with Cons exec_loop_session [of x s t] show ?case by (auto intro: converse_rtranclp_into_rtranclp)
qed simp

text \<open>A first session, from its start to the wait in \<open>epoll_wait\<close>, and its cancellation there.\<close>

definition first_wait :: "loop_op list" where
  "first_wait = [Start, Section None, Task 0, Return, Section None, Section None]"

definition cancel_there :: "loop_op list" where
  "cancel_there = [Cancel, Cancel, Cancel, Section (Some True), Section None, Cancel]"

text \<open>
  A session that is cancelled in \<open>epoll_wait\<close> leaves the semaphore at one, so the thread of the next session does not wait for its task and
  reads the loop while the task runs it.
\<close>

theorem restart_loses_turns:
  "\<exists>s. loop_step\<^sup>*\<^sup>* fresh_loop s \<and> checkUVLoop s \<and> runner s = Some InEpoll \<and> engine_at s = InLoop True"
proof -
  have "\<exists>s. exec_loops (first_wait @ cancel_there @ [Start, Section None, Section None, Section None, Task 0]) fresh_loop = Some s \<and>
      checkUVLoop s \<and> runner s = Some InEpoll \<and> engine_at s = InLoop True"
    by (simp add: first_wait_def cancel_there_def fresh_loop_def loop_defs)
  then show ?thesis using exec_loops_reaches by blast
qed


subsection \<open>Cancellation\<close>

definition cancel_inv :: "loop_sys \<Rightarrow> bool" where
  "cancel_inv s \<longleftrightarrow> (cancelling s \<longrightarrow> \<not> checkUVLoop s \<and> runner s \<noteq> None \<and>
     (engine_at s \<noteq> BeforeSend \<longrightarrow> uvAsync_sent s) \<and>
     (engine_at s = Joining \<longrightarrow> (case runner s of Some (Posting _) \<Rightarrow> uvSem s > 0 | Some (Waiting _) \<Rightarrow> uvSem s > 0 | _ \<Rightarrow> True)))"

lemma cancel_inv_runs: "cancel_inv s \<Longrightarrow> UVThreadRunner a s = Some s' \<Longrightarrow> cancel_inv s'"
proof (cases "runner s")
  case (Some pc)
  then show "cancel_inv s \<Longrightarrow> UVThreadRunner a s = Some s' \<Longrightarrow> cancel_inv s'"
    by (cases pc) (auto simp: cancel_inv_def UVThreadRunner_def split: if_splits)
qed (simp add: UVThreadRunner_def)

lemma cancel_inv_cancels: "cancel_inv s \<Longrightarrow> runner s \<noteq> None \<Longrightarrow> CancelCheckUVLoop s = Some s' \<Longrightarrow> cancel_inv s'"
  by (cases "engine_at s") (auto simp: cancel_inv_def cancelling_def CancelCheckUVLoop_def split: option.splits runner_pc.splits if_splits)

lemma cancel_inv_step: "loop_step s s' \<Longrightarrow> cancel_inv s \<Longrightarrow> cancel_inv s'"
  unfolding loop_step_def
proof (elim disjE)
  assume "session_step s s'" "cancel_inv s"
  then show "cancel_inv s'"
  proof (induction rule: session_step.induct)
    case (runs a s s')
    then show ?case using cancel_inv_runs by blast
  next
    case (cancels s s')
    then show ?case using cancel_inv_cancels by blast
  qed (auto simp: cancel_inv_def cancelling_def Loop_starts_def Loop_ends_def TriggerPostTask_def split: option.splits runner_pc.splits)
qed (auto simp: cancel_inv_def cancelling_def CheckUVLoop_def)

lemma cancel_inv_reachable: "loop_step\<^sup>*\<^sup>* fresh_loop s \<Longrightarrow> cancel_inv s"
proof (induction rule: rtranclp_induct)
  case base
  show ?case by (simp add: cancel_inv_def fresh_loop_def cancelling_def)
qed (rule cancel_inv_step)

text \<open>The steps that a cancellation may still take.\<close>

definition cancel_rank :: "loop_sys \<Rightarrow> nat" where
  "cancel_rank s = (case engine_at s of BeforeSend \<Rightarrow> 3 | BeforeSemPost \<Rightarrow> 2 | Joining \<Rightarrow> 1 | _ \<Rightarrow> 0) +
     (case runner s of Some (Posting _) \<Rightarrow> 3 | Some (Waiting _) \<Rightarrow> 2 | Some AtWhile \<Rightarrow> 1 | Some InEpoll \<Rightarrow> 2
        | Some (AfterEpoll _) \<Rightarrow> 1 | Some AfterPost \<Rightarrow> 1 | _ \<Rightarrow> 0)"

lemma cancel_rank_runs:
  "cancelling s \<Longrightarrow> cancel_inv s \<Longrightarrow> UVThreadRunner a s = Some s' \<Longrightarrow> cancel_rank s' < cancel_rank s \<and> cancelling s'"
proof (cases "runner s")
  case (Some pc)
  then show "cancelling s \<Longrightarrow> cancel_inv s \<Longrightarrow> UVThreadRunner a s = Some s' \<Longrightarrow> cancel_rank s' < cancel_rank s \<and> cancelling s'"
    by (cases pc) (auto simp: cancel_inv_def UVThreadRunner_def cancel_rank_def split: if_splits)
qed (simp add: UVThreadRunner_def)

lemma cancel_rank_cancels:
  "cancelling s \<Longrightarrow> CancelCheckUVLoop s = Some s' \<Longrightarrow>
    cancel_rank s' < cancel_rank s \<and> (cancelling s' \<or> engine_at s' = EngineIdle \<and> runner s' = None)"
  by (auto simp: cancelling_def CancelCheckUVLoop_def cancel_rank_def split: if_splits)

lemma cancel_rank_step:
  assumes "loop_step s s'" "cancelling s" "cancel_inv s"
  shows "s' = TriggerPostTask s \<or> cancel_rank s' < cancel_rank s"
proof -
  from assms(1,2) have "session_step s s'" by (auto simp: loop_step_def cancelling_def)
  then show ?thesis
  proof cases
    case (runs a)
    with assms show ?thesis using cancel_rank_runs by blast
  next
    case cancels
    with assms show ?thesis using cancel_rank_cancels by blast
  qed (use assms(2) in \<open>auto simp: cancelling_def\<close>)
qed

lemma cancel_progress:
  assumes "cancelling s" "cancel_inv s"
  shows "\<exists>s'. own_step s s' \<and> cancel_rank s' < cancel_rank s \<and> cancel_inv s' \<and>
    (cancelling s' \<or> engine_at s' = EngineIdle \<and> runner s' = None)"
proof -
  have "(\<exists>s'. UVThreadRunner (if uvAsync_sent s then Some True else None) s = Some s') \<or> (\<exists>s'. CancelCheckUVLoop s = Some s')"
  proof (cases "engine_at s = Joining")
    case True
    with assms obtain pc where "runner s = Some pc" by (auto simp: cancel_inv_def)
    with True assms show ?thesis by (cases pc) (auto simp: cancel_inv_def UVThreadRunner_def CancelCheckUVLoop_def cancelling_def)
  next
    case False
    with assms(1) show ?thesis by (auto simp: cancelling_def CancelCheckUVLoop_def)
  qed
  then show ?thesis
  proof (elim disjE exE)
    fix s' assume "UVThreadRunner (if uvAsync_sent s then Some True else None) s = Some s'"
    with assms show ?thesis using cancel_rank_runs cancel_inv_runs unfolding own_step_def by blast
  next
    fix s' assume c: "CancelCheckUVLoop s = Some s'"
    moreover have r: "runner s \<noteq> None" "engine_at s \<noteq> EngineIdle" using assms by (auto simp: cancel_inv_def cancelling_def)
    ultimately have "own_step s s'" by (simp add: own_step_def)
    with assms c r show ?thesis using cancel_rank_cancels cancel_inv_cancels by blast
  qed
qed

text \<open>
  C15: A cancellation always comes back, in whatever session and wherever the thread is when it starts: it and the thread reach the join by themselves in at most
  six of their steps (the thread leaves \<open>epoll_wait\<close> because the descriptor is readable), and every step that anything takes meanwhile either
  brings the join nearer or only posts a task without synchronisation.
\<close>

theorem cancel_joins:
  assumes "loop_step\<^sup>*\<^sup>* fresh_loop s" "cancelling s"
  shows "(\<exists>s' n. n \<le> 6 \<and> (own_step ^^ n) s s' \<and> engine_at s' = EngineIdle \<and> runner s' = None) \<and>
    (\<forall>s'. loop_step s s' \<longrightarrow> s' = TriggerPostTask s \<or> cancel_rank s' < cancel_rank s)"
proof (intro conjI)
  from assms(1) have inv: "cancel_inv s" by (rule cancel_inv_reachable)
  have bound: "cancel_rank t \<le> 6" for t
    by (simp add: cancel_rank_def split: engine_pc.splits option.splits runner_pc.splits)
  have "cancelling t \<Longrightarrow> cancel_inv t \<Longrightarrow> \<exists>s' n. n \<le> cancel_rank t \<and> (own_step ^^ n) t s' \<and> engine_at s' = EngineIdle \<and> runner s' = None" for t
  proof (induction "cancel_rank t" arbitrary: t rule: less_induct)
    case less
    from cancel_progress [OF less.prems] obtain u where u: "own_step t u" "cancel_rank u < cancel_rank t" "cancel_inv u"
      "cancelling u \<or> engine_at u = EngineIdle \<and> runner u = None" by blast
    then obtain s' n where "n \<le> cancel_rank u" "(own_step ^^ n) u s'" "engine_at s' = EngineIdle" "runner s' = None"
      using less.hyps [of u] by (metis le0 relpowp_0_I)
    with u(2) have "Suc n \<le> cancel_rank t" by linarith
    moreover have "(own_step ^^ Suc n) t s'" by (rule relpowp_Suc_I2 [OF u(1) \<open>(own_step ^^ n) u s'\<close>])
    ultimately show ?case using \<open>engine_at s' = EngineIdle\<close> \<open>runner s' = None\<close> by blast
  qed
  with assms(2) inv bound [of s] show "\<exists>s' n. n \<le> 6 \<and> (own_step ^^ n) s s' \<and> engine_at s' = EngineIdle \<and> runner s' = None"
    by (meson le_trans)
  show "\<forall>s'. loop_step s s' \<longrightarrow> s' = TriggerPostTask s \<or> cancel_rank s' < cancel_rank s"
    using assms(2) inv cancel_rank_step by blast
qed

theorem cancel_joins_witness:
  "\<exists>s s' n. exec_loops (first_wait @ [Cancel]) fresh_loop = Some s \<and> n \<le> 6 \<and> (own_step ^^ n) s s' \<and> engine_at s' = EngineIdle \<and> runner s' = None"
proof -
  have "\<exists>s. exec_loops (first_wait @ [Cancel]) fresh_loop = Some s \<and> cancelling s"
    by (simp add: first_wait_def fresh_loop_def loop_defs cancelling_def)
  then obtain s where s: "exec_loops (first_wait @ [Cancel]) fresh_loop = Some s" "cancelling s" by blast
  from cancel_joins [OF exec_loops_reaches [OF s(1)] s(2)] s(1) show ?thesis by blast
qed

section \<open>Running the loop for the user\<close>

text \<open>
  What is running on the thread of the engine, innermost first: \<open>uv_run\<close> from \<open>RunEventLoop\<close> with its mode, or from \<open>Loop\<close>.
  \<open>uv_stops\<close> holds what was running at each \<open>uv_stop\<close>.
\<close>

datatype uv_frame = RunFrame int | TaskFrame LoopMode

record run_env = call_env +
  engine_loop :: bool
  isLoopRunning :: bool
  uv_frames :: "uv_frame list"
  uv_stops :: "uv_frame list list"

definition napi_event_mode_default :: int where "napi_event_mode_default = 0"
definition napi_event_mode_nowait :: int where "napi_event_mode_nowait = 1"

text \<open>\<open>None\<close>: the loop runs, and the call goes on with \<open>RunEventLoop_returns\<close>.\<close>

definition RunEventLoop :: "bool \<Rightarrow> int \<Rightarrow> run_env \<Rightarrow> run_env \<times> napi_status option" where
  "RunEventLoop native mode s =
     (if \<not> engine_loop s then (s, Some napi_invalid_arg)
      else if \<not> native then (s, Some napi_generic_failure)
      else if isLoopRunning s then (s, Some napi_ok)
      else if mode = napi_event_mode_default \<or> mode = napi_event_mode_nowait
      then (s\<lparr>isLoopRunning := True, uv_frames := RunFrame mode # uv_frames s\<rparr>, None)
      else (s, Some napi_ok))"

definition RunEventLoop_returns :: "run_env \<Rightarrow> run_env \<times> napi_status" where
  "RunEventLoop_returns s = (s\<lparr>uv_frames := tl (uv_frames s), isLoopRunning := False\<rparr>, napi_ok)"

definition StopEventLoop :: "bool \<Rightarrow> run_env \<Rightarrow> run_env \<times> napi_status" where
  "StopEventLoop native s =
     (if \<not> engine_loop s then (s, napi_invalid_arg)
      else if \<not> native then (s, napi_generic_failure)
      else if \<not> isLoopRunning s then (s, napi_ok)
      else (s\<lparr>uv_stops := uv_frames s # uv_stops s\<rparr>, napi_ok))"

definition napi_run_event_loop :: "bool \<Rightarrow> bool \<Rightarrow> bool \<Rightarrow> int \<Rightarrow> run_env \<Rightarrow> run_env \<times> napi_status option" where
  "napi_run_event_loop env main_context native mode s =
     (if \<not> env then (s, Some napi_invalid_arg)
      else if mode < napi_event_mode_default \<or> mode > napi_event_mode_nowait then (s, Some napi_invalid_arg)
      else if \<not> main_context then (s\<lparr>lastError := napi_invalid_arg\<rparr>, Some napi_invalid_arg)
      else let (s1, result) = RunEventLoop native mode s
           in case result of
                None \<Rightarrow> (s1, None)
              | Some st \<Rightarrow> (s1\<lparr>lastError := st\<rparr>, Some st))"

definition napi_run_event_loop_returns :: "run_env \<Rightarrow> run_env \<times> napi_status" where
  "napi_run_event_loop_returns s = (let (s1, result) = RunEventLoop_returns s in (s1\<lparr>lastError := result\<rparr>, result))"

definition napi_stop_event_loop :: "bool \<Rightarrow> bool \<Rightarrow> bool \<Rightarrow> run_env \<Rightarrow> run_env \<times> napi_status" where
  "napi_stop_event_loop env main_context native s =
     (if \<not> env then (s, napi_invalid_arg)
      else if \<not> main_context then (s\<lparr>lastError := napi_invalid_arg\<rparr>, napi_invalid_arg)
      else let (s1, result) = StopEventLoop native s in (s1\<lparr>lastError := result\<rparr>, result))"

text \<open>The modes of \<open>Loop\<close>, which does not look at \<open>isLoopRunning_\<close>.\<close>

definition Loop :: "LoopMode \<Rightarrow> run_env \<Rightarrow> run_env" where
  "Loop mode s = (if \<not> engine_loop s then s else s\<lparr>uv_frames := TaskFrame mode # uv_frames s\<rparr>)"

inductive run_step :: "run_env \<Rightarrow> run_env \<Rightarrow> bool" where
  call_run: "run_step s (fst (napi_run_event_loop env mc native mode s))"
| run_returns: "uv_frames s = RunFrame m # fs \<Longrightarrow> run_step s (fst (napi_run_event_loop_returns s))"
| call_stop: "run_step s (fst (napi_stop_event_loop env mc native s))"
| call_loop: "run_step s (Loop mode s)"
| loop_returns: "uv_frames s = TaskFrame m # fs \<Longrightarrow> run_step s (s\<lparr>uv_frames := fs\<rparr>)"

fun is_run :: "uv_frame \<Rightarrow> bool" where
  "is_run (RunFrame m) = True"
| "is_run (TaskFrame m) = False"

definition run_inv :: "run_env \<Rightarrow> bool" where
  "run_inv s \<longleftrightarrow> length (filter is_run (uv_frames s)) = (if isLoopRunning s then 1 else 0) \<and>
     (\<forall>fs \<in> set (uv_stops s). \<exists>f \<in> set fs. is_run f)"

lemma run_inv_RunFrame: "run_inv s \<Longrightarrow> isLoopRunning s \<longleftrightarrow> (\<exists>f \<in> set (uv_frames s). is_run f)"
proof -
  assume inv: "run_inv s"
  have "filter is_run (uv_frames s) = [] \<longleftrightarrow> \<not> (\<exists>f \<in> set (uv_frames s). is_run f)" by (auto simp: filter_empty_conv)
  then show ?thesis using inv by (cases "isLoopRunning s") (auto simp: run_inv_def)
qed

lemmas run_defs = napi_run_event_loop_def RunEventLoop_def napi_run_event_loop_returns_def RunEventLoop_returns_def
  napi_stop_event_loop_def StopEventLoop_def Loop_def

lemma run_inv_step: "run_step s s' \<Longrightarrow> run_inv s \<Longrightarrow> run_inv s'"
proof (induction rule: run_step.induct)
  case (call_run s env mc native mode)
  then show ?case by (auto simp: run_defs run_inv_def)
next
  case (run_returns s m fs)
  then show ?case by (auto simp: run_defs run_inv_def split: if_splits)
next
  case (call_stop s env mc native)
  then show ?case using run_inv_RunFrame [OF call_stop] by (auto simp: run_defs run_inv_def)
next
  case (call_loop s mode)
  then show ?case by (auto simp: run_defs run_inv_def)
next
  case (loop_returns s m fs)
  then show ?case by (auto simp: run_inv_def)
qed

definition quiet_loop_env :: run_env where
  "quiet_loop_env = \<lparr>lastException = False, lastError = napi_ok, engine_loop = True, isLoopRunning = False, uv_frames = [], uv_stops = []\<rparr>"

text \<open>
  C36: Whatever the callbacks of the loop call, at most one \<open>uv_run\<close> of \<open>RunEventLoop\<close> is active, and the flag tells exactly whether one is: a call from one
  of its callbacks returns \<open>napi_ok\<close> and changes nothing but the last error.  \<open>uv_stop\<close> is called only while one is active, so stopping when none is cannot
  make a later run end early; and once it has returned the next call runs the loop again.
\<close>

theorem event_loop_guarded:
  assumes "run_step\<^sup>*\<^sup>* quiet_loop_env s"
  shows "(isLoopRunning s \<longleftrightarrow> (\<exists>f \<in> set (uv_frames s). is_run f)) \<and>
    length (filter is_run (uv_frames s)) \<le> 1 \<and>
    (\<forall>fs \<in> set (uv_stops s). \<exists>f \<in> set fs. is_run f) \<and>
    (isLoopRunning s \<and> engine_loop s \<longrightarrow> napi_run_event_loop True True True napi_event_mode_default s = (s\<lparr>lastError := napi_ok\<rparr>, Some napi_ok)) \<and>
    (uv_frames s = [] \<and> engine_loop s \<longrightarrow> snd (napi_run_event_loop True True True napi_event_mode_default s) = None \<and>
      fst (napi_stop_event_loop True True True s) = s\<lparr>lastError := napi_ok\<rparr>)"
proof -
  have "run_inv quiet_loop_env" by (simp add: run_inv_def quiet_loop_env_def)
  with assms have inv: "run_inv s" by (induction rule: rtranclp_induct) (auto intro: run_inv_step)
  have flag: "isLoopRunning s \<longleftrightarrow> (\<exists>f \<in> set (uv_frames s). is_run f)" using inv by (rule run_inv_RunFrame)
  have "length (filter is_run (uv_frames s)) \<le> 1" "\<forall>fs \<in> set (uv_stops s). \<exists>f \<in> set fs. is_run f"
    using inv by (auto simp: run_inv_def)
  moreover have "isLoopRunning s \<and> engine_loop s \<longrightarrow>
      napi_run_event_loop True True True napi_event_mode_default s = (s\<lparr>lastError := napi_ok\<rparr>, Some napi_ok)"
    by (simp add: run_defs napi_event_mode_default_def napi_event_mode_nowait_def)
  moreover have "uv_frames s = [] \<and> engine_loop s \<longrightarrow> snd (napi_run_event_loop True True True napi_event_mode_default s) = None \<and>
      fst (napi_stop_event_loop True True True s) = s\<lparr>lastError := napi_ok\<rparr>"
    using flag by (simp add: run_defs napi_event_mode_default_def napi_event_mode_nowait_def)
  ultimately show ?thesis using flag by blast
qed

theorem event_loop_guarded_witness:
  "let s = fst (napi_run_event_loop True True True 0 quiet_loop_env)
   in napi_run_event_loop True True True napi_event_mode_default s = (s\<lparr>lastError := napi_ok\<rparr>, Some napi_ok)"
proof -
  let ?s = "fst (napi_run_event_loop True True True 0 quiet_loop_env)"
  have "run_step\<^sup>*\<^sup>* quiet_loop_env ?s" by (rule r_into_rtranclp, rule run_step.call_run)
  moreover have "isLoopRunning ?s" "engine_loop ?s"
    by (simp_all add: run_defs quiet_loop_env_def napi_event_mode_default_def napi_event_mode_nowait_def)
  ultimately show ?thesis unfolding Let_def using event_loop_guarded by blast
qed

text \<open>The guard does not cover \<open>Loop\<close>: called in a task that \<open>Loop\<close> runs, \<open>RunEventLoop\<close> enters \<open>uv_run\<close> inside \<open>uv_run\<close>, which libuv does not allow.\<close>

theorem run_inside_task:
  "\<exists>s. run_step\<^sup>*\<^sup>* quiet_loop_env s \<and> uv_frames s = [RunFrame 0, TaskFrame LOOP_NOWAIT]"
proof -
  let ?s1 = "Loop LOOP_NOWAIT quiet_loop_env" and ?s2 = "fst (napi_run_event_loop True True True 0 (Loop LOOP_NOWAIT quiet_loop_env))"
  have "run_step\<^sup>*\<^sup>* quiet_loop_env ?s2"
    by (rule rtranclp.rtrancl_into_rtrancl [OF r_into_rtranclp [where r = run_step, OF run_step.call_loop] run_step.call_run])
  moreover have "uv_frames ?s2 = [RunFrame 0, TaskFrame LOOP_NOWAIT]"
    by (simp add: run_defs quiet_loop_env_def napi_event_mode_default_def napi_event_mode_nowait_def)
  ultimately show ?thesis by blast
qed

section \<open>The loop and the engine\<close>

text \<open>
  \<open>loops\<close> holds the allocated loops.  What libuv and the allocator answer: the address of a new loop if there is one, whether it could be initialised, and
  whether the default function could be made.
\<close>

record loop_owner =
  the_loop :: "addr option"
  loops :: "addr list"
  sem_ready :: bool
  async_open :: bool
  defaultFunc :: bool
  has_managers :: bool
  engine_alive :: bool
  engine_stopping :: bool

record uv_answers =
  new_loop :: "addr option"
  init_ok :: bool
  default_ok :: bool

definition InitWithoutUV :: "loop_owner \<Rightarrow> loop_owner" where
  "InitWithoutUV s = s\<lparr>has_managers := True\<rparr>"

definition DeinitWithoutUV :: "loop_owner \<Rightarrow> loop_owner" where
  "DeinitWithoutUV s = s\<lparr>has_managers := False\<rparr>"

definition delete_loop :: "loop_owner \<Rightarrow> loop_owner outcome" where
  "delete_loop s = (case the_loop s of
     None \<Rightarrow> Returns s
   | Some p \<Rightarrow> if p \<in> set (loops s) then Returns (s\<lparr>loops := remove1 p (loops s), the_loop := None\<rparr>) else Fault)"

text \<open>The end of \<open>Init\<close> and of \<open>ReinitUVLoop\<close>: a new loop, its asynchronous handle, the semaphore and the default function.\<close>

definition make_loop :: "uv_answers \<Rightarrow> loop_owner \<Rightarrow> (loop_owner \<times> bool) outcome" where
  "make_loop a s =
     (case new_loop a of
        None \<Rightarrow> Returns (s\<lparr>the_loop := None\<rparr>, False)
      | Some p \<Rightarrow>
          (let s1 = s\<lparr>the_loop := Some p, loops := p # loops s\<rparr>
           in if \<not> init_ok a then obind (delete_loop s1) (\<lambda>s2. Returns (s2, False))
              else Returns (s1\<lparr>async_open := True, sem_ready := True, defaultFunc := defaultFunc s1 \<or> default_ok a\<rparr>, True)))"

definition Init :: "uv_answers \<Rightarrow> loop_owner \<Rightarrow> loop_owner outcome" where
  "Init a s = obind (make_loop a (InitWithoutUV s)) (\<lambda>r. Returns (fst r))"

text \<open>
  \<open>cleanup\<close> is what \<open>RunCleanup\<close> and the VM do to the engine.  After a first \<open>uv_loop_close\<close> that fails the loop runs once more and is closed
  again; it is deleted whatever the answer.
\<close>

definition Deinit :: "(loop_owner \<Rightarrow> loop_owner) \<Rightarrow> loop_owner \<Rightarrow> loop_owner outcome" where
  "Deinit cleanup s =
     (let s1 = (if the_loop s \<noteq> None then s\<lparr>defaultFunc := False, sem_ready := False, async_open := False\<rparr> else s);
          s2 = (DeinitWithoutUV (cleanup s1))\<lparr>engine_alive := False, engine_stopping := True\<rparr>
      in if the_loop s2 = None then Returns s2 else delete_loop s2)"

text \<open>
  In the child of a fork: every handle is closed, the loop runs until \<open>uv_run\<close> answers zero, and is replaced.  That the
  loop ends is left to libuv.
\<close>

definition ReinitUVLoop :: "uv_answers \<Rightarrow> loop_owner \<Rightarrow> (loop_owner \<times> bool) outcome" where
  "ReinitUVLoop a s =
     (let s1 = s\<lparr>defaultFunc := False\<rparr>
      in obind (if the_loop s1 \<noteq> None then delete_loop (s1\<lparr>async_open := False\<rparr>) else Returns s1) (make_loop a))"

definition loop_owned :: "loop_owner \<Rightarrow> bool" where
  "loop_owned s \<longleftrightarrow> loops s = (case the_loop s of None \<Rightarrow> [] | Some p \<Rightarrow> [p]) \<and> (the_loop s \<noteq> None \<longrightarrow> sem_ready s \<and> async_open s)"

lemma make_loop_owned: "loops s = [] \<Longrightarrow> \<exists>s' b. make_loop a s = Returns (s', b) \<and> loop_owned s' \<and> (b \<longleftrightarrow> the_loop s' \<noteq> None)"
  by (cases "new_loop a") (auto simp: make_loop_def delete_loop_def loop_owned_def Let_def)

lemma ReinitUVLoop_owned: "loop_owned s \<Longrightarrow> \<exists>s' b. ReinitUVLoop a s = Returns (s', b) \<and> loop_owned s' \<and> (b \<longleftrightarrow> the_loop s' \<noteq> None)"
proof -
  assume "loop_owned s"
  then have "ReinitUVLoop a s = make_loop a (s\<lparr>defaultFunc := False\<rparr>) \<and> loops s = [] \<or>
      ReinitUVLoop a s = make_loop a (s\<lparr>defaultFunc := False, async_open := False, loops := [], the_loop := None\<rparr>)"
    by (cases "the_loop s") (simp_all add: ReinitUVLoop_def delete_loop_def loop_owned_def)
  then have "\<exists>t. ReinitUVLoop a s = make_loop a t \<and> loops t = []"
  proof (elim disjE conjE)
    assume "ReinitUVLoop a s = make_loop a (s\<lparr>defaultFunc := False\<rparr>)" "loops s = []"
    then show ?thesis by (intro exI [of _ "s\<lparr>defaultFunc := False\<rparr>"]) simp
  next
    assume "ReinitUVLoop a s = make_loop a (s\<lparr>defaultFunc := False, async_open := False, loops := [], the_loop := None\<rparr>)"
    then show ?thesis by (intro exI [of _ "s\<lparr>defaultFunc := False, async_open := False, loops := [], the_loop := None\<rparr>"]) simp
  qed
  then show ?thesis using make_loop_owned by metis
qed

fun reinits :: "uv_answers list \<Rightarrow> loop_owner \<Rightarrow> loop_owner outcome" where
  "reinits [] s = Returns s"
| "reinits (a # as) s = obind (ReinitUVLoop a s) (\<lambda>r. reinits as (fst r))"

lemma reinits_owned: "loop_owned s \<Longrightarrow> \<exists>s'. reinits as s = Returns s' \<and> loop_owned s'"
proof (induction as arbitrary: s)
  case (Cons a as)
  from ReinitUVLoop_owned [OF Cons.prems, of a] obtain t b where "ReinitUVLoop a s = Returns (t, b)" "loop_owned t" by blast
  with Cons.IH [of t] show ?case by simp
qed simp

text \<open>
  An engine that is initialised, has its loop replaced any number of times, and is torn down, whatever libuv answers, deletes every loop it made exactly once, and
  uses the semaphore and the handle only while there is a loop.
\<close>

theorem engine_loop_life:
  assumes "the_loop s = None" "loops s = []" "\<forall>t. the_loop (cleanup t) = the_loop t \<and> loops (cleanup t) = loops t"
  shows "\<exists>s1 s2 s3. Init a s = Returns s1 \<and> loop_owned s1 \<and> reinits as s1 = Returns s2 \<and> loop_owned s2 \<and>
    Deinit cleanup s2 = Returns s3 \<and> the_loop s3 = None \<and> loops s3 = [] \<and> \<not> engine_alive s3"
proof -
  have "loops (InitWithoutUV s) = []" using assms(2) by (simp add: InitWithoutUV_def)
  from make_loop_owned [OF this, of a] obtain s1 where s1: "Init a s = Returns s1" "loop_owned s1" by (auto simp: Init_def)
  from reinits_owned [OF s1(2), of as] obtain s2 where s2: "reinits as s1 = Returns s2" "loop_owned s2" by blast
  have "\<exists>s3. Deinit cleanup s2 = Returns s3 \<and> the_loop s3 = None \<and> loops s3 = [] \<and> \<not> engine_alive s3"
    using s2(2) assms(3) by (cases "the_loop s2") (simp_all add: Deinit_def Let_def DeinitWithoutUV_def delete_loop_def loop_owned_def)
  with s1 s2 show ?thesis by blast
qed

text \<open>When the replacement fails the semaphore of the old loop stays initialised, and \<open>Deinit\<close> does not destroy it.\<close>

theorem failed_reinit_keeps_semaphore:
  "\<exists>s2 s3. reinits [\<lparr>new_loop = None, init_ok = True, default_ok = True\<rparr>]
      \<lparr>the_loop = Some 1, loops = [1], sem_ready = True, async_open = True, defaultFunc = True, has_managers = True,
        engine_alive = True, engine_stopping = False\<rparr> = Returns s2 \<and>
    Deinit (\<lambda>s. s) s2 = Returns s3 \<and> sem_ready s3"
  by (simp add: ReinitUVLoop_def delete_loop_def make_loop_def Deinit_def DeinitWithoutUV_def Let_def)

end
