(* ===== verification/Promises.thy ===== *)
theory Promises
  imports Napi_Call
begin

text \<open>
  Promises that C settles, and what becomes of rejections and exceptions that nobody handles: the calls of native\_api.cpp on deferred
  objects with native\_engine/impl/ark/ark\_native\_deferred.cpp, the tracker of rejections and the handling of uncaught exceptions of
  ark\_native\_engine.cpp, and \<open>NapiErrorManager\<close> of native\_engine.cpp.

  Values, promises and callbacks are numbers.  A promise belongs to the VM: of what ECMAScript says about it the model uses that its
  resolving functions act only the first time.
\<close>

section \<open>Deferred objects\<close>

datatype promise_state = Unresolved | ResolvedWith nat | RejectedWith nat

record promise_env = call_env +
  promises :: "nat \<rightharpoonup> promise_state"
  deferreds :: "addr \<rightharpoonup> nat"
  capability_handles :: nat
  vm_exception :: "nat option"
  uncaught_callback :: bool
  uncaught_told :: "nat list"

text \<open>A resolving function of the VM.\<close>

definition settle :: "nat \<Rightarrow> promise_state \<Rightarrow> promise_env \<Rightarrow> promise_env" where
  "settle p st s = (if promises s p = Some Unresolved then s\<lparr>promises := (promises s)(p \<mapsto> st)\<rparr> else s)"

text \<open>\<open>capability\<close> is the promise of the capability that the VM made, if it could, and \<open>d\<close> the address that \<open>new\<close> returned.\<close>

definition CreatePromise :: "addr \<Rightarrow> nat option \<Rightarrow> promise_env \<Rightarrow> promise_env \<times> (addr \<times> nat) option" where
  "CreatePromise d capability s =
     (case capability of
        None \<Rightarrow> (s, None)
      | Some p \<Rightarrow> (s\<lparr>promises := (promises s)(p \<mapsto> Unresolved), deferreds := (deferreds s)(d \<mapsto> p),
                     capability_handles := capability_handles s + 1\<rparr>, Some (d, p)))"

definition napi_create_promise ::
    "bool \<Rightarrow> vm_call \<Rightarrow> addr \<Rightarrow> nat option \<Rightarrow> unit option \<Rightarrow> unit option \<Rightarrow> promise_env \<Rightarrow>
     (promise_env \<times> napi_status \<times> (addr \<times> nat) option) outcome" where
  "napi_create_promise env c d capability deferred promise =
     NAPI_PREAMBLE env c (SWITCH_CONTEXT c (\<lambda>s.
       if vm_exception s \<noteq> None then Returns (s, napi_pending_exception, None)
       else CHECK_ARG deferred (CHECK_ARG promise (\<lambda>s.
         case CreatePromise d capability s of
           (s1, None) \<Rightarrow> napi_set_last_error napi_generic_failure None s1
         | (s1, Some r) \<Rightarrow> GET_RETURN_STATUS c (Some r) s1)) s))"

text \<open>\<open>Resolve\<close> and \<open>Reject\<close> of the deferred object, and its destructor.\<close>

definition Resolve :: "addr \<Rightarrow> nat \<Rightarrow> promise_env \<Rightarrow> promise_env outcome" where
  "Resolve d data s = deref (deferreds s d) (\<lambda>p. Returns (settle p (ResolvedWith data) s))"

definition Reject :: "addr \<Rightarrow> nat \<Rightarrow> promise_env \<Rightarrow> promise_env outcome" where
  "Reject d reason s = deref (deferreds s d) (\<lambda>p. Returns (settle p (RejectedWith reason) s))"

definition delete_deferred :: "addr \<Rightarrow> promise_env \<Rightarrow> promise_env outcome" where
  "delete_deferred d s = deref (deferreds s d) (\<lambda>_.
     Returns (s\<lparr>deferreds := (deferreds s)(d := None), capability_handles := capability_handles s - 1\<rparr>))"

definition napi_resolve_deferred ::
    "bool \<Rightarrow> vm_call \<Rightarrow> addr option \<Rightarrow> nat option \<Rightarrow> promise_env \<Rightarrow> (promise_env \<times> napi_status \<times> unit option) outcome" where
  "napi_resolve_deferred env c deferred resolution =
     NAPI_PREAMBLE env c (CHECK_ARG deferred (CHECK_ARG resolution (\<lambda>s.
       obind (Resolve (the deferred) (the resolution) s) (\<lambda>s1.
       obind (delete_deferred (the deferred) s1) (GET_RETURN_STATUS c None)))))"

definition napi_reject_deferred ::
    "bool \<Rightarrow> vm_call \<Rightarrow> addr option \<Rightarrow> nat option \<Rightarrow> promise_env \<Rightarrow> (promise_env \<times> napi_status \<times> unit option) outcome" where
  "napi_reject_deferred env c deferred rejection =
     NAPI_PREAMBLE env c (CHECK_ARG deferred (CHECK_ARG rejection (\<lambda>s.
       obind (Reject (the deferred) (the rejection) s) (\<lambda>s1.
       obind (delete_deferred (the deferred) s1) (GET_RETURN_STATUS c None)))))"

subsection \<open>Every promise is settled once\<close>

text \<open>Calls with their arguments present; \<open>c\<close> is what the VM does meanwhile.\<close>

datatype promise_op =
    Create vm_call addr "nat option"
  | Conclude bool vm_call addr nat

fun exec_promise :: "promise_op \<Rightarrow> promise_env \<Rightarrow> promise_env outcome" where
  "exec_promise (Create c d capability) s = fst_of (napi_create_promise True c d capability (Some ()) (Some ()) s)"
| "exec_promise (Conclude True c d v) s = fst_of (napi_resolve_deferred True c (Some d) (Some v) s)"
| "exec_promise (Conclude False c d v) s = fst_of (napi_reject_deferred True c (Some d) (Some v) s)"

text \<open>New objects are new, and a deferred object is concluded while it exists.\<close>

fun promise_allowed :: "promise_op \<Rightarrow> promise_env \<Rightarrow> bool" where
  "promise_allowed (Create c d capability) s \<longleftrightarrow>
     deferreds s d = None \<and> (case capability of None \<Rightarrow> True | Some p \<Rightarrow> promises s p = None)"
| "promise_allowed (Conclude resolved c d v) s \<longleftrightarrow> deferreds s d \<noteq> None"

definition no_promises :: promise_env where
  "no_promises = \<lparr>lastException = False, lastError = napi_ok, promises = Map.empty, deferreds = Map.empty, capability_handles = 0,
     vm_exception = None, uncaught_callback = False, uncaught_told = []\<rparr>"

text \<open>The promises of the deferred objects are the unresolved ones, one to one, and every object has its handle.\<close>

definition promise_inv :: "promise_env \<Rightarrow> bool" where
  "promise_inv s \<longleftrightarrow> finite (dom (deferreds s)) \<and> inj_on (deferreds s) (dom (deferreds s)) \<and>
     (\<forall>p. promises s p = Some Unresolved \<longleftrightarrow> (\<exists>d. deferreds s d = Some p)) \<and> capability_handles s = card (dom (deferreds s))"

lemma promise_inv_unchanged:
  "promises s' = promises s \<Longrightarrow> deferreds s' = deferreds s \<Longrightarrow> capability_handles s' = capability_handles s \<Longrightarrow>
    promise_inv s' = promise_inv s"
  by (simp add: promise_inv_def)

lemma promise_inv_env [simp]:
  "promise_inv (s\<lparr>lastError := e\<rparr>) = promise_inv s" "promise_inv (s\<lparr>lastException := x\<rparr>) = promise_inv s"
  by (simp_all add: promise_inv_def)

lemma CreatePromise_inv:
  assumes "promise_inv s" "deferreds s d = None" "promises s p = None"
  shows "promise_inv (s\<lparr>promises := (promises s)(p \<mapsto> Unresolved), deferreds := (deferreds s)(d \<mapsto> p),
    capability_handles := capability_handles s + 1\<rparr>)"
proof -
  have "deferreds s d' \<noteq> Some p" for d' using assms by (metis option.distinct(1) promise_inv_def)
  moreover have "d \<notin> dom (deferreds s)" using assms(2) by auto
  moreover from this have "card (insert d (dom (deferreds s))) = Suc (card (dom (deferreds s)))"
    using assms(1) by (simp add: promise_inv_def)
  moreover have "((promises s)(p \<mapsto> Unresolved)) q = Some Unresolved \<longleftrightarrow> (\<exists>d'. ((deferreds s)(d \<mapsto> p)) d' = Some q)" for q
  proof (cases "q = p")
    case False
    have "deferreds s d' = Some q \<Longrightarrow> d' \<noteq> d" for d' using assms(2) by auto
    with False assms(1) show ?thesis unfolding promise_inv_def by (auto split: if_splits)
  qed auto
  moreover have "inj_on ((deferreds s)(d \<mapsto> p)) (insert d (dom (deferreds s)))"
    using assms(1) calculation(1,2) unfolding promise_inv_def inj_on_def by (auto split: if_splits)
  ultimately show ?thesis using assms(1) unfolding promise_inv_def by simp
qed

lemma conclude_inv:
  assumes "promise_inv s" "deferreds s d = Some p" "st \<noteq> Unresolved"
  shows "promise_inv ((settle p st s)\<lparr>deferreds := (deferreds s)(d := None), capability_handles := capability_handles s - 1\<rparr>)"
    and "promises (settle p st s) = (promises s)(p \<mapsto> st)"
proof -
  have u: "promises s p = Some Unresolved" using assms(1,2) by (auto simp: promise_inv_def)
  have d: "d \<in> dom (deferreds s)" using assms(2) by auto
  have other: "deferreds s d' = Some p \<Longrightarrow> d' = d" for d' using assms(1,2) d by (auto simp: promise_inv_def inj_on_def dom_def)
  show ps: "promises (settle p st s) = (promises s)(p \<mapsto> st)" using u by (simp add: settle_def)
  have "((promises s)(p \<mapsto> st)) q = Some Unresolved \<longleftrightarrow> (\<exists>d'. ((deferreds s)(d := None)) d' = Some q)" for q
  proof (cases "q = p")
    case True
    then show ?thesis using assms(3) other by auto
  next
    case False
    then have "deferreds s d' = Some q \<Longrightarrow> d' \<noteq> d" for d' using assms(2) by auto
    with False assms(1) show ?thesis unfolding promise_inv_def by auto
  qed
  moreover have "inj_on ((deferreds s)(d := None)) (dom (deferreds s) - {d})" using assms(1) by (auto simp: promise_inv_def inj_on_def)
  ultimately show "promise_inv ((settle p st s)\<lparr>deferreds := (deferreds s)(d := None), capability_handles := capability_handles s - 1\<rparr>)"
    using assms(1) d ps by (simp add: promise_inv_def)
qed

lemma settle_fields [simp]:
  "deferreds (settle p st s) = deferreds s" "capability_handles (settle p st s) = capability_handles s"
  "lastException (settle p st s) = lastException s" "lastError (settle p st s) = lastError s"
  by (simp_all add: settle_def)

lemmas promise_calls = napi_create_promise_def napi_resolve_deferred_def napi_reject_deferred_def CreatePromise_def
  Resolve_def Reject_def delete_deferred_def api_defs

text \<open>What a conclusion leaves: refused with a pending exception, or the promise settled and the object gone.\<close>

lemma conclude_effect:
  assumes "promise_inv s" "deferreds s d = Some p"
  shows "\<exists>s'. exec_promise (Conclude b c d v) s = Returns s' \<and> promise_inv s' \<and>
    (if lastException s then promises s' = promises s \<and> deferreds s' = deferreds s
     else promises s' = (promises s)(p \<mapsto> if b then ResolvedWith v else RejectedWith v) \<and> deferreds s' = (deferreds s)(d := None))"
proof (cases "lastException s")
  case True
  then show ?thesis using assms(1) by (cases b) (simp_all add: promise_calls)
next
  case False
  let ?s = "s\<lparr>lastError := napi_ok\<rparr>"
  have s: "promise_inv ?s" "deferreds ?s d = Some p" using assms by simp_all
  from conclude_inv [OF s, of "if b then ResolvedWith v else RejectedWith v"] False assms show ?thesis
    by (cases b) (simp_all add: promise_calls)
qed

lemma create_effect:
  assumes "promise_inv s" "promise_allowed (Create c d capability) s"
  shows "\<exists>s'. exec_promise (Create c d capability) s = Returns s' \<and> promise_inv s' \<and>
    (promises s' = promises s \<and> deferreds s' = deferreds s \<or>
     (\<exists>p. capability = Some p \<and> promises s' = (promises s)(p \<mapsto> Unresolved) \<and> deferreds s' = (deferreds s)(d \<mapsto> p)))"
proof -
  have i: "promise_inv (s\<lparr>promises := (promises s)(p \<mapsto> Unresolved), deferreds := (deferreds s)(d \<mapsto> p),
      capability_handles := Suc (capability_handles s)\<rparr>)" if "capability = Some p" for p
    using CreatePromise_inv [of s d p] assms that by simp
  then have j: "promise_inv (s\<lparr>lastError := napi_ok, promises := (promises s)(p \<mapsto> Unresolved), deferreds := (deferreds s)(d \<mapsto> p),
      capability_handles := Suc (capability_handles s)\<rparr>)" if "capability = Some p" for p
    using that by (simp add: promise_inv_def)
  show ?thesis
  proof (cases capability)
    case None
    with assms(1) show ?thesis by (simp add: promise_calls split: option.splits)
  next
    case (Some p)
    from i [OF this] j [OF this] assms(1) show ?thesis by (simp add: Some promise_calls split: option.splits)
  qed
qed


lemma promise_step:
  assumes "promise_inv s" "promise_allowed x s"
  shows "\<exists>s'. exec_promise x s = Returns s' \<and> promise_inv s'"
proof (cases x)
  case (Create c d capability)
  with create_effect assms show ?thesis by blast
next
  case (Conclude b c d v)
  with assms(2) obtain p where "deferreds s d = Some p" by auto
  with Conclude conclude_effect [OF assms(1)] show ?thesis by blast
qed

interpretation promise_runs: guarded_machine exec_promise promise_allowed promise_inv no_promises
  by unfold_locales (use promise_step in \<open>auto simp: promise_inv_def no_promises_def\<close>)

text \<open>A settled promise stays as it is, whatever is created and concluded later.\<close>

lemma settled_stays:
  assumes "promise_inv s" "all_allowed promise_allowed exec_promise xs s" "promises s p = Some st" "st \<noteq> Unresolved"
  shows "\<exists>s'. run_all exec_promise xs s = Returns s' \<and> promises s' p = Some st"
  using assms
proof (induction xs arbitrary: s)
  case (Cons x xs)
  from Cons.prems(2) have ok: "promise_allowed x s" by simp
  have "\<exists>s'. exec_promise x s = Returns s' \<and> promise_inv s' \<and> promises s' p = Some st"
  proof (cases x)
    case (Create c d capability)
    from create_effect [OF Cons.prems(1), of c d capability] ok Create obtain s' where
      s': "exec_promise x s = Returns s'" "promise_inv s'" and
      e: "promises s' = promises s \<or> (\<exists>q. capability = Some q \<and> promises s' = (promises s)(q \<mapsto> Unresolved))" by auto
    from ok Create Cons.prems(3) have "capability = Some q \<Longrightarrow> q \<noteq> p" for q by auto
    with e Cons.prems(3) have "promises s' p = Some st" by (metis fun_upd_other)
    with s' show ?thesis by blast
  next
    case (Conclude b c d v)
    with ok obtain q where q: "deferreds s d = Some q" by auto
    with Cons.prems(1) have "promises s q = Some Unresolved" unfolding promise_inv_def by blast
    with Cons.prems(3,4) have "q \<noteq> p" by auto
    with conclude_effect [OF Cons.prems(1) q, of b c v] Conclude Cons.prems(3) show ?thesis by (auto split: if_splits)
  qed
  then obtain s' where "exec_promise x s = Returns s'" "promise_inv s'" "promises s' p = Some st" by blast
  with Cons.IH [of s'] Cons.prems show ?case by simp
qed simp

text \<open>
  C12: A promise made for C is settled exactly once, by the first call that concludes its deferred object, with the value of that call, and keeps it whatever is
  created and concluded before and after in any order.  No run of such calls touches an object that is gone; at its end the unresolved promises
  are exactly those with a live deferred object, one each, and no handle is leaked.
\<close>

theorem promises_settled_once:
  assumes "all_allowed promise_allowed exec_promise (xs @ Conclude b c d v # ys) no_promises"
    and "run_all exec_promise xs no_promises = Returns t" "deferreds t d = Some p" "\<not> lastException t"
  shows "\<exists>s. run_all exec_promise (xs @ Conclude b c d v # ys) no_promises = Returns s \<and>
    promises s p = Some (if b then ResolvedWith v else RejectedWith v) \<and>
    (\<forall>q. promises s q = Some Unresolved \<longleftrightarrow> (\<exists>!d. deferreds s d = Some q)) \<and> capability_handles s = card (dom (deferreds s))"
proof -
  from assms(1,2) have ok: "all_allowed promise_allowed exec_promise xs no_promises" "promise_allowed (Conclude b c d v) t"
    "all_allowed promise_allowed exec_promise (Conclude b c d v # ys) t"
    by (auto simp: all_allowed_append)
  have t: "promise_inv t" by (rule promise_runs.reached_inv [OF ok(1) assms(2)])
  from conclude_effect [OF t assms(3), of b c v] assms(4) obtain u where u: "exec_promise (Conclude b c d v) t = Returns u" "promise_inv u"
    and up: "promises u p = Some (if b then ResolvedWith v else RejectedWith v)" by auto
  with ok(3) have rest: "all_allowed promise_allowed exec_promise ys u" by simp
  have "(if b then ResolvedWith v else RejectedWith v) \<noteq> Unresolved" by simp
  from settled_stays [OF u(2) rest up this] obtain s where s: "run_all exec_promise ys u = Returns s"
    "promises s p = Some (if b then ResolvedWith v else RejectedWith v)" by blast
  from s(1) u(1) assms(2) have run: "run_all exec_promise (xs @ Conclude b c d v # ys) no_promises = Returns s"
    by (simp add: run_all_append)
  have "promise_inv s" by (rule promise_runs.reached_inv [OF assms(1) run])
  then have "promises s q = Some Unresolved \<longleftrightarrow> (\<exists>!d. deferreds s d = Some q)" "capability_handles s = card (dom (deferreds s))" for q
    by (auto simp: promise_inv_def inj_on_def dom_def)
  with run s(2) show ?thesis by blast
qed

theorem promises_settled_once_witness:
  "\<exists>s. run_all exec_promise ([Create quiet 100 (Some 1), Create quiet 200 (Some 2)] @ Conclude True quiet 100 7 # [Conclude False quiet 200 8]) no_promises
      = Returns s \<and> promises s 1 = Some (if True then ResolvedWith 7 else RejectedWith 7) \<and>
    (\<forall>q. promises s q = Some Unresolved \<longleftrightarrow> (\<exists>!d. deferreds s d = Some q)) \<and> capability_handles s = card (dom (deferreds s))"
proof -
  have "all_allowed promise_allowed exec_promise
      ([Create quiet 100 (Some 1), Create quiet 200 (Some 2)] @ Conclude True quiet 100 7 # [Conclude False quiet 200 8]) no_promises"
    by (simp add: promise_calls no_promises_def quiet_def settle_def)
  moreover have "\<exists>t. run_all exec_promise [Create quiet 100 (Some 1), Create quiet 200 (Some 2)] no_promises = Returns t \<and>
      deferreds t 100 = Some 1 \<and> \<not> lastException t"
    by (simp add: promise_calls no_promises_def quiet_def)
  ultimately show ?thesis using promises_settled_once [where b = True and d = 100 and v = 7 and c = quiet and p = 1] by blast
qed

text \<open>A second conclusion uses the deleted object.\<close>

lemma deferred_used_twice:
  "run_all exec_promise [Create quiet 100 (Some 1), Conclude True quiet 100 7, Conclude True quiet 100 8] no_promises = Fault"
  by (simp add: promise_calls no_promises_def quiet_def settle_def fst_of_def)


section \<open>Rejections that nobody handles\<close>

text \<open>
  A reference is absent, or gives a function, or gives nothing any more.  \<open>hasAllUnhandled\<close> is the manager's question whether
  there are observers of all rejections, when it is registered, with its answer.
\<close>

type_synonym fun_ref = "nat option option"

record rejection_env =
  promiseRejectCallbackRef :: fun_ref
  checkCallbackRef :: fun_ref
  allPromiseRejectCallback :: bool
  globalCheckCallbackRef :: fun_ref
  hasAllUnhandled :: "bool option"

datatype rejection_event = REJECT | HANDLE

text \<open>What is done in answer to an event: observers called, a function called, a job for the queue of scripts.\<close>

datatype rejection_action = CallObservers rejection_event nat nat | CallFunction nat rejection_event nat nat | EnqueueJob nat

definition no_trackers :: rejection_env where
  "no_trackers = \<lparr>promiseRejectCallbackRef = None, checkCallbackRef = None, allPromiseRejectCallback = False,
     globalCheckCallbackRef = None, hasAllUnhandled = None\<rparr>"

definition SetPromiseRejectCallback :: "fun_ref \<Rightarrow> fun_ref \<Rightarrow> rejection_env \<Rightarrow> rejection_env" where
  "SetPromiseRejectCallback rejectRef checkRef s =
     (if rejectRef = None \<or> checkRef = None then s
      else s\<lparr>promiseRejectCallbackRef := rejectRef, checkCallbackRef := checkRef\<rparr>)"

definition napi_set_promise_rejection_callback :: "bool \<Rightarrow> bool \<Rightarrow> fun_ref \<Rightarrow> fun_ref \<Rightarrow> rejection_env \<Rightarrow> (rejection_env \<times> napi_status) outcome" where
  "napi_set_promise_rejection_callback env main_context ref checkRef s =
     (if \<not> env \<or> ref = None \<or> checkRef = None then Returns (s, napi_invalid_arg)
      else if \<not> main_context then Aborts
      else Returns (s\<lparr>promiseRejectCallbackRef := ref, checkCallbackRef := checkRef\<rparr>, napi_ok))"

text \<open>\<open>fn\<close> is the function object for the global check, \<open>None\<close> when its information could not be allocated.\<close>

definition RegisterAllPromiseCallback :: "nat option \<Rightarrow> rejection_env \<Rightarrow> rejection_env" where
  "RegisterAllPromiseCallback fn s =
     (let s1 = s\<lparr>allPromiseRejectCallback := True\<rparr>
      in case fn of None \<Rightarrow> s1 | Some f \<Rightarrow> s1\<lparr>globalCheckCallbackRef := Some (Some f)\<rparr>)"

definition job_of :: "nat option \<Rightarrow> rejection_action list" where
  "job_of f = (case f of None \<Rightarrow> [] | Some g \<Rightarrow> [EnqueueJob g])"

text \<open>The two parts of \<open>PromiseRejectCallback\<close>: for the observers of all rejections, and for the functions that JS set.\<close>

definition tell_observers :: "rejection_event \<Rightarrow> nat \<Rightarrow> nat \<Rightarrow> rejection_env \<Rightarrow> rejection_action list outcome" where
  "tell_observers operation promise reason s =
     (if \<not> allPromiseRejectCallback s then Returns []
      else let told = (if hasAllUnhandled s = Some True then [CallObservers operation promise reason] else [])
           in if operation = REJECT then deref (globalCheckCallbackRef s) (\<lambda>f. Returns (told @ job_of f)) else Returns told)"

definition tell_function :: "rejection_event \<Rightarrow> nat \<Rightarrow> nat \<Rightarrow> rejection_env \<Rightarrow> rejection_action list" where
  "tell_function operation promise reason s =
     (if promiseRejectCallbackRef s = None \<or> checkCallbackRef s = None then []
      else (case the (promiseRejectCallbackRef s) of None \<Rightarrow> [] | Some f \<Rightarrow> [CallFunction f operation promise reason]) @
           (if operation = REJECT then job_of (the (checkCallbackRef s)) else []))"

definition PromiseRejectCallback :: "rejection_event \<Rightarrow> nat \<Rightarrow> nat \<Rightarrow> rejection_env option \<Rightarrow> rejection_action list outcome" where
  "PromiseRejectCallback operation promise reason env =
     (case env of None \<Rightarrow> Returns []
      | Some s \<Rightarrow>
          if promiseRejectCallbackRef s = None \<and> hasAllUnhandled s = None then Returns []
          else obind (tell_observers operation promise reason s) (\<lambda>told. Returns (told @ tell_function operation promise reason s)))"

lemmas rejection_defs = PromiseRejectCallback_def tell_observers_def tell_function_def job_of_def SetPromiseRejectCallback_def
  RegisterAllPromiseCallback_def napi_set_promise_rejection_callback_def

text \<open>What an engine may have registered: everything in one call each, and the manager's question at any time.\<close>

datatype tracker_op = SetTracker nat nat | RegisterAll nat | Ask "bool option"

fun exec_tracker :: "tracker_op \<Rightarrow> rejection_env \<Rightarrow> rejection_env" where
  "exec_tracker (SetTracker f g) s = SetPromiseRejectCallback (Some (Some f)) (Some (Some g)) s"
| "exec_tracker (RegisterAll f) s = RegisterAllPromiseCallback (Some f) s"
| "exec_tracker (Ask b) s = s\<lparr>hasAllUnhandled := b\<rparr>"

definition tracker_inv :: "rejection_env \<Rightarrow> bool" where
  "tracker_inv s \<longleftrightarrow> (allPromiseRejectCallback s \<longleftrightarrow> (\<exists>f. globalCheckCallbackRef s = Some (Some f))) \<and>
     (\<forall>r. globalCheckCallbackRef s = Some r \<longrightarrow> r \<noteq> None) \<and>
     (case promiseRejectCallbackRef s of None \<Rightarrow> checkCallbackRef s = None
      | Some f \<Rightarrow> f \<noteq> None \<and> (\<exists>g. checkCallbackRef s = Some (Some g)))"

lemma tracker_inv_fold: "tracker_inv s \<Longrightarrow> tracker_inv (fold exec_tracker xs s)"
proof (induction xs arbitrary: s)
  case (Cons x xs)
  have "tracker_inv (exec_tracker x s)" using Cons.prems by (cases x) (auto simp: tracker_inv_def rejection_defs split: option.splits)
  with Cons.IH show ?case by simp
qed simp

definition is_job :: "rejection_action \<Rightarrow> bool" where
  "is_job a \<longleftrightarrow> (\<exists>f. a = EnqueueJob f)"

text \<open>
  C37: However the trackers were registered, the answer to an event of the VM never fails; the function that JS set is called exactly once with the event, if one is set;
  the observers exactly once, if they are registered and wanted; nothing else is called; and jobs that look at the promise again are queued for a rejection
  only, behind the calls they belong to and one for each registered check, never for a promise that was handled later.
\<close>

theorem rejections_told:
  assumes "s = fold exec_tracker xs no_trackers"
  shows "\<exists>told. PromiseRejectCallback e p r (Some s) = Returns told \<and>
    filter (\<lambda>a. \<not> is_job a) told =
      (if allPromiseRejectCallback s \<and> hasAllUnhandled s = Some True then [CallObservers e p r] else []) @
      (case promiseRejectCallbackRef s of Some (Some f) \<Rightarrow> [CallFunction f e p r] | _ \<Rightarrow> []) \<and>
    (e = HANDLE \<longrightarrow> filter is_job told = []) \<and>
    (e = REJECT \<and> (promiseRejectCallbackRef s \<noteq> None \<or> hasAllUnhandled s \<noteq> None) \<longrightarrow> filter is_job told =
      (case globalCheckCallbackRef s of Some (Some f) \<Rightarrow> [EnqueueJob f] | _ \<Rightarrow> []) @
      (case checkCallbackRef s of Some (Some f) \<Rightarrow> [EnqueueJob f] | _ \<Rightarrow> []))"
proof -
  have "tracker_inv s" unfolding assms by (rule tracker_inv_fold) (simp add: tracker_inv_def no_trackers_def)
  then have "(promiseRejectCallbackRef s = None \<and> checkCallbackRef s = None) \<or>
      (\<exists>f g. promiseRejectCallbackRef s = Some (Some f) \<and> checkCallbackRef s = Some (Some g))"
    and "(\<not> allPromiseRejectCallback s \<and> globalCheckCallbackRef s = None) \<or>
      (\<exists>h. allPromiseRejectCallback s \<and> globalCheckCallbackRef s = Some (Some h))"
    by (cases "promiseRejectCallbackRef s"; cases "globalCheckCallbackRef s"; auto simp: tracker_inv_def)+
  then show ?thesis
    by (elim disjE exE conjE; cases e) (simp_all add: rejection_defs is_job_def)
qed

theorem rejections_told_witness:
  "\<exists>told. PromiseRejectCallback REJECT 1 2 (Some (fold exec_tracker [SetTracker 10 11, RegisterAll 12, Ask (Some True)] no_trackers)) = Returns told \<and>
    filter (\<lambda>a. \<not> is_job a) told = [CallObservers REJECT 1 2, CallFunction 10 REJECT 1 2]"
proof -
  have s: "fold exec_tracker [SetTracker 10 11, RegisterAll 12, Ask (Some True)] no_trackers =
      \<lparr>promiseRejectCallbackRef = Some (Some 10), checkCallbackRef = Some (Some 11), allPromiseRejectCallback = True,
        globalCheckCallbackRef = Some (Some 12), hasAllUnhandled = Some True\<rparr>"
    by (simp add: no_trackers_def rejection_defs)
  from rejections_told [OF refl, of REJECT 1 2 "[SetTracker 10 11, RegisterAll 12, Ask (Some True)]", unfolded s]
  show ?thesis unfolding s by (elim exE conjE) (intro exI conjI, assumption, simp)
qed

text \<open>
  When the information of the global check cannot be allocated the observers are registered all the same, and the next rejection uses the reference that was
  never made.
\<close>

theorem failed_registration_crashes:
  "PromiseRejectCallback REJECT 1 2 (Some (exec_tracker (Ask (Some False)) (RegisterAllPromiseCallback None no_trackers))) = Fault"
  by (simp add: rejection_defs no_trackers_def)

section \<open>Uncaught exceptions\<close>

definition HandleUncaughtException :: "'a promise_env_scheme \<Rightarrow> 'a promise_env_scheme" where
  "HandleUncaughtException s =
     (if \<not> uncaught_callback s then s
      else case vm_exception s of
        None \<Rightarrow> s\<lparr>lastException := False\<rparr>
      | Some exception \<Rightarrow> s\<lparr>lastException := False, vm_exception := None, uncaught_told := uncaught_told s @ [exception]\<rparr>)"

definition TriggerFatalException :: "nat \<Rightarrow> 'a promise_env_scheme \<Rightarrow> 'a promise_env_scheme" where
  "TriggerFatalException exceptionValue s = HandleUncaughtException (s\<lparr>vm_exception := Some exceptionValue\<rparr>)"

definition napi_fatal_exception :: "bool \<Rightarrow> vm_call \<Rightarrow> bool \<Rightarrow> nat option \<Rightarrow> promise_env \<Rightarrow> (promise_env \<times> napi_status \<times> unit option) outcome" where
  "napi_fatal_exception env c is_error err =
     NAPI_PREAMBLE env c (CHECK_ARG err (RETURN_STATUS_IF_FALSE is_error napi_invalid_arg (\<lambda>s.
       Returns (TriggerFatalException (the err) s, napi_ok, None))))"

text \<open>With a handler a fatal exception reaches it and is no longer pending; without one it stays pending in the VM.\<close>

lemma fatal_exception_handled:
  assumes "\<not> lastException s" "\<not> caught c"
  shows "\<exists>s'. napi_fatal_exception True c True (Some e) s = Returns (s', napi_ok, None) \<and> \<not> lastException s' \<and>
    (if uncaught_callback s then uncaught_told s' = uncaught_told s @ [e] \<and> vm_exception s' = None
     else uncaught_told s' = uncaught_told s \<and> vm_exception s' = Some e)"
  using assms by (simp add: napi_fatal_exception_def TriggerFatalException_def HandleUncaughtException_def api_defs)

subsection \<open>The error manager\<close>

text \<open>
  Each registration counts only the first time.  A question is \<open>None\<close> while it is not registered, and then its answer; a callback is known by
  number, and the one of the main thread answers whether it handled the exception.
\<close>

record error_manager =
  onWorkerErrorCb :: "nat option"
  onMainThreadErrorCb :: "(nat \<times> bool) option"
  allUnhandledRejectionCb :: "nat option"
  hasOnErrorCb :: "bool option"
  hasAllUnhandledRejectionCb :: "bool option"

definition keep_first :: "'a option \<Rightarrow> 'a option \<Rightarrow> 'a option" where
  "keep_first old new = (if old = None then new else old)"

definition RegisterOnErrorCallback :: "nat option \<Rightarrow> (nat \<times> bool) option \<Rightarrow> error_manager \<Rightarrow> error_manager" where
  "RegisterOnErrorCallback workerErrorCb mainThreadErrorCb m = m\<lparr>onWorkerErrorCb := keep_first (onWorkerErrorCb m) workerErrorCb,
     onMainThreadErrorCb := keep_first (onMainThreadErrorCb m) mainThreadErrorCb\<rparr>"

definition RegisterAllUnhandledRejectionCallback :: "nat option \<Rightarrow> error_manager \<Rightarrow> error_manager" where
  "RegisterAllUnhandledRejectionCallback cb m = m\<lparr>allUnhandledRejectionCb := keep_first (allUnhandledRejectionCb m) cb\<rparr>"

definition RegisterHasOnErrorCallback :: "bool option \<Rightarrow> error_manager \<Rightarrow> error_manager" where
  "RegisterHasOnErrorCallback cb m = m\<lparr>hasOnErrorCb := keep_first (hasOnErrorCb m) cb\<rparr>"

definition RegisterHasAllUnhandledRejectionCallback :: "bool option \<Rightarrow> error_manager \<Rightarrow> error_manager" where
  "RegisterHasAllUnhandledRejectionCallback cb m = m\<lparr>hasAllUnhandledRejectionCb := keep_first (hasAllUnhandledRejectionCb m) cb\<rparr>"

text \<open>The result of a notification: the callback that was called, if any.\<close>

definition NotifyUncaughtException :: "error_manager \<Rightarrow> nat option" where
  "NotifyUncaughtException m = (if hasOnErrorCb m = Some True then onWorkerErrorCb m else None)"

definition NotifyUnhandledRejection :: "error_manager \<Rightarrow> nat option" where
  "NotifyUnhandledRejection m = (if hasAllUnhandledRejectionCb m = Some True then allUnhandledRejectionCb m else None)"

text \<open>For the main thread: the pending exception of the VM, the callback called, and the answer.\<close>

definition NotifyUncaughtExceptionMain :: "error_manager \<Rightarrow> nat option \<Rightarrow> nat option \<times> nat option \<times> bool" where
  "NotifyUncaughtExceptionMain m exception =
     (if hasOnErrorCb m \<noteq> Some True then (exception, None, False)
      else case onMainThreadErrorCb m of
        None \<Rightarrow> (None, None, False)
      | Some (cb, answer) \<Rightarrow> (None, Some cb, answer))"

text \<open>An exception of the main thread is taken from the VM before it is known that there is nobody to tell: it is lost, and the answer says that it was not handled.\<close>

theorem exception_lost:
  "hasOnErrorCb m = Some True \<Longrightarrow> onMainThreadErrorCb m = None \<Longrightarrow> NotifyUncaughtExceptionMain m (Some e) = (None, None, False)"
  by (simp add: NotifyUncaughtExceptionMain_def)

end
