(* ===== verification/Script_Running.thy ===== *)
theory Script_Running
  imports Promises "HOL-Library.Word"
begin

text \<open>
  Running byte code: the checks on a script and the entry points of ark\_native\_engine.cpp that hand it to the VM, the calls of
  native\_engine.cpp that get the byte code from the embedder first, their entry points in native\_api.cpp, and the resolution of
  paths in utils/platform/unix\_like/file.cpp.

  The VM runs a script and answers with its result and, if one was thrown, an exception (\<open>script_vm\<close>).  The file system, the embedder's
  function for assets and the normalisation of paths are arguments.  A buffer is the list of the bytes from the pointer to the end of
  the allocation; reading behind it is \<open>Fault\<close>, and so is making a \<open>std::string\<close> of a null pointer.
\<close>

section \<open>The VM\<close>

datatype script_api = Execute | ExecuteSecure | ExecuteModuleBuffer | ExecuteModuleBufferSecure | ExecuteModuleFromBuffer

text \<open>A call of the VM: which one, the bytes if it is given any, the entry point, and the name that comes with them.\<close>

datatype execution = Exec script_api "u8 list option" string string

record script_env = promise_env +
  executed :: "execution list"

type_synonym script_vm = "execution \<Rightarrow> bool \<times> nat option"

definition PANDA_MAIN_FUNCTION :: string where "PANDA_MAIN_FUNCTION = ''_GLOBAL::func_main_0''"

definition run_vm :: "script_vm \<Rightarrow> execution \<Rightarrow> script_env \<Rightarrow> script_env \<times> bool" where
  "run_vm vm x s =
     (case vm x of (ret, exception) \<Rightarrow>
       (s\<lparr>executed := executed s @ [x], vm_exception := (if exception = None then vm_exception s else exception)\<rparr>, ret))"

text \<open>What follows a run: a pending exception goes to the handler and there is no result.\<close>

definition after_run :: "script_env \<times> bool \<Rightarrow> script_env \<times> bool option" where
  "after_run r = (case r of (s, ret) \<Rightarrow> if vm_exception s \<noteq> None then (HandleUncaughtException s, None) else (s, Some ret))"

section \<open>Checks\<close>

definition panda_header :: "u8 list" where "panda_header = [80, 65, 78, 68, 65, 0, 0, 0]"

definition IsValidScriptBuffer :: "u8 list option \<Rightarrow> nat \<Rightarrow> bool outcome" where
  "IsValidScriptBuffer scriptBuffer bufferSize =
     (case scriptBuffer of
        None \<Rightarrow> Returns False
      | Some mem \<Rightarrow>
          if bufferSize < 8 then Returns False
          else if length mem < 8 then Fault
          else Returns (take 8 mem = panda_header))"

definition PATH_MAX :: nat where "PATH_MAX = 4096"

definition RealPath :: "(string \<Rightarrow> string option) \<Rightarrow> string option \<Rightarrow> nat \<Rightarrow> string option" where
  "RealPath realpath path bufferSize =
     (case path of
        None \<Rightarrow> None
      | Some p \<Rightarrow>
          if length p = 0 \<or> length p > PATH_MAX then None
          else case realpath p of
            None \<Rightarrow> None
          | Some q \<Rightarrow> if length q < bufferSize - 1 then Some q else None)"

text \<open>What \<open>stat\<close> and the stream say of a path: the mode has the bit of regular files, the stream opens, the size, and the bytes then read.\<close>

record file_answer =
  mode_reg :: bool
  can_open :: bool
  st_size :: nat
  file_bytes :: "u8 list"

record file_system =
  realpath :: "string \<Rightarrow> string option"
  stat :: "string \<Rightarrow> file_answer option"

definition IsValidPandaFile :: "file_system \<Rightarrow> string option \<Rightarrow> bool outcome" where
  "IsValidPandaFile fs path =
     (case path of
        None \<Rightarrow> Returns False
      | Some p \<Rightarrow>
          case RealPath (realpath fs) (Some p) (PATH_MAX + 1) of
            None \<Rightarrow> Returns False
          | Some filePath \<Rightarrow>
              case stat fs filePath of
                None \<Rightarrow> Returns False
              | Some f \<Rightarrow>
                  if \<not> mode_reg f then Returns False
                  else if can_open f
                  then if st_size f < 8 then Returns False
                       else IsValidScriptBuffer (Some (take 8 (file_bytes f @ replicate 8 0))) 8
                  else Returns False)"

section \<open>Entry points of the Ark engine\<close>

definition RunScriptPath :: "file_system \<Rightarrow> script_vm \<Rightarrow> string option \<Rightarrow> bool \<Rightarrow> script_env \<Rightarrow> (script_env \<times> bool) outcome" where
  "RunScriptPath fs vm path checkPath s =
     obind (if checkPath then IsValidPandaFile fs path else Returns True) (\<lambda>ok.
       if \<not> ok then Returns (s, False)
       else deref path (\<lambda>p. case after_run (run_vm vm (Exec Execute None PANDA_MAIN_FUNCTION p) s) of (s1, r) \<Rightarrow> Returns (s1, r \<noteq> None)))"

text \<open>The first \<open>RunScriptBuffer\<close> takes a vector, and answers with an undefined value (\<open>True\<close>) or null.\<close>

definition RunScriptBuffer :: "script_vm \<Rightarrow> string \<Rightarrow> u8 list \<Rightarrow> bool \<Rightarrow> script_env \<Rightarrow> (script_env \<times> bool) outcome" where
  "RunScriptBuffer vm path buffer isBundle s =
     obind (IsValidScriptBuffer (Some buffer) (length buffer)) (\<lambda>ok.
       if \<not> ok then Returns (s, False)
       else case after_run (run_vm vm (if isBundle then Exec Execute (Some buffer) PANDA_MAIN_FUNCTION path
                                       else Exec ExecuteModuleBuffer (Some buffer) '''' path) s) of
              (s1, r) \<Rightarrow> Returns (s1, r \<noteq> None))"

text \<open>The second takes a pointer and a size, runs the script in secure memory, and answers what the VM answered.\<close>

definition RunScriptBufferSecure :: "script_vm \<Rightarrow> string \<Rightarrow> u8 list option \<Rightarrow> nat \<Rightarrow> bool \<Rightarrow> script_env \<Rightarrow> (script_env \<times> bool) outcome" where
  "RunScriptBufferSecure vm path buffer n isBundle s =
     obind (IsValidScriptBuffer buffer n) (\<lambda>ok.
       if \<not> ok then Returns (s, False)
       else case after_run (run_vm vm (if isBundle then Exec ExecuteSecure (map_option (take n) buffer) PANDA_MAIN_FUNCTION path
                                       else Exec ExecuteModuleBufferSecure (map_option (take n) buffer) '''' path) s) of
              (s1, r) \<Rightarrow> Returns (s1, r = Some True))"

definition RunBufferScript :: "script_vm \<Rightarrow> u8 list \<Rightarrow> script_env \<Rightarrow> (script_env \<times> bool) outcome" where
  "RunBufferScript vm buffer s =
     obind (IsValidScriptBuffer (Some buffer) (length buffer)) (\<lambda>ok.
       if \<not> ok then Returns (s, False)
       else case after_run (run_vm vm (Exec Execute (Some buffer) PANDA_MAIN_FUNCTION '''') s) of (s1, r) \<Rightarrow> Returns (s1, r \<noteq> None))"

definition ExecuteJsBin :: "file_system \<Rightarrow> script_vm \<Rightarrow> string \<Rightarrow> bool \<Rightarrow> script_env \<Rightarrow> (script_env \<times> bool) outcome" where
  "ExecuteJsBin fs vm fileName checkPath s =
     obind (if checkPath then IsValidPandaFile fs (Some fileName) else Returns True) (\<lambda>ok.
       if \<not> ok then Returns (s, False) else Returns (run_vm vm (Exec Execute None PANDA_MAIN_FUNCTION fileName) s))"

text \<open>\<open>exported\<close> tells whether the module has a default export.\<close>

definition LoadArkModule :: "script_vm \<Rightarrow> bool \<Rightarrow> u8 list option \<Rightarrow> int \<Rightarrow> string \<Rightarrow> script_env \<Rightarrow> (script_env \<times> bool) outcome" where
  "LoadArkModule vm exported buffer len fileName s =
     (if buffer = None \<or> len \<le> 0 \<or> fileName = '''' then Returns (s, False)
      else obind (IsValidScriptBuffer buffer (nat len)) (\<lambda>ok.
        if \<not> ok then Returns (s, False)
        else case run_vm vm (Exec ExecuteModuleFromBuffer (map_option (take (nat len)) buffer) '''' fileName) s of
               (s1, res) \<Rightarrow> Returns (s1, res \<and> exported)))"

text \<open>\<open>EXECUTE_BUFFER\<close>, with the call that the version of the application selects.\<close>

definition EXECUTE_BUFFER :: "script_api \<Rightarrow> bool \<Rightarrow> u8 list option \<Rightarrow> nat \<Rightarrow> string option \<Rightarrow> string \<Rightarrow> execution" where
  "EXECUTE_BUFFER functionName isBundle buffer bufferSize entryPoint desc =
     (if isBundle then Exec Execute (map_option (take bufferSize) buffer) PANDA_MAIN_FUNCTION desc
      else if bufferSize \<noteq> 0
      then Exec functionName (map_option (take bufferSize) buffer) (case entryPoint of None \<Rightarrow> PANDA_MAIN_FUNCTION | Some e \<Rightarrow> e) desc
      else Exec Execute None PANDA_MAIN_FUNCTION desc)"

record script_config =
  api11plus :: bool
  is_bundle :: bool
  restricted_worker :: bool

definition RunActor ::
    "file_system \<Rightarrow> script_config \<Rightarrow> script_vm \<Rightarrow> u8 list option \<Rightarrow> nat \<Rightarrow> string option \<Rightarrow> string option \<Rightarrow> bool \<Rightarrow> script_env \<Rightarrow>
     (script_env \<times> bool) outcome" where
  "RunActor fs cfg vm buffer bufferSize descriptor entryPoint checkPath s =
     (if buffer = None \<and> descriptor = None then Returns (s, False)
      else obind (if buffer \<noteq> None then obind (IsValidScriptBuffer buffer bufferSize) (\<lambda>ok. Returns (\<not> ok)) else Returns False) (\<lambda>bad_buffer.
           obind (if bad_buffer \<and> checkPath \<and> descriptor \<noteq> None
                  then obind (IsValidPandaFile fs descriptor) (\<lambda>ok. Returns (\<not> ok)) else Returns False) (\<lambda>bad.
             if bad then Returns (s, False)
             else deref descriptor (\<lambda>desc.
               let api = (if api11plus cfg then ExecuteSecure else Execute)
               in case after_run (run_vm vm (EXECUTE_BUFFER api (is_bundle cfg) buffer bufferSize entryPoint desc) s) of
                    (s1, r) \<Rightarrow> Returns (s1, r \<noteq> None)))))"

section \<open>Byte code from the embedder\<close>

text \<open>
  What the embedder's function writes through its pointers: a buffer in secure memory with its size, or the content of a vector, the name, and
  which of the two it used.  \<open>None\<close>: no function was set.
\<close>

record script_asset =
  secure_buffer :: "u8 list option"
  secure_size :: nat
  asset_content :: "u8 list"
  asset_ami :: string
  useSecureMem :: bool

type_synonym asset_fun = "(string \<Rightarrow> bool \<Rightarrow> script_asset) option"

definition CallGetAssetFunc :: "asset_fun \<Rightarrow> string \<Rightarrow> bool \<Rightarrow> script_asset option" where
  "CallGetAssetFunc getAssetFunc uri isRestrictedWorker = map_option (\<lambda>f. f uri isRestrictedWorker) getAssetFunc"

text \<open>The buffer, its size and the name.\<close>

definition GetAbcBuffer :: "asset_fun \<Rightarrow> string \<Rightarrow> bool \<Rightarrow> (u8 list option \<times> nat \<times> string) option" where
  "GetAbcBuffer assets path isRestrictedWorker =
     (case CallGetAssetFunc assets path isRestrictedWorker of
        None \<Rightarrow> None
      | Some a \<Rightarrow> Some (if \<not> useSecureMem a then (Some (asset_content a), length (asset_content a), asset_ami a)
                       else (secure_buffer a, secure_size a, asset_ami a)))"

definition RunScriptForAbc :: "(string \<Rightarrow> string) \<Rightarrow> asset_fun \<Rightarrow> script_vm \<Rightarrow> string \<Rightarrow> string \<Rightarrow> nat \<Rightarrow> script_env \<Rightarrow> script_env \<times> bool" where
  "RunScriptForAbc NormalizePath assets vm path entryPoint empty_error s =
     (case GetAbcBuffer assets (NormalizePath path) True of
        None \<Rightarrow> (s, False)
      | Some (buf, n, ami) \<Rightarrow>
          if n = 0 then (s\<lparr>vm_exception := Some empty_error\<rparr>, False)
          else case after_run (run_vm vm (Exec Execute None entryPoint ami) s) of (s1, r) \<Rightarrow> (s1, r \<noteq> None))"

definition RunScript :: "file_system \<Rightarrow> script_config \<Rightarrow> asset_fun \<Rightarrow> script_vm \<Rightarrow> string \<Rightarrow> string option \<Rightarrow> script_env \<Rightarrow> (script_env \<times> bool) outcome" where
  "RunScript fs cfg assets vm path entryPoint s =
     (case GetAbcBuffer assets path False of
        None \<Rightarrow> Returns (s, False)
      | Some (buf, n, ami) \<Rightarrow> if n = 0 then Returns (s, False) else RunActor fs cfg vm buf n (Some ami) entryPoint False s)"

definition RunScriptInRestrictedThread :: "asset_fun \<Rightarrow> script_vm \<Rightarrow> string \<Rightarrow> script_env \<Rightarrow> script_env \<times> bool" where
  "RunScriptInRestrictedThread assets vm path s =
     (case GetAbcBuffer assets path True of
        None \<Rightarrow> (s, False)
      | Some (buf, n, ami) \<Rightarrow> case after_run (run_vm vm (Exec Execute None PANDA_MAIN_FUNCTION ami) s) of (s1, r) \<Rightarrow> (s1, r \<noteq> None))"

definition GetAbcBufferAndRunActor ::
    "file_system \<Rightarrow> script_config \<Rightarrow> asset_fun \<Rightarrow> script_vm \<Rightarrow> string \<Rightarrow> string option \<Rightarrow> script_env \<Rightarrow> (script_env \<times> bool) outcome" where
  "GetAbcBufferAndRunActor fs cfg assets vm pathStr entryPoint s =
     (case GetAbcBuffer assets pathStr False of
        None \<Rightarrow> Returns (s, False)
      | Some (buf, n, ami) \<Rightarrow> RunActor fs cfg vm buf n (Some ami) entryPoint False s)"

text \<open>The frame of the two calls: the exceptions that \<open>TryCatch\<close> sees are those of the script.\<close>

definition SCRIPT_PREAMBLE ::
    "bool \<Rightarrow> (script_env \<Rightarrow> (script_env \<times> napi_status \<times> bool option) outcome) \<Rightarrow> script_env \<Rightarrow>
     (script_env \<times> napi_status \<times> bool option) outcome" where
  "SCRIPT_PREAMBLE env rest =
     CHECK_ENV env (\<lambda>s. RETURN_STATUS_IF_FALSE (\<not> lastException s) napi_pending_exception (\<lambda>s.
       obind (rest (s\<lparr>lastError := napi_ok\<rparr>)) (\<lambda>(s', r).
         Returns (if vm_exception s' \<noteq> None then s'\<lparr>lastException := True\<rparr> else s', r))) s)"

text \<open>What is written through the result pointer is whether there is a value.\<close>

definition script_status :: "bool \<Rightarrow> script_env \<Rightarrow> (script_env \<times> napi_status \<times> bool option) outcome" where
  "script_status r s = (if vm_exception s = None then Returns (s, napi_ok, Some r) else napi_set_last_error napi_pending_exception (Some r) s)"

definition napi_run_script_path ::
    "(string \<Rightarrow> string) \<Rightarrow> file_system \<Rightarrow> script_config \<Rightarrow> asset_fun \<Rightarrow> script_vm \<Rightarrow> bool \<Rightarrow> vm_call \<Rightarrow> string option \<Rightarrow> unit option \<Rightarrow>
     script_env \<Rightarrow> (script_env \<times> napi_status \<times> bool option) outcome" where
  "napi_run_script_path NormalizePath fs cfg assets vm env c path result =
     SCRIPT_PREAMBLE env (CHECK_ARG result (SWITCH_CONTEXT c (\<lambda>s.
       deref path (\<lambda>p.
         let pathStr = (if api11plus cfg then NormalizePath p else p)
         in obind (if restricted_worker cfg then Returns (RunScriptInRestrictedThread assets vm pathStr s)
                   else RunScript fs cfg assets vm pathStr None s) (\<lambda>(s1, r). script_status r s1)))))"

definition napi_run_actor ::
    "file_system \<Rightarrow> script_config \<Rightarrow> asset_fun \<Rightarrow> script_vm \<Rightarrow> bool \<Rightarrow> bool \<Rightarrow> string option \<Rightarrow> string option \<Rightarrow> unit option \<Rightarrow>
     script_env \<Rightarrow> (script_env \<times> napi_status \<times> bool option) outcome" where
  "napi_run_actor fs cfg assets vm main_context env path entryPoint result =
     SCRIPT_PREAMBLE env (CHECK_ARG result (\<lambda>s.
       deref path (\<lambda>p.
         if \<not> main_context then Aborts
         else obind (GetAbcBufferAndRunActor fs cfg assets vm p entryPoint s) (\<lambda>(s1, r). script_status r s1))))"

section \<open>What is run\<close>

text \<open>The checked entry points with their arguments, what each would run, and the bytes that its check looks at.\<close>

datatype script_entry =
    FromVector string "u8 list" bool
  | FromMemory string "u8 list" nat bool
  | PlainVector "u8 list"
  | FromModule bool "u8 list" int string
  | FromFile string
  | JsBin string

fun run_entry :: "file_system \<Rightarrow> script_vm \<Rightarrow> script_entry \<Rightarrow> script_env \<Rightarrow> (script_env \<times> bool) outcome" where
  "run_entry fs vm (FromVector path buffer isBundle) = RunScriptBuffer vm path buffer isBundle"
| "run_entry fs vm (FromMemory path mem n isBundle) = RunScriptBufferSecure vm path (Some mem) n isBundle"
| "run_entry fs vm (PlainVector buffer) = RunBufferScript vm buffer"
| "run_entry fs vm (FromModule exported mem len fileName) = LoadArkModule vm exported (Some mem) len fileName"
| "run_entry fs vm (FromFile path) = RunScriptPath fs vm (Some path) True"
| "run_entry fs vm (JsBin path) = ExecuteJsBin fs vm path True"

fun entry_request :: "script_entry \<Rightarrow> execution" where
  "entry_request (FromVector path buffer isBundle) =
     (if isBundle then Exec Execute (Some buffer) PANDA_MAIN_FUNCTION path else Exec ExecuteModuleBuffer (Some buffer) '''' path)"
| "entry_request (FromMemory path mem n isBundle) =
     (if isBundle then Exec ExecuteSecure (Some (take n mem)) PANDA_MAIN_FUNCTION path
      else Exec ExecuteModuleBufferSecure (Some (take n mem)) '''' path)"
| "entry_request (PlainVector buffer) = Exec Execute (Some buffer) PANDA_MAIN_FUNCTION ''''"
| "entry_request (FromModule exported mem len fileName) = Exec ExecuteModuleFromBuffer (Some (take (nat len) mem)) '''' fileName"
| "entry_request (FromFile path) = Exec Execute None PANDA_MAIN_FUNCTION path"
| "entry_request (JsBin path) = Exec Execute None PANDA_MAIN_FUNCTION path"

text \<open>The bytes of a regular file that can be read and has at least eight by its size; the buffer they are read into is zero behind them.\<close>

definition file_start :: "file_system \<Rightarrow> string \<Rightarrow> u8 list" where
  "file_start fs path =
     (case RealPath (realpath fs) (Some path) (PATH_MAX + 1) of
        None \<Rightarrow> []
      | Some p \<Rightarrow> (case stat fs p of
          None \<Rightarrow> []
        | Some f \<Rightarrow> if mode_reg f \<and> can_open f \<and> st_size f \<ge> 8 then file_bytes f @ replicate 8 0 else []))"

fun entry_bytes :: "file_system \<Rightarrow> script_entry \<Rightarrow> u8 list" where
  "entry_bytes fs (FromVector path buffer isBundle) = buffer"
| "entry_bytes fs (FromMemory path mem n isBundle) = take n mem"
| "entry_bytes fs (PlainVector buffer) = buffer"
| "entry_bytes fs (FromModule exported mem len fileName) = (if fileName = '''' then [] else take (nat len) mem)"
| "entry_bytes fs (FromFile path) = file_start fs path"
| "entry_bytes fs (JsBin path) = file_start fs path"

text \<open>Sizes do not pass the allocation.\<close>

fun entry_allocated :: "script_entry \<Rightarrow> bool" where
  "entry_allocated (FromMemory path mem n isBundle) = (n \<le> length mem)"
| "entry_allocated (FromModule exported mem len fileName) = (len \<le> int (length mem))"
| "entry_allocated e = True"

text \<open>Whether the entry point looks for an exception after the run.\<close>

fun takes_exceptions :: "script_entry \<Rightarrow> bool" where
  "takes_exceptions (FromModule exported mem len fileName) = False"
| "takes_exceptions (JsBin path) = False"
| "takes_exceptions e = True"

text \<open>With five letters and three zeros.\<close>

definition has_header :: "u8 list \<Rightarrow> bool" where
  "has_header bs \<longleftrightarrow> (\<exists>rest. bs = panda_header @ rest)"

lemma length_panda_header [simp]: "length panda_header = 8"
  by (simp add: panda_header_def)

lemma has_header_take: "has_header bs \<longleftrightarrow> 8 \<le> length bs \<and> take 8 bs = panda_header"
proof
  assume "8 \<le> length bs \<and> take 8 bs = panda_header"
  then show "has_header bs" unfolding has_header_def by (metis append_take_drop_id)
qed (auto simp: has_header_def)

lemma has_header_Nil [simp]: "\<not> has_header []"
  by (simp add: has_header_take)

lemma IsValidScriptBuffer_iff: "n \<le> length mem \<Longrightarrow> IsValidScriptBuffer (Some mem) n = Returns (has_header (take n mem))"
  by (auto simp: IsValidScriptBuffer_def has_header_take min_def)

lemma IsValidPandaFile_iff: "IsValidPandaFile fs (Some path) = Returns (has_header (file_start fs path))"
proof -
  have "8 \<le> length bs \<Longrightarrow> IsValidScriptBuffer (Some (take 8 bs)) 8 = Returns (has_header bs)" for bs :: "u8 list"
    by (simp add: IsValidScriptBuffer_def has_header_take)
  from this [of "bs @ replicate 8 0" for bs]
  have "IsValidScriptBuffer (Some (take 8 (bs @ replicate 8 0))) 8 = Returns (has_header (bs @ replicate 8 0))" for bs :: "u8 list"
    by (simp del: take_append)
  then show ?thesis by (auto simp: IsValidPandaFile_def file_start_def split: option.splits)
qed

lemma run_vm_fields: "run_vm vm x s = (s', r) \<Longrightarrow> executed s' = executed s @ [x] \<and>
    vm_exception s' = (if snd (vm x) = None then vm_exception s else snd (vm x)) \<and> r = fst (vm x) \<and>
    uncaught_callback s' = uncaught_callback s \<and> uncaught_told s' = uncaught_told s"
  by (auto simp: run_vm_def split: prod.splits)

lemma after_run_effect:
  assumes "after_run (run_vm vm x s) = (s', r)" "vm_exception s = None"
  shows "executed s' = executed s @ [x]"
    and "r = (if snd (vm x) = None then Some (fst (vm x)) else None)"
    and "uncaught_callback s \<Longrightarrow> vm_exception s' = None \<and>
      uncaught_told s' = uncaught_told s @ (case snd (vm x) of None \<Rightarrow> [] | Some e \<Rightarrow> [e])"
  using assms run_vm_fields [of vm x s]
  by (auto simp: after_run_def HandleUncaughtException_def split: prod.splits if_splits option.splits)


definition demo_script :: "u8 list" where "demo_script = panda_header @ [1, 2, 3]"

definition no_script :: script_env where
  "no_script = \<lparr>lastException = False, lastError = napi_ok, promises = Map.empty, deferreds = Map.empty, capability_handles = 0,
     vm_exception = None, uncaught_callback = True, uncaught_told = [], executed = []\<rparr>"

definition no_files :: file_system where "no_files = \<lparr>realpath = (\<lambda>_. None), stat = (\<lambda>_. None)\<rparr>"


section \<open>Running a script of the embedder\<close>

text \<open>What the script of a path asks the VM for, in a restricted worker and elsewhere.\<close>

definition path_request :: "script_config \<Rightarrow> script_asset \<Rightarrow> execution" where
  "path_request cfg a =
     (if restricted_worker cfg then Exec Execute None PANDA_MAIN_FUNCTION (asset_ami a)
      else let (buffer, n) = (if useSecureMem a then (secure_buffer a, secure_size a) else (Some (asset_content a), length (asset_content a)))
           in EXECUTE_BUFFER (if api11plus cfg then ExecuteSecure else Execute) (is_bundle cfg) buffer n None (asset_ami a))"

lemma RunActor_unchecked:
  assumes "\<forall>mem. buffer = Some mem \<longrightarrow> n \<le> length mem"
  shows "RunActor fs cfg vm buffer n (Some desc) entryPoint False s =
    (case after_run (run_vm vm (EXECUTE_BUFFER (if api11plus cfg then ExecuteSecure else Execute) (is_bundle cfg) buffer n entryPoint desc) s) of
       (s1, r) \<Rightarrow> Returns (s1, r \<noteq> None))"
  using assms by (cases buffer) (simp_all add: RunActor_def IsValidScriptBuffer_def deref_def Let_def)


section \<open>Scripts that are not checked\<close>

text \<open>
  \<open>RunActor\<close> refuses only when both checks fail, and its callers do not ask for the second: a script without the header is run.
\<close>

theorem actor_unchecked:
  "\<exists>s'. RunActor no_files \<lparr>api11plus = True, is_bundle = False, restricted_worker = False\<rparr> (\<lambda>_. (True, None))
      (Some [1, 2, 3]) 3 (Some ''a.abc'') None False no_script = Returns (s', True) \<and>
    executed s' = [Exec ExecuteSecure (Some [1, 2, 3]) PANDA_MAIN_FUNCTION ''a.abc''] \<and> \<not> has_header [1, 2, 3]"
proof -
  have h: "\<not> has_header [1, 2, 3]" by (simp add: has_header_take)
  have "\<forall>mem. Some [1 :: u8, 2, 3] = Some mem \<longrightarrow> 3 \<le> length mem" by simp
  note run = RunActor_unchecked [OF this, of no_files "\<lparr>api11plus = True, is_bundle = False, restricted_worker = False\<rparr>" "\<lambda>_. (True, None)"
      "''a.abc''" None no_script]
  show ?thesis unfolding run
    by (intro exI [of _ "no_script\<lparr>executed := [Exec ExecuteSecure (Some [1, 2, 3]) PANDA_MAIN_FUNCTION ''a.abc'']\<rparr>"])
      (simp add: EXECUTE_BUFFER_def run_vm_def after_run_def no_script_def h ex_bool_eq)
qed

text \<open>A path that is null, and a buffer without a name, are made into strings before anything looks at them.\<close>

theorem null_path_crashes:
  "napi_run_script_path n fs cfg assets vm True quiet None (Some ()) no_script = Fault"
  "napi_run_actor fs cfg assets vm True True None e (Some ()) no_script = Fault"
  "RunActor fs cfg vm (Some demo_script) 11 None None False no_script = Fault"
  by (simp_all add: napi_run_script_path_def napi_run_actor_def SCRIPT_PREAMBLE_def api_defs no_script_def quiet_def RunActor_def
      IsValidScriptBuffer_def demo_script_def)


end
