(* ===== verification/Js_Values.thy ===== *)
theory Js_Values
  imports Napi_Call Complex_Main "HOL-Library.Word"
begin

text \<open>
  Values between C and JS (native\_engine/native\_api.cpp): what a value is, the calls that make values of the primitive types, those that read them
  back, and the tests of kinds.

  A handle stands for its value.  Numbers are rationals with infinities and one not-a-number (negative zero is not told from zero).  How the VM
  turns numbers into integers of a fixed width, rounds 64 bits to a number, and cuts big integers is the record \<open>number_vm\<close>; coercions,
  which may run user code, are arguments of the calls that use them.
\<close>

section \<open>Values\<close>

datatype js_number = NotANumber | Infinite bool | Finite rat

datatype object_kind = PlainObject | ArrayObject nat | SharedArrayObject nat | DateObject js_number | SharedObject | PromiseObject

datatype jsvalue =
    Undefined | Null | Hole | Boolean bool | Number js_number | JsString string | JsSymbol nat | BigInt int
  | Function nat | NativePointer "addr option" | Object nat object_kind

record number_vm =
  to_int32 :: "js_number \<Rightarrow> 32 word"
  to_uint32 :: "js_number \<Rightarrow> 32 word"
  to_int64 :: "js_number \<Rightarrow> 64 word"
  of_int64 :: "64 word \<Rightarrow> js_number"
  bigint_int64 :: "int \<Rightarrow> 64 word \<times> bool"
  bigint_uint64 :: "int \<Rightarrow> 64 word \<times> bool"

text \<open>The tests of the VM.  A function is an object, a native pointer is not.\<close>

fun is_number :: "jsvalue \<Rightarrow> bool" where "is_number (Number x) = True" | "is_number v = False"
fun is_string :: "jsvalue \<Rightarrow> bool" where "is_string (JsString x) = True" | "is_string v = False"
fun is_function :: "jsvalue \<Rightarrow> bool" where "is_function (Function f) = True" | "is_function v = False"
fun is_native_pointer :: "jsvalue \<Rightarrow> bool" where "is_native_pointer (NativePointer p) = True" | "is_native_pointer v = False"
fun is_boolean :: "jsvalue \<Rightarrow> bool" where "is_boolean (Boolean b) = True" | "is_boolean v = False"
fun is_symbol :: "jsvalue \<Rightarrow> bool" where "is_symbol (JsSymbol n) = True" | "is_symbol v = False"
fun is_bigint :: "jsvalue \<Rightarrow> bool" where "is_bigint (BigInt i) = True" | "is_bigint v = False"
fun is_object :: "jsvalue \<Rightarrow> bool" where "is_object (Object a k) = True" | "is_object (Function f) = True" | "is_object v = False"
fun date_time :: "jsvalue \<Rightarrow> js_number option" where "date_time (Object a (DateObject t)) = Some t" | "date_time v = None"
fun array_length :: "jsvalue \<Rightarrow> nat option" where
  "array_length (Object a (ArrayObject n)) = Some n"
| "array_length (Object a (SharedArrayObject n)) = Some n"
| "array_length v = None"
fun is_shared :: "jsvalue \<Rightarrow> bool" where
  "is_shared (Object a (SharedArrayObject n)) = True" | "is_shared (Object a SharedObject) = True" | "is_shared v = False"
fun is_promise :: "jsvalue \<Rightarrow> bool" where "is_promise (Object a PromiseObject) = True" | "is_promise v = False"

datatype napi_valuetype =
    napi_undefined | napi_null | napi_boolean | napi_number | napi_string | napi_symbol | napi_object | napi_function
  | napi_external | napi_bigint

section \<open>Kinds\<close>

type_synonym 'o value_call = "call_env \<Rightarrow> (call_env \<times> napi_status \<times> 'o option) outcome"

definition napi_typeof :: "bool \<Rightarrow> jsvalue option \<Rightarrow> unit option \<Rightarrow> napi_valuetype value_call" where
  "napi_typeof env value result =
     CHECK_ENV env (CHECK_ARG value (CHECK_ARG result (
       let v = the value
       in napi_clear_last_error (Some (
            if is_number v then napi_number
            else if is_string v then napi_string
            else if is_function v then napi_function
            else if is_native_pointer v then napi_external
            else if v = Null then napi_null
            else if is_boolean v then napi_boolean
            else if v = Undefined then napi_undefined
            else if is_symbol v then napi_symbol
            else if is_bigint v then napi_bigint
            else if is_object v then napi_object
            else napi_undefined)))))"

text \<open>The form of the calls that test one thing.\<close>

definition test_call :: "(jsvalue \<Rightarrow> bool) \<Rightarrow> bool \<Rightarrow> jsvalue option \<Rightarrow> unit option \<Rightarrow> bool value_call" where
  "test_call test env value result =
     CHECK_ENV env (CHECK_ARG value (CHECK_ARG result (napi_clear_last_error (Some (test (the value))))))"

definition napi_is_array :: "bool \<Rightarrow> jsvalue option \<Rightarrow> unit option \<Rightarrow> bool value_call" where
  "napi_is_array = test_call (\<lambda>v. array_length v \<noteq> None)"

definition napi_is_date :: "bool \<Rightarrow> jsvalue option \<Rightarrow> unit option \<Rightarrow> bool value_call" where
  "napi_is_date = test_call (\<lambda>v. date_time v \<noteq> None)"

definition napi_is_promise :: "bool \<Rightarrow> jsvalue option \<Rightarrow> unit option \<Rightarrow> bool value_call" where
  "napi_is_promise = test_call is_promise"

definition napi_is_sendable :: "bool \<Rightarrow> bool \<Rightarrow> jsvalue option \<Rightarrow> unit option \<Rightarrow> bool value_call" where
  "napi_is_sendable main_context env value result =
     CHECK_ENV env (CHECK_ARG value (CHECK_ARG result (\<lambda>s.
       if \<not> main_context then napi_set_last_error napi_invalid_arg None s
       else let v = the value
            in napi_clear_last_error (Some (is_shared v \<or> is_string v \<or> is_number v \<or> is_boolean v \<or> v = Undefined \<or> v = Null \<or> is_bigint v)) s)))"

section \<open>Making values\<close>

definition make_call :: "jsvalue \<Rightarrow> bool \<Rightarrow> unit option \<Rightarrow> jsvalue value_call" where
  "make_call v env result = CHECK_ENV env (CHECK_ARG result (napi_clear_last_error (Some v)))"

definition napi_get_undefined :: "bool \<Rightarrow> unit option \<Rightarrow> jsvalue value_call" where
  "napi_get_undefined = make_call Undefined"

definition napi_get_null :: "bool \<Rightarrow> unit option \<Rightarrow> jsvalue value_call" where
  "napi_get_null = make_call Null"

definition napi_get_boolean :: "bool \<Rightarrow> bool \<Rightarrow> unit option \<Rightarrow> jsvalue value_call" where
  "napi_get_boolean env b = make_call (if b then Boolean True else Boolean False) env"

text \<open>\<open>context_global\<close> is the global object of the context, \<open>vm_global\<close> the one of the VM.\<close>

definition napi_get_global :: "bool \<Rightarrow> jsvalue \<Rightarrow> jsvalue \<Rightarrow> bool \<Rightarrow> unit option \<Rightarrow> jsvalue value_call" where
  "napi_get_global multi_context context_global vm_global env = make_call (if multi_context then context_global else vm_global) env"

definition napi_create_double :: "bool \<Rightarrow> js_number \<Rightarrow> unit option \<Rightarrow> jsvalue value_call" where
  "napi_create_double env x = make_call (Number x) env"

definition napi_create_int32 :: "bool \<Rightarrow> 32 word \<Rightarrow> unit option \<Rightarrow> jsvalue value_call" where
  "napi_create_int32 env x = make_call (Number (Finite (of_int (sint x)))) env"

definition napi_create_uint32 :: "bool \<Rightarrow> 32 word \<Rightarrow> unit option \<Rightarrow> jsvalue value_call" where
  "napi_create_uint32 env x = make_call (Number (Finite (of_int (uint x)))) env"

definition napi_create_int64 :: "number_vm \<Rightarrow> bool \<Rightarrow> 64 word \<Rightarrow> unit option \<Rightarrow> jsvalue value_call" where
  "napi_create_int64 vm env x = make_call (Number (of_int64 vm x)) env"

definition napi_create_bigint_int64 :: "bool \<Rightarrow> 64 word \<Rightarrow> unit option \<Rightarrow> jsvalue value_call" where
  "napi_create_bigint_int64 env x = make_call (BigInt (sint x)) env"

definition napi_create_bigint_uint64 :: "bool \<Rightarrow> 64 word \<Rightarrow> unit option \<Rightarrow> jsvalue value_call" where
  "napi_create_bigint_uint64 env x = make_call (BigInt (uint x)) env"

text \<open>\<open>a\<close> is the new date.\<close>

definition napi_create_date :: "vm_call \<Rightarrow> nat \<Rightarrow> bool \<Rightarrow> js_number \<Rightarrow> unit option \<Rightarrow> jsvalue value_call" where
  "napi_create_date c a env time result =
     NAPI_PREAMBLE env c (CHECK_ARG result (SWITCH_CONTEXT c (napi_clear_last_error (Some (Object a (DateObject time))))))"

text \<open>
  An external value.  Its finalizer belongs to the native pointer in the main context, and elsewhere to a reference; the second result
  says where it is, and with how many bytes.
\<close>

datatype finalizer_place = OnPointer | OnReference

definition napi_create_external ::
    "bool \<Rightarrow> vm_call \<Rightarrow> bool \<Rightarrow> addr option \<Rightarrow> unit option \<Rightarrow> (jsvalue \<times> finalizer_place \<times> nat) value_call" where
  "napi_create_external main_context c env data result =
     NAPI_PREAMBLE env c (CHECK_ARG result (
       napi_clear_last_error (Some (NativePointer data, if main_context then OnPointer else OnReference, 0))))"

definition napi_create_external_with_size ::
    "bool \<Rightarrow> bool \<Rightarrow> addr option \<Rightarrow> unit option \<Rightarrow> nat \<Rightarrow> (jsvalue \<times> finalizer_place \<times> nat) value_call" where
  "napi_create_external_with_size main_context env data result native_binding_size =
     CHECK_ENV env (CHECK_ARG result (
       napi_clear_last_error (Some (NativePointer data, if main_context then OnPointer else OnReference, native_binding_size))))"

section \<open>Reading values\<close>

definition number_of :: "jsvalue \<Rightarrow> js_number option" where
  "number_of v = (case v of Number x \<Rightarrow> Some x | _ \<Rightarrow> None)"

text \<open>The form of the calls that read a number: what the VM answers is converted by \<open>f\<close>.\<close>

definition read_number :: "(js_number \<Rightarrow> 'o) \<Rightarrow> bool \<Rightarrow> jsvalue option \<Rightarrow> unit option \<Rightarrow> 'o value_call" where
  "read_number f env value result =
     CHECK_ENV env (CHECK_ARG value (CHECK_ARG result (
       RETURN_STATUS_IF_FALSE (number_of (the value) \<noteq> None) napi_number_expected (
         napi_clear_last_error (Some (f (the (number_of (the value)))))))))"

definition napi_get_value_double :: "bool \<Rightarrow> jsvalue option \<Rightarrow> unit option \<Rightarrow> js_number value_call" where
  "napi_get_value_double = read_number (\<lambda>x. x)"

definition napi_get_value_int32 :: "number_vm \<Rightarrow> bool \<Rightarrow> jsvalue option \<Rightarrow> unit option \<Rightarrow> 32 word value_call" where
  "napi_get_value_int32 vm = read_number (to_int32 vm)"

definition napi_get_value_uint32 :: "number_vm \<Rightarrow> bool \<Rightarrow> jsvalue option \<Rightarrow> unit option \<Rightarrow> 32 word value_call" where
  "napi_get_value_uint32 vm = read_number (to_uint32 vm)"

definition napi_get_value_int64 :: "number_vm \<Rightarrow> bool \<Rightarrow> jsvalue option \<Rightarrow> unit option \<Rightarrow> 64 word value_call" where
  "napi_get_value_int64 vm = read_number (to_int64 vm)"

definition napi_get_value_bool :: "bool \<Rightarrow> jsvalue option \<Rightarrow> unit option \<Rightarrow> bool value_call" where
  "napi_get_value_bool env value result =
     CHECK_ENV env (CHECK_ARG value (CHECK_ARG result (
       RETURN_STATUS_IF_FALSE (is_boolean (the value)) napi_boolean_expected (napi_clear_last_error (Some (the value = Boolean True))))))"

definition napi_get_value_external :: "bool \<Rightarrow> jsvalue option \<Rightarrow> unit option \<Rightarrow> addr option value_call" where
  "napi_get_value_external env value result =
     CHECK_ENV env (CHECK_ARG value (CHECK_ARG result (
       RETURN_STATUS_IF_FALSE (is_native_pointer (the value)) napi_object_expected (
         napi_clear_last_error (Some (case the value of NativePointer p \<Rightarrow> p | _ \<Rightarrow> None))))))"

definition bigint_of :: "jsvalue \<Rightarrow> int option" where
  "bigint_of v = (case v of BigInt i \<Rightarrow> Some i | _ \<Rightarrow> None)"

definition napi_get_value_bigint_int64 ::
    "number_vm \<Rightarrow> bool \<Rightarrow> jsvalue option \<Rightarrow> unit option \<Rightarrow> unit option \<Rightarrow> (64 word \<times> bool) value_call" where
  "napi_get_value_bigint_int64 vm env value result lossless =
     CHECK_ENV env (CHECK_ARG value (CHECK_ARG result (CHECK_ARG lossless (
       RETURN_STATUS_IF_FALSE (bigint_of (the value) \<noteq> None) napi_bigint_expected (
         napi_clear_last_error (Some (bigint_int64 vm (the (bigint_of (the value))))))))))"

definition napi_get_value_bigint_uint64 ::
    "number_vm \<Rightarrow> bool \<Rightarrow> jsvalue option \<Rightarrow> unit option \<Rightarrow> unit option \<Rightarrow> (64 word \<times> bool) value_call" where
  "napi_get_value_bigint_uint64 vm env value result lossless =
     CHECK_ENV env (CHECK_ARG value (CHECK_ARG result (CHECK_ARG lossless (
       RETURN_STATUS_IF_FALSE (bigint_of (the value) \<noteq> None) napi_bigint_expected (
         napi_clear_last_error (Some (bigint_uint64 vm (the (bigint_of (the value))))))))))"

definition napi_get_date_value :: "vm_call \<Rightarrow> bool \<Rightarrow> jsvalue option \<Rightarrow> unit option \<Rightarrow> js_number value_call" where
  "napi_get_date_value c env value result =
     NAPI_PREAMBLE env c (CHECK_ARG value (CHECK_ARG result (\<lambda>s.
       case date_time (the value) of
         None \<Rightarrow> napi_set_last_error napi_date_expected None s
       | Some time \<Rightarrow> napi_clear_last_error (Some time) s)))"

text \<open>
  The length of an array, with its own frame: \<open>pending\<close> tells whether the VM has a pending exception, which goes to \<open>lastException_\<close>.
  The length is written also when the call then answers that an exception is pending.
\<close>

definition napi_get_array_length :: "bool \<Rightarrow> bool \<Rightarrow> jsvalue option \<Rightarrow> unit option \<Rightarrow> nat value_call" where
  "napi_get_array_length pending env value result =
     CHECK_ENV env (\<lambda>t. RETURN_STATUS_IF_FALSE (\<not> lastException t) napi_pending_exception (\<lambda>s0.
       let s = s0\<lparr>lastError := napi_ok\<rparr>;
           s1 = (if pending then s\<lparr>lastException := True\<rparr> else s)
       in if value = None \<or> result = None then napi_set_last_error napi_invalid_arg None s1
          else case array_length (the value) of
            None \<Rightarrow> napi_set_last_error napi_array_expected None s1
          | Some n \<Rightarrow> if pending then napi_set_last_error napi_pending_exception (Some n) s1 else Returns (s, napi_ok, Some n)) t)"

section \<open>Coercions and equality\<close>

text \<open>
  \<open>answer\<close> is the value that the VM's conversion returns, something undefined when user code threw; \<open>caught\<close> of the call is
  whether an exception is then pending.  Only the first of the four has the frame that notices one.
\<close>

definition napi_coerce_to_bool :: "vm_call \<Rightarrow> jsvalue \<Rightarrow> bool \<Rightarrow> jsvalue option \<Rightarrow> unit option \<Rightarrow> jsvalue value_call" where
  "napi_coerce_to_bool c answer env value result =
     NAPI_PREAMBLE env c (CHECK_ARG value (CHECK_ARG result (napi_clear_last_error (Some answer))))"

definition coerce_call :: "vm_call \<Rightarrow> jsvalue \<Rightarrow> bool \<Rightarrow> jsvalue option \<Rightarrow> unit option \<Rightarrow> jsvalue value_call" where
  "coerce_call c answer env value result =
     CHECK_ENV env (CHECK_ARG value (CHECK_ARG result (SWITCH_CONTEXT c (napi_clear_last_error (Some answer)))))"

definition napi_coerce_to_number :: "vm_call \<Rightarrow> jsvalue \<Rightarrow> bool \<Rightarrow> jsvalue option \<Rightarrow> unit option \<Rightarrow> jsvalue value_call" where
  "napi_coerce_to_number = coerce_call"

definition napi_coerce_to_object :: "vm_call \<Rightarrow> jsvalue \<Rightarrow> bool \<Rightarrow> jsvalue option \<Rightarrow> unit option \<Rightarrow> jsvalue value_call" where
  "napi_coerce_to_object = coerce_call"

definition napi_coerce_to_string :: "vm_call \<Rightarrow> jsvalue \<Rightarrow> bool \<Rightarrow> jsvalue option \<Rightarrow> unit option \<Rightarrow> jsvalue value_call" where
  "napi_coerce_to_string = coerce_call"

text \<open>\<open>IsStrictEquals\<close>: not-a-number equals nothing, everything else that is equal or the same object.\<close>

definition strictly_equal :: "jsvalue \<Rightarrow> jsvalue \<Rightarrow> bool" where
  "strictly_equal v w \<longleftrightarrow> (case (v, w) of
     (Number x, Number y) \<Rightarrow> x = y \<and> x \<noteq> NotANumber
   | (Object a k, Object b l) \<Rightarrow> a = b
   | _ \<Rightarrow> v = w)"

definition napi_strict_equals :: "bool \<Rightarrow> jsvalue option \<Rightarrow> jsvalue option \<Rightarrow> unit option \<Rightarrow> bool value_call" where
  "napi_strict_equals env lhs rhs result =
     CHECK_ENV env (CHECK_ARG lhs (CHECK_ARG rhs (CHECK_ARG result (
       napi_clear_last_error (Some (strictly_equal (the lhs) (the rhs)))))))"

section \<open>The calls agree\<close>

text \<open>The status of a call that returned, and what it wrote.\<close>

definition call_answers :: "(call_env \<times> napi_status \<times> 'o option) outcome \<Rightarrow> napi_status \<Rightarrow> bool" where
  "call_answers r st \<longleftrightarrow> (\<exists>s' out. r = Returns (s', st, out) \<and> lastError s' = st \<and> (out \<noteq> None \<longleftrightarrow> st = napi_ok))"

lemmas value_forms = test_call_def make_call_def read_number_def number_of_def bigint_of_def api_defs

lemmas value_calls = napi_typeof_def napi_is_array_def napi_is_date_def napi_is_promise_def napi_is_sendable_def
  napi_get_value_double_def napi_get_value_int32_def napi_get_value_uint32_def napi_get_value_int64_def napi_get_value_bool_def
  napi_get_value_external_def napi_get_value_bigint_int64_def napi_get_value_bigint_uint64_def napi_get_date_value_def

lemma type_cases:
  "napi_typeof True (Some v) (Some ()) s = Returns (s\<lparr>lastError := napi_ok\<rparr>, napi_ok, Some (case v of
     Undefined \<Rightarrow> napi_undefined | Null \<Rightarrow> napi_null | Hole \<Rightarrow> napi_undefined | Boolean b \<Rightarrow> napi_boolean | Number x \<Rightarrow> napi_number
   | JsString x \<Rightarrow> napi_string | JsSymbol n \<Rightarrow> napi_symbol | BigInt i \<Rightarrow> napi_bigint | Function f \<Rightarrow> napi_function
   | NativePointer p \<Rightarrow> napi_external | Object a k \<Rightarrow> napi_object))"
  by (cases v) (simp_all add: napi_typeof_def value_forms Let_def)


text \<open>
  What is documented of the conversions: integers that fit are kept, and 64 bits are kept as a number up to two to the 53rd.
\<close>

definition number_vm_ok :: "number_vm \<Rightarrow> bool" where
  "number_vm_ok vm \<longleftrightarrow>
     (\<forall>w. to_int32 vm (Finite (of_int (sint w))) = w) \<and> (\<forall>w. to_uint32 vm (Finite (of_int (uint w))) = w) \<and>
     (\<forall>w. \<bar>sint w\<bar> \<le> 2 ^ 53 \<longrightarrow> of_int64 vm w = Finite (of_int (sint w)) \<and> to_int64 vm (Finite (of_int (sint w))) = w) \<and>
     (\<forall>w. bigint_int64 vm (sint w) = (w, True)) \<and> (\<forall>w. bigint_uint64 vm (uint w) = (w, True))"

text \<open>Making a value and reading it back.\<close>

definition read_back ::
    "(call_env \<Rightarrow> (call_env \<times> napi_status \<times> 'v option) outcome) \<Rightarrow> ('v option \<Rightarrow> call_env \<Rightarrow> (call_env \<times> napi_status \<times> 'o option) outcome) \<Rightarrow>
     call_env \<Rightarrow> (call_env \<times> napi_status \<times> 'o option) outcome" where
  "read_back create get s = obind (create s) (\<lambda>(s1, st, v). get v s1)"


text \<open>The conversions of ECMAScript on values that are integers.\<close>

definition ecma_numbers :: number_vm where
  "ecma_numbers = \<lparr>to_int32 = (\<lambda>x. case x of Finite q \<Rightarrow> word_of_int \<lfloor>q\<rfloor> | _ \<Rightarrow> 0),
     to_uint32 = (\<lambda>x. case x of Finite q \<Rightarrow> word_of_int \<lfloor>q\<rfloor> | _ \<Rightarrow> 0),
     to_int64 = (\<lambda>x. case x of Finite q \<Rightarrow> word_of_int \<lfloor>q\<rfloor> | _ \<Rightarrow> 0), of_int64 = (\<lambda>w. Finite (of_int (sint w))),
     bigint_int64 = (\<lambda>i. (word_of_int i, sint (word_of_int i :: 64 word) = i)),
     bigint_uint64 = (\<lambda>i. (word_of_int i, uint (word_of_int i :: 64 word) = i))\<rparr>"


lemma floor_words: "\<lfloor>signed (w :: 'a :: len word) :: rat\<rfloor> = sint w" "\<lfloor>unsigned w :: rat\<rfloor> = uint w"
proof -
  have "\<lfloor>of_int (sint w) :: rat\<rfloor> = sint w" "\<lfloor>of_int (uint w) :: rat\<rfloor> = uint w" by (rule floor_of_int)+
  then show "\<lfloor>signed w :: rat\<rfloor> = sint w" "\<lfloor>unsigned w :: rat\<rfloor> = uint w" by simp_all
qed


text \<open>The three coercions that may run user code answer \<open>napi_ok\<close> also when it threw.\<close>

theorem coercion_hides_exception:
  assumes "switch_answer c = None" "caught c"
  shows "napi_coerce_to_number c answer True (Some v) (Some ()) s = Returns (s\<lparr>lastError := napi_ok\<rparr>, napi_ok, Some answer)"
  using assms by (simp add: napi_coerce_to_number_def coerce_call_def api_defs)

end
