(* ===== verification/Sendable_Objects.thy ===== *)
theory Sendable_Objects
  imports Napi_Call "HOL-Library.Word" "HOL-Library.Multiset"
begin

text \<open>
  Native data on objects that threads share or pass on (native\_engine/native\_api.cpp, native\_node\_api.cpp and
  impl/ark/ark\_sendable\_native\_reference.cpp): wrapping of sendable objects with and without a type tag, external values with a type tag, strong
  references to sendable values, and native binding objects.

  A sendable object has a list of native fields; how the VM changes their number is the argument \<open>resize\<close>.  A type tag that C passes
  by pointer lies in memory that C may free; the records that the code allocates are in heaps of their own.
\<close>

section \<open>State\<close>

type_synonym type_tag = "u64 \<times> u64"

text \<open>A native field: its pointer, and the callback that runs when the VM drops it.\<close>

type_synonym native_field = "addr option \<times> nat option"

record WrapperData =
  wrapped_data :: "addr option"
  wrapped_tag :: type_tag
  wrapped_cb :: "nat option"

datatype external_value = PlainPointer "addr option" | WrapperPointer addr

record sendable_env = call_env +
  native_fields :: "nat \<rightharpoonup> native_field list"
  tag_memory :: "addr \<rightharpoonup> type_tag"
  external_values :: "nat \<rightharpoonup> external_value"
  wrapper_heap :: "addr \<rightharpoonup> WrapperData"
  external_finalized :: "(nat \<times> addr option) list"
  sendable_refs :: "addr \<rightharpoonup> nat"

section \<open>Sendable objects\<close>

definition get_field :: "native_field list \<Rightarrow> nat \<Rightarrow> addr option" where
  "get_field fs i = (if i < length fs then fst (fs ! i) else None)"

definition put_fields :: "nat \<Rightarrow> native_field list \<Rightarrow> sendable_env \<Rightarrow> sendable_env" where
  "put_fields v fs s = s\<lparr>native_fields := (native_fields s)(v \<mapsto> fs)\<rparr>"

definition fields_at :: "nat \<Rightarrow> sendable_env \<Rightarrow> native_field list" where
  "fields_at v s = the (native_fields s v)"

text \<open>The checks that these calls have behind those of their arguments.\<close>

definition sendable_object ::
    "bool \<Rightarrow> nat \<Rightarrow> (sendable_env \<Rightarrow> (sendable_env \<times> napi_status \<times> 'o option) outcome) \<Rightarrow> sendable_env \<Rightarrow>
     (sendable_env \<times> napi_status \<times> 'o option) outcome" where
  "sendable_object main_context v rest s =
     (if \<not> main_context then napi_set_last_error napi_invalid_arg None s
      else RETURN_STATUS_IF_FALSE (native_fields s v \<noteq> None) napi_object_expected rest s)"

type_synonym resizing = "nat \<Rightarrow> native_field list \<Rightarrow> native_field list"

definition napi_wrap_sendable ::
    "resizing \<Rightarrow> bool \<Rightarrow> bool \<Rightarrow> vm_call \<Rightarrow> nat option \<Rightarrow> addr option \<Rightarrow> nat option \<Rightarrow> sendable_env \<Rightarrow>
     (sendable_env \<times> napi_status \<times> unit option) outcome" where
  "napi_wrap_sendable resize mc env c js_object native_object finalize_cb =
     NAPI_PREAMBLE env c (CHECK_ARG js_object (CHECK_ARG native_object (sendable_object mc (the js_object) (\<lambda>s.
       GET_RETURN_STATUS c None
         (put_fields (the js_object) ((resize 1 (fields_at (the js_object) s))[0 := (native_object, finalize_cb)]) s)))))"

text \<open>The size only goes to the VM's accounting.\<close>

definition napi_wrap_sendable_with_size ::
    "resizing \<Rightarrow> nat \<Rightarrow> bool \<Rightarrow> bool \<Rightarrow> vm_call \<Rightarrow> nat option \<Rightarrow> addr option \<Rightarrow> nat option \<Rightarrow> sendable_env \<Rightarrow>
     (sendable_env \<times> napi_status \<times> unit option) outcome" where
  "napi_wrap_sendable_with_size resize native_binding_size mc env c js_object native_object finalize_cb =
     NAPI_PREAMBLE env c (CHECK_ARG js_object (CHECK_ARG native_object (sendable_object mc (the js_object) (\<lambda>s.
       GET_RETURN_STATUS c None
         (put_fields (the js_object) ((resize 1 (fields_at (the js_object) s))[0 := (native_object, finalize_cb)]) s)))))"

definition napi_unwrap_sendable ::
    "bool \<Rightarrow> bool \<Rightarrow> vm_call \<Rightarrow> nat option \<Rightarrow> unit option \<Rightarrow> sendable_env \<Rightarrow> (sendable_env \<times> napi_status \<times> addr option option) outcome" where
  "napi_unwrap_sendable mc env c js_object result =
     NAPI_PREAMBLE env c (CHECK_ARG js_object (CHECK_ARG result (sendable_object mc (the js_object) (\<lambda>s.
       GET_RETURN_STATUS c (Some (get_field (fields_at (the js_object) s) 0)) s))))"

definition napi_remove_wrap_sendable ::
    "bool \<Rightarrow> bool \<Rightarrow> vm_call \<Rightarrow> nat option \<Rightarrow> unit option \<Rightarrow> sendable_env \<Rightarrow> (sendable_env \<times> napi_status \<times> addr option option) outcome" where
  "napi_remove_wrap_sendable mc env c js_object result =
     NAPI_PREAMBLE env c (CHECK_ARG js_object (CHECK_ARG result (sendable_object mc (the js_object) (\<lambda>s.
       let val = get_field (fields_at (the js_object) s) 0
       in GET_RETURN_STATUS c (Some val) (put_fields (the js_object) ((fields_at (the js_object) s)[0 := (None, None)]) s)))))"

text \<open>The second field keeps the pointer to the caller's tag.\<close>

definition napi_wrap_sendable_s ::
    "resizing \<Rightarrow> bool \<Rightarrow> bool \<Rightarrow> vm_call \<Rightarrow> nat option \<Rightarrow> addr option \<Rightarrow> nat option \<Rightarrow> addr option \<Rightarrow> sendable_env \<Rightarrow>
     (sendable_env \<times> napi_status \<times> unit option) outcome" where
  "napi_wrap_sendable_s resize mc env c js_object native_object finalize_cb type_tag =
     NAPI_PREAMBLE env c (CHECK_ARG js_object (CHECK_ARG native_object (CHECK_ARG type_tag (sendable_object mc (the js_object) (\<lambda>s.
       GET_RETURN_STATUS c None (put_fields (the js_object)
         ((resize 2 (fields_at (the js_object) s))[0 := (native_object, finalize_cb), 1 := (type_tag, None)]) s))))))"

text \<open>\<open>type_tag\<close> is what the caller's pointer points to.\<close>

definition napi_unwrap_sendable_s ::
    "bool \<Rightarrow> bool \<Rightarrow> vm_call \<Rightarrow> nat option \<Rightarrow> type_tag option \<Rightarrow> unit option \<Rightarrow> sendable_env \<Rightarrow>
     (sendable_env \<times> napi_status \<times> addr option option) outcome" where
  "napi_unwrap_sendable_s mc env c js_object type_tag result =
     NAPI_PREAMBLE env c (CHECK_ARG js_object (CHECK_ARG result (CHECK_ARG type_tag (sendable_object mc (the js_object) (\<lambda>s.
       let fs = fields_at (the js_object) s
       in if length fs \<noteq> 2 then napi_set_last_error napi_invalid_arg None s
          else case get_field fs 1 of
            None \<Rightarrow> napi_set_last_error napi_generic_failure None s
          | Some a \<Rightarrow> deref (tag_memory s a) (\<lambda>tag.
              if fst tag \<noteq> fst (the type_tag) \<or> snd tag \<noteq> snd (the type_tag) then napi_set_last_error napi_invalid_arg None s
              else GET_RETURN_STATUS c (Some (get_field fs 0)) s))))))"

section \<open>External values with a tag\<close>

text \<open>\<open>v\<close> is the new value and \<open>w\<close> the new record.\<close>

definition napi_create_external_s ::
    "nat \<Rightarrow> addr \<Rightarrow> bool \<Rightarrow> vm_call \<Rightarrow> addr option \<Rightarrow> nat option \<Rightarrow> type_tag option \<Rightarrow> unit option \<Rightarrow> sendable_env \<Rightarrow>
     (sendable_env \<times> napi_status \<times> nat option) outcome" where
  "napi_create_external_s v w env c data finalize_cb type_tag result =
     NAPI_PREAMBLE env c (CHECK_ARG type_tag (CHECK_ARG result (\<lambda>s.
       GET_RETURN_STATUS c (Some v) (s\<lparr>
         wrapper_heap := (wrapper_heap s)(w \<mapsto> \<lparr>wrapped_data = data, wrapped_tag = the type_tag, wrapped_cb = finalize_cb\<rparr>),
         external_values := (external_values s)(v \<mapsto> WrapperPointer w)\<rparr>))))"

text \<open>The callback of the reference, which runs when the value is collected.\<close>

definition wrapperCallback :: "addr \<Rightarrow> sendable_env \<Rightarrow> sendable_env outcome" where
  "wrapperCallback w s = deref (wrapper_heap s w) (\<lambda>d.
     Returns (s\<lparr>wrapper_heap := (wrapper_heap s)(w := None), external_finalized := external_finalized s @
       (case wrapped_cb d of None \<Rightarrow> [] | Some cb \<Rightarrow> [(cb, wrapped_data d)])\<rparr>))"

definition collect_external :: "nat \<Rightarrow> sendable_env \<Rightarrow> sendable_env outcome" where
  "collect_external v s =
     (case external_values s v of
        Some (WrapperPointer w) \<Rightarrow> wrapperCallback w (s\<lparr>external_values := (external_values s)(v := None)\<rparr>)
      | _ \<Rightarrow> Returns (s\<lparr>external_values := (external_values s)(v := None)\<rparr>))"

definition napi_get_value_external_s ::
    "bool \<Rightarrow> vm_call \<Rightarrow> nat option \<Rightarrow> type_tag option \<Rightarrow> unit option \<Rightarrow> sendable_env \<Rightarrow>
     (sendable_env \<times> napi_status \<times> addr option option) outcome" where
  "napi_get_value_external_s env c val type_tag result =
     NAPI_PREAMBLE env c (CHECK_ARG val (CHECK_ARG type_tag (CHECK_ARG result (\<lambda>s.
       case external_values s (the val) of
         Some (WrapperPointer w) \<Rightarrow> deref (wrapper_heap s w) (\<lambda>d.
           if fst (wrapped_tag d) \<noteq> fst (the type_tag) \<or> snd (wrapped_tag d) \<noteq> snd (the type_tag)
           then napi_set_last_error napi_invalid_arg None s
           else GET_RETURN_STATUS c (Some (wrapped_data d)) s)
       | _ \<Rightarrow> napi_set_last_error napi_invalid_arg None s))))"

section \<open>Strong references to sendable values\<close>

definition napi_create_strong_sendable_reference ::
    "(nat \<Rightarrow> bool) \<Rightarrow> addr \<Rightarrow> bool \<Rightarrow> bool \<Rightarrow> nat option \<Rightarrow> unit option \<Rightarrow> sendable_env \<Rightarrow> (sendable_env \<times> napi_status \<times> addr option) outcome" where
  "napi_create_strong_sendable_reference sendable a mc env val result =
     CHECK_ENV env (CHECK_ARG val (CHECK_ARG result (\<lambda>s.
       if \<not> mc then napi_set_last_error napi_invalid_arg None s
       else if \<not> sendable (the val) then napi_set_last_error napi_object_expected None s
       else napi_clear_last_error (Some a) (s\<lparr>sendable_refs := (sendable_refs s)(a \<mapsto> the val)\<rparr>))))"

definition napi_delete_strong_sendable_reference ::
    "(nat \<Rightarrow> bool) \<Rightarrow> bool \<Rightarrow> bool \<Rightarrow> addr option \<Rightarrow> sendable_env \<Rightarrow> (sendable_env \<times> napi_status \<times> unit option) outcome" where
  "napi_delete_strong_sendable_reference sendable mc env ref =
     CHECK_ENV env (CHECK_ARG ref (\<lambda>s.
       if \<not> mc then napi_set_last_error napi_invalid_arg None s
       else deref (sendable_refs s (the ref)) (\<lambda>v.
         if \<not> sendable v then napi_set_last_error napi_generic_failure None s
         else napi_clear_last_error None (s\<lparr>sendable_refs := (sendable_refs s)(the ref := None)\<rparr>))))"

definition napi_get_strong_sendable_reference_value ::
    "(nat \<Rightarrow> bool) \<Rightarrow> bool \<Rightarrow> bool \<Rightarrow> addr option \<Rightarrow> unit option \<Rightarrow> sendable_env \<Rightarrow> (sendable_env \<times> napi_status \<times> nat option) outcome" where
  "napi_get_strong_sendable_reference_value sendable mc env ref result =
     CHECK_ENV env (CHECK_ARG ref (CHECK_ARG result (\<lambda>s.
       if \<not> mc then napi_set_last_error napi_invalid_arg None s
       else deref (sendable_refs s (the ref)) (\<lambda>v.
         if \<not> sendable v then napi_set_last_error napi_generic_failure None s
         else napi_clear_last_error (Some v) s))))"

section \<open>Native binding objects\<close>

text \<open>
  The information of a binding, in a heap; \<open>dropped_by\<close> holds the information that each native pointer of the VM deletes when it is collected.
\<close>

record binding_info =
  binding_object :: addr
  detach_cb :: nat
  attach_cb :: nat
  detachedFinalizer :: "nat option"

record binding_env = call_env +
  infos :: "addr \<rightharpoonup> binding_info"
  dropped_by :: "nat \<rightharpoonup> addr"
  binding_of :: "nat \<rightharpoonup> nat"

text \<open>\<open>data\<close> is the allocated information, if there is memory, \<open>ptr\<close> the native pointer, and \<open>res\<close> the answer of the VM's conversion.\<close>

definition napi_coerce_to_native_binding_object ::
    "addr option \<Rightarrow> nat \<Rightarrow> bool \<Rightarrow> bool \<Rightarrow> bool \<Rightarrow> vm_call \<Rightarrow> nat option \<Rightarrow> nat option \<Rightarrow> nat option \<Rightarrow> addr option \<Rightarrow> binding_env \<Rightarrow>
     (binding_env \<times> napi_status \<times> unit option) outcome" where
  "napi_coerce_to_native_binding_object data ptr res is_obj env c js_object detach attach native_object =
     CHECK_ENV env (CHECK_ARG js_object (CHECK_ARG detach (CHECK_ARG attach (CHECK_ARG native_object (SWITCH_CONTEXT c (
       RETURN_STATUS_IF_FALSE is_obj napi_object_expected (\<lambda>s.
         case data of
           None \<Rightarrow> napi_set_last_error napi_invalid_arg None s
         | Some a \<Rightarrow>
             let s1 = s\<lparr>infos := (infos s)(a \<mapsto> \<lparr>binding_object = the native_object, detach_cb = the detach, attach_cb = the attach,
                          detachedFinalizer = None\<rparr>),
                        dropped_by := (dropped_by s)(ptr \<mapsto> a)\<rparr>
             in if res then napi_clear_last_error None (s1\<lparr>binding_of := (binding_of s1)(the js_object \<mapsto> ptr)\<rparr>)
                else Returns (s1\<lparr>infos := (infos s1)(a := None)\<rparr>, napi_generic_failure, None))))))))"

definition napi_add_detached_finalizer ::
    "bool \<Rightarrow> vm_call \<Rightarrow> nat option \<Rightarrow> nat option \<Rightarrow> binding_env \<Rightarrow> (binding_env \<times> napi_status \<times> unit option) outcome" where
  "napi_add_detached_finalizer env c native_binding_object detach_finalize_cb =
     CHECK_ENV env (CHECK_ARG native_binding_object (CHECK_ARG detach_finalize_cb (SWITCH_CONTEXT c (\<lambda>s.
       RETURN_STATUS_IF_FALSE (binding_of s (the native_binding_object) \<noteq> None) napi_object_expected (\<lambda>s.
         case dropped_by s (the (binding_of s (the native_binding_object))) of
           None \<Rightarrow> Returns (s, napi_generic_failure, None)
         | Some a \<Rightarrow> deref (infos s a) (\<lambda>i.
             napi_clear_last_error None (s\<lparr>infos := (infos s)(a \<mapsto> i\<lparr>detachedFinalizer := detach_finalize_cb\<rparr>)\<rparr>))) s))))"

text \<open>The VM collects a native pointer: its deleter deletes the information.\<close>

definition collect_pointer :: "nat \<Rightarrow> binding_env \<Rightarrow> binding_env outcome" where
  "collect_pointer ptr s =
     (case dropped_by s ptr of
        None \<Rightarrow> Returns s
      | Some a \<Rightarrow> deref (infos s a) (\<lambda>_. Returns (s\<lparr>infos := (infos s)(a := None), dropped_by := (dropped_by s)(ptr := None)\<rparr>)))"

text \<open>\<open>detach\<close> and \<open>attach\<close> are the user's callbacks; \<open>None\<close> is a null pointer, and for the second \<open>Some None\<close> the undefined value.\<close>

definition DetachFuncCallback :: "(addr \<Rightarrow> addr option) option \<Rightarrow> bool \<Rightarrow> addr option \<Rightarrow> addr option" where
  "DetachFuncCallback detachData engine object =
     (case (detachData, object) of (Some detach, Some obj) \<Rightarrow> if engine then detach obj else None | _ \<Rightarrow> None)"

definition AttachFuncCallback :: "(addr \<Rightarrow> nat option) option \<Rightarrow> bool \<Rightarrow> addr option \<Rightarrow> nat option option" where
  "AttachFuncCallback attachData engine buffer =
     (if \<not> engine then None
      else case (attachData, buffer) of (Some attach, Some b) \<Rightarrow> Some (attach b) | _ \<Rightarrow> Some None)"

section \<open>Tags\<close>

lemmas sendable_calls = napi_wrap_sendable_def napi_wrap_sendable_with_size_def napi_unwrap_sendable_def napi_remove_wrap_sendable_def
  napi_wrap_sendable_s_def napi_unwrap_sendable_s_def sendable_object_def put_fields_def fields_at_def get_field_def api_defs quiet_def Let_def

lemma length_two: "length fs = 2 \<longleftrightarrow> (\<exists>x y. fs = [x, y])"
  by (cases fs; cases "tl fs") auto

lemma length_one: "length fs = 1 \<longleftrightarrow> (\<exists>x. fs = [x])"
  by (cases fs) auto

text \<open>The native fields that the two ways of wrapping leave.\<close>

lemma wrap_s_effect:
  assumes "native_fields s v \<noteq> None" "\<not> lastException s" "\<forall>n fs. length (resize n fs) = n"
  shows "napi_wrap_sendable_s resize True True quiet (Some v) (Some p) cb (Some a) s
    = Returns (s\<lparr>lastError := napi_ok, native_fields := (native_fields s)(v \<mapsto> [(Some p, cb), (Some a, None)])\<rparr>, napi_ok, None)"
proof -
  have "length (resize 2 (the (native_fields s v))) = 2" using assms(3) by simp
  then obtain x y where "resize 2 (the (native_fields s v)) = [x, y]" unfolding length_two by (elim exE)
  with assms(1,2) show ?thesis by (simp add: sendable_calls)
qed

lemma wrap_effect:
  assumes "native_fields s v \<noteq> None" "\<not> lastException s" "\<forall>n fs. length (resize n fs) = n"
  shows "napi_wrap_sendable resize True True quiet (Some v) (Some p) cb s
    = Returns (s\<lparr>lastError := napi_ok, native_fields := (native_fields s)(v \<mapsto> [(Some p, cb)])\<rparr>, napi_ok, None)"
proof -
  have "length (resize 1 (the (native_fields s v))) = 1" using assms(3) by simp
  then obtain x where "resize 1 (the (native_fields s v)) = [x]" unfolding length_one by (elim exE)
  with assms(1,2) show ?thesis by (simp add: sendable_calls)
qed


definition sendable_demo :: sendable_env where
  "sendable_demo = \<lparr>lastException = False, lastError = napi_ok, native_fields = [1 \<mapsto> []], tag_memory = [50 \<mapsto> (7, 8)],
     external_values = Map.empty, wrapper_heap = Map.empty, external_finalized = [], sendable_refs = Map.empty\<rparr>"


text \<open>The tag itself is not copied: when the caller's variable is gone, the comparison reads freed memory.\<close>

theorem tag_not_copied:
  "\<exists>t. napi_wrap_sendable_s (\<lambda>n fs. replicate n (None, None)) True True quiet (Some 1) (Some 90) None (Some 50) sendable_demo = Returns (t, napi_ok, None) \<and>
    napi_unwrap_sendable_s True True quiet (Some 1) (Some (7, 8)) (Some ()) (t\<lparr>tag_memory := Map.empty\<rparr>) = Fault"
  by (simp add: sendable_calls sendable_demo_def numeral_2_eq_2)

section \<open>External values\<close>

datatype external_op = CreateExternalS nat addr "addr option" "nat option" type_tag | CollectExternal nat | ReadExternalS nat type_tag

fun exec_external :: "external_op \<Rightarrow> sendable_env \<Rightarrow> sendable_env outcome" where
  "exec_external (CreateExternalS v w data cb tag) s = fst_of (napi_create_external_s v w True quiet data cb (Some tag) (Some ()) s)"
| "exec_external (CollectExternal v) s = collect_external v s"
| "exec_external (ReadExternalS v tag) s = fst_of (napi_get_value_external_s True quiet (Some v) (Some tag) (Some ()) s)"

fun external_allowed :: "external_op \<Rightarrow> sendable_env \<Rightarrow> bool" where
  "external_allowed (CreateExternalS v w data cb tag) s \<longleftrightarrow> external_values s v = None \<and> wrapper_heap s w = None"
| "external_allowed _ s \<longleftrightarrow> True"

text \<open>The values hold the records, one each.\<close>

definition external_inv :: "sendable_env \<Rightarrow> bool" where
  "external_inv s \<longleftrightarrow> \<not> lastException s \<and> finite (dom (wrapper_heap s)) \<and>
     (\<forall>w. wrapper_heap s w \<noteq> None \<longleftrightarrow> (\<exists>v. external_values s v = Some (WrapperPointer w))) \<and>
     (\<forall>v v' w. external_values s v = Some (WrapperPointer w) \<longrightarrow> external_values s v' = Some (WrapperPointer w) \<longrightarrow> v = v')"

definition call_of :: "WrapperData \<Rightarrow> (nat \<times> addr option) multiset" where
  "call_of d = (case wrapped_cb d of None \<Rightarrow> {#} | Some cb \<Rightarrow> {#(cb, wrapped_data d)#})"

text \<open>The calls of finalizers that are still to come, and those that a sequence of operations asks for.\<close>

definition calls_due :: "sendable_env \<Rightarrow> (nat \<times> addr option) multiset" where
  "calls_due s = (\<Sum>w \<in> dom (wrapper_heap s). call_of (the (wrapper_heap s w)))"

fun calls_asked :: "external_op list \<Rightarrow> (nat \<times> addr option) multiset" where
  "calls_asked [] = {#}"
| "calls_asked (CreateExternalS v w data cb tag # xs) = (case cb of None \<Rightarrow> {#} | Some f \<Rightarrow> {#(f, data)#}) + calls_asked xs"
| "calls_asked (x # xs) = calls_asked xs"

lemma external_step:
  assumes "external_inv s" "external_allowed x s"
  shows "\<exists>s'. exec_external x s = Returns s' \<and> external_inv s' \<and>
    mset (external_finalized s') + calls_due s' = mset (external_finalized s) + calls_due s + calls_asked [x]"
proof (cases x)
  case (CreateExternalS v w data cb tag)
  let ?d = "\<lparr>wrapped_data = data, wrapped_tag = tag, wrapped_cb = cb\<rparr>"
  let ?s = "s\<lparr>lastError := napi_ok, wrapper_heap := (wrapper_heap s)(w \<mapsto> ?d), external_values := (external_values s)(v \<mapsto> WrapperPointer w)\<rparr>"
  have run: "exec_external x s = Returns ?s"
    using assms(1) by (simp add: CreateExternalS external_inv_def napi_create_external_s_def api_defs quiet_def)
  have new: "external_values s v = None" "wrapper_heap s w = None" using assms(2) by (simp_all add: CreateExternalS)
  have old: "external_values s v' \<noteq> Some (WrapperPointer w)" for v' using assms(1) new(2) unfolding external_inv_def by metis
  have pts: "((wrapper_heap s)(w \<mapsto> ?d)) k \<noteq> None \<longleftrightarrow> (\<exists>v'. ((external_values s)(v \<mapsto> WrapperPointer w)) v' = Some (WrapperPointer k))" for k
  proof (cases "k = w")
    case False
    have "external_values s v' = Some (WrapperPointer k) \<Longrightarrow> v' \<noteq> v" for v' using new(1) by auto
    with False assms(1) show ?thesis unfolding external_inv_def by auto
  qed auto
  have inj: "((external_values s)(v \<mapsto> WrapperPointer w)) a = Some (WrapperPointer k) \<Longrightarrow>
      ((external_values s)(v \<mapsto> WrapperPointer w)) b = Some (WrapperPointer k) \<Longrightarrow> a = b" for a b k
    using assms(1) old unfolding external_inv_def by (cases "a = v"; cases "b = v") auto
  have "external_inv ?s" unfolding external_inv_def
  proof (intro conjI allI impI)
    show "wrapper_heap ?s k \<noteq> None \<longleftrightarrow> (\<exists>v'. external_values ?s v' = Some (WrapperPointer k))" for k using pts [of k] by simp
    show "external_values ?s a = Some (WrapperPointer k) \<Longrightarrow> external_values ?s b = Some (WrapperPointer k) \<Longrightarrow> a = b" for a b k
      using inj [of a k b] by simp
  qed (use assms(1) in \<open>simp_all add: external_inv_def\<close>)
  moreover have "w \<notin> dom (wrapper_heap s)" using new(2) by auto
  then have "calls_due ?s = call_of ?d + calls_due s"
  proof -
    have "(\<Sum>k \<in> dom (wrapper_heap s). call_of (the (wrapper_heap ?s k))) = calls_due s"
      unfolding calls_due_def using \<open>w \<notin> dom (wrapper_heap s)\<close> by (intro sum.cong) auto
    then show ?thesis using assms(1) \<open>w \<notin> dom (wrapper_heap s)\<close> by (simp add: calls_due_def external_inv_def)
  qed
  ultimately show ?thesis using run by (auto simp: CreateExternalS call_of_def split: option.splits)
next
  case (CollectExternal v)
  show ?thesis
  proof (cases "\<exists>w. external_values s v = Some (WrapperPointer w)")
    case True
    then obtain w where w: "external_values s v = Some (WrapperPointer w)" by blast
    with assms(1) obtain d where d: "wrapper_heap s w = Some d" unfolding external_inv_def by blast
    let ?s = "s\<lparr>external_values := (external_values s)(v := None), wrapper_heap := (wrapper_heap s)(w := None),
      external_finalized := external_finalized s @ (case wrapped_cb d of None \<Rightarrow> [] | Some cb \<Rightarrow> [(cb, wrapped_data d)])\<rparr>"
    have run: "exec_external x s = Returns ?s" using w d by (simp add: CollectExternal collect_external_def wrapperCallback_def)
    have only: "external_values s v' = Some (WrapperPointer w) \<Longrightarrow> v' = v" for v' using assms(1) w unfolding external_inv_def by blast
    have "((wrapper_heap s)(w := None)) k \<noteq> None \<longleftrightarrow> (\<exists>v'. ((external_values s)(v := None)) v' = Some (WrapperPointer k))" for k
    proof (cases "k = w")
      case True
      then show ?thesis using only by auto
    next
      case False
      have "external_values s v' = Some (WrapperPointer k) \<Longrightarrow> v' \<noteq> v" for v' using False w by auto
      with False assms(1) show ?thesis unfolding external_inv_def by auto
    qed
    note pts = this
    have "external_inv ?s" unfolding external_inv_def
    proof (intro conjI allI impI)
      show "wrapper_heap ?s k \<noteq> None \<longleftrightarrow> (\<exists>v'. external_values ?s v' = Some (WrapperPointer k))" for k using pts [of k] by simp
      show "external_values ?s a = Some (WrapperPointer k) \<Longrightarrow> external_values ?s b = Some (WrapperPointer k) \<Longrightarrow> a = b" for a b k
        using assms(1) unfolding external_inv_def by (auto split: if_splits)
    qed (use assms(1) in \<open>simp_all add: external_inv_def\<close>)
    moreover have "w \<in> dom (wrapper_heap s)" using d by auto
    then have "calls_due s = call_of d + calls_due ?s"
    proof -
      have "(\<Sum>k \<in> dom (wrapper_heap s) - {w}. call_of (the (wrapper_heap s k))) = calls_due ?s"
        unfolding calls_due_def by (intro sum.cong) auto
      then show ?thesis using assms(1) \<open>w \<in> dom (wrapper_heap s)\<close> d
        by (simp add: calls_due_def external_inv_def sum.remove [of _ w])
    qed
    ultimately show ?thesis using run by (auto simp: CollectExternal call_of_def split: option.splits)
  next
    case False
    let ?s = "s\<lparr>external_values := (external_values s)(v := None)\<rparr>"
    have run: "exec_external x s = Returns ?s"
      using False by (auto simp: CollectExternal collect_external_def split: option.splits external_value.splits)
    have pts: "external_values ?s v' = Some (WrapperPointer k) \<longleftrightarrow> external_values s v' = Some (WrapperPointer k)" for v' k
      using False by auto
    have "external_inv ?s" using assms(1) unfolding external_inv_def pts by simp
    then show ?thesis using run by (simp add: CollectExternal calls_due_def)
  qed
next
  case (ReadExternalS v tag)
  have l: "\<not> lastException s" using assms(1) by (simp add: external_inv_def)
  have "exec_external x s = Returns (s\<lparr>lastError := napi_ok\<rparr>) \<or> exec_external x s = Returns (s\<lparr>lastError := napi_invalid_arg\<rparr>)"
  proof (cases "\<exists>w. external_values s v = Some (WrapperPointer w)")
    case True
    then obtain w where w: "external_values s v = Some (WrapperPointer w)" by blast
    with assms(1) obtain d where "wrapper_heap s w = Some d" unfolding external_inv_def by blast
    with w l show ?thesis by (simp add: ReadExternalS napi_get_value_external_s_def api_defs quiet_def)
  next
    case False
    then have "external_values s v = None \<or> (\<exists>p. external_values s v = Some (PlainPointer p))"
      by (cases "external_values s v") (auto intro: external_value.exhaust)
    with l show ?thesis by (auto simp: ReadExternalS napi_get_value_external_s_def api_defs quiet_def)
  qed
  moreover have "external_inv (s\<lparr>lastError := e\<rparr>)" "calls_due (s\<lparr>lastError := e\<rparr>) = calls_due s" for e
    using assms(1) by (simp_all add: external_inv_def calls_due_def)
  ultimately show ?thesis by (auto simp: ReadExternalS)
qed

definition no_sendables :: sendable_env where
  "no_sendables = sendable_demo\<lparr>native_fields := Map.empty, tag_memory := Map.empty\<rparr>"

interpretation external_runs: guarded_machine exec_external external_allowed external_inv no_sendables
proof
  show "external_inv no_sendables" by (simp add: external_inv_def no_sendables_def sendable_demo_def)
  show "\<exists>s'. exec_external x s = Returns s' \<and> external_inv s'" if "external_inv s" "external_allowed x s" for s x
    using external_step [OF that] by blast
qed

lemma calls_asked_Cons: "calls_asked (x # xs) = calls_asked [x] + calls_asked xs"
  by (cases x) simp_all

lemma external_runs_conserve:
  "external_inv s \<Longrightarrow> all_allowed external_allowed exec_external xs s \<Longrightarrow> run_all exec_external xs s = Returns s' \<Longrightarrow>
    mset (external_finalized s') + calls_due s' = mset (external_finalized s) + calls_due s + calls_asked xs"
proof (induction xs arbitrary: s)
  case (Cons x xs)
  then obtain t where t: "exec_external x s = Returns t" "external_inv t"
    "mset (external_finalized t) + calls_due t = mset (external_finalized s) + calls_due s + calls_asked [x]"
    using external_step [of s x] by auto
  from Cons.IH [OF t(2)] Cons.prems t(1) have
    "mset (external_finalized s') + calls_due s' = mset (external_finalized t) + calls_due t + calls_asked xs" by simp
  with t(3) show ?case using calls_asked_Cons [of x xs] by (simp add: add.assoc)
qed simp



section \<open>References and bindings\<close>

text \<open>A strong reference gives its value until it is deleted; after that it may not be used.\<close>

lemma strong_sendable_reference_value:
  assumes "sendable v"
  shows "napi_create_strong_sendable_reference sendable a True True (Some v) (Some ()) s
      = Returns (s\<lparr>sendable_refs := (sendable_refs s)(a \<mapsto> v), lastError := napi_ok\<rparr>, napi_ok, Some a)"
    and "sendable_refs t a = Some v \<Longrightarrow> napi_get_strong_sendable_reference_value sendable True True (Some a) (Some ()) t
      = Returns (t\<lparr>lastError := napi_ok\<rparr>, napi_ok, Some v)"
    and "sendable_refs t a = Some v \<Longrightarrow> \<exists>u. napi_delete_strong_sendable_reference sendable True True (Some a) t = Returns (u, napi_ok, None) \<and>
      napi_get_strong_sendable_reference_value sendable True True (Some a) (Some ()) u = Fault"
  using assms by (simp_all add: napi_create_strong_sendable_reference_def napi_get_strong_sendable_reference_value_def
      napi_delete_strong_sendable_reference_def api_defs)

text \<open>
  When the conversion into a binding object fails the information is deleted, but the native pointer made for it still owns it and deletes it again when it is
  collected.
\<close>

theorem binding_deleted_twice:
  assumes "switch_answer c = None"
  shows "\<exists>s'. napi_coerce_to_native_binding_object (Some a) ptr False True True c (Some v) (Some d) (Some e) (Some n) s
      = Returns (s', napi_generic_failure, None) \<and> collect_pointer ptr s' = Fault"
  using assms by (simp add: napi_coerce_to_native_binding_object_def collect_pointer_def api_defs Let_def)

text \<open>When it succeeds the information lives until the collection, and is deleted once.\<close>

lemma binding_deleted_once:
  assumes "switch_answer c = None"
  shows "\<exists>s' t. napi_coerce_to_native_binding_object (Some a) ptr True True True c (Some v) (Some d) (Some e) (Some n) s = Returns (s', napi_ok, None) \<and>
    infos s' a \<noteq> None \<and> collect_pointer ptr s' = Returns t \<and> infos t a = None \<and> collect_pointer ptr t = Returns t"
  using assms by (simp add: napi_coerce_to_native_binding_object_def collect_pointer_def api_defs Let_def)

end
