(* ===== verification/Spec2Isabelle.thy ===== *)
theory Spec2Isabelle
  imports Napi_Prelude Reference_Manager Finalizers_Pack Native_Reference Reference_Lifecycle Safe_Async_Work Native_Event Engine_Hooks Callback_Scope Module_Names Module_List Module_Manager Module_Loading Idle_Monitor Idle_Props Async_Props Async_Cleanup Wrap_Props Type_Tags Handle_Scopes Native_Timers Class_Props Array_Buffers Module_Require Native_Calls Js_Objects Context_Engine Worker_Counts Cj_Modules Js_Strings Event_Loop Promises Script_Running Js_Values Sendable_Objects
begin

text \<open>
  A model of arkui\_napi, the Node-API layer of the ArkTS runtime: native modules written in C++ are
  loaded into a JS engine, wrap native objects in JS values, run work on other threads and call back
  into the engine's thread.  The JS virtual machine (panda), libuv, the event handler, the resource
  scheduler and the dynamic linker are not part of the repository; everything the repository does
  between them and the user is.

  \<^bold>\<open>How the parts fit together.\<close>  An engine (\<open>NativeEngine\<close>, \<open>ArkNativeEngine\<close>) owns a reference manager,
  a callback scope manager, a module manager, the registries of clean-up functions and a counter of
  waiting requests.  References keep JS values alive and own finalizers; deferred finalizers are
  collected in a pack and posted to the loop.  Thread-safe functions, events, and asynchronous work move
  data from other threads to the loop and hold the engine's counter up while they wait; when the engine
  goes down it runs its clean-up hooks, which may hold the counter up as well, and waits for it to reach
  zero.

  \<^bold>\<open>Theories and sources.\<close>
  \<^item> \<open>Napi_Prelude\<close>: addresses, counters, statuses (common.h), heap access, list and map lemmas.
  \<^item> \<open>Machines\<close>: outcomes of an operation, runs of operations, and the two contracts \<open>guarded_machine\<close> (no
    allowed run touches freed memory; an invariant holds throughout) and \<open>draining_machine\<close> (steps that
    happen by themselves end, and end with nothing left).
  \<^item> \<open>Reference_Manager\<close>: reference\_manager/native\_reference\_manager.cpp, the intrusive list; the
    abstraction is the list of addresses, the interface \<open>handle_registry\<close>.
  \<^item> \<open>Native_Reference\<close>, \<open>Reference_Lifecycle\<close>: native\_engine/impl/ark/ark\_native\_reference.cpp, one
    reference and all runs of operations on references.
  \<^item> \<open>Finalizers_Pack\<close>: ark\_finalizers\_pack.h and the posting in ark\_native\_engine.cpp.
  \<^item> \<open>Safe_Async_Work\<close>: native\_safe\_async\_work.cpp and the thread-safe function entry points of
    native\_node\_api.cpp, as a transition relation between lock sections.
  \<^item> \<open>Native_Event\<close>: native\_event.cpp, cancelable events.
  \<^item> \<open>Engine_Hooks\<close>: the clean-up hooks, instance finalizers and instance data of native\_engine.cpp; both
    registries are instances of \<open>hook_registry\<close>.  \<open>Async_Cleanup\<close>: the asynchronous clean-up hooks of
    native\_node\_api.cpp on top of it.
  \<^item> \<open>Callback_Scope\<close>: callback\_scope\_manager, native\_async\_hook\_context.h, \<open>napi_make_callback\<close>.
  \<^item> \<open>Module_Names\<close>, \<open>Module_List\<close>, \<open>Module_Manager\<close>, \<open>Module_Loading\<close>: module\_manager/, from names and paths
    over the linked list to loading and unloading, and the properties of all runs.
  \<^item> \<open>Idle_Monitor\<close>, \<open>Idle_Props\<close>: ark\_idle\_monitor.cpp, when garbage collections are asked for.
  \<^item> \<open>Async_Work\<close>, \<open>Async_Props\<close>: native\_async\_work.cpp and its entry points.

  \<^bold>\<open>State and operations.\<close>  A class is a record whose fields have the names of its members; a pointer is
  an address into a map of objects, so a use of a freed object is a value (\<open>None\<close> or \<open>Fault\<close>) and never a
  default.  An operation is a function from the state to the new state with the code's result.  Counters
  have the width of the code where they can wrap.  What comes from outside is an argument: the
  allocator's address, libuv's answer, the order in which threads run, a user's callback as a change of
  the state.  Ghost fields (\<open>invoked\<close>, \<open>ran\<close>, \<open>run_log\<close>, \<open>effects\<close> and the like) only record calls.

  \<^bold>\<open>What is shown.\<close>  Memory safety of all allowed runs (references, modules, asynchronous work, clean-up
  hooks); at most once and exactly once laws (finalizers, thread-safe data, events, work, hooks, instance
  data); refinement of pointer structures to sequences (reference list, module list, ring buffer) and
  equivalence of pointer walks with searches; balance of counters (callback scopes, waiting requests,
  pending bytes); bounds (queue length, event identifiers); termination of the destructor, hook and
  shutdown loops; the statuses of error paths; and the ends of the protocols (graceful close, draining,
  freeze reports).  Theorems without a number that exhibit a single run show where the code departs
  from such a law.

  \<^bold>\<open>Loops.\<close>  The destructor loop of the reference manager, the walks of the module list and the waits for
  the loop are \<open>partial_function (option)\<close>: not returning is \<open>None\<close>, and the theorems that they return say
  so for every well-formed state.  No fuel is used elsewhere.

  \<^bold>\<open>Not modelled.\<close>  Functions that check their arguments and forward one call to the VM (most of
  native\_api.cpp, the heap profiler and debugger of ark\_native\_engine.cpp); hybrid and sendable
  references and the Cangjie interface, which are calls of other VMs; the worker start-up; tracing,
  logging and container scopes; the build variants for other platforms.  In the modelled parts: failures
  of \<open>strdup\<close>, nested turns of the loop, and pending JS exceptions inside thread-safe callbacks.

  \<^bold>\<open>Plan.\<close>  Next are the native timers, the critical scopes, and the rest of the engine core (script
  running, worker entry points); then the argument checks of native\_api.cpp as one table.
\<close>

end
